(* ===== verification/Prelude.thy ===== *)
theory Prelude
  imports Complex_Main "HOL-Library.List_Lexorder" "HOL-Library.Char_ord" "HOL-Library.Product_Lexorder" Main
begin

text \<open>
  What the components share: the types that name the model's values, HTTP errors as values,
  rows of a table and the SQL statements over them, the contract of a table with a primary key, the JSON values a TEXT column holds, the
  decimal form of a number, and the few JavaScript string functions the sources call.
\<close>

section \<open>Types and errors\<close>

type_synonym id = string

text \<open>Timestamps: the sources keep ISO-8601 strings in UTC with milliseconds and compare them
  through \<open>Date.parse\<close> or, in SQL, as text of a fixed width; both orders are the order of
  the milliseconds since the epoch, which is what the model keeps.\<close>

type_synonym time = int

text \<open>The exceptions of NestJS that the sources throw, by status; \<open>Failure\<close> is a plain
  \<open>Error\<close> (a 500 for a client).\<close>

datatype http_error =
    BadRequest string
  | Unauthorized string
  | Forbidden string
  | NotFound string
  | Unavailable string
  | Failure string

type_synonym 'a result = "http_error + 'a"

definition is_ok :: "'a result \<Rightarrow> bool" where
  "is_ok r = (case r of Inl _ \<Rightarrow> False | Inr _ \<Rightarrow> True)"

lemma is_ok_simps [simp]: "is_ok (Inr x)" "\<not> is_ok (Inl e)"
  by (simp_all add: is_ok_def)

named_theorems row_simps \<open>what an UPDATE keeps of the rows of a table\<close>

section \<open>Rows\<close>

text \<open>A table is the list of its rows in \<open>rowid\<close> order. INSERT appends, SELECT filters,
  UPDATE \<open>\<dots>\<close> SET \<open>\<dots>\<close> WHERE maps the rows its condition selects.\<close>

definition update_where :: "('r \<Rightarrow> bool) \<Rightarrow> ('r \<Rightarrow> 'r) \<Rightarrow> 'r list \<Rightarrow> 'r list" where
  "update_where P f rs = map (\<lambda>r. if P r then f r else r) rs"

lemma update_where_Nil [simp]: "update_where P f [] = []"
  by (simp add: update_where_def)

lemma update_where_Cons [simp]:
  "update_where P f (r # rs) = (if P r then f r else r) # update_where P f rs"
  by (simp add: update_where_def)

lemma length_update_where [simp]: "length (update_where P f rs) = length rs"
  by (simp add: update_where_def)

lemma map_update_where [row_simps]:
  assumes "\<And>r. g (f r) = g r"
  shows "map g (update_where P f rs) = map g rs"
  using assms by (simp add: update_where_def)

lemma in_set_update_where:
  "r \<in> set (update_where P f rs) \<longleftrightarrow> (\<exists>r0 \<in> set rs. r = (if P r0 then f r0 else r0))"
  by (auto simp: update_where_def)

lemma find_map_key:
  assumes "\<And>r. key (f r) = key r"
  shows "List.find (\<lambda>r. key r = k) (update_where P f rs)
           = map_option (\<lambda>r. if P r then f r else r) (List.find (\<lambda>r. key r = k) rs)"
  using assms by (induction rs) auto

lemma find_key_SomeD:
  "List.find (\<lambda>r. key r = k) rs = Some r \<Longrightarrow> r \<in> set rs \<and> key r = k"
  by (auto simp: find_Some_iff)

lemma find_SomeD: "List.find P rs = Some r \<Longrightarrow> r \<in> set rs \<and> P r"
  by (auto simp: find_Some_iff)

lemma find_key_unique:
  assumes "distinct (map key rs)" and "r \<in> set rs"
  shows "List.find (\<lambda>x. key x = key r) rs = Some r"
  using assms by (induction rs) (auto simp: image_iff)

lemma find_key_None [simp]:
  "List.find (\<lambda>x. key x = k) rs = None \<longleftrightarrow> k \<notin> key ` set rs"
  by (auto simp: find_None_iff)

lemma distinct_key_eq:
  assumes "distinct (map key rs)" and "r \<in> set rs" and "s \<in> set rs" and "key r = key s"
  shows "r = s"
  using assms by (meson distinct_map inj_on_contraD)

text \<open>\<open>[...new Set(xs)]\<close>: the first occurrence of each element, in order.\<close>

fun uniq :: "'a list \<Rightarrow> 'a list" where
  "uniq [] = []"
| "uniq (x # xs) = x # uniq (filter (\<lambda>y. y \<noteq> x) xs)"

lemma set_uniq [simp]: "set (uniq xs) = set xs"
  by (induction xs rule: uniq.induct) auto

lemma distinct_uniq [simp]: "distinct (uniq xs)"
  by (induction xs rule: uniq.induct) auto

lemma find_append: "List.find P (xs @ ys) = (case List.find P xs of None \<Rightarrow> List.find P ys | Some x \<Rightarrow> Some x)"
  by (induction xs) auto

section \<open>Keyed tables\<close>

text \<open>What the services rely on of a table with a primary key: \<open>INSERT \<dots> ON CONFLICT(key) DO UPDATE\<close>
  keeps the row's place and its key, whatever the statement does to the other columns, and DELETE takes the row of
  the key and nothing else of the table.\<close>

locale keyed_table =
  fixes rows :: "'s \<Rightarrow> 'r list" and key :: "'r \<Rightarrow> 'k" and put :: "'r \<Rightarrow> 's \<Rightarrow> 's" and merge :: "'r \<Rightarrow> 'r \<Rightarrow> 'r"
  assumes merge_key: "key old = key new \<Longrightarrow> key (merge new old) = key new"
    and put_rows: "rows (put new s) = (if list_ex (\<lambda>r. key r = key new) (rows s)
          then update_where (\<lambda>r. key r = key new) (merge new) (rows s) else rows s @ [new])"
begin

lemma find_merged:
  "List.find (\<lambda>r. key r = k) (update_where (\<lambda>r. key r = key new) (merge new) rs)
     = (if k = key new then map_option (merge new) (List.find (\<lambda>r. key r = k) rs) else List.find (\<lambda>r. key r = k) rs)"
  by (induction rs) (auto simp: merge_key)

lemma find_put:
  "List.find (\<lambda>r. key r = k) (rows (put new s))
     = (if k = key new then Some (case List.find (\<lambda>r. key r = k) (rows s) of None \<Rightarrow> new | Some old \<Rightarrow> merge new old)
        else List.find (\<lambda>r. key r = k) (rows s))"
proof (cases "List.find (\<lambda>r. key r = key new) (rows s)")
  case None
  then have "\<not> list_ex (\<lambda>r. key r = key new) (rows s)" by (simp del: find_key_None add: find_None_iff list_ex_iff)
  then show ?thesis using None by (simp del: find_key_None add: put_rows find_append split: option.split)
next
  case (Some old)
  then have "list_ex (\<lambda>r. key r = key new) (rows s)" using find_key_SomeD [OF Some] by (auto simp: list_ex_iff)
  then show ?thesis using Some by (simp add: put_rows find_merged)
qed

lemma put_keys: "map key (rows (put new s)) = (if list_ex (\<lambda>r. key r = key new) (rows s) then map key (rows s) else map key (rows s) @ [key new])"
  using merge_key by (auto simp: put_rows update_where_def list_ex_iff)

lemma put_keeps_distinct: "distinct (map key (rows s)) \<Longrightarrow> distinct (map key (rows (put new s)))"
  by (auto simp: put_keys list_ex_iff)

end

locale deletable_table = keyed_table rows key put merge
  for rows :: "'s \<Rightarrow> 'r list" and key :: "'r \<Rightarrow> 'k" and put and merge +
  fixes delete :: "'k \<Rightarrow> 's \<Rightarrow> 's"
  assumes delete_rows: "rows (delete k s) = filter (\<lambda>r. key r \<noteq> k) (rows s)"
begin

lemma find_delete:
  "List.find (\<lambda>r. key r = i) (rows (delete k s)) = (if i = k then None else List.find (\<lambda>r. key r = i) (rows s))"
proof -
  have "List.find (\<lambda>r. key r = i) (filter (\<lambda>r. key r \<noteq> k) rs) = (if i = k then None else List.find (\<lambda>r. key r = i) rs)" for rs
    by (induction rs) auto
  then show ?thesis by (simp add: delete_rows)
qed

lemma delete_put: "rows (delete (key new) (put new s)) = rows (delete (key new) s)"
proof -
  have "filter (\<lambda>r. key r \<noteq> key new) (update_where (\<lambda>r. key r = key new) (merge new) rs) = filter (\<lambda>r. key r \<noteq> key new) rs" for rs
    by (induction rs) (auto simp: merge_key)
  then show ?thesis by (simp add: delete_rows put_rows)
qed

lemma delete_keeps_distinct: "distinct (map key (rows s)) \<Longrightarrow> distinct (map key (rows (delete k s)))"
  by (simp add: delete_rows distinct_map_filter)

end

section \<open>JSON columns\<close>

datatype json =
    JNull
  | JBool bool
  | JNum int
  | JStr string
  | JArr "json list"
  | JObj "(string \<times> json) list"

text \<open>A TEXT column that the sources hand to \<open>JSON.parse\<close>: NULL or the empty string, text
  that the parser rejects, or text that parses to a value.\<close>

datatype jtext = Absent | Corrupt | Parsed json

definition is_jstr :: "json \<Rightarrow> bool" where
  "is_jstr j = (case j of JStr _ \<Rightarrow> True | _ \<Rightarrow> False)"

fun jstr :: "json \<Rightarrow> string" where
  "jstr (JStr s) = s"
| "jstr _ = []"

text \<open>\<open>Boolean(value)\<close> of a JSON value.\<close>

fun truthy :: "json \<Rightarrow> bool" where
  "truthy JNull = False"
| "truthy (JBool b) = b"
| "truthy (JNum n) = (n \<noteq> 0)"
| "truthy (JStr s) = (s \<noteq> [])"
| "truthy (JArr _) = True"
| "truthy (JObj _) = True"

text \<open>Property access \<open>value.key\<close>: \<open>None\<close> is \<open>undefined\<close>. (JSON.parse keeps the last of
  duplicated keys; the property list is read from its end.)\<close>

definition jget :: "json \<Rightarrow> string \<Rightarrow> json option" where
  "jget j k = (case j of JObj ps \<Rightarrow> map_of (rev ps) k | _ \<Rightarrow> None)"

section \<open>Decimal numbers\<close>

definition digit_char :: "nat \<Rightarrow> char" where
  "digit_char d = char_of (48 + d)"

definition char_digit :: "char \<Rightarrow> nat" where
  "char_digit c = of_char c - 48"

definition is_digit :: "char \<Rightarrow> bool" where
  "is_digit c = (CHR ''0'' \<le> c \<and> c \<le> CHR ''9'')"

text \<open>\<open>String(n)\<close> of a natural number.\<close>

fun show_nat :: "nat \<Rightarrow> string" where
  "show_nat n = (if n < 10 then [digit_char n] else show_nat (n div 10) @ [digit_char (n mod 10)])"

declare show_nat.simps [simp del]

definition read_nat :: "string \<Rightarrow> nat" where
  "read_nat s = foldl (\<lambda>a c. 10 * a + char_digit c) 0 s"

lemma char_digit_digit_char [simp]: "d < 10 \<Longrightarrow> char_digit (digit_char d) = d"
  by (simp add: char_digit_def digit_char_def)

lemma read_nat_snoc: "read_nat (s @ [c]) = 10 * read_nat s + char_digit c"
  by (simp add: read_nat_def)

lemma read_show_nat [simp]: "read_nat (show_nat n) = n"
proof (induction n rule: show_nat.induct)
  case (1 n)
  show ?case
  proof (cases "n < 10")
    case True
    then show ?thesis by (subst show_nat.simps) (simp add: read_nat_def)
  next
    case False
    with "1.IH" show ?thesis
      by (subst show_nat.simps) (simp add: read_nat_snoc)
  qed
qed

lemma show_nat_inject [simp]: "show_nat m = show_nat n \<longleftrightarrow> m = n"
  by (metis read_show_nat)

lemma show_nat_not_Nil [simp]: "show_nat n \<noteq> []"
  by (subst show_nat.simps) simp

section \<open>Fresh identifiers\<close>

text \<open>\<open>crypto.randomUUID()\<close>. The randomness is a supply numbered by the draws so far: the
  \<open>n\<close>-th draw is \<open>uuid n\<close>, and two draws never agree. A UUID never has a colon.\<close>

definition uuid :: "nat \<Rightarrow> id" where
  "uuid n = ''uuid-'' @ show_nat n"

lemma uuid_inject [simp]: "uuid m = uuid n \<longleftrightarrow> m = n"
  by (simp add: uuid_def)

lemma uuid_not_Nil [simp]: "uuid n \<noteq> []"
  by (simp add: uuid_def)

section \<open>JavaScript strings\<close>

definition starts_with :: "string \<Rightarrow> string \<Rightarrow> bool" where
  "starts_with s p = (take (length p) s = p)"

lemma starts_with_append [simp]: "starts_with (p @ s) p"
  by (simp add: starts_with_def)

definition is_space :: "char \<Rightarrow> bool" where
  "is_space c = (c \<in> {CHR '' '', CHR 0x09, CHR 0x0A, CHR 0x0B, CHR 0x0C, CHR 0x0D, CHR 0xA0})"

text \<open>\<open>s.trim()\<close> over the Latin-1 blanks.\<close>

definition trim :: "string \<Rightarrow> string" where
  "trim s = rev (dropWhile is_space (rev (dropWhile is_space s)))"

definition lower_char :: "char \<Rightarrow> char" where
  "lower_char c = (if CHR ''A'' \<le> c \<and> c \<le> CHR ''Z'' then char_of ((of_char c :: nat) + 32) else c)"

definition to_lower :: "string \<Rightarrow> string" where
  "to_lower s = map lower_char s"

text \<open>\<open>s.split(c)\<close> for a one-character separator: never the empty list.\<close>

fun split_on :: "char \<Rightarrow> string \<Rightarrow> string list" where
  "split_on c [] = [[]]"
| "split_on c (x # xs) =
     (if x = c then [] # split_on c xs
      else (case split_on c xs of [] \<Rightarrow> [[x]] | p # ps \<Rightarrow> (x # p) # ps))"

lemma split_on_not_Nil [simp]: "split_on c s \<noteq> []"
  by (induction s) (auto split: list.splits)

fun join :: "string \<Rightarrow> string list \<Rightarrow> string" where
  "join sep [] = []"
| "join sep [x] = x"
| "join sep (x # y # xs) = x @ sep @ join sep (y # xs)"

lemma split_on_join:
  assumes "xs \<noteq> []" and "\<forall>x \<in> set xs. c \<notin> set x"
  shows "split_on c (join [c] xs) = xs"
proof -
  have no: "c \<notin> set x \<Longrightarrow> split_on c x = [x]" for x
    by (induction x) auto
  have sep: "c \<notin> set x \<Longrightarrow> split_on c (x @ c # s) = x # split_on c s" for x s
    by (induction x) auto
  show ?thesis
    using assms by (induction "[c]" xs rule: join.induct) (auto simp: no sep)
qed

chapter \<open>Lists with distinct keys\<close>

text \<open>
  Counting in lists whose elements have distinct keys: how many are left when some keys are dropped,
  as the caches and the connection limits do it.
\<close>

lemma length_drop_keys:
  assumes "distinct (map f xs)" and "set ks \<subseteq> f ` set xs" and "distinct ks"
  shows "length (filter (\<lambda>x. f x \<notin> set ks) xs) = length xs - length ks"
proof -
  have "length (filter (\<lambda>x. f x \<notin> set ks) xs) = length (filter (\<lambda>k. k \<notin> set ks) (map f xs))"
    by (simp add: filter_map comp_def)
  also have "\<dots> = card (f ` set xs - set ks)"
    using assms(1) by (subst distinct_card [symmetric]) (auto simp: distinct_filter set_diff_eq intro!: arg_cong [where f = card])
  also have "\<dots> = card (f ` set xs) - length ks"
    using assms(2,3) by (simp add: card_Diff_subset distinct_card)
  also have "card (f ` set xs) = length xs" using assms(1) by (metis distinct_card length_map set_map)
  finally show ?thesis .
qed

lemma distinct_map_sort_key: "distinct (map f xs) \<Longrightarrow> distinct (map f (sort_key g xs))"
  by (simp add: distinct_map)

text \<open>Dropping the first \<open>length xs - n\<close> elements in some order leaves at most \<open>n\<close>.\<close>

lemma length_drop_surplus:
  assumes "distinct (map f xs)"
  shows "length (filter (\<lambda>x. f x \<notin> f ` set (take (length xs - n) (sort_key g xs))) xs) \<le> n"
proof -
  let ?ks = "map f (take (length xs - n) (sort_key g xs))"
  have "distinct ?ks" using distinct_map_sort_key [OF assms, of g] by (simp add: take_map [symmetric])
  moreover have "set ?ks \<subseteq> f ` set xs" using set_take_subset [of _ "sort_key g xs"] by fastforce
  ultimately have "length (filter (\<lambda>x. f x \<notin> set ?ks) xs) = length xs - length ?ks" by (intro length_drop_keys [OF assms])
  then show ?thesis by simp
qed

lemma in_map_fixed: "f x = x \<Longrightarrow> x \<in> set xs \<Longrightarrow> x \<in> set (map f xs)"
  by (metis image_eqI set_map)

end
