(* ===== verification/Execution_Types.thy ===== *)
theory Execution_Types
  imports Prelude
begin

text \<open>
  \<open>src/backup/execution.types.ts\<close> and the persisted enumerations of the execution tables: the
  configuration snapshot a pair carries, its normalisation from a schedule
  (\<open>snapshotConfiguration\<close>) and the fingerprint of its selection (\<open>selectionFingerprint\<close>).
  SHA-256 is symbolic: a digest is the value that was hashed, so digests agree exactly when
  the hashed values do (collisions are not modelled).
\<close>

section \<open>Enumerations\<close>

datatype trigger = Scheduled | Manual | Retry | Catchup

datatype exec_status =
    EQueued | ERunning | ECancelRequested | ERetrying
  | ESuccess | EPartialFailure | EFailed | ECancelled | EInterrupted

datatype pair_status =
    PQueued | PRunning | PRetryWait | PCancelRequested
  | PSuccess | PFailed | PCancelled | PInterrupted | PNotStarted

datatype outcome_status = OSuccess | OFailed | OCancelled | OInterrupted

datatype attempt_status = ARunning | AFinished outcome_status

datatype wait_reason = RetryDelay | GlobalCapacity | SourceCapacity

text \<open>The status a pair takes from the outcome of its last attempt.\<close>

fun pair_of_outcome :: "outcome_status \<Rightarrow> pair_status" where
  "pair_of_outcome OSuccess = PSuccess"
| "pair_of_outcome OFailed = PFailed"
| "pair_of_outcome OCancelled = PCancelled"
| "pair_of_outcome OInterrupted = PInterrupted"

fun is_terminal_pair :: "pair_status \<Rightarrow> bool" where
  "is_terminal_pair PSuccess = True"
| "is_terminal_pair PFailed = True"
| "is_terminal_pair PCancelled = True"
| "is_terminal_pair PInterrupted = True"
| "is_terminal_pair PNotStarted = True"
| "is_terminal_pair _ = False"

fun is_ready_status :: "pair_status \<Rightarrow> bool" where
  "is_ready_status PQueued = True"
| "is_ready_status PRetryWait = True"
| "is_ready_status _ = False"

fun is_active_status :: "pair_status \<Rightarrow> bool" where
  "is_active_status PRunning = True"
| "is_active_status PCancelRequested = True"
| "is_active_status _ = False"

fun is_terminal_exec :: "exec_status \<Rightarrow> bool" where
  "is_terminal_exec EQueued = False"
| "is_terminal_exec ERunning = False"
| "is_terminal_exec ERetrying = False"
| "is_terminal_exec ECancelRequested = False"
| "is_terminal_exec _ = True"

text \<open>The execution states from which work may start: \<open>queued\<close>, \<open>running\<close>, \<open>retrying\<close>.\<close>

fun is_startable_exec :: "exec_status \<Rightarrow> bool" where
  "is_startable_exec EQueued = True"
| "is_startable_exec ERunning = True"
| "is_startable_exec ERetrying = True"
| "is_startable_exec _ = False"

lemma pair_status_kinds:
  "is_ready_status s \<or> is_active_status s \<or> is_terminal_pair s"
  by (cases s) auto

lemma pair_status_disjoint [simp]:
  "is_ready_status s \<Longrightarrow> \<not> is_active_status s"
  "is_ready_status s \<Longrightarrow> \<not> is_terminal_pair s"
  "is_active_status s \<Longrightarrow> \<not> is_terminal_pair s"
  by (cases s; simp)+

lemma terminal_pair_of_outcome [simp]: "is_terminal_pair (pair_of_outcome s)"
  by (cases s) auto

lemma startable_not_terminal: "is_startable_exec s \<Longrightarrow> \<not> is_terminal_exec s"
  by (cases s) auto

section \<open>Data\<close>

record backup_objects =
  bo_views :: bool
  bo_routines :: bool
  bo_triggers :: bool
  bo_events :: bool

record pair_selection =
  sel_connection :: id
  sel_target :: id

record snapshot =
  s_name :: string
  s_scope :: string
  s_names :: jtext
  s_layout :: string
  s_objects :: backup_objects
  s_insert_mode :: string
  s_compression :: string
  s_encryption :: string
  s_prefix :: string
  s_retention :: int
  s_retry_count :: int
  s_retry_delay :: int
  s_pitr :: bool

text \<open>\<open>PairExecutionContext\<close> and \<open>PairOutcome\<close>: what the coordinator hands to the backup worker,
  and what the worker answers.\<close>

record pair_context =
  x_execution :: id
  x_pair :: id
  x_attempt :: id
  x_number :: int
  x_job :: id
  x_connection :: id
  x_target :: id
  x_snapshot :: snapshot

record pair_outcome =
  o_run :: id
  o_status :: outcome_status
  o_stage :: "string option"
  o_error :: "string option"
  o_warnings :: "string list"

datatype digest = Sha256 json | Plain string

section \<open>Selections\<close>

definition bad_names :: http_error where
  "bad_names = Failure ''Invalid persisted database names: expected a JSON array of strings''"

text \<open>\<open>parseDatabaseNames\<close>: corrupt persisted selections are rejected, not silently changed.
  (\<open>JSON.parse\<close> of the empty text fails, and of NULL gives null: not an array either.)\<close>

fun parse_database_names :: "jtext \<Rightarrow> string list result" where
  "parse_database_names (Parsed (JArr xs)) =
     (if list_all is_jstr xs then Inr (map jstr xs) else Inl bad_names)"
| "parse_database_names _ = Inl bad_names"

text \<open>\<open>text || '[]'\<close> for a column that holds a JSON array.\<close>

definition or_empty_array :: "jtext \<Rightarrow> jtext" where
  "or_empty_array t = (if t = Absent then Parsed (JArr []) else t)"

definition json_names :: "string list \<Rightarrow> jtext" where
  "json_names ns = Parsed (JArr (map JStr ns))"

definition canonical_names :: "string list \<Rightarrow> string list" where
  "canonical_names ns = sort (uniq ns)"

definition fingerprint_key :: "string list \<Rightarrow> snapshot \<Rightarrow> json" where
  "fingerprint_key ns s = JArr
     [JStr (s_scope s), JArr (map JStr ns), JStr (s_layout s),
      JArr [JBool (bo_views (s_objects s)), JBool (bo_routines (s_objects s)),
            JBool (bo_triggers (s_objects s)), JBool (bo_events (s_objects s))],
      JStr (s_insert_mode s), JStr (s_compression s), JStr (s_encryption s)]"

definition selection_fingerprint :: "snapshot \<Rightarrow> digest result" where
  "selection_fingerprint s =
     (if s_scope s = ''all'' then Inr (Sha256 (fingerprint_key [] s))
      else case parse_database_names (s_names s) of
             Inl e \<Rightarrow> Inl e
           | Inr ns \<Rightarrow> Inr (Sha256 (fingerprint_key (canonical_names ns) s)))"

lemma parse_json_names [simp]: "parse_database_names (json_names ns) = Inr ns"
  by (simp add: json_names_def is_jstr_def list_all_iff comp_def)

lemma set_canonical_names [simp]: "set (canonical_names ns) = set ns"
  by (simp add: canonical_names_def)

lemma canonical_names_eq_iff: "canonical_names ms = canonical_names ns \<longleftrightarrow> set ms = set ns"
proof
  assume "set ms = set ns"
  then show "canonical_names ms = canonical_names ns"
    unfolding canonical_names_def
    by (intro sorted_distinct_set_unique) simp_all
qed (metis set_canonical_names)

lemma inj_JStr: "map JStr xs = map JStr ys \<longleftrightarrow> xs = ys"
  by (rule inj_map_eq_map) (simp add: inj_def)

lemma fingerprint_key_eq_iff:
  "fingerprint_key ms s = fingerprint_key ns t \<longleftrightarrow>
     ms = ns \<and> s_scope s = s_scope t \<and> s_layout s = s_layout t \<and> s_objects s = s_objects t
     \<and> s_insert_mode s = s_insert_mode t \<and> s_compression s = s_compression t
     \<and> s_encryption s = s_encryption t"
  by (auto simp: fingerprint_key_def inj_JStr)

end
