(* ===== verification/Control_Db.thy ===== *)
theory Control_Db
  imports Execution_Types
begin

text \<open>
  The control-plane database: one record per table of \<open>migrate\<close> in
  \<open>src/database/database.service.ts\<close> that the modelled components read or write, with the
  columns they use, and the state \<open>db\<close> that holds the tables. NULL is \<open>None\<close>; a TEXT column
  that holds JSON is a \<open>jtext\<close> or the value it is always written with.
\<close>

section \<open>Rows\<close>

record user_row =
  u_id :: id
  u_name :: string
  u_hash :: string
  u_role :: string
  u_created :: time
  u_last_login :: "time option"

record session_row =
  ss_id :: id
  ss_user :: id
  ss_csrf :: string
  ss_expires :: time
  ss_created :: time

record connection_row =
  c_id :: id
  c_name :: string
  c_engine :: string
  c_host :: string
  c_port :: int
  c_database_name :: string
  c_names :: jtext
  c_purpose :: string
  c_group :: "string option"

record target_row =
  t_id :: id
  t_name :: string
  t_type :: string

record job_row =
  j_id :: id
  j_name :: string
  j_connection :: id
  j_target :: id
  j_scope :: string
  j_names :: jtext
  j_layout :: string
  j_objects :: jtext
  j_insert_mode :: string
  j_cron :: string
  j_timezone :: string
  j_enabled :: bool
  j_compression :: string
  j_encryption :: string
  j_retention :: int
  j_retry_count :: int
  j_retry_delay :: int
  j_overlap :: string
  j_prefix :: string
  j_next_run :: "time option"
  j_created :: time
  j_start_grace :: int
  j_max_age :: int
  j_long_running :: int

record job_connection_row =
  jc_job :: id
  jc_connection :: id
  jc_names :: jtext
  jc_position :: int

record job_storage_row =
  js_job :: id
  js_target :: id
  js_position :: int
  js_required :: bool

record run_row =
  r_id :: id
  r_job :: id
  r_status :: string
  r_started :: time
  r_finished :: "time option"
  r_connection :: "id option"
  r_target :: "id option"
  r_scope :: "string option"
  r_names :: jtext
  r_layout :: "string option"
  r_objects :: jtext
  r_insert_mode :: "string option"
  r_compression :: "string option"
  r_encryption :: "string option"
  r_verification :: "string option"
  r_attempt :: "id option"

record pitr_source_row =
  ps_connection :: id
  ps_enabled :: bool
  ps_base_job :: "id option"

record group_row =
  g_id :: string
  g_name :: string
  g_concurrency :: int

record exec_row =
  e_id :: id
  e_job :: id
  e_trigger :: trigger
  e_status :: exec_status
  e_scheduled_for :: "time option"
  e_queued_at :: time
  e_started :: "time option"
  e_finished :: "time option"
  e_parent :: "id option"
  e_actor :: "id option"
  e_priority :: int
  e_sequence :: int
  e_warnings :: "string list"
  e_missed_count :: int
  e_missed_from :: "time option"
  e_missed_to :: "time option"

record pair_row =
  p_id :: id
  p_execution :: id
  p_connection :: id
  p_target :: id
  p_fingerprint :: digest
  p_group :: string
  p_required :: bool
  p_status :: pair_status
  p_wait :: "wait_reason option"
  p_snapshot :: snapshot
  p_next :: "time option"
  p_started :: "time option"
  p_finished :: "time option"
  p_warnings :: "string list"

record attempt_row =
  a_id :: id
  a_pair :: id
  a_number :: int
  a_status :: attempt_status
  a_run :: "id option"
  a_started :: "time option"
  a_finished :: "time option"
  a_stage :: "string option"
  a_error :: "string option"
  a_warnings :: "string list"

record event_row =
  v_id :: id
  v_execution :: "id option"
  v_pair :: "id option"
  v_kind :: string
  v_actor :: "id option"
  v_payload :: jtext
  v_created :: time

datatype incident_kind = KFreshness | KMissedStart | KLongRunning

record incident_row =
  i_id :: id
  i_job :: id
  i_connection :: id
  i_target :: id
  i_fingerprint :: digest
  i_kind :: incident_kind
  i_open :: bool
  i_opened :: time
  i_updated :: time
  i_resolved :: "time option"
  i_evidence :: jtext

datatype outbox_status = NPending | NDelivered | NSuppressed | NSuperseded | NExhausted

record outbox_row =
  n_id :: id
  n_event :: id
  n_execution :: "id option"
  n_incident :: "id option"
  n_kind :: string
  n_payload :: jtext
  n_status :: outbox_status
  n_attempts :: nat
  n_next :: time
  n_delivered :: "time option"
  n_error :: "string option"
  n_created :: time

section \<open>The database\<close>

record db =
  users :: "user_row list"
  sessions :: "session_row list"
  setup_claim :: "time option"
  settings :: "string \<rightharpoonup> string"
  connections :: "connection_row list"
  targets :: "target_row list"
  jobs :: "job_row list"
  job_connections :: "job_connection_row list"
  job_storages :: "job_storage_row list"
  runs :: "run_row list"
  pitr_sources :: "pitr_source_row list"
  source_groups :: "group_row list"
  executions :: "exec_row list"
  pairs :: "pair_row list"
  attempts :: "attempt_row list"
  events :: "event_row list"
  outbox :: "outbox_row list"
  incidents :: "incident_row list"
  draws :: nat

text \<open>\<open>draws\<close> is not a table: it counts the UUIDs drawn so far (\<open>crypto.randomUUID\<close>).\<close>

definition empty_db :: db where
  "empty_db = \<lparr>users = [], sessions = [], setup_claim = None, settings = Map.empty,
     connections = [], targets = [], jobs = [], job_connections = [], job_storages = [],
     runs = [], pitr_sources = [], source_groups = [], executions = [], pairs = [],
     attempts = [], events = [], outbox = [], incidents = [], draws = 0\<rparr>"

lemma empty_db_tables [simp]:
  "users empty_db = []" "sessions empty_db = []" "setup_claim empty_db = None"
  "settings empty_db = Map.empty" "connections empty_db = []" "targets empty_db = []"
  "jobs empty_db = []" "job_connections empty_db = []" "job_storages empty_db = []"
  "runs empty_db = []" "pitr_sources empty_db = []" "source_groups empty_db = []"
  "executions empty_db = []" "pairs empty_db = []" "attempts empty_db = []"
  "events empty_db = []" "outbox empty_db = []" "incidents empty_db = []" "draws empty_db = 0"
  by (simp_all add: empty_db_def)

section \<open>Selections by key\<close>

definition find_exec :: "db \<Rightarrow> id \<Rightarrow> exec_row option" where
  "find_exec d i = List.find (\<lambda>e. e_id e = i) (executions d)"

definition find_pair :: "db \<Rightarrow> id \<Rightarrow> pair_row option" where
  "find_pair d i = List.find (\<lambda>p. p_id p = i) (pairs d)"

definition find_attempt :: "db \<Rightarrow> id \<Rightarrow> attempt_row option" where
  "find_attempt d i = List.find (\<lambda>a. a_id a = i) (attempts d)"

definition find_job :: "db \<Rightarrow> id \<Rightarrow> job_row option" where
  "find_job d i = List.find (\<lambda>j. j_id j = i) (jobs d)"

definition find_connection :: "db \<Rightarrow> id \<Rightarrow> connection_row option" where
  "find_connection d i = List.find (\<lambda>c. c_id c = i) (connections d)"

definition find_user :: "db \<Rightarrow> id \<Rightarrow> user_row option" where
  "find_user d i = List.find (\<lambda>u. u_id u = i) (users d)"

definition find_run :: "db \<Rightarrow> id \<Rightarrow> run_row option" where
  "find_run d i = List.find (\<lambda>r. r_id r = i) (runs d)"

definition pairs_of :: "db \<Rightarrow> id \<Rightarrow> pair_row list" where
  "pairs_of d e = filter (\<lambda>p. p_execution p = e) (pairs d)"

definition attempts_of :: "db \<Rightarrow> id \<Rightarrow> attempt_row list" where
  "attempts_of d p = filter (\<lambda>a. a_pair a = p) (attempts d)"

lemma find_exec_SomeD: "find_exec d i = Some e \<Longrightarrow> e \<in> set (executions d) \<and> e_id e = i"
  unfolding find_exec_def by (rule find_key_SomeD)

lemma find_pair_SomeD: "find_pair d i = Some p \<Longrightarrow> p \<in> set (pairs d) \<and> p_id p = i"
  unfolding find_pair_def by (rule find_key_SomeD)

lemma find_attempt_SomeD: "find_attempt d i = Some a \<Longrightarrow> a \<in> set (attempts d) \<and> a_id a = i"
  unfolding find_attempt_def by (rule find_key_SomeD)

lemma in_pairs_of [simp]: "p \<in> set (pairs_of d e) \<longleftrightarrow> p \<in> set (pairs d) \<and> p_execution p = e"
  by (auto simp: pairs_of_def)

lemma in_attempts_of [simp]: "a \<in> set (attempts_of d p) \<longleftrightarrow> a \<in> set (attempts d) \<and> a_pair a = p"
  by (auto simp: attempts_of_def)

section \<open>Writes\<close>

text \<open>An appended event (\<open>INSERT INTO execution_events\<close>), with a fresh id.\<close>

definition add_event ::
  "time \<Rightarrow> id option \<Rightarrow> id option \<Rightarrow> string \<Rightarrow> id option \<Rightarrow> jtext \<Rightarrow> db \<Rightarrow> db" where
  "add_event now ex pr kind actor payload d =
     d\<lparr>events := events d @ [\<lparr>v_id = uuid (draws d), v_execution = ex, v_pair = pr, v_kind = kind,
                              v_actor = actor, v_payload = payload, v_created = now\<rparr>],
       draws := Suc (draws d)\<rparr>"

definition update_pairs :: "(pair_row \<Rightarrow> bool) \<Rightarrow> (pair_row \<Rightarrow> pair_row) \<Rightarrow> db \<Rightarrow> db" where
  "update_pairs P f d = d\<lparr>pairs := update_where P f (pairs d)\<rparr>"

definition update_execs :: "(exec_row \<Rightarrow> bool) \<Rightarrow> (exec_row \<Rightarrow> exec_row) \<Rightarrow> db \<Rightarrow> db" where
  "update_execs P f d = d\<lparr>executions := update_where P f (executions d)\<rparr>"

definition update_attempts :: "(attempt_row \<Rightarrow> bool) \<Rightarrow> (attempt_row \<Rightarrow> attempt_row) \<Rightarrow> db \<Rightarrow> db" where
  "update_attempts P f d = d\<lparr>attempts := update_where P f (attempts d)\<rparr>"

lemma add_event_tables [simp]:
  "executions (add_event now ex pr k a pl d) = executions d"
  "pairs (add_event now ex pr k a pl d) = pairs d"
  "attempts (add_event now ex pr k a pl d) = attempts d"
  "source_groups (add_event now ex pr k a pl d) = source_groups d"
  "connections (add_event now ex pr k a pl d) = connections d"
  "users (add_event now ex pr k a pl d) = users d"
  "jobs (add_event now ex pr k a pl d) = jobs d"
  "settings (add_event now ex pr k a pl d) = settings d"
  "runs (add_event now ex pr k a pl d) = runs d"
  "incidents (add_event now ex pr k a pl d) = incidents d"
  "draws (add_event now ex pr k a pl d) = Suc (draws d)"
  by (simp_all add: add_event_def)

lemma update_pairs_tables [simp]:
  "pairs (update_pairs P f d) = update_where P f (pairs d)"
  "executions (update_pairs P f d) = executions d"
  "attempts (update_pairs P f d) = attempts d"
  "source_groups (update_pairs P f d) = source_groups d"
  "connections (update_pairs P f d) = connections d"
  "users (update_pairs P f d) = users d"
  "jobs (update_pairs P f d) = jobs d"
  "settings (update_pairs P f d) = settings d"
  "draws (update_pairs P f d) = draws d"
  "events (update_pairs P f d) = events d"
  by (simp_all add: update_pairs_def)

lemma update_execs_tables [simp]:
  "executions (update_execs P g d) = update_where P g (executions d)"
  "pairs (update_execs P g d) = pairs d"
  "attempts (update_execs P g d) = attempts d"
  "source_groups (update_execs P g d) = source_groups d"
  "connections (update_execs P g d) = connections d"
  "users (update_execs P g d) = users d"
  "jobs (update_execs P g d) = jobs d"
  "settings (update_execs P g d) = settings d"
  "draws (update_execs P g d) = draws d"
  "events (update_execs P g d) = events d"
  by (simp_all add: update_execs_def)

lemma update_attempts_tables [simp]:
  "attempts (update_attempts P h d) = update_where P h (attempts d)"
  "executions (update_attempts P h d) = executions d"
  "pairs (update_attempts P h d) = pairs d"
  "source_groups (update_attempts P h d) = source_groups d"
  "connections (update_attempts P h d) = connections d"
  "users (update_attempts P h d) = users d"
  "jobs (update_attempts P h d) = jobs d"
  "settings (update_attempts P h d) = settings d"
  "draws (update_attempts P h d) = draws d"
  "events (update_attempts P h d) = events d"
  by (simp_all add: update_attempts_def)

end
