(* ===== verification/Selection.thy ===== *)
theory Selection
  imports Control_Db
begin

text \<open>
  \<open>snapshotConfiguration\<close> of \<open>src/backup/execution.types.ts\<close>: the normalisation of a
  schedule's configuration that admission (\<open>ExecutionService.enqueue\<close>) and the protection
  policy (\<open>ProtectionService.assess\<close>) share, and what makes its fingerprint an identity of
  the selection.
\<close>

section \<open>Normalisation\<close>

definition null_property :: http_error where
  "null_property = Failure ''Cannot read properties of null''"

text \<open>\<open>objects.key === undefined ? default : Boolean(objects.key)\<close>.\<close>

definition object_flag :: "json \<Rightarrow> string \<Rightarrow> bool \<Rightarrow> bool" where
  "object_flag objects k dflt = (case jget objects k of None \<Rightarrow> dflt | Some v \<Rightarrow> truthy v)"

text \<open>\<open>JSON.parse(job.backup_objects || '{}')\<close>, with \<open>{}\<close> for text that does not parse.\<close>

fun parsed_objects :: "jtext \<Rightarrow> json" where
  "parsed_objects (Parsed j) = j"
| "parsed_objects _ = JObj []"

definition snapshot_layout :: "job_row \<Rightarrow> string" where
  "snapshot_layout j = (if j_layout j = ''database'' \<or> j_layout j = ''table'' then j_layout j else ''single'')"

text \<open>The database names: the selection's own, else the source connection's list, else its
  comma-separated default.\<close>

definition snapshot_names :: "jtext \<Rightarrow> connection_row option \<Rightarrow> string list result" where
  "snapshot_names names source =
     (case parse_database_names (or_empty_array names) of
        Inl e \<Rightarrow> Inl e
      | Inr ns \<Rightarrow>
          (case source of
             None \<Rightarrow> Inr ns
           | Some c \<Rightarrow>
               (if ns \<noteq> [] then Inr ns
                else case parse_database_names (or_empty_array (c_names c)) of
                       Inl e \<Rightarrow> Inl e
                     | Inr ms \<Rightarrow>
                         (if ms \<noteq> [] then Inr ms
                          else Inr (filter (\<lambda>n. n \<noteq> []) (map trim (split_on CHR '','' (c_database_name c))))))))"

definition snapshot_configuration ::
  "job_row \<Rightarrow> jtext \<Rightarrow> connection_row option \<Rightarrow> bool \<Rightarrow> snapshot result" where
  "snapshot_configuration j names source pitr =
     (case snapshot_names names source of
        Inl e \<Rightarrow> Inl e
      | Inr ns \<Rightarrow>
          (let layout = snapshot_layout j; objects = parsed_objects (j_objects j)
           in if objects = JNull then Inl null_property
              else Inr \<lparr>s_name = j_name j,
                        s_scope = (if j_scope j = ''all'' then ''all'' else ''selected''),
                        s_names = json_names (canonical_names ns),
                        s_layout = layout,
                        s_objects = \<lparr>bo_views = object_flag objects ''views'' (layout \<noteq> ''table''),
                                     bo_routines = object_flag objects ''routines'' (layout \<noteq> ''table''),
                                     bo_triggers = object_flag objects ''triggers'' True,
                                     bo_events = object_flag objects ''events'' (layout \<noteq> ''table'')\<rparr>,
                        s_insert_mode = (if j_insert_mode j = ''single-row'' then ''single-row'' else ''extended''),
                        s_compression = (if layout = ''single'' then j_compression j else ''zip''),
                        s_encryption = j_encryption j,
                        s_prefix = j_prefix j,
                        s_retention = j_retention j,
                        s_retry_count = j_retry_count j,
                        s_retry_delay = j_retry_delay j,
                        s_pitr = pitr\<rparr>))"

section \<open>Properties\<close>

lemma snapshot_configuration_Inr:
  assumes "snapshot_configuration j names source pitr = Inr s"
  obtains ns where "snapshot_names names source = Inr ns"
    and "s_names s = json_names (canonical_names ns)"
    and "s_scope s = (if j_scope j = ''all'' then ''all'' else ''selected'')"
    and "s_retry_count s = j_retry_count j" and "s_retry_delay s = j_retry_delay j"
  using assms
  by (auto simp: snapshot_configuration_def Let_def split: sum.splits if_splits)

text \<open>A normalised snapshot always has a fingerprint: once admission has read the persisted
  selection, hashing it cannot fail.\<close>

lemma snapshot_has_fingerprint:
  assumes "snapshot_configuration j names source pitr = Inr s"
  shows "\<exists>f. selection_fingerprint s = Inr f"
  using assms by (auto elim!: snapshot_configuration_Inr simp: selection_fingerprint_def)

text \<open>What the fingerprint of a snapshot with readable names identifies.\<close>

definition same_selection :: "snapshot \<Rightarrow> string list \<Rightarrow> snapshot \<Rightarrow> string list \<Rightarrow> bool" where
  "same_selection s ms t ns \<longleftrightarrow>
     s_scope s = s_scope t \<and> (s_scope s = ''all'' \<or> set ms = set ns)
     \<and> s_layout s = s_layout t \<and> s_objects s = s_objects t \<and> s_insert_mode s = s_insert_mode t
     \<and> s_compression s = s_compression t \<and> s_encryption s = s_encryption t"

text \<open>a fingerprint identifies exactly the protected selection. Two snapshots whose persisted
  names are readable have the same fingerprint if and only if they agree on the scope, on the
  set of selected databases (unless the scope is all), and on layout, object options, insert
  mode, compression and encryption. The order and the repetition of the names, the schedule's
  name, its retention and its retry policy do not enter it.\<close>

theorem fingerprint_identifies_selection:
  assumes "parse_database_names (s_names s) = Inr ms"
    and "parse_database_names (s_names t) = Inr ns"
  shows "selection_fingerprint s = selection_fingerprint t \<longleftrightarrow> same_selection s ms t ns"
  using assms
  by (cases "s_scope s = ''all''"; cases "s_scope t = ''all''")
     (auto simp: selection_fingerprint_def same_selection_def fingerprint_key_eq_iff
        canonical_names_eq_iff)

definition sample_snapshot :: "string list \<Rightarrow> string \<Rightarrow> snapshot" where
  "sample_snapshot ns nm = \<lparr>s_name = nm, s_scope = ''selected'', s_names = json_names ns,
     s_layout = ''single'', s_objects = \<lparr>bo_views = True, bo_routines = True, bo_triggers = True, bo_events = True\<rparr>,
     s_insert_mode = ''extended'', s_compression = ''gzip'', s_encryption = ''none'', s_prefix = nm,
     s_retention = 7, s_retry_count = 2, s_retry_delay = 300, s_pitr = False\<rparr>"

theorem fingerprint_identifies_selection_witness:
  "selection_fingerprint (sample_snapshot [''b'', ''a'', ''b''] ''x'')
     = selection_fingerprint (sample_snapshot [''a'', ''b''] ''y'')
   \<and> selection_fingerprint (sample_snapshot [''a''] ''x'')
     \<noteq> selection_fingerprint (sample_snapshot [''a'', ''b''] ''x'')"
proof -
  have names: "parse_database_names (s_names (sample_snapshot ns nm)) = Inr ns" for ns nm
    by (simp add: sample_snapshot_def)
  have same: "same_selection (sample_snapshot [''b'', ''a'', ''b''] ''x'') [''b'', ''a'', ''b'']
      (sample_snapshot [''a'', ''b''] ''y'') [''a'', ''b'']"
    by (auto simp: same_selection_def sample_snapshot_def)
  have other: "\<not> same_selection (sample_snapshot [''a''] ''x'') [''a'']
      (sample_snapshot [''a'', ''b''] ''x'') [''a'', ''b'']"
    by (auto simp: same_selection_def sample_snapshot_def)
  show ?thesis
    using same other fingerprint_identifies_selection [OF names names] by blast
qed

end
