(* ===== verification/Execution_Store.thy ===== *)
theory Execution_Store
  imports Selection
begin

text \<open>
  \<open>src/backup/execution.store.ts\<close>: the durable queue. \<open>readyPairs\<close> orders the eligible work,
  \<open>get\<close> reads an execution with its pairs and attempts, and the three transactions
  \<open>startAttempt\<close>, \<open>requestCancellation\<close> and \<open>finishAttempt\<close> move pairs and executions through
  their states. A transaction that throws leaves the database as it was: it is \<open>Inl\<close> here,
  and the caller keeps the old state. The clock is read once per transaction (\<open>now\<close>).
\<close>

section \<open>The queue\<close>

record ready_row =
  q_pair :: id
  q_execution :: id
  q_group :: string
  q_next :: "time option"
  q_priority :: int
  q_sequence :: int

definition ready_row_of :: "pair_row \<Rightarrow> exec_row \<Rightarrow> ready_row" where
  "ready_row_of p e = \<lparr>q_pair = p_id p, q_execution = p_execution p, q_group = p_group p,
     q_next = p_next p, q_priority = e_priority e, q_sequence = e_sequence e\<rparr>"

definition ready_join :: "db \<Rightarrow> ready_row list" where
  "ready_join d = concat (map (\<lambda>p.
     case find_exec d (p_execution p) of
       None \<Rightarrow> []
     | Some e \<Rightarrow> if is_ready_status (p_status p) \<and> is_startable_exec (e_status e)
                 then [ready_row_of p e] else []) (pairs d))"

text \<open>\<open>ORDER BY e.priority DESC, e.enqueue_sequence, p.rowid\<close>: the sort is stable, so equal keys
  stay in rowid order.\<close>

definition queue_key :: "ready_row \<Rightarrow> int \<times> int" where
  "queue_key q = (- q_priority q, q_sequence q)"

definition ready_pairs :: "db \<Rightarrow> ready_row list" where
  "ready_pairs d = sort_key queue_key (ready_join d)"

section \<open>Views\<close>

record pair_view =
  pv_id :: id
  pv_connection :: id
  pv_target :: id
  pv_source_name :: "string option"
  pv_target_name :: "string option"
  pv_fingerprint :: digest
  pv_group :: string
  pv_required :: bool
  pv_status :: pair_status
  pv_wait :: "wait_reason option"
  pv_position :: "nat option"
  pv_warnings :: "string list"
  pv_attempts :: "attempt_row list"

record execution_view =
  ev_id :: id
  ev_job :: id
  ev_job_name :: "string option"
  ev_trigger :: trigger
  ev_status :: exec_status
  ev_scheduled_for :: "time option"
  ev_queued_at :: time
  ev_started :: "time option"
  ev_finished :: "time option"
  ev_parent :: "id option"
  ev_pairs :: "pair_view list"
  ev_warnings :: "string list"

text \<open>\<open>findIndex(\<dots>) + 1\<close>: 0 for a pair that is not in the queue.\<close>

fun queue_index :: "id \<Rightarrow> ready_row list \<Rightarrow> nat option" where
  "queue_index i [] = None"
| "queue_index i (q # qs) = (if q_pair q = i then Some 0 else map_option Suc (queue_index i qs))"

definition queue_position :: "db \<Rightarrow> id \<Rightarrow> nat" where
  "queue_position d i = (case queue_index i (ready_pairs d) of None \<Rightarrow> 0 | Some n \<Rightarrow> Suc n)"

definition view_pair :: "db \<Rightarrow> pair_row \<Rightarrow> pair_view" where
  "view_pair d p = \<lparr>pv_id = p_id p, pv_connection = p_connection p, pv_target = p_target p,
     pv_source_name = map_option c_name (find_connection d (p_connection p)),
     pv_target_name = map_option t_name (List.find (\<lambda>t. t_id t = p_target p) (targets d)),
     pv_fingerprint = p_fingerprint p, pv_group = p_group p, pv_required = p_required p,
     pv_status = p_status p, pv_wait = p_wait p,
     pv_position = (if is_ready_status (p_status p) then Some (queue_position d (p_id p)) else None),
     pv_warnings = p_warnings p,
     pv_attempts = sort_key a_number (attempts_of d (p_id p))\<rparr>"

definition execution_not_found :: http_error where
  "execution_not_found = NotFound ''Execution not found''"

definition get_execution :: "db \<Rightarrow> id \<Rightarrow> execution_view result" where
  "get_execution d i =
     (case find_exec d i of
        None \<Rightarrow> Inl execution_not_found
      | Some e \<Rightarrow> Inr \<lparr>ev_id = e_id e, ev_job = e_job e, ev_job_name = map_option j_name (find_job d (e_job e)),
          ev_trigger = e_trigger e, ev_status = e_status e, ev_scheduled_for = e_scheduled_for e,
          ev_queued_at = e_queued_at e, ev_started = e_started e, ev_finished = e_finished e,
          ev_parent = e_parent e, ev_pairs = map (view_pair d) (pairs_of d i), ev_warnings = e_warnings e\<rparr>)"

section \<open>Starting an attempt\<close>

text \<open>\<open>SELECT MAX(attempt_number)\<close>, or 0.\<close>

definition max_attempt :: "db \<Rightarrow> id \<Rightarrow> int" where
  "max_attempt d p = (case map a_number (attempts_of d p) of [] \<Rightarrow> 0 | n # ns \<Rightarrow> fold max ns n)"

definition coalesce :: "'a option \<Rightarrow> 'a \<Rightarrow> 'a option" where
  "coalesce old v = (case old of None \<Rightarrow> Some v | Some w \<Rightarrow> Some w)"

definition json_obj :: "(string \<times> json) list \<Rightarrow> jtext" where
  "json_obj ps = Parsed (JObj ps)"

definition context_of :: "pair_row \<Rightarrow> exec_row \<Rightarrow> id \<Rightarrow> int \<Rightarrow> pair_context" where
  "context_of p e attempt number = \<lparr>x_execution = p_execution p, x_pair = p_id p, x_attempt = attempt,
     x_number = number, x_job = e_job e, x_connection = p_connection p, x_target = p_target p,
     x_snapshot = p_snapshot p\<rparr>"

definition start_writes :: "time \<Rightarrow> pair_row \<Rightarrow> db \<Rightarrow> db" where
  "start_writes now p d =
     (let attempt = uuid (draws d); number = max_attempt d (p_id p) + 1;
          d1 = d\<lparr>attempts := attempts d @ [\<lparr>a_id = attempt, a_pair = p_id p, a_number = number, a_status = ARunning,
                    a_run = None, a_started = Some now, a_finished = None, a_stage = None, a_error = None,
                    a_warnings = []\<rparr>],
                 draws := Suc (draws d)\<rparr>;
          d2 = update_pairs (\<lambda>q. p_id q = p_id p)
                 (\<lambda>q. q\<lparr>p_status := PRunning, p_started := coalesce (p_started q) now, p_wait := None\<rparr>) d1;
          d3 = update_execs (\<lambda>e. e_id e = p_execution p)
                 (\<lambda>e. e\<lparr>e_status := ERunning, e_started := coalesce (e_started e) now\<rparr>) d2
      in add_event now (Some (p_execution p)) (Some (p_id p)) ''attempt_started'' None
           (json_obj [(''attemptId'', JStr attempt), (''attemptNumber'', JNum number)]) d3)"

definition start_attempt :: "time \<Rightarrow> id \<Rightarrow> db \<Rightarrow> (pair_context \<times> db) result" where
  "start_attempt now pair d =
     (case find_pair d pair of
        None \<Rightarrow> Inl (NotFound ''Execution pair not found'')
      | Some p \<Rightarrow>
          (case find_exec d (p_execution p) of
             None \<Rightarrow> Inl (NotFound ''Execution pair not found'')
           | Some e \<Rightarrow>
               (if \<not> is_startable_exec (e_status e) then Inl (Failure ''Execution is not eligible to start'')
                else if (case p_next p of None \<Rightarrow> False | Some t \<Rightarrow> t > now)
                then Inl (Failure ''Retry delay has not elapsed'')
                else if \<not> is_ready_status (p_status p) then Inl (Failure ''Pair is not eligible to start'')
                else Inr (context_of p e (uuid (draws d)) (max_attempt d pair + 1), start_writes now p d))))"

section \<open>Cancelling\<close>

definition request_cancellation :: "time \<Rightarrow> id \<Rightarrow> id \<Rightarrow> db \<Rightarrow> db result" where
  "request_cancellation now i actor d =
     (case get_execution d i of
        Inl err \<Rightarrow> Inl err
      | Inr v \<Rightarrow>
          (if is_terminal_exec (ev_status v) then Inr d
           else
             (let d1 = update_pairs (\<lambda>p. p_execution p = i \<and> is_ready_status (p_status p))
                         (\<lambda>p. p\<lparr>p_status := PNotStarted, p_finished := Some now, p_next := None, p_wait := None\<rparr>) d;
                  d2 = update_pairs (\<lambda>p. p_execution p = i \<and> p_status p = PRunning)
                         (\<lambda>p. p\<lparr>p_status := PCancelRequested\<rparr>) d1;
                  active = list_ex (\<lambda>p. is_active_status (pv_status p)) (ev_pairs v);
                  d3 = update_execs (\<lambda>e. e_id e = i)
                         (\<lambda>e. e\<lparr>e_status := (if active then ECancelRequested else ECancelled),
                                e_finished := (if active then None else Some now)\<rparr>) d2
              in Inr (if ev_status v \<noteq> ECancelRequested
                      then add_event now (Some i) None ''cancel_requested'' (Some actor) (json_obj []) d3
                      else d3))))"

section \<open>Finishing an attempt\<close>

text \<open>The aggregate status of an execution from its previous status and its pairs.\<close>

definition aggregate_status :: "exec_status \<Rightarrow> pair_status list \<Rightarrow> exec_status" where
  "aggregate_status old ss =
     (let terminal = list_all is_terminal_pair ss;
          successes = length (filter (\<lambda>s. s = PSuccess) ss)
      in if old = ECancelRequested then (if terminal then ECancelled else ECancelRequested)
         else if terminal then
           (if successes = length ss then ESuccess
            else if successes > 0 then EPartialFailure
            else if PFailed \<in> set ss then EFailed
            else if PInterrupted \<in> set ss then EInterrupted
            else EFailed)
         else if PRunning \<in> set ss then ERunning
         else if PRetryWait \<in> set ss then ERetrying
         else EQueued)"

definition wants_retry :: "pair_context \<Rightarrow> bool \<Rightarrow> outcome_status \<Rightarrow> bool" where
  "wants_retry ctx cancelling st \<longleftrightarrow>
     \<not> cancelling \<and> st = OFailed \<and> x_number ctx \<le> s_retry_count (x_snapshot ctx)"

text \<open>The outcome as recorded: work that ends during a cancellation is cancelled, unless it
  succeeded.\<close>

definition recorded_status :: "bool \<Rightarrow> outcome_status \<Rightarrow> outcome_status" where
  "recorded_status cancelling st = (if cancelling \<and> st \<noteq> OSuccess then OCancelled else st)"

text \<open>The pair and the attempt after the outcome (\<open>retry\<close> as computed).\<close>

definition finish_pair_row :: "time \<Rightarrow> pair_context \<Rightarrow> bool \<Rightarrow> pair_outcome \<Rightarrow> pair_row \<Rightarrow> pair_row" where
  "finish_pair_row now ctx retry out p =
     p\<lparr>p_status := (if retry then PRetryWait else pair_of_outcome (o_status out)),
       p_finished := (if retry then None else Some now),
       p_next := (if retry then Some (now + max 0 (s_retry_delay (x_snapshot ctx)) * 1000) else None),
       p_wait := (if retry then Some RetryDelay else None),
       p_warnings := o_warnings out\<rparr>"

text \<open>\<open>text || null\<close>: the empty string is stored as NULL.\<close>

definition or_null :: "string option \<Rightarrow> string option" where
  "or_null s = (if s = Some [] then None else s)"

fun outcome_name :: "outcome_status \<Rightarrow> string" where
  "outcome_name OSuccess = ''success''"
| "outcome_name OFailed = ''failed''"
| "outcome_name OCancelled = ''cancelled''"
| "outcome_name OInterrupted = ''interrupted''"

definition finish_attempt_row :: "time \<Rightarrow> pair_outcome \<Rightarrow> attempt_row \<Rightarrow> attempt_row" where
  "finish_attempt_row now out a =
     a\<lparr>a_status := AFinished (o_status out), a_run := Some (o_run out), a_finished := Some now,
       a_stage := or_null (o_stage out), a_error := or_null (o_error out), a_warnings := o_warnings out\<rparr>"

definition finish_writes :: "time \<Rightarrow> pair_context \<Rightarrow> bool \<Rightarrow> pair_outcome \<Rightarrow> db \<Rightarrow> db" where
  "finish_writes now ctx retry out d =
     (let d1 = update_attempts (\<lambda>a. a_id a = x_attempt ctx \<and> a_status a = ARunning) (finish_attempt_row now out) d;
          d2 = update_pairs (\<lambda>p. p_id p = x_pair ctx) (finish_pair_row now ctx retry out) d1
      in add_event now (Some (x_execution ctx)) (Some (x_pair ctx)) ''attempt_finished'' None
           (json_obj [(''attemptId'', JStr (x_attempt ctx)), (''status'', JStr (outcome_name (o_status out))),
                      (''runId'', JStr (o_run out))]) d2)"

definition finish_exec_row :: "time \<Rightarrow> execution_view \<Rightarrow> exec_row \<Rightarrow> exec_row" where
  "finish_exec_row now v e =
     (let ss = map pv_status (ev_pairs v)
      in e\<lparr>e_status := aggregate_status (ev_status v) ss,
           e_finished := (if list_all is_terminal_pair ss then Some now else None),
           e_warnings := uniq (ev_warnings v @ concat (map pv_warnings (ev_pairs v)))\<rparr>)"

definition finish_attempt :: "time \<Rightarrow> pair_context \<Rightarrow> pair_outcome \<Rightarrow> db \<Rightarrow> db result" where
  "finish_attempt now ctx out d =
     (case List.find (\<lambda>a. a_id a = x_attempt ctx \<and> a_pair a = x_pair ctx) (attempts d) of
        None \<Rightarrow> Inr d
      | Some a \<Rightarrow>
          (case find_pair d (x_pair ctx) of
             None \<Rightarrow> Inr d
           | Some p \<Rightarrow>
               (if a_status a \<noteq> ARunning \<or> \<not> is_active_status (p_status p) then Inr d
                else
                  (let cancelling = (p_status p = PCancelRequested);
                       out' = out\<lparr>o_status := recorded_status cancelling (o_status out)\<rparr>;
                       retry = wants_retry ctx cancelling (o_status out');
                       d1 = finish_writes now ctx retry out' d
                   in case get_execution d1 (x_execution ctx) of
                        Inl err \<Rightarrow> Inl err
                      | Inr v \<Rightarrow> Inr (update_execs (\<lambda>e. e_id e = x_execution ctx) (finish_exec_row now v) d1)))))"

end
