(* ===== verification/Store_Invariant.thy ===== *)
theory Store_Invariant
  imports Execution_Store
begin

text \<open>
  The well-formedness of the durable queue and its preservation by the three transactions of
  \<open>Execution_Store\<close>: attempts of a pair are numbered 1, 2, ... and at most one of them runs,
  exactly while the pair is active; a pair never takes more attempts than its retry policy
  grants; the status of an execution is the aggregate of its pairs, or records a cancellation;
  an execution is finished exactly when its status is terminal; identifiers are unique and
  fresh ones do not occur.
\<close>

section \<open>The attempts of one pair\<close>

definition attempt_budget :: "pair_status \<Rightarrow> int \<Rightarrow> nat \<Rightarrow> bool" where
  "attempt_budget st rc n =
     (if st = PQueued then n = 0
      else if st = PRetryWait then 0 < n \<and> int n \<le> rc
      else if st = PNotStarted then int n \<le> max 0 rc
      else 0 < n \<and> int n \<le> max 0 rc + 1)"

definition attempts_ok :: "pair_status \<Rightarrow> int \<Rightarrow> attempt_row list \<Rightarrow> bool" where
  "attempts_ok st rc rows \<longleftrightarrow>
     map a_number rows = map int [1..<Suc (length rows)]
     \<and> (\<forall>a \<in> set (butlast rows). a_status a \<noteq> ARunning)
     \<and> (is_active_status st \<longleftrightarrow> rows \<noteq> [] \<and> a_status (last rows) = ARunning)
     \<and> attempt_budget st rc (length rows)"

lemma attempts_ok_start:
  assumes "attempts_ok st rc rows" and "is_ready_status st"
    and "a_number a = int (length rows) + 1" and "a_status a = ARunning"
  shows "attempts_ok PRunning rc (rows @ [a])"
proof -
  have none: "\<forall>b \<in> set rows. a_status b \<noteq> ARunning"
  proof (cases rows rule: rev_cases)
    case (snoc bs b)
    with assms(1,2) show ?thesis by (auto simp: attempts_ok_def)
  qed simp
  have nums: "map a_number (rows @ [a]) = map int [1..<Suc (length (rows @ [a]))]"
    using assms(1,3) by (simp add: attempts_ok_def)
  have "attempt_budget PRunning rc (length (rows @ [a]))"
    using assms(1,2) by (cases st) (auto simp: attempts_ok_def attempt_budget_def)
  with none nums assms(4) show ?thesis by (simp add: attempts_ok_def)
qed

lemma attempts_ok_running_last:
  assumes "attempts_ok st rc rows" and "a \<in> set rows" and "a_status a = ARunning"
  shows "rows \<noteq> [] \<and> a = last rows"
  using assms by (cases rows rule: rev_cases) (auto simp: attempts_ok_def)

lemma attempts_ok_last_number:
  assumes "attempts_ok st rc rows" and "rows \<noteq> []"
  shows "a_number (last rows) = int (length rows)"
proof -
  have "map a_number rows = map int [1..<Suc (length rows)]"
    using assms(1) by (simp only: attempts_ok_def)
  with assms(2) show ?thesis by (cases rows rule: rev_cases) auto
qed

lemma update_where_none: "(\<And>r. r \<in> set rs \<Longrightarrow> \<not> P r) \<Longrightarrow> update_where P f rs = rs"
  by (induction rs) auto

lemma attempts_ok_finish:
  assumes ok: "attempts_ok st rc rows" and act: "is_active_status st"
    and P: "\<And>b. b \<in> set rows \<Longrightarrow> P b \<Longrightarrow> a_status b = ARunning"
    and last: "P (last rows)"
    and f: "\<And>b. a_number (f b) = a_number b" "\<And>b. a_status (f b) \<noteq> ARunning"
    and st': "\<not> is_active_status st'" "attempt_budget st' rc (length rows)"
  shows "attempts_ok st' rc (update_where P f rows)"
proof -
  obtain bs b where rows: "rows = bs @ [b]"
    using ok act by (cases rows rule: rev_cases) (auto simp: attempts_ok_def)
  have bs: "\<forall>c \<in> set bs. a_status c \<noteq> ARunning"
    using ok by (simp add: attempts_ok_def rows)
  have same: "update_where P f bs = bs"
    by (rule update_where_none) (use bs P rows in auto)
  have eq: "update_where P f rows = bs @ [f b]"
    using same last by (simp add: rows update_where_def)
  have len: "length (bs @ [f b]) = length rows"
    by (simp add: rows)
  have "map a_number (bs @ [f b]) = map int [1..<Suc (length rows)]"
    using ok by (simp add: attempts_ok_def rows f(1) del: upt_Suc)
  then show ?thesis
    unfolding attempts_ok_def eq len using bs st' f(2) by simp
qed

lemma fold_max_upt: "m \<le> n \<Longrightarrow> fold max (map int [Suc m..<Suc n]) (int m) = int n"
proof (induction n)
  case (Suc n)
  show ?case
  proof (cases "m = Suc n")
    case False
    with Suc show ?thesis by simp
  qed simp
qed simp

lemma max_attempt_length:
  assumes "attempts_ok st rc (attempts_of d p)"
  shows "max_attempt d p = int (length (attempts_of d p))"
proof (cases "attempts_of d p")
  case (Cons a as)
  have "map a_number (attempts_of d p) = map int [1..<Suc (length (attempts_of d p))]"
    using assms by (simp only: attempts_ok_def)
  then have "map a_number (attempts_of d p) = 1 # map int [Suc 1..<Suc (length (attempts_of d p))]"
    using Cons by (simp add: upt_conv_Cons del: upt_Suc)
  then show ?thesis
    using fold_max_upt [of 1 "length (attempts_of d p)"] Cons by (simp add: max_attempt_def del: upt_Suc)
qed (simp add: max_attempt_def)

section \<open>An execution and its pairs\<close>

definition exec_agrees :: "exec_status \<Rightarrow> pair_status list \<Rightarrow> bool" where
  "exec_agrees es ss \<longleftrightarrow> ss \<noteq> [] \<and>
     (if es = ECancelRequested
      then PCancelRequested \<in> set ss \<and> (\<forall>s \<in> set ss. s = PCancelRequested \<or> is_terminal_pair s)
      else if es = ECancelled then \<forall>s \<in> set ss. is_terminal_pair s
      else PCancelRequested \<notin> set ss \<and> es = aggregate_status EQueued ss)"

lemma aggregate_not_cancelled [simp]:
  "old \<noteq> ECancelRequested \<Longrightarrow> aggregate_status old ss \<noteq> ECancelRequested"
  "old \<noteq> ECancelRequested \<Longrightarrow> aggregate_status old ss \<noteq> ECancelled"
  by (simp_all add: aggregate_status_def Let_def)

lemma aggregate_old:
  "old \<noteq> ECancelRequested \<Longrightarrow> aggregate_status old ss = aggregate_status EQueued ss"
  by (simp add: aggregate_status_def)

lemma aggregate_terminal:
  "is_terminal_exec (aggregate_status EQueued ss) \<longleftrightarrow> (\<forall>s \<in> set ss. is_terminal_pair s)"
  by (auto simp: aggregate_status_def Let_def list_all_iff)

lemma aggregate_running: "PRunning \<in> set ss \<Longrightarrow> aggregate_status EQueued ss = ERunning"
  by (force simp: aggregate_status_def Let_def list_all_iff)

lemma exec_agrees_terminal:
  assumes "exec_agrees es ss"
  shows "is_terminal_exec es \<longleftrightarrow> (\<forall>s \<in> set ss. is_terminal_pair s)"
proof (cases "es = ECancelRequested")
  case True
  with assms have "PCancelRequested \<in> set ss" by (simp add: exec_agrees_def)
  with True show ?thesis by (intro iffI) (simp, metis is_terminal_pair.simps(9))
next
  case False
  with assms show ?thesis by (auto simp: exec_agrees_def aggregate_terminal split: if_splits)
qed

lemma exec_agrees_startable:
  "exec_agrees es ss \<Longrightarrow> is_startable_exec es \<Longrightarrow>
     PCancelRequested \<notin> set ss \<and> es = aggregate_status EQueued ss"
  by (cases es) (auto simp: exec_agrees_def split: if_splits)

lemma exec_agrees_start:
  assumes "exec_agrees es ss" and "is_startable_exec es" and "set ss' \<subseteq> insert PRunning (set ss)"
    and "PRunning \<in> set ss'"
  shows "exec_agrees ERunning ss'"
  using exec_agrees_startable [OF assms(1,2)] assms(3,4)
  by (auto simp: exec_agrees_def aggregate_running)

lemma exec_agrees_finish:
  assumes "exec_agrees es ss" and "\<not> is_terminal_exec es"
    and "set ss' \<subseteq> insert s (set ss)" and "ss' \<noteq> []"
    and "is_terminal_pair s \<or> (s = PRetryWait \<and> es \<noteq> ECancelRequested)"
    and "es = ECancelRequested \<Longrightarrow> PCancelRequested \<in> set ss' \<or> list_all is_terminal_pair ss'"
  shows "exec_agrees (aggregate_status es ss') ss'"
proof (cases "es = ECancelRequested")
  case True
  have dom: "\<forall>t \<in> set ss'. t = PCancelRequested \<or> is_terminal_pair t"
    using assms(1,3,5) True by (auto simp: exec_agrees_def)
  show ?thesis
    using True dom assms(4,6)
    by (auto simp: exec_agrees_def aggregate_status_def list_all_iff)
next
  case False
  have "PCancelRequested \<notin> set ss"
    using assms(1,2) False by (auto simp: exec_agrees_def split: if_splits)
  then have "PCancelRequested \<notin> set ss'"
    using assms(3,5) False by auto
  with False assms(4) show ?thesis
    by (simp add: exec_agrees_def aggregate_old [OF False])
qed

lemma exec_agrees_cancel:
  assumes "ss \<noteq> []" and "\<forall>s \<in> set ss. s = PCancelRequested \<or> is_terminal_pair s"
  shows "exec_agrees (if PCancelRequested \<in> set ss then ECancelRequested else ECancelled) ss"
  using assms by (auto simp: exec_agrees_def)

section \<open>The invariant\<close>

definition fresh_ids :: "db \<Rightarrow> bool" where
  "fresh_ids d \<longleftrightarrow> (\<forall>n \<ge> draws d. uuid n \<notin> e_id ` set (executions d)
      \<and> uuid n \<notin> p_id ` set (pairs d) \<and> uuid n \<notin> a_id ` set (attempts d))"

definition keys_ok :: "db \<Rightarrow> bool" where
  "keys_ok d \<longleftrightarrow> distinct (map e_id (executions d)) \<and> distinct (map p_id (pairs d))
     \<and> distinct (map a_id (attempts d))
     \<and> (\<forall>p \<in> set (pairs d). p_execution p \<in> e_id ` set (executions d))
     \<and> (\<forall>a \<in> set (attempts d). a_pair a \<in> p_id ` set (pairs d))"

definition pairs_ok :: "db \<Rightarrow> bool" where
  "pairs_ok d \<longleftrightarrow> (\<forall>p \<in> set (pairs d).
     attempts_ok (p_status p) (s_retry_count (p_snapshot p)) (attempts_of d (p_id p)))"

definition execs_ok :: "db \<Rightarrow> bool" where
  "execs_ok d \<longleftrightarrow> (\<forall>e \<in> set (executions d).
     exec_agrees (e_status e) (map p_status (pairs_of d (e_id e)))
     \<and> (e_finished e \<noteq> None \<longleftrightarrow> is_terminal_exec (e_status e)))"

definition store_inv :: "db \<Rightarrow> bool" where
  "store_inv d \<longleftrightarrow> keys_ok d \<and> fresh_ids d \<and> pairs_ok d \<and> execs_ok d"

lemma store_inv_empty [simp]: "store_inv empty_db"
  by (simp add: store_inv_def keys_ok_def fresh_ids_def pairs_ok_def execs_ok_def)

text \<open>The invariant reads three tables and the supply of identifiers only.\<close>

lemma store_inv_cong:
  assumes "executions d' = executions d" and "pairs d' = pairs d" and "attempts d' = attempts d"
    and "draws d \<le> draws d'" and "store_inv d"
  shows "store_inv d'"
  using assms
  by (simp add: store_inv_def keys_ok_def fresh_ids_def pairs_ok_def execs_ok_def
      attempts_of_def pairs_of_def)

lemma store_inv_add_event [simp]: "store_inv d \<Longrightarrow> store_inv (add_event now ex pr k a pl d)"
  by (rule store_inv_cong [of _ d]) simp_all

lemma find_pair_ok:
  assumes "store_inv d" and "find_pair d i = Some p"
  shows "p \<in> set (pairs d)" "p_id p = i"
    and "attempts_ok (p_status p) (s_retry_count (p_snapshot p)) (attempts_of d i)"
proof -
  show p: "p \<in> set (pairs d)" and i: "p_id p = i"
    using find_pair_SomeD [OF assms(2)] by simp_all
  show "attempts_ok (p_status p) (s_retry_count (p_snapshot p)) (attempts_of d i)"
    using assms(1) p by (simp add: store_inv_def pairs_ok_def flip: i)
qed

lemma pair_unique:
  assumes "store_inv d" and "p \<in> set (pairs d)" and "q \<in> set (pairs d)" and "p_id p = p_id q"
  shows "p = q"
  using assms distinct_key_eq [of p_id "pairs d" p q] by (simp add: store_inv_def keys_ok_def)

lemma exec_unique:
  assumes "store_inv d" and "e \<in> set (executions d)" and "f \<in> set (executions d)" and "e_id e = e_id f"
  shows "e = f"
  using assms distinct_key_eq [of e_id "executions d" e f] by (simp add: store_inv_def keys_ok_def)

lemma attempt_unique:
  assumes "store_inv d" and "a \<in> set (attempts d)" and "b \<in> set (attempts d)" and "a_id a = a_id b"
  shows "a = b"
  using assms distinct_key_eq [of a_id "attempts d" a b] by (simp add: store_inv_def keys_ok_def)

lemma find_exec_in:
  assumes "store_inv d" and "e \<in> set (executions d)"
  shows "find_exec d (e_id e) = Some e"
  using assms find_key_unique [of e_id "executions d" e]
  by (simp add: find_exec_def store_inv_def keys_ok_def)

lemma find_pair_in:
  assumes "store_inv d" and "p \<in> set (pairs d)"
  shows "find_pair d (p_id p) = Some p"
  using assms find_key_unique [of p_id "pairs d" p]
  by (simp add: find_pair_def store_inv_def keys_ok_def)

lemma pair_has_exec:
  assumes "store_inv d" and "p \<in> set (pairs d)"
  obtains e where "find_exec d (p_execution p) = Some e"
proof -
  from assms obtain e where "e \<in> set (executions d)" "e_id e = p_execution p"
    by (auto simp: store_inv_def keys_ok_def)
  with find_exec_in [OF assms(1)] that show ?thesis by metis
qed

lemma exec_ok:
  assumes "store_inv d" and "find_exec d i = Some e"
  shows "e \<in> set (executions d)" "e_id e = i" "exec_agrees (e_status e) (map p_status (pairs_of d i))"
    "e_finished e \<noteq> None \<longleftrightarrow> is_terminal_exec (e_status e)"
  using assms find_exec_SomeD [OF assms(2)] by (auto simp: store_inv_def execs_ok_def)

end
