(* ===== verification/Store_Steps.thy ===== *)
theory Store_Steps
  imports Store_Invariant
begin

text \<open>
  Each transaction of the store keeps the invariant, and what it does on every branch.
\<close>

section \<open>Tables after an update\<close>

lemma pairs_of_update_pairs:
  assumes "\<And>q. p_execution (f q) = p_execution q"
  shows "pairs_of (update_pairs P f d) e = update_where P f (pairs_of d e)"
  using assms by (simp add: pairs_of_def update_where_def filter_map comp_def if_distrib cong: if_cong)

lemma attempts_of_update_attempts:
  assumes "\<And>a. a_pair (f a) = a_pair a"
  shows "attempts_of (update_attempts P f d) p = update_where P f (attempts_of d p)"
  using assms by (simp add: attempts_of_def update_where_def filter_map comp_def if_distrib cong: if_cong)

lemma pairs_of_other [simp]:
  "pairs_of (update_execs P g d) e = pairs_of d e"
  "pairs_of (update_attempts Q h d) e = pairs_of d e"
  "pairs_of (add_event now ex pr k a pl d) e = pairs_of d e"
  by (simp_all add: pairs_of_def)

lemma attempts_of_other [simp]:
  "attempts_of (update_execs P g d) p = attempts_of d p"
  "attempts_of (update_pairs R f d) p = attempts_of d p"
  "attempts_of (add_event now ex pr k a pl d) p = attempts_of d p"
  by (simp_all add: attempts_of_def)

lemma find_exec_update:
  assumes "\<And>e. e_id (g e) = e_id e"
  shows "find_exec (update_execs P g d) i = map_option (\<lambda>e. if P e then g e else e) (find_exec d i)"
  unfolding find_exec_def update_execs_tables by (rule find_map_key [where key = e_id and f = g, OF assms])

lemma find_pair_update:
  assumes "\<And>p. p_id (f p) = p_id p"
  shows "find_pair (update_pairs P f d) i = map_option (\<lambda>p. if P p then f p else p) (find_pair d i)"
  unfolding find_pair_def update_pairs_tables by (rule find_map_key [where key = p_id and f = f, OF assms])

lemma find_exec_other [simp]:
  "find_exec (update_pairs R f d) i = find_exec d i"
  "find_exec (update_attempts Q h d) i = find_exec d i"
  "find_exec (add_event now ex pr k a pl d) i = find_exec d i"
  by (simp_all add: find_exec_def)

lemma find_pair_other [simp]:
  "find_pair (update_execs P g d) i = find_pair d i"
  "find_pair (update_attempts Q h d) i = find_pair d i"
  "find_pair (add_event now ex pr k a pl d) i = find_pair d i"
  by (simp_all add: find_pair_def)

lemma image_update_where [row_simps]:
  assumes "\<And>r. g (f r) = g r"
  shows "g ` set (update_where P f rs) = g ` set rs"
  using map_update_where [where g = g and f = f, OF assms, of P rs] by (metis list.set_map)

lemma status_update_subset:
  assumes "\<And>q. P q \<Longrightarrow> g (f q) = s"
  shows "g ` set (update_where P f rs) \<subseteq> insert s (g ` set rs)"
  using assms by (auto simp: update_where_def)

lemma status_update_member:
  assumes "q \<in> set rs" and "P q" and "g (f q) = s"
  shows "s \<in> g ` set (update_where P f rs)"
proof -
  have "f q \<in> set (update_where P f rs)"
    using assms(1,2) by (auto simp: update_where_def intro!: image_eqI [of _ _ q])
  with assms(3) show ?thesis by blast
qed

text \<open>An update of executions and pairs that keeps identifiers keeps the keys.\<close>

lemma keys_ok_update:
  assumes "keys_ok d"
    and "map e_id (executions d') = map e_id (executions d)"
    and "map p_id (pairs d') = map p_id (pairs d)"
    and "map p_execution (pairs d') = map p_execution (pairs d)"
    and "distinct (map a_id (attempts d'))"
    and "a_pair ` set (attempts d') \<subseteq> p_id ` set (pairs d)"
  shows "keys_ok d'"
proof -
  have e: "e_id ` set (executions d') = e_id ` set (executions d)"
    and p: "p_id ` set (pairs d') = p_id ` set (pairs d)"
    and x: "p_execution ` set (pairs d') = p_execution ` set (pairs d)"
    using assms(2,3,4) by (metis list.set_map)+
  have "\<forall>q \<in> set (pairs d'). p_execution q \<in> e_id ` set (executions d)"
  proof
    fix q assume "q \<in> set (pairs d')"
    then have "p_execution q \<in> p_execution ` set (pairs d)" using x by blast
    with assms(1) show "p_execution q \<in> e_id ` set (executions d)" by (auto simp: keys_ok_def)
  qed
  with assms e p show ?thesis by (auto simp: keys_ok_def)
qed

lemma fresh_ids_update:
  assumes "fresh_ids d" and "draws d \<le> draws d'"
    and "e_id ` set (executions d') = e_id ` set (executions d)"
    and "p_id ` set (pairs d') = p_id ` set (pairs d)"
    and "a_id ` set (attempts d') \<subseteq> a_id ` set (attempts d) \<union> uuid ` {draws d..<draws d'}"
  shows "fresh_ids d'"
  unfolding fresh_ids_def
proof (intro allI impI)
  fix n assume n: "draws d' \<le> n"
  have "uuid n \<notin> uuid ` {draws d..<draws d'}"
    using n by auto
  moreover have "uuid n \<notin> a_id ` set (attempts d)"
    using assms(1,2) n by (simp add: fresh_ids_def)
  ultimately have "uuid n \<notin> a_id ` set (attempts d')"
    using assms(5) by blast
  with assms(1-4) n show "uuid n \<notin> e_id ` set (executions d') \<and> uuid n \<notin> p_id ` set (pairs d')
      \<and> uuid n \<notin> a_id ` set (attempts d')"
    by (simp add: fresh_ids_def)
qed

section \<open>Start\<close>

definition started_attempt :: "time \<Rightarrow> pair_row \<Rightarrow> db \<Rightarrow> attempt_row" where
  "started_attempt now p d = \<lparr>a_id = uuid (draws d), a_pair = p_id p, a_number = max_attempt d (p_id p) + 1,
     a_status = ARunning, a_run = None, a_started = Some now, a_finished = None, a_stage = None,
     a_error = None, a_warnings = []\<rparr>"

definition started_pair :: "time \<Rightarrow> pair_row \<Rightarrow> pair_row" where
  "started_pair now q = q\<lparr>p_status := PRunning, p_started := coalesce (p_started q) now, p_wait := None\<rparr>"

definition started_exec :: "time \<Rightarrow> exec_row \<Rightarrow> exec_row" where
  "started_exec now e = e\<lparr>e_status := ERunning, e_started := coalesce (e_started e) now\<rparr>"

lemma started_rows [simp]:
  "p_id (started_pair now q) = p_id q" "p_execution (started_pair now q) = p_execution q"
  "p_status (started_pair now q) = PRunning" "p_snapshot (started_pair now q) = p_snapshot q"
  "p_group (started_pair now q) = p_group q" "p_next (started_pair now q) = p_next q"
  "e_id (started_exec now e) = e_id e" "e_status (started_exec now e) = ERunning"
  "e_finished (started_exec now e) = e_finished e" "e_priority (started_exec now e) = e_priority e"
  "e_sequence (started_exec now e) = e_sequence e" "e_job (started_exec now e) = e_job e"
  by (simp_all add: started_pair_def started_exec_def)

lemma start_writes_tables:
  "executions (start_writes now p d) = update_where (\<lambda>e. e_id e = p_execution p) (started_exec now) (executions d)"
  "pairs (start_writes now p d) = update_where (\<lambda>q. p_id q = p_id p) (started_pair now) (pairs d)"
  "attempts (start_writes now p d) = attempts d @ [started_attempt now p d]"
  "draws (start_writes now p d) = Suc (Suc (draws d))"
  "source_groups (start_writes now p d) = source_groups d"
  "settings (start_writes now p d) = settings d"
  "users (start_writes now p d) = users d"
  "jobs (start_writes now p d) = jobs d"
  "connections (start_writes now p d) = connections d"
  by (simp_all add: start_writes_def Let_def started_attempt_def started_pair_def [abs_def]
      started_exec_def [abs_def])

lemma start_attempt_Inr:
  assumes "start_attempt now pair d = Inr (ctx, d')"
  obtains p e where "find_pair d pair = Some p" "find_exec d (p_execution p) = Some e"
    "is_startable_exec (e_status e)" "is_ready_status (p_status p)"
    "case p_next p of None \<Rightarrow> True | Some t \<Rightarrow> t \<le> now"
    "ctx = context_of p e (uuid (draws d)) (max_attempt d pair + 1)" "d' = start_writes now p d"
  using assms by (auto simp: start_attempt_def split: option.splits if_splits)

lemma pairs_of_start_writes:
  "pairs_of (start_writes now p d) i = update_where (\<lambda>q. p_id q = p_id p) (started_pair now) (pairs_of d i)"
  by (simp add: pairs_of_def start_writes_tables update_where_def filter_map comp_def if_distrib cong: if_cong)

lemma attempts_of_start_writes:
  "attempts_of (start_writes now p d) i =
     attempts_of d i @ (if i = p_id p then [started_attempt now p d] else [])"
  by (simp add: attempts_of_def start_writes_tables started_attempt_def)

lemma fresh_uuid:
  assumes "store_inv d" and "draws d \<le> n"
  shows "uuid n \<notin> e_id ` set (executions d)" "uuid n \<notin> p_id ` set (pairs d)"
    "uuid n \<notin> a_id ` set (attempts d)"
  using assms by (simp_all add: store_inv_def fresh_ids_def)

lemma store_inv_keys:
  assumes "store_inv d"
  shows "keys_ok d" "distinct (map e_id (executions d))" "distinct (map p_id (pairs d))"
    "distinct (map a_id (attempts d))" "a_pair ` set (attempts d) \<subseteq> p_id ` set (pairs d)"
    "fresh_ids d"
  using assms by (auto simp: store_inv_def keys_ok_def)

text \<open>A pair belongs to one execution only.\<close>

lemma other_execution_pairs:
  assumes "store_inv d" and "p \<in> set (pairs d)" and "i \<noteq> p_execution p"
  shows "update_where (\<lambda>q. p_id q = p_id p) f (pairs_of d i) = pairs_of d i"
  using pair_unique [OF assms(1) _ assms(2)] assms(3) by (intro update_where_none) auto

lemma start_attempt_inv:
  assumes inv: "store_inv d" and start: "start_attempt now pair d = Inr (ctx, d')"
  shows "store_inv d'"
proof -
  obtain p e where p: "find_pair d pair = Some p" and e: "find_exec d (p_execution p) = Some e"
    and ready: "is_startable_exec (e_status e)" "is_ready_status (p_status p)"
    and d': "d' = start_writes now p d"
    using start by (rule start_attempt_Inr) blast
  note pok = find_pair_ok [OF inv p] and eok = exec_ok [OF inv e]
  have keys: "keys_ok d'"
  proof (rule keys_ok_update [OF store_inv_keys(1) [OF inv]])
    show "distinct (map a_id (attempts d'))"
      using store_inv_keys(4) [OF inv] fresh_uuid(3) [OF inv order_refl]
      by (simp add: d' start_writes_tables started_attempt_def)
    show "a_pair ` set (attempts d') \<subseteq> p_id ` set (pairs d)"
      using store_inv_keys(5) [OF inv] pok(1) by (simp add: d' start_writes_tables started_attempt_def)
  qed (simp_all add: d' start_writes_tables row_simps)
  have fresh: "fresh_ids d'"
    by (rule fresh_ids_update [OF store_inv_keys(6) [OF inv]])
       (auto simp: d' start_writes_tables row_simps started_attempt_def)
  have rows: "attempts_ok PRunning (s_retry_count (p_snapshot p)) (attempts_of d pair @ [started_attempt now p d])"
    using max_attempt_length [OF pok(3)] pok(2)
    by (intro attempts_ok_start [OF pok(3) ready(2)]) (simp_all add: started_attempt_def)
  have pairs: "pairs_ok d'"
    unfolding pairs_ok_def
  proof
    fix q' assume "q' \<in> set (pairs d')"
    then obtain q where q: "q \<in> set (pairs d)"
        and q': "q' = (if p_id q = p_id p then started_pair now q else q)"
      unfolding d' start_writes_tables in_set_update_where by blast
    show "attempts_ok (p_status q') (s_retry_count (p_snapshot q')) (attempts_of d' (p_id q'))"
    proof (cases "p_id q = p_id p")
      case True
      then have "q = p" by (rule pair_unique [OF inv q pok(1)])
      with rows pok(2) q' show ?thesis by (simp add: d' attempts_of_start_writes)
    next
      case False
      with q' q inv show ?thesis
        by (simp add: d' attempts_of_start_writes store_inv_def pairs_ok_def)
    qed
  qed
  have execs: "execs_ok d'"
    unfolding execs_ok_def
  proof
    fix f' assume "f' \<in> set (executions d')"
    then obtain f where f: "f \<in> set (executions d)"
        and f': "f' = (if e_id f = p_execution p then started_exec now f else f)"
      unfolding d' start_writes_tables in_set_update_where by blast
    note fok = exec_ok [OF inv find_exec_in [OF inv f]]
    show "exec_agrees (e_status f') (map p_status (pairs_of d' (e_id f')))
        \<and> (e_finished f' \<noteq> None \<longleftrightarrow> is_terminal_exec (e_status f'))"
    proof (cases "e_id f = p_execution p")
      case True
      then have fe: "f = e" using exec_unique [OF inv f eok(1)] eok(2) by simp
      have "p \<in> set (pairs_of d (p_execution p))" using pok(1) by simp
      then have "exec_agrees ERunning (map p_status (pairs_of d' (p_execution p)))"
        unfolding d' pairs_of_start_writes
        by (intro exec_agrees_start [OF eok(3) ready(1)])
           (unfold set_map, auto intro!: status_update_subset status_update_member)
      with f' True fe eok(2,4) ready(1) show ?thesis
        by (auto simp: startable_not_terminal)
    next
      case False
      then have "pairs_of d' (e_id f) = pairs_of d (e_id f)"
        by (simp add: d' pairs_of_start_writes other_execution_pairs [OF inv pok(1)])
      with False f' fok show ?thesis by simp
    qed
  qed
  show ?thesis using keys fresh pairs execs by (simp add: store_inv_def)
qed

end
