(* ===== verification/Store_Finish.thy ===== *)
theory Store_Finish
  imports Store_Steps
begin

text \<open>
  Cancellation and the end of an attempt keep the invariant of \<open>Store_Invariant\<close>.
\<close>

section \<open>Cancellation\<close>

text \<open>What the two UPDATE statements do to one pair of the execution.\<close>

definition cancelled_pair :: "time \<Rightarrow> pair_row \<Rightarrow> pair_row" where
  "cancelled_pair now p =
     (if is_ready_status (p_status p)
      then p\<lparr>p_status := PNotStarted, p_finished := Some now, p_next := None, p_wait := None\<rparr>
      else if p_status p = PRunning then p\<lparr>p_status := PCancelRequested\<rparr> else p)"

lemma cancelled_pair_rows [simp]:
  "p_id (cancelled_pair now p) = p_id p" "p_execution (cancelled_pair now p) = p_execution p"
  "p_snapshot (cancelled_pair now p) = p_snapshot p"
  by (simp_all add: cancelled_pair_def)

lemma cancelled_pair_status:
  "p_status (cancelled_pair now p) = PCancelRequested \<or> is_terminal_pair (p_status (cancelled_pair now p))"
  "p_status (cancelled_pair now p) = PCancelRequested \<longleftrightarrow> is_active_status (p_status p)"
  by (cases "p_status p"; simp add: cancelled_pair_def)+

definition cancelled_exec :: "time \<Rightarrow> bool \<Rightarrow> exec_row \<Rightarrow> exec_row" where
  "cancelled_exec now active e = e\<lparr>e_status := (if active then ECancelRequested else ECancelled),
     e_finished := (if active then None else Some now)\<rparr>"

lemma cancelled_exec_rows [simp]:
  "e_id (cancelled_exec now a e) = e_id e"
  "e_status (cancelled_exec now a e) = (if a then ECancelRequested else ECancelled)"
  "e_finished (cancelled_exec now a e) = (if a then None else Some now)"
  by (simp_all add: cancelled_exec_def)

definition has_active :: "db \<Rightarrow> id \<Rightarrow> bool" where
  "has_active d i = list_ex (\<lambda>p. is_active_status (p_status p)) (pairs_of d i)"

lemma view_pair_status [simp]: "pv_status (view_pair d p) = p_status p" "pv_id (view_pair d p) = p_id p"
  "pv_warnings (view_pair d p) = p_warnings p"
  by (simp_all add: view_pair_def)

lemma get_execution_eq:
  "find_exec d i = Some e \<Longrightarrow> \<exists>v. get_execution d i = Inr v \<and> ev_status v = e_status e
     \<and> map pv_status (ev_pairs v) = map p_status (pairs_of d i) \<and> ev_pairs v = map (view_pair d) (pairs_of d i)
     \<and> ev_job v = e_job e \<and> ev_id v = e_id e \<and> ev_warnings v = e_warnings e"
  by (simp add: get_execution_def comp_def)

lemma cancel_pairs_eq:
  "update_where (\<lambda>p. p_execution p = i \<and> p_status p = PRunning) (\<lambda>p. p\<lparr>p_status := PCancelRequested\<rparr>)
     (update_where (\<lambda>p. p_execution p = i \<and> is_ready_status (p_status p))
        (\<lambda>p. p\<lparr>p_status := PNotStarted, p_finished := Some now, p_next := None, p_wait := None\<rparr>) rs)
   = update_where (\<lambda>p. p_execution p = i) (cancelled_pair now) rs"
  by (induction rs) (auto simp: cancelled_pair_def)

lemma request_cancellation_tables:
  assumes "request_cancellation now i actor d = Inr d'"
    and "find_exec d i = Some e" and "\<not> is_terminal_exec (e_status e)"
  shows "executions d' = update_where (\<lambda>e. e_id e = i) (cancelled_exec now (has_active d i)) (executions d)"
    and "pairs d' = update_where (\<lambda>p. p_execution p = i) (cancelled_pair now) (pairs d)"
    and "attempts d' = attempts d" and "draws d \<le> draws d'"
proof -
  have act: "list_ex (\<lambda>p. is_active_status (pv_status p)) (map (view_pair d) (pairs_of d i)) = has_active d i"
    by (simp add: has_active_def list_ex_iff)
  have "executions d' = update_where (\<lambda>e. e_id e = i) (cancelled_exec now (has_active d i)) (executions d)
    \<and> pairs d' = update_where (\<lambda>p. p_execution p = i) (cancelled_pair now) (pairs d)
    \<and> attempts d' = attempts d \<and> draws d \<le> draws d'"
    using assms unfolding cancelled_exec_def [abs_def] act [symmetric]
    by (auto simp: request_cancellation_def get_execution_def Let_def cancel_pairs_eq split: if_splits)
  then show "executions d' = update_where (\<lambda>e. e_id e = i) (cancelled_exec now (has_active d i)) (executions d)"
    and "pairs d' = update_where (\<lambda>p. p_execution p = i) (cancelled_pair now) (pairs d)"
    and "attempts d' = attempts d" and "draws d \<le> draws d'" by simp_all
qed

lemma request_cancellation_cases:
  assumes "request_cancellation now i actor d = Inr d'"
  obtains e where "find_exec d i = Some e" "is_terminal_exec (e_status e)" "d' = d"
  | e where "find_exec d i = Some e" "\<not> is_terminal_exec (e_status e)"
  using assms
  by (cases "find_exec d i") (auto simp: request_cancellation_def get_execution_def split: if_splits)

lemma attempts_ok_cancelled:
  assumes "attempts_ok (p_status p) rc rows"
  shows "attempts_ok (p_status (cancelled_pair now p)) rc rows"
  using assms
  by (cases "p_status p") (auto simp: attempts_ok_def cancelled_pair_def attempt_budget_def)

lemma filter_cancelled:
  "filter (\<lambda>p. p_execution p = j) (update_where (\<lambda>p. p_execution p = i) (cancelled_pair now) rs) =
     (if j = i then map (cancelled_pair now) (filter (\<lambda>p. p_execution p = i) rs)
      else filter (\<lambda>p. p_execution p = j) rs)"
  by (induction rs) auto

lemma request_cancellation_inv:
  assumes inv: "store_inv d" and req: "request_cancellation now i actor d = Inr d'"
  shows "store_inv d'"
  using req
proof (cases rule: request_cancellation_cases)
  case 1
  with inv show ?thesis by simp
next
  case (2 e)
  note tables = request_cancellation_tables [OF req 2]
  note eok = exec_ok [OF inv 2(1)]
  have keys: "keys_ok d'"
    using store_inv_keys(4,5) [OF inv]
    by (intro keys_ok_update [OF store_inv_keys(1) [OF inv]]) (simp_all add: tables row_simps)
  have fresh: "fresh_ids d'"
    by (rule fresh_ids_update [OF store_inv_keys(6) [OF inv] tables(4)]) (auto simp: tables row_simps)
  have pairs: "pairs_ok d'"
    unfolding pairs_ok_def
  proof
    fix q' assume "q' \<in> set (pairs d')"
    then obtain q where q: "q \<in> set (pairs d)"
        and q': "q' = (if p_execution q = i then cancelled_pair now q else q)"
      unfolding tables in_set_update_where by blast
    have "attempts_ok (p_status q) (s_retry_count (p_snapshot q)) (attempts_of d (p_id q))"
      using find_pair_ok(3) [OF inv find_pair_in [OF inv q]] .
    with q' show "attempts_ok (p_status q') (s_retry_count (p_snapshot q')) (attempts_of d' (p_id q'))"
      by (simp add: attempts_of_def tables attempts_ok_cancelled)
  qed
  have of: "pairs_of d' j = (if j = i then map (cancelled_pair now) (pairs_of d i) else pairs_of d j)" for j
    by (simp add: pairs_of_def tables filter_cancelled)
  have execs: "execs_ok d'"
    unfolding execs_ok_def
  proof
    fix f' assume "f' \<in> set (executions d')"
    then obtain f where f: "f \<in> set (executions d)"
        and f': "f' = (if e_id f = i then cancelled_exec now (has_active d i) f else f)"
      unfolding tables in_set_update_where by blast
    note fok = exec_ok [OF inv find_exec_in [OF inv f]]
    let ?ss = "map (\<lambda>p. p_status (cancelled_pair now p)) (pairs_of d i)"
    have "exec_agrees (if PCancelRequested \<in> set ?ss then ECancelRequested else ECancelled) ?ss"
      using eok(3) cancelled_pair_status(1)
      by (intro exec_agrees_cancel) (auto simp: exec_agrees_def)
    moreover have "PCancelRequested \<in> set ?ss \<longleftrightarrow> has_active d i"
      unfolding has_active_def list_ex_iff set_map image_iff
      by (metis cancelled_pair_status(2))
    ultimately show "exec_agrees (e_status f') (map p_status (pairs_of d' (e_id f')))
        \<and> (e_finished f' \<noteq> None \<longleftrightarrow> is_terminal_exec (e_status f'))"
      using fok f' by (auto simp: of comp_def)
  qed
  show ?thesis using keys fresh pairs execs by (simp add: store_inv_def)
qed

section \<open>End of an attempt\<close>

text \<open>A context that the store handed out: its pair, execution, snapshot and attempt are rows of
  the database. Only such contexts reach \<open>finishAttempt\<close>: \<open>startAttempt\<close> returns them, and
  \<open>recover\<close> rebuilds them from the rows.\<close>

definition genuine :: "db \<Rightarrow> pair_context \<Rightarrow> bool" where
  "genuine d ctx =
     (case find_pair d (x_pair ctx) of
        None \<Rightarrow> False
      | Some p \<Rightarrow>
          (case find_attempt d (x_attempt ctx) of
             None \<Rightarrow> False
           | Some a \<Rightarrow> p_execution p = x_execution ctx \<and> p_snapshot p = x_snapshot ctx
                       \<and> a_pair a = x_pair ctx \<and> a_number a = x_number ctx))"

definition final_outcome :: "pair_row \<Rightarrow> pair_outcome \<Rightarrow> pair_outcome" where
  "final_outcome p out = out\<lparr>o_status := recorded_status (p_status p = PCancelRequested) (o_status out)\<rparr>"

definition retry_granted :: "pair_row \<Rightarrow> pair_context \<Rightarrow> pair_outcome \<Rightarrow> bool" where
  "retry_granted p ctx out = wants_retry ctx (p_status p = PCancelRequested) (o_status (final_outcome p out))"

lemma finish_rows [simp]:
  "p_id (finish_pair_row now ctx r out p) = p_id p"
  "p_execution (finish_pair_row now ctx r out p) = p_execution p"
  "p_snapshot (finish_pair_row now ctx r out p) = p_snapshot p"
  "p_status (finish_pair_row now ctx r out p) = (if r then PRetryWait else pair_of_outcome (o_status out))"
  "a_id (finish_attempt_row now out a) = a_id a" "a_pair (finish_attempt_row now out a) = a_pair a"
  "a_number (finish_attempt_row now out a) = a_number a"
  "a_status (finish_attempt_row now out a) = AFinished (o_status out)"
  "e_id (finish_exec_row now v e) = e_id e"
  "e_status (finish_exec_row now v e) = aggregate_status (ev_status v) (map pv_status (ev_pairs v))"
  "(e_finished (finish_exec_row now v e) = None) = (\<not> list_all is_terminal_pair (map pv_status (ev_pairs v)))"
  by (simp_all add: finish_pair_row_def finish_attempt_row_def finish_exec_row_def Let_def)

lemma finish_writes_tables [simp]:
  "executions (finish_writes now ctx r out d) = executions d"
  "pairs (finish_writes now ctx r out d) =
     update_where (\<lambda>p. p_id p = x_pair ctx) (finish_pair_row now ctx r out) (pairs d)"
  "attempts (finish_writes now ctx r out d) =
     update_where (\<lambda>a. a_id a = x_attempt ctx \<and> a_status a = ARunning) (finish_attempt_row now out) (attempts d)"
  "draws (finish_writes now ctx r out d) = Suc (draws d)"
  by (simp_all add: finish_writes_def Let_def)

lemma finish_attempt_cases:
  assumes "finish_attempt now ctx out d = Inr d'"
  obtains (noop) "d' = d"
  | (finished) a p v where "a \<in> set (attempts d)" "a_id a = x_attempt ctx" "a_pair a = x_pair ctx"
      "a_status a = ARunning" "find_pair d (x_pair ctx) = Some p" "is_active_status (p_status p)"
      "get_execution (finish_writes now ctx (retry_granted p ctx out) (final_outcome p out) d) (x_execution ctx) = Inr v"
      "d' = update_execs (\<lambda>e. e_id e = x_execution ctx) (finish_exec_row now v)
              (finish_writes now ctx (retry_granted p ctx out) (final_outcome p out) d)"
proof (cases "d' = d")
  case False
  from assms False obtain a p v where
      a: "List.find (\<lambda>a. a_id a = x_attempt ctx \<and> a_pair a = x_pair ctx) (attempts d) = Some a"
    and rest: "find_pair d (x_pair ctx) = Some p" "a_status a = ARunning" "is_active_status (p_status p)"
      "get_execution (finish_writes now ctx (retry_granted p ctx out) (final_outcome p out) d) (x_execution ctx) = Inr v"
      "d' = update_execs (\<lambda>e. e_id e = x_execution ctx) (finish_exec_row now v)
              (finish_writes now ctx (retry_granted p ctx out) (final_outcome p out) d)"
    by (auto simp: finish_attempt_def retry_granted_def final_outcome_def Let_def
        split: option.splits if_splits sum.splits)
  from a have "a \<in> set (attempts d)" "a_id a = x_attempt ctx" "a_pair a = x_pair ctx"
    by (auto simp: find_Some_iff)
  with rest finished show ?thesis by blast
qed

lemma attempts_of_finish_writes:
  "attempts_of (finish_writes now ctx r out d) i =
     update_where (\<lambda>a. a_id a = x_attempt ctx \<and> a_status a = ARunning) (finish_attempt_row now out) (attempts_of d i)"
  by (simp add: attempts_of_def update_where_def filter_map comp_def if_distrib cong: if_cong)

lemma pairs_of_finish_writes:
  "pairs_of (finish_writes now ctx r out d) i =
     update_where (\<lambda>p. p_id p = x_pair ctx) (finish_pair_row now ctx r out) (pairs_of d i)"
  by (simp add: pairs_of_def update_where_def filter_map comp_def if_distrib cong: if_cong)

text \<open>The pair's attempts after the end of its running attempt.\<close>

lemma finish_attempts_ok:
  assumes inv: "store_inv d" and p: "find_pair d (x_pair ctx) = Some p" "is_active_status (p_status p)"
    and a: "a \<in> set (attempts d)" "a_id a = x_attempt ctx" "a_pair a = x_pair ctx" "a_status a = ARunning"
    and gen: "genuine d ctx"
  shows "attempts_ok (if retry_granted p ctx out then PRetryWait else pair_of_outcome st)
     (s_retry_count (p_snapshot p))
     (update_where (\<lambda>a. a_id a = x_attempt ctx \<and> a_status a = ARunning) (finish_attempt_row now o') (attempts_of d (x_pair ctx)))"
proof -
  let ?rows = "attempts_of d (x_pair ctx)" and ?rc = "s_retry_count (p_snapshot p)"
  note ok = find_pair_ok(3) [OF inv p(1)]
  have last: "?rows \<noteq> []" "a = last ?rows"
    using attempts_ok_running_last [OF ok _ a(4)] a(1,3) by auto
  have "find_attempt d (x_attempt ctx) = Some a"
    using find_key_unique [OF store_inv_keys(4) [OF inv] a(1)] a(2) by (simp add: find_attempt_def)
  with gen p(1) have number: "x_number ctx = int (length ?rows)" and snap: "x_snapshot ctx = p_snapshot p"
    using attempts_ok_last_number [OF ok last(1)] last(2) by (auto simp: genuine_def)
  have budget: "0 < length ?rows" "int (length ?rows) \<le> max 0 ?rc + 1"
    using ok p(2) by (cases "p_status p"; auto simp: attempts_ok_def attempt_budget_def)+
  have "attempt_budget (if retry_granted p ctx out then PRetryWait else pair_of_outcome st) ?rc (length ?rows)"
    using budget number snap
    by (cases st) (auto simp: attempt_budget_def retry_granted_def wants_retry_def)
  then show ?thesis
    using a(2,4) last(2)
    by (intro attempts_ok_finish [OF ok p(2)]) (auto, cases st, auto)
qed

lemma finish_attempt_inv:
  assumes inv: "store_inv d" and gen: "genuine d ctx" and fin: "finish_attempt now ctx out d = Inr d'"
  shows "store_inv d'"
  using fin
proof (cases rule: finish_attempt_cases)
  case noop
  with inv show ?thesis by simp
next
  case (finished a p v)
  let ?r = "retry_granted p ctx out" and ?o = "final_outcome p out"
  let ?d1 = "finish_writes now ctx ?r ?o d" and ?i = "x_execution ctx"
  note d' = finished(8) and p = finished(5,6) and a = finished(1-4)
  note pok = find_pair_ok [OF inv p(1)]
  have pe: "p_execution p = ?i" and snap: "x_snapshot ctx = p_snapshot p"
    using gen p(1) by (auto simp: genuine_def split: option.splits)
  obtain e where e: "find_exec d ?i = Some e"
    using pair_has_exec [OF inv pok(1)] pe by metis
  note eok = exec_ok [OF inv e]
  have e1: "find_exec ?d1 ?i = Some e" using e by (simp add: find_exec_def)
  have v: "ev_status v = e_status e" "map pv_status (ev_pairs v) = map p_status (pairs_of ?d1 ?i)"
    using get_execution_eq [OF e1] finished(7) by auto
  have keys: "keys_ok d'"
    using store_inv_keys(4,5) [OF inv]
    by (intro keys_ok_update [OF store_inv_keys(1) [OF inv]]) (simp_all add: d' row_simps)
  have fresh: "fresh_ids d'"
    by (rule fresh_ids_update [OF store_inv_keys(6) [OF inv]]) (auto simp: d' row_simps)
  have pairs: "pairs_ok d'"
    unfolding pairs_ok_def
  proof
    fix q' assume "q' \<in> set (pairs d')"
    then obtain q where q: "q \<in> set (pairs d)"
        and q': "q' = (if p_id q = x_pair ctx then finish_pair_row now ctx ?r ?o q else q)"
      unfolding d' update_execs_tables finish_writes_tables in_set_update_where by blast
    have of: "attempts_of d' i = update_where (\<lambda>a. a_id a = x_attempt ctx \<and> a_status a = ARunning)
        (finish_attempt_row now ?o) (attempts_of d i)" for i
      by (simp add: d' attempts_of_finish_writes)
    show "attempts_ok (p_status q') (s_retry_count (p_snapshot q')) (attempts_of d' (p_id q'))"
    proof (cases "p_id q = x_pair ctx")
      case True
      then have "q = p" using pair_unique [OF inv q pok(1)] pok(2) by simp
      with True q' show ?thesis
        using finish_attempts_ok [OF inv p a gen, of out "o_status ?o" now ?o] by (simp add: of)
    next
      case False
      have "update_where (\<lambda>a. a_id a = x_attempt ctx \<and> a_status a = ARunning)
          (finish_attempt_row now ?o) (attempts_of d (p_id q)) = attempts_of d (p_id q)"
        using attempt_unique [OF inv _ a(1)] a(2,3) False by (intro update_where_none) auto
      with False q' find_pair_ok(3) [OF inv find_pair_in [OF inv q]] show ?thesis by (simp add: of)
    qed
  qed
  have pin: "p \<in> set (pairs_of d ?i)" using pok(1) pe by simp
  then have "p_status p \<in> set (map p_status (pairs_of d ?i))"
    unfolding set_map by (rule imageI)
  then have act: "\<not> is_terminal_exec (e_status e)"
    using exec_agrees_terminal [OF eok(3)] p(2) pair_status_disjoint(3) by blast
  let ?ss = "map p_status (pairs_of ?d1 ?i)"
  have upd: "pairs_of ?d1 ?i = update_where (\<lambda>p. p_id p = x_pair ctx) (finish_pair_row now ctx ?r ?o) (pairs_of d ?i)"
    by (rule pairs_of_finish_writes)
  let ?s = "if ?r then PRetryWait else pair_of_outcome (o_status ?o)"
  have sub: "set ?ss \<subseteq> insert ?s (set (map p_status (pairs_of d ?i)))"
    unfolding upd set_map by (rule status_update_subset) simp
  have noretry: "e_status e = ECancelRequested \<Longrightarrow> \<not> ?r"
  proof -
    assume "e_status e = ECancelRequested"
    then have "p_status p = PCancelRequested"
      using eok(3) pin p(2) by (auto simp: exec_agrees_def)
    then show "\<not> ?r" by (simp add: retry_granted_def wants_retry_def)
  qed
  have agrees: "exec_agrees (aggregate_status (e_status e) ?ss) ?ss"
  proof (rule exec_agrees_finish [OF eok(3) act sub])
    show "?ss \<noteq> []" using eok(3) by (simp add: upd update_where_def exec_agrees_def)
    show "is_terminal_pair ?s \<or> ?s = PRetryWait \<and> e_status e \<noteq> ECancelRequested"
      using noretry by auto
    assume es: "e_status e = ECancelRequested"
    then have "\<forall>s \<in> insert ?s (set (map p_status (pairs_of d ?i))). s = PCancelRequested \<or> is_terminal_pair s"
      using noretry eok(3) by (simp add: exec_agrees_def)
    then have "s = PCancelRequested \<or> is_terminal_pair s" if "s \<in> set ?ss" for s
      using that sub by (meson subsetD)
    then show "PCancelRequested \<in> set ?ss \<or> list_all is_terminal_pair ?ss"
      unfolding list_all_iff by metis
  qed
  have execs: "execs_ok d'"
    unfolding execs_ok_def
  proof
    fix f' assume "f' \<in> set (executions d')"
    then obtain f where f: "f \<in> set (executions d)"
        and f': "f' = (if e_id f = ?i then finish_exec_row now v f else f)"
      unfolding d' update_execs_tables finish_writes_tables in_set_update_where by blast
    note fok = exec_ok [OF inv find_exec_in [OF inv f]]
    show "exec_agrees (e_status f') (map p_status (pairs_of d' (e_id f')))
        \<and> (e_finished f' \<noteq> None \<longleftrightarrow> is_terminal_exec (e_status f'))"
    proof (cases "e_id f = ?i")
      case True
      with f' agrees exec_agrees_terminal [OF agrees] show ?thesis
        by (simp add: d' v list_all_iff)
    next
      case False
      then have "pairs_of d' (e_id f) = pairs_of d (e_id f)"
        using other_execution_pairs [OF inv pok(1)] pe pok(2) by (simp add: d' pairs_of_finish_writes)
      with False f' fok show ?thesis by simp
    qed
  qed
  show ?thesis using keys fresh pairs execs by (simp add: store_inv_def)
qed

end
