(* ===== verification/Source_Groups.thy ===== *)
theory Source_Groups
  imports Store_Finish
begin

text \<open>
  The source-group operations of \<open>src/backup/execution.service.ts\<close>: the automatic group of a
  connection (\<open>automaticGroup\<close>, with the host canonicalised the way the WHATWG URL parser does
  for an IPv6 literal), \<open>sourceGroup\<close>, \<open>assignGroup\<close>, \<open>groups\<close>, the stored settings and
  \<open>configure\<close>, and the administrator check \<open>actor\<close>.
\<close>

section \<open>IPv6 literals\<close>

definition hex_digit :: "char \<Rightarrow> nat option" where
  "hex_digit c =
     (if CHR ''0'' \<le> c \<and> c \<le> CHR ''9'' then Some (of_char c - 48)
      else if CHR ''a'' \<le> c \<and> c \<le> CHR ''f'' then Some (of_char c - 87)
      else if CHR ''A'' \<le> c \<and> c \<le> CHR ''F'' then Some (of_char c - 55)
      else None)"

text \<open>One piece: one to four hexadecimal digits.\<close>

definition hex_piece :: "string \<Rightarrow> nat option" where
  "hex_piece s =
     (if s = [] \<or> length s > 4 then None
      else fold (\<lambda>c acc. case acc of None \<Rightarrow> None
                   | Some n \<Rightarrow> map_option (\<lambda>h. 16 * n + h) (hex_digit c)) s (Some 0))"

text \<open>An embedded IPv4 part: four decimal numbers below 256 without leading zeros.\<close>

definition octet :: "string \<Rightarrow> nat option" where
  "octet s = (if s \<noteq> [] \<and> length s \<le> 3 \<and> list_all is_digit s \<and> read_nat s < 256
                 \<and> (length s = 1 \<or> hd s \<noteq> CHR ''0'')
              then Some (read_nat s) else None)"

definition ipv4_pieces :: "string \<Rightarrow> nat list option" where
  "ipv4_pieces s = (case map octet (split_on CHR ''.'' s) of
     [Some a, Some b, Some c, Some d] \<Rightarrow> Some [256 * a + b, 256 * c + d]
   | _ \<Rightarrow> None)"

fun pieces :: "bool \<Rightarrow> string list \<Rightarrow> nat list option" where
  "pieces v4 [] = Some []"
| "pieces v4 [s] = (case hex_piece s of Some n \<Rightarrow> Some [n] | None \<Rightarrow> if v4 then ipv4_pieces s else None)"
| "pieces v4 (s # t # ss) =
     (case (hex_piece s, pieces v4 (t # ss)) of (Some n, Some ns) \<Rightarrow> Some (n # ns) | _ \<Rightarrow> None)"

definition piece_list :: "bool \<Rightarrow> string \<Rightarrow> nat list option" where
  "piece_list v4 s = (if s = [] then Some [] else pieces v4 (split_on CHR '':'' s))"

text \<open>The text before and after the first \<open>::\<close>.\<close>

fun at_gap :: "string \<Rightarrow> (string \<times> string) option" where
  "at_gap (a # b # s) = (if a = CHR '':'' \<and> b = CHR '':'' then Some ([], s)
     else map_option (\<lambda>(l, r). (a # l, r)) (at_gap (b # s)))"
| "at_gap _ = None"

definition ipv6_parse :: "string \<Rightarrow> nat list option" where
  "ipv6_parse s =
     (case at_gap s of
        None \<Rightarrow> (case piece_list True s of Some ns \<Rightarrow> if length ns = 8 then Some ns else None | None \<Rightarrow> None)
      | Some (l, r) \<Rightarrow>
          (case (piece_list False l, piece_list True r) of
             (Some ls, Some rs) \<Rightarrow>
               (if length ls + length rs < 8 then Some (ls @ replicate (8 - length ls - length rs) 0 @ rs) else None)
           | _ \<Rightarrow> None))"

definition hex_char :: "nat \<Rightarrow> char" where
  "hex_char n = (if n < 10 then char_of (48 + n) else char_of (87 + n))"

fun show_hex :: "nat \<Rightarrow> string" where
  "show_hex n = (if n < 16 then [hex_char n] else show_hex (n div 16) @ [hex_char (n mod 16)])"

declare show_hex.simps [simp del]

definition zero_run :: "nat list \<Rightarrow> nat" where
  "zero_run ns = length (takeWhile (\<lambda>n. n = 0) ns)"

text \<open>The first longest run of at least two zero pieces: its start and its length.\<close>

definition longest_run :: "nat list \<Rightarrow> (nat \<times> nat) option" where
  "longest_run ns =
     fold (\<lambda>i best. let r = zero_run (drop i ns) in
             if r \<ge> 2 \<and> (case best of None \<Rightarrow> True | Some (_, b) \<Rightarrow> b < r) then Some (i, r) else best)
       [0..<length ns] None"

definition ipv6_show :: "nat list \<Rightarrow> string" where
  "ipv6_show ns =
     (case longest_run ns of
        None \<Rightarrow> join '':'' (map show_hex ns)
      | Some (i, r) \<Rightarrow> join '':'' (map show_hex (take i ns)) @ ''::'' @ join '':'' (map show_hex (drop (i + r) ns)))"

section \<open>The automatic group\<close>

definition drop_last_dot :: "string \<Rightarrow> string" where
  "drop_last_dot s = (if s \<noteq> [] \<and> last s = CHR ''.'' then butlast s else s)"

text \<open>\<open>replace(/^\[|\]$/g,'')\<close>.\<close>

definition strip_brackets :: "string \<Rightarrow> string" where
  "strip_brackets s =
     (let t = (if s \<noteq> [] \<and> hd s = CHR ''['' then tl s else s)
      in if t \<noteq> [] \<and> last t = CHR '']'' then butlast t else t)"

definition canonical_host :: "string \<Rightarrow> string" where
  "canonical_host s =
     (let h = strip_brackets (drop_last_dot (to_lower (trim s)))
      in if CHR '':'' \<in> set h then (case ipv6_parse h of Some ns \<Rightarrow> ipv6_show ns | None \<Rightarrow> h) else h)"

definition show_int :: "int \<Rightarrow> string" where
  "show_int i = (if i < 0 then CHR ''-'' # show_nat (nat (- i)) else show_nat (nat i))"

definition group_name_of :: "connection_row \<Rightarrow> string" where
  "group_name_of c = canonical_host (c_host c) @ '':'' @ show_int (if c_port c = 0 then 3306 else c_port c)"

definition automatic_group :: "connection_row \<Rightarrow> string" where
  "automatic_group c = ''host:'' @ group_name_of c"

definition is_automatic :: "string \<Rightarrow> bool" where
  "is_automatic g = starts_with g ''host:''"

lemma automatic_group_is_automatic [simp]: "is_automatic (automatic_group c)"
  by (simp add: is_automatic_def automatic_group_def starts_with_def)

text \<open>A group an administrator assigned: present, not empty, not automatic.\<close>

definition manual_group :: "connection_row \<Rightarrow> string option" where
  "manual_group c = (case c_group c of
     Some g \<Rightarrow> if g \<noteq> [] \<and> \<not> is_automatic g then Some g else None | None \<Rightarrow> None)"

definition find_group :: "db \<Rightarrow> string \<Rightarrow> group_row option" where
  "find_group d g = List.find (\<lambda>r. g_id r = g) (source_groups d)"

definition set_group :: "id list \<Rightarrow> string option \<Rightarrow> db \<Rightarrow> db" where
  "set_group ids g d = d\<lparr>connections := update_where (\<lambda>c. c_id c \<in> set ids) (\<lambda>c. c\<lparr>c_group := g\<rparr>) (connections d)\<rparr>"

definition source_group :: "id \<Rightarrow> db \<Rightarrow> string \<times> db" where
  "source_group i d =
     (case find_connection d i of
        None \<Rightarrow> (''missing:'' @ i, d)
      | Some c \<Rightarrow>
          (case manual_group c of
             Some g \<Rightarrow> (g, d)
           | None \<Rightarrow>
               (let g = automatic_group c;
                    d1 = (if find_group d g = None
                          then d\<lparr>source_groups := source_groups d @ [\<lparr>g_id = g, g_name = group_name_of c, g_concurrency = 1\<rparr>]\<rparr>
                          else d)
                in (g, set_group [i] (Some g) d1))))"

section \<open>Administrators and settings\<close>

definition is_admin :: "db \<Rightarrow> id \<Rightarrow> bool" where
  "is_admin d i = (case find_user d i of Some u \<Rightarrow> u_role u = ''admin'' | None \<Rightarrow> False)"

text \<open>\<open>actor(actor, trigger)\<close>: scheduled and catch-up work needs no actor.\<close>

definition actor_check :: "db \<Rightarrow> id option \<Rightarrow> trigger \<Rightarrow> unit result" where
  "actor_check d actor trig =
     (if trig = Manual \<or> trig = Retry
      then (case actor of
              Some i \<Rightarrow> if is_admin d i then Inr () else Inl (BadRequest ''Administrator required'')
            | None \<Rightarrow> Inl (BadRequest ''Administrator required''))
      else Inr ())"

text \<open>\<open>setting(key, fallback)\<close>: the rows are decimal numbers; text that is not one is NaN and
  falls back, blank text is 0 as for \<open>Number('')\<close>.\<close>

definition setting :: "db \<Rightarrow> string \<Rightarrow> int \<Rightarrow> int" where
  "setting d key fallback =
     (case settings d key of
        None \<Rightarrow> fallback
      | Some v \<Rightarrow> if trim v = [] then 0
                  else if list_all is_digit (trim v) then int (read_nat (trim v)) else fallback)"

definition configure :: "int \<Rightarrow> id \<Rightarrow> db \<Rightarrow> db result" where
  "configure limit actor d =
     (case actor_check d (Some actor) Manual of
        Inl e \<Rightarrow> Inl e
      | Inr _ \<Rightarrow>
          (if limit < 1 \<or> limit > 32 then Inl (BadRequest ''Concurrency must be between 1 and 32'')
           else Inr (d\<lparr>settings := (settings d)(''execution_concurrency'' \<mapsto> show_int limit)\<rparr>)))"

definition concurrency_limit :: "db \<Rightarrow> int" where
  "concurrency_limit d = max 1 (min 32 (setting d ''execution_concurrency'' 4))"

section \<open>Assignment\<close>

text \<open>A connection that may not join an automatic group.\<close>

definition foreign_to_group :: "db \<Rightarrow> string \<Rightarrow> id \<Rightarrow> bool" where
  "foreign_to_group d g i =
     (case find_connection d i of
        None \<Rightarrow> True
      | Some c \<Rightarrow> automatic_group c \<noteq> g \<or> manual_group c \<noteq> None)"

definition has_open_work :: "db \<Rightarrow> id \<Rightarrow> bool" where
  "has_open_work d i = list_ex (\<lambda>p. p_connection p = i \<and> \<not> is_terminal_pair (p_status p)) (pairs d)"

definition group_members :: "db \<Rightarrow> string \<Rightarrow> id list" where
  "group_members d g = map c_id (filter (\<lambda>c. c_group c = Some g) (connections d))"

definition save_group :: "string \<Rightarrow> string \<Rightarrow> int \<Rightarrow> db \<Rightarrow> db" where
  "save_group g nm n d =
     d\<lparr>source_groups :=
         (if find_group d g = None then source_groups d @ [\<lparr>g_id = g, g_name = nm, g_concurrency = n\<rparr>]
          else update_where (\<lambda>r. g_id r = g) (\<lambda>r. r\<lparr>g_name := nm, g_concurrency := n\<rparr>) (source_groups d))\<rparr>"

definition assign_group ::
  "time \<Rightarrow> id list \<Rightarrow> string \<Rightarrow> string \<Rightarrow> int \<Rightarrow> id \<Rightarrow> db \<Rightarrow> db result" where
  "assign_group now ids g nm n actor d =
     (case actor_check d (Some actor) Manual of
        Inl e \<Rightarrow> Inl e
      | Inr _ \<Rightarrow>
          (let automatic = is_automatic g;
               removed = (if automatic then [] else filter (\<lambda>i. i \<notin> set ids) (group_members d g));
               changed = removed @ (if automatic then [] else
                  filter (\<lambda>i. case find_connection d i of Some c \<Rightarrow> c_group c \<noteq> Some g | None \<Rightarrow> False) ids)
           in if g = [] \<or> nm = [] \<or> n < 1 \<or> n > 8 then Inl (BadRequest ''Invalid source group'')
              else if automatic \<and> list_ex (foreign_to_group d g) ids
              then Inl (BadRequest ''Automatic source group membership cannot be reassigned'')
              else if list_ex (\<lambda>i. find_connection d i = None) ids
              then Inl (BadRequest ''Database connection not found'')
              else if list_ex (has_open_work d) changed
              then Inl (BadRequest ''Source has queued or running work'')
              else Inr (add_event now None None ''source_group_configured'' (Some actor)
                     (json_obj [(''groupId'', JStr g), (''name'', JStr nm), (''concurrency'', JNum n),
                                (''connectionIds'', JArr (map JStr ids)), (''removedConnectionIds'', JArr (map JStr removed))])
                     (set_group ids (Some g) (set_group removed None (save_group g nm n d))))))"

section \<open>The overview\<close>

record group_view =
  gv_id :: string
  gv_name :: string
  gv_concurrency :: int
  gv_connections :: "id list"

definition group_of :: "connection_row \<Rightarrow> string" where
  "group_of c = (case manual_group c of Some g \<Rightarrow> g | None \<Rightarrow> automatic_group c)"

definition add_member :: "connection_row \<Rightarrow> group_view list \<Rightarrow> group_view list" where
  "add_member c vs =
     (let g = group_of c;
          vs' = (if g \<in> gv_id ` set vs then vs
                 else vs @ [\<lparr>gv_id = g, gv_name = group_name_of c, gv_concurrency = 1, gv_connections = []\<rparr>])
      in update_where (\<lambda>v. gv_id v = g) (\<lambda>v. v\<lparr>gv_connections := gv_connections v @ [c_id c]\<rparr>) vs')"

text \<open>\<open>groups()\<close>: the stored groups by name and id, then the connections in order of their ids;
  with each group its effective concurrency.\<close>

definition groups :: "db \<Rightarrow> (group_view \<times> int) list" where
  "groups d =
     (let stored = map (\<lambda>r. \<lparr>gv_id = g_id r, gv_name = g_name r, gv_concurrency = g_concurrency r, gv_connections = []\<rparr>)
                     (sort_key (\<lambda>r. (g_name r, g_id r)) (source_groups d));
          vs = fold add_member (sort_key c_id (connections d)) stored
      in map (\<lambda>v. (v, min (setting d ''execution_concurrency'' 4) (gv_concurrency v))) vs)"

end
