(* ===== verification/Admission.thy ===== *)
theory Admission
  imports Source_Groups
begin

text \<open>
  How work enters the queue, in \<open>src/backup/execution.service.ts\<close>: \<open>insert\<close>, \<open>enqueue\<close> (manual,
  scheduled, catch-up), \<open>retry\<close> (selected pairs of an earlier execution), \<open>retryHistoricalRun\<close>
  (a failed run from before the execution queue), and the queue order operations \<open>prioritize\<close>
  and \<open>moveAhead\<close>.
\<close>

section \<open>Insertion\<close>

record pair_plan =
  pp_connection :: id
  pp_target :: id
  pp_required :: bool
  pp_group :: string
  pp_snapshot :: snapshot

definition new_pair :: "id \<Rightarrow> id \<Rightarrow> digest \<Rightarrow> pair_plan \<Rightarrow> pair_row" where
  "new_pair pid ex f pl = \<lparr>p_id = pid, p_execution = ex, p_connection = pp_connection pl, p_target = pp_target pl,
     p_fingerprint = f, p_group = pp_group pl, p_required = pp_required pl, p_status = PQueued, p_wait = None,
     p_snapshot = pp_snapshot pl, p_next = None, p_started = None, p_finished = None, p_warnings = []\<rparr>"

text \<open>\<open>UNIQUE(execution_id, connection_id, storage_target_id)\<close>.\<close>

definition pair_exists :: "db \<Rightarrow> id \<Rightarrow> pair_plan \<Rightarrow> bool" where
  "pair_exists d ex pl = list_ex (\<lambda>p. p_execution p = ex \<and> p_connection p = pp_connection pl
     \<and> p_target p = pp_target pl) (pairs d)"

fun insert_pairs :: "id \<Rightarrow> pair_plan list \<Rightarrow> db \<Rightarrow> db result" where
  "insert_pairs ex [] d = Inr d"
| "insert_pairs ex (pl # pls) d =
     (case selection_fingerprint (pp_snapshot pl) of
        Inl e \<Rightarrow> Inl e
      | Inr f \<Rightarrow>
          (if pair_exists d ex pl
           then Inl (Failure ''UNIQUE constraint failed: backup_execution_pairs'')
           else insert_pairs ex pls
                  (d\<lparr>pairs := pairs d @ [new_pair (uuid (draws d)) ex f pl], draws := Suc (draws d)\<rparr>)))"

definition next_sequence :: "db \<Rightarrow> int" where
  "next_sequence d = (case map e_sequence (executions d) of [] \<Rightarrow> 0 | n # ns \<Rightarrow> fold max ns n) + 1"

definition new_exec :: "id \<Rightarrow> id \<Rightarrow> trigger \<Rightarrow> time option \<Rightarrow> time \<Rightarrow> id option \<Rightarrow> id option \<Rightarrow> int \<Rightarrow> exec_row" where
  "new_exec i job trig sched now parent actor sq = \<lparr>e_id = i, e_job = job, e_trigger = trig, e_status = EQueued,
     e_scheduled_for = sched, e_queued_at = now, e_started = None, e_finished = None, e_parent = parent,
     e_actor = actor, e_priority = 0, e_sequence = sq, e_warnings = [], e_missed_count = 0,
     e_missed_from = None, e_missed_to = None\<rparr>"

definition trigger_name :: "trigger \<Rightarrow> string" where
  "trigger_name t = (case t of Scheduled \<Rightarrow> ''scheduled'' | Manual \<Rightarrow> ''manual'' | Retry \<Rightarrow> ''retry'' | Catchup \<Rightarrow> ''catchup'')"

definition json_id :: "id option \<Rightarrow> json" where
  "json_id i = (case i of None \<Rightarrow> JNull | Some s \<Rightarrow> JStr s)"

definition scheduled_exec :: "db \<Rightarrow> id \<Rightarrow> time option \<Rightarrow> exec_row option" where
  "scheduled_exec d job sched =
     (case sched of None \<Rightarrow> None
      | Some t \<Rightarrow> List.find (\<lambda>e. e_job e = job \<and> e_scheduled_for e = Some t) (executions d))"

text \<open>\<open>insert(jobId, trigger, actor, scheduledFor, parent, pairs)\<close>: the id of the new execution,
  or of the one that already holds the scheduled occurrence.\<close>

definition insert_execution ::
  "time \<Rightarrow> id \<Rightarrow> trigger \<Rightarrow> id option \<Rightarrow> time option \<Rightarrow> id option \<Rightarrow> pair_plan list \<Rightarrow> db \<Rightarrow> (id \<times> db) result" where
  "insert_execution now job trig actor sched parent pls d =
     (let i = uuid (draws d); d0 = d\<lparr>draws := Suc (draws d)\<rparr>
      in case scheduled_exec d job sched of
           Some e \<Rightarrow> Inr (e_id e, d0)
         | None \<Rightarrow>
             (case insert_pairs i pls
                (d0\<lparr>executions := executions d @ [new_exec i job trig sched now parent actor (next_sequence d)]\<rparr>) of
                Inl e \<Rightarrow> Inl e
              | Inr d1 \<Rightarrow>
                  Inr (i, add_event now (Some i) None ''enqueued'' actor
                            (json_obj [(''trigger'', JStr (trigger_name trig)), (''parentExecutionId'', json_id parent)]) d1)))"

section \<open>Enqueue\<close>

definition job_sources :: "db \<Rightarrow> job_row \<Rightarrow> (id \<times> jtext) list" where
  "job_sources d j =
     (let rows = sort_key (\<lambda>r. (jc_position r, jc_connection r)) (filter (\<lambda>r. jc_job r = j_id j) (job_connections d))
      in if rows = [] then [(j_connection j, j_names j)] else map (\<lambda>r. (jc_connection r, jc_names r)) rows)"

definition job_destinations :: "db \<Rightarrow> job_row \<Rightarrow> (id \<times> bool) list" where
  "job_destinations d j =
     (let rows = sort_key (\<lambda>r. (js_position r, js_target r)) (filter (\<lambda>r. js_job r = j_id j) (job_storages d))
      in if rows = [] then [(j_target j, True)] else map (\<lambda>r. (js_target r, js_required r)) rows)"

definition records_pitr :: "db \<Rightarrow> id \<Rightarrow> id \<Rightarrow> bool" where
  "records_pitr d conn job =
     (case List.find (\<lambda>r. ps_connection r = conn) (pitr_sources d) of
        None \<Rightarrow> False | Some r \<Rightarrow> ps_enabled r \<and> ps_base_job r = Some job)"

fun plan_pairs :: "job_row \<Rightarrow> ((id \<times> jtext) \<times> (id \<times> bool)) list \<Rightarrow> db \<Rightarrow> (pair_plan list \<times> db) result" where
  "plan_pairs j [] d = Inr ([], d)"
| "plan_pairs j (((conn, names), (target, req)) # rest) d =
     (case snapshot_configuration j names (find_connection d conn) (records_pitr d conn (j_id j)) of
        Inl e \<Rightarrow> Inl e
      | Inr s \<Rightarrow>
          (case source_group conn d of (g, d1) \<Rightarrow>
             (case plan_pairs j rest d1 of
                Inl e \<Rightarrow> Inl e
              | Inr (pls, d2) \<Rightarrow>
                  Inr (\<lparr>pp_connection = conn, pp_target = target, pp_required = req, pp_group = g, pp_snapshot = s\<rparr> # pls, d2))))"

definition job_pairs :: "db \<Rightarrow> job_row \<Rightarrow> ((id \<times> jtext) \<times> (id \<times> bool)) list" where
  "job_pairs d j = List.product (job_sources d j) (job_destinations d j)"

definition enqueue :: "time \<Rightarrow> id \<Rightarrow> trigger \<Rightarrow> id option \<Rightarrow> time option \<Rightarrow> db \<Rightarrow> (id \<times> db) result" where
  "enqueue now job trig actor sched d =
     (case actor_check d actor trig of
        Inl e \<Rightarrow> Inl e
      | Inr _ \<Rightarrow>
          (case find_job d job of
             None \<Rightarrow> Inl (NotFound ''Backup schedule not found'')
           | Some j \<Rightarrow>
               (case plan_pairs j (job_pairs d j) d of
                  Inl e \<Rightarrow> Inl e
                | Inr (pls, d1) \<Rightarrow> insert_execution now job trig actor sched None pls d1)))"

section \<open>Retry of selected pairs\<close>

definition selected_pair :: "db \<Rightarrow> id \<Rightarrow> pair_selection \<Rightarrow> pair_row option" where
  "selected_pair d i sel = List.find (\<lambda>p. p_connection p = sel_connection sel \<and> p_target p = sel_target sel) (pairs_of d i)"

text \<open>Whether the pair may be retried: it ended, or never started in an execution that ended.\<close>

definition retryable :: "exec_status \<Rightarrow> pair_status \<Rightarrow> bool" where
  "retryable es ps \<longleftrightarrow> ps \<in> {PSuccess, PFailed, PCancelled, PInterrupted}
     \<or> (ps = PNotStarted \<and> es \<in> {ESuccess, EPartialFailure, EFailed, ECancelled, EInterrupted})"

fun plan_retries :: "id \<Rightarrow> exec_status \<Rightarrow> pair_selection list \<Rightarrow> db \<Rightarrow> (pair_plan list \<times> db) result" where
  "plan_retries i es [] d = Inr ([], d)"
| "plan_retries i es (sel # sels) d =
     (case selected_pair d i sel of
        None \<Rightarrow> Inl (BadRequest ''Selected pair is unrelated or still active'')
      | Some p \<Rightarrow>
          (if \<not> retryable es (p_status p) then Inl (BadRequest ''Selected pair is unrelated or still active'')
           else (case source_group (p_connection p) d of (g, d1) \<Rightarrow>
             (case plan_retries i es sels d1 of
                Inl e \<Rightarrow> Inl e
              | Inr (pls, d2) \<Rightarrow>
                  Inr (\<lparr>pp_connection = sel_connection sel, pp_target = sel_target sel, pp_required = p_required p,
                        pp_group = g, pp_snapshot = p_snapshot p\<rparr> # pls, d2)))))"

definition retry_execution :: "time \<Rightarrow> id \<Rightarrow> pair_selection list \<Rightarrow> id \<Rightarrow> db \<Rightarrow> (id \<times> db) result" where
  "retry_execution now i sels actor d =
     (case actor_check d (Some actor) Retry of
        Inl e \<Rightarrow> Inl e
      | Inr _ \<Rightarrow>
          (case find_exec d i of
             None \<Rightarrow> Inl execution_not_found
           | Some e \<Rightarrow>
               (if sels = [] \<or> \<not> distinct sels then Inl (BadRequest ''Select unique execution pairs'')
                else (case plan_retries i (e_status e) sels d of
                        Inl err \<Rightarrow> Inl err
                      | Inr (pls, d1) \<Rightarrow> insert_execution now (e_job e) Retry (Some actor) None (Some i) pls d1))))"

section \<open>Retry of a historical run\<close>

text \<open>The four flags of \<open>backup_objects\<close>, all of them booleans.\<close>

definition strict_objects :: "json \<Rightarrow> backup_objects option" where
  "strict_objects j =
     (case (jget j ''views'', jget j ''routines'', jget j ''triggers'', jget j ''events'') of
        (Some (JBool a), Some (JBool b), Some (JBool c), Some (JBool e)) \<Rightarrow>
          Some \<lparr>bo_views = a, bo_routines = b, bo_triggers = c, bo_events = e\<rparr>
      | _ \<Rightarrow> None)"

text \<open>The recorded configuration of a run, checked: the snapshot for its retry.\<close>

definition historical_snapshot :: "run_row \<Rightarrow> job_row option \<Rightarrow> (id \<times> id \<times> snapshot) result" where
  "historical_snapshot r job =
     (case (r_connection r, r_target r, r_scope r, r_layout r, r_compression r, r_encryption r, r_insert_mode r) of
        (Some conn, Some target, Some sc, Some lay, Some cmp, Some enc, Some ins) \<Rightarrow>
          (if r_names r = Absent \<or> r_objects r = Absent
           then Inl (BadRequest ''Historical backup configuration is incomplete; start its schedule to create a new execution'')
           else case job of
             None \<Rightarrow> Inl (BadRequest ''Historical backup schedule no longer exists'')
           | Some j \<Rightarrow>
               (case (r_names r, r_objects r) of
                  (Parsed _, Parsed objs) \<Rightarrow>
                    (case (parse_database_names (r_names r), strict_objects objs) of
                       (Inr _, Some bo) \<Rightarrow>
                         (if sc \<in> {''selected'', ''all''} \<and> lay \<in> {''single'', ''database'', ''table''}
                             \<and> cmp \<in> {''none'', ''gzip'', ''zip''} \<and> enc \<in> {''none'', ''aes-256-gcm''}
                             \<and> ins \<in> {''extended'', ''single-row''}
                          then Inr (conn, target, \<lparr>s_name = j_name j, s_scope = sc, s_names = r_names r, s_layout = lay,
                                 s_objects = bo, s_insert_mode = ins, s_compression = cmp, s_encryption = enc,
                                 s_prefix = j_prefix j, s_retention = j_retention j, s_retry_count = j_retry_count j,
                                 s_retry_delay = j_retry_delay j, s_pitr = False\<rparr>)
                          else Inl (BadRequest ''Historical backup configuration cannot be verified''))
                     | _ \<Rightarrow> Inl (BadRequest ''Historical backup configuration cannot be verified''))
                | _ \<Rightarrow> Inl (BadRequest ''Historical backup configuration is invalid'')))
      | _ \<Rightarrow> Inl (BadRequest ''Historical backup configuration is incomplete; start its schedule to create a new execution''))"

definition retry_historical :: "time \<Rightarrow> id \<Rightarrow> id \<Rightarrow> db \<Rightarrow> (id \<times> db) result" where
  "retry_historical now run actor d =
     (case actor_check d (Some actor) Retry of
        Inl e \<Rightarrow> Inl e
      | Inr _ \<Rightarrow>
          (case find_run d run of
             None \<Rightarrow> Inl (BadRequest ''Only a failed backup run can be retried'')
           | Some r \<Rightarrow>
               (if r_status r \<noteq> ''failed'' \<and> r_status r \<noteq> ''retrying''
                then Inl (BadRequest ''Only a failed backup run can be retried'')
                else case historical_snapshot r (find_job d (r_job r)) of
                       Inl e \<Rightarrow> Inl e
                     | Inr (conn, target, s) \<Rightarrow>
                         (case source_group conn d of (g, d1) \<Rightarrow>
                            (case insert_execution now (r_job r) Retry (Some actor) None None
                                    [\<lparr>pp_connection = conn, pp_target = target, pp_required = True, pp_group = g, pp_snapshot = s\<rparr>] d1 of
                               Inl e \<Rightarrow> Inl e
                             | Inr (i, d2) \<Rightarrow>
                                 Inr (i, add_event now (Some i) None ''historical_run_retry'' (Some actor)
                                           (json_obj [(''runId'', JStr run)]) d2))))))"

section \<open>Queue order\<close>

definition safe_integer :: "int \<Rightarrow> bool" where
  "safe_integer n \<longleftrightarrow> - (2 ^ 53 - 1) \<le> n \<and> n \<le> 2 ^ 53 - 1"

definition prioritize :: "time \<Rightarrow> id \<Rightarrow> int \<Rightarrow> id \<Rightarrow> db \<Rightarrow> db result" where
  "prioritize now i prio actor d =
     (case actor_check d (Some actor) Manual of
        Inl e \<Rightarrow> Inl e
      | Inr _ \<Rightarrow>
          (if \<not> safe_integer prio then Inl (BadRequest ''Invalid priority'')
           else case find_exec d i of
             None \<Rightarrow> Inl execution_not_found
           | Some e \<Rightarrow>
               (if e_status e \<noteq> EQueued then Inl (BadRequest ''Only queued executions can be prioritized'')
                else Inr (add_event now (Some i) None ''priority_changed'' (Some actor) (json_obj [(''priority'', JNum prio)])
                       (update_execs (\<lambda>e. e_id e = i) (\<lambda>e. e\<lparr>e_priority := prio\<rparr>) d)))))"

definition max_priority :: "db \<Rightarrow> int" where
  "max_priority d = (case map e_priority (executions d) of [] \<Rightarrow> 0 | n # ns \<Rightarrow> fold max ns n)"

definition move_ahead :: "time \<Rightarrow> id \<Rightarrow> id \<Rightarrow> db \<Rightarrow> db result" where
  "move_ahead now i actor d = prioritize now i (max_priority d + 1) actor d"

end
