(* ===== verification/Admission_Facts.thy ===== *)
theory Admission_Facts
  imports Admission
begin

text \<open>
  Admission keeps the invariant of the queue, and what it inserts: one queued pair for every
  source and destination of the schedule, in order, each with the schedule's snapshot.
\<close>

section \<open>Frames\<close>

text \<open>Two databases that agree on everything a step of source grouping leaves alone.\<close>

definition same_queue :: "db \<Rightarrow> db \<Rightarrow> bool" where
  "same_queue d d' \<longleftrightarrow> executions d' = executions d \<and> pairs d' = pairs d \<and> attempts d' = attempts d
     \<and> draws d' = draws d \<and> users d' = users d \<and> jobs d' = jobs d \<and> settings d' = settings d
     \<and> events d' = events d \<and> runs d' = runs d"

lemma same_queue_refl [simp]: "same_queue d d"
  by (simp add: same_queue_def)

lemma same_queue_trans: "same_queue a b \<Longrightarrow> same_queue b c \<Longrightarrow> same_queue a c"
  by (simp add: same_queue_def)

lemma set_group_same [simp]: "same_queue d (set_group ids g d)"
  by (simp add: set_group_def same_queue_def)

lemma source_group_same: "source_group i d = (g, d') \<Longrightarrow> same_queue d d'"
  by (auto simp: source_group_def set_group_def same_queue_def Let_def split: option.splits)

lemma same_queue_inv: "same_queue d d' \<Longrightarrow> store_inv d \<Longrightarrow> store_inv d'"
  by (rule store_inv_cong [of d' d]) (simp_all add: same_queue_def)

lemma plan_pairs_Inr:
  "plan_pairs j cs d = Inr (pls, d') \<Longrightarrow> same_queue d d'
     \<and> map (\<lambda>pl. (pp_connection pl, pp_target pl, pp_required pl)) pls
         = map (\<lambda>((c, ns), (t, r)). (c, t, r)) cs
     \<and> (\<forall>pl \<in> set pls. \<exists>f. selection_fingerprint (pp_snapshot pl) = Inr f)
     \<and> (\<forall>pl \<in> set pls. s_retry_count (pp_snapshot pl) = j_retry_count j)"
proof (induction j cs d arbitrary: pls d' rule: plan_pairs.induct)
  case (2 j conn names target req rest d)
  from "2.prems" obtain s g d1 pls' where
      s: "snapshot_configuration j names (find_connection d conn) (records_pitr d conn (j_id j)) = Inr s"
    and g: "source_group conn d = (g, d1)" and rest: "plan_pairs j rest d1 = Inr (pls', d')"
    and pls: "pls = \<lparr>pp_connection = conn, pp_target = target, pp_required = req, pp_group = g, pp_snapshot = s\<rparr> # pls'"
    by (auto split: sum.splits prod.splits)
  note IH = "2.IH" [OF s g [symmetric] rest]
  have "s_retry_count s = j_retry_count j"
    using s by (auto elim: snapshot_configuration_Inr)
  with IH pls snapshot_has_fingerprint [OF s] same_queue_trans [OF source_group_same [OF g]]
  show ?case by auto
qed simp

lemma plan_retries_Inr:
  "plan_retries i es sels d = Inr (pls, d') \<Longrightarrow> same_queue d d'
     \<and> map (\<lambda>pl. (pp_connection pl, pp_target pl)) pls = map (\<lambda>s. (sel_connection s, sel_target s)) sels
     \<and> (\<forall>pl \<in> set pls. \<exists>p \<in> set (pairs d). p_execution p = i \<and> retryable es (p_status p)
          \<and> p_connection p = pp_connection pl \<and> p_target p = pp_target pl
          \<and> pp_snapshot pl = p_snapshot p \<and> pp_required pl = p_required p)"
proof (induction i es sels d arbitrary: pls d' rule: plan_retries.induct)
  case (2 i es sel sels d)
  from "2.prems" obtain p g d1 pls' where
      p: "selected_pair d i sel = Some p" and r: "retryable es (p_status p)"
    and g: "source_group (p_connection p) d = (g, d1)" and rest: "plan_retries i es sels d1 = Inr (pls', d')"
    and pls: "pls = \<lparr>pp_connection = sel_connection sel, pp_target = sel_target sel, pp_required = p_required p,
                    pp_group = g, pp_snapshot = p_snapshot p\<rparr> # pls'"
    by (auto split: sum.splits prod.splits option.splits if_splits)
  have "p \<in> set (pairs d)" "p_execution p = i" "p_connection p = sel_connection sel" "p_target p = sel_target sel"
    using find_SomeD [OF p [unfolded selected_pair_def]] by simp_all
  moreover have "pairs d1 = pairs d" using source_group_same [OF g] by (simp add: same_queue_def)
  moreover note "2.IH" [OF p _ g [symmetric] rest] r same_queue_trans [OF source_group_same [OF g]]
  ultimately show ?case using pls by auto
qed simp

section \<open>The inserted rows\<close>

fun new_pairs :: "id \<Rightarrow> nat \<Rightarrow> pair_plan list \<Rightarrow> pair_row list" where
  "new_pairs ex n [] = []"
| "new_pairs ex n (pl # pls) =
     (case selection_fingerprint (pp_snapshot pl) of Inl e \<Rightarrow> [] | Inr f \<Rightarrow> [new_pair (uuid n) ex f pl])
     @ new_pairs ex (Suc n) pls"

lemma new_pair_rows [simp]:
  "p_id (new_pair i ex f pl) = i" "p_execution (new_pair i ex f pl) = ex" "p_status (new_pair i ex f pl) = PQueued"
  "p_connection (new_pair i ex f pl) = pp_connection pl" "p_target (new_pair i ex f pl) = pp_target pl"
  "p_required (new_pair i ex f pl) = pp_required pl" "p_snapshot (new_pair i ex f pl) = pp_snapshot pl"
  by (simp_all add: new_pair_def)

lemma insert_pairs_Inr:
  "insert_pairs ex pls d = Inr d' \<Longrightarrow>
     d' = d\<lparr>pairs := pairs d @ new_pairs ex (draws d) pls, draws := draws d + length pls\<rparr>
     \<and> map (\<lambda>p. (p_connection p, p_target p, p_required p)) (new_pairs ex (draws d) pls)
         = map (\<lambda>pl. (pp_connection pl, pp_target pl, pp_required pl)) pls
     \<and> map p_snapshot (new_pairs ex (draws d) pls) = map pp_snapshot pls"
proof (induction ex pls d rule: insert_pairs.induct)
  case (2 ex pl pls d)
  then show ?case by (auto split: sum.splits if_splits)
qed simp

lemma new_pairs_rows:
  "p \<in> set (new_pairs ex n pls) \<Longrightarrow> p_execution p = ex \<and> p_status p = PQueued
     \<and> p_id p \<in> uuid ` {n..<n + length pls}"
  by (induction ex n pls rule: new_pairs.induct) (fastforce split: sum.splits)+

lemma new_pairs_distinct: "distinct (map p_id (new_pairs ex n pls))"
proof (induction ex n pls rule: new_pairs.induct)
  case (2 ex n pl pls)
  have "uuid n \<notin> p_id ` set (new_pairs ex (Suc n) pls)"
    using new_pairs_rows [of _ ex "Suc n" pls] by fastforce
  with 2 show ?case by (auto split: sum.splits)
qed simp

lemma insert_execution_cases:
  assumes "insert_execution now job trig actor sched parent pls d = Inr (i, d')"
  obtains (existing) e where "scheduled_exec d job sched = Some e" "i = e_id e" "d' = d\<lparr>draws := Suc (draws d)\<rparr>"
  | (inserted) "scheduled_exec d job sched = None" "i = uuid (draws d)"
      "executions d' = executions d @ [new_exec i job trig sched now parent actor (next_sequence d)]"
      "pairs d' = pairs d @ new_pairs i (Suc (draws d)) pls" "attempts d' = attempts d"
      "draws d' = Suc (Suc (draws d) + length pls)"
      "map (\<lambda>p. (p_connection p, p_target p, p_required p)) (new_pairs i (Suc (draws d)) pls)
         = map (\<lambda>pl. (pp_connection pl, pp_target pl, pp_required pl)) pls"
      "map p_snapshot (new_pairs i (Suc (draws d)) pls) = map pp_snapshot pls"
proof (cases "scheduled_exec d job sched")
  case (Some e)
  with assms existing show ?thesis by (simp add: insert_execution_def Let_def)
next
  case None
  from assms None obtain d1 where
      "insert_pairs (uuid (draws d)) pls (d\<lparr>draws := Suc (draws d),
         executions := executions d @ [new_exec (uuid (draws d)) job trig sched now parent actor (next_sequence d)]\<rparr>) = Inr d1"
    and i: "i = uuid (draws d)"
    and d': "d' = add_event now (Some i) None ''enqueued'' actor
         (json_obj [(''trigger'', JStr (trigger_name trig)), (''parentExecutionId'', json_id parent)]) d1"
    by (auto simp: insert_execution_def Let_def split: sum.splits)
  from insert_pairs_Inr [OF this(1)] None i d' show ?thesis
    by (intro inserted) simp_all
qed

lemma new_exec_rows [simp]:
  "e_id (new_exec i job trig sched now parent actor sq) = i"
  "e_status (new_exec i job trig sched now parent actor sq) = EQueued"
  "e_finished (new_exec i job trig sched now parent actor sq) = None"
  "e_job (new_exec i job trig sched now parent actor sq) = job"
  "e_sequence (new_exec i job trig sched now parent actor sq) = sq"
  "e_scheduled_for (new_exec i job trig sched now parent actor sq) = sched"
  by (simp_all add: new_exec_def)

lemma aggregate_queued: "ss \<noteq> [] \<Longrightarrow> \<forall>s \<in> set ss. s = PQueued \<Longrightarrow> aggregate_status EQueued ss = EQueued"
  by (cases ss) (auto simp: aggregate_status_def list_all_iff)

lemma map_ne: "map f xs = map g ys \<Longrightarrow> ys \<noteq> [] \<Longrightarrow> xs \<noteq> []"
  by auto

lemma insert_execution_inv:
  assumes inv: "store_inv d" and ins: "insert_execution now job trig actor sched parent pls d = Inr (i, d')"
    and ne: "pls \<noteq> []"
  shows "store_inv d'"
  using ins
proof (cases rule: insert_execution_cases)
  case existing
  then show ?thesis using inv by (intro store_inv_cong [of d' d]) simp_all
next
  case inserted
  let ?new = "new_pairs i (Suc (draws d)) pls"
  note rows = new_pairs_rows [of _ i "Suc (draws d)" pls]
  have fresh_pair: "p_id p \<notin> p_id ` set (pairs d) \<and> p_id p \<in> uuid ` {draws d..<draws d'}" if "p \<in> set ?new" for p
  proof -
    from rows [OF that] obtain n where n: "p_id p = uuid n" "Suc (draws d) \<le> n" "n < Suc (draws d) + length pls" by auto
    then show ?thesis using fresh_uuid(2) [OF inv, of n] inserted(6) by auto
  qed
  have i_new: "i \<notin> e_id ` set (executions d)"
    using fresh_uuid(1) [OF inv order_refl] inserted(2) by simp
  have attached: "p_execution p \<in> e_id ` set (executions d)" if "p \<in> set (pairs d)" for p
    using inv that by (auto simp: store_inv_def keys_ok_def)
  have disj: "p_id ` set (pairs d) \<inter> p_id ` set ?new = {}"
  proof (rule equals0I)
    fix x assume "x \<in> p_id ` set (pairs d) \<inter> p_id ` set ?new"
    then obtain q where "q \<in> set ?new" "x = p_id q" "x \<in> p_id ` set (pairs d)" by (elim IntE imageE) blast
    with fresh_pair [of q] show False by simp
  qed
  have "distinct (map p_id (pairs d @ ?new))"
    using store_inv_keys(3) [OF inv] new_pairs_distinct [of i "Suc (draws d)" pls] disj by simp
  then have keys: "keys_ok d'"
    unfolding keys_ok_def inserted(3-5)
    using store_inv_keys(2,4,5) [OF inv] i_new rows attached by auto
  have fresh: "fresh_ids d'"
    unfolding fresh_ids_def
  proof (intro allI impI)
    fix n assume n: "draws d' \<le> n"
    then have old: "uuid n \<notin> e_id ` set (executions d)" "uuid n \<notin> p_id ` set (pairs d)" "uuid n \<notin> a_id ` set (attempts d)"
      using fresh_uuid [OF inv, of n] inserted(6) by auto
    have "uuid n \<noteq> i" using n inserted(2,6) by simp
    moreover have "uuid n \<notin> p_id ` set ?new" using fresh_pair n by fastforce
    ultimately show "uuid n \<notin> e_id ` set (executions d') \<and> uuid n \<notin> p_id ` set (pairs d') \<and> uuid n \<notin> a_id ` set (attempts d')"
      using old by (simp add: inserted(3-5) image_Un)
  qed
  have atts: "attempts_of d' j = attempts_of d j" for j
    by (simp add: attempts_of_def inserted(5))
  have pairs: "pairs_ok d'"
    unfolding pairs_ok_def inserted(4) set_append
  proof
    fix p assume "p \<in> set (pairs d) \<union> set ?new"
    then show "attempts_ok (p_status p) (s_retry_count (p_snapshot p)) (attempts_of d' (p_id p))"
    proof
      assume "p \<in> set (pairs d)"
      then show ?thesis using inv by (simp add: atts store_inv_def pairs_ok_def)
    next
      assume p: "p \<in> set ?new"
      have "p_id p \<notin> a_pair ` set (attempts d)"
        using fresh_pair [OF p] store_inv_keys(5) [OF inv] by (meson subsetD)
      then have "attempts_of d (p_id p) = []"
        unfolding attempts_of_def filter_empty_conv by (metis imageI)
      then show ?thesis using rows [OF p] by (simp add: atts attempts_ok_def attempt_budget_def)
    qed
  qed
  have old: "pairs_of d' j = pairs_of d j" if "j \<in> e_id ` set (executions d)" for j
  proof -
    have "j \<noteq> i" using that i_new by blast
    then have "filter (\<lambda>p. p_execution p = j) ?new = []"
      using rows by (auto simp: filter_empty_conv)
    then show ?thesis by (simp add: pairs_of_def inserted(4))
  qed
  have new: "pairs_of d' i = ?new"
  proof -
    have "filter (\<lambda>p. p_execution p = i) (pairs d) = []"
      using attached i_new by (auto simp: filter_empty_conv)
    moreover have "filter (\<lambda>p. p_execution p = i) ?new = ?new"
      using rows by (simp add: filter_id_conv)
    ultimately show ?thesis by (simp add: pairs_of_def inserted(4))
  qed
  have "?new \<noteq> []" using map_ne [OF inserted(7) ne] .
  then have agg: "exec_agrees EQueued (map p_status ?new)"
    using rows aggregate_queued [of "map p_status ?new"] by (auto simp: exec_agrees_def)
  have execs: "execs_ok d'"
    unfolding execs_ok_def inserted(3)
    using inv agg by (auto simp: new old store_inv_def execs_ok_def)
  show ?thesis using keys fresh pairs execs by (simp add: store_inv_def)
qed

lemma job_pairs_not_Nil: "job_pairs d j \<noteq> []"
proof -
  have "job_sources d j \<noteq> []" "job_destinations d j \<noteq> []"
    by (simp_all add: job_sources_def job_destinations_def Let_def)
  then have "length (job_pairs d j) \<noteq> 0" by (simp add: job_pairs_def)
  then show ?thesis by simp
qed

lemma enqueue_Inr:
  assumes "enqueue now job trig actor sched d = Inr (i, d')"
  obtains j pls d1 where "find_job d job = Some j" "plan_pairs j (job_pairs d j) d = Inr (pls, d1)"
    "insert_execution now job trig actor sched None pls d1 = Inr (i, d')" "same_queue d d1" "pls \<noteq> []"
proof -
  from assms obtain j pls d1 where j: "find_job d job = Some j" and p: "plan_pairs j (job_pairs d j) d = Inr (pls, d1)"
    and ins: "insert_execution now job trig actor sched None pls d1 = Inr (i, d')"
    by (auto simp: enqueue_def split: sum.splits option.splits)
  from plan_pairs_Inr [OF p] job_pairs_not_Nil [of d j] have "same_queue d d1" "pls \<noteq> []" by auto
  with j p ins that show ?thesis by blast
qed

lemma enqueue_inv:
  assumes "store_inv d" and "enqueue now job trig actor sched d = Inr (i, d')"
  shows "store_inv d'"
  using assms(2)
proof (rule enqueue_Inr)
  fix j pls d1
  assume ins: "insert_execution now job trig actor sched None pls d1 = Inr (i, d')"
    and "same_queue d d1" "pls \<noteq> []"
  then show ?thesis using insert_execution_inv [OF same_queue_inv [OF _ assms(1)] ins] by blast
qed

lemma retry_execution_inv:
  assumes inv: "store_inv d" and r: "retry_execution now i sels actor d = Inr (k, d')"
  shows "store_inv d'"
proof -
  from r obtain e :: exec_row and pls d1 where p: "plan_retries i (e_status e) sels d = Inr (pls, d1)" and ne: "sels \<noteq> []"
    and ins: "insert_execution now (e_job e) Retry (Some actor) None (Some i) pls d1 = Inr (k, d')"
    by (auto simp: retry_execution_def split: sum.splits option.splits if_splits)
  from plan_retries_Inr [OF p] ne have "same_queue d d1" "pls \<noteq> []" by auto
  then show ?thesis using insert_execution_inv [OF same_queue_inv [OF _ inv] ins] by blast
qed

lemma retry_historical_inv:
  assumes inv: "store_inv d" and r: "retry_historical now run actor d = Inr (k, d')"
  shows "store_inv d'"
proof -
  from r obtain j g pl d1 d2 conn where g: "source_group conn d = (g, d1)"
    and ins: "insert_execution now j Retry (Some actor) None None [pl] d1 = Inr (k, d2)"
    and d': "d' = add_event now (Some k) None ''historical_run_retry'' (Some actor) (json_obj [(''runId'', JStr run)]) d2"
    by (auto simp: retry_historical_def split: sum.splits option.splits if_splits prod.splits)
  have "store_inv d2"
    using insert_execution_inv [OF same_queue_inv [OF source_group_same [OF g] inv] ins] by simp
  with d' show ?thesis by simp
qed

lemma execs_update_inv:
  assumes inv: "store_inv d" and f: "\<And>e. e_id (f e) = e_id e" "\<And>e. e_status (f e) = e_status e"
    "\<And>e. e_finished (f e) = e_finished e"
  shows "store_inv (update_execs P f d)"
proof -
  let ?d = "update_execs P f d"
  have "keys_ok ?d"
    using store_inv_keys(4,5) [OF inv] f(1)
    by (intro keys_ok_update [OF store_inv_keys(1) [OF inv]]) (simp_all add: row_simps)
  moreover have "fresh_ids ?d"
    using f(1) by (intro fresh_ids_update [OF store_inv_keys(6) [OF inv]]) (auto simp: row_simps)
  moreover have "pairs_ok ?d" using inv by (simp add: store_inv_def pairs_ok_def)
  moreover have "execs_ok ?d"
    unfolding execs_ok_def
  proof
    fix e' assume "e' \<in> set (executions ?d)"
    then obtain e where e: "e \<in> set (executions d)" and e': "e' = (if P e then f e else e)"
      unfolding update_execs_tables in_set_update_where by blast
    have "e_id e' = e_id e" "e_status e' = e_status e" "e_finished e' = e_finished e"
      using e' f by simp_all
    with e inv show "exec_agrees (e_status e') (map p_status (pairs_of ?d (e_id e')))
        \<and> (e_finished e' \<noteq> None \<longleftrightarrow> is_terminal_exec (e_status e'))"
      by (simp add: store_inv_def execs_ok_def)
  qed
  ultimately show ?thesis by (simp add: store_inv_def)
qed

lemma prioritize_inv:
  assumes "store_inv d" and "prioritize now i prio actor d = Inr d'"
  shows "store_inv d'"
  using assms execs_update_inv [OF assms(1), of "\<lambda>e. e\<lparr>e_priority := prio\<rparr>" "\<lambda>e. e_id e = i"]
  by (auto simp: prioritize_def split: sum.splits option.splits if_splits)

end
