(* ===== verification/Coordinator.thy ===== *)
theory Coordinator
  imports Admission_Facts
begin

text \<open>
  The coordinator of \<open>src/backup/execution.service.ts\<close>: its in-memory workers beside the
  database, and the operations that run work: \<open>pump\<close> dispatches the queue under the global and
  the per-source limits, the completion of a worker records its outcome and pumps again,
  \<open>cancel\<close> and \<open>drain\<close> abort workers, \<open>recover\<close> closes the attempts a stopped process left
  behind, \<open>runDue\<close> admits the schedules that are due. Each operation runs to its end without
  interruption (JavaScript is single-threaded between awaits): it is one step, with one
  reading of the clock. What a worker answers, and when, is up to the environment.
\<close>

section \<open>State\<close>

datatype abort_reason = CancelledByAdmin | ShuttingDown

record worker =
  w_pair :: id
  w_group :: string
  w_context :: pair_context
  w_abort :: "abort_reason option"

record service =
  sv_db :: db
  sv_workers :: "worker list"
  sv_stopped :: bool
  sv_error :: "string option"

definition init_service :: "db \<Rightarrow> service" where
  "init_service d = \<lparr>sv_db = d, sv_workers = [], sv_stopped = False, sv_error = None\<rparr>"

fun error_text :: "http_error \<Rightarrow> string" where
  "error_text (BadRequest s) = s"
| "error_text (Unauthorized s) = s"
| "error_text (Forbidden s) = s"
| "error_text (NotFound s) = s"
| "error_text (Unavailable s) = s"
| "error_text (Failure s) = s"

section \<open>Dispatch\<close>

definition group_limit :: "db \<Rightarrow> int \<Rightarrow> string \<Rightarrow> int" where
  "group_limit d limit g =
     min limit (case find_group d g of None \<Rightarrow> 1 | Some r \<Rightarrow> if g_concurrency r = 0 then 1 else g_concurrency r)"

definition group_load :: "worker list \<Rightarrow> string \<Rightarrow> int" where
  "group_load ws g = int (length (filter (\<lambda>w. w_group w = g) ws))"

definition wait_reason_for :: "time \<Rightarrow> int \<Rightarrow> service \<Rightarrow> ready_row \<Rightarrow> wait_reason option" where
  "wait_reason_for now limit sv q =
     (if (case q_next q of None \<Rightarrow> False | Some t \<Rightarrow> t > now) then Some RetryDelay
      else if int (length (sv_workers sv)) \<ge> limit then Some GlobalCapacity
      else if group_load (sv_workers sv) (q_group q) \<ge> group_limit (sv_db sv) limit (q_group q) then Some SourceCapacity
      else None)"

definition set_wait :: "id \<Rightarrow> wait_reason option \<Rightarrow> db \<Rightarrow> db" where
  "set_wait i r d = update_pairs (\<lambda>p. p_id p = i) (\<lambda>p. p\<lparr>p_wait := r\<rparr>) d"

definition new_worker :: "ready_row \<Rightarrow> pair_context \<Rightarrow> worker" where
  "new_worker q ctx = \<lparr>w_pair = q_pair q, w_group = q_group q, w_context = ctx, w_abort = None\<rparr>"

text \<open>The loop over the ready pairs; an exception of \<open>startAttempt\<close> ends it (first component).\<close>

fun pump_loop :: "time \<Rightarrow> int \<Rightarrow> ready_row list \<Rightarrow> service \<Rightarrow> http_error option \<times> service" where
  "pump_loop now limit [] sv = (None, sv)"
| "pump_loop now limit (q # qs) sv =
     (let reason = wait_reason_for now limit sv q;
          d1 = set_wait (q_pair q) reason (sv_db sv)
      in if reason \<noteq> None then pump_loop now limit qs (sv\<lparr>sv_db := d1\<rparr>)
         else (case start_attempt now (q_pair q) d1 of
                 Inl e \<Rightarrow> (Some e, sv\<lparr>sv_db := d1\<rparr>)
               | Inr (ctx, d2) \<Rightarrow>
                   pump_loop now limit qs (sv\<lparr>sv_db := d2, sv_workers := sv_workers sv @ [new_worker q ctx]\<rparr>)))"

definition pump :: "time \<Rightarrow> service \<Rightarrow> http_error option \<times> service" where
  "pump now sv =
     (if sv_stopped sv then (None, sv)
      else pump_loop now (concurrency_limit (sv_db sv)) (ready_pairs (sv_db sv)) sv)"

section \<open>The end of a worker\<close>

datatype worker_result = Completed pair_outcome | Threw string

definition worker_outcome :: "worker \<Rightarrow> worker_result \<Rightarrow> pair_outcome" where
  "worker_outcome w r =
     (case r of
        Completed out \<Rightarrow> out
      | Threw msg \<Rightarrow> \<lparr>o_run = [], o_status = (if w_abort w = Some CancelledByAdmin then OCancelled else OInterrupted),
                      o_stage = None, o_error = Some msg,
                      o_warnings = [''Attempt interrupted; remote effects may require inspection'']\<rparr>)"

definition drop_worker :: "id \<Rightarrow> worker list \<Rightarrow> worker list" where
  "drop_worker i ws = filter (\<lambda>w. w_pair w \<noteq> i) ws"

text \<open>\<open>disk\<close> is the failure of the commit, if it fails: the transaction is undone and the
  coordinator stops.\<close>

definition record_outcome :: "time \<Rightarrow> worker \<Rightarrow> worker_result \<Rightarrow> string option \<Rightarrow> service \<Rightarrow> service" where
  "record_outcome now w r disk sv =
     (case (disk, finish_attempt now (w_context w) (worker_outcome w r) (sv_db sv)) of
        (None, Inr d) \<Rightarrow> sv\<lparr>sv_db := d\<rparr>
      | (None, Inl e) \<Rightarrow> sv\<lparr>sv_error := Some (''Execution persistence failed: '' @ error_text e), sv_stopped := True\<rparr>
      | (Some msg, _) \<Rightarrow> sv\<lparr>sv_error := Some (''Execution persistence failed: '' @ msg), sv_stopped := True\<rparr>)"

definition worker_done ::
  "time \<Rightarrow> id \<Rightarrow> worker_result \<Rightarrow> string option \<Rightarrow> service \<Rightarrow> http_error option \<times> service" where
  "worker_done now pair r disk sv =
     (case List.find (\<lambda>w. w_pair w = pair) (sv_workers sv) of
        None \<Rightarrow> (None, sv)
      | Some w \<Rightarrow>
          (let sv1 = record_outcome now w r disk sv
           in pump now (sv1\<lparr>sv_workers := drop_worker pair (sv_workers sv1)\<rparr>)))"

section \<open>Cancellation and shutdown\<close>

definition abort_workers :: "(id \<Rightarrow> bool) \<Rightarrow> abort_reason \<Rightarrow> worker list \<Rightarrow> worker list" where
  "abort_workers P r ws = update_where (\<lambda>w. P (w_pair w))
     (\<lambda>w. w\<lparr>w_abort := (case w_abort w of None \<Rightarrow> Some r | Some s \<Rightarrow> Some s)\<rparr>) ws"

definition cancel_execution :: "time \<Rightarrow> id \<Rightarrow> id \<Rightarrow> bool \<Rightarrow> service \<Rightarrow> (http_error option \<times> service) result" where
  "cancel_execution now i actor confirmed sv =
     (case actor_check (sv_db sv) (Some actor) Manual of
        Inl e \<Rightarrow> Inl e
      | Inr _ \<Rightarrow>
          (case get_execution (sv_db sv) i of
             Inl e \<Rightarrow> Inl e
           | Inr v \<Rightarrow>
               (if PRunning \<in> set (map pv_status (ev_pairs v)) \<and> \<not> confirmed
                then Inl (BadRequest ''Confirm stopping running work'')
                else (case request_cancellation now i actor (sv_db sv) of
                        Inl e \<Rightarrow> Inl e
                      | Inr d \<Rightarrow>
                          Inr (pump now (sv\<lparr>sv_db := d,
                                 sv_workers := abort_workers (\<lambda>p. p \<in> set (map pv_id (ev_pairs v))) CancelledByAdmin
                                                 (sv_workers sv)\<rparr>))))))"

text \<open>The synchronous part of \<open>drain\<close>: it then awaits the workers, whose ends are steps of their own.\<close>

definition drain :: "service \<Rightarrow> service" where
  "drain sv = sv\<lparr>sv_stopped := True, sv_workers := abort_workers (\<lambda>_. True) ShuttingDown (sv_workers sv)\<rparr>"

section \<open>Recovery\<close>

definition legacy_group :: "string \<Rightarrow> bool" where
  "legacy_group g = starts_with (to_lower g) ''connection:''"

text \<open>Queued pairs of the old per-connection groups move to the group of their source. (\<open>sourceGroup\<close>
  throws for no source, so the branch of the code that closes such a pair is not taken.)\<close>

fun regroup :: "pair_row list \<Rightarrow> db \<Rightarrow> db" where
  "regroup [] d = d"
| "regroup (p # ps) d =
     (case source_group (p_connection p) d of (g, d1) \<Rightarrow>
        regroup ps (update_pairs (\<lambda>q. p_id q = p_id p) (\<lambda>q. q\<lparr>p_group := g\<rparr>) d1))"

definition legacy_pairs :: "db \<Rightarrow> pair_row list" where
  "legacy_pairs d = filter (\<lambda>p. is_ready_status (p_status p) \<and> legacy_group (p_group p)) (pairs d)"

definition attempt_context :: "db \<Rightarrow> attempt_row \<Rightarrow> pair_context option" where
  "attempt_context d a =
     (case find_pair d (a_pair a) of
        None \<Rightarrow> None
      | Some p \<Rightarrow> (case find_exec d (p_execution p) of
                     None \<Rightarrow> None
                   | Some e \<Rightarrow> Some (context_of p e (a_id a) (a_number a))))"

definition recovered_outcome :: "db \<Rightarrow> attempt_row \<Rightarrow> pair_outcome" where
  "recovered_outcome d a =
     (let run = List.find (\<lambda>r. r_attempt r = Some (a_id a)) (runs d);
          won = (case run of Some r \<Rightarrow> r_status r = ''success'' | None \<Rightarrow> False)
      in \<lparr>o_run = (case run of Some r \<Rightarrow> r_id r | None \<Rightarrow> []),
          o_status = (if won then OSuccess else OInterrupted), o_stage = None, o_error = None,
          o_warnings = (if won then [] else [''Application stopped during attempt; remote effects are unknown. Inspect destination before retrying.''])\<rparr>)"

fun close_attempts :: "time \<Rightarrow> (pair_context \<times> attempt_row) list \<Rightarrow> db \<Rightarrow> db result" where
  "close_attempts now [] d = Inr d"
| "close_attempts now ((ctx, a) # rest) d =
     (case finish_attempt now ctx (recovered_outcome d a) d of
        Inl e \<Rightarrow> Inl e
      | Inr d1 \<Rightarrow> close_attempts now rest d1)"

definition running_rows :: "db \<Rightarrow> (pair_context \<times> attempt_row) list" where
  "running_rows d = concat (map (\<lambda>a. if a_status a = ARunning
     then (case attempt_context d a of None \<Rightarrow> [] | Some c \<Rightarrow> [(c, a)]) else []) (attempts d))"

definition recover :: "time \<Rightarrow> db \<Rightarrow> db result" where
  "recover now d = (let d1 = regroup (legacy_pairs d) d in close_attempts now (running_rows d1) d1)"

section \<open>Due schedules\<close>

text \<open>The enumeration of the missed occurrences of a schedule: at most \<open>fuel\<close> of them (the code
  bounds the loop at 10000). \<open>next\<close> is the schedule's \<open>nextCron\<close>. The result: the count, the
  last occurrence seen and the first one not seen.\<close>

fun missed_occurrences ::
  "(time \<Rightarrow> time result) \<Rightarrow> time \<Rightarrow> nat \<Rightarrow> time \<Rightarrow> nat \<Rightarrow> time \<Rightarrow> (nat \<times> time \<times> time) result" where
  "missed_occurrences next now 0 occ n lst = Inr (n, lst, occ)"
| "missed_occurrences next now (Suc fuel) occ n lst =
     (if occ \<le> now then (case next occ of
                          Inl e \<Rightarrow> Inl e
                        | Inr occ' \<Rightarrow> missed_occurrences next now fuel occ' (Suc n) occ)
      else Inr (n, lst, occ))"

record occurrences =
  oc_count :: nat
  oc_last :: time
  oc_next :: time
  oc_bounded :: bool

definition due_occurrences :: "(time \<Rightarrow> time result) \<Rightarrow> time \<Rightarrow> nat \<Rightarrow> time \<Rightarrow> occurrences result" where
  "due_occurrences next now bound due =
     (case missed_occurrences next now bound due 0 due of
        Inl e \<Rightarrow> Inl e
      | Inr (n, lst, occ) \<Rightarrow>
          (if occ \<le> now
           then (case next now of
                   Inl e \<Rightarrow> Inl e
                 | Inr occ' \<Rightarrow> Inr \<lparr>oc_count = n, oc_last = now, oc_next = occ', oc_bounded = True\<rparr>)
           else Inr \<lparr>oc_count = n, oc_last = lst, oc_next = occ, oc_bounded = False\<rparr>))"

definition occurrence_bound :: nat where
  "occurrence_bound = 10000"

definition open_exec :: "db \<Rightarrow> id \<Rightarrow> exec_row option" where
  "open_exec d job = List.find (\<lambda>e. e_job e = job \<and> \<not> is_terminal_exec (e_status e)) (executions d)"

definition set_missed :: "id \<Rightarrow> bool \<Rightarrow> time \<Rightarrow> occurrences \<Rightarrow> db \<Rightarrow> db" where
  "set_missed i startup due oc d =
     update_execs (\<lambda>e. e_id e = i)
       (\<lambda>e. e\<lparr>e_missed_count := (if startup then int (oc_count oc) else max 0 (int (oc_count oc) - 1)),
              e_missed_from := (if startup \<or> oc_count oc > 1 then Some due else None),
              e_missed_to := (if startup \<or> oc_count oc > 1 then Some (oc_last oc) else None),
              e_warnings := (if oc_bounded oc
                 then [''Missed occurrence count is at least 10000; enumeration was bounded''] else e_warnings e)\<rparr>) d"

definition set_next_run :: "id \<Rightarrow> time \<Rightarrow> db \<Rightarrow> db" where
  "set_next_run job t d = d\<lparr>jobs := update_where (\<lambda>j. j_id j = job) (\<lambda>j. j\<lparr>j_next_run := Some t\<rparr>) (jobs d)\<rparr>"

text \<open>The transaction of one due schedule; \<open>cron\<close> is \<open>nextCron\<close> (expression, timezone, from).\<close>

definition due_job ::
  "(string \<Rightarrow> string \<Rightarrow> time \<Rightarrow> time result) \<Rightarrow> time \<Rightarrow> bool \<Rightarrow> job_row \<Rightarrow> time \<Rightarrow> db \<Rightarrow> db result" where
  "due_job cron now startup j due d =
     (case due_occurrences (cron (j_cron j) (if j_timezone j = [] then ''UTC'' else j_timezone j)) now occurrence_bound due of
        Inl e \<Rightarrow> Inl e
      | Inr oc \<Rightarrow>
          (case open_exec d (j_id j) of
             Some a \<Rightarrow>
               (if j_overlap j = ''queue'' then
                  (case enqueue now (j_id j) (if startup then Catchup else Scheduled) None (Some due) d of
                     Inl e \<Rightarrow> Inl e
                   | Inr (i, d1) \<Rightarrow> Inr (set_next_run (j_id j) (oc_next oc) (set_missed i startup due oc d1)))
                else Inr (set_next_run (j_id j) (oc_next oc)
                       (add_event now (Some (e_id a)) None ''overlap_skipped'' None
                          (json_obj [(''from'', JNum due), (''to'', JNum (oc_last oc)), (''count'', JNum (int (oc_count oc)))]) d)))
           | None \<Rightarrow>
               (case enqueue now (j_id j) (if startup then Catchup else Scheduled) None (Some due) d of
                  Inl e \<Rightarrow> Inl e
                | Inr (i, d1) \<Rightarrow> Inr (set_next_run (j_id j) (oc_next oc) (set_missed i startup due oc d1)))))"

definition due_jobs :: "time \<Rightarrow> db \<Rightarrow> (job_row \<times> time) list" where
  "due_jobs now d =
     (let rows = concat (map (\<lambda>j. case j_next_run j of
                   Some t \<Rightarrow> if j_enabled j \<and> t \<le> now then [(j, t)] else [] | None \<Rightarrow> []) (jobs d))
      in sort_key snd rows)"

text \<open>One schedule that fails leaves an event and does not stop the others.\<close>

fun run_jobs ::
  "(string \<Rightarrow> string \<Rightarrow> time \<Rightarrow> time result) \<Rightarrow> time \<Rightarrow> bool \<Rightarrow> (job_row \<times> time) list \<Rightarrow> db \<Rightarrow> db" where
  "run_jobs cron now startup [] d = d"
| "run_jobs cron now startup ((j, due) # rest) d =
     run_jobs cron now startup rest
       (case due_job cron now startup j due d of
          Inr d1 \<Rightarrow> d1
        | Inl e \<Rightarrow> add_event now None None ''schedule_enqueue_failed'' None
                    (json_obj [(''jobId'', JStr (j_id j)), (''error'', JStr (take 500 (error_text e)))]) d)"

definition run_due ::
  "(string \<Rightarrow> string \<Rightarrow> time \<Rightarrow> time result) \<Rightarrow> time \<Rightarrow> bool \<Rightarrow> service \<Rightarrow> http_error option \<times> service" where
  "run_due cron now startup sv =
     (if sv_stopped sv then (None, sv)
      else pump now (sv\<lparr>sv_db := run_jobs cron now startup (due_jobs now (sv_db sv)) (sv_db sv)\<rparr>))"

text \<open>\<open>onApplicationBootstrap\<close>.\<close>

definition bootstrap ::
  "(string \<Rightarrow> string \<Rightarrow> time \<Rightarrow> time result) \<Rightarrow> time \<Rightarrow> db \<Rightarrow> (http_error option \<times> service) result" where
  "bootstrap cron now d =
     (case recover now d of
        Inl e \<Rightarrow> Inl e
      | Inr d1 \<Rightarrow> (case run_due cron now True (init_service d1) of
                     (Some e, sv) \<Rightarrow> Inl e
                   | (None, sv) \<Rightarrow> Inr (pump now sv)))"

section \<open>Pagination\<close>

record page =
  pg_items :: "id list"
  pg_total :: nat
  pg_page :: int
  pg_size :: int
  pg_count :: int

text \<open>\<open>list(query)\<close>: \<open>page\<close> and \<open>size\<close> are the numbers of the query (1 and 25 when it has none).\<close>

definition list_executions :: "exec_status option \<Rightarrow> id option \<Rightarrow> int \<Rightarrow> int \<Rightarrow> db \<Rightarrow> page result" where
  "list_executions st job pageno psize d =
     (if \<not> safe_integer pageno \<or> pageno < 1 \<or> \<not> safe_integer psize \<or> psize < 1
      then Inl (BadRequest ''Invalid execution pagination'')
      else let n = min 100 psize; offset = (pageno - 1) * n in
        if \<not> safe_integer offset then Inl (BadRequest ''Invalid execution pagination'')
        else let rows = filter (\<lambda>e. (case st of None \<Rightarrow> True | Some s \<Rightarrow> e_status e = s)
                                \<and> (case job of None \<Rightarrow> True | Some j \<Rightarrow> e_job e = j)) (executions d);
                 sorted = rev (sort_key e_sequence rows)
             in Inr \<lparr>pg_items = map e_id (take (nat n) (drop (nat offset) sorted)),
                     pg_total = length rows, pg_page = pageno, pg_size = n,
                     pg_count = max 1 ((int (length rows) + n - 1) div n)\<rparr>)"

end
