(* ===== verification/Coordinator_Facts.thy ===== *)
theory Coordinator_Facts
  imports Coordinator
begin

text \<open>
  The coordinator and its workers agree with the database: every worker runs the one running
  attempt of its pair, every active pair has its worker, and each operation keeps it so. The
  dispatch loop never throws, respects both limits, and leaves a pair waiting only for a
  reason that holds.
\<close>

section \<open>What the operations keep\<close>

text \<open>\<open>frame X d d'\<close>: rows are kept with what identifies them, and attempts of pairs outside \<open>X\<close>
  keep their status.\<close>

definition frame :: "id set \<Rightarrow> db \<Rightarrow> db \<Rightarrow> bool" where
  "frame X d d' \<longleftrightarrow>
     (\<forall>i p. find_pair d i = Some p \<longrightarrow> (\<exists>p'. find_pair d' i = Some p' \<and> p_execution p' = p_execution p
        \<and> p_snapshot p' = p_snapshot p \<and> p_group p' = p_group p))
   \<and> (\<forall>i a. find_attempt d i = Some a \<longrightarrow> (\<exists>a'. find_attempt d' i = Some a' \<and> a_pair a' = a_pair a
        \<and> a_number a' = a_number a \<and> (a_pair a \<notin> X \<longrightarrow> a_status a' = a_status a)))"

lemma frame_refl [simp]: "frame X d d"
  by (simp add: frame_def)

lemma frame_pair:
  assumes "frame X d d'" and "find_pair d i = Some p"
  obtains p' where "find_pair d' i = Some p'" "p_execution p' = p_execution p" "p_snapshot p' = p_snapshot p"
    "p_group p' = p_group p"
  using assms unfolding frame_def by blast

lemma frame_attempt:
  assumes "frame X d d'" and "find_attempt d i = Some a"
  obtains a' where "find_attempt d' i = Some a'" "a_pair a' = a_pair a" "a_number a' = a_number a"
    "a_pair a \<notin> X \<Longrightarrow> a_status a' = a_status a"
  using assms unfolding frame_def by blast

lemma frame_trans:
  assumes ab: "frame X a b" and bc: "frame X b c"
  shows "frame X a c"
  unfolding frame_def
proof (intro conjI allI impI)
  fix i p assume "find_pair a i = Some p"
  with ab obtain q where q: "find_pair b i = Some q" "p_execution q = p_execution p" "p_snapshot q = p_snapshot p"
    "p_group q = p_group p" by (rule frame_pair)
  from frame_pair [OF bc q(1)] q(2-4) show "\<exists>p'. find_pair c i = Some p' \<and> p_execution p' = p_execution p
      \<and> p_snapshot p' = p_snapshot p \<and> p_group p' = p_group p" by metis
next
  fix i x assume x: "find_attempt a i = Some x"
  obtain y where y: "find_attempt b i = Some y" "a_pair y = a_pair x" "a_number y = a_number x"
    "a_pair x \<notin> X \<Longrightarrow> a_status y = a_status x" using frame_attempt [OF ab x] by blast
  from frame_attempt [OF bc y(1)] y(2-4) show "\<exists>x'. find_attempt c i = Some x' \<and> a_pair x' = a_pair x
      \<and> a_number x' = a_number x \<and> (a_pair x \<notin> X \<longrightarrow> a_status x' = a_status x)" by metis
qed

lemma frame_same_tables:
  assumes "pairs d' = pairs d" and "attempts d' = attempts d"
  shows "frame X d d'"
  using assms by (simp add: frame_def find_pair_def find_attempt_def)

lemma frame_update_pairs:
  assumes pairs: "pairs d' = update_where P f (pairs d)" and atts: "attempts d' = attempts d"
    and f: "\<And>p. p_id (f p) = p_id p" "\<And>p. p_execution (f p) = p_execution p"
      "\<And>p. p_snapshot (f p) = p_snapshot p" "\<And>p. p_group (f p) = p_group p"
  shows "frame X d d'"
proof -
  have "find_pair d' i = map_option (\<lambda>p. if P p then f p else p) (find_pair d i)" for i
    unfolding find_pair_def pairs by (rule find_map_key [where key = p_id and f = f, OF f(1)])
  then show ?thesis using atts f(2-4) by (auto simp: frame_def find_attempt_def)
qed

lemma find_append_Some: "List.find P xs = Some x \<Longrightarrow> List.find P (xs @ ys) = Some x"
  by (induction xs) auto

lemma start_attempt_frame:
  assumes "start_attempt now pair d = Inr (ctx, d')"
  shows "frame X d d'"
  using assms
proof (rule start_attempt_Inr)
  fix p e assume d': "d' = start_writes now p d"
  have "frame X d (d\<lparr>pairs := pairs d'\<rparr>)"
    by (rule frame_update_pairs [where P = "\<lambda>q. p_id q = p_id p" and f = "started_pair now"])
      (simp_all add: d' start_writes_tables)
  moreover have "frame X (d\<lparr>pairs := pairs d'\<rparr>) d'"
    by (auto simp: frame_def find_pair_def find_attempt_def d' start_writes_tables intro!: find_append_Some)
  ultimately show ?thesis by (rule frame_trans)
qed

lemma finish_attempt_frame:
  assumes inv: "store_inv d" and fin: "finish_attempt now ctx out d = Inr d'"
  shows "frame {x_pair ctx} d d'"
  using fin
proof (cases rule: finish_attempt_cases)
  case (finished a p v)
  have pr: "find_pair d' i = map_option (\<lambda>q. if p_id q = x_pair ctx
      then finish_pair_row now ctx (retry_granted p ctx out) (final_outcome p out) q else q) (find_pair d i)" for i
    unfolding find_pair_def finished(8) update_execs_tables finish_writes_tables
    by (rule find_map_key) simp
  have at: "find_attempt d' i = map_option (\<lambda>b. if a_id b = x_attempt ctx \<and> a_status b = ARunning
      then finish_attempt_row now (final_outcome p out) b else b) (find_attempt d i)" for i
    unfolding find_attempt_def finished(8) update_execs_tables finish_writes_tables
    by (rule find_map_key) simp
  have own: "a_pair b = x_pair ctx" if "find_attempt d i = Some b" "a_id b = x_attempt ctx" for i b
    using that attempt_unique [OF inv _ finished(1)] find_attempt_SomeD [of d i b] finished(2,3) by metis
  show ?thesis
    unfolding frame_def pr at by (auto simp: finish_pair_row_def dest: own)
qed simp

lemma request_cancellation_frame:
  assumes "request_cancellation now i actor d = Inr d'"
  shows "frame X d d'"
  using assms
proof (cases rule: request_cancellation_cases)
  case (2 e)
  note tables = request_cancellation_tables [OF assms 2]
  show ?thesis by (rule frame_update_pairs [OF tables(2,3)]) (simp_all add: cancelled_pair_def)
qed simp

lemma insert_execution_frame:
  assumes "insert_execution now job trig actor sched parent pls d = Inr (i, d')"
  shows "frame X d d'"
  using assms
proof (cases rule: insert_execution_cases)
  case existing
  then show ?thesis by (intro frame_same_tables) simp_all
next
  case inserted
  then show ?thesis by (auto simp: frame_def find_pair_def find_attempt_def intro!: find_append_Some)
qed

lemma same_queue_frame: "same_queue d d' \<Longrightarrow> frame X d d'"
  by (rule frame_same_tables) (simp_all add: same_queue_def)

lemma enqueue_frame:
  assumes "enqueue now job trig actor sched d = Inr (i, d')"
  shows "frame X d d'"
  using assms
proof (rule enqueue_Inr)
  fix j pls d1
  assume "insert_execution now job trig actor sched None pls d1 = Inr (i, d')" "same_queue d d1"
  then show ?thesis using frame_trans same_queue_frame insert_execution_frame by blast
qed

section \<open>Workers and the database\<close>

definition worker_ok :: "db \<Rightarrow> worker \<Rightarrow> bool" where
  "worker_ok d w \<longleftrightarrow> genuine d (w_context w) \<and> w_pair w = x_pair (w_context w)
     \<and> (\<exists>p. find_pair d (w_pair w) = Some p \<and> p_group p = w_group w)
     \<and> (\<exists>a. find_attempt d (x_attempt (w_context w)) = Some a \<and> a_status a = ARunning)"

definition active_ids :: "db \<Rightarrow> id set" where
  "active_ids d = p_id ` {p \<in> set (pairs d). is_active_status (p_status p)}"

lemma active_ids_set: "active_ids d = set (map p_id (filter (\<lambda>p. is_active_status (p_status p)) (pairs d)))"
  by (auto simp: active_ids_def)

definition workers_ok :: "service \<Rightarrow> bool" where
  "workers_ok sv \<longleftrightarrow> distinct (map w_pair (sv_workers sv)) \<and> (\<forall>w \<in> set (sv_workers sv). worker_ok (sv_db sv) w)"

definition service_inv :: "service \<Rightarrow> bool" where
  "service_inv sv \<longleftrightarrow> store_inv (sv_db sv) \<and> workers_ok sv
     \<and> (sv_stopped sv \<or> active_ids (sv_db sv) \<subseteq> w_pair ` set (sv_workers sv))"

lemma genuine_SomeD:
  assumes "genuine d c"
  obtains p a where "find_pair d (x_pair c) = Some p" "find_attempt d (x_attempt c) = Some a"
    "p_execution p = x_execution c" "p_snapshot p = x_snapshot c" "a_pair a = x_pair c" "a_number a = x_number c"
  using assms by (auto simp: genuine_def split: option.splits)

lemma genuine_frame:
  assumes "genuine d c" and fr: "frame X d d'"
  shows "genuine d' c"
  using assms(1)
proof (rule genuine_SomeD)
  fix p a assume p: "find_pair d (x_pair c) = Some p" and a: "find_attempt d (x_attempt c) = Some a"
    and rest: "p_execution p = x_execution c" "p_snapshot p = x_snapshot c" "a_pair a = x_pair c" "a_number a = x_number c"
  from frame_pair [OF fr p] obtain p' where "find_pair d' (x_pair c) = Some p'" "p_execution p' = p_execution p"
    "p_snapshot p' = p_snapshot p" .
  moreover from frame_attempt [OF fr a] obtain a' where "find_attempt d' (x_attempt c) = Some a'" "a_pair a' = a_pair a"
    "a_number a' = a_number a" .
  ultimately show ?thesis using rest by (simp add: genuine_def)
qed

lemma worker_ok_frame:
  assumes "worker_ok d w" and fr: "frame X d d'" and "w_pair w \<notin> X"
  shows "worker_ok d' w"
proof -
  from assms(1) obtain p a where p: "find_pair d (w_pair w) = Some p" "p_group p = w_group w"
    and a: "find_attempt d (x_attempt (w_context w)) = Some a" "a_status a = ARunning"
    and g: "genuine d (w_context w)" "w_pair w = x_pair (w_context w)"
    by (auto simp: worker_ok_def)
  have "a_pair a = w_pair w" using g a(1) by (auto simp: genuine_def split: option.splits)
  with assms(3) a(2) frame_attempt [OF fr a(1)] obtain a' where
    "find_attempt d' (x_attempt (w_context w)) = Some a'" "a_status a' = ARunning" by metis
  moreover from frame_pair [OF fr p(1)] p(2) obtain p' where "find_pair d' (w_pair w) = Some p'" "p_group p' = w_group w"
    by metis
  ultimately show ?thesis
    using genuine_frame [OF g(1) fr] g(2) unfolding worker_ok_def by blast
qed

lemma worker_active:
  assumes inv: "store_inv d" and w: "worker_ok d w"
  obtains p where "find_pair d (w_pair w) = Some p" "is_active_status (p_status p)"
proof -
  from w obtain p a where p: "find_pair d (w_pair w) = Some p"
    and a: "find_attempt d (x_attempt (w_context w)) = Some a" "a_status a = ARunning"
    and g: "genuine d (w_context w)" "w_pair w = x_pair (w_context w)"
    by (auto simp: worker_ok_def)
  have "a \<in> set (attempts_of d (w_pair w))"
    using g a(1) find_attempt_SomeD [OF a(1)] by (auto simp: genuine_def split: option.splits)
  then have "attempts_of d (w_pair w) \<noteq> [] \<and> a = last (attempts_of d (w_pair w))"
    by (rule attempts_ok_running_last [OF find_pair_ok(3) [OF inv p] _ a(2)])
  with a(2) find_pair_ok(3) [OF inv p] have "is_active_status (p_status p)"
    by (simp add: attempts_ok_def)
  with p that show ?thesis by blast
qed

lemma active_ids_iff:
  assumes "store_inv d"
  shows "i \<in> active_ids d \<longleftrightarrow> (\<exists>p. find_pair d i = Some p \<and> is_active_status (p_status p))"
proof
  assume "i \<in> active_ids d"
  then obtain p where "p \<in> set (pairs d)" "is_active_status (p_status p)" "i = p_id p"
    by (auto simp: active_ids_def)
  with find_pair_in [OF assms, of p] show "\<exists>p. find_pair d i = Some p \<and> is_active_status (p_status p)" by blast
next
  assume "\<exists>p. find_pair d i = Some p \<and> is_active_status (p_status p)"
  then obtain p where "find_pair d i = Some p" "is_active_status (p_status p)" by blast
  with find_pair_SomeD [of d i p] show "i \<in> active_ids d" by (auto simp: active_ids_def)
qed

lemma worker_in_active:
  assumes "store_inv d" and "worker_ok d w"
  shows "w_pair w \<in> active_ids d"
  using worker_active [OF assms] unfolding active_ids_iff [OF assms(1)] by blast

lemma set_active_update:
  assumes "p_id (f p) = p_id p" and "p \<in> set ps"
    and "\<And>q. p_id (f q) = p_id q" and "\<And>q. is_active_status (p_status (f q))"
  shows "set (map p_id (filter (\<lambda>p. is_active_status (p_status p)) (update_where (\<lambda>q. p_id q = p_id p) f ps)))
    = insert (p_id p) (set (map p_id (filter (\<lambda>p. is_active_status (p_status p)) ps)))"
  using assms(2)
proof -
  have "set (map p_id (filter (\<lambda>p. is_active_status (p_status p)) (update_where (\<lambda>q. p_id q = i) f ps)))
    = (if i \<in> p_id ` set ps then {i} else {}) \<union> set (map p_id (filter (\<lambda>p. is_active_status (p_status p)) ps))" for i
    using assms(3,4) by (induction ps) auto
  with assms(2) show ?thesis by auto
qed

lemma start_attempt_active:
  assumes "store_inv d" and "start_attempt now pair d = Inr (ctx, d')"
  shows "active_ids d' = insert pair (active_ids d)"
  using assms(2)
proof (rule start_attempt_Inr)
  fix p e assume p: "find_pair d pair = Some p" and d': "d' = start_writes now p d"
  note pd = find_pair_SomeD [OF p]
  show ?thesis
    unfolding active_ids_set d' start_writes_tables
    using pd set_active_update [of "started_pair now" p "pairs d"] by simp
qed

lemma request_cancellation_active:
  assumes "request_cancellation now i actor d = Inr d'"
  shows "active_ids d' = active_ids d"
  using assms
proof (cases rule: request_cancellation_cases)
  case (2 e)
  have kept: "is_active_status (p_status (cancelled_pair now p)) = is_active_status (p_status p)" for p
    by (cases "p_status p") (simp_all add: cancelled_pair_def)
  have "map p_id (filter (\<lambda>p. is_active_status (p_status p)) (update_where P (cancelled_pair now) ps))
      = map p_id (filter (\<lambda>p. is_active_status (p_status p)) ps)" for P ps
    by (induction ps) (auto simp: kept)
  then show ?thesis
    by (simp add: active_ids_set request_cancellation_tables [OF assms 2])
qed simp

lemma find_key_and:
  "List.find (\<lambda>x. key x = k) xs = Some b \<Longrightarrow> Q b \<Longrightarrow> List.find (\<lambda>x. key x = k \<and> Q x) xs = Some b"
  by (induction xs) (auto split: if_splits)

lemma finish_attempt_active:
  assumes inv: "store_inv d" and w: "worker_ok d w" and fin: "finish_attempt now (w_context w) out d = Inr d'"
  shows "active_ids d' = active_ids d - {w_pair w}"
proof -
  let ?c = "w_context w"
  obtain q where q: "find_pair d (w_pair w) = Some q" "is_active_status (p_status q)"
    by (rule worker_active [OF inv w])
  from w obtain b where b: "find_attempt d (x_attempt ?c) = Some b" "a_status b = ARunning"
    and g: "genuine d ?c" "w_pair w = x_pair ?c"
    by (auto simp: worker_ok_def)
  have bp: "a_pair b = x_pair ?c" using g(1) b(1) by (auto simp: genuine_def split: option.splits)
  have found: "List.find (\<lambda>a. a_id a = x_attempt ?c \<and> a_pair a = x_pair ?c) (attempts d) = Some b"
    using b(1) bp unfolding find_attempt_def by (rule find_key_and)
  have pair: "find_pair d (x_pair ?c) = Some q" using q(1) g(2) by simp
  let ?r = "retry_granted q ?c out" and ?o = "final_outcome q out"
  from fin found pair b(2) q(2) obtain v where
      d': "d' = update_execs (\<lambda>e. e_id e = x_execution ?c) (finish_exec_row now v) (finish_writes now ?c ?r ?o d)"
    by (auto simp: finish_attempt_def retry_granted_def final_outcome_def Let_def split: sum.splits)
  have off: "\<not> is_active_status (p_status (finish_pair_row now ?c ?r ?o p))" for p
    by (cases "o_status ?o") simp_all
  have "filter (\<lambda>p. is_active_status (p_status p)) (update_where (\<lambda>p. p_id p = i) (finish_pair_row now ?c ?r ?o) ps)
      = filter (\<lambda>p. is_active_status (p_status p) \<and> p_id p \<noteq> i) ps" for i ps
    using off by (induction ps) (simp_all del: finish_rows(4))
  then show ?thesis by (auto simp: d' active_ids_set g(2))
qed

end
