(* ===== verification/Dispatch_Facts.thy ===== *)
theory Dispatch_Facts
  imports Coordinator_Facts
begin

text \<open>
  The dispatch loop of \<open>pump\<close>: it never throws, keeps the service invariant, respects the
  global and the per-source limits, leaves a pair waiting only for a reason that holds, and
  lets a pair overtake an earlier one only when that one waits for its retry delay or for the
  capacity of another source.
\<close>

section \<open>One turn of the loop\<close>

definition pump_one :: "time \<Rightarrow> int \<Rightarrow> ready_row \<Rightarrow> service \<Rightarrow> service" where
  "pump_one now limit q sv =
     (let reason = wait_reason_for now limit sv q; d1 = set_wait (q_pair q) reason (sv_db sv)
      in if reason \<noteq> None then sv\<lparr>sv_db := d1\<rparr>
         else (case start_attempt now (q_pair q) d1 of
                 Inl e \<Rightarrow> sv\<lparr>sv_db := d1\<rparr>
               | Inr (ctx, d2) \<Rightarrow> sv\<lparr>sv_db := d2, sv_workers := sv_workers sv @ [new_worker q ctx]\<rparr>))"

definition row_ok :: "db \<Rightarrow> ready_row \<Rightarrow> bool" where
  "row_ok d q \<longleftrightarrow> (\<exists>p e. find_pair d (q_pair q) = Some p \<and> find_exec d (p_execution p) = Some e
     \<and> is_startable_exec (e_status e) \<and> is_ready_status (p_status p)
     \<and> p_group p = q_group q \<and> p_next p = q_next q)"

definition queue_ok :: "db \<Rightarrow> ready_row list \<Rightarrow> bool" where
  "queue_ok d qs \<longleftrightarrow> distinct (map q_pair qs) \<and> (\<forall>q \<in> set qs. row_ok d q)"

lemma ready_joinE:
  assumes "q \<in> set (ready_join d)"
  obtains p e where "p \<in> set (pairs d)" "find_exec d (p_execution p) = Some e"
    "is_ready_status (p_status p)" "is_startable_exec (e_status e)" "q = ready_row_of p e"
proof -
  from assms obtain p where p: "p \<in> set (pairs d)" and
    "q \<in> set (case find_exec d (p_execution p) of
       None \<Rightarrow> [] | Some e \<Rightarrow> if is_ready_status (p_status p) \<and> is_startable_exec (e_status e)
                 then [ready_row_of p e] else [])"
    unfolding ready_join_def set_concat set_map by blast
  then show ?thesis using that [OF p] by (cases "find_exec d (p_execution p)") (auto split: if_splits)
qed

lemma ready_joinI:
  assumes "p \<in> set (pairs d)" "find_exec d (p_execution p) = Some e"
    "is_ready_status (p_status p)" "is_startable_exec (e_status e)"
  shows "ready_row_of p e \<in> set (ready_join d)"
  using assms by (auto simp: ready_join_def intro!: bexI [of _ p])

lemma ready_join_rows:
  assumes "store_inv d"
  shows "distinct (map q_pair (ready_join d))" "q \<in> set (ready_join d) \<Longrightarrow> row_ok d q"
proof -
  have sub: "set (map q_pair (concat (map (\<lambda>p. case find_exec d (p_execution p) of
       None \<Rightarrow> [] | Some e \<Rightarrow> if is_ready_status (p_status p) \<and> is_startable_exec (e_status e)
                 then [ready_row_of p e] else []) ps))) \<subseteq> p_id ` set ps" for ps
    by (induction ps) (auto simp: ready_row_of_def split: option.splits if_splits)
  have "distinct (map p_id ps) \<Longrightarrow> distinct (map q_pair (concat (map (\<lambda>p. case find_exec d (p_execution p) of
       None \<Rightarrow> [] | Some e \<Rightarrow> if is_ready_status (p_status p) \<and> is_startable_exec (e_status e)
                 then [ready_row_of p e] else []) ps)))" for ps
  proof (induction ps)
    case (Cons p ps)
    then show ?case using sub [of ps] by (auto simp: ready_row_of_def split: option.splits)
  qed simp
  then show "distinct (map q_pair (ready_join d))"
    using store_inv_keys(3) [OF assms] by (simp add: ready_join_def)
  show "row_ok d q" if "q \<in> set (ready_join d)"
  proof -
    from that obtain p e where p: "p \<in> set (pairs d)" and "find_exec d (p_execution p) = Some e"
      "is_ready_status (p_status p)" "is_startable_exec (e_status e)" "q = ready_row_of p e"
      by (rule ready_joinE)
    with find_pair_in [OF assms p] show ?thesis by (simp add: row_ok_def ready_row_of_def)
  qed
qed

lemma ready_pairs_ok:
  assumes "store_inv d"
  shows "queue_ok d (ready_pairs d)"
  using ready_join_rows [OF assms] by (simp add: queue_ok_def ready_pairs_def distinct_map)

subsection \<open>The wait reason\<close>

lemma set_wait_tables:
  "pairs (set_wait i r d) = update_where (\<lambda>p. p_id p = i) (\<lambda>p. p\<lparr>p_wait := r\<rparr>) (pairs d)"
  "executions (set_wait i r d) = executions d" "attempts (set_wait i r d) = attempts d"
  "draws (set_wait i r d) = draws d" "source_groups (set_wait i r d) = source_groups d"
  "settings (set_wait i r d) = settings d"
  by (simp_all add: set_wait_def)

lemma find_exec_set_wait [simp]: "find_exec (set_wait i r d) j = find_exec d j"
  by (simp add: find_exec_def set_wait_tables)

lemma find_pair_set_wait:
  "find_pair (set_wait i r d) j = map_option (\<lambda>p. if p_id p = i then p\<lparr>p_wait := r\<rparr> else p) (find_pair d j)"
  unfolding set_wait_def by (rule find_pair_update) simp

lemma set_wait_frame: "frame X d (set_wait i r d)"
  by (rule frame_update_pairs [OF set_wait_tables(1,3)]) simp_all

lemma set_wait_active [simp]: "active_ids (set_wait i r d) = active_ids d"
proof -
  have "map p_id (filter (\<lambda>p. is_active_status (p_status p)) (update_where P (\<lambda>p. p\<lparr>p_wait := r\<rparr>) ps))
     = map p_id (filter (\<lambda>p. is_active_status (p_status p)) ps)" for P ps
    by (induction ps) simp_all
  then show ?thesis unfolding active_ids_set set_wait_tables by metis
qed

lemma pairs_update_inv:
  assumes inv: "store_inv d" and f: "\<And>p. p_id (f p) = p_id p" "\<And>p. p_execution (f p) = p_execution p"
    "\<And>p. p_status (f p) = p_status p" "\<And>p. p_snapshot (f p) = p_snapshot p"
  shows "store_inv (update_pairs P f d)"
proof -
  let ?d = "update_pairs P f d"
  have "keys_ok ?d"
    using store_inv_keys(4,5) [OF inv]
    by (intro keys_ok_update [OF store_inv_keys(1) [OF inv]]) (simp_all add: row_simps f)
  moreover have "fresh_ids ?d"
    by (rule fresh_ids_update [OF store_inv_keys(6) [OF inv]]) (auto simp: row_simps f)
  moreover have "pairs_ok ?d"
    using inv f by (auto simp: store_inv_def pairs_ok_def in_set_update_where attempts_of_def)
  moreover have "map p_status (pairs_of ?d e) = map p_status (pairs_of d e)" for e
    using pairs_of_update_pairs [where f = f and P = P and d = d and e = e, OF f(2)]
    by (simp add: row_simps f(3))
  then have "execs_ok ?d" using inv by (simp add: store_inv_def execs_ok_def)
  ultimately show ?thesis by (simp add: store_inv_def)
qed

lemma set_wait_inv: "store_inv d \<Longrightarrow> store_inv (set_wait i r d)"
  unfolding set_wait_def by (rule pairs_update_inv) simp_all

lemma row_ok_set_wait:
  assumes "row_ok d q"
  shows "row_ok (set_wait i r d) q"
proof -
  from assms obtain p e where "find_pair d (q_pair q) = Some p" "find_exec d (p_execution p) = Some e"
    "is_startable_exec (e_status e)" "is_ready_status (p_status p)" "p_group p = q_group q" "p_next p = q_next q"
    by (auto simp: row_ok_def)
  then show ?thesis by (cases "p_id p = i") (simp_all add: row_ok_def find_pair_set_wait)
qed

subsection \<open>A start\<close>

lemma find_pair_start_writes:
  "find_pair (start_writes now p d) j = map_option (\<lambda>q. if p_id q = p_id p then started_pair now q else q) (find_pair d j)"
  unfolding find_pair_def start_writes_tables by (rule find_map_key) simp

lemma find_exec_start_writes:
  "find_exec (start_writes now p d) j
     = map_option (\<lambda>e. if e_id e = p_execution p then started_exec now e else e) (find_exec d j)"
  unfolding find_exec_def start_writes_tables by (rule find_map_key) simp

lemma row_ok_start_writes:
  assumes "row_ok d q" and "q_pair q \<noteq> p_id p"
  shows "row_ok (start_writes now p d) q"
proof -
  from assms(1) obtain r e where r: "find_pair d (q_pair q) = Some r" "find_exec d (p_execution r) = Some e"
    "is_startable_exec (e_status e)" "is_ready_status (p_status r)" "p_group r = q_group q" "p_next r = q_next q"
    by (auto simp: row_ok_def)
  from find_pair_SomeD [OF r(1)] assms(2) r show ?thesis
    by (auto simp: row_ok_def find_pair_start_writes find_exec_start_writes)
qed

text \<open>The two cases of a turn on an eligible row.\<close>

lemma pump_one_cases:
  assumes row: "row_ok (sv_db sv) q"
  obtains (waits) r where "wait_reason_for now limit sv q = Some r"
      "pump_one now limit q sv = sv\<lparr>sv_db := set_wait (q_pair q) (Some r) (sv_db sv)\<rparr>"
  | (starts) p e ctx d2 where "wait_reason_for now limit sv q = None"
      "find_pair (sv_db sv) (q_pair q) = Some p" "p_group p = q_group q" "is_ready_status (p_status p)"
      "find_exec (sv_db sv) (p_execution p) = Some e"
      "start_attempt now (q_pair q) (set_wait (q_pair q) None (sv_db sv)) = Inr (ctx, d2)"
      "ctx = context_of (p\<lparr>p_wait := None\<rparr>) e (uuid (draws (sv_db sv)))
               (max_attempt (set_wait (q_pair q) None (sv_db sv)) (q_pair q) + 1)"
      "d2 = start_writes now (p\<lparr>p_wait := None\<rparr>) (set_wait (q_pair q) None (sv_db sv))"
      "pump_one now limit q sv = sv\<lparr>sv_db := d2, sv_workers := sv_workers sv @ [new_worker q ctx]\<rparr>"
proof (cases "wait_reason_for now limit sv q")
  case (Some r)
  then show ?thesis by (intro waits) (simp_all add: pump_one_def)
next
  case None
  from row obtain p e where p: "find_pair (sv_db sv) (q_pair q) = Some p" "find_exec (sv_db sv) (p_execution p) = Some e"
    "is_startable_exec (e_status e)" "is_ready_status (p_status p)" "p_group p = q_group q" "p_next p = q_next q"
    by (auto simp: row_ok_def)
  have next': "\<not> (case p_next p of None \<Rightarrow> False | Some t \<Rightarrow> t > now)"
    using None p(6) by (auto simp: wait_reason_for_def split: if_splits)
  let ?d1 = "set_wait (q_pair q) None (sv_db sv)"
  have f: "find_pair ?d1 (q_pair q) = Some (p\<lparr>p_wait := None\<rparr>)"
    using find_pair_SomeD [OF p(1)] p(1) by (simp add: find_pair_set_wait)
  let ?ctx = "context_of (p\<lparr>p_wait := None\<rparr>) e (uuid (draws (sv_db sv))) (max_attempt ?d1 (q_pair q) + 1)"
  have st: "start_attempt now (q_pair q) ?d1 = Inr (?ctx, start_writes now (p\<lparr>p_wait := None\<rparr>) ?d1)"
    using f p(2-4) next' by (simp add: start_attempt_def set_wait_tables)
  with None p show ?thesis by (intro starts [OF None p(1,5,4,2) st refl refl]) (simp add: pump_one_def Let_def)
qed

lemma pump_loop_fold:
  assumes "queue_ok (sv_db sv) qs"
  shows "pump_loop now limit qs sv = (None, fold (pump_one now limit) qs sv)"
  using assms
proof (induction qs arbitrary: sv)
  case (Cons q qs)
  have row: "row_ok (sv_db sv) q" and rest: "queue_ok (sv_db sv) qs"
    using Cons.prems by (auto simp: queue_ok_def)
  have rows: "\<forall>q' \<in> set qs. row_ok (sv_db sv) q'" "distinct (map q_pair qs)"
    using Cons.prems by (simp_all add: queue_ok_def)
  have "q_pair q \<notin> q_pair ` set qs" using Cons.prems by (simp add: queue_ok_def)
  then have other: "\<forall>q' \<in> set qs. q_pair q' \<noteq> q_pair q" by (metis image_eqI)
  show ?case
  using row
  proof (cases rule: pump_one_cases [where now = now and limit = limit])
    case (waits r)
    have "queue_ok (set_wait (q_pair q) (Some r) (sv_db sv)) qs"
      using rows row_ok_set_wait by (auto simp: queue_ok_def)
    with Cons.IH [of "pump_one now limit q sv"] waits show ?thesis by (simp add: Let_def)
  next
    case (starts p e ctx d2)
    have "p_id p = q_pair q" using find_pair_SomeD [OF starts(2)] by simp
    then have "queue_ok d2 qs"
      using rows other row_ok_set_wait row_ok_start_writes by (auto simp: queue_ok_def starts(8))
    with Cons.IH [of "pump_one now limit q sv"] starts(1,6,9) show ?thesis by (simp add: Let_def)
  qed
qed simp

section \<open>The loop keeps the invariant\<close>

lemma find_append_None: "List.find P xs = None \<Longrightarrow> List.find P (xs @ ys) = List.find P ys"
  by (induction xs) (auto split: if_splits)

lemma find_attempt_new:
  assumes "store_inv d"
  shows "find_attempt (start_writes now p d) (uuid (draws d)) = Some (started_attempt now p d)"
proof -
  have "List.find (\<lambda>a. a_id a = uuid (draws d)) (attempts d) = None"
    using fresh_uuid(3) [OF assms order_refl] unfolding find_key_None by (metis image_eqI)
  then show ?thesis
    by (simp add: find_attempt_def start_writes_tables find_append_None started_attempt_def)
qed

lemma service_inv_set_wait:
  assumes "service_inv sv"
  shows "service_inv (sv\<lparr>sv_db := set_wait i r (sv_db sv)\<rparr>)"
  using assms set_wait_inv worker_ok_frame [OF _ set_wait_frame [of "{}"]]
  by (simp add: service_inv_def workers_ok_def)

lemma pump_one_inv:
  assumes inv: "service_inv sv" and run: "\<not> sv_stopped sv" and row: "row_ok (sv_db sv) q"
  shows "service_inv (pump_one now limit q sv)"
  using row
proof (cases rule: pump_one_cases [where now = now and limit = limit])
  case (waits r)
  then show ?thesis using service_inv_set_wait [OF inv] by simp
next
  case (starts p e ctx d2)
  let ?d1 = "set_wait (q_pair q) None (sv_db sv)" and ?w = "new_worker q ctx"
  have store: "store_inv (sv_db sv)" and ws: "workers_ok sv"
    using inv by (simp_all add: service_inv_def)
  note inv1 = set_wait_inv [OF store, of "q_pair q" None] and pid = find_pair_SomeD [OF starts(2)]
  have p1: "find_pair ?d1 (q_pair q) = Some (p\<lparr>p_wait := None\<rparr>)"
    using starts(2) pid by (simp add: find_pair_set_wait)
  have idle: "q_pair q \<notin> active_ids (sv_db sv)"
    using starts(2,4) by (simp add: active_ids_iff [OF store])
  then have fresh: "\<forall>w \<in> set (sv_workers sv). w_pair w \<noteq> q_pair q"
    using worker_in_active [OF store] ws unfolding workers_ok_def by metis
  have fr: "frame {} (sv_db sv) d2"
    using frame_trans [OF set_wait_frame start_attempt_frame [OF starts(6)]] .
  have new: "worker_ok d2 ?w"
    using find_attempt_new [OF inv1, of now "p\<lparr>p_wait := None\<rparr>"] p1 pid starts(3)
    by (simp add: worker_ok_def genuine_def new_worker_def starts(7,8) context_of_def set_wait_tables
        find_pair_start_writes started_attempt_def)
  have "workers_ok (pump_one now limit q sv)"
    using ws fresh new worker_ok_frame [OF _ fr] by (auto simp: workers_ok_def starts(9) new_worker_def)
  moreover have "active_ids d2 = insert (q_pair q) (active_ids (sv_db sv))"
    using start_attempt_active [OF inv1 starts(6)] by simp
  ultimately show ?thesis
    using inv run start_attempt_inv [OF inv1 starts(6)] by (auto simp: service_inv_def starts(9) new_worker_def)
qed

text \<open>What a turn leaves alone.\<close>

lemma pump_one_kept:
  assumes row: "row_ok (sv_db sv) q"
  shows "sv_stopped (pump_one now limit q sv) = sv_stopped sv" "sv_error (pump_one now limit q sv) = sv_error sv"
    "group_limit (sv_db (pump_one now limit q sv)) limit g = group_limit (sv_db sv) limit g"
    "settings (sv_db (pump_one now limit q sv)) = settings (sv_db sv)"
    "source_groups (sv_db (pump_one now limit q sv)) = source_groups (sv_db sv)"
    "\<exists>ws. sv_workers (pump_one now limit q sv) = sv_workers sv @ ws"
    "j \<noteq> q_pair q \<Longrightarrow> find_pair (sv_db (pump_one now limit q sv)) j = find_pair (sv_db sv) j"
    "q_pair q' \<noteq> q_pair q \<Longrightarrow> row_ok (sv_db sv) q' \<Longrightarrow> row_ok (sv_db (pump_one now limit q sv)) q'"
proof -
  have other: "(if p_id p = i then f p else p) = p" if "find_pair d j = Some p" "j \<noteq> i" for d p i j and f :: "pair_row \<Rightarrow> pair_row"
    using find_pair_SomeD [OF that(1)] that(2) by simp
  have keep: "map_option (\<lambda>p. if p_id p = i then f p else p) (find_pair d j) = find_pair d j" if "j \<noteq> i"
    for d i j and f :: "pair_row \<Rightarrow> pair_row"
    using other [OF _ that] by (cases "find_pair d j") auto
  show "sv_stopped (pump_one now limit q sv) = sv_stopped sv" "sv_error (pump_one now limit q sv) = sv_error sv"
    by (simp_all add: pump_one_def Let_def split: sum.splits prod.splits)
  from row show g: "source_groups (sv_db (pump_one now limit q sv)) = source_groups (sv_db sv)"
    by (cases rule: pump_one_cases [where now = now and limit = limit])
       (simp_all add: set_wait_tables start_writes_tables)
  then show "group_limit (sv_db (pump_one now limit q sv)) limit g = group_limit (sv_db sv) limit g"
    by (simp add: group_limit_def find_group_def)
  from row show "settings (sv_db (pump_one now limit q sv)) = settings (sv_db sv)"
    by (cases rule: pump_one_cases [where now = now and limit = limit])
       (simp_all add: set_wait_tables start_writes_tables)
  from row show "\<exists>ws. sv_workers (pump_one now limit q sv) = sv_workers sv @ ws"
    by (cases rule: pump_one_cases [where now = now and limit = limit]) simp_all
  show "find_pair (sv_db (pump_one now limit q sv)) j = find_pair (sv_db sv) j" if "j \<noteq> q_pair q"
    using row
  proof (cases rule: pump_one_cases [where now = now and limit = limit])
    case (starts p e ctx d2)
    then show ?thesis
      using find_pair_SomeD [OF starts(2)] that by (simp add: find_pair_start_writes find_pair_set_wait keep)
  qed (simp add: find_pair_set_wait keep that)
  show "row_ok (sv_db (pump_one now limit q sv)) q'" if "q_pair q' \<noteq> q_pair q" "row_ok (sv_db sv) q'"
    using row
  proof (cases rule: pump_one_cases [where now = now and limit = limit])
    case (waits r)
    with that row_ok_set_wait show ?thesis by simp
  next
    case (starts p e ctx d2)
    with that row_ok_set_wait row_ok_start_writes find_pair_SomeD [OF starts(2)] show ?thesis by simp
  qed
qed

section \<open>The whole loop\<close>

lemma queue_ok_Cons:
  assumes "queue_ok d (q # qs)"
  shows "row_ok d q" "queue_ok d qs" "q' \<in> set qs \<Longrightarrow> q_pair q' \<noteq> q_pair q" "q_pair q \<notin> q_pair ` set qs"
proof -
  show n: "q_pair q \<notin> q_pair ` set qs" and "row_ok d q" "queue_ok d qs"
    using assms by (simp_all add: queue_ok_def)
  from n show "q' \<in> set qs \<Longrightarrow> q_pair q' \<noteq> q_pair q" by (metis image_eqI)
qed

lemma queue_ok_pump_one:
  assumes "queue_ok (sv_db sv) (q # qs)"
  shows "queue_ok (sv_db (pump_one now limit q sv)) qs"
  using assms queue_ok_Cons [OF assms] pump_one_kept(8) by (auto simp: queue_ok_def)

lemma queue_ok_fold: "queue_ok (sv_db sv) (xs @ qs) \<Longrightarrow> queue_ok (sv_db (fold (pump_one now limit) xs sv)) qs"
  by (induction xs arbitrary: sv) (simp_all add: queue_ok_pump_one)

definition pumped :: "service \<Rightarrow> ready_row list \<Rightarrow> service \<Rightarrow> bool" where
  "pumped sv qs sv' \<longleftrightarrow> service_inv sv' \<and> \<not> sv_stopped sv' \<and> sv_error sv' = sv_error sv
     \<and> source_groups (sv_db sv') = source_groups (sv_db sv) \<and> settings (sv_db sv') = settings (sv_db sv)
     \<and> (\<exists>ws. sv_workers sv' = sv_workers sv @ ws)
     \<and> (\<forall>j. j \<notin> q_pair ` set qs \<longrightarrow> find_pair (sv_db sv') j = find_pair (sv_db sv) j)"

lemma pump_fold:
  assumes "service_inv sv" and "\<not> sv_stopped sv" and "queue_ok (sv_db sv) qs"
  shows "pumped sv qs (fold (pump_one now limit) qs sv)"
  using assms
proof (induction qs arbitrary: sv)
  case Nil
  then show ?case by (simp add: pumped_def)
next
  case (Cons q qs)
  note row = queue_ok_Cons [OF Cons.prems(3)]
  note kept = pump_one_kept [OF row(1), where now = now and limit = limit]
  have "pumped (pump_one now limit q sv) qs (fold (pump_one now limit) (q # qs) sv)"
    using Cons.IH [OF pump_one_inv [OF Cons.prems(1,2) row(1)] _ queue_ok_pump_one [OF Cons.prems(3)]]
      kept(1) Cons.prems(2) by simp
  then show ?case
    using kept(2,4,5,6) kept(7) by (auto simp: pumped_def)
qed

lemma group_load_append [simp]: "group_load (ws @ vs) g = group_load ws g + group_load vs g"
  by (simp add: group_load_def)

lemma group_load_nonneg [simp]: "0 \<le> group_load ws g"
  by (simp add: group_load_def)

lemma group_limit_same: "source_groups d' = source_groups d \<Longrightarrow> group_limit d' limit g = group_limit d limit g"
  by (simp add: group_limit_def find_group_def)

lemma pump_one_capacity:
  assumes "row_ok (sv_db sv) q"
  shows "int (length (sv_workers (pump_one now limit q sv))) \<le> max limit (int (length (sv_workers sv)))"
    and "group_load (sv_workers (pump_one now limit q sv)) g
      \<le> max (group_limit (sv_db sv) limit g) (group_load (sv_workers sv) g)"
  using assms
  by (cases rule: pump_one_cases [where now = now and limit = limit];
      auto simp: wait_reason_for_def new_worker_def group_load_def split: if_splits)+

lemma pump_fold_capacity:
  assumes "queue_ok (sv_db sv) qs"
  shows "int (length (sv_workers (fold (pump_one now limit) qs sv))) \<le> max limit (int (length (sv_workers sv)))
    \<and> group_load (sv_workers (fold (pump_one now limit) qs sv)) g
      \<le> max (group_limit (sv_db sv) limit g) (group_load (sv_workers sv) g)"
  using assms
proof (induction qs arbitrary: sv)
  case (Cons q qs)
  note row = queue_ok_Cons(1) [OF Cons.prems]
  show ?case
    using Cons.IH [OF queue_ok_pump_one [OF Cons.prems, where now = now and limit = limit]] pump_one_capacity [OF row, where now = now and limit = limit]
      pump_one_kept(3) [OF row, where now = now and limit = limit and g = g]
    by (auto simp: le_max_iff_disj) (smt (verit))+
qed simp

section \<open>Why a pair waits\<close>

definition reason_holds :: "time \<Rightarrow> int \<Rightarrow> service \<Rightarrow> ready_row \<Rightarrow> wait_reason \<Rightarrow> bool" where
  "reason_holds now limit sv q r =
     (case r of
        RetryDelay \<Rightarrow> (case q_next q of None \<Rightarrow> False | Some t \<Rightarrow> t > now)
      | GlobalCapacity \<Rightarrow> limit \<le> int (length (sv_workers sv))
      | SourceCapacity \<Rightarrow> group_limit (sv_db sv) limit (q_group q) \<le> group_load (sv_workers sv) (q_group q))"

definition has_worker :: "service \<Rightarrow> id \<Rightarrow> bool" where
  "has_worker sv i \<longleftrightarrow> i \<in> w_pair ` set (sv_workers sv)"

definition waits_for :: "service \<Rightarrow> id \<Rightarrow> wait_reason \<Rightarrow> bool" where
  "waits_for sv i r \<longleftrightarrow> (\<exists>p. find_pair (sv_db sv) i = Some p \<and> p_wait p = Some r)"

lemma pump_one_settles:
  assumes "row_ok (sv_db sv) q"
  shows "has_worker (pump_one now limit q sv) (q_pair q) \<or>
     (\<exists>r. wait_reason_for now limit sv q = Some r \<and> waits_for (pump_one now limit q sv) (q_pair q) r
        \<and> sv_workers (pump_one now limit q sv) = sv_workers sv)"
  using assms
proof (cases rule: pump_one_cases [where now = now and limit = limit])
  case (waits r)
  from assms obtain p where "find_pair (sv_db sv) (q_pair q) = Some p" by (auto simp: row_ok_def)
  with find_pair_SomeD [OF this] waits show ?thesis by (simp add: waits_for_def find_pair_set_wait)
qed (simp add: has_worker_def new_worker_def)

lemma wait_reason_holds:
  "wait_reason_for now limit sv q = Some r \<Longrightarrow> sv_workers sv' = sv_workers sv @ ws
     \<Longrightarrow> source_groups (sv_db sv') = source_groups (sv_db sv) \<Longrightarrow> reason_holds now limit sv' q r"
  using group_limit_same [of "sv_db sv'" "sv_db sv" limit "q_group q"]
  by (simp add: wait_reason_for_def reason_holds_def split: if_splits)
     (use group_load_nonneg [of ws "q_group q"] in \<open>auto intro: order_trans simp del: group_load_nonneg\<close>)+

lemma pumped_mono:
  assumes "pumped sv qs sv'"
  shows "has_worker sv i \<Longrightarrow> has_worker sv' i" "i \<notin> q_pair ` set qs \<Longrightarrow> waits_for sv i r \<Longrightarrow> waits_for sv' i r"
  using assms by (auto simp: pumped_def has_worker_def waits_for_def)

lemma pump_fold_settles:
  assumes "service_inv sv" and "\<not> sv_stopped sv" and "queue_ok (sv_db sv) qs" and "q \<in> set qs"
  shows "has_worker (fold (pump_one now limit) qs sv) (q_pair q) \<or>
     (\<exists>r. waits_for (fold (pump_one now limit) qs sv) (q_pair q) r
        \<and> reason_holds now limit (fold (pump_one now limit) qs sv) q r)"
  using assms
proof (induction qs arbitrary: sv)
  case (Cons q0 qs)
  let ?sv1 = "pump_one now limit q0 sv" and ?sv' = "fold (pump_one now limit) (q0 # qs) sv"
  note row = queue_ok_Cons [OF Cons.prems(3)]
  note inv1 = pump_one_inv [OF Cons.prems(1,2) row(1), of now limit]
  have run1: "\<not> sv_stopped ?sv1" using pump_one_kept(1) [OF row(1)] Cons.prems(2) by simp
  note q1 = queue_ok_pump_one [OF Cons.prems(3), of now limit]
  show ?case
  proof (cases "q \<in> set qs")
    case True
    with Cons.IH [OF inv1 run1 q1] show ?thesis by simp
  next
    case False
    then have q: "q = q0" using Cons.prems(4) by simp
    have rest: "pumped ?sv1 qs ?sv'" using pump_fold [OF inv1 run1 q1, of now limit] by simp
    have all: "pumped sv (q0 # qs) ?sv'" by (rule pump_fold [OF Cons.prems(1-3)])
    show ?thesis
      using pump_one_settles [OF row(1), of now limit] pumped_mono [OF rest] row(4) all wait_reason_holds
      unfolding q pumped_def by metis
  qed
qed simp

text \<open>Only pairs of the queue get a worker.\<close>

lemma has_worker_fold:
  assumes "queue_ok (sv_db sv) qs"
  shows "has_worker (fold (pump_one now limit) qs sv) i \<Longrightarrow> has_worker sv i \<or> i \<in> q_pair ` set qs"
  using assms
proof (induction qs arbitrary: sv)
  case (Cons q qs)
  have "has_worker (pump_one now limit q sv) i \<Longrightarrow> has_worker sv i \<or> i = q_pair q"
    using queue_ok_Cons(1) [OF Cons.prems(2)]
    by (cases rule: pump_one_cases [where now = now and limit = limit]) (auto simp: has_worker_def new_worker_def)
  with Cons.IH [OF _ queue_ok_pump_one [OF Cons.prems(2), of now limit]] Cons.prems(1) show ?case by auto
qed simp

text \<open>Once the global capacity is used up, nothing more starts.\<close>

lemma pump_fold_full:
  assumes "limit \<le> int (length (sv_workers sv))" and "queue_ok (sv_db sv) qs"
  shows "sv_workers (fold (pump_one now limit) qs sv) = sv_workers sv"
  using assms
proof (induction qs arbitrary: sv)
  case (Cons q qs)
  from queue_ok_Cons(1) [OF Cons.prems(2)] have "sv_workers (pump_one now limit q sv) = sv_workers sv"
  proof (cases rule: pump_one_cases [where now = now and limit = limit])
    case (starts p e ctx d2)
    with Cons.prems(1) show ?thesis by (auto simp: wait_reason_for_def split: if_splits)
  qed simp
  with Cons.IH [of "pump_one now limit q sv"] Cons.prems(1) queue_ok_pump_one [OF Cons.prems(2), of now limit]
  show ?case by simp
qed simp

text \<open>Once a source is at its limit, no pair of that source starts.\<close>

lemma ready_has_no_worker:
  assumes inv: "service_inv sv" and row: "row_ok (sv_db sv) q"
  shows "\<not> has_worker sv (q_pair q)"
proof
  assume "has_worker sv (q_pair q)"
  then obtain w where w: "w \<in> set (sv_workers sv)" "w_pair w = q_pair q" by (auto simp: has_worker_def)
  have store: "store_inv (sv_db sv)" and ws: "workers_ok sv" using inv by (simp_all add: service_inv_def)
  from row obtain p where p: "find_pair (sv_db sv) (q_pair q) = Some p" "is_ready_status (p_status p)"
    by (auto simp: row_ok_def)
  from ws w(1) have "worker_ok (sv_db sv) w" by (simp add: workers_ok_def)
  from worker_active [OF store this] w(2) p show False by (metis option.inject pair_status_disjoint(1))
qed

lemma pump_fold_group_full:
  assumes "service_inv sv" and "\<not> sv_stopped sv" and "queue_ok (sv_db sv) qs" and "q \<in> set qs"
    and "group_limit (sv_db sv) limit (q_group q) \<le> group_load (sv_workers sv) (q_group q)"
  shows "\<not> has_worker (fold (pump_one now limit) qs sv) (q_pair q)"
  using assms
proof (induction qs arbitrary: sv)
  case (Cons q0 qs)
  let ?sv1 = "pump_one now limit q0 sv"
  note row = queue_ok_Cons [OF Cons.prems(3)]
  note inv1 = pump_one_inv [OF Cons.prems(1,2) row(1), of now limit]
  have run1: "\<not> sv_stopped ?sv1" using pump_one_kept(1) [OF row(1)] Cons.prems(2) by simp
  note q1 = queue_ok_pump_one [OF Cons.prems(3), of now limit]
  obtain ws where ws: "sv_workers ?sv1 = sv_workers sv @ ws" using pump_one_kept(6) [OF row(1)] by blast
  have full: "group_limit (sv_db ?sv1) limit (q_group q) \<le> group_load (sv_workers ?sv1) (q_group q)"
    using Cons.prems(5) pump_one_kept(3) [OF row(1), where now = now and limit = limit and g = "q_group q"] ws
    by (simp add: add_increasing2)
  show ?case
  proof (cases "q \<in> set qs")
    case True
    with Cons.IH [OF inv1 run1 q1 _ full] show ?thesis by simp
  next
    case False
    then have q: "q = q0" using Cons.prems(4) by simp
    have "sv_workers ?sv1 = sv_workers sv"
      using row(1)
    proof (cases rule: pump_one_cases [where now = now and limit = limit])
      case (starts p e ctx d2)
      with Cons.prems(5) show ?thesis by (auto simp: q wait_reason_for_def split: if_splits)
    qed simp
    then have "\<not> has_worker ?sv1 (q_pair q)"
      using ready_has_no_worker [OF Cons.prems(1) row(1)] by (simp add: q has_worker_def)
    with has_worker_fold [OF q1] row(4) show ?thesis unfolding q by (metis fold_simps(2))
  qed
qed simp

section \<open>The dispatcher\<close>

lemma pump_fold_eq:
  assumes "service_inv sv" and "\<not> sv_stopped sv"
  shows "pump now sv = (None, fold (pump_one now (concurrency_limit (sv_db sv))) (ready_pairs (sv_db sv)) sv)"
  using assms ready_pairs_ok [of "sv_db sv"] by (simp add: pump_def service_inv_def pump_loop_fold)

lemma pump_pumped:
  assumes "service_inv sv" and "\<not> sv_stopped sv"
  shows "pumped sv (ready_pairs (sv_db sv)) (snd (pump now sv))"
  using assms ready_pairs_ok [of "sv_db sv"] pump_fold [OF assms]
  by (simp add: pump_fold_eq [OF assms]) (simp add: service_inv_def)

lemma pump_keeps:
  assumes "service_inv sv"
  shows "fst (pump now sv) = None \<and> service_inv (snd (pump now sv))"
proof (cases "sv_stopped sv")
  case True
  with assms show ?thesis by (simp add: pump_def)
next
  case False
  with pump_pumped [OF assms False, of now] pump_fold_eq [OF assms False, of now] show ?thesis
    by (simp add: pumped_def)
qed

text \<open>The dispatcher never throws: every pair of the queue it picks is eligible to start. It keeps the
  service invariant: the queue stays well formed, each worker runs the one running attempt of its
  pair, no pair has two workers, and no pair is marked active without a worker.\<close>

theorem pump_keeps_invariant:
  assumes "service_inv sv"
  shows "fst (pump now sv) = None \<and> service_inv (snd (pump now sv))"
  using assms by (rule pump_keeps)

lemma overtaken:
  assumes inv: "service_inv sv" and run: "\<not> sv_stopped sv" and q: "queue_ok (sv_db sv) (q1 # ys @ q2 # zs)"
    and w2: "has_worker (fold (pump_one now limit) (q1 # ys @ q2 # zs) sv) (q_pair q2)"
    and w1: "\<not> has_worker (fold (pump_one now limit) (q1 # ys @ q2 # zs) sv) (q_pair q1)"
  shows "\<exists>r. waits_for (fold (pump_one now limit) (q1 # ys @ q2 # zs) sv) (q_pair q1) r
     \<and> (r = RetryDelay \<and> (case q_next q1 of None \<Rightarrow> False | Some t \<Rightarrow> t > now)
        \<or> r = SourceCapacity \<and> q_group q1 \<noteq> q_group q2)"
proof -
  let ?sv1 = "pump_one now limit q1 sv" and ?rest = "ys @ q2 # zs"
  let ?sv' = "fold (pump_one now limit) ?rest ?sv1"
  note row = queue_ok_Cons [OF q]
  note inv1 = pump_one_inv [OF inv run row(1), of now limit]
  have run1: "\<not> sv_stopped ?sv1" using pump_one_kept(1) [OF row(1)] run by simp
  note q1 = queue_ok_pump_one [OF q, of now limit]
  have row2: "row_ok (sv_db ?sv1) q2" using q1 by (simp add: queue_ok_def)
  note rest = pump_fold [OF inv1 run1 q1, of now limit]
  have "\<not> has_worker ?sv1 (q_pair q1)" using pumped_mono(1) [OF rest] w1 by auto
  then obtain r where r: "wait_reason_for now limit sv q1 = Some r" and wt: "waits_for ?sv1 (q_pair q1) r"
    and same: "sv_workers ?sv1 = sv_workers sv"
    using pump_one_settles [OF row(1), of now limit] by blast
  have wt': "waits_for ?sv' (q_pair q1) r" using pumped_mono(2) [OF rest row(4) wt] .
  have "\<not> limit \<le> int (length (sv_workers ?sv1))"
  proof
    assume "limit \<le> int (length (sv_workers ?sv1))"
    from pump_fold_full [OF this q1, of now] w2 have "has_worker ?sv1 (q_pair q2)" by (simp add: has_worker_def)
    with ready_has_no_worker [OF inv1 row2] show False by simp
  qed
  then have "r \<noteq> GlobalCapacity" using r same by (auto simp: wait_reason_for_def split: if_splits)
  moreover have "q_group q1 \<noteq> q_group q2" if "r = SourceCapacity"
  proof
    assume g: "q_group q1 = q_group q2"
    have "group_limit (sv_db ?sv1) limit (q_group q2) \<le> group_load (sv_workers ?sv1) (q_group q2)"
      using r that same g pump_one_kept(3) [OF row(1), where now = now and limit = limit and g = "q_group q2"]
      by (auto simp: wait_reason_for_def split: if_splits)
    from pump_fold_group_full [OF inv1 run1 q1 _ this, of now] w2 show False by simp
  qed
  moreover have "case q_next q1 of None \<Rightarrow> False | Some t \<Rightarrow> t > now" if "r = RetryDelay"
    using r that by (auto simp: wait_reason_for_def split: if_splits)
  ultimately show ?thesis using wt' by (cases r) auto
qed

text \<open>C16: The dispatcher serves the queue in order (higher priority first, then first come first served):
  when a pair runs after a dispatch although an earlier pair of the queue does not, the earlier one
  waits for its retry delay, which has not elapsed, or for the capacity of another source.\<close>

theorem pump_no_overtaking:
  assumes inv: "service_inv sv" and run: "\<not> sv_stopped sv"
    and queue: "ready_pairs (sv_db sv) = xs @ q1 # ys @ q2 # zs"
    and later: "has_worker (snd (pump now sv)) (q_pair q2)"
    and earlier: "\<not> has_worker (snd (pump now sv)) (q_pair q1)"
  shows "(waits_for (snd (pump now sv)) (q_pair q1) RetryDelay \<and> (\<exists>t. q_next q1 = Some t \<and> t > now))
    \<or> (waits_for (snd (pump now sv)) (q_pair q1) SourceCapacity \<and> q_group q1 \<noteq> q_group q2)"
proof -
  let ?l = "concurrency_limit (sv_db sv)"
  let ?sv1 = "fold (pump_one now ?l) xs sv"
  have ok: "queue_ok (sv_db sv) (xs @ q1 # ys @ q2 # zs)"
    using ready_pairs_ok [of "sv_db sv"] inv queue by (simp add: service_inv_def)
  then have xs: "queue_ok (sv_db sv) xs" by (simp add: queue_ok_def)
  have p: "pumped sv xs ?sv1" by (rule pump_fold [OF inv run xs])
  have ok1: "queue_ok (sv_db ?sv1) (q1 # ys @ q2 # zs)"
    using ok by (rule queue_ok_fold)
  have eq: "snd (pump now sv) = fold (pump_one now ?l) (q1 # ys @ q2 # zs) ?sv1"
    by (simp add: pump_fold_eq [OF inv run] queue)
  from p have "service_inv ?sv1" "\<not> sv_stopped ?sv1" by (simp_all add: pumped_def)
  from overtaken [OF this ok1, of now ?l] later earlier show ?thesis
    unfolding eq by (auto split: option.splits)
qed

lemma pump_limits:
  assumes "service_inv sv"
  shows "int (length (sv_workers (snd (pump now sv))))
      \<le> max (concurrency_limit (sv_db sv)) (int (length (sv_workers sv)))
    \<and> group_load (sv_workers (snd (pump now sv))) g
      \<le> max (group_limit (sv_db sv) (concurrency_limit (sv_db sv)) g) (group_load (sv_workers sv) g)"
proof (cases "sv_stopped sv")
  case False
  have "queue_ok (sv_db sv) (ready_pairs (sv_db sv))"
    using assms by (simp add: ready_pairs_ok service_inv_def)
  from pump_fold_capacity [OF this] show ?thesis by (simp add: pump_fold_eq [OF assms False])
qed (simp add: pump_def)

text \<open>A dispatch starts work only within the limits: it never brings the number of workers above the
  configured concurrency, nor those of one source above the limit of its group (work that was already
  running when a limit was lowered is left to end).\<close>

theorem pump_respects_limits:
  assumes "service_inv sv"
  shows "int (length (sv_workers (snd (pump now sv))))
      \<le> max (concurrency_limit (sv_db sv)) (int (length (sv_workers sv)))
    \<and> group_load (sv_workers (snd (pump now sv))) g
      \<le> max (group_limit (sv_db sv) (concurrency_limit (sv_db sv)) g) (group_load (sv_workers sv) g)"
  using assms by (rule pump_limits)

text \<open>C17: A dispatch is work conserving: every pair of the queue has a worker afterwards, or is marked with
  the reason why it waits, and that reason is true: its retry delay has not elapsed, all the
  configured workers are busy, or its source is at its limit.\<close>

theorem pump_work_conserving:
  assumes inv: "service_inv sv" and run: "\<not> sv_stopped sv" and q: "q \<in> set (ready_pairs (sv_db sv))"
  shows "has_worker (snd (pump now sv)) (q_pair q)
    \<or> (\<exists>r. waits_for (snd (pump now sv)) (q_pair q) r
          \<and> reason_holds now (concurrency_limit (sv_db sv)) (snd (pump now sv)) q r)"
proof -
  have "queue_ok (sv_db sv) (ready_pairs (sv_db sv))"
    using inv by (simp add: ready_pairs_ok service_inv_def)
  from pump_fold_settles [OF inv run this q] show ?thesis by (simp add: pump_fold_eq [OF inv run])
qed

end
