(* ===== verification/Service_Steps.thy ===== *)
theory Service_Steps
  imports Dispatch_Facts
begin

text \<open>
  The service as a state machine: every operation of the coordinator is a step, with the work
  of the other modules on the same database between them and restarts after a crash. The
  service invariant and the bounds on the workers hold in every reachable state, recovery
  leaves no attempt running, and a stopped coordinator starts nothing.
\<close>

section \<open>Group limits\<close>

text \<open>Stored concurrency limits are between 1 and 8.\<close>

definition groups_ok :: "db \<Rightarrow> bool" where
  "groups_ok d \<longleftrightarrow> (\<forall>g \<in> set (source_groups d). 1 \<le> g_concurrency g \<and> g_concurrency g \<le> 8)"

lemma groups_ok_same: "source_groups d' = source_groups d \<Longrightarrow> groups_ok d' = groups_ok d"
  by (simp add: groups_ok_def)

lemma source_group_groups: "source_group i d = (g, d') \<Longrightarrow> groups_ok d \<Longrightarrow> groups_ok d'"
  by (auto simp: source_group_def set_group_def groups_ok_def Let_def split: option.splits if_splits)

lemma plan_pairs_groups: "plan_pairs j cs d = Inr (pls, d') \<Longrightarrow> groups_ok d \<Longrightarrow> groups_ok d'"
proof (induction j cs d arbitrary: pls d' rule: plan_pairs.induct)
  case (2 j conn names target req rest d)
  from "2.prems" obtain s g d1 pls' where
      s: "snapshot_configuration j names (find_connection d conn) (records_pitr d conn (j_id j)) = Inr s"
    and g: "source_group conn d = (g, d1)" and rest: "plan_pairs j rest d1 = Inr (pls', d')"
    by (auto split: sum.splits prod.splits)
  from "2.IH" [OF s g [symmetric] rest] source_group_groups [OF g] "2.prems"(2) show ?case by simp
qed simp

lemma plan_retries_groups: "plan_retries i es sels d = Inr (pls, d') \<Longrightarrow> groups_ok d \<Longrightarrow> groups_ok d'"
proof (induction i es sels d arbitrary: pls d' rule: plan_retries.induct)
  case (2 i es sel sels d)
  from "2.prems" obtain p g d1 pls' where p: "selected_pair d i sel = Some p" and r: "retryable es (p_status p)"
    and g: "source_group (p_connection p) d = (g, d1)" and rest: "plan_retries i es sels d1 = Inr (pls', d')"
    by (auto split: sum.splits prod.splits option.splits if_splits)
  from "2.IH" [OF p _ g [symmetric] rest] r source_group_groups [OF g] "2.prems"(2) show ?case by simp
qed simp

lemma insert_execution_groups:
  assumes "insert_execution now job trig actor sched parent pls d = Inr (i, d')"
  shows "source_groups d' = source_groups d"
  using assms
  by (auto simp: insert_execution_def Let_def split: option.splits sum.splits dest!: insert_pairs_Inr)

lemma add_event_groups [simp]: "source_groups (add_event now ex pr k a pl d) = source_groups d"
  by (simp add: add_event_def)

section \<open>Quiet changes\<close>

text \<open>\<open>kept d d'\<close>: finished work is immutable. The row of a pair that ended is unchanged, and an execution
  that ended keeps its status and the time it finished.\<close>

definition kept :: "db \<Rightarrow> db \<Rightarrow> bool" where
  "kept d d' \<longleftrightarrow>
     (\<forall>i p. find_pair d i = Some p \<longrightarrow> is_terminal_pair (p_status p) \<longrightarrow> find_pair d' i = Some p)
   \<and> (\<forall>i e. find_exec d i = Some e \<longrightarrow> is_terminal_exec (e_status e) \<longrightarrow>
        (\<exists>e'. find_exec d' i = Some e' \<and> e_status e' = e_status e \<and> e_finished e' = e_finished e))"

lemma kept_refl [simp]: "kept d d"
  by (simp add: kept_def)

lemma kept_trans:
  assumes ab: "kept a b" and bc: "kept b c"
  shows "kept a c"
  unfolding kept_def
proof (intro conjI allI impI)
  fix i p assume "find_pair a i = Some p" "is_terminal_pair (p_status p)"
  with ab bc show "find_pair c i = Some p" by (simp add: kept_def)
next
  fix i e assume "find_exec a i = Some e" "is_terminal_exec (e_status e)"
  with ab obtain f where f: "find_exec b i = Some f" "e_status f = e_status e" "e_finished f = e_finished e" "is_terminal_exec (e_status f)"
    unfolding kept_def by metis
  from bc f(1,4) obtain e' where "find_exec c i = Some e'" "e_status e' = e_status f" "e_finished e' = e_finished f"
    unfolding kept_def by blast
  with f show "\<exists>e'. find_exec c i = Some e' \<and> e_status e' = e_status e \<and> e_finished e' = e_finished e" by simp
qed

lemma kept_same: "executions d' = executions d \<Longrightarrow> pairs d' = pairs d \<Longrightarrow> kept d d'"
  by (simp add: kept_def find_pair_def find_exec_def)

text \<open>\<open>quiet d d'\<close>: the queue stays well formed, no pair becomes or ceases to be active, the attempts are
  untouched and finished work is kept. All operations that do not start or end work are quiet.\<close>

definition quiet :: "db \<Rightarrow> db \<Rightarrow> bool" where
  "quiet d d' \<longleftrightarrow> (store_inv d \<longrightarrow> store_inv d') \<and> frame {} d d' \<and> active_ids d' = active_ids d
     \<and> (groups_ok d \<longrightarrow> groups_ok d') \<and> attempts d' = attempts d \<and> kept d d'"

lemma quiet_refl [simp]: "quiet d d"
  by (simp add: quiet_def)

lemma quiet_trans: "quiet a b \<Longrightarrow> quiet b c \<Longrightarrow> quiet a c"
  using frame_trans [of "{}" a b c] kept_trans [of a b c] by (simp add: quiet_def)

lemma quiet_service:
  assumes "service_inv sv" and "quiet (sv_db sv) d"
  shows "service_inv (sv\<lparr>sv_db := d\<rparr>)"
proof -
  have q: "store_inv (sv_db sv) \<longrightarrow> store_inv d" "frame {} (sv_db sv) d" "active_ids d = active_ids (sv_db sv)"
    using assms(2) by (simp_all add: quiet_def)
  have "\<forall>w \<in> set (sv_workers sv). worker_ok d w"
    using assms(1) worker_ok_frame [OF _ q(2)] by (simp add: service_inv_def workers_ok_def)
  then show ?thesis using assms(1) q(1,3) by (simp add: service_inv_def workers_ok_def)
qed

lemma active_ids_same: "pairs d' = pairs d \<Longrightarrow> active_ids d' = active_ids d"
  by (simp add: active_ids_def)

lemma quiet_tables:
  assumes "executions d' = executions d" "pairs d' = pairs d" "attempts d' = attempts d" "draws d \<le> draws d'"
    and "groups_ok d \<Longrightarrow> groups_ok d'"
  shows "quiet d d'"
  unfolding quiet_def
proof (intro conjI impI)
  assume "store_inv d"
  with assms(1-4) show "store_inv d'" by (rule store_inv_cong)
next
  show "frame {} d d'" using assms(2,3) by (rule frame_same_tables)
  show "active_ids d' = active_ids d" using assms(2) by (rule active_ids_same)
  show "kept d d'" using assms(1,2) by (rule kept_same)
qed (rule assms(3,5) | assumption)+

lemma quiet_event [simp]: "quiet d (add_event now ex pr k a pl d)"
  by (rule quiet_tables) (simp_all add: groups_ok_def)

lemma quiet_execs:
  assumes "\<And>e. e_id (f e) = e_id e" "\<And>e. e_status (f e) = e_status e" "\<And>e. e_finished (f e) = e_finished e"
  shows "quiet d (update_execs P f d)"
  unfolding quiet_def
proof (intro conjI impI)
  show "store_inv (update_execs P f d)" if "store_inv d" by (rule execs_update_inv [OF that assms])
  show "frame {} d (update_execs P f d)" by (rule frame_same_tables) simp_all
  show "active_ids (update_execs P f d) = active_ids d" by (rule active_ids_same) simp
  show "groups_ok (update_execs P f d)" if "groups_ok d" using that by (simp add: groups_ok_def)
  show "kept d (update_execs P f d)"
    using assms by (simp add: kept_def find_exec_update [where g = f and P = P, OF assms(1)])
qed simp

lemma source_group_quiet: "source_group i d = (g, d') \<Longrightarrow> quiet d d'"
  using source_group_same [of i d g d'] source_group_groups [of i d g d']
  by (intro quiet_tables) (auto simp: same_queue_def)

lemma insert_execution_quiet:
  assumes "insert_execution now job trig actor sched parent pls d = Inr (i, d')" and "pls \<noteq> []"
  shows "quiet d d'"
proof -
  have "active_ids d' = active_ids d"
    using assms(1)
  proof (cases rule: insert_execution_cases)
    case existing
    then show ?thesis by (intro active_ids_same) simp
  next
    case inserted
    have "filter (\<lambda>p. is_active_status (p_status p)) (new_pairs i (Suc (draws d)) pls) = []"
      using new_pairs_rows [of _ i "Suc (draws d)" pls] by (auto simp: filter_empty_conv)
    then show ?thesis by (simp add: active_ids_set inserted(4))
  qed
  moreover have "attempts d' = attempts d \<and> kept d d'"
    using assms(1)
  proof (cases rule: insert_execution_cases)
    case existing
    then show ?thesis by (simp add: kept_same)
  next
    case inserted
    then show ?thesis by (simp add: kept_def find_pair_def find_exec_def find_append_Some)
  qed
  ultimately show ?thesis
    using insert_execution_inv [OF _ assms] insert_execution_frame [OF assms(1)]
      groups_ok_same [OF insert_execution_groups [OF assms(1)]] by (simp add: quiet_def)
qed

lemma enqueue_quiet:
  assumes "enqueue now job trig actor sched d = Inr (i, d')"
  shows "quiet d d'"
  using assms
proof (rule enqueue_Inr)
  fix j pls d1
  assume p: "plan_pairs j (job_pairs d j) d = Inr (pls, d1)" and s: "same_queue d d1"
    and ins: "insert_execution now job trig actor sched None pls d1 = Inr (i, d')" "pls \<noteq> []"
  have "quiet d d1"
    using s plan_pairs_groups [OF p] by (intro quiet_tables) (auto simp: same_queue_def)
  with insert_execution_quiet [OF ins] show ?thesis by (rule quiet_trans [rotated])
qed

lemma retry_execution_Inr:
  assumes "retry_execution now i sels actor d = Inr (k, d')"
  obtains e pls d1 where "find_exec d i = Some e" "plan_retries i (e_status e) sels d = Inr (pls, d1)" "same_queue d d1"
    "insert_execution now (e_job e) Retry (Some actor) None (Some i) pls d1 = Inr (k, d')" "pls \<noteq> []" "distinct sels"
    "is_admin d actor"
proof -
  from assms obtain e :: exec_row and pls d1 where *: "find_exec d i = Some e" "plan_retries i (e_status e) sels d = Inr (pls, d1)"
    "insert_execution now (e_job e) Retry (Some actor) None (Some i) pls d1 = Inr (k, d')" "sels \<noteq> []" "distinct sels"
    "is_admin d actor"
    by (auto simp: retry_execution_def actor_check_def split: sum.splits option.splits if_splits)
  moreover from plan_retries_Inr [OF *(2)] *(4) have "same_queue d d1" "pls \<noteq> []" by auto
  ultimately show ?thesis using that by blast
qed

lemma retry_execution_quiet:
  assumes "retry_execution now i sels actor d = Inr (k, d')"
  shows "quiet d d'"
  using assms
proof (rule retry_execution_Inr)
  fix e pls d1 assume s: "same_queue d d1" and p: "plan_retries i (e_status e) sels d = Inr (pls, d1)"
    and ins: "insert_execution now (e_job e) Retry (Some actor) None (Some i) pls d1 = Inr (k, d')" "pls \<noteq> []"
  have "quiet d d1"
    using s plan_retries_groups [OF p] by (intro quiet_tables) (auto simp: same_queue_def)
  with insert_execution_quiet [OF ins] show ?thesis by (rule quiet_trans [rotated])
qed

lemma retry_historical_quiet:
  assumes "retry_historical now run actor d = Inr (k, d')"
  shows "quiet d d'"
proof -
  from assms obtain j g pl d1 d2 conn where g: "source_group conn d = (g, d1)"
    and ins: "insert_execution now j Retry (Some actor) None None [pl] d1 = Inr (k, d2)"
    and d': "d' = add_event now (Some k) None ''historical_run_retry'' (Some actor) (json_obj [(''runId'', JStr run)]) d2"
    by (auto simp: retry_historical_def split: sum.splits option.splits if_splits prod.splits)
  show ?thesis
    using quiet_trans [OF source_group_quiet [OF g] quiet_trans [OF insert_execution_quiet [OF ins]]] d' by simp
qed

lemma prioritize_quiet:
  assumes "prioritize now i prio actor d = Inr d'"
  shows "quiet d d'"
proof -
  from assms have "d' = add_event now (Some i) None ''priority_changed'' (Some actor) (json_obj [(''priority'', JNum prio)])
      (update_execs (\<lambda>e. e_id e = i) (\<lambda>e. e\<lparr>e_priority := prio\<rparr>) d)"
    by (auto simp: prioritize_def split: sum.splits option.splits if_splits)
  with quiet_trans [OF quiet_execs quiet_event] show ?thesis by simp
qed

text \<open>What the other modules do between the steps: they write other tables and draw identifiers.\<close>

definition elsewhere :: "db \<Rightarrow> db \<Rightarrow> bool" where
  "elsewhere d d' \<longleftrightarrow> executions d' = executions d \<and> pairs d' = pairs d \<and> attempts d' = attempts d
     \<and> source_groups d' = source_groups d \<and> draws d \<le> draws d'"

lemma elsewhere_quiet: "elsewhere d d' \<Longrightarrow> quiet d d'"
  by (rule quiet_tables) (simp_all add: elsewhere_def groups_ok_def)

lemma configure_quiet: "configure limit actor d = Inr d' \<Longrightarrow> quiet d d'"
  by (rule quiet_tables) (auto simp: configure_def groups_ok_def split: sum.splits if_splits)

lemma assign_group_quiet: "assign_group now ids g nm n actor d = Inr d' \<Longrightarrow> quiet d d'"
  by (rule quiet_tables)
     (auto simp: assign_group_def Let_def set_group_def save_group_def groups_ok_def in_set_update_where
        split: sum.splits if_splits)

section \<open>Schedules\<close>

lemma set_missed_quiet [simp]: "quiet d (set_missed i startup due oc d)"
  unfolding set_missed_def by (rule quiet_execs) simp_all

lemma set_next_run_quiet [simp]: "quiet d (set_next_run job t d)"
  by (rule quiet_tables) (simp_all add: set_next_run_def groups_ok_def)

lemma due_job_Inr:
  assumes "due_job cron now startup j due d = Inr d'"
  obtains (admitted) oc i d1 where
      "due_occurrences (cron (j_cron j) (if j_timezone j = [] then ''UTC'' else j_timezone j)) now occurrence_bound due = Inr oc"
      "open_exec d (j_id j) = None \<or> j_overlap j = ''queue''"
      "enqueue now (j_id j) (if startup then Catchup else Scheduled) None (Some due) d = Inr (i, d1)"
      "d' = set_next_run (j_id j) (oc_next oc) (set_missed i startup due oc d1)"
  | (skipped) oc a where
      "due_occurrences (cron (j_cron j) (if j_timezone j = [] then ''UTC'' else j_timezone j)) now occurrence_bound due = Inr oc"
      "open_exec d (j_id j) = Some a" "j_overlap j \<noteq> ''queue''"
      "d' = set_next_run (j_id j) (oc_next oc) (add_event now (Some (e_id a)) None ''overlap_skipped'' None
              (json_obj [(''from'', JNum due), (''to'', JNum (oc_last oc)), (''count'', JNum (int (oc_count oc)))]) d)"
  using assms unfolding due_job_def
  by (auto split: sum.splits option.splits if_splits)

lemma due_job_quiet:
  assumes "due_job cron now startup j due d = Inr d'"
  shows "quiet d d'"
  using assms
proof (cases rule: due_job_Inr)
  case (admitted oc i d1)
  show ?thesis
    unfolding admitted(4) by (rule quiet_trans [OF enqueue_quiet [OF admitted(3)] quiet_trans [OF set_missed_quiet set_next_run_quiet]])
next
  case (skipped oc a)
  show ?thesis unfolding skipped(4) by (rule quiet_trans [OF quiet_event set_next_run_quiet])
qed

lemma run_jobs_quiet: "quiet d (run_jobs cron now startup js d)"
proof (induction js arbitrary: d)
  case (Cons x js)
  obtain j due where x: "x = (j, due)" by (cases x)
  show ?case
  proof (cases "due_job cron now startup j due d")
    case (Inl e)
    then show ?thesis using quiet_trans [OF quiet_event Cons] by (simp add: x)
  next
    case (Inr d1)
    then show ?thesis using quiet_trans [OF due_job_quiet [OF Inr] Cons] by (simp add: x)
  qed
qed simp

lemma run_due_service:
  assumes "service_inv sv"
  shows "fst (run_due cron now startup sv) = None \<and> service_inv (snd (run_due cron now startup sv))"
  using assms pump_keeps [OF quiet_service [OF assms run_jobs_quiet]] by (simp add: run_due_def)

section \<open>The end of a worker\<close>

lemma distinct_drop_worker: "distinct (map w_pair ws) \<Longrightarrow> distinct (map w_pair (drop_worker i ws))"
  by (induction ws) (auto simp: drop_worker_def)

lemma drop_worker_set [simp]: "set (drop_worker i ws) = {w \<in> set ws. w_pair w \<noteq> i}"
  by (simp add: drop_worker_def)

lemma finish_attempt_total:
  assumes inv: "store_inv d" and gen: "genuine d ctx"
  obtains d' where "finish_attempt now ctx out d = Inr d'"
proof -
  obtain p where p: "find_pair d (x_pair ctx) = Some p" "p_execution p = x_execution ctx"
    using gen by (rule genuine_SomeD)
  obtain e where e: "find_exec d (x_execution ctx) = Some e"
    using pair_has_exec [OF inv, of p] find_pair_SomeD [OF p(1)] p(2) by metis
  let ?d1 = "finish_writes now ctx (retry_granted p ctx out) (final_outcome p out) d"
  have "find_exec ?d1 (x_execution ctx) = Some e" using e by (simp add: find_exec_def)
  then obtain v where "get_execution ?d1 (x_execution ctx) = Inr v" using get_execution_eq by metis
  then have "\<exists>d'. finish_attempt now ctx out d = Inr d'"
    using p(1) by (auto simp: finish_attempt_def Let_def retry_granted_def final_outcome_def split: option.splits)
  with that show ?thesis by blast
qed

lemma record_outcome_service:
  assumes inv: "service_inv sv" and w: "w \<in> set (sv_workers sv)"
  shows "service_inv ((record_outcome now w r disk sv)\<lparr>sv_workers := drop_worker (w_pair w) (sv_workers sv)\<rparr>)"
proof -
  have store: "store_inv (sv_db sv)" and dist: "distinct (map w_pair (sv_workers sv))"
    and ok: "\<And>v. v \<in> set (sv_workers sv) \<Longrightarrow> worker_ok (sv_db sv) v"
    and act: "sv_stopped sv \<or> active_ids (sv_db sv) \<subseteq> w_pair ` set (sv_workers sv)"
    using inv by (auto simp: service_inv_def workers_ok_def)
  have stopped: "service_inv (sv\<lparr>sv_error := er, sv_stopped := True, sv_workers := drop_worker (w_pair w) (sv_workers sv)\<rparr>)" for er
    using store ok distinct_drop_worker [OF dist] by (simp add: service_inv_def workers_ok_def)
  show ?thesis
  proof (cases disk)
    case (Some msg)
    then show ?thesis using stopped by (simp add: record_outcome_def)
  next
    case None
    have gen: "genuine (sv_db sv) (w_context w)" and wp: "w_pair w = x_pair (w_context w)"
      using ok [OF w] by (simp_all add: worker_ok_def)
    obtain d where d: "finish_attempt now (w_context w) (worker_outcome w r) (sv_db sv) = Inr d"
      using finish_attempt_total [OF store gen] .
    have "worker_ok d v" if "v \<in> set (sv_workers sv)" "w_pair v \<noteq> w_pair w" for v
      using worker_ok_frame [OF ok [OF that(1)] finish_attempt_frame [OF store d]] that(2) wp by simp
    then show ?thesis
      using distinct_drop_worker [OF dist] finish_attempt_inv [OF store gen d] finish_attempt_active [OF store ok [OF w] d] act
      by (auto simp: record_outcome_def None d service_inv_def workers_ok_def)
  qed
qed

lemma worker_done_service:
  assumes inv: "service_inv sv"
  shows "fst (worker_done now pair r disk sv) = None \<and> service_inv (snd (worker_done now pair r disk sv))"
proof (cases "List.find (\<lambda>w. w_pair w = pair) (sv_workers sv)")
  case None
  show ?thesis unfolding worker_done_def None using inv by simp
next
  case (Some w)
  from find_key_SomeD [of w_pair pair "sv_workers sv" w] Some have w: "w \<in> set (sv_workers sv)" "w_pair w = pair" by blast+
  have "sv_workers (record_outcome now w r disk sv) = sv_workers sv"
    by (simp add: record_outcome_def split: option.splits sum.splits)
  with record_outcome_service [OF inv w(1), of now r disk] w(2) Some pump_keeps show ?thesis
    by (simp add: worker_done_def Let_def)
qed

section \<open>Cancellation and shutdown\<close>

lemma abort_workers_rows [simp]:
  "map w_pair (abort_workers P r ws) = map w_pair ws" "length (abort_workers P r ws) = length ws"
  "w_pair ` set (abort_workers P r ws) = w_pair ` set ws" "group_load (abort_workers P r ws) g = group_load ws g"
proof -
  show m: "map w_pair (abort_workers P r ws) = map w_pair ws"
    by (simp add: abort_workers_def row_simps)
  then show "w_pair ` set (abort_workers P r ws) = w_pair ` set ws" by (metis list.set_map)
  show "length (abort_workers P r ws) = length ws" by (simp add: abort_workers_def)
  show "group_load (abort_workers P r ws) g = group_load ws g"
    by (induction ws) (simp_all add: abort_workers_def group_load_def)
qed

lemma worker_ok_abort [simp]: "worker_ok d (w\<lparr>w_abort := r\<rparr>) = worker_ok d w"
  by (simp add: worker_ok_def)

lemma abort_workers_ok: "\<forall>w \<in> set ws. worker_ok d w \<Longrightarrow> \<forall>w \<in> set (abort_workers P r ws). worker_ok d w"
  by (auto simp: abort_workers_def in_set_update_where worker_ok_abort)

lemma request_cancellation_quiet:
  assumes "request_cancellation now i actor d = Inr d'"
  shows "quiet d d'"
proof -
  have "source_groups d' = source_groups d"
    using assms by (auto simp: request_cancellation_def Let_def update_pairs_def update_execs_def split: sum.splits if_splits)
  moreover have "attempts d' = attempts d \<and> kept d d'"
    using assms
  proof (cases rule: request_cancellation_cases)
    case (2 e)
    note tables = request_cancellation_tables [OF assms 2]
    have "find_pair d' j = map_option (\<lambda>p. if p_execution p = i then cancelled_pair now p else p) (find_pair d j)" for j
      unfolding find_pair_def tables(2) by (rule find_map_key) simp
    moreover have "find_exec d' j = map_option (\<lambda>e. if e_id e = i then cancelled_exec now (has_active d i) e else e) (find_exec d j)" for j
      unfolding find_exec_def tables(1) by (rule find_map_key) simp
    moreover have "cancelled_pair now p = p" if "is_terminal_pair (p_status p)" for p
      using that by (cases "p_status p") (simp_all add: cancelled_pair_def)
    moreover have "e_id f \<noteq> i" if "find_exec d j = Some f" "is_terminal_exec (e_status f)" for j f
      using that 2 find_exec_SomeD [OF that(1)] by auto
    ultimately show ?thesis by (auto simp: tables(3) kept_def)
  qed simp
  ultimately show ?thesis
    using request_cancellation_inv [OF _ assms] request_cancellation_frame [OF assms] request_cancellation_active [OF assms]
    by (simp add: quiet_def groups_ok_def)
qed

lemma cancel_execution_Inr:
  assumes "cancel_execution now i actor confirmed sv = Inr (err, sv')"
  obtains v d where "is_admin (sv_db sv) actor" "get_execution (sv_db sv) i = Inr v"
    "PRunning \<in> set (map pv_status (ev_pairs v)) \<Longrightarrow> confirmed"
    "request_cancellation now i actor (sv_db sv) = Inr d"
    "(err, sv') = pump now (sv\<lparr>sv_db := d,
       sv_workers := abort_workers (\<lambda>p. p \<in> set (map pv_id (ev_pairs v))) CancelledByAdmin (sv_workers sv)\<rparr>)"
  using assms unfolding cancel_execution_def actor_check_def
  by (auto split: sum.splits option.splits if_splits)

lemma abort_service:
  assumes "service_inv sv"
  shows "service_inv (sv\<lparr>sv_workers := abort_workers P r (sv_workers sv)\<rparr>)"
  using assms abort_workers_ok [of "sv_workers sv" "sv_db sv" P r] by (simp add: service_inv_def workers_ok_def)

lemma cancel_service:
  assumes inv: "service_inv sv" and c: "cancel_execution now i actor confirmed sv = Inr (err, sv')"
  shows "err = None \<and> service_inv sv'"
  using c
proof (rule cancel_execution_Inr)
  fix v d assume req: "request_cancellation now i actor (sv_db sv) = Inr d"
    and p: "(err, sv') = pump now (sv\<lparr>sv_db := d,
       sv_workers := abort_workers (\<lambda>p. p \<in> set (map pv_id (ev_pairs v))) CancelledByAdmin (sv_workers sv)\<rparr>)"
  let ?sv = "sv\<lparr>sv_db := d, sv_workers := abort_workers (\<lambda>p. p \<in> set (map pv_id (ev_pairs v))) CancelledByAdmin (sv_workers sv)\<rparr>"
  have "service_inv ?sv"
    using abort_service [OF quiet_service [OF inv request_cancellation_quiet [OF req]]] by simp
  from pump_keeps [OF this, of now] p show ?thesis by (metis fst_conv snd_conv)
qed

lemma drain_service: "service_inv sv \<Longrightarrow> service_inv (drain sv)"
  using abort_workers_ok [of "sv_workers sv" "sv_db sv" "\<lambda>_. True" ShuttingDown]
  by (simp add: drain_def service_inv_def workers_ok_def)

section \<open>Dispatch and completion keep finished work\<close>

lemma set_wait_kept:
  assumes "find_pair d i = Some p" and "is_ready_status (p_status p)"
  shows "kept d (set_wait i r d)"
proof -
  have "p_id q \<noteq> i" if "find_pair d j = Some q" "is_terminal_pair (p_status q)" for j q
    using that assms find_pair_SomeD [OF that(1)] by auto
  then show ?thesis by (auto simp: kept_def find_pair_set_wait)
qed

lemma start_writes_kept:
  assumes "find_pair d (p_id p) = Some q" "is_ready_status (p_status q)"
    and "find_exec d (p_execution p) = Some e" "is_startable_exec (e_status e)"
  shows "kept d (start_writes now p d)"
proof -
  have "p_id r \<noteq> p_id p" if "find_pair d j = Some r" "is_terminal_pair (p_status r)" for j r
    using that assms(1,2) find_pair_SomeD [OF that(1)] by auto
  moreover have "e_id f \<noteq> p_execution p" if "find_exec d j = Some f" "is_terminal_exec (e_status f)" for j f
    using that assms(3,4) find_exec_SomeD [OF that(1)] startable_not_terminal by auto
  ultimately show ?thesis by (auto simp: kept_def find_pair_start_writes find_exec_start_writes)
qed

lemma pump_one_finished_kept:
  assumes "row_ok (sv_db sv) q"
  shows "kept (sv_db sv) (sv_db (pump_one now limit q sv))"
proof -
  from assms obtain p e where p: "find_pair (sv_db sv) (q_pair q) = Some p" "is_ready_status (p_status p)"
    and e: "find_exec (sv_db sv) (p_execution p) = Some e" "is_startable_exec (e_status e)"
    by (auto simp: row_ok_def)
  note w = set_wait_kept [OF p]
  show ?thesis
    using assms
  proof (cases rule: pump_one_cases [where now = now and limit = limit])
    case (waits r)
    with w show ?thesis by simp
  next
    case (starts p' e' ctx d2)
    have pid: "p_id p' = q_pair q" "p' = p" using starts(2) p find_pair_SomeD [OF p(1)] by simp_all
    have "kept (set_wait (q_pair q) None (sv_db sv)) d2"
      unfolding starts(8) using pid p e
      by (intro start_writes_kept [of _ _ "p\<lparr>p_wait := None\<rparr>" e]) (simp_all add: find_pair_set_wait)
    with kept_trans [OF w] show ?thesis by (simp add: starts(9))
  qed
qed

lemma pump_fold_finished_kept:
  "queue_ok (sv_db sv) qs \<Longrightarrow> kept (sv_db sv) (sv_db (fold (pump_one now limit) qs sv))"
proof (induction qs arbitrary: sv)
  case (Cons q qs)
  from kept_trans [OF pump_one_finished_kept [OF queue_ok_Cons(1) [OF Cons.prems]] Cons.IH [OF queue_ok_pump_one [OF Cons.prems]]]
  show ?case by simp
qed simp

lemma pump_finished_kept:
  assumes "service_inv sv"
  shows "kept (sv_db sv) (sv_db (snd (pump now sv)))"
proof (cases "sv_stopped sv")
  case False
  have "queue_ok (sv_db sv) (ready_pairs (sv_db sv))"
    using assms by (simp add: ready_pairs_ok service_inv_def)
  from pump_fold_finished_kept [OF this] show ?thesis by (simp add: pump_fold_eq [OF assms False])
qed (simp add: pump_def)

lemma finish_attempt_kept:
  assumes inv: "store_inv d" and gen: "genuine d ctx" and fin: "finish_attempt now ctx out d = Inr d'"
  shows "kept d d'"
  using fin
proof (cases rule: finish_attempt_cases)
  case (finished a p v)
  let ?i = "x_execution ctx"
  have pe: "p_execution p = ?i" using gen finished(5) by (auto simp: genuine_def split: option.splits)
  obtain e where e: "find_exec d ?i = Some e"
    using pair_has_exec [OF inv find_pair_ok(1) [OF inv finished(5)]] pe by metis
  have "p_status p \<in> set (map p_status (pairs_of d ?i))"
    unfolding set_map using find_pair_ok(1) [OF inv finished(5)] pe by (intro imageI) simp
  then have live: "\<not> is_terminal_exec (e_status e)"
    using exec_agrees_terminal [OF exec_ok(3) [OF inv e]] finished(6) pair_status_disjoint(3) by blast
  have "find_pair d' j = map_option (\<lambda>q. if p_id q = x_pair ctx
      then finish_pair_row now ctx (retry_granted p ctx out) (final_outcome p out) q else q) (find_pair d j)" for j
    unfolding find_pair_def finished(8) update_execs_tables finish_writes_tables by (rule find_map_key) simp
  moreover have "find_exec d' j = map_option (\<lambda>e. if e_id e = ?i then finish_exec_row now v e else e) (find_exec d j)" for j
    unfolding find_exec_def finished(8) update_execs_tables finish_writes_tables by (rule find_map_key) simp
  moreover have "p_id r \<noteq> x_pair ctx" if "find_pair d j = Some r" "is_terminal_pair (p_status r)" for j r
    using that finished(5,6) find_pair_SomeD [OF that(1)] by auto
  moreover have "e_id f \<noteq> ?i" if "find_exec d j = Some f" "is_terminal_exec (e_status f)" for j f
    using that live e find_exec_SomeD [OF that(1)] by auto
  ultimately show ?thesis by (auto simp: kept_def)
qed simp

lemma record_outcome_kept:
  assumes inv: "service_inv sv" and w: "w \<in> set (sv_workers sv)"
  shows "kept (sv_db sv) (sv_db (record_outcome now w r disk sv))"
proof -
  have "store_inv (sv_db sv)" "genuine (sv_db sv) (w_context w)"
    using inv w by (auto simp: service_inv_def workers_ok_def worker_ok_def)
  then show ?thesis
    using finish_attempt_kept by (auto simp: record_outcome_def split: option.splits sum.splits)
qed

lemma worker_done_kept:
  assumes inv: "service_inv sv"
  shows "kept (sv_db sv) (sv_db (snd (worker_done now pair r disk sv)))"
proof (cases "List.find (\<lambda>w. w_pair w = pair) (sv_workers sv)")
  case None
  show ?thesis unfolding worker_done_def None by simp
next
  case (Some w)
  from find_key_SomeD [of w_pair pair "sv_workers sv" w] Some have w: "w \<in> set (sv_workers sv)" "w_pair w = pair" by blast+
  have ws: "sv_workers (record_outcome now w r disk sv) = sv_workers sv"
    by (simp add: record_outcome_def split: option.splits sum.splits)
  note k = record_outcome_kept [OF inv w(1), of now r disk]
  note p = pump_finished_kept [OF record_outcome_service [OF inv w(1), of now r disk], of now]
  show ?thesis
    using kept_trans [OF k] p by (simp add: worker_done_def Some Let_def ws w(2))
qed

end
