(* ===== verification/Reachability.thy ===== *)
theory Reachability
  imports Service_Steps
begin

text \<open>
  Recovery after a stop, and the reachable states of the service: a boot from any well-formed
  database, then any interleaving of the operations, of the ends of workers, of the writes of
  other modules, and of crashes followed by a boot.
\<close>

section \<open>Recovery\<close>

definition live :: "db \<Rightarrow> pair_context \<Rightarrow> bool" where
  "live d c \<longleftrightarrow> genuine d c \<and> (\<exists>a. find_attempt d (x_attempt c) = Some a \<and> a_status a = ARunning)"

lemma live_worker:
  assumes "live d c"
  obtains w where "w_context w = c" "w_pair w = x_pair c" "worker_ok d w"
proof -
  from assms have "genuine d c" by (simp add: live_def)
  then obtain p where p: "find_pair d (x_pair c) = Some p" by (rule genuine_SomeD)
  let ?w = "\<lparr>w_pair = x_pair c, w_group = p_group p, w_context = c, w_abort = None\<rparr>"
  have "worker_ok d ?w" using assms p by (simp add: live_def worker_ok_def)
  then show ?thesis using that [of ?w] by simp
qed

lemma worker_ok_live: "worker_ok d w \<Longrightarrow> live d (w_context w)"
  by (simp add: worker_ok_def live_def)

lemma live_frame: "live d c \<Longrightarrow> frame X d d' \<Longrightarrow> x_pair c \<notin> X \<Longrightarrow> live d' c"
  by (metis live_worker worker_ok_frame worker_ok_live)

lemma finish_live_active:
  assumes "store_inv d" and "live d c" and "finish_attempt now c out d = Inr d'"
  shows "active_ids d' = active_ids d - {x_pair c}"
  using live_worker [OF assms(2)] finish_attempt_active [OF assms(1)] assms(3) by metis

lemma finish_attempt_groups: "finish_attempt now c out d = Inr d' \<Longrightarrow> source_groups d' = source_groups d"
  by (auto simp: finish_attempt_def finish_writes_def Let_def update_pairs_def update_execs_def update_attempts_def add_event_def
      split: option.splits if_splits sum.splits)

lemma close_attempts_total:
  assumes "store_inv d" and "\<forall>(c, a) \<in> set rows. live d c" and "distinct (map (\<lambda>(c, a). x_pair c) rows)"
  shows "\<exists>d'. close_attempts now rows d = Inr d' \<and> store_inv d' \<and> source_groups d' = source_groups d
     \<and> active_ids d' = active_ids d - (\<lambda>(c, a). x_pair c) ` set rows"
  using assms
proof (induction rows arbitrary: d)
  case (Cons r rows)
  obtain c a where r: "r = (c, a)" by (cases r)
  have lv: "live d c" and gen: "genuine d c" using Cons.prems(2) by (simp_all add: r live_def)
  obtain d1 where d1: "finish_attempt now c (recovered_outcome d a) d = Inr d1"
    using finish_attempt_total [OF Cons.prems(1) gen] .
  note fr = finish_attempt_frame [OF Cons.prems(1) d1]
  have "live d1 c'" if "(c', a') \<in> set rows" for c' a'
  proof (rule live_frame [OF _ fr])
    show "live d c'" using Cons.prems(2) that by auto
    have "x_pair c \<notin> (\<lambda>(c, a). x_pair c) ` set rows" using Cons.prems(3) by (simp add: r)
    with that show "x_pair c' \<notin> {x_pair c}" by (auto simp: image_iff)
  qed
  then have "\<forall>(c', a') \<in> set rows. live d1 c'" by auto
  from Cons.IH [OF finish_attempt_inv [OF Cons.prems(1) gen d1] this] Cons.prems(3)
  obtain d' where "close_attempts now rows d1 = Inr d'" "store_inv d'" "source_groups d' = source_groups d1"
    "active_ids d' = active_ids d1 - (\<lambda>(c, a). x_pair c) ` set rows" by (auto simp: r)
  then show ?case
    using d1 finish_live_active [OF Cons.prems(1) lv d1] finish_attempt_groups [OF d1] by (auto simp: r)
qed simp

text \<open>The rows of \<open>recover\<close>'s query: one for each active pair, with its running attempt.\<close>

lemma attempt_context_live:
  assumes inv: "store_inv d" and a: "a \<in> set (attempts d)" "a_status a = ARunning" and c: "attempt_context d a = Some c"
  shows "live d c" "x_pair c = a_pair a" "x_attempt c = a_id a"
proof -
  from c obtain p e where p: "find_pair d (a_pair a) = Some p" and e: "find_exec d (p_execution p) = Some e"
    and c': "c = context_of p e (a_id a) (a_number a)"
    by (auto simp: attempt_context_def split: option.splits)
  note pid = find_pair_SomeD [OF p]
  have "find_attempt d (a_id a) = Some a"
    using find_key_unique [OF store_inv_keys(4) [OF inv] a(1)] by (simp add: find_attempt_def)
  with p pid a(2) show "live d c" "x_pair c = a_pair a" "x_attempt c = a_id a"
    by (simp_all add: c' live_def genuine_def context_of_def)
qed

lemma attempt_has_context:
  assumes inv: "store_inv d" and a: "a \<in> set (attempts d)"
  obtains c where "attempt_context d a = Some c"
proof -
  have "a_pair a \<in> p_id ` set (pairs d)" using store_inv_keys(5) [OF inv] a by auto
  then obtain p where p: "p \<in> set (pairs d)" "p_id p = a_pair a" by auto
  from pair_has_exec [OF inv p(1)] obtain e where "find_exec d (p_execution p) = Some e" .
  with find_pair_in [OF inv p(1)] p(2) that show ?thesis by (simp add: attempt_context_def)
qed

lemma running_unique:
  assumes inv: "store_inv d" and a: "a \<in> set (attempts d)" "a_status a = ARunning"
    and b: "b \<in> set (attempts d)" "a_status b = ARunning" and eq: "a_pair a = a_pair b"
  shows "a = b"
proof -
  have "a_pair a \<in> p_id ` set (pairs d)" using store_inv_keys(5) [OF inv] a by auto
  then obtain p where p: "p \<in> set (pairs d)" "p_id p = a_pair a" by auto
  note ok = find_pair_ok(3) [OF inv find_pair_in [OF inv p(1)]]
  from attempts_ok_running_last [OF ok, of a] attempts_ok_running_last [OF ok, of b] a b eq p(2)
  show ?thesis by simp
qed

lemma running_rows_set:
  assumes inv: "store_inv d"
  shows "(c, a) \<in> set (running_rows d) \<longleftrightarrow> a \<in> set (attempts d) \<and> a_status a = ARunning \<and> attempt_context d a = Some c"
  by (auto simp: running_rows_def split: option.splits)

lemma running_rows_distinct:
  assumes inv: "store_inv d"
  shows "distinct (map (\<lambda>(c, a). x_pair c) (running_rows d))"
proof -
  let ?row = "\<lambda>a. if a_status a = ARunning then (case attempt_context d a of None \<Rightarrow> [] | Some c \<Rightarrow> [(c, a)]) else []"
  have pairs: "map (\<lambda>(c, a). x_pair c) (concat (map ?row as)) = map a_pair (filter (\<lambda>a. a_status a = ARunning) as)"
    if "set as \<subseteq> set (attempts d)" for as
    using that
  proof (induction as)
    case (Cons a as)
    from Cons.prems obtain c where c: "attempt_context d a = Some c"
      using attempt_has_context [OF inv] by auto
    with attempt_context_live(2) [OF inv _ _ c] Cons show ?case by auto
  qed simp
  have "distinct (map a_pair (filter (\<lambda>a. a_status a = ARunning) (attempts d)))"
    using store_inv_keys(4) [OF inv] running_unique [OF inv]
    by (auto simp: distinct_map intro!: inj_onI)
  then show ?thesis using pairs [of "attempts d"] by (simp add: running_rows_def)
qed

lemma active_has_row:
  assumes inv: "store_inv d" and i: "i \<in> active_ids d"
  shows "i \<in> (\<lambda>(c, a). x_pair c) ` set (running_rows d)"
proof -
  from i obtain p where p: "find_pair d i = Some p" "is_active_status (p_status p)"
    unfolding active_ids_iff [OF inv] by blast
  let ?a = "last (attempts_of d i)"
  have "attempts_of d i \<noteq> []" "a_status ?a = ARunning"
    using find_pair_ok(3) [OF inv p(1)] p(2) by (simp_all add: attempts_ok_def)
  then have a: "?a \<in> set (attempts d)" "a_pair ?a = i" "a_status ?a = ARunning"
    using last_in_set [of "attempts_of d i"] by auto
  obtain c where c: "attempt_context d ?a = Some c" using attempt_has_context [OF inv a(1)] .
  have "(c, ?a) \<in> set (running_rows d)" using a c by (simp add: running_rows_set [OF inv])
  moreover have "x_pair c = i" using attempt_context_live(2) [OF inv a(1,3) c] a(2) by simp
  ultimately show ?thesis by force
qed

lemma regroup_quiet:
  "(store_inv d \<longrightarrow> store_inv (regroup ps d)) \<and> (groups_ok d \<longrightarrow> groups_ok (regroup ps d))"
proof (induction ps arbitrary: d)
  case (Cons p ps)
  obtain g d1 where g: "source_group (p_connection p) d = (g, d1)" by (cases "source_group (p_connection p) d")
  let ?d2 = "update_pairs (\<lambda>q. p_id q = p_id p) (\<lambda>q. q\<lparr>p_group := g\<rparr>) d1"
  have "store_inv d \<Longrightarrow> store_inv ?d2"
    using same_queue_inv [OF source_group_same [OF g]] by (intro pairs_update_inv) simp_all
  moreover have "groups_ok d \<Longrightarrow> groups_ok ?d2"
    using source_group_groups [OF g] by (simp add: groups_ok_def update_pairs_def)
  ultimately show ?case using Cons [of ?d2] by (simp add: g)
qed simp

lemma recover_total:
  assumes "store_inv d" and "groups_ok d"
  shows "\<exists>d'. recover now d = Inr d' \<and> store_inv d' \<and> groups_ok d' \<and> active_ids d' = {}"
proof -
  let ?d1 = "regroup (legacy_pairs d) d"
  have inv: "store_inv ?d1" and g: "groups_ok ?d1" using regroup_quiet assms by blast+
  have "\<forall>(c, a) \<in> set (running_rows ?d1). live ?d1 c"
    using running_rows_set [OF inv] attempt_context_live(1) [OF inv] by auto
  from close_attempts_total [OF inv this running_rows_distinct [OF inv], of now]
  obtain d' where d': "close_attempts now (running_rows ?d1) ?d1 = Inr d'" "store_inv d'" "source_groups d' = source_groups ?d1"
    and act: "active_ids d' = active_ids ?d1 - (\<lambda>(c, a). x_pair c) ` set (running_rows ?d1)" by blast
  have "active_ids d' = {}" unfolding act using active_has_row [OF inv] by blast
  moreover have "recover now d = Inr d'" using d'(1) by (simp add: recover_def Let_def)
  moreover have "groups_ok d'" using g groups_ok_same [OF d'(3)] by simp
  ultimately show ?thesis using d'(2) by blast
qed

lemma no_active_no_running:
  assumes inv: "store_inv d" and "active_ids d = {}" and a: "a \<in> set (attempts d)"
  shows "a_status a \<noteq> ARunning"
proof
  assume run: "a_status a = ARunning"
  from attempt_has_context [OF inv a] obtain c where c: "attempt_context d a = Some c" .
  from live_worker [OF attempt_context_live(1) [OF inv a run c]] obtain w where "worker_ok d w" .
  from worker_in_active [OF inv this] assms(2) show False by simp
qed

text \<open>Recovery always completes on a well-formed queue, whatever state the process was stopped in: the
  queue is well formed afterwards, no attempt is recorded as running and no pair as active.\<close>

theorem recovery_completes:
  assumes "store_inv d" and "groups_ok d"
  shows "\<exists>d'. recover now d = Inr d' \<and> store_inv d' \<and> (\<forall>a \<in> set (attempts d'). a_status a \<noteq> ARunning)
     \<and> (\<forall>p \<in> set (pairs d'). \<not> is_active_status (p_status p))"
proof -
  from recover_total [OF assms] obtain d' where d': "recover now d = Inr d'" "store_inv d'" "active_ids d' = {}" by blast
  have "\<forall>a \<in> set (attempts d'). a_status a \<noteq> ARunning"
    using no_active_no_running [OF d'(2,3)] by blast
  moreover have "\<forall>p \<in> set (pairs d'). \<not> is_active_status (p_status p)"
    using d'(3) by (auto simp: active_ids_def)
  ultimately show ?thesis using d' by blast
qed

section \<open>Steps\<close>

inductive service_step :: "(string \<Rightarrow> string \<Rightarrow> time \<Rightarrow> time result) \<Rightarrow> service \<Rightarrow> service \<Rightarrow> bool"
  for cron where
  dispatch: "service_step cron sv (snd (pump now sv))"
| worker_end: "service_step cron sv (snd (worker_done now pair r disk sv))"
| cancelled: "cancel_execution now i actor confirmed sv = Inr (err, sv') \<Longrightarrow> service_step cron sv sv'"
| shutdown: "service_step cron sv (drain sv)"
| schedules: "service_step cron sv (snd (run_due cron now startup sv))"
| enqueued: "enqueue now job trig actor sched (sv_db sv) = Inr (i, d) \<Longrightarrow> service_step cron sv (sv\<lparr>sv_db := d\<rparr>)"
| retried: "retry_execution now i sels actor (sv_db sv) = Inr (k, d) \<Longrightarrow> service_step cron sv (sv\<lparr>sv_db := d\<rparr>)"
| retried_run: "retry_historical now run actor (sv_db sv) = Inr (k, d) \<Longrightarrow> service_step cron sv (sv\<lparr>sv_db := d\<rparr>)"
| prioritized: "prioritize now i prio actor (sv_db sv) = Inr d \<Longrightarrow> service_step cron sv (sv\<lparr>sv_db := d\<rparr>)"
| configured: "configure limit actor (sv_db sv) = Inr d \<Longrightarrow> service_step cron sv (sv\<lparr>sv_db := d\<rparr>)"
| grouped: "assign_group now ids g nm n actor (sv_db sv) = Inr d \<Longrightarrow> service_step cron sv (sv\<lparr>sv_db := d\<rparr>)"
| others: "elsewhere (sv_db sv) d \<Longrightarrow> service_step cron sv (sv\<lparr>sv_db := d\<rparr>)"

inductive_cases service_stepE: "service_step cron sv sv'"

text \<open>The seven steps that only write the database are quiet.\<close>

lemma service_step_kinds:
  assumes "service_step cron sv sv'"
  obtains (dispatch) now where "sv' = snd (pump now sv)"
  | (worker_end) now pair r disk where "sv' = snd (worker_done now pair r disk sv)"
  | (cancelled) now i actor confirmed err where "cancel_execution now i actor confirmed sv = Inr (err, sv')"
  | (shutdown) "sv' = drain sv"
  | (schedules) now startup where "sv' = snd (run_due cron now startup sv)"
  | (quiet) d where "quiet (sv_db sv) d" "sv' = sv\<lparr>sv_db := d\<rparr>"
  using assms
proof (rule service_stepE)
  fix now job trig actor sched i d
  assume "sv' = sv\<lparr>sv_db := d\<rparr>" "enqueue now job trig actor sched (sv_db sv) = Inr (i, d)"
  then show thesis by (intro quiet enqueue_quiet)
next
  fix now i sels actor k d
  assume "sv' = sv\<lparr>sv_db := d\<rparr>" "retry_execution now i sels actor (sv_db sv) = Inr (k, d)"
  then show thesis by (intro quiet retry_execution_quiet)
next
  fix now run actor k d
  assume "sv' = sv\<lparr>sv_db := d\<rparr>" "retry_historical now run actor (sv_db sv) = Inr (k, d)"
  then show thesis by (intro quiet retry_historical_quiet)
next
  fix now i prio actor d
  assume "sv' = sv\<lparr>sv_db := d\<rparr>" "prioritize now i prio actor (sv_db sv) = Inr d"
  then show thesis by (intro quiet prioritize_quiet)
next
  fix limit actor d
  assume "sv' = sv\<lparr>sv_db := d\<rparr>" "configure limit actor (sv_db sv) = Inr d"
  then show thesis by (intro quiet configure_quiet)
next
  fix now ids g nm n actor d
  assume "sv' = sv\<lparr>sv_db := d\<rparr>" "assign_group now ids g nm n actor (sv_db sv) = Inr d"
  then show thesis by (intro quiet assign_group_quiet)
next
  fix d assume "sv' = sv\<lparr>sv_db := d\<rparr>" "elsewhere (sv_db sv) d"
  then show thesis by (intro quiet elsewhere_quiet)
qed (blast intro: dispatch worker_end cancelled shutdown schedules)+

text \<open>A boot from a well-formed database, steps, and crashes: a restart keeps only the database.\<close>

inductive reachable :: "(string \<Rightarrow> string \<Rightarrow> time \<Rightarrow> time result) \<Rightarrow> service \<Rightarrow> bool" for cron where
  boot: "store_inv d \<Longrightarrow> groups_ok d \<Longrightarrow> bootstrap cron now d = Inr (None, sv) \<Longrightarrow> reachable cron sv"
| step: "reachable cron sv \<Longrightarrow> service_step cron sv sv' \<Longrightarrow> reachable cron sv'"
| restart: "reachable cron sv \<Longrightarrow> bootstrap cron now (sv_db sv) = Inr (None, sv') \<Longrightarrow> reachable cron sv'"

section \<open>The invariant of reachable states\<close>

definition service_ok :: "service \<Rightarrow> bool" where
  "service_ok sv \<longleftrightarrow> service_inv sv \<and> groups_ok (sv_db sv) \<and> length (sv_workers sv) \<le> 32
     \<and> (\<forall>g. group_load (sv_workers sv) g \<le> 8)"

lemma concurrency_limit_bounds: "1 \<le> concurrency_limit d" "concurrency_limit d \<le> 32"
  by (simp_all add: concurrency_limit_def)

lemma group_limit_bound:
  assumes "groups_ok d"
  shows "group_limit d limit g \<le> 8"
proof (cases "find_group d g")
  case (Some r)
  then have "r \<in> set (source_groups d)" using find_SomeD unfolding find_group_def by fast
  with assms Some show ?thesis by (auto simp: groups_ok_def group_limit_def)
qed (simp add: group_limit_def)

lemma pump_groups:
  assumes "service_inv sv"
  shows "source_groups (sv_db (snd (pump now sv))) = source_groups (sv_db sv)"
  using pump_pumped [OF assms, of now] by (cases "sv_stopped sv") (simp_all add: pump_def pumped_def)

lemma pump_service_ok:
  assumes "service_ok sv"
  shows "service_ok (snd (pump now sv))"
proof -
  have inv: "service_inv sv" and g: "groups_ok (sv_db sv)" and n: "length (sv_workers sv) \<le> 32"
    and l: "\<And>g. group_load (sv_workers sv) g \<le> 8" using assms by (simp_all add: service_ok_def)
  have "int (length (sv_workers (snd (pump now sv)))) \<le> 32"
    using conjunct1 [OF pump_limits [OF inv, of now]] concurrency_limit_bounds(2) [of "sv_db sv"] n by linarith
  moreover have "group_load (sv_workers (snd (pump now sv))) h \<le> 8" for h
    using pump_limits [OF inv, of now h] group_limit_bound [OF g, of _ h] l [of h] by (meson max.boundedI order_trans)
  ultimately show ?thesis
    using pump_keeps [OF inv] groups_ok_same [OF pump_groups [OF inv]] g by (simp add: service_ok_def)
qed

lemma quiet_service_ok: "service_ok sv \<Longrightarrow> quiet (sv_db sv) d \<Longrightarrow> service_ok (sv\<lparr>sv_db := d\<rparr>)"
  using quiet_service [of sv d] by (simp add: service_ok_def quiet_def)

lemma drop_worker_load: "length (drop_worker i ws) \<le> length ws" "group_load (drop_worker i ws) g \<le> group_load ws g"
proof -
  show "length (drop_worker i ws) \<le> length ws" by (simp add: drop_worker_def)
  show "group_load (drop_worker i ws) g \<le> group_load ws g"
    by (induction ws) (auto simp: drop_worker_def group_load_def)
qed

lemma record_outcome_rows [simp]:
  "sv_workers (record_outcome now w r disk sv) = sv_workers sv"
  "source_groups (sv_db (record_outcome now w r disk sv)) = source_groups (sv_db sv)"
  using finish_attempt_groups by (auto simp: record_outcome_def split: option.splits sum.splits)

lemma worker_done_service_ok:
  assumes ok: "service_ok sv"
  shows "service_ok (snd (worker_done now pair r disk sv))"
proof (cases "List.find (\<lambda>w. w_pair w = pair) (sv_workers sv)")
  case None
  show ?thesis unfolding worker_done_def None using ok by simp
next
  case (Some w)
  from find_key_SomeD [of w_pair pair "sv_workers sv" w] Some have w: "w \<in> set (sv_workers sv)" "w_pair w = pair" by blast+
  let ?sv = "(record_outcome now w r disk sv)\<lparr>sv_workers := drop_worker pair (sv_workers sv)\<rparr>"
  have "service_inv ?sv"
    using record_outcome_service [OF _ w(1), of now r disk] ok w(2) by (simp add: service_ok_def)
  moreover have "length (drop_worker pair (sv_workers sv)) \<le> 32"
    using drop_worker_load(1) [of pair "sv_workers sv"] ok by (simp add: service_ok_def)
  moreover have "group_load (drop_worker pair (sv_workers sv)) g \<le> 8" for g
    using order_trans [OF drop_worker_load(2)] ok unfolding service_ok_def by blast
  ultimately have "service_ok ?sv" using ok by (simp add: service_ok_def groups_ok_def)
  from pump_service_ok [OF this] show ?thesis by (simp add: worker_done_def Some Let_def)
qed

lemma cancel_service_ok:
  assumes ok: "service_ok sv" and c: "cancel_execution now i actor confirmed sv = Inr (err, sv')"
  shows "service_ok sv'"
  using c
proof (rule cancel_execution_Inr)
  fix v d assume req: "request_cancellation now i actor (sv_db sv) = Inr d"
    and p: "(err, sv') = pump now (sv\<lparr>sv_db := d,
       sv_workers := abort_workers (\<lambda>p. p \<in> set (map pv_id (ev_pairs v))) CancelledByAdmin (sv_workers sv)\<rparr>)"
  let ?sv = "sv\<lparr>sv_db := d, sv_workers := abort_workers (\<lambda>p. p \<in> set (map pv_id (ev_pairs v))) CancelledByAdmin (sv_workers sv)\<rparr>"
  have q: "service_ok (sv\<lparr>sv_db := d\<rparr>)" by (rule quiet_service_ok [OF ok request_cancellation_quiet [OF req]])
  then have "service_ok ?sv"
    using abort_service [of "sv\<lparr>sv_db := d\<rparr>" "\<lambda>p. p \<in> set (map pv_id (ev_pairs v))" CancelledByAdmin]
    by (simp add: service_ok_def)
  from pump_service_ok [OF this, of now] p show ?thesis by (metis snd_conv)
qed

lemma run_due_service_ok: "service_ok sv \<Longrightarrow> service_ok (snd (run_due cron now startup sv))"
  using pump_service_ok [OF quiet_service_ok [OF _ run_jobs_quiet]] by (simp add: run_due_def)

lemma service_step_ok:
  assumes "service_step cron sv sv'" and ok: "service_ok sv"
  shows "service_ok sv'"
  using assms(1)
proof (cases rule: service_step_kinds)
  case dispatch
  with pump_service_ok [OF ok] show ?thesis by simp
next
  case worker_end
  with worker_done_service_ok [OF ok] show ?thesis by simp
next
  case cancelled
  then show ?thesis using cancel_service_ok [OF ok] by blast
next
  case shutdown
  then show ?thesis using ok drain_service [of sv] by (simp add: service_ok_def) (simp add: drain_def)
next
  case schedules
  with run_due_service_ok [OF ok] show ?thesis by simp
next
  case (quiet d)
  with quiet_service_ok [OF ok] show ?thesis by simp
qed

lemma init_service_ok:
  assumes "store_inv d" and "groups_ok d" and "active_ids d = {}"
  shows "service_ok (init_service d)"
  using assms by (simp add: service_ok_def init_service_def service_inv_def workers_ok_def group_load_def)

lemma bootstrap_ok:
  assumes "store_inv d" and "groups_ok d"
  shows "\<exists>sv. bootstrap cron now d = Inr (None, sv) \<and> service_ok sv"
proof -
  obtain d1 where d1: "recover now d = Inr d1" "store_inv d1" "groups_ok d1" "active_ids d1 = {}"
    using recover_total [OF assms] by blast
  note ok = init_service_ok [OF d1(2-4)]
  note run = run_due_service_ok [OF ok, of cron now True]
  have inv: "service_inv (init_service d1)" using ok by (simp add: service_ok_def)
  obtain sv where sv: "run_due cron now True (init_service d1) = (None, sv)"
    using run_due_service [OF inv, of cron now True] by (cases "run_due cron now True (init_service d1)") auto
  have "service_ok sv" using run sv by simp
  then have "service_ok (snd (pump now sv))" "fst (pump now sv) = None"
    using pump_service_ok pump_keeps by (auto simp: service_ok_def)
  then show ?thesis using d1(1) sv by (cases "pump now sv") (simp add: bootstrap_def)
qed

lemma reachable_ok: "reachable cron sv \<Longrightarrow> service_ok sv"
proof (induction rule: reachable.induct)
  case (boot d now sv)
  with bootstrap_ok [of d cron now] show ?case by auto
next
  case (step sv sv')
  with service_step_ok show ?case by blast
next
  case (restart sv now sv')
  then show ?case using bootstrap_ok [of "sv_db sv" cron now] by (auto simp: service_ok_def service_inv_def)
qed

section \<open>Properties of reachable states\<close>

text \<open>C15: In every reachable state of the service the queue is well formed, every worker runs the one
  running attempt of its pair in a group that is the pair's, no pair has two workers, and, unless the
  service is stopping, every active pair has its worker. At most 32 workers run, at most 8 of one source.\<close>

theorem reachable_service_invariant:
  assumes "reachable cron sv"
  shows "service_inv sv \<and> length (sv_workers sv) \<le> 32 \<and> group_load (sv_workers sv) g \<le> 8"
  using reachable_ok [OF assms] by (simp add: service_ok_def)

text \<open>Startup always succeeds on a well-formed queue: recovery, the missed schedules and the first
  dispatch complete without an exception, for any database a crash may have left.\<close>

theorem startup_succeeds:
  assumes "reachable cron sv"
  shows "\<exists>sv'. bootstrap cron now (sv_db sv) = Inr (None, sv') \<and> reachable cron sv'"
proof -
  have "store_inv (sv_db sv)" "groups_ok (sv_db sv)"
    using reachable_ok [OF assms] by (simp_all add: service_ok_def service_inv_def)
  then obtain sv' where "bootstrap cron now (sv_db sv) = Inr (None, sv')" using bootstrap_ok by blast
  with reachable.restart [OF assms] show ?thesis by blast
qed

lemma service_step_kept:
  assumes ok: "service_ok sv" and st: "service_step cron sv sv'"
  shows "kept (sv_db sv) (sv_db sv')"
proof -
  have inv: "service_inv sv" using ok by (simp add: service_ok_def)
  from st show ?thesis
  proof (cases rule: service_step_kinds)
    case dispatch
    with pump_finished_kept [OF inv] show ?thesis by simp
  next
    case worker_end
    with worker_done_kept [OF inv] show ?thesis by simp
  next
    case (cancelled now i actor confirmed err)
    from cancelled show ?thesis
    proof (rule cancel_execution_Inr)
      fix v d assume req: "request_cancellation now i actor (sv_db sv) = Inr d"
        and p: "(err, sv') = pump now (sv\<lparr>sv_db := d,
           sv_workers := abort_workers (\<lambda>p. p \<in> set (map pv_id (ev_pairs v))) CancelledByAdmin (sv_workers sv)\<rparr>)"
      let ?P = "\<lambda>p. p \<in> set (map pv_id (ev_pairs v))"
      let ?sv = "sv\<lparr>sv_db := d, sv_workers := abort_workers ?P CancelledByAdmin (sv_workers sv)\<rparr>"
      note q = request_cancellation_quiet [OF req]
      have "service_inv ?sv" using abort_service [OF quiet_service [OF inv q], of ?P CancelledByAdmin] by simp
      from pump_finished_kept [OF this, of now] p have "kept d (sv_db sv')" by (metis service.select_convs(1) service.surjective service.update_convs(1,2) snd_conv)
      with q kept_trans show ?thesis by (auto simp: quiet_def)
    qed
  next
    case shutdown
    then show ?thesis by (simp add: drain_def)
  next
    case (schedules now startup)
    let ?d = "run_jobs cron now startup (due_jobs now (sv_db sv)) (sv_db sv)"
    have q: "quiet (sv_db sv) ?d" by (rule run_jobs_quiet)
    from pump_finished_kept [OF quiet_service [OF inv q], of now] q kept_trans schedules
    show ?thesis by (auto simp: run_due_def quiet_def)
  qed (simp add: quiet_def)
qed

text \<open>C18: Finished work is immutable: whatever the service does next, the row of a pair that has ended stays as
  it is, and an execution that has ended keeps its status and its finish time.\<close>

theorem finished_work_is_immutable:
  assumes "reachable cron sv" and "service_step cron sv sv'"
  shows "(\<forall>i p. find_pair (sv_db sv) i = Some p \<longrightarrow> is_terminal_pair (p_status p) \<longrightarrow> find_pair (sv_db sv') i = Some p)
    \<and> (\<forall>i e. find_exec (sv_db sv) i = Some e \<longrightarrow> is_terminal_exec (e_status e) \<longrightarrow>
         (\<exists>e'. find_exec (sv_db sv') i = Some e' \<and> e_status e' = e_status e \<and> e_finished e' = e_finished e))"
  using service_step_kept [OF reachable_ok [OF assms(1)] assms(2)] by (simp add: kept_def)

text \<open>An execution is over exactly when all its pairs are: in every reachable state its status is
  terminal, and its finish time is set, if and only if the status of each of its pairs is terminal.\<close>

theorem execution_ends_with_its_pairs:
  assumes "reachable cron sv" and "find_exec (sv_db sv) i = Some e"
  shows "(is_terminal_exec (e_status e) \<longleftrightarrow> (\<forall>p \<in> set (pairs_of (sv_db sv) i). is_terminal_pair (p_status p)))
    \<and> (e_finished e \<noteq> None \<longleftrightarrow> is_terminal_exec (e_status e))"
proof -
  have inv: "store_inv (sv_db sv)" using reachable_ok [OF assms(1)] by (simp add: service_ok_def service_inv_def)
  note ok = exec_ok [OF inv assms(2)]
  show ?thesis using exec_agrees_terminal [OF ok(3)] ok(4) unfolding set_map by blast
qed

text \<open>Retries are bounded: in every reachable state a pair has been attempted at most once more than the
  retry count of the configuration it was queued with, its attempts are numbered 1, 2, ... and at most
  the last of them is running, which it is exactly while the pair is running or being cancelled.\<close>

theorem retries_are_bounded:
  assumes "reachable cron sv" and "find_pair (sv_db sv) i = Some p"
  shows "int (length (attempts_of (sv_db sv) i)) \<le> max 0 (s_retry_count (p_snapshot p)) + 1
    \<and> map a_number (attempts_of (sv_db sv) i) = map int [1..<Suc (length (attempts_of (sv_db sv) i))]
    \<and> (\<forall>a \<in> set (butlast (attempts_of (sv_db sv) i)). a_status a \<noteq> ARunning)
    \<and> (is_active_status (p_status p) \<longleftrightarrow> attempts_of (sv_db sv) i \<noteq> [] \<and> a_status (last (attempts_of (sv_db sv) i)) = ARunning)"
proof -
  have inv: "store_inv (sv_db sv)" using reachable_ok [OF assms(1)] by (simp add: service_ok_def service_inv_def)
  note ok = find_pair_ok(3) [OF inv assms(2)]
  have "int (length (attempts_of (sv_db sv) i)) \<le> max 0 (s_retry_count (p_snapshot p)) + 1"
    using ok by (auto simp: attempts_ok_def attempt_budget_def split: if_splits)
  with ok show ?thesis unfolding attempts_ok_def by blast
qed

lemma pump_stopped: "sv_stopped sv \<Longrightarrow> snd (pump now sv) = sv"
  by (simp add: pump_def)

lemma finish_attempt_ids:
  assumes "finish_attempt now c out d = Inr d'"
  shows "map a_id (attempts d') = map a_id (attempts d)"
  using assms by (cases rule: finish_attempt_cases) (simp_all add: row_simps)

lemma record_outcome_stopped:
  "sv_stopped sv \<Longrightarrow> sv_stopped (record_outcome now w r disk sv)"
  "map a_id (attempts (sv_db (record_outcome now w r disk sv))) = map a_id (attempts (sv_db sv))"
  using finish_attempt_ids by (auto simp: record_outcome_def split: option.splits sum.splits)

text \<open>A coordinator that is stopping, at shutdown or after an outcome could not be written, starts nothing:
  it stays stopped, no attempt is added to the database and no worker to the workers.\<close>

theorem stopped_service_starts_nothing:
  assumes stop: "sv_stopped sv" and st: "service_step cron sv sv'"
  shows "sv_stopped sv' \<and> map a_id (attempts (sv_db sv')) = map a_id (attempts (sv_db sv))
    \<and> w_pair ` set (sv_workers sv') \<subseteq> w_pair ` set (sv_workers sv)"
  using st
proof (cases rule: service_step_kinds)
  case dispatch
  with stop show ?thesis by (simp add: pump_stopped)
next
  case (worker_end now pair r disk)
  show ?thesis
  proof (cases "List.find (\<lambda>w. w_pair w = pair) (sv_workers sv)")
    case None
    show ?thesis using stop unfolding worker_end worker_done_def None by simp
  next
    case (Some w)
    then show ?thesis
      using record_outcome_stopped [where sv = sv and now = now and w = w and r = r and disk = disk] stop by (auto simp: worker_end worker_done_def Let_def pump_stopped)
  qed
next
  case (cancelled now i actor confirmed err)
  from cancelled show ?thesis
  proof (rule cancel_execution_Inr)
    fix v d assume req: "request_cancellation now i actor (sv_db sv) = Inr d"
      and p: "(err, sv') = pump now (sv\<lparr>sv_db := d,
         sv_workers := abort_workers (\<lambda>p. p \<in> set (map pv_id (ev_pairs v))) CancelledByAdmin (sv_workers sv)\<rparr>)"
    have "sv' = sv\<lparr>sv_db := d,
         sv_workers := abort_workers (\<lambda>p. p \<in> set (map pv_id (ev_pairs v))) CancelledByAdmin (sv_workers sv)\<rparr>"
      using p stop by (simp add: pump_def)
    then show ?thesis using request_cancellation_quiet [OF req] stop by (simp add: quiet_def)
  qed
next
  case shutdown
  then show ?thesis by (simp add: drain_def)
next
  case schedules
  with stop show ?thesis by (simp add: run_due_def)
qed (use stop in \<open>simp add: quiet_def\<close>)

end
