(* ===== verification/Sample.thy ===== *)
theory Sample
  imports Reachability
begin

text \<open>
  A concrete installation, on which the properties with hypotheses are applied: one
  administrator, two sources on two servers, two destinations, and a schedule that backs up
  both sources to both destinations with two retries.
\<close>

section \<open>The installation\<close>

definition sample_connection :: "id \<Rightarrow> string \<Rightarrow> connection_row" where
  "sample_connection i host = \<lparr>c_id = i, c_name = i, c_engine = ''mysql'', c_host = host, c_port = 6,
     c_database_name = ''shop'', c_names = Absent, c_purpose = ''backup'', c_group = None\<rparr>"

definition sample_job :: job_row where
  "sample_job = \<lparr>j_id = ''job'', j_name = ''Nightly'', j_connection = ''a'', j_target = ''t1'', j_scope = ''selected'',
     j_names = Parsed (JArr [JStr ''shop'']), j_layout = ''single'', j_objects = Absent, j_insert_mode = ''extended'',
     j_cron = ''0 2 * * *'', j_timezone = ''UTC'', j_enabled = True, j_compression = ''gzip'', j_encryption = ''none'',
     j_retention = 7, j_retry_count = 2, j_retry_delay = 300, j_overlap = ''skip'', j_prefix = ''nightly'',
     j_next_run = Some 1000, j_created = 0, j_start_grace = 300, j_max_age = 0, j_long_running = 0\<rparr>"

definition sample_db :: db where
  "sample_db = empty_db\<lparr>users := [\<lparr>u_id = ''root'', u_name = ''root'', u_hash = ''h'', u_role = ''admin'', u_created = 0, u_last_login = None\<rparr>],
     connections := [sample_connection ''a'' ''db-a'', sample_connection ''b'' ''db-b''],
     targets := [\<lparr>t_id = ''t1'', t_name = ''t1'', t_type = ''local''\<rparr>, \<lparr>t_id = ''t2'', t_name = ''t2'', t_type = ''local''\<rparr>],
     jobs := [sample_job],
     job_connections := [\<lparr>jc_job = ''job'', jc_connection = ''a'', jc_names = Parsed (JArr [JStr ''shop'']), jc_position = 0\<rparr>,
                         \<lparr>jc_job = ''job'', jc_connection = ''b'', jc_names = Parsed (JArr [JStr ''crm'']), jc_position = 1\<rparr>],
     job_storages := [\<lparr>js_job = ''job'', js_target = ''t1'', js_position = 0, js_required = True\<rparr>,
                      \<lparr>js_job = ''job'', js_target = ''t2'', js_position = 1, js_required = False\<rparr>]\<rparr>"

definition hourly :: "string \<Rightarrow> string \<Rightarrow> time \<Rightarrow> time result" where
  "hourly expr zone from = Inr ((from div 3600000 + 1) * 3600000)"

definition right_db :: "'e + (id \<times> db) \<Rightarrow> db" where
  "right_db r = (case r of Inl _ \<Rightarrow> empty_db | Inr (_, d) \<Rightarrow> d)"

text \<open>The database after a manual run was requested, and the service that dispatches it.\<close>

definition sample_queued :: db where
  "sample_queued = right_db (enqueue 500 ''job'' Manual (Some ''root'') None sample_db)"

definition sample_boot :: service where
  "sample_boot = init_service sample_db"

definition sample_admitted :: service where
  "sample_admitted = sample_boot\<lparr>sv_db := sample_queued\<rparr>"

definition sample_running :: service where
  "sample_running = snd (pump 600 sample_admitted)"

end
