(* ===== verification/Admission_Props.thy ===== *)
theory Admission_Props
  imports Sample
begin

text \<open>
  What admission promises: a run covers every source and every destination of its schedule,
  a scheduled occurrence is admitted once, and only selected, finished pairs are retried.
\<close>

section \<open>Admission of a schedule\<close>

lemma fold_max_ge: "n \<le> fold max ns (n :: int) \<and> (\<forall>m \<in> set ns. m \<le> fold max ns n)"
proof (induction ns arbitrary: n)
  case (Cons m ns)
  from Cons.IH [of "max m n"] show ?case by auto
qed simp

lemma next_sequence_greater: "e \<in> set (executions d) \<Longrightarrow> e_sequence e < next_sequence d"
  using fold_max_ge by (cases "map e_sequence (executions d)") (auto simp: next_sequence_def dest!: map_eq_Cons_D)

lemma insert_execution_new:
  assumes inv: "store_inv d" and new: "scheduled_exec d job sched = None"
    and ins: "insert_execution now job trig actor sched parent pls d = Inr (i, d')"
  shows "find_exec d i = None" "find_exec d' i = Some (new_exec i job trig sched now parent actor (next_sequence d))"
    and "map (\<lambda>p. (p_connection p, p_target p, p_required p)) (pairs_of d' i)
       = map (\<lambda>pl. (pp_connection pl, pp_target pl, pp_required pl)) pls"
    and "map p_snapshot (pairs_of d' i) = map pp_snapshot pls"
    and "\<forall>p \<in> set (pairs_of d' i). p_status p = PQueued"
proof -
  from ins new have I: "i = uuid (draws d)" "executions d' = executions d @ [new_exec i job trig sched now parent actor (next_sequence d)]"
    "pairs d' = pairs d @ new_pairs i (Suc (draws d)) pls"
    "map (\<lambda>p. (p_connection p, p_target p, p_required p)) (new_pairs i (Suc (draws d)) pls)
         = map (\<lambda>pl. (pp_connection pl, pp_target pl, pp_required pl)) pls"
    "map p_snapshot (new_pairs i (Suc (draws d)) pls) = map pp_snapshot pls"
    by (auto elim!: insert_execution_cases)
  have fresh: "i \<notin> e_id ` set (executions d)" using fresh_uuid(1) [OF inv order_refl] I(1) by simp
  then show none: "find_exec d i = None" by (simp add: find_exec_def)
  then show "find_exec d' i = Some (new_exec i job trig sched now parent actor (next_sequence d))"
    by (simp add: find_exec_def I(2) find_append_None)
  have "filter (\<lambda>p. p_execution p = i) (pairs d) = []"
    using inv fresh by (auto simp: filter_empty_conv store_inv_def keys_ok_def)
  moreover have "filter (\<lambda>p. p_execution p = i) (new_pairs i (Suc (draws d)) pls) = new_pairs i (Suc (draws d)) pls"
    using new_pairs_rows [of _ i "Suc (draws d)" pls] by (intro filter_True) blast
  ultimately have of: "pairs_of d' i = new_pairs i (Suc (draws d)) pls" by (simp add: pairs_of_def I(3))
  show "map (\<lambda>p. (p_connection p, p_target p, p_required p)) (pairs_of d' i)
       = map (\<lambda>pl. (pp_connection pl, pp_target pl, pp_required pl)) pls" unfolding of by (rule I(4))
  show "map p_snapshot (pairs_of d' i) = map pp_snapshot pls" unfolding of by (rule I(5))
  show "\<forall>p \<in> set (pairs_of d' i). p_status p = PQueued" unfolding of using new_pairs_rows by blast
qed

text \<open>C21: Admission creates one queued execution with exactly one pair for each source and each destination of
  the schedule, in the order of the sources and, for one source, of the destinations, each required as
  its destination is, behind every earlier execution in the queue; a manual run needs an administrator.\<close>

theorem enqueue_covers_the_schedule:
  assumes inv: "store_inv d" and enq: "enqueue now job trig actor sched d = Inr (i, d')"
    and new: "scheduled_exec d job sched = None"
  shows "\<exists>j e. find_job d job = Some j \<and> find_exec d i = None \<and> find_exec d' i = Some e
    \<and> e_status e = EQueued \<and> e_job e = job \<and> (\<forall>f \<in> set (executions d). e_sequence f < e_sequence e)
    \<and> map (\<lambda>p. (p_connection p, p_target p, p_required p)) (pairs_of d' i)
        = [(c, t, r). (c, ns) \<leftarrow> job_sources d j, (t, r) \<leftarrow> job_destinations d j]
    \<and> (\<forall>p \<in> set (pairs_of d' i). p_status p = PQueued \<and> s_retry_count (p_snapshot p) = j_retry_count j)
    \<and> (trig = Manual \<longrightarrow> (\<exists>u. actor = Some u \<and> is_admin d u))"
proof -
  from enq obtain j pls d1 where j: "find_job d job = Some j" and p: "plan_pairs j (job_pairs d j) d = Inr (pls, d1)"
    and ins: "insert_execution now job trig actor sched None pls d1 = Inr (i, d')" and s: "same_queue d d1"
    by (rule enqueue_Inr) blast
  note plan = plan_pairs_Inr [OF p]
  have inv1: "store_inv d1" using same_queue_inv [OF s inv] .
  have new1: "scheduled_exec d1 job sched = None" using new s by (simp add: scheduled_exec_def same_queue_def cong: option.case_cong)
  note I = insert_execution_new [OF inv1 new1 ins]
  have ex: "executions d1 = executions d" using s by (simp add: same_queue_def)
  let ?e = "new_exec i job trig sched now None actor (next_sequence d1)"
  have prod: "map (\<lambda>((c, ns), (t, r)). (c, t, r)) (List.product xs ys) = [(c, t, r). (c, ns) \<leftarrow> xs, (t, r) \<leftarrow> ys]" for xs ys
    by (induction xs) (auto simp: comp_def case_prod_beta intro!: map_cong)
  have "map (\<lambda>p. (p_connection p, p_target p, p_required p)) (pairs_of d' i)
        = [(c, t, r). (c, ns) \<leftarrow> job_sources d j, (t, r) \<leftarrow> job_destinations d j]"
    using I(3) plan by (simp only: prod job_pairs_def)
  moreover have "s_retry_count (p_snapshot p) = j_retry_count j" if "p \<in> set (pairs_of d' i)" for p
  proof -
    have "p_snapshot p \<in> set (map p_snapshot (pairs_of d' i))" using that unfolding set_map by (rule imageI)
    then show ?thesis using plan unfolding I(4) by auto
  qed
  moreover have "find_exec d i = None" "find_exec d' i = Some ?e"
    using I(1,2) ex by (simp_all add: find_exec_def)
  moreover have "\<forall>f \<in> set (executions d). e_sequence f < e_sequence ?e"
    using next_sequence_greater [of _ d1] ex by simp
  moreover have "trig = Manual \<longrightarrow> (\<exists>u. actor = Some u \<and> is_admin d u)"
    using enq by (auto simp: enqueue_def actor_check_def split: option.splits if_splits)
  ultimately show ?thesis using j I(5) by (intro exI [of _ j] exI [of _ ?e]) simp
qed

lemma scheduled_exec_after:
  assumes "insert_execution now job trig actor (Some t) parent pls d = Inr (i, d')"
  shows "\<exists>e. scheduled_exec d' job (Some t) = Some e \<and> e_id e = i"
  using assms
proof (cases rule: insert_execution_cases)
  case existing
  then show ?thesis by (simp add: scheduled_exec_def)
next
  case inserted
  then show ?thesis by (simp add: scheduled_exec_def find_append_None)
qed


section \<open>Retry\<close>

lemma distinct_selections: "distinct sels \<Longrightarrow> distinct (map (\<lambda>s. (sel_connection s, sel_target s)) (sels :: pair_selection list))"
  by (auto simp: distinct_map intro!: inj_onI pair_selection.equality)

text \<open>A retry queues a new execution, child of the original, with exactly the selected pairs, each with the
  configuration of the pair it retries; every one of them had ended, or never started in an execution
  that ended, and the original execution and its pairs are left as they were.\<close>

theorem retry_covers_the_selection:
  assumes inv: "store_inv d" and r: "retry_execution now i sels actor d = Inr (k, d')"
  shows "\<exists>e e'. find_exec d i = Some e \<and> find_exec d' k = Some e' \<and> e_parent e' = Some i \<and> e_job e' = e_job e
    \<and> map (\<lambda>p. (p_connection p, p_target p)) (pairs_of d' k) = map (\<lambda>s. (sel_connection s, sel_target s)) sels
    \<and> (\<forall>q \<in> set (pairs_of d' k). p_status q = PQueued \<and> (\<exists>p \<in> set (pairs_of d i). retryable (e_status e) (p_status p)
         \<and> p_connection p = p_connection q \<and> p_target p = p_target q \<and> p_snapshot p = p_snapshot q))
    \<and> find_exec d' i = Some e \<and> pairs_of d' i = pairs_of d i \<and> is_admin d actor"
  using r
proof (rule retry_execution_Inr)
  fix e pls d1 assume e: "find_exec d i = Some e" and p: "plan_retries i (e_status e) sels d = Inr (pls, d1)" and s: "same_queue d d1"
    and ins: "insert_execution now (e_job e) Retry (Some actor) None (Some i) pls d1 = Inr (k, d')" and adm: "is_admin d actor"
  note plan = plan_retries_Inr [OF p] and inv1 = same_queue_inv [OF s inv]
  have "scheduled_exec d1 (e_job e) None = None" by (simp add: scheduled_exec_def)
  note I = insert_execution_new [OF inv1 this ins]
  let ?e = "new_exec k (e_job e) Retry None now (Some i) (Some actor) (next_sequence d1)"
  have cols: "map (\<lambda>p. (p_connection p, p_target p)) (pairs_of d' k) = map (\<lambda>s. (sel_connection s, sel_target s)) sels"
  proof -
    have "map (\<lambda>(c, t, r). (c, t)) (map (\<lambda>p. (p_connection p, p_target p, p_required p)) (pairs_of d' k))
      = map (\<lambda>(c, t, r). (c, t)) (map (\<lambda>pl. (pp_connection pl, pp_target pl, pp_required pl)) pls)" by (simp only: I(3))
    with plan show ?thesis by (simp add: comp_def)
  qed
  have from': "\<exists>p \<in> set (pairs_of d i). retryable (e_status e) (p_status p)
         \<and> p_connection p = p_connection q \<and> p_target p = p_target q \<and> p_snapshot p = p_snapshot q" if "q \<in> set (pairs_of d' k)" for q
  proof -
    from that obtain n where n: "n < length (pairs_of d' k)" "q = pairs_of d' k ! n" by (metis in_set_conv_nth)
    have len: "length (pairs_of d' k) = length pls" using I(4) by (metis length_map)
    with n have pl: "pls ! n \<in> set pls" "p_connection q = pp_connection (pls ! n)" "p_target q = pp_target (pls ! n)"
      "p_snapshot q = pp_snapshot (pls ! n)"
      using arg_cong [OF I(3), of "\<lambda>l. l ! n"] arg_cong [OF I(4), of "\<lambda>l. l ! n"] by simp_all
    from plan pl(1) obtain p where "p \<in> set (pairs d)" "p_execution p = i" "retryable (e_status e) (p_status p)"
      "p_connection p = pp_connection (pls ! n)" "p_target p = pp_target (pls ! n)" "pp_snapshot (pls ! n) = p_snapshot p" by blast
    then show ?thesis using pl by (intro bexI [of _ p]) simp_all
  qed
  have "find_exec d1 i = find_exec d i" using s by (simp add: same_queue_def find_exec_def)
  then have ik: "i \<noteq> k" using I(1) e by auto
  have ex: "executions d' = executions d @ [?e]" and pr: "pairs d' = pairs d @ new_pairs k (Suc (draws d1)) pls"
    using ins s by (auto simp: same_queue_def scheduled_exec_def elim!: insert_execution_cases)
  have "find_exec d' i = Some e" using e unfolding find_exec_def ex by (rule find_append_Some)
  moreover have "filter (\<lambda>p. p_execution p = i) (new_pairs k (Suc (draws d1)) pls) = []"
    using new_pairs_rows [of _ k "Suc (draws d1)" pls] ik by (auto simp: filter_empty_conv)
  then have "pairs_of d' i = pairs_of d i" by (simp add: pairs_of_def pr)
  moreover have "e_parent ?e = Some i" by (simp add: new_exec_def)
  ultimately show ?thesis
    using e I(2,5) cols from' adm by (intro exI [of _ e] exI [of _ ?e]) simp
qed

end
