(* ===== verification/Schedule_Props.thy ===== *)
theory Schedule_Props
  imports Admission_Props
begin

text \<open>
  The due schedules: how many occurrences were missed, that a schedule always advances past the
  present, the overlap policy, and that one failing schedule does not hold back the others.
\<close>

section \<open>Enumerating the missed occurrences\<close>

lemma missed_occurrences_Inr:
  assumes adv: "\<And>t t'. next t = Inr t' \<Longrightarrow> t < t'"
  shows "missed_occurrences next now fuel occ n lst = Inr (m, lst', occ') \<Longrightarrow>
     n \<le> m \<and> m \<le> n + fuel \<and> (occ' \<le> now \<longrightarrow> m = n + fuel) \<and> (m = n \<longrightarrow> lst' = lst \<and> occ' = occ)
     \<and> (n < m \<longrightarrow> occ \<le> lst' \<and> lst' \<le> now \<and> next lst' = Inr occ')"
proof (induction fuel arbitrary: occ n lst)
  case (Suc fuel)
  show ?case
  proof (cases "occ \<le> now")
    case True
    then obtain occ2 where o2: "next occ = Inr occ2" and rest: "missed_occurrences next now fuel occ2 (Suc n) occ = Inr (m, lst', occ')"
      using Suc.prems by (auto split: sum.splits)
    note IH = Suc.IH [OF rest] and lt = adv [OF o2]
    show ?thesis
    proof (cases "m = Suc n")
      case True
      with IH o2 \<open>occ \<le> now\<close> show ?thesis by simp
    next
      case False
      with IH have "Suc n < m" "occ2 \<le> lst'" "lst' \<le> now" "next lst' = Inr occ'" by auto
      with IH lt show ?thesis by auto
    qed
  next
    case False
    with Suc.prems show ?thesis by simp
  qed
qed simp

lemma due_occurrences_Inr:
  assumes adv: "\<And>t t'. next t = Inr t' \<Longrightarrow> t < t'" and due: "due \<le> now" and bound: "0 < bound"
    and oc: "due_occurrences next now bound due = Inr oc"
  shows "now < oc_next oc" "due \<le> oc_last oc" "oc_last oc \<le> now" "1 \<le> oc_count oc" "oc_count oc \<le> bound"
    "oc_bounded oc \<Longrightarrow> oc_count oc = bound" "\<not> oc_bounded oc \<Longrightarrow> next (oc_last oc) = Inr (oc_next oc)"
proof -
  from oc obtain n lst occ where m: "missed_occurrences next now bound due 0 due = Inr (n, lst, occ)"
    by (auto simp: due_occurrences_def split: sum.splits)
  note M = missed_occurrences_Inr [OF adv m]
  have n: "0 < n"
  proof (rule ccontr)
    assume "\<not> 0 < n"
    with M have "occ = due" "occ \<le> now \<longrightarrow> n = bound" by auto
    with due bound \<open>\<not> 0 < n\<close> show False by simp
  qed
  from oc m adv M n due
  show "now < oc_next oc" "due \<le> oc_last oc" "oc_last oc \<le> now" "1 \<le> oc_count oc" "oc_count oc \<le> bound"
    "oc_bounded oc \<Longrightarrow> oc_count oc = bound" "\<not> oc_bounded oc \<Longrightarrow> next (oc_last oc) = Inr (oc_next oc)"
    by (auto simp: due_occurrences_def split: sum.splits if_splits)
qed

text \<open>Whatever was missed, a due schedule advances: the next run it is given lies after the present, and
  the occurrences counted as missed, at least one and at most 10000, lie between the due time and the
  present. When the enumeration ended by itself the next run is the successor of the last one counted.\<close>

theorem due_schedule_advances:
  assumes "\<forall>t t'. cron t = Inr t' \<longrightarrow> t < t'" and "due \<le> now"
    and "due_occurrences cron now occurrence_bound due = Inr oc"
  shows "now < oc_next oc \<and> due \<le> oc_last oc \<and> oc_last oc \<le> now \<and> 1 \<le> oc_count oc \<and> oc_count oc \<le> 10000
    \<and> (oc_bounded oc \<or> cron (oc_last oc) = Inr (oc_next oc))"
proof -
  have adv: "\<And>t t'. cron t = Inr t' \<Longrightarrow> t < t'" using assms(1) by blast
  have "0 < occurrence_bound" by (simp add: occurrence_bound_def)
  note D = due_occurrences_Inr [OF adv assms(2) this assms(3)]
  from D show ?thesis by (auto simp: occurrence_bound_def)
qed

section \<open>The overlap policy\<close>

text \<open>With the overlap policy "skip" a schedule whose previous execution is still open admits nothing: the
  queue is untouched, the skip is recorded against the open execution, and the schedule advances.\<close>

theorem overlap_is_skipped:
  assumes "open_exec d (j_id j) = Some a" and "j_overlap j \<noteq> ''queue''"
    and "due_job cron now startup j due d = Inr d'"
  shows "executions d' = executions d \<and> pairs d' = pairs d \<and> attempts d' = attempts d
    \<and> (\<exists>v. events d' = events d @ [v] \<and> v_kind v = ''overlap_skipped'' \<and> v_execution v = Some (e_id a))
    \<and> (\<forall>k \<in> set (jobs d'). j_id k = j_id j \<longrightarrow> (\<exists>t. j_next_run k = Some t))"
  using assms(3)
proof (cases rule: due_job_Inr)
  case (admitted oc i d1)
  with assms(1,2) show ?thesis by simp
next
  case (skipped oc b)
  then show ?thesis
    using assms(1) by (auto simp: set_next_run_def in_set_update_where add_event_def)
qed

section \<open>All due schedules\<close>

lemma plan_pairs_jobs: "enqueue now job trig actor sched d = Inr (i, d') \<Longrightarrow> jobs d' = jobs d"
proof (rule enqueue_Inr, assumption)
  fix j pls d1 assume ins: "insert_execution now job trig actor sched None pls d1 = Inr (i, d')" and s: "same_queue d d1"
  have "jobs d' = jobs d1"
    using ins by (auto simp: insert_execution_def Let_def split: option.splits sum.splits dest!: insert_pairs_Inr)
  with s show "jobs d' = jobs d" by (simp add: same_queue_def)
qed

lemma due_job_jobs:
  assumes "due_job cron now startup j due d = Inr d'"
  obtains oc where "due_occurrences (cron (j_cron j) (if j_timezone j = [] then ''UTC'' else j_timezone j)) now occurrence_bound due = Inr oc"
    "jobs d' = update_where (\<lambda>k. j_id k = j_id j) (\<lambda>k. k\<lparr>j_next_run := Some (oc_next oc)\<rparr>) (jobs d)"
  using assms
proof (cases rule: due_job_Inr)
  case (admitted oc i d1)
  then show ?thesis using that plan_pairs_jobs [OF admitted(3)] by (simp add: set_next_run_def set_missed_def)
next
  case (skipped oc a)
  then show ?thesis using that by (simp add: set_next_run_def)
qed

definition advanced :: "db \<Rightarrow> time \<Rightarrow> id \<Rightarrow> bool" where
  "advanced d now i \<longleftrightarrow> (\<forall>k \<in> set (jobs d). j_id k = i \<longrightarrow> (\<exists>t. j_next_run k = Some t \<and> now < t))"

definition reported :: "db \<Rightarrow> id \<Rightarrow> bool" where
  "reported d i \<longleftrightarrow> (\<exists>v \<in> set (events d). \<exists>err. v_kind v = ''schedule_enqueue_failed''
     \<and> v_payload v = json_obj [(''jobId'', JStr i), (''error'', JStr err)])"

lemma insert_execution_events:
  assumes "insert_execution now job trig actor sched parent pls d = Inr (i, d')"
  shows "set (events d) \<subseteq> set (events d')"
  using assms by (auto simp: insert_execution_def Let_def add_event_def split: option.splits sum.splits dest!: insert_pairs_Inr)

lemma due_job_events:
  assumes "due_job cron now startup j due d = Inr d'"
  shows "set (events d) \<subseteq> set (events d')"
  using assms
proof (cases rule: due_job_Inr)
  case (admitted oc i d1)
  from admitted(3) obtain pls d0 where "insert_execution now (j_id j) (if startup then Catchup else Scheduled) None (Some due) None pls d0 = Inr (i, d1)"
    "same_queue d d0" by (rule enqueue_Inr) blast
  from insert_execution_events [OF this(1)] this(2) admitted(4) show ?thesis
    by (auto simp: same_queue_def set_next_run_def set_missed_def)
next
  case (skipped oc a)
  then show ?thesis by (auto simp: set_next_run_def add_event_def)
qed

lemma run_jobs_mono:
  assumes adv: "\<forall>e z t t'. cron e z t = Inr t' \<longrightarrow> t < t'" and due: "\<forall>(j, due) \<in> set js. due \<le> now"
  shows "(advanced d now i \<longrightarrow> advanced (run_jobs cron now startup js d) now i)
     \<and> (reported d i \<longrightarrow> reported (run_jobs cron now startup js d) i)"
  using due
proof (induction js arbitrary: d)
  case (Cons x js)
  obtain j due where x: "x = (j, due)" by (cases x)
  from Cons.prems have d0: "due \<le> now" and ds: "\<forall>(j, due) \<in> set js. due \<le> now" by (auto simp: x)
  show ?case
  proof (cases "due_job cron now startup j due d")
    case (Inl e)
    show ?thesis
      using Cons.IH [OF ds, of "add_event now None None ''schedule_enqueue_failed'' None
        (json_obj [(''jobId'', JStr (j_id j)), (''error'', JStr (take 500 (error_text e)))]) d"]
      by (auto simp: x Inl advanced_def reported_def add_event_def)
  next
    case (Inr d1)
    from Inr obtain oc where oc: "due_occurrences (cron (j_cron j) (if j_timezone j = [] then ''UTC'' else j_timezone j)) now occurrence_bound due = Inr oc"
      and jb: "jobs d1 = update_where (\<lambda>k. j_id k = j_id j) (\<lambda>k. k\<lparr>j_next_run := Some (oc_next oc)\<rparr>) (jobs d)" by (rule due_job_jobs)
    have "now < oc_next oc" using due_occurrences_Inr(1) [OF _ d0 _ oc] adv by (auto simp: occurrence_bound_def)
    then have "advanced d now i \<Longrightarrow> advanced d1 now i" by (auto simp: advanced_def jb in_set_update_where)
    moreover have "reported d i \<Longrightarrow> reported d1 i" using due_job_events [OF Inr] by (auto simp: reported_def)
    ultimately show ?thesis using Cons.IH [OF ds, of d1] by (simp add: x Inr)
  qed
qed simp

lemma run_jobs_each:
  assumes adv: "\<forall>e z t t'. cron e z t = Inr t' \<longrightarrow> t < t'" and due: "\<forall>(j, due) \<in> set js. due \<le> now"
    and "(j, due) \<in> set js"
  shows "advanced (run_jobs cron now startup js d) now (j_id j) \<or> reported (run_jobs cron now startup js d) (j_id j)"
  using due assms(3)
proof (induction js arbitrary: d)
  case (Cons x js)
  obtain k kd where x: "x = (k, kd)" by (cases x)
  from Cons.prems have d0: "kd \<le> now" and ds: "\<forall>(j, due) \<in> set js. due \<le> now" by (auto simp: x)
  let ?d1 = "case due_job cron now startup k kd d of Inr d1 \<Rightarrow> d1
     | Inl e \<Rightarrow> add_event now None None ''schedule_enqueue_failed'' None
                    (json_obj [(''jobId'', JStr (j_id k)), (''error'', JStr (take 500 (error_text e)))]) d"
  have eq: "run_jobs cron now startup (x # js) d = run_jobs cron now startup js ?d1" by (simp add: x)
  show ?case
  proof (cases "(j, due) \<in> set js")
    case True
    with Cons.IH [OF ds] show ?thesis unfolding eq by blast
  next
    case False
    then have jk: "j = k" "due = kd" using Cons.prems(2) x by auto
    have "advanced ?d1 now (j_id k) \<or> reported ?d1 (j_id k)"
    proof (cases "due_job cron now startup k kd d")
      case (Inl e)
      have "reported ?d1 (j_id k)"
        unfolding reported_def Inl by (auto simp: add_event_def)
      then show ?thesis ..
    next
      case (Inr d1)
      from Inr obtain oc where oc: "due_occurrences (cron (j_cron k) (if j_timezone k = [] then ''UTC'' else j_timezone k)) now occurrence_bound kd = Inr oc"
        and jb: "jobs d1 = update_where (\<lambda>i. j_id i = j_id k) (\<lambda>i. i\<lparr>j_next_run := Some (oc_next oc)\<rparr>) (jobs d)" by (rule due_job_jobs)
      have "now < oc_next oc" using due_occurrences_Inr(1) [OF _ d0 _ oc] adv by (auto simp: occurrence_bound_def)
      then have "advanced d1 now (j_id k)" by (auto simp: advanced_def jb in_set_update_where)
      then show ?thesis by (simp add: Inr)
    qed
    with run_jobs_mono [OF adv ds] show ?thesis unfolding eq jk by blast
  qed
qed simp

lemma due_jobs_due: "(j, due) \<in> set (due_jobs now d) \<longleftrightarrow> j \<in> set (jobs d) \<and> j_enabled j \<and> j_next_run j = Some due \<and> due \<le> now"
  by (auto simp: due_jobs_def Let_def split: option.splits if_splits)

text \<open>No schedule stays due and none holds back another: after the due schedules have been processed, each
  schedule that was enabled and due has its next run after the present, or its failure was recorded
  as an event that names it.\<close>

theorem every_due_schedule_is_handled:
  assumes "\<forall>e z t t'. cron e z t = Inr t' \<longrightarrow> t < t'"
    and "j \<in> set (jobs d)" and "j_enabled j" and "j_next_run j = Some due" and "due \<le> now"
  shows "advanced (run_jobs cron now startup (due_jobs now d) d) now (j_id j)
    \<or> reported (run_jobs cron now startup (due_jobs now d) d) (j_id j)"
proof (rule run_jobs_each [OF assms(1)])
  show "\<forall>(j, due) \<in> set (due_jobs now d). due \<le> now" by (auto simp: due_jobs_due)
  show "(j, due) \<in> set (due_jobs now d)" using assms(2-5) by (simp add: due_jobs_due)
qed

end
