(* ===== verification/Lifecycle_Props.thy ===== *)
theory Lifecycle_Props
  imports Schedule_Props
begin

text \<open>
  The life of a pair: what an outcome turns it into, what a cancellation does, and that work
  ends: every start and every end of an attempt uses up some of a finite budget.
\<close>

section \<open>Outcomes\<close>

lemma live_finish:
  assumes inv: "store_inv d" and lv: "live d c"
  obtains p a v where "find_pair d (x_pair c) = Some p" "is_active_status (p_status p)" "p_execution p = x_execution c"
    "p_snapshot p = x_snapshot c" "find_attempt d (x_attempt c) = Some a" "a_status a = ARunning" "a_number a = x_number c" "a_pair a = x_pair c"
    "finish_attempt now c out d = Inr (update_execs (\<lambda>e. e_id e = x_execution c) (finish_exec_row now v)
              (finish_writes now c (retry_granted p c out) (final_outcome p out) d))"
    "get_execution (finish_writes now c (retry_granted p c out) (final_outcome p out) d) (x_execution c) = Inr v"
proof -
  obtain w where w: "w_context w = c" "w_pair w = x_pair c" "worker_ok d w" using lv by (rule live_worker)
  from worker_active [OF inv w(3)] w(2) obtain p where p: "find_pair d (x_pair c) = Some p" "is_active_status (p_status p)" by metis
  have gen: "genuine d c" using lv by (simp add: live_def)
  from gen p(1) obtain a where pe: "p_execution p = x_execution c" "p_snapshot p = x_snapshot c"
    and a: "find_attempt d (x_attempt c) = Some a" "a_pair a = x_pair c" "a_number a = x_number c"
    by (auto elim!: genuine_SomeD)
  have ar: "a_status a = ARunning" using lv a(1) by (auto simp: live_def)
  have found: "List.find (\<lambda>a. a_id a = x_attempt c \<and> a_pair a = x_pair c) (attempts d) = Some a"
    using a(1,2) unfolding find_attempt_def by (rule find_key_and)
  let ?d1 = "finish_writes now c (retry_granted p c out) (final_outcome p out) d"
  obtain e where "find_exec d (x_execution c) = Some e"
    using pair_has_exec [OF inv find_pair_ok(1) [OF inv p(1)]] pe by metis
  then have "find_exec ?d1 (x_execution c) = Some e" by (simp add: find_exec_def)
  then obtain v where v: "get_execution ?d1 (x_execution c) = Inr v" using get_execution_eq by metis
  have "finish_attempt now c out d = Inr (update_execs (\<lambda>e. e_id e = x_execution c) (finish_exec_row now v) ?d1)"
    using found p ar v by (simp add: finish_attempt_def Let_def retry_granted_def final_outcome_def)
  from that [OF p pe a(1) ar a(3,2) this v] show ?thesis .
qed

lemma live_finish_Inr:
  assumes inv: "store_inv d" and lv: "live d c" and f: "finish_attempt now c out d = Inr d'"
  obtains p v where "find_pair d (x_pair c) = Some p" "is_active_status (p_status p)" "p_execution p = x_execution c"
    "p_snapshot p = x_snapshot c"
    "d' = update_execs (\<lambda>e. e_id e = x_execution c) (finish_exec_row now v)
              (finish_writes now c (retry_granted p c out) (final_outcome p out) d)"
    "get_execution (finish_writes now c (retry_granted p c out) (final_outcome p out) d) (x_execution c) = Inr v"
proof (rule live_finish [OF inv lv, of now out])
  fix p a v
  assume a: "find_pair d (x_pair c) = Some p" "is_active_status (p_status p)" "p_execution p = x_execution c" "p_snapshot p = x_snapshot c"
    and eq: "finish_attempt now c out d = Inr (update_execs (\<lambda>e. e_id e = x_execution c) (finish_exec_row now v)
              (finish_writes now c (retry_granted p c out) (final_outcome p out) d))"
    and v: "get_execution (finish_writes now c (retry_granted p c out) (final_outcome p out) d) (x_execution c) = Inr v"
  from f eq have "d' = update_execs (\<lambda>e. e_id e = x_execution c) (finish_exec_row now v)
              (finish_writes now c (retry_granted p c out) (final_outcome p out) d)" by simp
  from that [OF a this v] show thesis .
qed

text \<open>The end of an attempt decides its pair. A success always stands. When the execution is being cancelled
  anything else is recorded as cancelled. Otherwise a failure with retries left (attempt number at most
  the retry count) puts the pair back to wait for exactly the retry delay; the other outcomes, and a
  failure of the last attempt, end the pair with that status now.\<close>

theorem outcome_decides_the_pair:
  assumes "reachable cron sv" and "w \<in> set (sv_workers sv)"
    and "find_pair (sv_db sv) (w_pair w) = Some p"
    and "finish_attempt now (w_context w) out (sv_db sv) = Inr d'"
  shows "\<exists>q. find_pair d' (w_pair w) = Some q \<and>
    (if o_status out = OSuccess then p_status q = PSuccess \<and> p_finished q = Some now
     else if p_status p = PCancelRequested then p_status q = PCancelled \<and> p_finished q = Some now
     else if o_status out = OFailed \<and> x_number (w_context w) \<le> s_retry_count (p_snapshot p)
     then p_status q = PRetryWait \<and> p_finished q = None
          \<and> p_next q = Some (now + max 0 (s_retry_delay (p_snapshot p)) * 1000)
     else p_status q = pair_of_outcome (o_status out) \<and> p_finished q = Some now)"
proof -
  have inv: "store_inv (sv_db sv)" and wok: "worker_ok (sv_db sv) w"
    using reachable_ok [OF assms(1)] assms(2) by (auto simp: service_ok_def service_inv_def workers_ok_def)
  have wp: "w_pair w = x_pair (w_context w)" using wok by (simp add: worker_ok_def)
  obtain p' v where
      p': "find_pair (sv_db sv) (x_pair (w_context w)) = Some p'" "p_snapshot p' = x_snapshot (w_context w)"
    and d': "d' = update_execs (\<lambda>e. e_id e = x_execution (w_context w)) (finish_exec_row now v)
              (finish_writes now (w_context w) (retry_granted p' (w_context w) out) (final_outcome p' out) (sv_db sv))"
    by (rule live_finish_Inr [OF inv worker_ok_live [OF wok] assms(4)])
  have pp: "p' = p" using p'(1) assms(3) wp by simp
  let ?q = "finish_pair_row now (w_context w) (retry_granted p (w_context w) out) (final_outcome p out) p"
  have "find_pair d' (w_pair w) = Some ?q"
    using p'(1) find_pair_SomeD [OF assms(3)] wp unfolding d' pp
    by (simp add: find_pair_def find_map_key [where key = p_id])
  moreover have "x_snapshot (w_context w) = p_snapshot p" using p'(2) pp by simp
  ultimately show ?thesis
    by (auto simp: finish_pair_row_def retry_granted_def wants_retry_def final_outcome_def recorded_status_def)
qed

section \<open>Cancellation\<close>

lemma cancelled_pairs_of:
  assumes "request_cancellation now i actor d = Inr d'" "find_exec d i = Some e" "\<not> is_terminal_exec (e_status e)"
  shows "pairs_of d' i = map (cancelled_pair now) (pairs_of d i)"
  by (simp add: pairs_of_def request_cancellation_tables(2) [OF assms] filter_cancelled)

text \<open>Cancelling an execution that has not ended stops all of it: none of its pairs is left to start, those
  that were waiting are closed as not started, those that run are marked and asked to stop, and the
  execution is cancelled at once exactly when nothing of it runs; pairs that had ended are untouched.\<close>

theorem cancellation_stops_the_execution:
  assumes inv: "store_inv d" and e: "find_exec d i = Some e" "\<not> is_terminal_exec (e_status e)"
    and c: "request_cancellation now i actor d = Inr d'"
  shows "\<exists>e'. find_exec d' i = Some e'
    \<and> e_status e' = (if \<exists>p \<in> set (pairs_of d i). is_active_status (p_status p) then ECancelRequested else ECancelled)
    \<and> length (pairs_of d' i) = length (pairs_of d i)
    \<and> (\<forall>n < length (pairs_of d i).
         (is_ready_status (p_status (pairs_of d i ! n)) \<longrightarrow> p_status (pairs_of d' i ! n) = PNotStarted)
       \<and> (is_active_status (p_status (pairs_of d i ! n)) \<longrightarrow> p_status (pairs_of d' i ! n) = PCancelRequested)
       \<and> (is_terminal_pair (p_status (pairs_of d i ! n)) \<longrightarrow> pairs_of d' i ! n = pairs_of d i ! n))"
proof -
  note tables = request_cancellation_tables [OF c e] and of = cancelled_pairs_of [OF c e]
  have "find_exec d' i = map_option (\<lambda>e. if e_id e = i then cancelled_exec now (has_active d i) e else e) (find_exec d i)"
    unfolding find_exec_def tables(1) by (rule find_map_key) simp
  then have "find_exec d' i = Some (cancelled_exec now (has_active d i) e)" using e find_exec_SomeD [OF e(1)] by simp
  moreover have "has_active d i = (\<exists>p \<in> set (pairs_of d i). is_active_status (p_status p))"
    by (simp only: has_active_def list_ex_iff)
  moreover have "(is_ready_status (p_status q) \<longrightarrow> p_status (cancelled_pair now q) = PNotStarted)
       \<and> (is_active_status (p_status q) \<longrightarrow> p_status (cancelled_pair now q) = PCancelRequested)
       \<and> (is_terminal_pair (p_status q) \<longrightarrow> cancelled_pair now q = q)" for q
    by (cases "p_status q") (simp_all add: cancelled_pair_def)
  ultimately show ?thesis by (intro exI [of _ "cancelled_exec now (has_active d i) e"]) (simp add: of)
qed

text \<open>The cancellation of an execution cannot be lost: once it is requested, the execution only ever becomes
  cancelled, namely with the end of its last running pair; no outcome puts it back into the queue.\<close>

theorem cancellation_completes:
  assumes inv: "store_inv d" and e: "find_exec d (x_execution c) = Some e" "e_status e = ECancelRequested"
    and lv: "live d c" and f: "finish_attempt now c out d = Inr d'"
  shows "\<exists>e'. find_exec d' (x_execution c) = Some e'
    \<and> (if \<forall>p \<in> set (pairs_of d' (x_execution c)). is_terminal_pair (p_status p) then e_status e' = ECancelled \<and> e_finished e' = Some now
       else e_status e' = ECancelRequested \<and> e_finished e' = None)"
proof -
  let ?i = "x_execution c"
  obtain p v where
      d': "d' = update_execs (\<lambda>e. e_id e = ?i) (finish_exec_row now v)
              (finish_writes now c (retry_granted p c out) (final_outcome p out) d)"
    and v: "get_execution (finish_writes now c (retry_granted p c out) (final_outcome p out) d) ?i = Inr v"
    by (rule live_finish_Inr [OF inv lv f])
  let ?d1 = "finish_writes now c (retry_granted p c out) (final_outcome p out) d"
  have e1: "find_exec ?d1 ?i = Some e" using e by (simp add: find_exec_def)
  from get_execution_eq [OF e1] v have sv: "ev_status v = e_status e" "map pv_status (ev_pairs v) = map p_status (pairs_of ?d1 ?i)" by auto
  have "find_exec d' ?i = Some (finish_exec_row now v e)"
    using e1 find_exec_SomeD [OF e1] unfolding d' by (simp add: find_exec_update)
  moreover have "pairs_of d' ?i = pairs_of ?d1 ?i" by (simp add: d')
  moreover have "list_all is_terminal_pair (map p_status (pairs_of ?d1 ?i)) \<longleftrightarrow> (\<forall>p \<in> set (pairs_of ?d1 ?i). is_terminal_pair (p_status p))"
    by (simp only: list_all_iff set_map ball_simps)
  ultimately show ?thesis
    using e(2) sv by (intro exI [of _ "finish_exec_row now v e"])
      (simp add: finish_exec_row_def aggregate_status_def Let_def del: in_pairs_of)
qed

section \<open>Work ends\<close>

text \<open>What a pair may still use up: two units for each attempt it has left, one for an attempt that runs.\<close>

definition pair_budget :: "db \<Rightarrow> pair_row \<Rightarrow> nat" where
  "pair_budget d p =
     (if is_terminal_pair (p_status p) then 0
      else 2 * (nat (max 0 (s_retry_count (p_snapshot p)) + 1) - length (attempts_of d (p_id p)))
           + (if is_active_status (p_status p) then 1 else 0))"

definition work_budget :: "db \<Rightarrow> nat" where
  "work_budget d = sum_list (map (pair_budget d) (pairs d))"

text \<open>A start or an end of an attempt.\<close>

inductive work_step :: "db \<Rightarrow> db \<Rightarrow> bool" where
  starts: "start_attempt now pair d = Inr (c, d') \<Longrightarrow> work_step d d'"
| ends: "live d c \<Longrightarrow> finish_attempt now c out d = Inr d' \<Longrightarrow> work_step d d'"

lemma sum_list_one_less:
  assumes "distinct (map key xs)" and "p \<in> set xs" and "f (g p) < (h p :: nat)"
    and "\<And>x. x \<in> set xs \<Longrightarrow> key x \<noteq> key p \<Longrightarrow> f (g x) = h x"
  shows "sum_list (map (\<lambda>x. f (g x)) xs) < sum_list (map h xs)"
  using assms
proof (induction xs)
  case (Cons x xs)
  show ?case
  proof (cases "x = p")
    case True
    have "map (\<lambda>x. f (g x)) xs = map h xs"
      using Cons.prems(1,4) True by (intro map_cong refl) (auto simp: image_iff)
    then have "sum_list (map (\<lambda>x. f (g x)) xs) = sum_list (map h xs)" by (rule arg_cong)
    then show ?thesis using Cons.prems(3) True by simp
  next
    case False
    then have "p \<in> set xs" using Cons.prems(2) by simp
    moreover from this have "key x \<noteq> key p" using Cons.prems(1) by (auto simp: image_iff)
    ultimately show ?thesis using Cons.IH Cons.prems by auto
  qed
qed simp

lemma start_budget:
  assumes inv: "store_inv d" and st: "start_attempt now pair d = Inr (c, d')"
  shows "work_budget d' < work_budget d"
  using st
proof (rule start_attempt_Inr)
  fix p e assume p: "find_pair d pair = Some p" and rd: "is_ready_status (p_status p)" and d': "d' = start_writes now p d"
  note pok = find_pair_ok [OF inv p]
  let ?g = "\<lambda>q. if p_id q = p_id p then started_pair now q else q"
  have len: "length (attempts_of d pair) < nat (max 0 (s_retry_count (p_snapshot p)) + 1)"
    using pok(3) rd by (cases "p_status p") (auto simp: attempts_ok_def attempt_budget_def)
  have "sum_list (map (\<lambda>q. pair_budget d' (?g q)) (pairs d)) < sum_list (map (pair_budget d) (pairs d))"
  proof (rule sum_list_one_less [OF store_inv_keys(3) [OF inv] pok(1)])
    show "pair_budget d' (?g p) < pair_budget d p"
      using len rd pok(2) by (simp add: pair_budget_def d' attempts_of_start_writes)
    show "pair_budget d' (?g q) = pair_budget d q" if "p_id q \<noteq> p_id p" for q
      using that by (simp add: pair_budget_def d' attempts_of_start_writes)
  qed
  moreover have "pairs d' = map ?g (pairs d)" by (simp add: d' start_writes_tables update_where_def)
  ultimately show ?thesis by (simp add: work_budget_def comp_def)
qed

lemma finish_budget:
  assumes inv: "store_inv d" and lv: "live d c" and f: "finish_attempt now c out d = Inr d'"
  shows "work_budget d' < work_budget d"
proof (rule live_finish_Inr [OF inv lv f])
  fix p v assume p: "find_pair d (x_pair c) = Some p" and act: "is_active_status (p_status p)"
    and d': "d' = update_execs (\<lambda>e. e_id e = x_execution c) (finish_exec_row now v)
              (finish_writes now c (retry_granted p c out) (final_outcome p out) d)"
  note pok = find_pair_ok [OF inv p]
  let ?g = "\<lambda>q. if p_id q = x_pair c then finish_pair_row now c (retry_granted p c out) (final_outcome p out) q else q"
  have len: "length (attempts_of d' i) = length (attempts_of d i)" for i
    by (simp add: d' attempts_of_finish_writes)
  have "sum_list (map (\<lambda>q. pair_budget d' (?g q)) (pairs d)) < sum_list (map (pair_budget d) (pairs d))"
  proof (rule sum_list_one_less [OF store_inv_keys(3) [OF inv] pok(1)])
    show "pair_budget d' (?g p) < pair_budget d p"
      using act pok(2) by (cases "o_status (final_outcome p out)") (simp_all add: pair_budget_def len)
    show "pair_budget d' (?g q) = pair_budget d q" if "p_id q \<noteq> p_id p" for q
      using that pok(2) by (simp add: pair_budget_def len)
  qed
  moreover have "pairs d' = map ?g (pairs d)" by (simp add: d' update_where_def)
  ultimately show ?thesis by (simp add: work_budget_def comp_def)
qed

lemma work_step_budget:
  assumes "work_step d d'" and "store_inv d"
  shows "work_budget d' < work_budget d \<and> store_inv d'"
  using assms(1)
proof (cases rule: work_step.cases)
  case (starts now pair c)
  with start_budget [OF assms(2)] start_attempt_inv [OF assms(2)] show ?thesis by blast
next
  case (ends c now out)
  then have "genuine d c" by (simp add: live_def)
  with ends finish_budget [OF assms(2)] finish_attempt_inv [OF assms(2)] show ?thesis by blast
qed

text \<open>C19: The queue cannot be kept busy for ever by what it holds: any sequence of starts and ends of attempts on
  a well-formed queue, whatever the outcomes, has at most as many steps as its work budget.\<close>

theorem work_is_bounded:
  assumes "store_inv d" and "(work_step ^^ n) d d'"
  shows "n + work_budget d' \<le> work_budget d"
  using assms
proof (induction n arbitrary: d')
  case (Suc n)
  then obtain d1 where d1: "(work_step ^^ n) d d1" "work_step d1 d'" by auto
  have "store_inv d1" using d1(1) Suc.prems(1)
  proof (induction n arbitrary: d1)
    case (Suc m)
    then show ?case using work_step_budget by auto
  qed simp
  with Suc.IH [OF Suc.prems(1) d1(1)] work_step_budget [OF d1(2)] show ?case by simp
qed simp

text \<open>C20: The queue never gets stuck: as long as an execution has not ended, an attempt of one of its pairs can be
  started (at some time, when its retry delay has elapsed) or one that runs can end.\<close>

theorem open_execution_can_progress:
  assumes inv: "store_inv d" and e: "find_exec d i = Some e" and nt: "\<not> is_terminal_exec (e_status e)"
  shows "\<exists>p now c d'. p \<in> set (pairs_of d i) \<and>
     (start_attempt now (p_id p) d = Inr (c, d') \<or> (live d c \<and> x_pair c = p_id p \<and> (\<forall>out. \<exists>d''. finish_attempt now c out d = Inr d'')))"
proof -
  note ok = exec_ok [OF inv e]
  obtain p where p: "p \<in> set (pairs_of d i)" "\<not> is_terminal_pair (p_status p)"
    using exec_agrees_terminal [OF ok(3)] nt unfolding set_map by blast
  then have pin: "p \<in> set (pairs d)" "p_execution p = i" by simp_all
  note fp = find_pair_in [OF inv pin(1)]
  show ?thesis
  proof (cases "is_active_status (p_status p)")
    case True
    then have "p_id p \<in> active_ids d" using fp active_ids_iff [OF inv] by blast
    from active_has_row [OF inv this] obtain c a where r: "(c, a) \<in> set (running_rows d)" "x_pair c = p_id p" by auto
    then have "live d c" unfolding running_rows_set [OF inv] using attempt_context_live(1) [OF inv] by blast
    moreover have "\<exists>d''. finish_attempt 0 c out d = Inr d''" for out
      using finish_attempt_total [OF inv] \<open>live d c\<close> by (metis live_def)
    ultimately show ?thesis using p(1) r(2) by blast
  next
    case False
    then have rd: "is_ready_status (p_status p)" using p(2) by (cases "p_status p") simp_all
    have pin': "p_status p \<in> set (map p_status (pairs_of d i))" unfolding set_map using p(1) by (rule imageI)
    have "e_status e \<noteq> ECancelRequested"
    proof
      assume "e_status e = ECancelRequested"
      then have "\<forall>s \<in> set (map p_status (pairs_of d i)). s = PCancelRequested \<or> is_terminal_pair s"
        using ok(3) unfolding exec_agrees_def by presburger
      with pin' have "p_status p = PCancelRequested \<or> is_terminal_pair (p_status p)" by blast
      with rd p(2) show False by (cases "p_status p") simp_all
    qed
    then have "is_startable_exec (e_status e)" using nt by (cases "e_status e") simp_all
    with fp e pin(2) rd have "\<exists>c d'. start_attempt (case p_next p of None \<Rightarrow> 0 | Some t \<Rightarrow> t) (p_id p) d = Inr (c, d')"
      by (simp add: start_attempt_def split: option.splits)
    then show ?thesis using p(1) by blast
  qed
qed

end
