(* ===== verification/Witnesses.thy ===== *)
theory Witnesses
  imports Lifecycle_Props
begin

text \<open>
  The properties of the execution queue applied to the sample installation: an admitted run of
  four pairs, its dispatch, the end of its first attempt, its cancellation and its retry.
\<close>

section \<open>The states\<close>

lemma sample_db_ok: "store_inv sample_db" "groups_ok sample_db"
proof -
  show "store_inv sample_db"
    by (rule store_inv_cong [OF _ _ _ _ store_inv_empty]) (simp_all add: sample_db_def)
  show "groups_ok sample_db" by (simp add: sample_db_def groups_ok_def)
qed

lemma sample_queries: "due_jobs 0 sample_db = []" "ready_pairs sample_db = []" "running_rows sample_db = []" "legacy_pairs sample_db = []"
  by (simp_all add: due_jobs_def sample_db_def sample_job_def ready_pairs_def ready_join_def running_rows_def legacy_pairs_def)

lemma sample_boot_reachable: "reachable hourly sample_boot"
proof (rule reachable.boot [OF sample_db_ok, of hourly 0])
  have "recover 0 sample_db = Inr sample_db" by (simp add: recover_def sample_queries)
  moreover have "run_due hourly 0 True sample_boot = (None, sample_boot)" "pump 0 sample_boot = (None, sample_boot)"
    by (simp_all add: sample_boot_def init_service_def run_due_def pump_def sample_queries)
  ultimately show "bootstrap hourly 0 sample_db = Inr (None, sample_boot)" by (simp add: bootstrap_def sample_boot_def)
qed

lemma right_dbI: "is_ok r \<Longrightarrow> \<exists>i. r = Inr (i, right_db r)"
  by (cases r) (auto simp: right_db_def)

lemma sample_enqueue: "\<exists>i. enqueue 500 ''job'' Manual (Some ''root'') None sample_db = Inr (i, sample_queued)"
  unfolding sample_queued_def by (rule right_dbI) code_simp

lemma sample_admitted_reachable: "reachable hourly sample_admitted"
proof -
  from sample_enqueue obtain i where "enqueue 500 ''job'' Manual (Some ''root'') None (sv_db sample_boot) = Inr (i, sample_queued)"
    by (auto simp: sample_boot_def init_service_def)
  from reachable.step [OF sample_boot_reachable service_step.enqueued [OF this]] show ?thesis by (simp add: sample_admitted_def)
qed

lemma sample_running_reachable: "reachable hourly sample_running"
  unfolding sample_running_def by (rule reachable.step [OF sample_admitted_reachable service_step.dispatch])

definition sample_done :: service where
  "sample_done = snd (worker_done 700 (uuid 1) (Completed \<lparr>o_run = ''run'', o_status = OSuccess, o_stage = None, o_error = None, o_warnings = []\<rparr>)
     None sample_running)"

lemma sample_done_reachable: "reachable hourly sample_done"
  unfolding sample_done_def by (rule reachable.step [OF sample_running_reachable service_step.worker_end])

lemma reachable_service_inv: "reachable cron sv \<Longrightarrow> service_inv sv"
  and reachable_store_inv: "reachable cron sv \<Longrightarrow> store_inv (sv_db sv)"
  and reachable_groups: "reachable cron sv \<Longrightarrow> groups_ok (sv_db sv)"
  using reachable_ok by (auto simp: service_ok_def service_inv_def)

lemma sample_queued_inv: "store_inv sample_queued"
  using reachable_store_inv [OF sample_admitted_reachable] by (simp add: sample_admitted_def)

lemma some_the: "(case r of None \<Rightarrow> False | Some x \<Rightarrow> P x) \<Longrightarrow> r = Some (the r) \<and> P (the r)"
  by (cases r) auto

section \<open>Dispatch\<close>

theorem pump_keeps_invariant_witness: "fst (pump 600 sample_admitted) = None \<and> service_inv (snd (pump 600 sample_admitted))"
  by (rule pump_keeps_invariant [OF reachable_service_inv [OF sample_admitted_reachable]])

theorem pump_no_overtaking_witness:
  "\<exists>(q1 :: ready_row) (q2 :: ready_row). q_pair q1 = uuid 2 \<and> q_pair q2 = uuid 3 \<and>
    ((waits_for sample_running (q_pair q1) RetryDelay \<and> (\<exists>t. q_next q1 = Some t \<and> t > 600))
     \<or> (waits_for sample_running (q_pair q1) SourceCapacity \<and> q_group q1 \<noteq> q_group q2))"
proof -
  let ?qs = "ready_pairs (sv_db sample_admitted)"
  have "\<not> sv_stopped sample_admitted" by code_simp
  moreover have "?qs = take 1 ?qs @ ?qs ! 1 # [] @ ?qs ! 2 # drop 3 ?qs" by code_simp
  moreover have "has_worker (snd (pump 600 sample_admitted)) (q_pair (?qs ! 2))"
    "\<not> has_worker (snd (pump 600 sample_admitted)) (q_pair (?qs ! 1))" by code_simp+
  ultimately have "(waits_for (snd (pump 600 sample_admitted)) (q_pair (?qs ! 1)) RetryDelay \<and> (\<exists>t. q_next (?qs ! 1) = Some t \<and> t > 600))
     \<or> (waits_for (snd (pump 600 sample_admitted)) (q_pair (?qs ! 1)) SourceCapacity \<and> q_group (?qs ! 1) \<noteq> q_group (?qs ! 2))"
    by (intro pump_no_overtaking [OF reachable_service_inv [OF sample_admitted_reachable]])
  then have "(waits_for sample_running (q_pair (?qs ! 1)) RetryDelay \<and> (\<exists>t. q_next (?qs ! 1) = Some t \<and> t > 600))
     \<or> (waits_for sample_running (q_pair (?qs ! 1)) SourceCapacity \<and> q_group (?qs ! 1) \<noteq> q_group (?qs ! 2))"
    unfolding sample_running_def .
  moreover have "q_pair (?qs ! 1) = uuid 2" "q_pair (?qs ! 2) = uuid 3" by code_simp+
  ultimately show ?thesis by (intro exI [of _ "?qs ! 1"] exI [of _ "?qs ! 2"]) simp
qed

theorem pump_respects_limits_witness:
  "int (length (sv_workers (snd (pump 600 sample_admitted)))) \<le> max (concurrency_limit (sv_db sample_admitted)) (int (length (sv_workers sample_admitted)))
    \<and> group_load (sv_workers (snd (pump 600 sample_admitted))) ''host:db-a:6''
      \<le> max (group_limit (sv_db sample_admitted) (concurrency_limit (sv_db sample_admitted)) ''host:db-a:6'')
           (group_load (sv_workers sample_admitted) ''host:db-a:6'')"
  by (rule pump_respects_limits [OF reachable_service_inv [OF sample_admitted_reachable]])

theorem pump_work_conserving_witness:
  "\<exists>q :: ready_row. q_pair q = uuid 4 \<and> (has_worker sample_running (q_pair q)
    \<or> (\<exists>r. waits_for sample_running (q_pair q) r \<and> reason_holds 600 (concurrency_limit (sv_db sample_admitted)) sample_running q r))"
proof -
  let ?q = "ready_pairs (sv_db sample_admitted) ! 3"
  have "\<not> sv_stopped sample_admitted" by code_simp
  moreover have "?q \<in> set (ready_pairs (sv_db sample_admitted))" by code_simp
  ultimately have "has_worker (snd (pump 600 sample_admitted)) (q_pair ?q)
    \<or> (\<exists>r. waits_for (snd (pump 600 sample_admitted)) (q_pair ?q) r
          \<and> reason_holds 600 (concurrency_limit (sv_db sample_admitted)) (snd (pump 600 sample_admitted)) ?q r)"
    by (rule pump_work_conserving [OF reachable_service_inv [OF sample_admitted_reachable]])
  moreover have "q_pair ?q = uuid 4" by code_simp
  ultimately show ?thesis unfolding sample_running_def by blast
qed

section \<open>Reachable states\<close>

theorem recovery_completes_witness:
  "\<exists>d'. recover 800 (sv_db sample_running) = Inr d' \<and> store_inv d' \<and> (\<forall>a \<in> set (attempts d'). a_status a \<noteq> ARunning)
     \<and> (\<forall>p \<in> set (pairs d'). \<not> is_active_status (p_status p))"
  by (rule recovery_completes [OF reachable_store_inv reachable_groups]) (rule sample_running_reachable)+

theorem reachable_service_invariant_witness:
  "service_inv sample_running \<and> length (sv_workers sample_running) \<le> 32 \<and> group_load (sv_workers sample_running) ''host:db-a:6'' \<le> 8"
  by (rule reachable_service_invariant [OF sample_running_reachable])

theorem startup_succeeds_witness: "\<exists>sv'. bootstrap hourly 800 (sv_db sample_running) = Inr (None, sv') \<and> reachable hourly sv'"
  by (rule startup_succeeds [OF sample_running_reachable])

theorem finished_work_is_immutable_witness:
  "\<exists>p. find_pair (sv_db sample_done) (uuid 1) = Some p \<and> p_status p = PSuccess
     \<and> find_pair (sv_db (snd (pump 900 sample_done))) (uuid 1) = Some p"
proof -
  let ?r = "find_pair (sv_db sample_done) (uuid 1)"
  have "case ?r of None \<Rightarrow> False | Some p \<Rightarrow> p_status p = PSuccess" by code_simp
  from some_the [OF this] obtain p where p: "?r = Some p" "p_status p = PSuccess" by blast
  from finished_work_is_immutable [OF sample_done_reachable service_step.dispatch, of 900] p
  have "find_pair (sv_db (snd (pump 900 sample_done))) (uuid 1) = Some p" by simp
  with p show ?thesis by blast
qed

theorem execution_ends_with_its_pairs_witness:
  "\<exists>e. find_exec (sv_db sample_running) (uuid 0) = Some e
    \<and> (is_terminal_exec (e_status e) \<longleftrightarrow> (\<forall>p \<in> set (pairs_of (sv_db sample_running) (uuid 0)). is_terminal_pair (p_status p)))
    \<and> (e_finished e \<noteq> None \<longleftrightarrow> is_terminal_exec (e_status e))"
proof -
  let ?r = "find_exec (sv_db sample_running) (uuid 0)"
  have "case ?r of None \<Rightarrow> False | Some p \<Rightarrow> True" by code_simp
  from some_the [OF this] obtain e where e: "?r = Some e" by blast
  from e execution_ends_with_its_pairs [OF sample_running_reachable e] show ?thesis by blast
qed

theorem retries_are_bounded_witness:
  "\<exists>p. find_pair (sv_db sample_running) (uuid 1) = Some p
    \<and> int (length (attempts_of (sv_db sample_running) (uuid 1))) \<le> max 0 (s_retry_count (p_snapshot p)) + 1"
proof -
  let ?r = "find_pair (sv_db sample_running) (uuid 1)"
  have "case ?r of None \<Rightarrow> False | Some p \<Rightarrow> True" by code_simp
  from some_the [OF this] obtain p where p: "?r = Some p" by blast
  from p retries_are_bounded [OF sample_running_reachable p] show ?thesis by blast
qed

theorem stopped_service_starts_nothing_witness:
  "sv_stopped (snd (pump 900 (drain sample_running)))
    \<and> map a_id (attempts (sv_db (snd (pump 900 (drain sample_running))))) = map a_id (attempts (sv_db (drain sample_running)))
    \<and> w_pair ` set (sv_workers (snd (pump 900 (drain sample_running)))) \<subseteq> w_pair ` set (sv_workers (drain sample_running))"
  by (rule stopped_service_starts_nothing [OF _ service_step.dispatch [of hourly]]) (simp add: drain_def)

section \<open>Admission\<close>

theorem enqueue_covers_the_schedule_witness:
  "\<exists>i j. find_job sample_db ''job'' = Some j
    \<and> map (\<lambda>p. (p_connection p, p_target p, p_required p)) (pairs_of sample_queued i)
        = [(c, t, r). (c, ns) \<leftarrow> job_sources sample_db j, (t, r) \<leftarrow> job_destinations sample_db j]"
proof -
  from sample_enqueue obtain i where i: "enqueue 500 ''job'' Manual (Some ''root'') None sample_db = Inr (i, sample_queued)" ..
  have "scheduled_exec sample_db ''job'' None = None" by (simp add: scheduled_exec_def)
  from enqueue_covers_the_schedule [OF sample_db_ok(1) i this] show ?thesis by blast
qed

definition sample_scheduled :: db where
  "sample_scheduled = right_db (enqueue 500 ''job'' Scheduled None (Some 400) sample_db)"

definition sample_scheduled_again :: db where
  "sample_scheduled_again = right_db (enqueue 900 ''job'' Catchup None (Some 400) sample_scheduled)"


definition sample_cancelled :: db where
  "sample_cancelled = right_db (map_sum id (Pair []) (request_cancellation 600 (uuid 0) ''root'' sample_queued))"

lemma sample_cancel: "request_cancellation 600 (uuid 0) ''root'' sample_queued = Inr sample_cancelled"
proof -
  have "is_ok (request_cancellation 600 (uuid 0) ''root'' sample_queued)" by code_simp
  then show ?thesis by (cases "request_cancellation 600 (uuid 0) ''root'' sample_queued") (simp_all add: sample_cancelled_def right_db_def)
qed

lemma sample_cancelled_inv: "store_inv sample_cancelled"
  by (rule request_cancellation_inv [OF sample_queued_inv sample_cancel])

definition sample_retried :: db where
  "sample_retried = right_db (retry_execution 800 (uuid 0) [\<lparr>sel_connection = ''b'', sel_target = ''t1''\<rparr>] ''root'' sample_cancelled)"

theorem retry_covers_the_selection_witness:
  "\<exists>k e'. find_exec sample_retried k = Some e' \<and> e_parent e' = Some (uuid 0)
    \<and> map (\<lambda>p. (p_connection p, p_target p)) (pairs_of sample_retried k) = [(''b'', ''t1'')]"
proof -
  let ?sel = "\<lparr>sel_connection = ''b'', sel_target = ''t1''\<rparr>"
  have "\<exists>k. retry_execution 800 (uuid 0) [?sel] ''root'' sample_cancelled = Inr (k, sample_retried)"
    unfolding sample_retried_def by (rule right_dbI) code_simp
  then obtain k where k: "retry_execution 800 (uuid 0) [?sel] ''root'' sample_cancelled = Inr (k, sample_retried)" ..
  from retry_covers_the_selection [OF sample_cancelled_inv k] obtain e' where
      e': "find_exec sample_retried k = Some e'" "e_parent e' = Some (uuid 0)"
    and "map (\<lambda>p. (p_connection p, p_target p)) (pairs_of sample_retried k) = map (\<lambda>s. (sel_connection s, sel_target s)) [?sel]"
    by blast
  then have "map (\<lambda>p. (p_connection p, p_target p)) (pairs_of sample_retried k) = [(''b'', ''t1'')]"
    by (simp only: list.map pair_selection.select_convs)
  with e' show ?thesis by (intro exI conjI)
qed

section \<open>Schedules\<close>

lemma hourly_advances: "\<forall>e z t t'. hourly e z t = Inr t' \<longrightarrow> t < t'"
  unfolding hourly_def by (auto simp: algebra_simps)

lemma missed_occurrences_pos:
  "0 < fuel \<Longrightarrow> missed_occurrences next now fuel occ n lst =
     (if occ \<le> now then (case next occ of
                          Inl e \<Rightarrow> Inl e
                        | Inr occ' \<Rightarrow> missed_occurrences next now (fuel - 1) occ' (Suc n) occ)
      else Inr (n, lst, occ))"
  by (cases fuel) (auto split: sum.splits)

lemma sample_occurrences: "due_occurrences (hourly e z) 5000 occurrence_bound 1000
    = Inr \<lparr>oc_count = 1, oc_last = 1000, oc_next = 3600000, oc_bounded = False\<rparr>"
  unfolding due_occurrences_def occurrence_bound_def by (simp add: missed_occurrences_pos hourly_def)

theorem due_schedule_advances_witness:
  "\<exists>oc. due_occurrences (hourly ''0 * * * *'' ''UTC'') 5000 occurrence_bound 1000 = Inr oc \<and> 5000 < oc_next oc \<and> 1 \<le> oc_count oc"
  using due_schedule_advances [OF _ _ sample_occurrences [of "''0 * * * *''" "''UTC''"]] hourly_advances sample_occurrences by auto

definition sample_skipped :: db where
  "sample_skipped = right_db (map_sum id (Pair []) (due_job hourly 5000 False sample_job 1000 sample_queued))"

theorem overlap_is_skipped_witness:
  "executions sample_skipped = executions sample_queued \<and> pairs sample_skipped = pairs sample_queued"
proof -
  let ?o = "open_exec sample_queued (j_id sample_job)"
  have "case ?o of None \<Rightarrow> False | Some a \<Rightarrow> True" by code_simp
  from some_the [OF this] obtain a where a: "?o = Some a" by blast
  have pol: "j_overlap sample_job \<noteq> ''queue''" by (simp add: sample_job_def)
  have "is_ok (due_job hourly 5000 False sample_job 1000 sample_queued)"
    using a pol by (simp add: due_job_def sample_occurrences)
  then have "due_job hourly 5000 False sample_job 1000 sample_queued = Inr sample_skipped"
    by (cases "due_job hourly 5000 False sample_job 1000 sample_queued") (simp_all add: sample_skipped_def right_db_def)
  from overlap_is_skipped [OF a pol this] show ?thesis by blast
qed

theorem every_due_schedule_is_handled_witness:
  "advanced (run_jobs hourly 5000 True (due_jobs 5000 sample_db) sample_db) 5000 ''job''
    \<or> reported (run_jobs hourly 5000 True (due_jobs 5000 sample_db) sample_db) ''job''"
  using every_due_schedule_is_handled [OF hourly_advances, of sample_job sample_db 1000 5000 True]
  by (simp add: sample_db_def sample_job_def)

section \<open>The life of a pair\<close>

definition failed_outcome :: pair_outcome where
  "failed_outcome = \<lparr>o_run = ''run'', o_status = OFailed, o_stage = Some ''dump'', o_error = Some ''timeout'', o_warnings = []\<rparr>"

definition sample_worker :: worker where
  "sample_worker = hd (sv_workers sample_running)"

lemma sample_worker_facts:
  "sample_worker \<in> set (sv_workers sample_running)" "w_pair sample_worker = uuid 1"
proof -
  have "sv_workers sample_running \<noteq> []" by code_simp
  then show "sample_worker \<in> set (sv_workers sample_running)" by (simp add: sample_worker_def)
  show "w_pair sample_worker = uuid 1" by code_simp
qed

lemma sample_worker_live: "live (sv_db sample_running) (w_context sample_worker)"
  using reachable_service_inv [OF sample_running_reachable] sample_worker_facts(1)
  by (intro worker_ok_live) (simp add: service_inv_def workers_ok_def)

lemma finish_live: "store_inv d \<Longrightarrow> live d c \<Longrightarrow> \<exists>d'. finish_attempt now c out d = Inr d'"
  using finish_attempt_total by (metis live_def)

theorem outcome_decides_the_pair_witness:
  "\<exists>d' q. finish_attempt 900 (w_context sample_worker) failed_outcome (sv_db sample_running) = Inr d'
    \<and> find_pair d' (uuid 1) = Some q \<and> p_status q = PRetryWait \<and> p_next q = Some 300900"
proof -
  obtain d' where d': "finish_attempt 900 (w_context sample_worker) failed_outcome (sv_db sample_running) = Inr d'"
    using finish_live [OF reachable_store_inv [OF sample_running_reachable] sample_worker_live] by blast
  have "case find_pair (sv_db sample_running) (w_pair sample_worker) of None \<Rightarrow> False
     | Some p \<Rightarrow> p_status p = PRunning \<and> x_number (w_context sample_worker) \<le> s_retry_count (p_snapshot p) \<and> s_retry_delay (p_snapshot p) = 300"
    by code_simp
  from some_the [OF this] obtain p where p: "find_pair (sv_db sample_running) (w_pair sample_worker) = Some p" "p_status p = PRunning"
    "x_number (w_context sample_worker) \<le> s_retry_count (p_snapshot p)" "s_retry_delay (p_snapshot p) = 300" by blast
  from outcome_decides_the_pair [OF sample_running_reachable sample_worker_facts(1) p(1) d'] p(2-) d' sample_worker_facts(2)
  show ?thesis by (auto simp: failed_outcome_def)
qed

theorem cancellation_stops_the_execution_witness:
  "\<exists>e'. find_exec sample_cancelled (uuid 0) = Some e' \<and> e_status e' =
     (if \<exists>p \<in> set (pairs_of sample_queued (uuid 0)). is_active_status (p_status p) then ECancelRequested else ECancelled)"
proof -
  have "case find_exec sample_queued (uuid 0) of None \<Rightarrow> False | Some e \<Rightarrow> \<not> is_terminal_exec (e_status e)" by code_simp
  from some_the [OF this] obtain e where e: "find_exec sample_queued (uuid 0) = Some e" "\<not> is_terminal_exec (e_status e)" by blast
  from cancellation_stops_the_execution [OF sample_queued_inv e sample_cancel] show ?thesis by blast
qed

definition sample_cancelling :: db where
  "sample_cancelling = right_db (map_sum id (Pair []) (request_cancellation 700 (uuid 0) ''root'' (sv_db sample_running)))"

theorem cancellation_completes_witness:
  "\<exists>d' e'. finish_attempt 900 (w_context sample_worker) failed_outcome sample_cancelling = Inr d'
    \<and> find_exec d' (uuid 0) = Some e' \<and> e_status e' \<in> {ECancelRequested, ECancelled}"
proof -
  let ?c = "w_context sample_worker" and ?d = "sv_db sample_running"
  note inv = reachable_store_inv [OF sample_running_reachable]
  have "is_ok (request_cancellation 700 (uuid 0) ''root'' ?d)" by code_simp
  then have rc: "request_cancellation 700 (uuid 0) ''root'' ?d = Inr sample_cancelling"
    by (cases "request_cancellation 700 (uuid 0) ''root'' ?d") (simp_all add: sample_cancelling_def right_db_def)
  have inv': "store_inv sample_cancelling" by (rule request_cancellation_inv [OF inv rc])
  have lv: "live sample_cancelling ?c"
    by (rule live_frame [OF sample_worker_live request_cancellation_frame [OF rc, of "{}"]]) simp
  have "case find_exec sample_cancelling (x_execution ?c) of None \<Rightarrow> False | Some e \<Rightarrow> e_status e = ECancelRequested" by code_simp
  from some_the [OF this] obtain e where e: "find_exec sample_cancelling (x_execution ?c) = Some e" "e_status e = ECancelRequested" by blast
  obtain d' where d': "finish_attempt 900 ?c failed_outcome sample_cancelling = Inr d'" using finish_live [OF inv' lv] by blast
  have x: "x_execution ?c = uuid 0" by code_simp
  from cancellation_completes [OF inv' e lv d'] d' show ?thesis unfolding x by (auto split: if_splits)
qed

theorem work_is_bounded_witness:
  "\<exists>d'. work_step (sv_db sample_running) d' \<and> 1 + work_budget d' \<le> work_budget (sv_db sample_running)"
proof -
  note inv = reachable_store_inv [OF sample_running_reachable]
  obtain d' where "finish_attempt 900 (w_context sample_worker) failed_outcome (sv_db sample_running) = Inr d'"
    using finish_live [OF inv sample_worker_live] by blast
  then have st: "work_step (sv_db sample_running) d'" by (rule work_step.ends [OF sample_worker_live])
  then have "(work_step ^^ 1) (sv_db sample_running) d'" by auto
  from work_is_bounded [OF inv this] st show ?thesis by blast
qed

theorem open_execution_can_progress_witness:
  "\<exists>p now c d'. p \<in> set (pairs_of sample_queued (uuid 0)) \<and>
     (start_attempt now (p_id p) sample_queued = Inr (c, d')
      \<or> (live sample_queued c \<and> x_pair c = p_id p \<and> (\<forall>out. \<exists>d''. finish_attempt now c out sample_queued = Inr d'')))"
proof -
  have "case find_exec sample_queued (uuid 0) of None \<Rightarrow> False | Some e \<Rightarrow> \<not> is_terminal_exec (e_status e)" by code_simp
  from some_the [OF this] obtain e where e: "find_exec sample_queued (uuid 0) = Some e" "\<not> is_terminal_exec (e_status e)" by blast
  show ?thesis by (rule open_execution_can_progress [OF sample_queued_inv e])
qed

end
