(* ===== verification/Js_Text.thy ===== *)
theory Js_Text
  imports Prelude
begin

text \<open>
  The pieces of JavaScript and SQLite text processing that the services outside the queue use:
  \<open>Number.parseInt\<close>, the page parameters of a query, character classes of the regular
  expressions, and SQLite's \<open>LIKE\<close>.
\<close>

section \<open>Characters\<close>

definition is_letter :: "char \<Rightarrow> bool" where
  "is_letter c = (CHR ''A'' \<le> c \<and> c \<le> CHR ''Z'' \<or> CHR ''a'' \<le> c \<and> c \<le> CHR ''z'')"

definition is_alnum :: "char \<Rightarrow> bool" where
  "is_alnum c = (is_letter c \<or> is_digit c)"

section \<open>Numbers\<close>

text \<open>\<open>Number.parseInt(s, 10)\<close>: leading blanks, a sign, then the longest run of digits;
  \<open>None\<close> is NaN. (A run beyond 2^53 would be rounded.)\<close>

definition parse_digits :: "string \<Rightarrow> int option" where
  "parse_digits s = (case takeWhile is_digit s of [] \<Rightarrow> None | ds \<Rightarrow> Some (int (read_nat ds)))"

definition parse_int :: "string \<Rightarrow> int option" where
  "parse_int s =
     (case dropWhile is_space s of
        [] \<Rightarrow> None
      | c # cs \<Rightarrow> if c = CHR ''-'' then map_option uminus (parse_digits cs)
                 else if c = CHR ''+'' then parse_digits cs
                 else parse_digits (c # cs))"

text \<open>\<open>Number.parseInt(String(value || 'fallback'), 10) || fallback\<close>.\<close>

definition int_param :: "int \<Rightarrow> string option \<Rightarrow> int" where
  "int_param fallback v =
     (case v of
        None \<Rightarrow> fallback
      | Some s \<Rightarrow> (case parse_int s of None \<Rightarrow> fallback | Some n \<Rightarrow> if n = 0 then fallback else n))"

text \<open>\<open>Number(s)\<close> of a string: decimal literals with fraction and exponent, \<open>0x\<close>, \<open>0o\<close> and \<open>0b\<close>
  literals, \<open>Infinity\<close>; blank text is 0. (Values are exact here; a double rounds.)\<close>

datatype jsnum = Fin rat | Infinite bool | NaN

definition exponent :: "string \<Rightarrow> int option" where
  "exponent s =
     (let ds = (case s of c # cs \<Rightarrow> if c = CHR ''-'' \<or> c = CHR ''+'' then cs else s | [] \<Rightarrow> s)
      in if ds = [] \<or> \<not> list_all is_digit ds then None
         else Some (if hd s = CHR ''-'' then - int (read_nat ds) else int (read_nat ds)))"

definition unsigned_number :: "string \<Rightarrow> rat option" where
  "unsigned_number s =
     (let ip = takeWhile is_digit s; r = dropWhile is_digit s;
          dot = (case r of c # _ \<Rightarrow> c = CHR ''.'' | [] \<Rightarrow> False);
          fp = (if dot then takeWhile is_digit (tl r) else []);
          rest = (if dot then dropWhile is_digit (tl r) else r)
      in if ip = [] \<and> fp = [] then None
         else let m = of_nat (read_nat (ip @ fp)) / 10 ^ length fp
              in (case rest of
                    [] \<Rightarrow> Some m
                  | e # es \<Rightarrow>
                      if e = CHR ''e'' \<or> e = CHR ''E''
                      then map_option (\<lambda>k. if k \<ge> 0 then m * 10 ^ nat k else m / 10 ^ nat (- k)) (exponent es)
                      else None))"

definition char_value :: "char \<Rightarrow> nat option" where
  "char_value c =
     (if is_digit c then Some (char_digit c)
      else if CHR ''a'' \<le> lower_char c \<and> lower_char c \<le> CHR ''z'' then Some (of_char (lower_char c) - 87) else None)"

fun radix_value :: "nat \<Rightarrow> nat \<Rightarrow> string \<Rightarrow> nat option" where
  "radix_value b acc [] = Some acc"
| "radix_value b acc (c # cs) =
     (case char_value c of None \<Rightarrow> None | Some v \<Rightarrow> if v < b then radix_value b (acc * b + v) cs else None)"

definition js_number :: "string \<Rightarrow> jsnum" where
  "js_number str =
     (let s = trim str;
          radix = (\<lambda>b. if length s > 2 then (case radix_value b 0 (drop 2 s) of None \<Rightarrow> NaN | Some n \<Rightarrow> Fin (of_nat n)) else NaN);
          sgn = (s \<noteq> [] \<and> (hd s = CHR ''-'' \<or> hd s = CHR ''+''));
          neg = (sgn \<and> hd s = CHR ''-'');
          t = (if sgn then tl s else s)
      in if s = [] then Fin 0
         else if to_lower (take 2 s) = ''0x'' then radix 16
         else if to_lower (take 2 s) = ''0o'' then radix 8
         else if to_lower (take 2 s) = ''0b'' then radix 2
         else if t = ''Infinity'' then Infinite neg
         else (case unsigned_number t of None \<Rightarrow> NaN | Some r \<Rightarrow> Fin (if neg then - r else r)))"

type_synonym query = "string \<rightharpoonup> string"

text \<open>The page parameters of the list requests: a page number of at least 1 and 10 to 100 rows.\<close>

definition page_number :: "query \<Rightarrow> int" where
  "page_number q = max 1 (int_param 1 (q ''page''))"

definition page_size :: "query \<Rightarrow> int" where
  "page_size q = min 100 (max 10 (int_param 25 (q ''pageSize'')))"

definition page_count :: "nat \<Rightarrow> int \<Rightarrow> int" where
  "page_count n sz = max 1 ((int n + sz - 1) div sz)"

lemma page_bounds [simp]: "1 \<le> page_number q" "10 \<le> page_size q" "page_size q \<le> 100"
  by (simp_all add: page_number_def page_size_def)

text \<open>\<open>LIMIT n OFFSET k\<close>.\<close>

definition limit_offset :: "int \<Rightarrow> int \<Rightarrow> 'a list \<Rightarrow> 'a list" where
  "limit_offset n k xs = take (nat n) (drop (nat k) xs)"

lemma length_limit_offset: "0 \<le> n \<Longrightarrow> int (length (limit_offset n k xs)) \<le> n"
  by (simp add: limit_offset_def)

section \<open>LIKE\<close>

text \<open>SQLite's \<open>LIKE\<close> on ASCII text: \<open>%\<close> is any text, \<open>_\<close> any character, letters match
  in either case.\<close>

fun sql_like :: "string \<Rightarrow> string \<Rightarrow> bool" where
  "sql_like [] s = (s = [])"
| "sql_like (p # ps) [] = (p = CHR ''%'' \<and> sql_like ps [])"
| "sql_like (p # ps) (c # cs) =
     (if p = CHR ''%'' then sql_like ps (c # cs) \<or> sql_like (p # ps) cs
      else (p = CHR ''_'' \<or> lower_char p = lower_char c) \<and> sql_like ps cs)"

lemma sql_like_any [simp]: "sql_like ''%'' s"
  by (induction s) auto

lemma sql_like_prefix: "sql_like ps s \<Longrightarrow> sql_like (CHR ''%'' # ps) (pre @ s)"
proof (induction pre)
  case Nil
  then show ?case by (cases s) auto
qed simp

end
