(* ===== verification/App_Config.thy ===== *)
theory App_Config
  imports Js_Text
begin

text \<open>
  The configuration of a process (\<open>src/common/app-config.ts\<close>): values of the \<open>.env\<close> file,
  which win over the environment, and the numbers read from the environment. The contents of
  the file (\<open>None\<close>: unreadable) and the environment are the model's \<open>config\<close>.
\<close>

record config =
  cf_file :: "string option"
  cf_env :: "string \<rightharpoonup> string"

definition env_value :: "config \<Rightarrow> string \<Rightarrow> string" where
  "env_value cfg k = (case cf_env cfg k of None \<Rightarrow> [] | Some v \<Rightarrow> v)"

section \<open>The file\<close>

text \<open>\<open>file.split(/\r?\n/)\<close>.\<close>

definition chomp :: "string \<Rightarrow> string" where
  "chomp s = (case rev s of c # cs \<Rightarrow> if c = CHR 0x0D then rev cs else s | [] \<Rightarrow> s)"

definition file_lines :: "string \<Rightarrow> string list" where
  "file_lines s = (let ls = split_on (CHR 0x0A) s in map chomp (butlast ls) @ [last ls])"

text \<open>\<open>/^\s*KEY\s*=/\<close>.\<close>

definition assigns :: "string \<Rightarrow> string \<Rightarrow> bool" where
  "assigns key line =
     (let s = dropWhile is_space line
      in starts_with s key
         \<and> (case dropWhile is_space (drop (length key) s) of c # _ \<Rightarrow> c = CHR ''='' | [] \<Rightarrow> False))"

text \<open>\<open>value.replace(/^(['"])(.*)\1$/, '$2')\<close>: one pair of equal quotes around the value.\<close>

definition unquote :: "string \<Rightarrow> string" where
  "unquote v =
     (if length v \<ge> 2 \<and> hd v \<in> {CHR 0x27, CHR 0x22} \<and> last v = hd v
         \<and> CHR 0x0D \<notin> set v \<and> CHR 0x0A \<notin> set v
      then butlast (tl v) else v)"

definition read_env_file_value :: "config \<Rightarrow> string \<Rightarrow> string" where
  "read_env_file_value cfg key =
     (case cf_file cfg of
        None \<Rightarrow> []
      | Some file \<Rightarrow>
          (case List.find (assigns key) (file_lines file) of
             None \<Rightarrow> []
           | Some line \<Rightarrow> unquote (trim (tl (dropWhile (\<lambda>c. c \<noteq> CHR ''='') line)))))"

definition configured_env_value :: "config \<Rightarrow> string \<Rightarrow> string" where
  "configured_env_value cfg key =
     (let v = read_env_file_value cfg key in if v \<noteq> [] then v else trim (env_value cfg key))"

section \<open>The settings of a process\<close>

definition is_production :: "config \<Rightarrow> bool" where
  "is_production cfg = (to_lower (trim (configured_env_value cfg ''NODE_ENV'')) = ''production'')"

definition environment_name :: "config \<Rightarrow> string" where
  "environment_name cfg = (if is_production cfg then ''production'' else ''development'')"

definition positive_integer :: "string \<Rightarrow> int \<Rightarrow> int" where
  "positive_integer v fallback =
     (case parse_int v of Some n \<Rightarrow> if n > 0 then n else fallback | None \<Rightarrow> fallback)"

definition rate_limit_per_minute :: "config \<Rightarrow> int" where
  "rate_limit_per_minute cfg = positive_integer (env_value cfg ''RATE_LIMIT_PER_MINUTE'') 800"

definition max_login_sessions_per_user :: "config \<Rightarrow> int" where
  "max_login_sessions_per_user cfg = positive_integer (env_value cfg ''MAX_LOGIN_SESSIONS_PER_USER'') 0"

lemma positive_integer_bounds: "0 \<le> f \<Longrightarrow> 0 \<le> positive_integer v f" "0 < f \<Longrightarrow> 0 < positive_integer v f"
  by (auto simp: positive_integer_def split: option.splits)

lemma max_sessions_nonneg [simp]: "0 \<le> max_login_sessions_per_user cfg"
  by (simp add: max_login_sessions_per_user_def positive_integer_bounds)

end
