(* ===== verification/Auth.thy ===== *)
theory Auth
  imports Control_Db App_Config
begin

text \<open>
  Accounts and login sessions (\<open>AuthService\<close>, \<open>src/auth/auth.service.ts\<close>). A method with an
  \<open>await\<close> is split where it waits for bcrypt: a \<open>begin\<close> part, which validates and claims, and
  an \<open>end\<close> part, which writes; other requests run in between. bcrypt is a parameter:
  \<open>hash n p\<close> is the hash of password \<open>p\<close> under the \<open>n\<close>-th salt, \<open>verify p h\<close> the comparison.
  A configuration of the process is a parameter where the limit of sessions is read.
\<close>

section \<open>Requests and sessions\<close>

text \<open>What the guards read of a request: the method, the session cookie and the CSRF header.\<close>

record http_request =
  rq_method :: string
  rq_session :: "string option"
  rq_csrf :: "string option"
  rq_query :: query

record session =
  sn_id :: id
  sn_user :: id
  sn_csrf :: string
  sn_name :: string
  sn_role :: string

definition random_token :: "nat \<Rightarrow> string" where
  "random_token n = ''token-'' @ show_nat n"

lemma random_token_inject [simp]: "random_token m = random_token n \<longleftrightarrow> m = n"
  by (simp add: random_token_def)

lemma random_token_not_Nil [simp]: "random_token n \<noteq> []"
  by (simp add: random_token_def)

definition is_setup_complete :: "db \<Rightarrow> bool" where
  "is_setup_complete d = (users d \<noteq> [])"

definition session_live :: "db \<Rightarrow> time \<Rightarrow> session_row \<Rightarrow> bool" where
  "session_live d now s = (ss_expires s > now \<and> find_user d (ss_user s) \<noteq> None)"

definition get_session :: "http_request \<Rightarrow> time \<Rightarrow> db \<Rightarrow> session option" where
  "get_session rq now d =
     (case rq_session rq of
        None \<Rightarrow> None
      | Some token \<Rightarrow>
          (if token = [] then None
           else case List.find (\<lambda>s. ss_id s = token \<and> session_live d now s) (sessions d) of
                  None \<Rightarrow> None
                | Some s \<Rightarrow> (case find_user d (ss_user s) of
                      None \<Rightarrow> None
                    | Some u \<Rightarrow> Some \<lparr>sn_id = ss_id s, sn_user = ss_user s, sn_csrf = ss_csrf s,
                                       sn_name = u_name u, sn_role = u_role u\<rparr>)))"

definition require_session :: "http_request \<Rightarrow> bool \<Rightarrow> time \<Rightarrow> db \<Rightarrow> session result" where
  "require_session rq write now d =
     (case get_session rq now d of
        None \<Rightarrow> Inl (Unauthorized ''Login required'')
      | Some s \<Rightarrow> if write \<and> rq_csrf rq \<noteq> Some (sn_csrf s) then Inl (Unauthorized ''CSRF validation failed'')
                  else Inr s)"

text \<open>\<open>requireAdmin(request, write)\<close>, and \<open>requireAdmin(request)\<close>, where \<open>write\<close> is by default every
  method but GET.\<close>

definition require_admin_with :: "http_request \<Rightarrow> bool \<Rightarrow> time \<Rightarrow> db \<Rightarrow> session result" where
  "require_admin_with rq write now d =
     (case require_session rq write now d of
        Inl e \<Rightarrow> Inl e
      | Inr s \<Rightarrow> if sn_role s \<noteq> ''admin'' then Inl (Forbidden ''Administrator permission required'') else Inr s)"

definition require_admin :: "http_request \<Rightarrow> time \<Rightarrow> db \<Rightarrow> session result" where
  "require_admin rq now d = require_admin_with rq (rq_method rq \<noteq> ''GET'') now d"

section \<open>Creating sessions\<close>

text \<open>\<open>ORDER BY created_at DESC, id DESC\<close>.\<close>

definition newest_first :: "session_row list \<Rightarrow> session_row list" where
  "newest_first ss = rev (sort_key (\<lambda>s. (ss_created s, ss_id s)) ss)"

definition delete_sessions :: "(session_row \<Rightarrow> bool) \<Rightarrow> db \<Rightarrow> db" where
  "delete_sessions P d = d\<lparr>sessions := filter (\<lambda>s. \<not> P s) (sessions d)\<rparr>"

definition enforce_login_session_limit :: "config \<Rightarrow> time \<Rightarrow> id \<Rightarrow> db \<Rightarrow> db" where
  "enforce_login_session_limit cfg now uid d =
     (let maximum = max_login_sessions_per_user cfg
      in if maximum = 0 then d
         else let d1 = delete_sessions (\<lambda>s. ss_user s = uid \<and> ss_expires s \<le> now) d;
                  active = newest_first (filter (\<lambda>s. ss_user s = uid \<and> ss_expires s > now) (sessions d1));
                  surplus = map ss_id (drop (nat (max 0 (maximum - 1))) active)
              in delete_sessions (\<lambda>s. ss_id s \<in> set surplus) d1)"

definition session_duration :: int where
  "session_duration = 1000 * 60 * 60 * 12"

definition create_session :: "config \<Rightarrow> time \<Rightarrow> id \<Rightarrow> db \<Rightarrow> session_row \<times> db" where
  "create_session cfg now uid d =
     (let d1 = enforce_login_session_limit cfg now uid d;
          s = \<lparr>ss_id = random_token (draws d1), ss_user = uid, ss_csrf = random_token (Suc (draws d1)),
               ss_expires = now + session_duration, ss_created = now\<rparr>
      in (s, d1\<lparr>sessions := sessions d1 @ [s], draws := Suc (Suc (draws d1))\<rparr>))"

section \<open>Accounts\<close>

text \<open>\<open>/^[a-zA-Z0-9_.-]{3,40}$/\<close>.\<close>

definition username_char :: "char \<Rightarrow> bool" where
  "username_char c = (is_alnum c \<or> c = CHR ''_'' \<or> c = CHR ''.'' \<or> c = CHR ''-'')"

definition username_ok :: "string \<Rightarrow> bool" where
  "username_ok s = (3 \<le> length s \<and> length s \<le> 40 \<and> list_all username_char s)"

definition role_ok :: "string \<Rightarrow> bool" where
  "role_ok r = (r \<in> {''admin'', ''operator'', ''viewer''})"

text \<open>\<open>ORDER BY created_at ASC, rowid ASC LIMIT 1\<close>.\<close>

definition primary_user :: "db \<Rightarrow> user_row option" where
  "primary_user d = (case sort_key u_created (users d) of [] \<Rightarrow> None | u # _ \<Rightarrow> Some u)"

definition primary_user_id :: "db \<Rightarrow> id option" where
  "primary_user_id d = map_option u_id (primary_user d)"

definition is_primary_user :: "db \<Rightarrow> id \<Rightarrow> bool" where
  "is_primary_user d i = (primary_user_id d = Some i)"

text \<open>INSERT INTO users, with the UNIQUE constraint of \<open>username\<close>.\<close>

definition name_taken :: "db \<Rightarrow> string \<Rightarrow> bool" where
  "name_taken d n = list_ex (\<lambda>u. u_name u = n) (users d)"

definition insert_user :: "time \<Rightarrow> string \<Rightarrow> string \<Rightarrow> string \<Rightarrow> db \<Rightarrow> (id \<times> db) result" where
  "insert_user now n h role d =
     (if name_taken d n then Inl (Failure ''UNIQUE constraint failed: users.username'')
      else let i = uuid (draws d)
           in Inr (i, d\<lparr>users := users d @ [\<lparr>u_id = i, u_name = n, u_hash = h, u_role = role,
                                              u_created = now, u_last_login = None\<rparr>],
                        draws := Suc (draws d)\<rparr>))"

section \<open>First setup\<close>

definition claim_timeout :: int where
  "claim_timeout = 15 * 60 * 1000"

definition claim_initial_setup :: "time \<Rightarrow> db \<Rightarrow> db result" where
  "claim_initial_setup now d =
     (let d1 = (case setup_claim d of
                  Some t \<Rightarrow> if t \<le> now - claim_timeout \<and> users d = [] then d\<lparr>setup_claim := None\<rparr> else d
                | None \<Rightarrow> d)
      in if setup_claim d1 = None then Inr (d1\<lparr>setup_claim := Some now\<rparr>)
         else Inl (BadRequest (if is_setup_complete d1 then ''Setup has already been completed''
                               else ''Initial setup is already in progress'')))"

definition release_initial_setup :: "db \<Rightarrow> db" where
  "release_initial_setup d = d\<lparr>setup_claim := None\<rparr>"

text \<open>\<open>setup\<close> up to the hash of the password, and the rest, \<open>finally\<close> included.\<close>

definition setup_begin :: "time \<Rightarrow> string \<Rightarrow> string \<Rightarrow> db \<Rightarrow> unit result \<times> db" where
  "setup_begin now n pw d =
     (if \<not> username_ok n then (Inl (BadRequest ''Username must be 3-40 characters''), d)
      else if length pw < 12 then (Inl (BadRequest ''Use a password of at least 12 characters''), d)
      else case claim_initial_setup now d of
             Inl e \<Rightarrow> (Inl e, d)
           | Inr d1 \<Rightarrow> if is_setup_complete d1
                       then (Inl (BadRequest ''Setup has already been completed''), release_initial_setup d1)
                       else (Inr (), d1))"

definition setup_end ::
  "(nat \<Rightarrow> string \<Rightarrow> string) \<Rightarrow> config \<Rightarrow> time \<Rightarrow> string \<Rightarrow> string \<Rightarrow> db \<Rightarrow> session_row result \<times> db" where
  "setup_end hash cfg now n pw d =
     (case insert_user now n (hash (draws d) pw) ''admin'' d of
        Inl e \<Rightarrow> (Inl e, release_initial_setup d)
      | Inr (i, d1) \<Rightarrow> (case create_session cfg now i d1 of
                          (s, d2) \<Rightarrow> (Inr s, release_initial_setup d2)))"

section \<open>Login and logout\<close>

definition find_username :: "db \<Rightarrow> string \<Rightarrow> user_row option" where
  "find_username d n = List.find (\<lambda>u. u_name u = n) (users d)"

definition set_last_login :: "time \<Rightarrow> id \<Rightarrow> db \<Rightarrow> db" where
  "set_last_login now i d = d\<lparr>users := update_where (\<lambda>u. u_id u = i) (\<lambda>u. u\<lparr>u_last_login := Some now\<rparr>) (users d)\<rparr>"

definition login_begin :: "string \<Rightarrow> db \<Rightarrow> user_row result" where
  "login_begin n d =
     (case find_username d n of None \<Rightarrow> Inl (Unauthorized ''Invalid credentials'') | Some u \<Rightarrow> Inr u)"

definition login_end ::
  "(string \<Rightarrow> string \<Rightarrow> bool) \<Rightarrow> config \<Rightarrow> time \<Rightarrow> user_row \<Rightarrow> string \<Rightarrow> db \<Rightarrow> session_row result \<times> db" where
  "login_end verify cfg now u pw d =
     (if \<not> verify pw (u_hash u) then (Inl (Unauthorized ''Invalid credentials''), d)
      else case create_session cfg now (u_id u) (set_last_login now (u_id u) d) of (s, d1) \<Rightarrow> (Inr s, d1))"

definition logout :: "http_request \<Rightarrow> db \<Rightarrow> db" where
  "logout rq d =
     (case rq_session rq of
        None \<Rightarrow> d
      | Some token \<Rightarrow> if token = [] then d else delete_sessions (\<lambda>s. ss_id s = token) d)"

section \<open>Administration of accounts\<close>

record user_view =
  uv_id :: id
  uv_name :: string
  uv_role :: string
  uv_created :: time
  uv_last_login :: "time option"
  uv_primary :: bool

definition view_user :: "db \<Rightarrow> user_row \<Rightarrow> user_view" where
  "view_user d u = \<lparr>uv_id = u_id u, uv_name = u_name u, uv_role = u_role u, uv_created = u_created u,
     uv_last_login = u_last_login u, uv_primary = is_primary_user d (u_id u)\<rparr>"

definition list_users :: "db \<Rightarrow> user_view list" where
  "list_users d = map (view_user d) (sort_key u_name (users d))"

record 'a paged =
  pd_items :: "'a list"
  pd_total :: nat
  pd_page :: int
  pd_size :: int
  pd_count :: int

definition list_users_page :: "query \<Rightarrow> db \<Rightarrow> user_view paged" where
  "list_users_page q d =
     (let search = to_lower (trim (case q ''search'' of None \<Rightarrow> [] | Some s \<Rightarrow> s));
          rows = filter (\<lambda>u. search = []
                   \<or> sql_like (''%'' @ search @ ''%'') (to_lower (u_name u @ '' '' @ u_role u))) (users d);
          n = page_size q
      in \<lparr>pd_items = map (view_user d) (limit_offset n ((page_number q - 1) * n) (sort_key u_name rows)),
          pd_total = length rows, pd_page = page_number q, pd_size = n, pd_count = page_count (length rows) n\<rparr>)"

definition create_user_begin :: "string \<Rightarrow> string \<Rightarrow> string \<Rightarrow> unit result" where
  "create_user_begin n pw role =
     (if \<not> username_ok n then Inl (BadRequest ''Username must be 3-40 characters'')
      else if length pw < 12 then Inl (BadRequest ''Use a password of at least 12 characters'')
      else if \<not> role_ok role then Inl (BadRequest ''Unsupported user role'')
      else Inr ())"

definition create_user_end ::
  "(nat \<Rightarrow> string \<Rightarrow> string) \<Rightarrow> time \<Rightarrow> string \<Rightarrow> string \<Rightarrow> string \<Rightarrow> db \<Rightarrow> user_view option result \<times> db" where
  "create_user_end hash now n pw role d =
     (case insert_user now n (hash (draws d) pw) role d of
        Inl e \<Rightarrow> (Inl e, d)
      | Inr (i, d1) \<Rightarrow> (Inr (List.find (\<lambda>v. uv_name v = n) (list_users d1)), d1))"

definition update_user_begin :: "id \<Rightarrow> string \<Rightarrow> string \<Rightarrow> string \<Rightarrow> db \<Rightarrow> user_row result" where
  "update_user_begin i n pw role d =
     (case find_user d i of
        None \<Rightarrow> Inl (NotFound ''User account not found'')
      | Some target \<Rightarrow>
          (if is_primary_user d i then Inl (Forbidden ''The first administrator is protected and cannot be modified'')
           else if u_role target = ''admin'' then Inl (Forbidden ''Administrators cannot modify another administrator account'')
           else if \<not> username_ok n then Inl (BadRequest ''Username must be 3-40 characters'')
           else if \<not> role_ok role then Inl (BadRequest ''Unsupported user role'')
           else if pw \<noteq> [] \<and> length pw < 12 then Inl (BadRequest ''Use a password of at least 12 characters'')
           else Inr target))"

definition set_account :: "id \<Rightarrow> string \<Rightarrow> string \<Rightarrow> string \<Rightarrow> db \<Rightarrow> db" where
  "set_account i n h role d = d\<lparr>users := update_where (\<lambda>u. u_id u = i)
     (\<lambda>u. u\<lparr>u_name := n, u_hash := h, u_role := role\<rparr>) (users d)\<rparr>"

definition update_user_end ::
  "(nat \<Rightarrow> string \<Rightarrow> string) \<Rightarrow> user_row \<Rightarrow> id \<Rightarrow> string \<Rightarrow> string \<Rightarrow> string \<Rightarrow> db \<Rightarrow> user_view option result \<times> db" where
  "update_user_end hash target i n pw role d =
     (let h = (if pw \<noteq> [] then hash (draws d) pw else u_hash target);
          d1 = (if pw \<noteq> [] then d\<lparr>draws := Suc (draws d)\<rparr> else d)
      in if list_ex (\<lambda>u. u_id u = i) (users d) \<and> list_ex (\<lambda>u. u_name u = n \<and> u_id u \<noteq> i) (users d)
         then (Inl (BadRequest ''That username is already in use''), d1)
         else let d2 = set_account i n h role d1
              in (Inr (List.find (\<lambda>v. uv_id v = i) (list_users d2)), d2))"

definition delete_user :: "id \<Rightarrow> id \<Rightarrow> db \<Rightarrow> db result" where
  "delete_user i current d =
     (if is_primary_user d i then Inl (Forbidden ''The first administrator is protected and cannot be deleted'')
      else if i = current then Inl (BadRequest ''You cannot delete your own account'')
      else case find_user d i of
             None \<Rightarrow> Inl (NotFound ''User account not found'')
           | Some target \<Rightarrow>
               if u_role target = ''admin'' then Inl (Forbidden ''Administrators cannot delete another administrator account'')
               else Inr (d\<lparr>users := filter (\<lambda>u. u_id u \<noteq> i) (users d)\<rparr>))"

section \<open>Active sessions\<close>

record session_view =
  av_user :: id
  av_name :: string
  av_role :: string
  av_created :: time
  av_expires :: time
  av_current :: bool

definition view_session :: "string \<Rightarrow> db \<Rightarrow> session_row \<Rightarrow> session_view" where
  "view_session token d s =
     (let u = find_user d (ss_user s)
      in \<lparr>av_user = ss_user s, av_name = (case u of Some r \<Rightarrow> u_name r | None \<Rightarrow> []),
          av_role = (case u of Some r \<Rightarrow> u_role r | None \<Rightarrow> []),
          av_created = ss_created s, av_expires = ss_expires s, av_current = (ss_id s = token)\<rparr>)"

definition list_active_sessions :: "http_request \<Rightarrow> time \<Rightarrow> db \<Rightarrow> session_view paged \<times> db" where
  "list_active_sessions rq now d =
     (let token = (case rq_session rq of None \<Rightarrow> [] | Some t \<Rightarrow> t);
          d1 = delete_sessions (\<lambda>s. ss_expires s \<le> now \<or> find_user d (ss_user s) = None) d;
          rows = filter (session_live d1 now) (sessions d1);
          n = page_size (rq_query rq);
          count = page_count (length rows) n;
          p = min (page_number (rq_query rq)) count
      in (\<lparr>pd_items = map (view_session token d1) (limit_offset n ((p - 1) * n) (newest_first rows)),
           pd_total = length rows, pd_page = p, pd_size = n, pd_count = count\<rparr>, d1))"

text \<open>The three forced logouts answer the number of sessions they closed.\<close>

definition close_sessions :: "(session_row \<Rightarrow> bool) \<Rightarrow> db \<Rightarrow> nat \<times> db" where
  "close_sessions P d = (length (filter P (sessions d)), delete_sessions P d)"

definition force_logout_user :: "id \<Rightarrow> id \<Rightarrow> db \<Rightarrow> (string \<times> nat \<times> db) result" where
  "force_logout_user i actor d =
     (case find_user d i of
        None \<Rightarrow> Inl (NotFound ''User account not found'')
      | Some target \<Rightarrow>
          (if \<not> is_primary_user d actor \<and> (u_role target = ''admin'' \<or> u_role target = [])
           then Inl (Forbidden ''Only the first administrator can force logout an administrator'')
           else Inr (u_name target, close_sessions (\<lambda>s. ss_user s = i) d)))"

definition lower_role :: "db \<Rightarrow> id \<Rightarrow> bool" where
  "lower_role d i = (case find_user d i of
     Some u \<Rightarrow> u_role u = ''operator'' \<or> u_role u = ''viewer'' | None \<Rightarrow> False)"

definition force_logout_lower_roles :: "db \<Rightarrow> nat \<times> db" where
  "force_logout_lower_roles d = close_sessions (\<lambda>s. lower_role d (ss_user s)) d"

definition force_logout_everyone :: "id \<Rightarrow> db \<Rightarrow> (nat \<times> db) result" where
  "force_logout_everyone actor d =
     (if \<not> is_primary_user d actor then Inl (Forbidden ''Only the first administrator can force logout everyone'')
      else Inr (close_sessions (\<lambda>s. True) d))"

end
