(* ===== verification/Auth_Api.thy ===== *)
theory Auth_Api
  imports Auth
begin

text \<open>
  The handlers of \<open>AuthController\<close> (\<open>src/auth/auth.controller.ts\<close>): guard, service call, and the
  commands to the realtime broker. A handler that waits for bcrypt answers \<open>Waiting\<close>; it is
  continued by \<open>auth_resume\<close>. The end of the theory is the transition system of these
  requests: any number of them may wait while others run.
\<close>

section \<open>Calls and answers\<close>

datatype auth_call =
    GetStatus
  | PostSetup "string option" "string option"
  | PostLogin "string option" "string option"
  | PostLogout
  | GetMe
  | GetUsers
  | PostUser "string option" "string option" "string option"
  | PatchUser id "string option" "string option" "string option"
  | DeleteUser id
  | GetSessions
  | PostLogoutLower
  | PostLogoutAll
  | PostLogoutUser id

definition call_method :: "auth_call \<Rightarrow> string" where
  "call_method c = (case c of
     GetStatus \<Rightarrow> ''GET'' | GetMe \<Rightarrow> ''GET'' | GetUsers \<Rightarrow> ''GET'' | GetSessions \<Rightarrow> ''GET''
   | PatchUser _ _ _ _ \<Rightarrow> ''PATCH'' | DeleteUser _ \<Rightarrow> ''DELETE'' | _ \<Rightarrow> ''POST'')"

datatype broker_call = PublishTopic string | DisconnectUser id | DisconnectAll

datatype pending_auth =
    PSetup time string string
  | PLogin user_row string
  | PCreate string string string
  | PUpdate user_row id string string string

text \<open>\<open>ASession\<close> is the cookie \<open>vb_session\<close> and the CSRF token of the body.\<close>

datatype auth_value =
    AStatus bool
  | ASession id string
  | ALoggedOut
  | AMe session bool
  | AUsers "user_view paged"
  | AUser "user_view option"
  | AOk
  | ASessions "session_view paged"
  | AClosed "string option" nat

datatype auth_answer =
    Answer auth_value "broker_call list"
  | Refused http_error
  | Waiting pending_auth

text \<open>\<open>body.field || fallback\<close>.\<close>

definition text_or :: "string \<Rightarrow> string option \<Rightarrow> string" where
  "text_or fallback v = (case v of None \<Rightarrow> fallback | Some s \<Rightarrow> if s = [] then fallback else s)"

definition session_answer :: "session_row result \<Rightarrow> auth_answer" where
  "session_answer r = (case r of Inl e \<Rightarrow> Refused e | Inr s \<Rightarrow> Answer (ASession (ss_id s) (ss_csrf s)) [])"

definition user_answer :: "user_view option result \<Rightarrow> auth_answer" where
  "user_answer r = (case r of Inl e \<Rightarrow> Refused e | Inr v \<Rightarrow> Answer (AUser v) [])"

section \<open>Handlers\<close>

definition post_setup :: "time \<Rightarrow> string option \<Rightarrow> string option \<Rightarrow> db \<Rightarrow> auth_answer \<times> db" where
  "post_setup now un pw d =
     (let n = text_or [] un; p = text_or [] pw
      in case setup_begin now n p d of
           (Inl e, d1) \<Rightarrow> (Refused e, d1)
         | (Inr _, d1) \<Rightarrow> (Waiting (PSetup now n p), d1))"

definition post_login :: "string option \<Rightarrow> string option \<Rightarrow> db \<Rightarrow> auth_answer \<times> db" where
  "post_login un pw d =
     (case login_begin (text_or [] un) d of
        Inl e \<Rightarrow> (Refused e, d)
      | Inr u \<Rightarrow> (Waiting (PLogin u (text_or [] pw)), d))"

definition post_logout :: "time \<Rightarrow> http_request \<Rightarrow> db \<Rightarrow> auth_answer \<times> db" where
  "post_logout now rq d =
     (case require_session rq True now d of
        Inl e \<Rightarrow> (Refused e, d)
      | Inr s \<Rightarrow> (Answer ALoggedOut [DisconnectUser (sn_user s)], logout rq d))"

definition get_me :: "time \<Rightarrow> http_request \<Rightarrow> db \<Rightarrow> auth_answer \<times> db" where
  "get_me now rq d =
     (case require_session rq False now d of
        Inl e \<Rightarrow> (Refused e, d)
      | Inr s \<Rightarrow> (Answer (AMe s (is_primary_user d (sn_user s))) [], d))"

definition post_user ::
  "time \<Rightarrow> http_request \<Rightarrow> string option \<Rightarrow> string option \<Rightarrow> string option \<Rightarrow> db \<Rightarrow> auth_answer \<times> db" where
  "post_user now rq un pw ro d =
     (case require_admin rq now d of
        Inl e \<Rightarrow> (Refused e, d)
      | Inr s \<Rightarrow>
          (let n = text_or [] un; p = text_or [] pw; role = text_or ''operator'' ro
           in case create_user_begin n p role of
                Inl e \<Rightarrow> (Refused e, d)
              | Inr _ \<Rightarrow> (Waiting (PCreate n p role), d)))"

definition patch_user ::
  "time \<Rightarrow> http_request \<Rightarrow> id \<Rightarrow> string option \<Rightarrow> string option \<Rightarrow> string option \<Rightarrow> db \<Rightarrow> auth_answer \<times> db" where
  "patch_user now rq i un pw ro d =
     (case require_admin rq now d of
        Inl e \<Rightarrow> (Refused e, d)
      | Inr s \<Rightarrow>
          (let n = text_or [] un; p = text_or [] pw; role = text_or ''operator'' ro
           in case update_user_begin i n p role d of
                Inl e \<Rightarrow> (Refused e, d)
              | Inr target \<Rightarrow>
                  (if p = [] then (case update_user_end (\<lambda>k q. q) target i n p role d of
                                     (r, d1) \<Rightarrow> (user_answer r, d1))
                   else (Waiting (PUpdate target i n p role), d))))"

definition delete_user_call :: "time \<Rightarrow> http_request \<Rightarrow> id \<Rightarrow> db \<Rightarrow> auth_answer \<times> db" where
  "delete_user_call now rq i d =
     (case require_admin rq now d of
        Inl e \<Rightarrow> (Refused e, d)
      | Inr s \<Rightarrow> (case delete_user i (sn_user s) d of
                    Inl e \<Rightarrow> (Refused e, d)
                  | Inr d1 \<Rightarrow> (Answer AOk [], d1)))"

definition get_users :: "time \<Rightarrow> http_request \<Rightarrow> db \<Rightarrow> auth_answer \<times> db" where
  "get_users now rq d =
     (case require_admin rq now d of
        Inl e \<Rightarrow> (Refused e, d)
      | Inr s \<Rightarrow> (Answer (AUsers (list_users_page (rq_query rq) d)) [], d))"

definition get_sessions :: "time \<Rightarrow> http_request \<Rightarrow> db \<Rightarrow> auth_answer \<times> db" where
  "get_sessions now rq d =
     (case require_admin rq now d of
        Inl e \<Rightarrow> (Refused e, d)
      | Inr s \<Rightarrow> (case list_active_sessions rq now d of (v, d1) \<Rightarrow> (Answer (ASessions v) [], d1)))"

definition post_logout_lower :: "time \<Rightarrow> http_request \<Rightarrow> db \<Rightarrow> auth_answer \<times> db" where
  "post_logout_lower now rq d =
     (case require_admin rq now d of
        Inl e \<Rightarrow> (Refused e, d)
      | Inr s \<Rightarrow> (case force_logout_lower_roles d of
                    (n, d1) \<Rightarrow> (Answer (AClosed None n) [PublishTopic ''sessions''], d1)))"

definition post_logout_all :: "time \<Rightarrow> http_request \<Rightarrow> db \<Rightarrow> auth_answer \<times> db" where
  "post_logout_all now rq d =
     (case require_admin rq now d of
        Inl e \<Rightarrow> (Refused e, d)
      | Inr s \<Rightarrow> (case force_logout_everyone (sn_user s) d of
                    Inl e \<Rightarrow> (Refused e, d)
                  | Inr (n, d1) \<Rightarrow> (Answer (AClosed None n) [DisconnectAll], d1)))"

definition post_logout_user :: "time \<Rightarrow> http_request \<Rightarrow> id \<Rightarrow> db \<Rightarrow> auth_answer \<times> db" where
  "post_logout_user now rq i d =
     (case require_admin rq now d of
        Inl e \<Rightarrow> (Refused e, d)
      | Inr s \<Rightarrow> (case force_logout_user i (sn_user s) d of
                    Inl e \<Rightarrow> (Refused e, d)
                  | Inr (name, n, d1) \<Rightarrow>
                      (Answer (AClosed (Some name) n) [DisconnectUser i, PublishTopic ''sessions''], d1)))"

definition auth_begin :: "time \<Rightarrow> http_request \<Rightarrow> auth_call \<Rightarrow> db \<Rightarrow> auth_answer \<times> db" where
  "auth_begin now rq c d = (case c of
     GetStatus \<Rightarrow> (Answer (AStatus (is_setup_complete d)) [], d)
   | PostSetup n p \<Rightarrow> post_setup now n p d
   | PostLogin n p \<Rightarrow> post_login n p d
   | PostLogout \<Rightarrow> post_logout now rq d
   | GetMe \<Rightarrow> get_me now rq d
   | GetUsers \<Rightarrow> get_users now rq d
   | PostUser n p r \<Rightarrow> post_user now rq n p r d
   | PatchUser i n p r \<Rightarrow> patch_user now rq i n p r d
   | DeleteUser i \<Rightarrow> delete_user_call now rq i d
   | GetSessions \<Rightarrow> get_sessions now rq d
   | PostLogoutLower \<Rightarrow> post_logout_lower now rq d
   | PostLogoutAll \<Rightarrow> post_logout_all now rq d
   | PostLogoutUser i \<Rightarrow> post_logout_user now rq i d)"

text \<open>What runs after bcrypt answered.\<close>

definition auth_resume ::
  "(nat \<Rightarrow> string \<Rightarrow> string) \<Rightarrow> (string \<Rightarrow> string \<Rightarrow> bool) \<Rightarrow> config \<Rightarrow> time \<Rightarrow> pending_auth \<Rightarrow> db \<Rightarrow> auth_answer \<times> db" where
  "auth_resume hash verify cfg now p d = (case p of
     PSetup t n pw \<Rightarrow> (case setup_end hash cfg now n pw d of (r, d1) \<Rightarrow> (session_answer r, d1))
   | PLogin u pw \<Rightarrow> (case login_end verify cfg now u pw d of (r, d1) \<Rightarrow> (session_answer r, d1))
   | PCreate n pw role \<Rightarrow> (case create_user_end hash now n pw role d of (r, d1) \<Rightarrow> (user_answer r, d1))
   | PUpdate target i n pw role \<Rightarrow>
       (case update_user_end hash target i n pw role d of (r, d1) \<Rightarrow> (user_answer r, d1)))"

section \<open>The transition system\<close>

record auth_state =
  au_db :: db
  au_clock :: time
  au_pending :: "pending_auth list"

definition pending_of :: "auth_answer \<Rightarrow> pending_auth list" where
  "pending_of a = (case a of Waiting p \<Rightarrow> [p] | _ \<Rightarrow> [])"

text \<open>The hash of a first setup takes less than the fifteen minutes after which its claim is stale.\<close>

definition in_time :: "time \<Rightarrow> pending_auth \<Rightarrow> bool" where
  "in_time now p = (case p of PSetup t _ _ \<Rightarrow> now < t + claim_timeout | _ \<Rightarrow> True)"

text \<open>Writes of the other components: the tables of this one keep their rows.\<close>

definition accounts_kept :: "db \<Rightarrow> db \<Rightarrow> bool" where
  "accounts_kept d d' = (users d' = users d \<and> sessions d' = sessions d \<and> setup_claim d' = setup_claim d
     \<and> draws d \<le> draws d')"

inductive auth_step ::
  "(nat \<Rightarrow> string \<Rightarrow> string) \<Rightarrow> (string \<Rightarrow> string \<Rightarrow> bool) \<Rightarrow> config \<Rightarrow> auth_state \<Rightarrow> auth_state \<Rightarrow> bool"
  for hash verify cfg where
  request: "au_clock s \<le> now \<Longrightarrow> rq_method rq = call_method c \<Longrightarrow> auth_begin now rq c (au_db s) = (a, d)
     \<Longrightarrow> auth_step hash verify cfg s
           \<lparr>au_db = d, au_clock = now, au_pending = pending_of a @ au_pending s\<rparr>"
| resumed: "p \<in> set (au_pending s) \<Longrightarrow> au_clock s \<le> now \<Longrightarrow> in_time now p
     \<Longrightarrow> auth_resume hash verify cfg now p (au_db s) = (a, d)
     \<Longrightarrow> auth_step hash verify cfg s
           \<lparr>au_db = d, au_clock = now, au_pending = remove1 p (au_pending s)\<rparr>"
| others: "accounts_kept (au_db s) d \<Longrightarrow> au_clock s \<le> now
     \<Longrightarrow> auth_step hash verify cfg s (s\<lparr>au_db := d, au_clock := now\<rparr>)"
| restarted: "auth_step hash verify cfg s (s\<lparr>au_pending := []\<rparr>)"

inductive auth_steps ::
  "(nat \<Rightarrow> string \<Rightarrow> string) \<Rightarrow> (string \<Rightarrow> string \<Rightarrow> bool) \<Rightarrow> config \<Rightarrow> auth_state \<Rightarrow> auth_state \<Rightarrow> bool"
  for hash verify cfg where
  none: "auth_steps hash verify cfg s s"
| more: "auth_steps hash verify cfg s s' \<Longrightarrow> auth_step hash verify cfg s' s'' \<Longrightarrow> auth_steps hash verify cfg s s''"

definition auth_start :: "auth_state \<Rightarrow> bool" where
  "auth_start s = (users (au_db s) = [] \<and> sessions (au_db s) = [] \<and> setup_claim (au_db s) = None \<and> au_pending s = [])"

inductive_cases auth_stepE: "auth_step hash verify cfg s s'"

end
