(* ===== verification/Auth_Facts.thy ===== *)
theory Auth_Facts
  imports Auth_Api "HOL-Library.Multiset"
begin

text \<open>
  The invariant of accounts and sessions, and how the writes of \<open>Auth\<close> change them. \<open>evolves\<close>
  collects what every write guarantees: well-formedness is kept, the first account keeps its
  place, name, password and role, the number of live sessions of an account stays within the
  limit, and a session that ended stays ended.
\<close>

section \<open>Well-formed accounts\<close>

definition issued :: "db \<Rightarrow> id \<Rightarrow> bool" where
  "issued d i = (\<exists>n < draws d. i = uuid n)"

definition issued_token :: "db \<Rightarrow> string \<Rightarrow> bool" where
  "issued_token d t = (\<exists>n < draws d. t = random_token n)"

definition accounts_ok :: "db \<Rightarrow> bool" where
  "accounts_ok d \<longleftrightarrow>
     distinct (map u_id (users d)) \<and> distinct (map u_name (users d)) \<and> distinct (map ss_id (sessions d))
   \<and> sorted (map u_created (users d))
   \<and> (\<forall>u \<in> set (users d). issued d (u_id u))
   \<and> (\<forall>s \<in> set (sessions d). issued_token d (ss_id s) \<and> issued d (ss_user s))
   \<and> (users d \<noteq> [] \<longrightarrow> u_role (hd (users d)) = ''admin'')"

definition created_by :: "time \<Rightarrow> db \<Rightarrow> bool" where
  "created_by now d = (\<forall>u \<in> set (users d). u_created u \<le> now)"

definition first_kept :: "db \<Rightarrow> db \<Rightarrow> bool" where
  "first_kept d d' = (users d \<noteq> [] \<longrightarrow> users d' \<noteq> []
     \<and> (\<exists>t. hd (users d') = (hd (users d))\<lparr>u_last_login := t\<rparr>))"

definition live_sessions :: "time \<Rightarrow> db \<Rightarrow> id \<Rightarrow> session_row list" where
  "live_sessions now d i = filter (\<lambda>s. ss_user s = i \<and> ss_expires s > now) (sessions d)"

definition within_limit :: "config \<Rightarrow> time \<Rightarrow> db \<Rightarrow> bool" where
  "within_limit cfg now d = (0 < max_login_sessions_per_user cfg \<longrightarrow>
     (\<forall>i. int (length (live_sessions now d i)) \<le> max_login_sessions_per_user cfg))"

definition ended :: "time \<Rightarrow> db \<Rightarrow> string \<Rightarrow> bool" where
  "ended now d t = (\<forall>s \<in> set (sessions d). ss_id s = t \<longrightarrow> \<not> session_live d now s)"

definition evolves :: "config \<Rightarrow> time \<Rightarrow> db \<Rightarrow> db \<Rightarrow> bool" where
  "evolves cfg now d d' \<longleftrightarrow> (accounts_ok d \<and> created_by now d \<longrightarrow>
     accounts_ok d' \<and> created_by now d' \<and> first_kept d d' \<and> draws d \<le> draws d'
   \<and> (within_limit cfg now d \<longrightarrow> within_limit cfg now d')
   \<and> (\<forall>t. issued_token d t \<longrightarrow> ended now d t \<longrightarrow> ended now d' t))"

lemma issued_mono: "issued d i \<Longrightarrow> draws d \<le> draws d' \<Longrightarrow> issued d' i"
  by (auto simp: issued_def)

lemma issued_token_mono: "issued_token d i \<Longrightarrow> draws d \<le> draws d' \<Longrightarrow> issued_token d' i"
  by (auto simp: issued_token_def)

lemma not_issued_next [simp]: "\<not> issued d (uuid (draws d))" "\<not> issued_token d (random_token (draws d))"
  by (simp_all add: issued_def issued_token_def)

lemma same_but_login [simp]: "\<exists>t. u = u\<lparr>u_last_login := t\<rparr>"
  by (rule exI [of _ "u_last_login u"]) simp

lemma first_kept_refl [simp]: "first_kept d d"
  by (simp add: first_kept_def)

lemma first_kept_trans: "first_kept a b \<Longrightarrow> first_kept b c \<Longrightarrow> first_kept a c"
  by (auto simp: first_kept_def)

lemma first_kept_same:
  assumes "users d' = users d"
  shows "first_kept d d'"
  using first_kept_refl [of d] unfolding first_kept_def assms .

lemma evolves_refl [simp]: "evolves cfg now d d"
  by (simp add: evolves_def)

lemma evolves_trans:
  assumes "evolves cfg now a b" and "evolves cfg now b c"
  shows "evolves cfg now a c"
  unfolding evolves_def
proof
  assume "accounts_ok a \<and> created_by now a"
  moreover from this assms have "accounts_ok b" "created_by now b" "draws a \<le> draws b" by (simp_all add: evolves_def)
  ultimately show "accounts_ok c \<and> created_by now c \<and> first_kept a c \<and> draws a \<le> draws c
     \<and> (within_limit cfg now a \<longrightarrow> within_limit cfg now c)
     \<and> (\<forall>t. issued_token a t \<longrightarrow> ended now a t \<longrightarrow> ended now c t)"
    using assms first_kept_trans [of a b c] issued_token_mono [of a _ b] unfolding evolves_def by force
qed

text \<open>Writes outside the accounts.\<close>

lemma evolves_same:
  assumes "users d' = users d" and "sessions d' = sessions d" and "draws d \<le> draws d'"
  shows "evolves cfg now d d'"
proof -
  have "session_live d' now = session_live d now"
    using assms(1) by (simp add: session_live_def find_user_def fun_eq_iff)
  then show ?thesis
    using assms first_kept_same [OF assms(1)] issued_mono [of d _ d'] issued_token_mono [of d _ d']
    by (auto simp: evolves_def accounts_ok_def created_by_def within_limit_def live_sessions_def ended_def)
qed

section \<open>Sessions are deleted and created\<close>

lemma delete_sessions_simps [simp]:
  "users (delete_sessions P d) = users d" "draws (delete_sessions P d) = draws d"
  "sessions (delete_sessions P d) = filter (\<lambda>s. \<not> P s) (sessions d)"
  "setup_claim (delete_sessions P d) = setup_claim d"
  by (simp_all add: delete_sessions_def)

lemma session_live_same: "users d' = users d \<Longrightarrow> session_live d' now s = session_live d now s"
  by (simp add: session_live_def find_user_def)

lemma live_sessions_delete:
  "live_sessions now (delete_sessions P d) i = filter (\<lambda>s. \<not> P s) (live_sessions now d i)"
  by (auto simp: live_sessions_def intro: filter_cong)

lemma evolves_fewer_sessions:
  assumes "users d' = users d" and "draws d' = draws d" and "sessions d' = filter Q (sessions d)"
  shows "evolves cfg now d d'"
  unfolding evolves_def
proof (intro impI conjI allI)
  assume ok: "accounts_ok d \<and> created_by now d"
  then show "accounts_ok d'"
    using assms by (simp add: accounts_ok_def distinct_map_filter issued_def issued_token_def)
  show "created_by now d'" using ok assms(1) by (simp add: created_by_def)
  show "first_kept d d'" using assms(1) by (rule first_kept_same)
  show "draws d \<le> draws d'" using assms(2) by simp
next
  assume lim: "within_limit cfg now d"
  have "length (live_sessions now d' i) \<le> length (live_sessions now d i)" for i
  proof -
    have "live_sessions now d' i = filter Q (live_sessions now d i)"
      using assms(3) by (auto simp: live_sessions_def conj_commute intro: filter_cong)
    then show ?thesis by simp
  qed
  with lim show "within_limit cfg now d'"
    unfolding within_limit_def by (meson of_nat_mono order_trans)
next
  fix t assume "ended now d t"
  with assms(3) session_live_same [OF assms(1)] show "ended now d' t" by (simp add: ended_def)
qed

lemma evolves_delete_sessions [simp]: "evolves cfg now d (delete_sessions P d)"
  by (rule evolves_fewer_sessions [where Q = "\<lambda>s. \<not> P s"]) simp_all

lemma newest_first_mset [simp]: "mset (newest_first ss) = mset ss"
  by (simp add: newest_first_def)

lemma set_newest_first [simp]: "set (newest_first ss) = set ss"
  by (simp add: newest_first_def)

lemma length_filter_mset: "mset xs = mset ys \<Longrightarrow> length (filter P xs) = length (filter P ys)"
  by (metis mset_filter size_mset)

lemma survivors_at_most:
  assumes "mset ys = mset xs"
  shows "length (filter (\<lambda>x. f x \<notin> f ` set (drop k ys)) xs) \<le> k"
proof -
  let ?P = "\<lambda>x. f x \<notin> f ` set (drop k ys)"
  have "filter ?P ys = filter ?P (take k ys) @ filter ?P (drop k ys)"
    by (metis append_take_drop_id filter_append)
  also have "filter ?P (drop k ys) = []" by (auto simp: filter_empty_conv)
  finally have "length (filter ?P ys) \<le> length (take k ys)" by (metis append_Nil2 length_filter_le)
  then show ?thesis using length_filter_mset [OF assms, of ?P] by simp
qed

lemma enforce_simps [simp]:
  "users (enforce_login_session_limit cfg now i d) = users d"
  "draws (enforce_login_session_limit cfg now i d) = draws d"
  "setup_claim (enforce_login_session_limit cfg now i d) = setup_claim d"
  by (simp_all add: enforce_login_session_limit_def Let_def)

lemma evolves_enforce [simp]: "evolves cfg now d (enforce_login_session_limit cfg now i d)"
  unfolding enforce_login_session_limit_def Let_def
  by (simp add: evolves_trans [OF evolves_delete_sessions evolves_delete_sessions] del: delete_sessions_simps)

lemma enforce_makes_room:
  assumes "0 < max_login_sessions_per_user cfg"
  shows "int (length (live_sessions now (enforce_login_session_limit cfg now i d) i))
           \<le> max_login_sessions_per_user cfg - 1"
proof -
  let ?m = "max_login_sessions_per_user cfg"
  let ?d1 = "delete_sessions (\<lambda>s. ss_user s = i \<and> ss_expires s \<le> now) d"
  let ?act = "live_sessions now ?d1 i"
  let ?gone = "drop (nat (max 0 (?m - 1))) (newest_first ?act)"
  have "enforce_login_session_limit cfg now i d = delete_sessions (\<lambda>s. ss_id s \<in> set (map ss_id ?gone)) ?d1"
    using assms by (simp add: enforce_login_session_limit_def Let_def live_sessions_def del: delete_sessions_simps filter_filter)
  then have "live_sessions now (enforce_login_session_limit cfg now i d) i
          = filter (\<lambda>s. ss_id s \<notin> ss_id ` set ?gone) ?act"
    using live_sessions_delete [of now _ ?d1 i] by simp
  then have "length (live_sessions now (enforce_login_session_limit cfg now i d) i) \<le> nat (max 0 (?m - 1))"
    using survivors_at_most [of "newest_first ?act" ?act ss_id "nat (max 0 (?m - 1))"] by simp
  then show ?thesis using assms by linarith
qed

lemma create_session_simps [simp]:
  "users (snd (create_session cfg now i d)) = users d"
  "setup_claim (snd (create_session cfg now i d)) = setup_claim d"
  "draws (snd (create_session cfg now i d)) = Suc (Suc (draws d))"
  by (simp_all add: create_session_def Let_def)

lemma evolves_create_session:
  assumes "issued d i"
  shows "evolves cfg now d (snd (create_session cfg now i d))"
proof -
  define d1 where "d1 = enforce_login_session_limit cfg now i d"
  define s where "s = fst (create_session cfg now i d)"
  have s: "ss_id s = random_token (draws d)" "ss_user s = i" "ss_expires s > now"
    and d': "snd (create_session cfg now i d) = d1\<lparr>sessions := sessions d1 @ [s], draws := Suc (Suc (draws d1))\<rparr>"
    by (simp_all add: s_def create_session_def Let_def d1_def session_duration_def)
  have i: "issued d1 i" and tok: "ss_id s = random_token (draws d1)"
    using assms s(1) by (simp_all add: d1_def issued_def)
  have "evolves cfg now d1 (snd (create_session cfg now i d))"
    unfolding evolves_def d'
  proof (intro impI conjI allI)
    assume ok: "accounts_ok d1 \<and> created_by now d1"
    have new: "random_token (draws d1) \<notin> ss_id ` set (sessions d1)"
      using ok not_issued_next(2) by (metis accounts_ok_def imageE)
    have more: "issued_token d1 t \<Longrightarrow> \<exists>n < Suc (Suc (draws d1)). t = random_token n"
      "issued d1 t \<Longrightarrow> \<exists>n < Suc (Suc (draws d1)). t = uuid n" for t
      by (auto simp: issued_token_def issued_def intro: less_SucI)
    show "accounts_ok (d1\<lparr>sessions := sessions d1 @ [s], draws := Suc (Suc (draws d1))\<rparr>)"
      using ok new more i tok s(2) by (auto simp: accounts_ok_def issued_def issued_token_def)
    show "created_by now (d1\<lparr>sessions := sessions d1 @ [s], draws := Suc (Suc (draws d1))\<rparr>)"
      using ok by (simp add: created_by_def)
  next
    assume lim: "within_limit cfg now d1"
    have "int (length (live_sessions now (d1\<lparr>sessions := sessions d1 @ [s], draws := Suc (Suc (draws d1))\<rparr>) j))
            \<le> max_login_sessions_per_user cfg" if pos: "0 < max_login_sessions_per_user cfg" for j
    proof (cases "j = i")
      case True
      with enforce_makes_room [OF pos, of now i d] s show ?thesis by (simp add: live_sessions_def d1_def)
    next
      case False
      with lim pos s show ?thesis by (simp add: live_sessions_def within_limit_def)
    qed
    then show "within_limit cfg now (d1\<lparr>sessions := sessions d1 @ [s], draws := Suc (Suc (draws d1))\<rparr>)"
      by (simp add: within_limit_def)
  next
    fix t assume "issued_token d1 t" and "ended now d1 t"
    moreover from this have "t \<noteq> random_token (draws d1)" using not_issued_next(2) by metis
    ultimately show "ended now (d1\<lparr>sessions := sessions d1 @ [s], draws := Suc (Suc (draws d1))\<rparr>) t"
      using tok by (auto simp: ended_def session_live_def find_user_def)
  qed (simp_all add: first_kept_same)
  then show ?thesis using evolves_trans [OF evolves_enforce [of cfg now d i, folded d1_def]] by blast
qed

section \<open>Accounts are written\<close>

lemma set_last_login_simps [simp]:
  "sessions (set_last_login now i d) = sessions d" "draws (set_last_login now i d) = draws d"
  "setup_claim (set_last_login now i d) = setup_claim d"
  "users (set_last_login now i d) = update_where (\<lambda>u. u_id u = i) (\<lambda>u. u\<lparr>u_last_login := Some now\<rparr>) (users d)"
  by (simp_all add: set_last_login_def)

lemma set_account_simps [simp]:
  "sessions (set_account i n h r d) = sessions d" "draws (set_account i n h r d) = draws d"
  "setup_claim (set_account i n h r d) = setup_claim d"
  "users (set_account i n h r d) = update_where (\<lambda>u. u_id u = i) (\<lambda>u. u\<lparr>u_name := n, u_hash := h, u_role := r\<rparr>) (users d)"
  by (simp_all add: set_account_def)

lemma update_where_Nil_iff [simp]: "update_where P f rs = [] \<longleftrightarrow> rs = []"
  by (simp add: update_where_def)

lemma hd_update_where: "rs \<noteq> [] \<Longrightarrow> hd (update_where P f rs) = (if P (hd rs) then f (hd rs) else hd rs)"
  by (cases rs) auto

text \<open>Updates that keep ids and creation times, and the first account but for its last login.\<close>

lemma evolves_update_users:
  assumes d': "users d' = update_where P f (users d)" "sessions d' = sessions d" "draws d' = draws d"
    and keep: "\<And>u. u_id (f u) = u_id u" "\<And>u. u_created (f u) = u_created u"
    and first: "users d \<noteq> [] \<Longrightarrow> P (hd (users d)) \<Longrightarrow> \<exists>t. f (hd (users d)) = (hd (users d))\<lparr>u_last_login := t\<rparr>"
    and names: "distinct (map u_id (users d)) \<Longrightarrow> distinct (map u_name (users d)) \<Longrightarrow> distinct (map u_name (users d'))"
  shows "evolves cfg now d d'"
  unfolding evolves_def
proof (intro impI conjI allI)
  have ids: "map u_id (users d') = map u_id (users d)" and cr: "map u_created (users d') = map u_created (users d)"
    unfolding d'(1) by (rule map_update_where, rule keep)+
  have live: "session_live d' now = session_live d now"
  proof
    fix s :: session_row
    have "find_user d' (ss_user s) = None \<longleftrightarrow> find_user d (ss_user s) = None"
      unfolding find_user_def find_key_None using arg_cong [OF ids, of set] by simp
    then show "session_live d' now s = session_live d now s" by (simp add: session_live_def)
  qed
  show fk: "first_kept d d'"
    using first by (auto simp: first_kept_def d'(1) hd_update_where)
  {
    assume ok: "accounts_ok d \<and> created_by now d"
    have hd: "users d' \<noteq> [] \<longrightarrow> u_role (hd (users d')) = ''admin''"
    proof
      assume ne: "users d' \<noteq> []"
      then have ne0: "users d \<noteq> []" by (simp add: d'(1))
      with fk obtain t where "hd (users d') = (hd (users d))\<lparr>u_last_login := t\<rparr>" by (auto simp: first_kept_def)
      with ok ne0 show "u_role (hd (users d')) = ''admin''" by (simp add: accounts_ok_def)
    qed
    have iss: "\<forall>u \<in> set (users d'). issued d' (u_id u)"
    proof
      fix u assume "u \<in> set (users d')"
      then have "u_id u \<in> set (map u_id (users d'))" by simp
      then show "issued d' (u_id u)" using ok d'(3) unfolding ids by (auto simp: accounts_ok_def issued_def)
    qed
    show "accounts_ok d'"
      using ok hd iss names d'(2,3) unfolding accounts_ok_def ids cr by (simp add: issued_def issued_token_def)
    show "created_by now d'"
    proof -
      have "\<forall>c \<in> set (map u_created (users d')). c \<le> now" unfolding cr using ok by (simp add: created_by_def)
      then show ?thesis by (simp add: created_by_def)
    qed
  }
  { assume "within_limit cfg now d" then show "within_limit cfg now d'"
      using d'(2) by (simp add: within_limit_def live_sessions_def) }
  { fix t assume "ended now d t" then show "ended now d' t" using d'(2) live by (simp add: ended_def) }
qed (use d'(3) in simp)

lemma evolves_set_last_login [simp]: "evolves cfg now d (set_last_login now' i d)"
proof (rule evolves_update_users [where P = "\<lambda>u. u_id u = i" and f = "\<lambda>u. u\<lparr>u_last_login := Some now'\<rparr>"])
  show "distinct (map u_name (users (set_last_login now' i d)))" if "distinct (map u_name (users d))"
    using that by (simp add: map_update_where)
qed auto

lemma evolves_set_account:
  assumes "users d \<noteq> []" and "u_id (hd (users d)) \<noteq> i"
    and "list_ex (\<lambda>u. u_id u = i) (users d) \<Longrightarrow> \<not> list_ex (\<lambda>u. u_name u = n \<and> u_id u \<noteq> i) (users d)"
  shows "evolves cfg now d (set_account i n h r d)"
proof (rule evolves_update_users [where P = "\<lambda>u. u_id u = i" and f = "\<lambda>u. u\<lparr>u_name := n, u_hash := h, u_role := r\<rparr>"])
  assume ids: "distinct (map u_id (users d))" and names: "distinct (map u_name (users d))"
  have "distinct (map u_name (update_where (\<lambda>u. u_id u = i) (\<lambda>u. u\<lparr>u_name := n, u_hash := h, u_role := r\<rparr>) us))"
    if "distinct (map u_id us)" "distinct (map u_name us)"
      "list_ex (\<lambda>u. u_id u = i) us \<Longrightarrow> \<not> list_ex (\<lambda>u. u_name u = n \<and> u_id u \<noteq> i) us" for us
    using that
  proof (induction us)
    case (Cons u us)
    show ?case
    proof (cases "u_id u = i")
      case True
      have other: "u_id x \<noteq> i" if "x \<in> set us" for x
        using Cons.prems(1) True imageI [OF that, of u_id] by auto
      then have "update_where (\<lambda>u. u_id u = i) (\<lambda>u. u\<lparr>u_name := n, u_hash := h, u_role := r\<rparr>) us = us"
        unfolding update_where_def by (intro map_idI) simp
      moreover have "n \<notin> u_name ` set us" using Cons.prems(3) True other by (auto simp: list_ex_iff)
      ultimately show ?thesis using Cons.prems(2) True by simp
    next
      case False
      have "u_name u \<notin> u_name ` set (update_where (\<lambda>u. u_id u = i) (\<lambda>u. u\<lparr>u_name := n, u_hash := h, u_role := r\<rparr>) us)"
        using Cons.prems(2,3) False by (fastforce simp: in_set_update_where list_ex_iff split: if_splits)
      with Cons False show ?thesis by (auto simp: list_ex_iff)
    qed
  qed simp
  from this [OF ids names assms(3)] show "distinct (map u_name (users (set_account i n h r d)))" by simp
qed (use assms in auto)

text \<open>A row is appended to the accounts, or one that is not the first is deleted.\<close>

lemma insert_user_Inr:
  assumes "insert_user now n h r d = Inr (i, d')"
  shows "i = uuid (draws d)" "draws d' = Suc (draws d)" "sessions d' = sessions d" "setup_claim d' = setup_claim d"
    "users d' = users d @ [\<lparr>u_id = i, u_name = n, u_hash = h, u_role = r, u_created = now, u_last_login = None\<rparr>]"
    "\<not> name_taken d n"
  using assms by (auto simp: insert_user_def Let_def split: if_splits)

lemma evolves_insert_user:
  assumes ins: "insert_user now n h r d = Inr (i, d')" and admin: "users d = [] \<Longrightarrow> r = ''admin''"
  shows "evolves cfg now d d'" "issued d' i"
proof -
  note d' = insert_user_Inr [OF ins]
  show iss: "issued d' i" using d'(1,2) by (auto simp: issued_def)
  show "evolves cfg now d d'"
    unfolding evolves_def
  proof (intro impI conjI allI)
    assume ok: "accounts_ok d \<and> created_by now d"
    have mono: "\<And>j. issued d j \<Longrightarrow> issued d' j" "\<And>t. issued_token d t \<Longrightarrow> issued_token d' t"
      using d'(2) issued_mono issued_token_mono by auto
    have "i \<notin> u_id ` set (users d)" using ok d'(1) not_issued_next(1) by (metis accounts_ok_def imageE)
    moreover have "n \<notin> u_name ` set (users d)" using d'(6) by (auto simp: name_taken_def list_ex_iff)
    ultimately show "accounts_ok d'"
      using ok d'(3,5) iss mono admin by (auto simp: accounts_ok_def created_by_def sorted_append hd_append)
    show "created_by now d'" using ok d'(5) by (auto simp: created_by_def)
    show "first_kept d d'" using d'(5) by (simp add: first_kept_def hd_append)
    show "draws d \<le> draws d'" using d'(2) by simp
  next
    assume "within_limit cfg now d"
    then show "within_limit cfg now d'" using d'(3) by (simp add: within_limit_def live_sessions_def)
  next
    fix t assume ok: "accounts_ok d \<and> created_by now d" and e: "ended now d t"
    have "session_live d' now s = session_live d now s" if "s \<in> set (sessions d)" for s
    proof -
      have "ss_user s \<noteq> i" using ok that d'(1) not_issued_next(1) by (metis accounts_ok_def)
      then have "find_user d' (ss_user s) = find_user d (ss_user s)"
        unfolding find_user_def d'(5) find_append
        by (cases "List.find (\<lambda>u. u_id u = ss_user s) (users d)") (simp_all del: find_key_None)
      then show ?thesis by (simp add: session_live_def)
    qed
    with e show "ended now d' t" by (simp add: ended_def d'(3))
  qed
qed

lemma evolves_drop_user:
  assumes d': "d' = d\<lparr>users := filter (\<lambda>u. u_id u \<noteq> i) (users d)\<rparr>"
    and first: "users d \<noteq> [] \<Longrightarrow> u_id (hd (users d)) \<noteq> i"
  shows "evolves cfg now d d'"
  unfolding evolves_def
proof (intro impI conjI allI)
  have hd: "users d' \<noteq> [] \<and> hd (users d') = hd (users d)" if "users d \<noteq> []"
    using first [OF that] that by (cases "users d") (simp_all add: d')
  assume ok: "accounts_ok d \<and> created_by now d"
  then show "accounts_ok d'"
    using hd by (cases "users d = []")
      (auto simp: d' accounts_ok_def distinct_map_filter issued_def issued_token_def intro: sorted_filter)
  show "created_by now d'" using ok by (simp add: d' created_by_def)
  show "first_kept d d'" using hd by (simp add: first_kept_def)
  show "draws d \<le> draws d'" by (simp add: d')
next
  assume "within_limit cfg now d"
  then show "within_limit cfg now d'" by (simp add: d' within_limit_def live_sessions_def)
next
  fix t assume "ended now d t"
  then show "ended now d' t"
    by (auto simp: d' ended_def session_live_def find_user_def find_None_iff)
qed

lemma primary_is_first:
  assumes "sorted (map u_created (users d))"
  shows "primary_user d = (case users d of [] \<Rightarrow> None | u # _ \<Rightarrow> Some u)"
  using assms by (simp add: primary_user_def sort_key_id_if_sorted sorted_sort_id)

end
