(* ===== verification/Auth_Props.thy ===== *)
theory Auth_Props
  imports Auth_Facts
begin

text \<open>
  The properties of accounts and sessions over all interleavings of the authentication requests:
  one first administrator, who can never be removed, renamed or demoted; the limit of login
  sessions; sessions that ended stay ended.
\<close>

section \<open>Requests\<close>

text \<open>Without an account nobody is logged in.\<close>

lemma no_users_no_session:
  assumes "users d = []"
  shows "get_session rq now d = None" "require_session rq w now d = Inl (Unauthorized ''Login required'')"
    "require_admin rq now d = Inl (Unauthorized ''Login required'')"
proof -
  show *: "get_session rq now d = None"
    using assms by (auto simp: get_session_def find_user_def split: option.splits)
  then show "require_session rq w now d = Inl (Unauthorized ''Login required'')" for w
    by (simp add: require_session_def)
  then show "require_admin rq now d = Inl (Unauthorized ''Login required'')"
    by (simp add: require_admin_def require_admin_with_def)
qed

lemma claim_Inr:
  assumes "claim_initial_setup now d = Inr d'"
  shows "d' = d\<lparr>setup_claim := Some now\<rparr>"
    "setup_claim d = None \<or> (\<exists>t. setup_claim d = Some t \<and> t \<le> now - claim_timeout \<and> users d = [])"
  using assms by (auto simp: claim_initial_setup_def Let_def split: option.splits if_splits)

lemma setup_begin_cases:
  assumes "setup_begin now n pw d = (r, d')"
  obtains "d' = d" "r \<noteq> Inr ()"
  | "d' = d\<lparr>setup_claim := None\<rparr>" "r \<noteq> Inr ()" "users d \<noteq> []"
  | "d' = d\<lparr>setup_claim := Some now\<rparr>" "r = Inr ()" "users d = []"
      "setup_claim d = None \<or> (\<exists>t. setup_claim d = Some t \<and> t \<le> now - claim_timeout)"
proof (cases "claim_initial_setup now d")
  case (Inl e)
  with assms have "d' = d \<and> r \<noteq> Inr ()" by (auto simp: setup_begin_def split: if_splits)
  with that(1) show ?thesis by blast
next
  case (Inr d1)
  note c = claim_Inr [OF Inr]
  from assms Inr c that show ?thesis
    by (auto simp: setup_begin_def is_setup_complete_def release_initial_setup_def split: if_splits)
qed

lemma evolves_setup_claim [simp]: "evolves cfg now d (d\<lparr>setup_claim := c\<rparr>)"
  by (rule evolves_same) simp_all

lemma update_user_end_evolves:
  assumes "users d \<noteq> []" and "u_id (hd (users d)) \<noteq> i" and "update_user_end hash target i n pw role d = (r, d')"
  shows "evolves cfg now d d'"
proof -
  define d1 where "d1 = (if pw \<noteq> [] then d\<lparr>draws := Suc (draws d)\<rparr> else d)"
  have d1: "evolves cfg now d d1" "users d1 = users d" by (auto simp: d1_def intro: evolves_same)
  have "d' = d1 \<or> (\<exists>h. d' = set_account i n h role d1
          \<and> \<not> (list_ex (\<lambda>u. u_id u = i) (users d1) \<and> list_ex (\<lambda>u. u_name u = n \<and> u_id u \<noteq> i) (users d1)))"
    using assms(3) by (auto simp: update_user_end_def Let_def d1_def split: if_splits)
  then show ?thesis
    using evolves_set_account [of d1 i n] evolves_trans [OF d1(1)] d1 assms(1,2) by metis
qed

lemma update_user_begin_first:
  assumes "update_user_begin i n pw role d = Inr target" and "accounts_ok d"
  shows "users d \<noteq> []" "u_id (hd (users d)) \<noteq> i"
proof -
  from assms(1) have f: "find_user d i \<noteq> None" and np: "\<not> is_primary_user d i"
    by (auto simp: update_user_begin_def split: option.splits if_splits)
  from f show "users d \<noteq> []" by (auto simp: find_user_def)
  then show "u_id (hd (users d)) \<noteq> i"
    using np assms(2) primary_is_first [of d]
    by (cases "users d") (auto simp: accounts_ok_def is_primary_user_def primary_user_id_def)
qed

lemma delete_user_first:
  assumes "delete_user i me d = Inr d'" and "accounts_ok d"
  shows "d' = d\<lparr>users := filter (\<lambda>u. u_id u \<noteq> i) (users d)\<rparr>" "users d \<noteq> [] \<Longrightarrow> u_id (hd (users d)) \<noteq> i"
proof -
  from assms(1) have np: "\<not> is_primary_user d i"
    and d': "d' = d\<lparr>users := filter (\<lambda>u. u_id u \<noteq> i) (users d)\<rparr>"
    by (auto simp: delete_user_def split: option.splits if_splits)
  show "d' = d\<lparr>users := filter (\<lambda>u. u_id u \<noteq> i) (users d)\<rparr>" by (rule d')
  show "u_id (hd (users d)) \<noteq> i" if "users d \<noteq> []"
    using np that assms(2) primary_is_first [of d]
    by (cases "users d") (auto simp: accounts_ok_def is_primary_user_def primary_user_id_def)
qed

lemmas handler_defs =
  post_login_def post_logout_def get_me_def post_user_def get_users_def get_sessions_def
  post_logout_lower_def post_logout_all_def post_logout_user_def delete_user_call_def
  logout_def list_active_sessions_def force_logout_lower_roles_def force_logout_everyone_def
  force_logout_user_def close_sessions_def

lemma auth_begin_evolves:
  assumes ok: "accounts_ok d" and b: "auth_begin now rq c d = (a, d')"
  shows "evolves cfg now d d'"
proof (cases c)
  case (PostSetup n p)
  with b obtain r where "setup_begin now (text_or [] n) (text_or [] p) d = (r, d')"
    by (auto simp: auth_begin_def post_setup_def Let_def split: prod.splits sum.splits)
  then show ?thesis by (cases rule: setup_begin_cases) simp_all
next
  case (PatchUser i n p r)
  have "d' = d \<or> (\<exists>target r. update_user_begin i (text_or [] n) (text_or [] p) (text_or ''operator'' r) d = Inr target
      \<and> (\<exists>v. update_user_end (\<lambda>k q. q) target i (text_or [] n) (text_or [] p) (text_or ''operator'' r) d = (v, d')))"
    using b PatchUser by (fastforce simp: auth_begin_def patch_user_def Let_def split: sum.splits if_splits prod.splits)
  then show ?thesis using update_user_begin_first [OF _ ok] update_user_end_evolves by fastforce
next
  case (DeleteUser i)
  have "d' = d \<or> (\<exists>me. delete_user i me d = Inr d')"
    using b DeleteUser by (auto simp: auth_begin_def delete_user_call_def split: sum.splits)
  then show ?thesis
  proof
    assume "\<exists>me. delete_user i me d = Inr d'"
    then obtain me where "delete_user i me d = Inr d'" ..
    from delete_user_first [OF this ok] show ?thesis by (metis evolves_drop_user)
  qed simp
qed (use b in \<open>auto simp: auth_begin_def handler_defs Let_def simp del: delete_sessions_simps
       split: sum.splits if_splits option.splits prod.splits\<close>)

section \<open>Requests that waited\<close>

definition waits_ok :: "time \<Rightarrow> db \<Rightarrow> pending_auth \<Rightarrow> bool" where
  "waits_ok now d p = (case p of
     PSetup t _ _ \<Rightarrow> now < t + claim_timeout \<longrightarrow> users d = [] \<and> setup_claim d = Some t
   | PLogin u _ \<Rightarrow> issued d (u_id u)
   | PCreate _ _ _ \<Rightarrow> users d \<noteq> []
   | PUpdate _ i _ _ _ \<Rightarrow> users d \<noteq> [] \<and> u_id (hd (users d)) \<noteq> i)"

definition live_setup :: "time \<Rightarrow> pending_auth \<Rightarrow> bool" where
  "live_setup now p = (case p of PSetup t _ _ \<Rightarrow> now < t + claim_timeout | _ \<Rightarrow> False)"

definition auth_inv :: "config \<Rightarrow> auth_state \<Rightarrow> bool" where
  "auth_inv cfg s \<longleftrightarrow> accounts_ok (au_db s) \<and> created_by (au_clock s) (au_db s)
     \<and> within_limit cfg (au_clock s) (au_db s)
     \<and> (\<forall>p \<in> set (au_pending s). waits_ok (au_clock s) (au_db s) p)
     \<and> length (filter (live_setup (au_clock s)) (au_pending s)) \<le> 1"

lemma auth_resume_evolves:
  assumes w: "waits_ok now d p" and t: "in_time now p" and r: "auth_resume hash verify cfg now p d = (a, d')"
  shows "evolves cfg now d d'"
proof (cases p)
  case (PSetup t n pw)
  with w t have no: "users d = []" by (simp add: waits_ok_def in_time_def)
  obtain i d1 where ins: "insert_user now n (hash (draws d) pw) ''admin'' d = Inr (i, d1)"
    using no by (simp add: insert_user_def name_taken_def Let_def)
  note ev = evolves_insert_user [OF ins]
  have "d' = release_initial_setup (snd (create_session cfg now i d1))"
    using r PSetup ins by (auto simp: auth_resume_def setup_end_def split: prod.splits)
  then show ?thesis
    using evolves_trans [OF ev(1) evolves_trans [OF evolves_create_session [OF ev(2)]
      evolves_setup_claim [where c = None]]] by (simp add: release_initial_setup_def)
next
  case (PLogin u pw)
  with w have "issued (set_last_login now (u_id u) d) (u_id u)" by (simp add: waits_ok_def issued_def)
  from evolves_trans [OF evolves_set_last_login evolves_create_session [OF this]]
  show ?thesis using r PLogin
    by (auto simp: auth_resume_def login_end_def split: if_splits prod.splits) (metis snd_conv)
next
  case (PCreate n pw role)
  with w have "users d \<noteq> []" by (simp add: waits_ok_def)
  then show ?thesis
    using r PCreate evolves_insert_user(1) by (fastforce simp: auth_resume_def create_user_end_def split: sum.splits prod.splits)
next
  case (PUpdate target i n pw role)
  with w r update_user_end_evolves show ?thesis
    by (fastforce simp: waits_ok_def auth_resume_def split: prod.splits)
qed

lemma auth_begin_waits:
  assumes ok: "accounts_ok d" and b: "auth_begin now rq c d = (a, d')" and p: "p \<in> set (pending_of a)"
  shows "waits_ok now d' p"
proof -
  have someone: "users d \<noteq> []" if "require_admin rq now d = Inr s" for s
    using that no_users_no_session(3) [of d rq now] by auto
  show ?thesis
  proof (cases c)
    case (PostSetup n q)
    with b obtain r where r: "setup_begin now (text_or [] n) (text_or [] q) d = (r, d')"
      and a: "a = (case r of Inl e \<Rightarrow> Refused e | Inr _ \<Rightarrow> Waiting (PSetup now (text_or [] n) (text_or [] q)))"
      by (auto simp: auth_begin_def post_setup_def Let_def split: prod.splits sum.splits)
    from r show ?thesis
      by (cases rule: setup_begin_cases) (use p a in \<open>auto simp: pending_of_def waits_ok_def split: sum.splits\<close>)
  next
    case (PostLogin n q)
    then show ?thesis using b p ok
      by (auto simp: auth_begin_def post_login_def login_begin_def find_username_def pending_of_def waits_ok_def
          accounts_ok_def dest: find_SomeD split: option.splits)
  next
    case (PostUser n q r)
    then show ?thesis using b p someone
      by (auto simp: auth_begin_def post_user_def Let_def pending_of_def waits_ok_def split: sum.splits)
  next
    case (PatchUser i n q r)
    then obtain target where "update_user_begin i (text_or [] n) (text_or [] q) (text_or ''operator'' r) d = Inr target"
      and "d' = d" and "p = PUpdate target i (text_or [] n) (text_or [] q) (text_or ''operator'' r)"
      using b p by (cases "update_user_begin i (text_or [] n) (text_or [] q) (text_or ''operator'' r) d")
        (auto simp: auth_begin_def patch_user_def Let_def pending_of_def user_answer_def
          split: sum.splits if_splits prod.splits)
    with update_user_begin_first [OF _ ok] show ?thesis by (auto simp: waits_ok_def)
  qed (use b p in \<open>auto simp: auth_begin_def handler_defs pending_of_def Let_def
         split: sum.splits if_splits option.splits prod.splits\<close>)
qed

text \<open>While a first setup waits in time, no other request touches the claim or adds an account.\<close>

lemma auth_begin_setup_waits:
  assumes "users d = []" and "setup_claim d = Some t" and "now < t + claim_timeout"
    and b: "auth_begin now rq c d = (a, d')"
  shows "users d' = [] \<and> setup_claim d' = Some t \<and> filter (live_setup now) (pending_of a) = []"
proof (cases c)
  case (PostSetup n p)
  with b obtain r where r: "setup_begin now (text_or [] n) (text_or [] p) d = (r, d')"
    and a: "a = (case r of Inl e \<Rightarrow> Refused e | Inr _ \<Rightarrow> Waiting (PSetup now (text_or [] n) (text_or [] p)))"
    by (auto simp: auth_begin_def post_setup_def Let_def split: prod.splits sum.splits)
  from r show ?thesis
    by (cases rule: setup_begin_cases) (use assms a in \<open>auto simp: pending_of_def split: sum.splits\<close>)
qed (use assms in \<open>auto simp: auth_begin_def handler_defs patch_user_def no_users_no_session login_begin_def
      find_username_def pending_of_def\<close>)

lemma auth_resume_setup_waits:
  assumes "users d = []" and "waits_ok now d p" and "in_time now p" and "\<not> live_setup now p"
    and r: "auth_resume hash verify cfg now p d = (a, d')"
  shows "users d' = [] \<and> setup_claim d' = setup_claim d"
proof (cases p)
  case (PLogin u pw)
  then show ?thesis using r assms(1)
    by (auto simp: auth_resume_def login_end_def prod_eq_iff split: if_splits prod.splits)
qed (use assms in \<open>auto simp: waits_ok_def live_setup_def in_time_def\<close>)

section \<open>The invariant of the transition system\<close>

lemma live_setup_mono: "now \<le> now' \<Longrightarrow> live_setup now' p \<Longrightarrow> live_setup now p"
  by (simp add: live_setup_def split: pending_auth.splits)

lemma waits_ok_mono: "now \<le> now' \<Longrightarrow> waits_ok now d p \<Longrightarrow> waits_ok now' d p"
  by (simp add: waits_ok_def split: pending_auth.splits)

lemma length_filter_imp: "(\<And>x. P x \<Longrightarrow> Q x) \<Longrightarrow> length (filter P xs) \<le> length (filter Q xs)"
  by (induction xs) (auto intro: le_SucI)

lemma within_limit_mono: "now \<le> now' \<Longrightarrow> within_limit cfg now d \<Longrightarrow> within_limit cfg now' d"
proof -
  assume "now \<le> now'"
  then have "length (live_sessions now' d i) \<le> length (live_sessions now d i)" for i
    unfolding live_sessions_def by (intro length_filter_imp) auto
  then show "within_limit cfg now d \<Longrightarrow> within_limit cfg now' d"
    unfolding within_limit_def by (meson of_nat_mono order_trans)
qed

lemma ended_mono: "now \<le> now' \<Longrightarrow> ended now d t \<Longrightarrow> ended now' d t"
  by (auto simp: ended_def session_live_def)

lemma created_by_mono: "now \<le> now' \<Longrightarrow> created_by now d \<Longrightarrow> created_by now' d"
  by (auto simp: created_by_def)

lemma auth_inv_advance:
  assumes "auth_inv cfg s" and "au_clock s \<le> now"
  shows "auth_inv cfg (s\<lparr>au_clock := now\<rparr>)"
  using assms length_filter_imp [of "live_setup now" "live_setup (au_clock s)" "au_pending s"]
    live_setup_mono within_limit_mono waits_ok_mono created_by_mono
  by (fastforce simp: auth_inv_def)

text \<open>A request that waits is not disturbed by a write that evolves the accounts.\<close>

lemma waits_ok_evolves:
  assumes "waits_ok now d p" and "first_kept d d'" and "draws d \<le> draws d'"
    and "live_setup now p \<Longrightarrow> users d' = [] \<and> setup_claim d' = setup_claim d"
  shows "waits_ok now d' p"
  using assms issued_mono [of d _ d']
  by (auto simp: waits_ok_def first_kept_def live_setup_def split: pending_auth.splits)

definition db_step :: "config \<Rightarrow> auth_state \<Rightarrow> auth_state \<Rightarrow> bool" where
  "db_step cfg s s' = (au_clock s \<le> au_clock s' \<and> evolves cfg (au_clock s') (au_db s) (au_db s'))"

lemma auth_step_inv:
  assumes inv: "auth_inv cfg s" and st: "auth_step hash verify cfg s s'"
  shows "auth_inv cfg s' \<and> db_step cfg s s'"
  using st
proof (cases rule: auth_step.cases)
  case (request now rq c a d)
  have i: "accounts_ok (au_db s)" "created_by now (au_db s)" "within_limit cfg now (au_db s)"
    "\<And>p. p \<in> set (au_pending s) \<Longrightarrow> waits_ok now (au_db s) p"
    "length (filter (live_setup now) (au_pending s)) \<le> 1"
    using auth_inv_advance [OF inv request(2)] by (auto simp: auth_inv_def)
  have ev: "evolves cfg now (au_db s) d" by (rule auth_begin_evolves [OF i(1) request(4)])
  then have e: "accounts_ok d" "created_by now d" "first_kept (au_db s) d" "draws (au_db s) \<le> draws d" "within_limit cfg now d"
    using i(1-3) by (simp_all add: evolves_def)
  have alone: "users d = [] \<and> setup_claim d = setup_claim (au_db s) \<and> filter (live_setup now) (pending_of a) = []"
    if "p \<in> set (au_pending s)" "live_setup now p" for p
    using that i(4) [OF that(1)] auth_begin_setup_waits [OF _ _ _ request(4)]
    by (auto simp: waits_ok_def live_setup_def split: pending_auth.splits)
  have old: "waits_ok now d p" if "p \<in> set (au_pending s)" for p
    by (rule waits_ok_evolves [OF i(4) [OF that] e(3,4)]) (use alone [OF that] in auto)
  have new: "waits_ok now d p" if "p \<in> set (pending_of a)" for p
    using that auth_begin_waits [OF i(1) request(4)] by blast
  have "length (filter (live_setup now) (pending_of a @ au_pending s)) \<le> 1"
  proof (cases "filter (live_setup now) (au_pending s) = []")
    case True
    have "length (filter (live_setup now) (pending_of a)) \<le> 1"
      by (cases a) (auto simp: pending_of_def)
    with True show ?thesis by simp
  next
    case False
    then obtain p where "p \<in> set (au_pending s)" "live_setup now p" by (auto simp: filter_empty_conv)
    from alone [OF this] i(5) show ?thesis by simp
  qed
  with e old new ev request(1,2) show ?thesis by (auto simp: auth_inv_def db_step_def)
next
  case (resumed p now a d)
  have i: "accounts_ok (au_db s)" "created_by now (au_db s)" "within_limit cfg now (au_db s)"
    "\<And>p. p \<in> set (au_pending s) \<Longrightarrow> waits_ok now (au_db s) p"
    "length (filter (live_setup now) (au_pending s)) \<le> 1"
    using auth_inv_advance [OF inv resumed(3)] by (auto simp: auth_inv_def)
  have ev: "evolves cfg now (au_db s) d" by (rule auth_resume_evolves [OF i(4) [OF resumed(2)] resumed(4,5)])
  then have e: "accounts_ok d" "created_by now d" "first_kept (au_db s) d" "draws (au_db s) \<le> draws d" "within_limit cfg now d"
    using i(1-3) by (simp_all add: evolves_def)
  have rest: "length (filter (live_setup now) (remove1 p (au_pending s))) \<le> 1"
    using i(5) by (metis filter_remove1 length_remove1 diff_le_self order_trans)
  have alone: "users d = [] \<and> setup_claim d = setup_claim (au_db s)"
    if q: "q \<in> set (remove1 p (au_pending s))" "live_setup now q" for q
  proof (cases "live_setup now p")
    case True
    have "filter (live_setup now) (remove1 p (au_pending s)) \<noteq> []" using q by (auto simp: filter_empty_conv)
    moreover have "length (filter (live_setup now) (remove1 p (au_pending s))) = 0"
      using True resumed(2) i(5) unfolding filter_remove1 length_remove1 by auto
    ultimately show ?thesis by simp
  next
    case False
    have "q \<in> set (au_pending s)" using q(1) by (meson notin_set_remove1)
    then have "users (au_db s) = []" using i(4) [of q] q(2)
      by (auto simp: waits_ok_def live_setup_def split: pending_auth.splits)
    from auth_resume_setup_waits [OF this i(4) [OF resumed(2)] resumed(4) False resumed(5)] show ?thesis .
  qed
  have old: "waits_ok now d q" if q: "q \<in> set (remove1 p (au_pending s))" for q
  proof -
    have "q \<in> set (au_pending s)" using q by (meson notin_set_remove1)
    from waits_ok_evolves [OF i(4) [OF this] e(3,4)] alone [OF q] show ?thesis by blast
  qed
  with e rest ev resumed(1,3) show ?thesis by (auto simp: auth_inv_def db_step_def)
next
  case (others d now)
  have i: "accounts_ok (au_db s)" "created_by now (au_db s)" "within_limit cfg now (au_db s)"
    "\<And>p. p \<in> set (au_pending s) \<Longrightarrow> waits_ok now (au_db s) p"
    "length (filter (live_setup now) (au_pending s)) \<le> 1"
    using auth_inv_advance [OF inv others(3)] by (auto simp: auth_inv_def)
  have ev: "evolves cfg now (au_db s) d"
    using others(2) by (intro evolves_same) (simp_all add: accounts_kept_def)
  then have e: "accounts_ok d" "created_by now d" "first_kept (au_db s) d" "draws (au_db s) \<le> draws d" "within_limit cfg now d"
    using i(1-3) by (simp_all add: evolves_def)
  have "waits_ok now d p" if "p \<in> set (au_pending s)" for p
    by (rule waits_ok_evolves [OF i(4) [OF that] e(3,4)])
      (use i(4) [OF that] others(2) in \<open>auto simp: accounts_kept_def waits_ok_def live_setup_def split: pending_auth.splits\<close>)
  with e ev others(1,3) i(5) show ?thesis by (auto simp: auth_inv_def db_step_def)
next
  case restarted
  then show ?thesis using inv by (simp add: auth_inv_def db_step_def)
qed

lemma auth_steps_inv:
  assumes "auth_steps hash verify cfg s s'" and "auth_inv cfg s"
  shows "auth_inv cfg s' \<and> au_clock s \<le> au_clock s' \<and> first_kept (au_db s) (au_db s')
     \<and> draws (au_db s) \<le> draws (au_db s')
     \<and> (\<forall>t. issued_token (au_db s) t \<longrightarrow> ended (au_clock s) (au_db s) t \<longrightarrow> ended (au_clock s') (au_db s') t)"
  using assms
proof (induction rule: auth_steps.induct)
  case (more s s' s'')
  then have i: "auth_inv cfg s'" by blast
  from auth_step_inv [OF i more.hyps(2)] have i'': "auth_inv cfg s''" and c: "au_clock s' \<le> au_clock s''"
    and ev: "evolves cfg (au_clock s'') (au_db s') (au_db s'')" by (simp_all add: db_step_def)
  have "accounts_ok (au_db s')" "created_by (au_clock s'') (au_db s')"
    using i created_by_mono [OF c] by (simp_all add: auth_inv_def)
  with ev have *: "first_kept (au_db s') (au_db s'')" "draws (au_db s') \<le> draws (au_db s'')"
    "\<And>t. issued_token (au_db s') t \<Longrightarrow> ended (au_clock s'') (au_db s') t \<Longrightarrow> ended (au_clock s'') (au_db s'') t"
    by (simp_all add: evolves_def)
  from more.IH more.prems have IH: "au_clock s \<le> au_clock s'" "first_kept (au_db s) (au_db s')" "draws (au_db s) \<le> draws (au_db s')"
    "\<And>t. issued_token (au_db s) t \<Longrightarrow> ended (au_clock s) (au_db s) t \<Longrightarrow> ended (au_clock s') (au_db s') t" by blast+
  have "ended (au_clock s'') (au_db s'') t" if "issued_token (au_db s) t" "ended (au_clock s) (au_db s) t" for t
    using *(3) issued_token_mono [OF that(1) IH(3)] ended_mono [OF c IH(4) [OF that]] by blast
  then show ?case using i'' c IH(1,3) *(2) first_kept_trans [OF IH(2) *(1)] by simp
qed simp

lemma auth_start_inv: "auth_start s \<Longrightarrow> auth_inv cfg s"
  by (simp add: auth_start_def auth_inv_def accounts_ok_def created_by_def within_limit_def live_sessions_def)

lemma auth_reach_inv: "auth_start s0 \<Longrightarrow> auth_steps hash verify cfg s0 s \<Longrightarrow> auth_inv cfg s"
  using auth_steps_inv auth_start_inv by blast

section \<open>Properties\<close>

text \<open>C1: The first administrator is permanent: once an account exists, whatever requests follow, in
  whatever interleaving and across restarts, the primary account stays the same account with the
  same name, password hash and creation time, and it is an administrator; only its last login changes.\<close>

theorem first_administrator_is_permanent:
  assumes "auth_start s0" and "auth_steps hash verify cfg s0 s" and "primary_user (au_db s) = Some u"
    and "auth_steps hash verify cfg s s'"
  shows "u_role u = ''admin'' \<and> (\<exists>t. primary_user (au_db s') = Some (u\<lparr>u_last_login := t\<rparr>))"
proof -
  have inv: "auth_inv cfg s" by (rule auth_reach_inv [OF assms(1,2)])
  have "auth_inv cfg s'" and fk: "first_kept (au_db s) (au_db s')" using auth_steps_inv [OF assms(4) inv] by blast+
  then have srt: "sorted (map u_created (users (au_db s)))" "sorted (map u_created (users (au_db s')))"
    using inv by (simp_all add: auth_inv_def accounts_ok_def)
  with assms(3) obtain us where us: "users (au_db s) = u # us"
    using primary_is_first [OF srt(1)] by (cases "users (au_db s)") auto
  with fk obtain t us' where "users (au_db s') = u\<lparr>u_last_login := t\<rparr> # us'"
    by (cases "users (au_db s')") (auto simp: first_kept_def)
  then have "primary_user (au_db s') = Some (u\<lparr>u_last_login := t\<rparr>)" using primary_is_first [OF srt(2)] by simp
  moreover have "u_role u = ''admin''" using inv us by (simp add: auth_inv_def accounts_ok_def)
  ultimately show ?thesis by blast
qed

text \<open>The first setup creates one administrator, however many setups are requested at once: a
  setup whose password hash is ready in time finds no account, no other setup is waiting in time,
  and once an account exists every request for a setup is refused and changes nothing but a claim.\<close>

theorem setup_creates_one_administrator:
  assumes "auth_start s0" and "auth_steps hash verify cfg s0 s" and "au_clock s \<le> now"
  shows "(PSetup t n pw \<in> set (au_pending s) \<longrightarrow> now < t + claim_timeout \<longrightarrow>
            users (au_db s) = [] \<and> length (filter (live_setup now) (au_pending s)) = 1)
       \<and> (users (au_db s) \<noteq> [] \<longrightarrow> (\<exists>e c. setup_begin now n pw (au_db s) = (Inl e, (au_db s)\<lparr>setup_claim := c\<rparr>)))"
proof (intro conjI impI)
  have inv: "auth_inv cfg (s\<lparr>au_clock := now\<rparr>)"
    by (rule auth_inv_advance [OF auth_reach_inv [OF assms(1,2)] assms(3)])
  assume p: "PSetup t n pw \<in> set (au_pending s)" "now < t + claim_timeout"
  then have "waits_ok now (au_db s) (PSetup t n pw)" using inv by (auto simp: auth_inv_def)
  with p(2) show "users (au_db s) = []" by (simp add: waits_ok_def)
  have "live_setup now (PSetup t n pw)" using p(2) by (simp add: live_setup_def)
  with p(1) have "filter (live_setup now) (au_pending s) \<noteq> []" by (auto simp: filter_empty_conv)
  then have "0 < length (filter (live_setup now) (au_pending s))" by simp
  moreover have "length (filter (live_setup now) (au_pending s)) \<le> 1" using inv by (simp add: auth_inv_def)
  ultimately show "length (filter (live_setup now) (au_pending s)) = 1" by linarith
next
  assume ne: "users (au_db s) \<noteq> []"
  obtain r d where b: "setup_begin now n pw (au_db s) = (r, d)" by fastforce
  have "r \<noteq> Inr ()" using b by (cases rule: setup_begin_cases) (use ne in simp_all)
  then obtain e where "r = Inl e" by (cases r) auto
  moreover have "d = au_db s \<or> d = (au_db s)\<lparr>setup_claim := None\<rparr>"
    using b by (cases rule: setup_begin_cases) (use ne in simp_all)
  then have "\<exists>c. d = (au_db s)\<lparr>setup_claim := c\<rparr>"
    by (elim disjE) (rule exI [of _ "setup_claim (au_db s)"], simp, rule exI [of _ None], simp)
  ultimately show "\<exists>e c. setup_begin now n pw (au_db s) = (Inl e, (au_db s)\<lparr>setup_claim := c\<rparr>)"
    using b by blast
qed

text \<open>C2: With a limit configured, no account ever has more live sessions than the limit.\<close>

theorem session_limit_holds:
  assumes "auth_start s0" and "auth_steps hash verify cfg s0 s" and "0 < max_login_sessions_per_user cfg"
  shows "int (length (live_sessions (au_clock s) (au_db s) i)) \<le> max_login_sessions_per_user cfg"
  using auth_reach_inv [OF assms(1,2)] assms(3) by (simp add: auth_inv_def within_limit_def)

text \<open>A session that ended stays ended: a token that was issued and does not log in (after a
  logout, a forced logout, the deletion of the account or twelve hours) never logs in again.\<close>

theorem ended_session_stays_ended:
  assumes "auth_start s0" and "auth_steps hash verify cfg s0 s"
    and "rq_session rq = Some token" and "issued_token (au_db s) token"
    and "get_session rq (au_clock s) (au_db s) = None" and "auth_steps hash verify cfg s s'"
  shows "get_session rq (au_clock s') (au_db s') = None"
proof -
  have iff: "get_session rq now d = None \<longleftrightarrow> ended now d token" if "token \<noteq> []" for now d
  proof (cases "List.find (\<lambda>r. ss_id r = token \<and> session_live d now r) (sessions d)")
    case None
    then have "\<forall>r \<in> set (sessions d). \<not> (ss_id r = token \<and> session_live d now r)"
      by (simp add: find_None_iff)
    then show ?thesis using None assms(3) that by (auto simp: get_session_def ended_def)
  next
    case (Some r)
    from find_SomeD [OF this] have "r \<in> set (sessions d)" "ss_id r = token" "session_live d now r" by auto
    then show ?thesis using Some assms(3) that
      by (auto simp: get_session_def ended_def session_live_def)
  qed
  have ne: "token \<noteq> []" using assms(4) by (auto simp: issued_token_def)
  show ?thesis
    using auth_steps_inv [OF assms(6) auth_reach_inv [OF assms(1,2)]] assms(4,5) iff [OF ne] by blast
qed

chapter \<open>A concrete installation\<close>

text \<open>
  A concrete installation on which the properties of accounts are applied: the administrator
  is set up at time 1, logs in again at time 2 and logs out at time 3, under a limit of two
  sessions.
\<close>

definition plain_hash :: "nat \<Rightarrow> string \<Rightarrow> string" where
  "plain_hash n p = p"

definition plain_verify :: "string \<Rightarrow> string \<Rightarrow> bool" where
  "plain_verify p h = (p = h)"

definition two_sessions :: config where
  "two_sessions = \<lparr>cf_file = None, cf_env = [''MAX_LOGIN_SESSIONS_PER_USER'' \<mapsto> ''2'']\<rparr>"

definition auth_serve :: "time \<Rightarrow> http_request \<Rightarrow> auth_call \<Rightarrow> auth_state \<Rightarrow> auth_state" where
  "auth_serve now rq c s = (case auth_begin now rq c (au_db s) of
     (a, d) \<Rightarrow> \<lparr>au_db = d, au_clock = now, au_pending = pending_of a @ au_pending s\<rparr>)"

definition auth_answer_first :: "time \<Rightarrow> auth_state \<Rightarrow> auth_state" where
  "auth_answer_first now s = (case auth_resume plain_hash plain_verify two_sessions now (hd (au_pending s)) (au_db s) of
     (a, d) \<Rightarrow> \<lparr>au_db = d, au_clock = now, au_pending = remove1 (hd (au_pending s)) (au_pending s)\<rparr>)"

definition visitor :: "string \<Rightarrow> http_request" where
  "visitor m = \<lparr>rq_method = m, rq_session = None, rq_csrf = None, rq_query = Map.empty\<rparr>"

definition first_session :: http_request where
  "first_session = \<lparr>rq_method = ''POST'', rq_session = Some (random_token 1), rq_csrf = Some (random_token 2), rq_query = Map.empty\<rparr>"

definition fresh_install :: auth_state where
  "fresh_install = \<lparr>au_db = empty_db, au_clock = 0, au_pending = []\<rparr>"

definition setup_asked :: auth_state where
  "setup_asked = auth_serve 1 (visitor ''POST'') (PostSetup (Some ''root'') (Some ''correct-horse'')) fresh_install"

definition setup_done :: auth_state where
  "setup_done = auth_answer_first 1 setup_asked"

definition login_asked :: auth_state where
  "login_asked = auth_serve 2 (visitor ''POST'') (PostLogin (Some ''root'') (Some ''correct-horse'')) setup_done"

definition login_done :: auth_state where
  "login_done = auth_answer_first 2 login_asked"

definition logged_out :: auth_state where
  "logged_out = auth_serve 3 first_session PostLogout login_done"

lemma serve_step:
  assumes "auth_steps plain_hash plain_verify two_sessions s0 s" and "au_clock s \<le> now" and "rq_method rq = call_method c"
  shows "auth_steps plain_hash plain_verify two_sessions s0 (auth_serve now rq c s)"
  using auth_steps.more [OF assms(1) auth_step.request [OF assms(2,3)]]
  by (simp add: auth_serve_def split: prod.splits)

lemma answer_step:
  assumes "auth_steps plain_hash plain_verify two_sessions s0 s" and "au_clock s \<le> now" and "au_pending s \<noteq> []"
    and "in_time now (hd (au_pending s))"
  shows "auth_steps plain_hash plain_verify two_sessions s0 (auth_answer_first now s)"
  using auth_steps.more [OF assms(1) auth_step.resumed [OF hd_in_set [OF assms(3)] assms(2,4)]]
  by (simp add: auth_answer_first_def split: prod.splits)

lemmas auth_run_defs = auth_serve_def auth_answer_first_def fresh_install_def setup_asked_def setup_done_def
  login_asked_def login_done_def logged_out_def

lemma run_facts:
  "au_clock setup_asked \<le> 1 \<and> au_pending setup_asked \<noteq> [] \<and> in_time 1 (hd (au_pending setup_asked))"
  "au_clock setup_done = 1 \<and> users (au_db setup_done) \<noteq> []"
  "au_clock login_asked \<le> 2 \<and> au_pending login_asked \<noteq> [] \<and> in_time 2 (hd (au_pending login_asked))"
  "au_clock login_done \<le> 3"
  by code_simp+

lemma run_end:
  "au_clock logged_out \<le> 4"
  "\<not> Option.is_none (primary_user (au_db setup_done))"
  "PSetup 1 ''root'' ''correct-horse'' \<in> set (au_pending setup_asked)"
  "0 < max_login_sessions_per_user two_sessions"
  "Option.is_none (get_session first_session (au_clock logged_out) (au_db logged_out))"
  "1 < draws (au_db logged_out)"
  by code_simp+

lemma fresh_start: "auth_start fresh_install"
  by (simp add: auth_start_def fresh_install_def)

lemma run_steps:
  "auth_steps plain_hash plain_verify two_sessions fresh_install setup_asked"
  "auth_steps plain_hash plain_verify two_sessions fresh_install setup_done"
  "auth_steps plain_hash plain_verify two_sessions fresh_install login_done"
  "auth_steps plain_hash plain_verify two_sessions setup_done logged_out"
proof -
  have a: "auth_steps plain_hash plain_verify two_sessions s0 login_done"
    if "auth_steps plain_hash plain_verify two_sessions s0 setup_done" for s0
    unfolding login_done_def login_asked_def
    by (rule answer_step, rule serve_step [OF that], fold login_asked_def)
      (use run_facts in \<open>simp_all add: call_method_def visitor_def\<close>)
  show 1: "auth_steps plain_hash plain_verify two_sessions fresh_install setup_asked"
    unfolding setup_asked_def by (rule serve_step [OF auth_steps.none]) (simp_all add: fresh_install_def call_method_def visitor_def)
  then show 2: "auth_steps plain_hash plain_verify two_sessions fresh_install setup_done"
    unfolding setup_done_def by (rule answer_step) (use run_facts in simp_all)
  from a [OF this] show "auth_steps plain_hash plain_verify two_sessions fresh_install login_done" .
  show "auth_steps plain_hash plain_verify two_sessions setup_done logged_out"
    unfolding logged_out_def by (rule serve_step [OF a [OF auth_steps.none]])
      (use run_facts in \<open>simp_all add: call_method_def first_session_def\<close>)
qed

lemma auth_steps_trans:
  assumes "auth_steps hash verify cfg b c" and "auth_steps hash verify cfg a b"
  shows "auth_steps hash verify cfg a c"
  using assms by (induction rule: auth_steps.induct) (auto intro: auth_steps.more)

section \<open>Witnesses\<close>

theorem first_administrator_is_permanent_witness:
  "\<exists>u. primary_user (au_db setup_done) = Some u \<and> u_role u = ''admin''
     \<and> (\<exists>t. primary_user (au_db logged_out) = Some (u\<lparr>u_last_login := t\<rparr>))"
proof -
  obtain u where "primary_user (au_db setup_done) = Some u" using run_end(2) by (auto simp: Option.is_none_def)
  with first_administrator_is_permanent [OF fresh_start run_steps(2) this run_steps(4)] show ?thesis by blast
qed

theorem setup_creates_one_administrator_witness:
  "users (au_db setup_asked) = [] \<and> length (filter (live_setup 1) (au_pending setup_asked)) = 1"
proof -
  have "au_clock setup_asked \<le> 1" using run_facts(1) by blast
  from setup_creates_one_administrator [OF fresh_start run_steps(1) this, of 1 "''root''" "''correct-horse''"]
  show ?thesis using run_end(3) by (simp add: claim_timeout_def)
qed

theorem session_limit_holds_witness:
  "int (length (live_sessions (au_clock login_done) (au_db login_done) (uuid 0)))
     \<le> max_login_sessions_per_user two_sessions"
  by (rule session_limit_holds [OF fresh_start run_steps(3) run_end(4)])

theorem ended_session_stays_ended_witness:
  "get_session first_session (au_clock (auth_serve 4 (visitor ''GET'') GetStatus logged_out))
     (au_db (auth_serve 4 (visitor ''GET'') GetStatus logged_out)) = None"
proof (rule ended_session_stays_ended [OF fresh_start auth_steps_trans [OF run_steps(4,2)]])
  show "rq_session first_session = Some (random_token 1)" by (simp add: first_session_def)
  show "issued_token (au_db logged_out) (random_token 1)" using run_end(6) by (auto simp: issued_token_def)
  show "get_session first_session (au_clock logged_out) (au_db logged_out) = None"
    using run_end(5) by (simp add: Option.is_none_def split: option.splits)
  show "auth_steps plain_hash plain_verify two_sessions logged_out (auth_serve 4 (visitor ''GET'') GetStatus logged_out)"
    by (rule serve_step [OF auth_steps.none run_end(1)]) (simp add: call_method_def visitor_def)
qed

section \<open>An update that waits while its account is promoted\<close>

text \<open>\<open>updateUser\<close> checks that the account is no administrator before it waits for bcrypt and does not
  check again: an account that is promoted in between is overwritten, and demoted.\<close>

definition admin_session :: "string \<Rightarrow> http_request" where
  "admin_session m = first_session\<lparr>rq_method := m\<rparr>"

definition second_user :: auth_state where
  "second_user = auth_answer_first 2 (auth_serve 2 (admin_session ''POST'')
     (PostUser (Some ''anna'') (Some ''twelve-chars'') (Some ''operator'')) setup_done)"

definition update_waits :: auth_state where
  "update_waits = auth_serve 3 (admin_session ''PATCH'')
     (PatchUser (uuid 3) (Some ''anna'') (Some ''another-word'') (Some ''viewer'')) second_user"

definition promoted :: auth_state where
  "promoted = auth_serve 4 (admin_session ''PATCH'') (PatchUser (uuid 3) (Some ''anna'') None (Some ''admin'')) update_waits"

definition role_of :: "auth_state \<Rightarrow> id \<Rightarrow> string" where
  "role_of s i = (case find_user (au_db s) i of None \<Rightarrow> [] | Some u \<Rightarrow> u_role u)"

theorem waiting_update_demotes_administrator:
  "role_of promoted (uuid 3) = ''admin'' \<and> role_of (auth_answer_first 5 promoted) (uuid 3) = ''viewer''"
  by code_simp

end
