(* ===== verification/Request_Dtos.thy ===== *)
theory Request_Dtos
  imports Prelude
begin

text \<open>
  The request bodies of the HTTP interface (\<open>src/common/request-dtos.ts\<close>): every DTO class is
  the list of its properties with the declared TypeScript type and the \<open>class-validator\<close>
  decorators, in the order of the source. The validation itself is NestJS's \<open>ValidationPipe\<close>
  as \<open>src/main.ts\<close> configures it (\<open>transform\<close>, \<open>whitelist\<close>, \<open>forbidNonWhitelisted\<close>), which
  is not part of the repository: it is a parameter \<open>pipe\<close>, and \<open>documented_pipe\<close> states what
  the documentation of the decorators says about a body that it lets through.
\<close>

section \<open>Values, decorators and classes\<close>

text \<open>The JavaScript values of a parsed body. A number is an integer or something else
  (\<open>VFraction\<close>: a fraction, NaN or an infinity); all bounds of the DTOs are on integers.\<close>

datatype jsv =
    VUndefined
  | VNull
  | VBool bool
  | VInt int
  | VFraction
  | VStr string
  | VArr "jsv list"
  | VObj "(string \<times> jsv) list"

datatype rule =
    IsString
  | IsNotEmpty
  | MaxLength nat
  | MinLength nat
  | IsIn "string list"
  | IsInt
  | AtLeast int
  | AtMost int
  | IsBoolean
  | IsObject
  | IsArray
  | IsStringEach
  | MaxLengthEach nat
  | Nested "field list"
  | NestedEach "field list"
and ts_type =
    TString
  | TNumber
  | TBoolean
  | TStrings
  | TRecord
  | TLiteral "string list"
  | TClass "field list"
  | TClasses "field list"
and field = Field (fname: string) (foptional: bool) (fnumber: bool) (ftype: ts_type) (frules: "rule list")

type_synonym dto = "field list"

text \<open>\<open>required\<close> is a property \<open>name!: type\<close>, \<open>optional\<close> one with \<open>@IsOptional()\<close>
  (\<open>name?: type\<close>); the \<open>_number\<close> forms carry \<open>@Type(() => Number)\<close>.\<close>

definition required :: "string \<Rightarrow> ts_type \<Rightarrow> rule list \<Rightarrow> field" where
  "required n t rs = Field n False False t rs"

definition optional :: "string \<Rightarrow> ts_type \<Rightarrow> rule list \<Rightarrow> field" where
  "optional n t rs = Field n True False t rs"

definition optional_number :: "string \<Rightarrow> ts_type \<Rightarrow> rule list \<Rightarrow> field" where
  "optional_number n t rs = Field n True True t rs"

section \<open>The documented meaning of the decorators\<close>

definition prop_of :: "(string \<times> jsv) list \<Rightarrow> string \<Rightarrow> jsv" where
  "prop_of kvs k = (case map_of (rev kvs) k of None \<Rightarrow> VUndefined | Some v \<Rightarrow> v)"

text \<open>\<open>@IsOptional\<close> skips the other decorators when the value is null or undefined.
  \<open>@ValidateNested\<close> also descends into arrays, with or without \<open>each\<close>; unknown
  properties are refused at every level (\<open>forbidNonWhitelisted\<close>).\<close>

definition is_nil :: "jsv \<Rightarrow> bool" where
  "is_nil v = (v = VUndefined \<or> v = VNull)"

text \<open>The objects that nested validation reaches: the value itself, or those of an array of
  any depth (\<open>None\<close> when something else is met, which the decorator reports).\<close>

fun objects_of :: "jsv \<Rightarrow> (string \<times> jsv) list list option"
  and objects_of_all :: "jsv list \<Rightarrow> (string \<times> jsv) list list option" where
  "objects_of (VObj kvs) = Some [kvs]"
| "objects_of (VArr vs) = objects_of_all vs"
| "objects_of _ = None"
| "objects_of_all [] = Some []"
| "objects_of_all (v # vs) = (case (objects_of v, objects_of_all vs) of
     (Some a, Some b) \<Rightarrow> Some (a @ b) | _ \<Rightarrow> None)"

definition known :: "dto \<Rightarrow> (string \<times> jsv) list \<Rightarrow> bool" where
  "known d kvs = (\<forall>kv \<in> set kvs. fst kv \<in> set (map fname d))"

fun meets :: "rule \<Rightarrow> jsv \<Rightarrow> bool"
  and meets_all :: "rule list \<Rightarrow> jsv \<Rightarrow> bool"
  and conforms :: "field list \<Rightarrow> (string \<times> jsv) list \<Rightarrow> bool" where
  "meets IsString v = (case v of VStr _ \<Rightarrow> True | _ \<Rightarrow> False)"
| "meets IsNotEmpty v = (v \<noteq> VStr [] \<and> \<not> is_nil v)"
| "meets (MaxLength n) v = (case v of VStr s \<Rightarrow> length s \<le> n | _ \<Rightarrow> False)"
| "meets (MinLength n) v = (case v of VStr s \<Rightarrow> length s \<ge> n | _ \<Rightarrow> False)"
| "meets (IsIn xs) v = (case v of VStr s \<Rightarrow> s \<in> set xs | _ \<Rightarrow> False)"
| "meets IsInt v = (case v of VInt _ \<Rightarrow> True | _ \<Rightarrow> False)"
| "meets (AtLeast n) v = (case v of VInt i \<Rightarrow> i \<ge> n | VFraction \<Rightarrow> True | _ \<Rightarrow> False)"
| "meets (AtMost n) v = (case v of VInt i \<Rightarrow> i \<le> n | VFraction \<Rightarrow> True | _ \<Rightarrow> False)"
| "meets IsBoolean v = (case v of VBool _ \<Rightarrow> True | _ \<Rightarrow> False)"
| "meets IsObject v = (case v of VObj _ \<Rightarrow> True | _ \<Rightarrow> False)"
| "meets IsArray v = (case v of VArr _ \<Rightarrow> True | _ \<Rightarrow> False)"
| "meets IsStringEach v = (case v of VArr vs \<Rightarrow> \<forall>x \<in> set vs. case x of VStr _ \<Rightarrow> True | _ \<Rightarrow> False | _ \<Rightarrow> False)"
| "meets (MaxLengthEach n) v = (case v of VArr vs \<Rightarrow> \<forall>x \<in> set vs. case x of VStr s \<Rightarrow> length s \<le> n | _ \<Rightarrow> False | _ \<Rightarrow> False)"
| "meets (Nested d) v = (case objects_of v of None \<Rightarrow> False
     | Some kvss \<Rightarrow> \<forall>kvs \<in> set kvss. known d kvs \<and> conforms d kvs)"
| "meets (NestedEach d) v = (case objects_of v of None \<Rightarrow> False
     | Some kvss \<Rightarrow> \<forall>kvs \<in> set kvss. known d kvs \<and> conforms d kvs)"
| "meets_all [] v = True"
| "meets_all (r # rs) v = (meets r v \<and> meets_all rs v)"
| "conforms [] kvs = True"
| "conforms (Field n opt num t rs # fs) kvs =
     ((opt \<and> is_nil (prop_of kvs n) \<or> meets_all rs (prop_of kvs n)) \<and> conforms fs kvs)"

definition documented_pipe ::
  "(dto \<Rightarrow> (string \<times> jsv) list \<Rightarrow> (string \<times> jsv) list option) \<Rightarrow> bool" where
  "documented_pipe pipe = (\<forall>d body out. pipe d body = Some out \<longrightarrow> known d out \<and> conforms d out)"

text \<open>A pipe without conversions that does what the documentation says.\<close>

definition plain_pipe :: "dto \<Rightarrow> (string \<times> jsv) list \<Rightarrow> (string \<times> jsv) list option" where
  "plain_pipe d body = (if known d body \<and> conforms d body then Some body else None)"

lemma plain_pipe_documented: "documented_pipe plain_pipe"
  by (auto simp: documented_pipe_def plain_pipe_def split: if_splits)

section \<open>The DTO classes\<close>

definition credentials_dto :: dto where
  "credentials_dto =
    [required ''username'' TString [IsString, IsNotEmpty, MaxLength 128],
     required ''password'' TString [IsString, MinLength 1, MaxLength 512]]"

definition user_dto :: dto where
  "user_dto =
    [optional ''username'' TString [IsString, IsNotEmpty, MaxLength 128],
     optional ''password'' TString [IsString, MinLength 1, MaxLength 512],
     optional ''role'' TString [IsIn [''admin'', ''operator'', ''viewer'']]]"

definition database_connection_dto :: dto where
  "database_connection_dto =
    [optional ''id'' TString [IsString, MaxLength 128],
     required ''name'' TString [IsString, IsNotEmpty, MaxLength 128],
     optional ''engine'' (TLiteral [''mysql'', ''mariadb'']) [IsIn [''mysql'', ''mariadb'']],
     required ''host'' TString [IsString, IsNotEmpty, MaxLength 255],
     optional_number ''port'' TNumber [IsInt, AtLeast 1, AtMost 65535],
     required ''username'' TString [IsString, IsNotEmpty, MaxLength 128],
     optional ''password'' TString [IsString, MaxLength 512],
     optional ''database'' TString [IsString, MaxLength 5000],
     optional ''ssl'' TBoolean [IsBoolean]]"

definition recovery_connection_dto :: dto where
  "recovery_connection_dto =
    [optional ''id'' TString [IsString, MaxLength 128],
     required ''name'' TString [IsString, IsNotEmpty, MaxLength 128],
     optional ''engine'' (TLiteral [''mysql'', ''mariadb'']) [IsIn [''mysql'', ''mariadb'']],
     required ''host'' TString [IsString, IsNotEmpty, MaxLength 255],
     optional_number ''port'' TNumber [IsInt, AtLeast 1, AtMost 65535],
     required ''username'' TString [IsString, IsNotEmpty, MaxLength 128],
     optional ''password'' TString [IsString, MaxLength 512],
     optional ''ssl'' TBoolean [IsBoolean]]"

definition storage_target_dto :: dto where
  "storage_target_dto =
    [optional ''id'' TString [IsString, MaxLength 128],
     required ''name'' TString [IsString, IsNotEmpty, MaxLength 128],
     required ''type'' (TLiteral [''local'', ''ftp'', ''webdav'', ''google-drive'', ''onedrive'', ''s3'']) [IsIn [''local'', ''ftp'', ''webdav'', ''google-drive'', ''onedrive'', ''s3'']],
     required ''config'' TRecord [IsObject]]"

definition backup_object_dto :: dto where
  "backup_object_dto =
    [optional ''views'' TBoolean [IsBoolean],
     optional ''routines'' TBoolean [IsBoolean],
     optional ''triggers'' TBoolean [IsBoolean],
     optional ''events'' TBoolean [IsBoolean]]"

definition database_selection_dto :: dto where
  "database_selection_dto =
    [required ''connectionId'' TString [IsString, IsNotEmpty, MaxLength 128],
     required ''databases'' TStrings [IsArray, IsStringEach, MaxLengthEach 5000]]"

definition storage_requirement_dto :: dto where
  "storage_requirement_dto =
    [required ''storageTargetId'' TString [IsString, IsNotEmpty, MaxLength 128],
     required ''required'' TBoolean [IsBoolean]]"

definition backup_job_dto :: dto where
  "backup_job_dto =
    [optional ''storageRequirements'' (TClasses storage_requirement_dto) [IsArray, NestedEach storage_requirement_dto],
     optional_number ''missedStartGraceMinutes'' TNumber [IsInt, AtLeast 1, AtMost 1440],
     optional_number ''maxVerifiedAgeHours'' TNumber [IsInt, AtLeast 1, AtMost 8760],
     optional_number ''longRunningWarningMinutes'' TNumber [IsInt, AtLeast 1, AtMost 10080],
     optional ''id'' TString [IsString, MaxLength 128],
     required ''name'' TString [IsString, IsNotEmpty, MaxLength 128],
     optional ''databaseConnectionId'' TString [IsString, MaxLength 128],
     optional ''connectionIds'' TStrings [IsArray, IsStringEach],
     optional ''databaseConnectionIds'' TStrings [IsArray, IsStringEach],
     optional ''storageTargetId'' TString [IsString, MaxLength 128],
     optional ''storageTargetIds'' TStrings [IsArray, IsStringEach],
     optional ''databaseScope'' (TLiteral [''all'', ''selected'']) [IsIn [''all'', ''selected'']],
     optional ''databases'' TStrings [IsArray, IsStringEach],
     optional ''databaseSelections'' (TClasses database_selection_dto) [IsArray, NestedEach database_selection_dto],
     optional ''backupLayout'' (TLiteral [''single'', ''database'', ''table'']) [IsIn [''single'', ''database'', ''table'']],
     optional ''backupObjects'' (TClass backup_object_dto) [Nested backup_object_dto],
     optional ''insertMode'' (TLiteral [''extended'', ''single-row'']) [IsIn [''extended'', ''single-row'']],
     required ''cronExpression'' TString [IsString, IsNotEmpty, MaxLength 128],
     optional ''timezone'' TString [IsString, MaxLength 128],
     optional ''enabled'' TBoolean [IsBoolean],
     optional ''compression'' (TLiteral [''none'', ''gzip'', ''zip'']) [IsIn [''none'', ''gzip'', ''zip'']],
     optional ''backupEncryption'' (TLiteral [''none'', ''aes-256-gcm'']) [IsIn [''none'', ''aes-256-gcm'']],
     optional_number ''retentionCount'' TNumber [IsInt, AtLeast 1, AtMost 365],
     optional_number ''retryCount'' TNumber [IsInt, AtLeast 0, AtMost 10],
     optional_number ''retryDelaySeconds'' TNumber [IsInt, AtLeast 30, AtMost 86400],
     optional ''overlapPolicy'' (TLiteral [''skip'', ''queue'']) [IsIn [''skip'', ''queue'']],
     optional ''filenamePrefix'' TString [IsString, MaxLength 128],
     optional ''lastRunAt'' TString [IsString, MaxLength 64]]"

definition restore_dto :: dto where
  "restore_dto =
    [required ''connectionId'' TString [IsString, IsNotEmpty, MaxLength 128],
     required ''mode'' TString [IsIn [''overwrite'', ''new'']],
     optional ''databaseName'' TString [IsString, MaxLength 64],
     required ''overwriteConfirmed'' TBoolean [IsBoolean],
     optional ''verifyAfterRestore'' TBoolean [IsBoolean]]"

definition environment_dto :: dto where
  "environment_dto =
    [required ''environment'' TString [IsIn [''development'', ''production'']],
     optional ''restart'' TBoolean [IsBoolean]]"

definition notification_events_dto :: dto where
  "notification_events_dto =
    [optional ''backup_recovered'' TBoolean [IsBoolean],
     optional ''backup_missed_start'' TBoolean [IsBoolean],
     optional ''backup_long_running'' TBoolean [IsBoolean],
     optional ''backup_success'' TBoolean [IsBoolean],
     optional ''backup_failed'' TBoolean [IsBoolean],
     optional ''backup_retry'' TBoolean [IsBoolean],
     optional ''backup_stale'' TBoolean [IsBoolean],
     optional ''storage_failed'' TBoolean [IsBoolean],
     optional ''capacity_warning'' TBoolean [IsBoolean]]"

definition notification_dto :: dto where
  "notification_dto =
    [optional ''enabled'' TBoolean [IsBoolean],
     optional ''provider'' TString [IsIn [''discord'', ''telegram'', ''generic'']],
     optional ''webhookUrl'' TString [IsString, MaxLength 2000],
     optional ''webhookToken'' TString [IsString, MaxLength 512],
     optional ''botToken'' TString [IsString, MaxLength 512],
     optional ''chatId'' TString [IsString, MaxLength 128],
     optional ''events'' (TClass notification_events_dto) [Nested notification_events_dto]]"

definition full_export_dto :: dto where
  "full_export_dto =
    [required ''password'' TString [IsString, MinLength 1, MaxLength 512]]"

definition full_import_dto :: dto where
  "full_import_dto =
    [required ''package'' TRecord [IsObject],
     required ''password'' TString [IsString, MinLength 1, MaxLength 512]]"

definition recovery_plan_dto :: dto where
  "recovery_plan_dto =
    [optional ''id'' TString [IsString, MaxLength 128],
     required ''name'' TString [IsString, IsNotEmpty, MaxLength 128],
     required ''jobId'' TString [IsString, IsNotEmpty, MaxLength 128],
     optional ''destinationConnectionId'' TString [IsString, MaxLength 128],
     optional ''recoveryConnectionId'' TString [IsString, MaxLength 128],
     optional ''cronExpression'' TString [IsString, MaxLength 128],
     optional ''timezone'' TString [IsString, MaxLength 128],
     optional ''enabled'' TBoolean [IsBoolean],
     optional ''testDatabasePrefix'' TString [IsString, MaxLength 48]]"

definition pitr_capture_dto :: dto where
  "pitr_capture_dto =
    [required ''connectionId'' TString [IsString, IsNotEmpty, MaxLength 128],
     required ''storageTargetId'' TString [IsString, IsNotEmpty, MaxLength 128]]"

definition pitr_configuration_dto :: dto where
  "pitr_configuration_dto =
    [required ''connectionId'' TString [IsString, IsNotEmpty, MaxLength 128],
     required ''backupJobId'' TString [IsString, IsNotEmpty, MaxLength 128],
     required ''storageTargetId'' TString [IsString, IsNotEmpty, MaxLength 128],
     optional ''captureIntervalMinutes'' TNumber [IsInt, AtLeast 1, AtMost 1440],
     optional ''enabled'' TBoolean [IsBoolean]]"

definition pitr_rehearsal_dto :: dto where
  "pitr_rehearsal_dto =
    [required ''connectionId'' TString [IsString, IsNotEmpty, MaxLength 128],
     required ''backupRunId'' TString [IsString, IsNotEmpty, MaxLength 128],
     required ''recoveryConnectionId'' TString [IsString, IsNotEmpty, MaxLength 128],
     required ''targetTime'' TString [IsString, IsNotEmpty, MaxLength 40]]"

definition artifact_rehearsal_dto :: dto where
  "artifact_rehearsal_dto =
    [required ''backupRunId'' TString [IsString, IsNotEmpty, MaxLength 128],
     required ''recoveryConnectionId'' TString [IsString, IsNotEmpty, MaxLength 128]]"

definition fleet_enrollment_dto :: dto where
  "fleet_enrollment_dto =
    [required ''name'' TString [IsString, IsNotEmpty, MaxLength 128],
     required ''installationId'' TString [IsString, IsNotEmpty, MaxLength 128],
     required ''token'' TString [IsString, MinLength 16, MaxLength 512]]"

definition execution_pair_dto :: dto where
  "execution_pair_dto =
    [required ''connectionId'' TString [IsString, IsNotEmpty, MaxLength 200],
     required ''storageTargetId'' TString [IsString, IsNotEmpty, MaxLength 200]]"

definition execution_retry_dto :: dto where
  "execution_retry_dto =
    [required ''pairs'' (TClasses execution_pair_dto) [IsArray, NestedEach execution_pair_dto]]"

definition execution_cancel_dto :: dto where
  "execution_cancel_dto =
    [optional ''stopRunningConfirmed'' TBoolean [IsBoolean]]"

definition source_group_dto :: dto where
  "source_group_dto =
    [optional ''globalConcurrency'' TNumber [IsInt, AtLeast 1, AtMost 32],
     optional ''id'' TString [IsString, IsNotEmpty, MaxLength 200],
     optional ''name'' TString [IsString, IsNotEmpty, MaxLength 200],
     optional ''connectionIds'' TStrings [IsArray, IsStringEach],
     optional ''concurrency'' TNumber [IsInt, AtLeast 1, AtMost 8]]"

text \<open>\<open>AssetCacheSettingsDto\<close> of \<open>src/system/asset-cache.dto.ts\<close>.\<close>

definition asset_cache_settings_dto :: dto where
  "asset_cache_settings_dto =
    [required ''enabled'' TBoolean [IsBoolean],
     required ''browserMaxAgeSeconds'' TNumber [IsInt, AtLeast 60, AtMost 31536000],
     required ''edgeMaxAgeSeconds'' TNumber [IsInt, AtLeast 60, AtMost 31536000]]"

definition request_classes :: "dto list" where
  "request_classes =
    [credentials_dto, user_dto, database_connection_dto, recovery_connection_dto,
     storage_target_dto, backup_object_dto, database_selection_dto, storage_requirement_dto,
     backup_job_dto, restore_dto, environment_dto, notification_events_dto,
     notification_dto, full_export_dto, full_import_dto, recovery_plan_dto,
     pitr_capture_dto, pitr_configuration_dto, pitr_rehearsal_dto, artifact_rehearsal_dto,
     fleet_enrollment_dto, execution_pair_dto, execution_retry_dto, execution_cancel_dto,
     source_group_dto, asset_cache_settings_dto]"

lemmas dto_defs =
  credentials_dto_def user_dto_def database_connection_dto_def
  recovery_connection_dto_def storage_target_dto_def backup_object_dto_def
  database_selection_dto_def storage_requirement_dto_def backup_job_dto_def
  restore_dto_def environment_dto_def notification_events_dto_def
  notification_dto_def full_export_dto_def full_import_dto_def
  recovery_plan_dto_def pitr_capture_dto_def pitr_configuration_dto_def
  pitr_rehearsal_dto_def artifact_rehearsal_dto_def fleet_enrollment_dto_def
  execution_pair_dto_def execution_retry_dto_def execution_cancel_dto_def
  source_group_dto_def asset_cache_settings_dto_def
  required_def optional_def optional_number_def

section \<open>The decorators enforce the declared types\<close>

text \<open>The values of a declared type; a class type also admits arrays of the class, which
  \<open>@ValidateNested\<close> lets through.\<close>

fun has_type :: "ts_type \<Rightarrow> jsv \<Rightarrow> bool"
  and has_class :: "field list \<Rightarrow> (string \<times> jsv) list \<Rightarrow> bool" where
  "has_type TString v = (\<exists>s. v = VStr s)"
| "has_type TNumber v = (v = VFraction \<or> (\<exists>i. v = VInt i))"
| "has_type TBoolean v = (\<exists>b. v = VBool b)"
| "has_type TStrings v = (\<exists>vs. v = VArr vs \<and> (\<forall>x \<in> set vs. case x of VStr _ \<Rightarrow> True | _ \<Rightarrow> False))"
| "has_type TRecord v = (\<exists>kvs. v = VObj kvs)"
| "has_type (TLiteral xs) v = (\<exists>s. v = VStr s \<and> s \<in> set xs)"
| "has_type (TClass d) v = (\<exists>kvss. objects_of v = Some kvss \<and> (\<forall>kvs \<in> set kvss. has_class d kvs))"
| "has_type (TClasses d) v = ((\<exists>vs. v = VArr vs) \<and>
     (\<exists>kvss. objects_of v = Some kvss \<and> (\<forall>kvs \<in> set kvss. has_class d kvs)))"
| "has_class [] kvs = True"
| "has_class (Field n opt num t rs # fs) kvs =
     ((opt \<and> is_nil (prop_of kvs n) \<or> has_type t (prop_of kvs n)) \<and> has_class fs kvs)"

text \<open>A syntactic check: some decorator of the property establishes its type.\<close>

fun textual :: "rule \<Rightarrow> bool" where
  "textual IsString = True"
| "textual (IsIn xs) = True"
| "textual _ = False"

fun enforces :: "rule list \<Rightarrow> ts_type \<Rightarrow> bool"
  and enforced :: "field list \<Rightarrow> bool" where
  "enforces rs TString = list_ex textual rs"
| "enforces rs TNumber = (IsInt \<in> set rs)"
| "enforces rs TBoolean = (IsBoolean \<in> set rs)"
| "enforces rs TStrings = (IsArray \<in> set rs \<and> IsStringEach \<in> set rs)"
| "enforces rs TRecord = (IsObject \<in> set rs)"
| "enforces rs (TLiteral xs) = (IsIn xs \<in> set rs)"
| "enforces rs (TClass d) = (Nested d \<in> set rs \<and> enforced d)"
| "enforces rs (TClasses d) = (IsArray \<in> set rs \<and> NestedEach d \<in> set rs \<and> enforced d)"
| "enforced [] = True"
| "enforced (Field n opt num t rs # fs) = (enforces rs t \<and> enforced fs)"

lemma meets_all_iff: "meets_all rs v \<longleftrightarrow> (\<forall>r \<in> set rs. meets r v)"
  by (induction rs) auto

lemma rule_types:
  "meets IsString v \<Longrightarrow> \<exists>s. v = VStr s"
  "meets (IsIn xs) v \<Longrightarrow> \<exists>s. v = VStr s \<and> s \<in> set xs"
  "meets IsInt v \<Longrightarrow> \<exists>i. v = VInt i"
  "meets IsBoolean v \<Longrightarrow> \<exists>b. v = VBool b"
  "meets IsObject v \<Longrightarrow> \<exists>kvs. v = VObj kvs"
  "meets IsArray v \<Longrightarrow> \<exists>vs. v = VArr vs"
  "meets IsStringEach v \<Longrightarrow> \<exists>vs. v = VArr vs \<and> (\<forall>x \<in> set vs. case x of VStr _ \<Rightarrow> True | _ \<Rightarrow> False)"
  by (simp_all split: jsv.splits)

lemma nested_objects:
  "meets (Nested d) v \<Longrightarrow> \<exists>kvss. objects_of v = Some kvss \<and> (\<forall>kvs \<in> set kvss. conforms d kvs)"
  "meets (NestedEach d) v \<Longrightarrow> \<exists>kvss. objects_of v = Some kvss \<and> (\<forall>kvs \<in> set kvss. conforms d kvs)"
  by (auto split: option.splits)

lemma enforced_types:
  "enforces rs t \<Longrightarrow> meets_all rs v \<Longrightarrow> has_type t v"
  "enforced d \<Longrightarrow> conforms d kvs \<Longrightarrow> has_class d kvs"
proof (induction rs t and d arbitrary: v and kvs rule: enforces_enforced.induct)
  case (1 rs)
  then obtain r where "textual r" and "meets r v"
    by (auto simp: meets_all_iff list_ex_iff)
  then show ?case by (cases r) (auto split: jsv.splits)
next
  case (7 rs d)
  then have "meets (Nested d) v" by (auto simp only: meets_all_iff enforces.simps)
  with 7 nested_objects(1) [of d v] show ?case by (auto simp del: meets.simps)
next
  case (8 rs d)
  then have "meets (NestedEach d) v" "meets IsArray v" by (auto simp only: meets_all_iff enforces.simps)
  with 8 nested_objects(2) [of d v] rule_types(6) [of v] show ?case by (auto simp del: meets.simps)
next
  case (4 rs)
  then have "meets IsStringEach v" by (auto simp only: meets_all_iff enforces.simps)
  then show ?case using rule_types(7) by simp
next
  case (10 n opt num t rs fs)
  then show ?case by auto
qed (auto simp: meets_all_iff simp del: meets.simps dest!: bspec dest: rule_types)

lemma request_classes_enforced: "list_all enforced request_classes"
  by (simp add: request_classes_def dto_defs)



end
