(* ===== verification/Calendar.thy ===== *)
theory Calendar
  imports Js_Text
begin

text \<open>
  The part of JavaScript's \<open>Date\<close> the sources use: \<open>Date.UTC\<close>, the \<open>getUTC\<close> fields and
  \<open>toISOString\<close>, over milliseconds since the epoch in the proleptic Gregorian calendar.
\<close>

section \<open>Days and dates\<close>

text \<open>Years start in March here: the leap day is the last day of the year. A cycle of 400 years has
  146097 days, of 100 years 36524, of four years 1461.\<close>

definition days_from_civil :: "int \<Rightarrow> int \<Rightarrow> int \<Rightarrow> int" where
  "days_from_civil y m dd =
     (let y' = (if m \<le> 2 then y - 1 else y);
          era = y' div 400;
          yoe = y' mod 400;
          mp = (if m > 2 then m - 3 else m + 9);
          doy = (153 * mp + 2) div 5 + dd - 1
      in era * 146097 + (yoe * 365 + yoe div 4 - yoe div 100 + doy) - 719468)"

definition civil_from_days :: "int \<Rightarrow> int \<times> int \<times> int" where
  "civil_from_days z =
     (let z' = z + 719468;
          era = z' div 146097;
          doe = z' mod 146097;
          c = min 3 (doe div 36524);
          r = doe - c * 36524;
          q = r div 1461;
          s = r - q * 1461;
          a = min 3 (s div 365);
          doy = s - a * 365;
          mp = (5 * doy + 2) div 153;
          dd = doy - (153 * mp + 2) div 5 + 1;
          m = (if mp < 10 then mp + 3 else mp - 9);
          y = era * 400 + (c * 100 + q * 4 + a)
      in (if m \<le> 2 then y + 1 else y, m, dd))"

lemma div_between:
  fixes x k :: int
  assumes "0 < k"
  shows "k * (x div k) \<le> x" "x < k * (x div k) + k"
proof -
  have "x = k * (x div k) + x mod k" by simp
  moreover have "0 \<le> x mod k" "x mod k < k" using assms by simp_all
  ultimately show "k * (x div k) \<le> x" "x < k * (x div k) + k" by linarith+
qed

lemma month_of_day:
  fixes doy :: int
  assumes "0 \<le> doy" "doy \<le> 365"
  defines "mp \<equiv> (5 * doy + 2) div 153"
  shows "0 \<le> mp" "mp \<le> 11" "1 \<le> doy - (153 * mp + 2) div 5 + 1" "doy - (153 * mp + 2) div 5 + 1 \<le> 31"
proof -
  have a: "153 * mp \<le> 5 * doy + 2" "5 * doy + 2 < 153 * mp + 153"
    using div_between [of 153 "5 * doy + 2"] by (simp_all add: mp_def)
  have b: "5 * ((153 * mp + 2) div 5) \<le> 153 * mp + 2" "153 * mp + 2 < 5 * ((153 * mp + 2) div 5) + 5"
    using div_between [of 5 "153 * mp + 2"] by simp_all
  show "0 \<le> mp" "mp \<le> 11" using a assms(1,2) by linarith+
  show "1 \<le> doy - (153 * mp + 2) div 5 + 1" "doy - (153 * mp + 2) div 5 + 1 \<le> 31"
    using a b by linarith+
qed

lemma cycle_parts:
  fixes doe :: int
  assumes "0 \<le> doe" "doe < 146097"
  defines "c \<equiv> min 3 (doe div 36524)"
  defines "r \<equiv> doe - c * 36524"
  defines "q \<equiv> r div 1461"
  defines "s \<equiv> r - q * 1461"
  defines "a \<equiv> min 3 (s div 365)"
  shows "0 \<le> c" "c \<le> 3" "0 \<le> q" "q \<le> 24" "0 \<le> a" "a \<le> 3" "0 \<le> s - a * 365" "s - a * 365 \<le> 365"
    "doe = c * 36524 + q * 1461 + a * 365 + (s - a * 365)"
proof -
  have d: "36524 * (doe div 36524) \<le> doe" "doe < 36524 * (doe div 36524) + 36524" by (rule div_between, simp)+
  show c: "0 \<le> c" "c \<le> 3" using d assms(1,2) by (simp_all add: c_def)
  have r: "0 \<le> r" "r \<le> 36524" using d assms(1,2) unfolding r_def c_def by (simp_all add: min_def)
  have e: "1461 * q \<le> r" "r < 1461 * q + 1461" unfolding q_def by (rule div_between, simp)+
  with r show q: "0 \<le> q" "q \<le> 24" by linarith+
  have s: "0 \<le> s" "s \<le> 1460" using e unfolding s_def by linarith+
  have f: "365 * (s div 365) \<le> s" "s < 365 * (s div 365) + 365" by (rule div_between, simp)+
  then show a: "0 \<le> a" "a \<le> 3" using s by (simp_all add: a_def)
  show "0 \<le> s - a * 365" "s - a * 365 \<le> 365" using s f unfolding a_def by (simp_all add: min_def)
  show "doe = c * 36524 + q * 1461 + a * 365 + (s - a * 365)" by (simp add: s_def r_def)
qed

lemma days_from_civil_from_days [simp]:
  "days_from_civil (fst (civil_from_days z)) (fst (snd (civil_from_days z))) (snd (snd (civil_from_days z))) = z"
proof -
  define doe where "doe = (z + 719468) mod 146097"
  define era where "era = (z + 719468) div 146097"
  define c where "c = min 3 (doe div 36524)"
  define q where "q = (doe - c * 36524) div 1461"
  define a where "a = min 3 ((doe - c * 36524 - q * 1461) div 365)"
  define doy where "doy = doe - c * 36524 - q * 1461 - a * 365"
  define mp where "mp = (5 * doy + 2) div 153"
  have d: "0 \<le> doe" "doe < 146097" by (simp_all add: doe_def)
  note parts = cycle_parts [OF d, folded c_def, folded q_def, folded a_def, folded doy_def]
  have doy: "0 \<le> doy" "doy \<le> 365" using parts(7,8) by (simp_all add: doy_def algebra_simps)
  note mp = month_of_day [OF doy, folded mp_def]
  define yoe where "yoe = c * 100 + q * 4 + a"
  define w where "w = (153 * mp + 2) div 5"
  define dd where "dd = doy - w + 1"
  have yoe: "0 \<le> yoe" "yoe < 400" "yoe div 4 = c * 25 + q" "yoe div 100 = c"
    using parts(1-6) int_div_pos_eq [of yoe 4 "c * 25 + q" a] int_div_pos_eq [of yoe 100 c "q * 4 + a"]
    by (simp_all add: yoe_def)
  have civ: "civil_from_days z =
     (if (if mp < 10 then mp + 3 else mp - 9) \<le> 2 then era * 400 + yoe + 1 else era * 400 + yoe,
      if mp < 10 then mp + 3 else mp - 9, dd)"
    by (simp only: civil_from_days_def Let_def doe_def era_def c_def q_def a_def doy_def mp_def yoe_def dd_def w_def)
  have split: "(era * 400 + yoe) div 400 = era" "(era * 400 + yoe) mod 400 = yoe"
    by (rule int_div_pos_eq [of _ 400 era yoe] int_mod_pos_eq [of _ 400 era yoe]; use yoe(1,2) in simp)+
  have yoe_mod: "yoe mod 400 = yoe" using yoe(1,2) by simp
  have z: "z = era * 146097 + doe - 719468" by (simp add: era_def doe_def)
  have doe: "doe = c * 36524 + q * 1461 + a * 365 + doy" by (simp add: doy_def)
  have total: "era * 146097 + (yoe * 365 + (c * 25 + q) - c + (w + dd - 1)) - 719468 = z"
    unfolding z doe dd_def yoe_def by simp
  show ?thesis
  proof (cases "mp < 10")
    case True
    with mp(1) have "civil_from_days z = (era * 400 + yoe, mp + 3, dd)" by (simp add: civ)
    with True mp(1) show ?thesis using total by (simp add: days_from_civil_def Let_def split yoe_mod yoe(3,4) w_def)
  next
    case False
    with mp(2) have "civil_from_days z = (era * 400 + yoe + 1, mp - 9, dd)" by (simp add: civ)
    with False mp(2) show ?thesis using total by (simp add: days_from_civil_def Let_def split yoe_mod yoe(3,4) w_def)
  qed
qed

lemma civil_ranges:
  "1 \<le> fst (snd (civil_from_days z))" "fst (snd (civil_from_days z)) \<le> 12"
  "1 \<le> snd (snd (civil_from_days z))" "snd (snd (civil_from_days z)) \<le> 31"
proof -
  define doe where "doe = (z + 719468) mod 146097"
  define c where "c = min 3 (doe div 36524)"
  define q where "q = (doe - c * 36524) div 1461"
  define a where "a = min 3 ((doe - c * 36524 - q * 1461) div 365)"
  define doy where "doy = doe - c * 36524 - q * 1461 - a * 365"
  have d: "0 \<le> doe" "doe < 146097" by (simp_all add: doe_def)
  note parts = cycle_parts [OF d, folded c_def, folded q_def, folded a_def]
  have doy: "0 \<le> doy" "doy \<le> 365" using parts(7,8) by (simp_all add: doy_def)
  have civ: "snd (civil_from_days z) = (if (5 * doy + 2) div 153 < 10 then (5 * doy + 2) div 153 + 3 else (5 * doy + 2) div 153 - 9,
      doy - (153 * ((5 * doy + 2) div 153) + 2) div 5 + 1)"
    by (simp only: civil_from_days_def Let_def doe_def c_def q_def a_def doy_def snd_conv)
  show "1 \<le> fst (snd (civil_from_days z))" "fst (snd (civil_from_days z)) \<le> 12"
    "1 \<le> snd (snd (civil_from_days z))" "snd (snd (civil_from_days z)) \<le> 31"
    unfolding civ using month_of_day [OF doy] by simp_all
qed

section \<open>Timestamps\<close>

definition day_ms :: int where
  "day_ms = 86400000"

definition date_utc :: "int \<Rightarrow> int \<Rightarrow> int \<Rightarrow> int \<Rightarrow> int \<Rightarrow> time" where
  "date_utc y m dd h mi = days_from_civil y m dd * 86400000 + h * 3600000 + mi * 60000"

record wall =
  wl_year :: int
  wl_month :: int
  wl_day :: int
  wl_hour :: int
  wl_minute :: int

definition utc_wall :: "time \<Rightarrow> wall" where
  "utc_wall t =
     (let (y, m, dd) = civil_from_days (t div 86400000); ms = t mod 86400000
      in \<lparr>wl_year = y, wl_month = m, wl_day = dd, wl_hour = ms div 3600000, wl_minute = ms mod 3600000 div 60000\<rparr>)"

text \<open>\<open>getUTCDay\<close>: the epoch was a Thursday.\<close>

definition utc_weekday :: "time \<Rightarrow> int" where
  "utc_weekday t = (t div 86400000 + 4) mod 7"

definition wall_utc :: "wall \<Rightarrow> time" where
  "wall_utc w = date_utc (wl_year w) (wl_month w) (wl_day w) (wl_hour w) (wl_minute w)"

lemma wall_utc_utc_wall: "wall_utc (utc_wall t) = t - t mod 60000"
proof -
  define day ms hh rest mi where "day = t div 86400000" and "ms = t mod 86400000" and "hh = ms div 3600000"
    and "rest = ms mod 3600000" and "mi = rest div 60000"
  have "t = day * 86400000 + ms" by (simp add: day_def ms_def)
  moreover have "ms = hh * 3600000 + rest" by (simp add: hh_def rest_def)
  moreover have "rest = mi * 60000 + rest mod 60000" by (simp add: mi_def)
  moreover have "rest mod 60000 = t mod 60000" by (simp add: rest_def ms_def mod_mod_cancel)
  ultimately have "t - t mod 60000 = day * 86400000 + hh * 3600000 + mi * 60000" by linarith
  moreover have "wall_utc (utc_wall t) = day * 86400000 + hh * 3600000 + mi * 60000"
    by (simp add: wall_utc_def utc_wall_def date_utc_def Let_def case_prod_beta day_def ms_def hh_def rest_def mi_def)
  ultimately show ?thesis by simp
qed

lemma utc_wall_ranges:
  "1 \<le> wl_month (utc_wall t)" "wl_month (utc_wall t) \<le> 12" "1 \<le> wl_day (utc_wall t)" "wl_day (utc_wall t) \<le> 31"
  "0 \<le> wl_hour (utc_wall t)" "wl_hour (utc_wall t) \<le> 23" "0 \<le> wl_minute (utc_wall t)" "wl_minute (utc_wall t) \<le> 59"
proof -
  define ms where "ms = t mod 86400000"
  define rest where "rest = ms mod 3600000"
  have ms: "0 \<le> ms" "ms < 86400000" by (simp_all add: ms_def)
  have rest: "0 \<le> rest" "rest < 3600000" by (simp_all add: rest_def)
  have w: "wl_hour (utc_wall t) = ms div 3600000" "wl_minute (utc_wall t) = rest div 60000"
    "wl_month (utc_wall t) = fst (snd (civil_from_days (t div 86400000)))"
    "wl_day (utc_wall t) = snd (snd (civil_from_days (t div 86400000)))"
    by (simp_all add: utc_wall_def Let_def case_prod_beta ms_def rest_def)
  show "1 \<le> wl_month (utc_wall t)" "wl_month (utc_wall t) \<le> 12" "1 \<le> wl_day (utc_wall t)" "wl_day (utc_wall t) \<le> 31"
    unfolding w by (rule civil_ranges)+
  show "0 \<le> wl_hour (utc_wall t)" "wl_hour (utc_wall t) \<le> 23" "0 \<le> wl_minute (utc_wall t)" "wl_minute (utc_wall t) \<le> 59"
    unfolding w using ms rest div_between [of 3600000 ms] div_between [of 60000 rest] by linarith+
qed

end
