(* ===== verification/Cron.thy ===== *)
theory Cron
  imports Calendar
begin

text \<open>
  Cron expressions (\<open>parseCronField\<close> and \<open>nextCron\<close> of \<open>src/backup/backup.utils.ts\<close>). The IANA
  time zones are data outside the repository: \<open>zones\<close> maps the name of a zone to the local wall
  clock that \<open>Intl.DateTimeFormat\<close> shows at a time (\<open>None\<close> for an unknown name).
\<close>

section \<open>One field\<close>

definition num_eq :: "jsnum \<Rightarrow> int \<Rightarrow> bool" where
  "num_eq x v = (case x of Fin r \<Rightarrow> r = of_int v | _ \<Rightarrow> False)"

definition num_le :: "jsnum \<Rightarrow> int \<Rightarrow> bool" where
  "num_le x v = (case x of Fin r \<Rightarrow> r \<le> of_int v | Infinite neg \<Rightarrow> neg | NaN \<Rightarrow> False)"

definition num_ge :: "jsnum \<Rightarrow> int \<Rightarrow> bool" where
  "num_ge x v = (case x of Fin r \<Rightarrow> of_int v \<le> r | Infinite neg \<Rightarrow> \<not> neg | NaN \<Rightarrow> False)"

text \<open>\<open>(value - a) % step === 0\<close>.\<close>

definition on_step :: "int \<Rightarrow> jsnum \<Rightarrow> int \<Rightarrow> bool" where
  "on_step v a k = (case a of
     Fin r \<Rightarrow> let x = (of_int v - r) / of_int k in of_int \<lfloor>x\<rfloor> = x
   | _ \<Rightarrow> False)"

definition cron_step :: "string list \<Rightarrow> int option" where
  "cron_step ps =
     (let st = (if length ps < 2 then [] else ps ! 1)
      in case (if st = [] then Fin 1 else js_number st) of
           Fin r \<Rightarrow> if of_int \<lfloor>r\<rfloor> = r \<and> r \<ge> 1 then Some \<lfloor>r\<rfloor> else None
         | _ \<Rightarrow> None)"

definition cron_part :: "int \<Rightarrow> string \<Rightarrow> bool" where
  "cron_part v part =
     (let ps = split_on (CHR ''/'') part; base = hd ps
      in case cron_step ps of
           None \<Rightarrow> False
         | Some k \<Rightarrow>
             if base = ''*'' then v mod k = 0
             else if CHR ''-'' \<in> set base
             then (let xs = split_on (CHR ''-'') base; a = js_number (xs ! 0); b = js_number (xs ! 1)
                   in num_le a v \<and> num_ge b v \<and> on_step v a k)
             else num_eq (js_number base) v)"

definition parse_cron_field :: "string \<Rightarrow> int \<Rightarrow> int \<Rightarrow> int \<Rightarrow> bool" where
  "parse_cron_field field lo hi v =
     (if field = ''*'' then True
      else list_ex (cron_part v) (split_on (CHR '','') field) \<and> v \<ge> lo \<and> v \<le> hi)"

section \<open>The next occurrence\<close>

fun words_from :: "string \<Rightarrow> string \<Rightarrow> string list" where
  "words_from w [] = (if w = [] then [] else [rev w])"
| "words_from w (c # cs) =
     (if is_space c then (if w = [] then words_from [] cs else rev w # words_from [] cs)
      else words_from (c # w) cs)"

definition cron_fields :: "string \<Rightarrow> string list" where
  "cron_fields cron = words_from [] (trim cron)"

definition cron_ranges :: "(int \<times> int) list" where
  "cron_ranges = [(0, 59), (0, 23), (1, 31), (1, 12), (0, 6)]"

definition field_values :: "string \<Rightarrow> int \<times> int \<Rightarrow> int list" where
  "field_values field bounds = filter (parse_cron_field field (fst bounds) (snd bounds)) [fst bounds .. snd bounds]"

definition cron_allowed :: "string \<Rightarrow> int list list result" where
  "cron_allowed cron =
     (if length (cron_fields cron) \<noteq> 5
      then Inl (Failure ''Use a standard 5-field cron expression: minute hour day month weekday'')
      else let vs = map2 field_values (cron_fields cron) cron_ranges
           in if list_ex (\<lambda>v. v = []) vs then Inl (Failure ''Cron field has no valid values'') else Inr vs)"

type_synonym local_clock = "time \<Rightarrow> wall"

text \<open>The offsets of the zone around a day, one sample every twelve hours.\<close>

definition sample_hours :: "int list" where
  "sample_hours = [-48, -36, -24, -12, 0, 12, 24, 36, 48]"

definition day_offsets :: "local_clock \<Rightarrow> time \<Rightarrow> time list" where
  "day_offsets loc day = uniq (map (\<lambda>h. let s = day + h * 3600000 in wall_utc (loc s) - s) sample_hours)"

definition day_wall :: "time \<Rightarrow> int \<Rightarrow> int \<Rightarrow> wall" where
  "day_wall day h mi = (let (y, m, dd) = civil_from_days (day div 86400000)
     in \<lparr>wl_year = y, wl_month = m, wl_day = dd, wl_hour = h, wl_minute = mi\<rparr>)"

definition day_allowed :: "int list list \<Rightarrow> time \<Rightarrow> bool" where
  "day_allowed vs day = (let (y, m, dd) = civil_from_days (day div 86400000)
     in dd \<in> set (vs ! 2) \<and> m \<in> set (vs ! 3) \<and> utc_weekday day \<in> set (vs ! 4))"

text \<open>The hours, minutes and offsets in the order of the loops, with the instant each denotes.\<close>

definition day_candidates :: "local_clock \<Rightarrow> int list list \<Rightarrow> time \<Rightarrow> (time \<times> wall) list" where
  "day_candidates loc vs day =
     concat (map (\<lambda>h. concat (map (\<lambda>mi. map (\<lambda>off.
       (day + h * 3600000 + mi * 60000 - off, day_wall day h mi)) (day_offsets loc day)) (vs ! 0))) (vs ! 1))"

definition better :: "local_clock \<Rightarrow> time \<Rightarrow> time \<times> wall \<Rightarrow> time option \<Rightarrow> time option" where
  "better loc from c best =
     (if fst c \<le> from \<or> (case best of None \<Rightarrow> False | Some b \<Rightarrow> fst c \<ge> b) then best
      else if loc (fst c) = snd c then Some (fst c) else best)"

definition day_earliest :: "local_clock \<Rightarrow> int list list \<Rightarrow> time \<Rightarrow> time \<Rightarrow> time option" where
  "day_earliest loc vs from day = fold (better loc from) (day_candidates loc vs day) None"

fun search_days :: "nat \<Rightarrow> local_clock \<Rightarrow> int list list \<Rightarrow> time \<Rightarrow> time \<Rightarrow> time option" where
  "search_days 0 loc vs from day = None"
| "search_days (Suc n) loc vs from day =
     (case (if day_allowed vs day then day_earliest loc vs from day else None) of
        Some t \<Rightarrow> Some t
      | None \<Rightarrow> search_days n loc vs from (day + 86400000))"

definition search_limit :: nat where
  "search_limit = 366 * 8"

definition next_cron :: "(string \<Rightarrow> local_clock option) \<Rightarrow> string \<Rightarrow> string \<Rightarrow> time \<Rightarrow> time result" where
  "next_cron zones cron timezone from =
     (case cron_allowed cron of
        Inl e \<Rightarrow> Inl e
      | Inr vs \<Rightarrow>
          (case zones timezone of
             None \<Rightarrow> Inl (Failure ''Invalid time zone specified'')
           | Some loc \<Rightarrow>
               (let cur = loc from;
                    first = date_utc (wl_year cur) (wl_month cur) (wl_day cur) 0 0
                in case search_days search_limit loc vs from first of
                     Some t \<Rightarrow> Inr t
                   | None \<Rightarrow> Inl (Failure ''Could not calculate the next schedule occurrence''))))"

end
