(* ===== verification/Cron_Props.thy ===== *)
theory Cron_Props
  imports Cron Schedule_Props Sample
begin

text \<open>
  The search of \<open>nextCron\<close> against its specification: the result is a later instant whose local
  time matches the expression, and, in a zone of fixed offset, the first one.
\<close>

section \<open>The specification\<close>

definition wall_weekday :: "wall \<Rightarrow> int" where
  "wall_weekday w = (days_from_civil (wl_year w) (wl_month w) (wl_day w) + 4) mod 7"

definition cron_matches :: "int list list \<Rightarrow> wall \<Rightarrow> bool" where
  "cron_matches vs w = (wl_minute w \<in> set (vs ! 0) \<and> wl_hour w \<in> set (vs ! 1) \<and> wl_day w \<in> set (vs ! 2)
     \<and> wl_month w \<in> set (vs ! 3) \<and> wall_weekday w \<in> set (vs ! 4))"

text \<open>An occurrence in a zone of fixed offset: a whole minute that matches.\<close>

definition occurs :: "int list list \<Rightarrow> int \<Rightarrow> time \<Rightarrow> bool" where
  "occurs vs off u = ((u + off) mod 60000 = 0 \<and> cron_matches vs (utc_wall (u + off)))"

section \<open>The best candidate of a day\<close>

definition valid_candidate :: "local_clock \<Rightarrow> time \<Rightarrow> time \<times> wall \<Rightarrow> bool" where
  "valid_candidate loc from c = (from < fst c \<and> loc (fst c) = snd c)"

lemma better_sound:
  assumes "better loc from c best = Some t"
  shows "best = Some t \<or> valid_candidate loc from c \<and> t = fst c"
  using assms by (auto simp: better_def valid_candidate_def split: if_splits option.splits)

lemma better_complete:
  shows "valid_candidate loc from c \<Longrightarrow> \<exists>t \<le> fst c. better loc from c best = Some t"
    and "best = Some b \<Longrightarrow> \<exists>t \<le> b. better loc from c best = Some t"
  by (auto simp: better_def valid_candidate_def split: option.splits)

lemma fold_better_sound:
  "fold (better loc from) cs best = Some t \<Longrightarrow> best = Some t \<or> (\<exists>c \<in> set cs. valid_candidate loc from c \<and> t = fst c)"
proof (induction cs arbitrary: best)
  case (Cons c cs)
  then have "better loc from c best = Some t \<or> (\<exists>c \<in> set cs. valid_candidate loc from c \<and> t = fst c)" by simp
  then show ?case using better_sound by fastforce
qed simp

lemma fold_better_le: "\<exists>t \<le> b. fold (better loc from) cs (Some b) = Some t"
proof (induction cs arbitrary: b)
  case (Cons c cs)
  obtain b' where b': "b' \<le> b" "better loc from c (Some b) = Some b'" using better_complete(2) by blast
  from Cons [of b'] obtain t where "t \<le> b'" "fold (better loc from) cs (Some b') = Some t" by blast
  with b' show ?case by auto
qed simp

lemma fold_better_complete:
  assumes "c \<in> set cs" and "valid_candidate loc from c"
  shows "\<exists>t \<le> fst c. fold (better loc from) cs best = Some t"
  using assms
proof (induction cs arbitrary: best)
  case (Cons x cs)
  show ?case
  proof (cases "x = c")
    case True
    with Cons.prems obtain b where "b \<le> fst c" "better loc from x best = Some b" using better_complete(1) by blast
    with fold_better_le [of b loc "from" cs] show ?thesis by fastforce
  next
    case False
    with Cons show ?thesis by simp
  qed
qed simp

lemma in_day_candidates:
  "c \<in> set (day_candidates loc vs day) \<longleftrightarrow>
     (\<exists>h mi off. h \<in> set (vs ! 1) \<and> mi \<in> set (vs ! 0) \<and> off \<in> set (day_offsets loc day)
        \<and> c = (day + h * 3600000 + mi * 60000 - off, day_wall day h mi))"
  by (auto simp: day_candidates_def)

lemma day_wall_fields:
  "wl_hour (day_wall day h mi) = h" "wl_minute (day_wall day h mi) = mi"
  "wl_day (day_wall day h mi) = snd (snd (civil_from_days (day div 86400000)))"
  "wl_month (day_wall day h mi) = fst (snd (civil_from_days (day div 86400000)))"
  "wall_weekday (day_wall day h mi) = utc_weekday day"
  by (simp_all add: day_wall_def wall_weekday_def utc_weekday_def case_prod_beta)

lemma day_wall_matches:
  "day_allowed vs day \<Longrightarrow> h \<in> set (vs ! 1) \<Longrightarrow> mi \<in> set (vs ! 0) \<Longrightarrow> cron_matches vs (day_wall day h mi)"
  by (simp add: cron_matches_def day_wall_fields day_allowed_def case_prod_beta)

lemma day_earliest_sound:
  assumes "day_allowed vs day" and "day_earliest loc vs from day = Some t"
  shows "from < t" "cron_matches vs (loc t)"
    "\<exists>h mi off. h \<in> set (vs ! 1) \<and> mi \<in> set (vs ! 0) \<and> off \<in> set (day_offsets loc day)
        \<and> t = day + h * 3600000 + mi * 60000 - off"
proof -
  from fold_better_sound [OF assms(2) [unfolded day_earliest_def]]
  obtain c where c: "c \<in> set (day_candidates loc vs day)" "valid_candidate loc from c" "t = fst c" by auto
  from c(1) obtain h mi off where h: "h \<in> set (vs ! 1)" "mi \<in> set (vs ! 0)" "off \<in> set (day_offsets loc day)"
    "c = (day + h * 3600000 + mi * 60000 - off, day_wall day h mi)" unfolding in_day_candidates by blast
  show "from < t" using c by (simp add: valid_candidate_def)
  show "cron_matches vs (loc t)" using c h day_wall_matches [OF assms(1) h(1,2)] by (simp add: valid_candidate_def)
  show "\<exists>h mi off. h \<in> set (vs ! 1) \<and> mi \<in> set (vs ! 0) \<and> off \<in> set (day_offsets loc day)
        \<and> t = day + h * 3600000 + mi * 60000 - off" using h c(3) by auto
qed

section \<open>The search over days\<close>

definition day_result :: "local_clock \<Rightarrow> int list list \<Rightarrow> time \<Rightarrow> time \<Rightarrow> time option" where
  "day_result loc vs from day = (if day_allowed vs day then day_earliest loc vs from day else None)"

lemma search_days_Some:
  "search_days n loc vs from day = Some t \<Longrightarrow>
     \<exists>k < n. day_result loc vs from (day + int k * 86400000) = Some t
       \<and> (\<forall>i < k. day_result loc vs from (day + int i * 86400000) = None)"
proof (induction n arbitrary: day)
  case (Suc n)
  show ?case
  proof (cases "day_result loc vs from day")
    case None
    with Suc.prems have "search_days n loc vs from (day + 86400000) = Some t"
      by (simp add: day_result_def)
    from Suc.IH [OF this] obtain k where k: "k < n" "day_result loc vs from (day + 86400000 + int k * 86400000) = Some t"
      "\<forall>i < k. day_result loc vs from (day + 86400000 + int i * 86400000) = None" by blast
    have "day_result loc vs from (day + int i * 86400000) = None" if "i < Suc k" for i
    proof (cases i)
      case 0
      with None show ?thesis by simp
    next
      case (Suc j)
      with k(3) that have "day_result loc vs from (day + 86400000 + int j * 86400000) = None" by simp
      moreover have "day + int i * 86400000 = day + 86400000 + int j * 86400000" by (simp add: Suc)
      ultimately show ?thesis by (simp only:)
    qed
    moreover have "day + int (Suc k) * 86400000 = day + 86400000 + int k * 86400000" by simp
    ultimately show ?thesis using k(1,2) by (intro exI [of _ "Suc k"]) (simp only: Suc_less_eq simp_thms, blast)
  next
    case (Some t')
    with Suc.prems show ?thesis by (intro exI [of _ 0]) (auto simp: day_result_def split: if_splits)
  qed
qed simp

lemma search_days_None:
  "search_days n loc vs from day = None \<Longrightarrow> i < n \<Longrightarrow> day_result loc vs from (day + int i * 86400000) = None"
proof (induction n arbitrary: day i)
  case (Suc n)
  then have here: "day_result loc vs from day = None" and rest: "search_days n loc vs from (day + 86400000) = None"
    by (auto simp: day_result_def split: option.splits if_splits)
  show ?case
  proof (cases i)
    case 0
    with here show ?thesis by simp
  next
    case (Suc j)
    with Suc.IH [OF rest, of j] Suc.prems(2) show ?thesis by (simp add: algebra_simps)
  qed
qed simp

text \<open>The next occurrence of a schedule lies after the given time and its local wall clock matches
  all five fields of the expression, in whatever time zone: repeated and skipped hours included.\<close>

theorem next_cron_matches:
  assumes "next_cron zones cron timezone from = Inr t"
  shows "\<exists>loc vs. zones timezone = Some loc \<and> cron_allowed cron = Inr vs \<and> from < t \<and> cron_matches vs (loc t)"
proof -
  from assms obtain loc vs first where z: "zones timezone = Some loc" "cron_allowed cron = Inr vs"
    and s: "search_days search_limit loc vs from first = Some t"
    by (auto simp: next_cron_def Let_def split: sum.splits option.splits)
  from search_days_Some [OF s] obtain day where "day_result loc vs from day = Some t" by blast
  then have "day_allowed vs day" "day_earliest loc vs from day = Some t" by (auto simp: day_result_def split: if_splits)
  from day_earliest_sound(1,2) [OF this] z show ?thesis by blast
qed

section \<open>Zones of fixed offset\<close>

lemma day_in_minutes:
  fixes x :: int
  assumes "x mod 86400000 = 0"
  shows "60000 dvd x"
proof (rule dvd_trans)
  show "(60000 :: int) dvd 86400000" by simp
  show "86400000 dvd x" using assms by (simp add: dvd_eq_mod_eq_0)
qed

lemma fixed_offsets:
  assumes off: "off mod 60000 = 0" and day: "day mod 86400000 = 0"
  shows "day_offsets (\<lambda>t. utc_wall (t + off)) day = [off]"
proof -
  note d = day_in_minutes [OF day]
  have "(day + h * 3600000 + off) mod 60000 = 0" for h
  proof -
    have "60000 dvd h * 3600000" by (rule dvdI [of _ _ "h * 60"]) simp
    with d off show ?thesis by (simp add: dvd_eq_mod_eq_0 [symmetric])
  qed
  then show ?thesis by (simp add: day_offsets_def sample_hours_def Let_def wall_utc_utc_wall)
qed

lemma utc_wall_day:
  fixes x :: int
  shows "utc_wall x = day_wall (x - x mod 86400000) (wl_hour (utc_wall x)) (wl_minute (utc_wall x))"
proof -
  have "(x - x mod 86400000) div 86400000 = x div 86400000" by (simp add: minus_mod_eq_div_mult)
  then show ?thesis by (simp add: utc_wall_def day_wall_def Let_def case_prod_beta)
qed

lemma whole_minute_split:
  assumes "x mod 60000 = 0"
  shows "x = (x - x mod 86400000) + wl_hour (utc_wall x) * 3600000 + wl_minute (utc_wall x) * 60000"
proof -
  have "wall_utc (utc_wall x) = x" using assms by (simp add: wall_utc_utc_wall)
  moreover have "wall_utc (utc_wall x) = x div 86400000 * 86400000 + wl_hour (utc_wall x) * 3600000 + wl_minute (utc_wall x) * 60000"
    by (simp add: wall_utc_def date_utc_def utc_wall_def Let_def case_prod_beta)
  ultimately show ?thesis by (simp add: minus_mod_eq_div_mult)
qed

lemma matches_day_wall:
  "cron_matches vs (day_wall day h mi) \<longleftrightarrow> day_allowed vs day \<and> h \<in> set (vs ! 1) \<and> mi \<in> set (vs ! 0)"
  by (auto simp: cron_matches_def day_wall_fields day_allowed_def case_prod_beta)

lemma first_day:
  "date_utc (wl_year (utc_wall x)) (wl_month (utc_wall x)) (wl_day (utc_wall x)) 0 0 = x - x mod 86400000"
  by (simp add: date_utc_def utc_wall_def Let_def case_prod_beta minus_mod_eq_div_mult)

lemma cron_allowed_bounds:
  assumes "cron_allowed cron = Inr vs"
  shows "h \<in> set (vs ! 1) \<Longrightarrow> 0 \<le> h \<and> h \<le> 23" "mi \<in> set (vs ! 0) \<Longrightarrow> 0 \<le> mi \<and> mi \<le> 59"
proof -
  from assms have len: "length (cron_fields cron) = 5" and vs: "vs = map2 field_values (cron_fields cron) cron_ranges"
    by (auto simp: cron_allowed_def Let_def split: if_splits)
  have "vs ! i = field_values (cron_fields cron ! i) (cron_ranges ! i)" if "i < 5" for i
    using that len by (simp add: vs cron_ranges_def)
  from this [of 0] this [of 1] show "h \<in> set (vs ! 1) \<Longrightarrow> 0 \<le> h \<and> h \<le> 23" "mi \<in> set (vs ! 0) \<Longrightarrow> 0 \<le> mi \<and> mi \<le> 59"
    by (auto simp: field_values_def cron_ranges_def)
qed

lemma occurrence_is_found:
  assumes "off mod 60000 = 0" and "occurs vs off u" and "from < u"
  shows "\<exists>t \<le> u. day_result (\<lambda>t. utc_wall (t + off)) vs from (u + off - (u + off) mod 86400000) = Some t"
proof -
  let ?x = "u + off" and ?loc = "\<lambda>t. utc_wall (t + off)"
  let ?day = "?x - ?x mod 86400000" and ?h = "wl_hour (utc_wall ?x)" and ?mi = "wl_minute (utc_wall ?x)"
  have x: "?x mod 60000 = 0" "cron_matches vs (utc_wall ?x)" using assms(2) by (simp_all add: occurs_def)
  have a: "day_allowed vs ?day" "?h \<in> set (vs ! 1)" "?mi \<in> set (vs ! 0)"
    using x(2) matches_day_wall utc_wall_day [of ?x] by metis+
  have "?day mod 86400000 = 0" by (simp add: minus_mod_eq_div_mult)
  then have "off \<in> set (day_offsets ?loc ?day)" using fixed_offsets [OF assms(1)] by simp
  with a(2,3) have "(?day + ?h * 3600000 + ?mi * 60000 - off, day_wall ?day ?h ?mi) \<in> set (day_candidates ?loc vs ?day)"
    unfolding in_day_candidates by blast
  moreover have "?day + ?h * 3600000 + ?mi * 60000 - off = u" using whole_minute_split [OF x(1)] by linarith
  ultimately have c: "(u, day_wall ?day ?h ?mi) \<in> set (day_candidates ?loc vs ?day)" by simp
  have "valid_candidate ?loc from (u, day_wall ?day ?h ?mi)"
    using assms(3) utc_wall_day [of ?x] by (simp add: valid_candidate_def)
  from fold_better_complete [OF c this] a(1) show ?thesis by (simp add: day_result_def day_earliest_def)
qed

text \<open>C3: In a zone of fixed offset nextCron computes exactly the next occurrence: the least whole
  minute after the given time that matches the expression; and it fails only when none of the next
  2927 days has one.\<close>

theorem next_cron_is_the_next_occurrence:
  assumes zone: "zones timezone = Some (\<lambda>t. utc_wall (t + off))" and off: "off mod 60000 = 0"
    and vs: "cron_allowed cron = Inr vs"
  shows "case next_cron zones cron timezone from of
      Inr t \<Rightarrow> from < t \<and> occurs vs off t \<and> (\<forall>u. from < u \<and> u < t \<longrightarrow> \<not> occurs vs off u)
    | Inl _ \<Rightarrow> (\<forall>u. from < u \<and> u < from + 2927 * 86400000 \<longrightarrow> \<not> occurs vs off u)"
proof -
  let ?loc = "\<lambda>t. utc_wall (t + off)" and ?D = "86400000 :: int"
  define first where "first = from + off - (from + off) mod ?D"
  have run: "next_cron zones cron timezone from = (case search_days search_limit ?loc vs from first of
      Some t \<Rightarrow> Inr t | None \<Rightarrow> Inl (Failure ''Could not calculate the next schedule occurrence''))"
    by (simp add: next_cron_def vs zone Let_def first_day first_def)
  have "first mod ?D = 0" by (simp add: first_def minus_mod_eq_div_mult)
  then have days: "(first + int k * ?D) mod ?D = 0" for k by simp
  have index: "\<exists>j. u + off - (u + off) mod ?D = first + int j * ?D \<and> (u < from + 2927 * ?D \<longrightarrow> j < search_limit)"
    if "from < u" for u
  proof -
    define a b where "a = (u + off) div ?D" and "b = (from + off) div ?D"
    have "b \<le> a" using that by (simp add: a_def b_def zdiv_mono1)
    then have "u + off - (u + off) mod ?D = first + int (nat (a - b)) * ?D"
      by (simp add: first_def a_def b_def minus_mod_eq_div_mult algebra_simps)
    moreover have "nat (a - b) < search_limit" if "u < from + 2927 * ?D"
    proof -
      have "?D * a \<le> u + off" "from + off < ?D * b + ?D" using div_between [of ?D] by (simp_all add: a_def b_def)
      with that have "a - b < 2928" by linarith
      then show ?thesis by (simp add: search_limit_def)
    qed
    ultimately show ?thesis by blast
  qed
  show ?thesis
  proof (cases "search_days search_limit ?loc vs from first")
    case None
    have "\<not> occurs vs off u" if u: "from < u" "u < from + 2927 * ?D" for u
    proof
      assume o: "occurs vs off u"
      from index [OF u(1)] u(2) obtain j where "u + off - (u + off) mod ?D = first + int j * ?D" "j < search_limit" by blast
      with occurrence_is_found [OF off o u(1)] search_days_None [OF None] show False by (metis option.distinct(1))
    qed
    then show ?thesis by (simp add: run None)
  next
    case (Some t)
    from search_days_Some [OF Some] obtain k where k: "day_result ?loc vs from (first + int k * ?D) = Some t"
      and before: "\<And>i. i < k \<Longrightarrow> day_result ?loc vs from (first + int i * ?D) = None" by blast
    from k have allowed: "day_allowed vs (first + int k * ?D)" and e: "day_earliest ?loc vs from (first + int k * ?D) = Some t"
      by (auto simp: day_result_def split: if_splits)
    note s = day_earliest_sound [OF allowed e]
    from s(3) obtain h mi where hm: "h \<in> set (vs ! 1)" "mi \<in> set (vs ! 0)"
      and t: "t + off = first + int k * ?D + h * 3600000 + mi * 60000"
      unfolding fixed_offsets [OF off days] by auto
    note hmb = cron_allowed_bounds(1) [OF vs hm(1)] cron_allowed_bounds(2) [OF vs hm(2)]
    have "(t + off) mod 60000 = 0"
    proof -
      have "60000 dvd first + int k * ?D" by (rule day_in_minutes [OF days])
      moreover have "60000 dvd h * 3600000" by (rule dvdI [of _ _ "h * 60"]) simp
      ultimately show ?thesis unfolding t by (simp add: dvd_eq_mod_eq_0 [symmetric])
    qed
    with s(2) have occ: "occurs vs off t" by (simp add: occurs_def)
    have "\<not> occurs vs off u" if u: "from < u" "u < t" for u
    proof
      assume o: "occurs vs off u"
      from index [OF u(1)] obtain j where j: "u + off - (u + off) mod ?D = first + int j * ?D" by blast
      from occurrence_is_found [OF off o u(1)] obtain t' where t': "t' \<le> u" "day_result ?loc vs from (first + int j * ?D) = Some t'"
        unfolding j by blast
      have "\<not> j < k" using before [of j] t'(2) by auto
      moreover have "j \<noteq> k" using t' k u(2) by auto
      ultimately have "int k + 1 \<le> int j" by linarith
      then have "first + int k * ?D + ?D \<le> first + int j * ?D" by linarith
      also have "\<dots> \<le> u + off" unfolding j [symmetric] by simp
      finally show False using t hmb u(2) by linarith
    qed
    with s(1) occ show ?thesis by (simp add: run Some)
  qed
qed

section \<open>Witnesses\<close>

text \<open>A schedule at two in the morning UTC, from the first instant of 1970.\<close>

definition utc_zones :: "string \<Rightarrow> local_clock option" where
  "utc_zones name = (if name = ''UTC'' then Some (\<lambda>t. utc_wall (t + 0)) else None)"

definition at_two :: "int list list" where
  "at_two = [[0], [2], [1 .. 31], [1 .. 12], [0 .. 6]]"

lemma at_two_allowed: "cron_allowed ''0 2 * * *'' = Inr at_two"
  by code_simp

lemma at_two_run: "next_cron utc_zones ''0 2 * * *'' ''UTC'' 0 = Inr 7200000"
proof -
  have first: "day_result (\<lambda>t. utc_wall (t + 0)) at_two 0 0 = Some 7200000" by code_simp
  have "search_days search_limit (\<lambda>t. utc_wall (t + 0)) at_two 0 0 = Some 7200000"
    using first by (simp add: search_limit_def day_result_def numeral_eq_Suc split: if_splits)
  moreover have "date_utc (wl_year (utc_wall (0 + 0))) (wl_month (utc_wall (0 + 0))) (wl_day (utc_wall (0 + 0))) 0 0 = 0"
    by code_simp
  ultimately show ?thesis by (simp add: next_cron_def at_two_allowed utc_zones_def Let_def)
qed

theorem next_cron_matches_witness:
  "\<exists>loc. utc_zones ''UTC'' = Some loc \<and> 0 < (7200000 :: int) \<and> cron_matches at_two (loc 7200000)"
  using next_cron_matches [OF at_two_run] at_two_allowed by auto

theorem next_cron_is_the_next_occurrence_witness:
  "occurs at_two 0 7200000 \<and> \<not> (\<exists>u. 0 < u \<and> u < 7200000 \<and> occurs at_two 0 u)"
  using next_cron_is_the_next_occurrence [of utc_zones "''UTC''" 0 "''0 2 * * *''" at_two 0] at_two_run at_two_allowed
  by (simp add: utc_zones_def)

chapter \<open>The scheduler and the clock\<close>

text \<open>
  The scheduler and \<open>nextCron\<close> together: what the scheduler relies on of the clock is one law, and
  \<open>nextCron\<close> obeys it in every time zone.
\<close>

locale schedule_clock =
  fixes cron :: "string \<Rightarrow> string \<Rightarrow> time \<Rightarrow> time result"
  assumes later: "cron e z t = Inr t' \<Longrightarrow> t < t'"
begin

lemma due_handled:
  assumes "j \<in> set (jobs d)" and "j_enabled j" and "j_next_run j = Some due" and "due \<le> now"
  shows "advanced (run_jobs cron now startup (due_jobs now d) d) now (j_id j)
    \<or> reported (run_jobs cron now startup (due_jobs now d) d) (j_id j)"
proof (rule run_jobs_each)
  show "\<forall>e z t t'. cron e z t = Inr t' \<longrightarrow> t < t'" using later by blast
  show "\<forall>(j, due) \<in> set (due_jobs now d). due \<le> now" by (auto simp: due_jobs_due)
  show "(j, due) \<in> set (due_jobs now d)" using assms by (simp add: due_jobs_due)
qed

end

lemma next_cron_later: "next_cron zones e z t = Inr t' \<Longrightarrow> t < t'"
  by (auto simp: next_cron_def Let_def day_result_def split: sum.splits option.splits if_splits
      dest!: search_days_Some dest: day_earliest_sound)

interpretation next_cron: schedule_clock "next_cron zones" for zones
  by unfold_locales (rule next_cron_later)

text \<open>The scheduler as it is composed, with nextCron as its clock: after the due schedules have been
  processed, every schedule that was enabled and due has its next run after the present, or its failure
  was recorded as an event that names it, whatever its expression and time zone.\<close>

theorem due_schedules_advance_with_next_cron:
  assumes "j \<in> set (jobs d)" and "j_enabled j" and "j_next_run j = Some due" and "due \<le> now"
  shows "advanced (run_jobs (next_cron zones) now startup (due_jobs now d) d) now (j_id j)
    \<or> reported (run_jobs (next_cron zones) now startup (due_jobs now d) d) (j_id j)"
  using assms by (rule next_cron.due_handled)

theorem due_schedules_advance_with_next_cron_witness:
  "advanced (run_jobs (next_cron utc_zones) 5000 True (due_jobs 5000 sample_db) sample_db) 5000 ''job''
    \<or> reported (run_jobs (next_cron utc_zones) 5000 True (due_jobs 5000 sample_db) sample_db) ''job''"
  using due_schedules_advance_with_next_cron [of sample_job sample_db 1000 5000 utc_zones True]
  by (simp add: sample_db_def sample_job_def)

end
