(* ===== verification/Regex.thy ===== *)
theory Regex
  imports Js_Text
begin

text \<open>
  JavaScript regular expressions, with the backtracking semantics of ECMAScript: \<open>rx_run\<close>
  lists the ways an expression matches at a position, in the order the backtracking tries them,
  so the first one is the match. \<open>rx_search\<close> finds the leftmost match and \<open>rx_all\<close> is
  \<open>matchAll\<close> with the flag \<open>g\<close>.
\<close>

section \<open>Expressions\<close>

datatype rx =
    Empty
  | Cls "char \<Rightarrow> bool"
  | Seq rx rx
  | Alt rx rx
  | Star bool rx
  | Cap nat rx
  | Ahead rx
  | NotBehind "char \<Rightarrow> bool"
  | Boundary
  | AtEnd

text \<open>A position: the text before it (reversed), the text after it, and the captures so far.\<close>

type_synonym rx_pos = "string \<times> string \<times> (nat \<times> string) list"

definition rest_of :: "rx_pos \<Rightarrow> string" where
  "rest_of p = fst (snd p)"

definition word_char :: "char \<Rightarrow> bool" where
  "word_char c = (is_alnum c \<or> c = CHR ''_'')"

definition starts_word :: "string \<Rightarrow> bool" where
  "starts_word s = (case s of [] \<Rightarrow> False | c # _ \<Rightarrow> word_char c)"

text \<open>A repetition stops when an iteration consumes nothing.\<close>

fun star_run :: "bool \<Rightarrow> (rx_pos \<Rightarrow> rx_pos list) \<Rightarrow> nat \<Rightarrow> rx_pos \<Rightarrow> rx_pos list" where
  "star_run greedy m 0 p = [p]"
| "star_run greedy m (Suc n) p =
     (let more = concat (map (star_run greedy m n)
                   (filter (\<lambda>q. length (rest_of q) < length (rest_of p)) (m p)))
      in if greedy then more @ [p] else p # more)"

primrec rx_run :: "rx \<Rightarrow> rx_pos \<Rightarrow> rx_pos list" where
  "rx_run Empty = (\<lambda>p. [p])"
| "rx_run (Cls P) = (\<lambda>(before, s, caps). case s of [] \<Rightarrow> [] | c # cs \<Rightarrow> if P c then [(c # before, cs, caps)] else [])"
| "rx_run (Seq a b) = (\<lambda>p. concat (map (rx_run b) (rx_run a p)))"
| "rx_run (Alt a b) = (\<lambda>p. rx_run a p @ rx_run b p)"
| "rx_run (Star greedy a) = (\<lambda>p. star_run greedy (rx_run a) (length (rest_of p)) p)"
| "rx_run (Cap i a) = (\<lambda>(before, s, caps). map (\<lambda>(before', s', caps').
     (before', s', (i, take (length s - length s') s) # caps')) (rx_run a (before, s, caps)))"
| "rx_run (Ahead a) = (\<lambda>p. if rx_run a p = [] then [] else [p])"
| "rx_run (NotBehind P) = (\<lambda>(before, s, caps). case before of
     [] \<Rightarrow> [(before, s, caps)] | c # _ \<Rightarrow> if P c then [] else [(before, s, caps)])"
| "rx_run Boundary = (\<lambda>(before, s, caps). if starts_word before \<noteq> starts_word s then [(before, s, caps)] else [])"
| "rx_run AtEnd = (\<lambda>(before, s, caps). if s = [] then [(before, s, caps)] else [])"

section \<open>Abbreviations of the syntax\<close>

definition rx_seq :: "rx list \<Rightarrow> rx" where
  "rx_seq rs = foldr Seq rs Empty"

fun rx_alt :: "rx list \<Rightarrow> rx" where
  "rx_alt [] = Cls (\<lambda>c. False)"
| "rx_alt [r] = r"
| "rx_alt (r # rs) = Alt r (rx_alt rs)"

definition rx_plus :: "rx \<Rightarrow> rx" where
  "rx_plus r = Seq r (Star True r)"

definition rx_opt :: "rx \<Rightarrow> rx" where
  "rx_opt r = Alt r Empty"

fun rx_upto :: "nat \<Rightarrow> rx \<Rightarrow> rx" where
  "rx_upto 0 r = Empty"
| "rx_upto (Suc n) r = Alt (Seq r (rx_upto n r)) Empty"

text \<open>A literal text, exactly or without regard to case (flag \<open>i\<close>).\<close>

definition rx_text :: "string \<Rightarrow> rx" where
  "rx_text s = rx_seq (map (\<lambda>c. Cls (\<lambda>x. x = c)) s)"

definition rx_word :: "string \<Rightarrow> rx" where
  "rx_word s = rx_seq (map (\<lambda>c. Cls (\<lambda>x. lower_char x = lower_char c)) s)"

definition rx_blank :: rx where
  "rx_blank = Cls is_space"

definition rx_any :: rx where
  "rx_any = Cls (\<lambda>c. True)"

section \<open>Searching\<close>

definition rx_at :: "rx \<Rightarrow> string \<Rightarrow> string \<Rightarrow> rx_pos option" where
  "rx_at r before s = (case rx_run r (before, s, []) of [] \<Rightarrow> None | p # _ \<Rightarrow> Some p)"

text \<open>A match: where it starts and ends, and its captures.\<close>

record rx_match =
  rm_start :: nat
  rm_end :: nat
  rm_caps :: "(nat \<times> string) list"

fun rx_search :: "rx \<Rightarrow> string \<Rightarrow> string \<Rightarrow> rx_match option" where
  "rx_search r before s =
     (case rx_at r before s of
        Some (before', s', caps) \<Rightarrow> Some \<lparr>rm_start = length before, rm_end = length before + (length s - length s'), rm_caps = caps\<rparr>
      | None \<Rightarrow> (case s of [] \<Rightarrow> None | c # cs \<Rightarrow> rx_search r (c # before) cs))"

declare rx_search.simps [simp del]

definition rx_test :: "rx \<Rightarrow> string \<Rightarrow> bool" where
  "rx_test r s = (rx_search r [] s \<noteq> None)"

text \<open>\<open>matchAll\<close>: the search goes on behind each match, one further behind an empty one.\<close>

fun rx_all_from :: "nat \<Rightarrow> rx \<Rightarrow> string \<Rightarrow> nat \<Rightarrow> rx_match list" where
  "rx_all_from 0 r s i = []"
| "rx_all_from (Suc n) r s i =
     (case rx_search r (rev (take i s)) (drop i s) of
        None \<Rightarrow> []
      | Some m \<Rightarrow> m # (let k = (if rm_end m = rm_start m then Suc (rm_end m) else rm_end m)
                       in if k > length s then [] else rx_all_from n r s k))"

definition rx_all :: "rx \<Rightarrow> string \<Rightarrow> rx_match list" where
  "rx_all r s = rx_all_from (Suc (length s)) r s 0"

definition cap_of :: "nat \<Rightarrow> rx_match \<Rightarrow> string option" where
  "cap_of i m = map_of (rm_caps m) i"

definition text_cap :: "nat \<Rightarrow> rx_match \<Rightarrow> string" where
  "text_cap i m = (case cap_of i m of None \<Rightarrow> [] | Some s \<Rightarrow> s)"

definition slice :: "nat \<Rightarrow> nat \<Rightarrow> 'a list \<Rightarrow> 'a list" where
  "slice i k s = take (k - i) (drop i s)"

text \<open>\<open>s.split(r)\<close> for an expression that is one capture around a non-empty text: the pieces
  between the matches and the matches, alternating.\<close>

fun pieces_from :: "string \<Rightarrow> nat \<Rightarrow> rx_match list \<Rightarrow> string list" where
  "pieces_from s i [] = [drop i s]"
| "pieces_from s i (m # ms) = slice i (rm_start m) s # slice (rm_start m) (rm_end m) s # pieces_from s (rm_end m) ms"

definition rx_split :: "rx \<Rightarrow> string \<Rightarrow> string list" where
  "rx_split r s = pieces_from s 0 (rx_all r s)"

section \<open>Matches lie in the text\<close>

text \<open>\<open>consumes p u q\<close>: from \<open>p\<close> the text \<open>u\<close> is consumed, and what \<open>q\<close> has captured in
  addition is part of it.\<close>

definition part_of :: "string \<Rightarrow> string \<Rightarrow> bool" where
  "part_of t u = (\<exists>a b. u = a @ t @ b)"

definition consumes :: "rx_pos \<Rightarrow> string \<Rightarrow> rx_pos \<Rightarrow> bool" where
  "consumes p u q = (rest_of p = u @ rest_of q
     \<and> (\<forall>x \<in> set (snd (snd q)). x \<in> set (snd (snd p)) \<or> part_of (snd x) u))"

lemma part_of_append: "part_of t u \<Longrightarrow> part_of t (u @ v)" "part_of t v \<Longrightarrow> part_of t (u @ v)"
  by (auto simp: part_of_def) (metis append.assoc)+

lemma consumes_nothing [simp]: "consumes p [] p"
  by (simp add: consumes_def)

lemma consumes_trans: "consumes p u q \<Longrightarrow> consumes q v r \<Longrightarrow> consumes p (u @ v) r"
  unfolding consumes_def using part_of_append [of _ u v] part_of_append(2) [of _ v u] by (metis append.assoc)

lemma star_run_consumes:
  assumes "\<And>p q. q \<in> set (m p) \<Longrightarrow> \<exists>u. consumes p u q"
  shows "q \<in> set (star_run g m n p) \<Longrightarrow> \<exists>u. consumes p u q"
proof (induction n arbitrary: p)
  case (Suc n)
  then consider "q = p" | p' where "p' \<in> set (m p)" "q \<in> set (star_run g m n p')"
    by (auto simp: Let_def split: if_splits)
  then show ?case
  proof cases
    case 2
    with Suc.IH [of p'] assms [of p' p] show ?thesis by (meson consumes_trans)
  qed (auto intro: exI [of _ "[]"])
qed (auto intro: exI [of _ "[]"])

lemma rx_run_consumes: "q \<in> set (rx_run r p) \<Longrightarrow> \<exists>u. consumes p u q"
proof (induction r arbitrary: p q)
  case (Cls P)
  then obtain before c cs caps where "p = (before, c # cs, caps)" "q = (c # before, cs, caps)"
    by (cases p) (auto split: list.splits if_splits)
  then have "consumes p [c] q" by (simp add: consumes_def rest_of_def)
  then show ?case ..
next
  case (Seq a b)
  from Seq.prems obtain p' where "p' \<in> set (rx_run a p)" "q \<in> set (rx_run b p')" by auto
  with Seq.IH show ?case by (meson consumes_trans)
next
  case (Star g a)
  have "\<And>p q. q \<in> set (rx_run a p) \<Longrightarrow> \<exists>u. consumes p u q" by (rule Star.IH)
  from star_run_consumes [OF this] Star.prems show ?case by simp
next
  case (Cap i a)
  obtain before s caps where p: "p = (before, s, caps)" by (cases p)
  from Cap.prems obtain before' s' caps' where q: "(before', s', caps') \<in> set (rx_run a p)"
    "q = (before', s', (i, take (length s - length s') s) # caps')" by (auto simp: p)
  from Cap.IH [OF q(1)] obtain u where u: "consumes p u (before', s', caps')" ..
  then have "take (length s - length s') s = u" by (simp add: consumes_def rest_of_def p)
  moreover have "part_of u u" by (auto simp: part_of_def intro: exI [of _ "[]"])
  ultimately have "consumes p u q" using u by (simp add: consumes_def rest_of_def q(2))
  then show ?case ..
next
  case (NotBehind P)
  obtain before s caps where p: "p = (before, s, caps)" by (cases p)
  from NotBehind have "q = p" by (cases before) (auto simp: p split: if_splits)
  then show ?case using consumes_nothing by blast
qed (auto split: if_splits prod.splits intro: exI [of _ "[]"])

lemma rx_run_rest: "q \<in> set (rx_run r p) \<Longrightarrow> \<exists>t. rest_of p = t @ rest_of q"
  using rx_run_consumes by (fastforce simp: consumes_def)

lemma rx_at_rest: "rx_at r before s = Some (before', s', caps) \<Longrightarrow> length s' \<le> length s"
  using rx_run_rest [of "(before', s', caps)" r "(before, s, [])"]
  by (auto simp: rx_at_def rest_of_def split: list.splits)

lemma rx_search_bounds:
  "rx_search r before s = Some m \<Longrightarrow>
     length before \<le> rm_start m \<and> rm_start m \<le> rm_end m \<and> rm_end m \<le> length before + length s"
proof (induction s arbitrary: before)
  case Nil
  then show ?case by (subst (asm) rx_search.simps) (auto split: option.splits dest: rx_at_rest)
next
  case (Cons c cs)
  show ?case
  proof (cases "rx_at r before (c # cs)")
    case None
    with Cons.prems have "rx_search r (c # before) cs = Some m" by (subst (asm) rx_search.simps) simp
    from Cons.IH [OF this] show ?thesis by simp
  next
    case (Some p)
    then obtain b s' caps where p: "p = (b, s', caps)" by (cases p)
    with Some Cons.prems have "m = \<lparr>rm_start = length before, rm_end = length before + (length (c # cs) - length s'), rm_caps = caps\<rparr>"
      by (subst (asm) rx_search.simps) simp
    then show ?thesis by auto
  qed
qed

text \<open>A capture is part of the match.\<close>

lemma rx_search_caps:
  "rx_search r before s = Some m \<Longrightarrow> x \<in> set (rm_caps m) \<Longrightarrow>
     part_of (snd x) (slice (rm_start m) (rm_end m) (rev before @ s))"
proof (induction s arbitrary: before)
  case Nil
  then obtain b s' caps where at: "rx_at r before [] = Some (b, s', caps)"
    by (subst (asm) rx_search.simps) (auto split: option.splits)
  with Nil have m: "m = \<lparr>rm_start = length before, rm_end = length before + (length [] - length s'), rm_caps = caps\<rparr>"
    by (subst (asm) rx_search.simps) simp
  from at obtain u where "consumes (before, [], []) u (b, s', caps)"
    using rx_run_consumes [of "(b, s', caps)" r "(before, [], [])"] by (auto simp: rx_at_def split: list.splits)
  with m Nil.prems(2) show ?case by (auto simp: consumes_def rest_of_def slice_def part_of_def)
next
  case (Cons c cs)
  show ?case
  proof (cases "rx_at r before (c # cs)")
    case None
    with Cons.prems(1) have "rx_search r (c # before) cs = Some m" by (subst (asm) rx_search.simps) simp
    from Cons.IH [OF this Cons.prems(2)] show ?thesis by simp
  next
    case (Some p)
    then obtain b s' caps where at: "rx_at r before (c # cs) = Some (b, s', caps)" by (cases p) simp
    with Cons.prems(1) have m: "m = \<lparr>rm_start = length before, rm_end = length before + (length (c # cs) - length s'), rm_caps = caps\<rparr>"
      by (subst (asm) rx_search.simps) simp
    from at obtain u where u: "consumes (before, c # cs, []) u (b, s', caps)"
      using rx_run_consumes [of "(b, s', caps)" r "(before, c # cs, [])"] by (auto simp: rx_at_def split: list.splits)
    then have cs: "c # cs = u @ s'" by (simp add: consumes_def rest_of_def)
    have "slice (rm_start m) (rm_end m) (rev before @ c # cs) = u" by (simp add: m slice_def cs)
    with u Cons.prems(2) show ?thesis by (simp add: consumes_def m)
  qed
qed

lemma rx_all_from_caps:
  "m \<in> set (rx_all_from n r s i) \<Longrightarrow> x \<in> set (rm_caps m) \<Longrightarrow> part_of (snd x) (slice (rm_start m) (rm_end m) s)"
proof (induction n arbitrary: i)
  case (Suc n)
  then show ?case
    using rx_search_caps [of r "rev (take i s)" "drop i s" m x] by (auto simp: Let_def split: option.splits if_splits)
qed simp

lemma rx_all_caps: "m \<in> set (rx_all r s) \<Longrightarrow> cap_of i m = Some t \<Longrightarrow> part_of t (slice (rm_start m) (rm_end m) s)"
proof -
  assume m: "m \<in> set (rx_all r s)" and "cap_of i m = Some t"
  then have "(i, t) \<in> set (rm_caps m)" by (simp add: cap_of_def map_of_SomeD)
  from rx_all_from_caps [OF m [unfolded rx_all_def] this] show ?thesis by simp
qed

text \<open>The matches are in order and do not overlap.\<close>

fun in_order :: "nat \<Rightarrow> rx_match list \<Rightarrow> nat \<Rightarrow> bool" where
  "in_order i [] n = (i \<le> n)"
| "in_order i (m # ms) n = (i \<le> rm_start m \<and> rm_start m \<le> rm_end m \<and> rm_end m \<le> n \<and> in_order (rm_end m) ms n)"

lemma in_order_weaken: "in_order k ms n \<Longrightarrow> i \<le> k \<Longrightarrow> in_order i ms n"
  by (cases ms) auto

lemma rx_all_from_order: "i \<le> length s \<Longrightarrow> in_order i (rx_all_from n r s i) (length s)"
proof (induction n arbitrary: i)
  case (Suc n)
  show ?case
  proof (cases "rx_search r (rev (take i s)) (drop i s)")
    case None
    with Suc.prems show ?thesis by simp
  next
    case (Some m)
    from rx_search_bounds [OF this] Suc.prems have b: "i \<le> rm_start m" "rm_start m \<le> rm_end m" "rm_end m \<le> length s" by auto
    define k where "k = (if rm_end m = rm_start m then Suc (rm_end m) else rm_end m)"
    have "in_order (rm_end m) (if k > length s then [] else rx_all_from n r s k) (length s)"
      using Suc.IH [of k] in_order_weaken [of k _ "length s" "rm_end m"] b(3) by (auto simp: k_def)
    with b Some show ?thesis by (simp add: k_def [symmetric] Let_def)
  qed
qed simp

lemma rx_all_order: "in_order 0 (rx_all r s) (length s)"
  unfolding rx_all_def by (rule rx_all_from_order) simp

lemma in_order_bounds: "in_order i ms n \<Longrightarrow> m \<in> set ms \<Longrightarrow> i \<le> rm_start m \<and> rm_start m \<le> rm_end m \<and> rm_end m \<le> n"
  by (induction ms arbitrary: i) fastforce+

lemma rx_all_bounds: "m \<in> set (rx_all r s) \<Longrightarrow> rm_start m \<le> rm_end m \<and> rm_end m \<le> length s"
  using in_order_bounds [OF rx_all_order] by blast

text \<open>The pieces of a split are the text.\<close>

lemma pieces_concat: "in_order i ms (length s) \<Longrightarrow> concat (pieces_from s i ms) = drop i s"
proof (induction ms arbitrary: i)
  case (Cons m ms)
  have join: "slice a b s @ drop b s = drop a s" if "a \<le> b" for a b
    using that by (metis append_take_drop_id drop_drop le_add_diff_inverse2 slice_def)
  from Cons show ?case by (simp add: join)
qed simp

theorem rx_split_concat: "concat (rx_split r s) = s"
  using pieces_concat [OF rx_all_order] by (simp add: rx_split_def)

end
