(* ===== verification/Pitr_Text.thy ===== *)
theory Pitr_Text
  imports Calendar Regex
begin

text \<open>
  Point-in-time recovery, the text side (\<open>src/backup/pitr.utils.ts\<close>, first half): binary log
  coordinates of a dump, options of the vendor tools, target times, sequences of binary log
  names and their gaps, and the names of scratch databases.
\<close>

section \<open>Coordinates of a dump\<close>

definition blanks :: rx where
  "blanks = Star True rx_blank"

definition blanks1 :: rx where
  "blanks1 = rx_plus rx_blank"

definition assigned :: "string \<Rightarrow> rx \<Rightarrow> rx" where
  "assigned name value = rx_seq [rx_word name, blanks, rx_text ''='', blanks, value]"

definition quoted_file :: rx where
  "quoted_file = rx_seq [rx_text [CHR 0x27], Cap 1 (rx_plus (Cls (\<lambda>c. c \<noteq> CHR 0x27))), rx_text [CHR 0x27]]"

definition log_position :: rx where
  "log_position = Cap 2 (rx_plus (Cls is_digit))"

definition coordinate_patterns :: "rx list" where
  "coordinate_patterns =
     [rx_seq [rx_word ''CHANGE'', blanks1, rx_word ''REPLICATION'', blanks1, rx_word ''SOURCE'', blanks1, rx_word ''TO'', blanks1,
        assigned ''SOURCE_LOG_FILE'' quoted_file, blanks, rx_text '','', blanks, assigned ''SOURCE_LOG_POS'' log_position],
      rx_seq [rx_word ''CHANGE'', blanks1, rx_word ''MASTER'', blanks1, rx_word ''TO'', blanks1,
        assigned ''MASTER_LOG_FILE'' quoted_file, blanks, rx_text '','', blanks, assigned ''MASTER_LOG_POS'' log_position]]"

definition max_safe :: int where
  "max_safe = 9007199254740991"

definition file_name_char :: "char \<Rightarrow> bool" where
  "file_name_char c = (is_alnum c \<or> c = CHR ''.'' \<or> c = CHR ''_'' \<or> c = CHR ''-'')"

definition coordinate_of :: "rx_match \<Rightarrow> (string \<times> int) option" where
  "coordinate_of m =
     (let file = text_cap 1 m; position = int (read_nat (text_cap 2 m))
      in if file = [] \<or> \<not> list_all file_name_char file \<or> position > max_safe \<or> position < 4 then None
         else Some (file, position))"

text \<open>The first pattern that matches decides.\<close>

definition parse_dump_binlog_coordinates :: "string \<Rightarrow> (string \<times> int) option" where
  "parse_dump_binlog_coordinates contents =
     (case List.map_filter (\<lambda>p. rx_search p [] contents) coordinate_patterns of
        [] \<Rightarrow> None | m # _ \<Rightarrow> coordinate_of m)"

section \<open>Target times\<close>

definition pad_start :: "nat \<Rightarrow> string \<Rightarrow> string" where
  "pad_start n s = replicate (n - length s) (CHR ''0'') @ s"

definition pad_end :: "nat \<Rightarrow> string \<Rightarrow> string" where
  "pad_end n s = s @ replicate (n - length s) (CHR ''0'')"

definition show_pad :: "nat \<Rightarrow> int \<Rightarrow> string" where
  "show_pad n i = pad_start n (show_nat (nat i))"

text \<open>\<open>toISOString\<close>.\<close>

definition iso_year :: "int \<Rightarrow> string" where
  "iso_year y = (if 0 \<le> y \<and> y \<le> 9999 then show_pad 4 y
     else if y < 0 then ''-'' @ show_pad 6 (- y) else ''+'' @ show_pad 6 y)"

definition iso_string :: "time \<Rightarrow> string" where
  "iso_string t =
     (let w = utc_wall t
      in iso_year (wl_year w) @ ''-'' @ show_pad 2 (wl_month w) @ ''-'' @ show_pad 2 (wl_day w) @ ''T''
           @ show_pad 2 (wl_hour w) @ '':'' @ show_pad 2 (wl_minute w) @ '':''
           @ show_pad 2 (t mod 60000 div 1000) @ ''.'' @ show_pad 3 (t mod 1000) @ ''Z'')"

text \<open>\<open>/^\d{4}-\d{2}-\d{2}T\d{2}:\d{2}:\d{2}(?:\.\d{1,3})?Z$/\<close>: a template in which \<open>d\<close> is a digit.\<close>

definition fits :: "string \<Rightarrow> string \<Rightarrow> bool" where
  "fits template s = list_all2 (\<lambda>t c. if t = CHR ''d'' then is_digit c else c = t) template s"

definition target_fraction :: "string \<Rightarrow> string" where
  "target_fraction s = (if length s = 20 then [] else butlast (drop 20 s))"

definition target_format :: "string \<Rightarrow> bool" where
  "target_format s =
     (fits ''dddd-dd-ddTdd:dd:dd'' (take 19 s)
      \<and> (drop 19 s = ''Z'' \<or> fits ''.dZ'' (drop 19 s) \<or> fits ''.ddZ'' (drop 19 s) \<or> fits ''.dddZ'' (drop 19 s)))"

definition canonical_target :: "string \<Rightarrow> string" where
  "canonical_target s = take 19 s @ ''.'' @ pad_end 3 (target_fraction s) @ ''Z''"

text \<open>\<open>Date.parse\<close> of a text of this format; \<open>None\<close> is NaN.\<close>

definition number_at :: "nat \<Rightarrow> nat \<Rightarrow> string \<Rightarrow> int" where
  "number_at i n s = int (read_nat (take n (drop i s)))"

definition date_parse :: "string \<Rightarrow> time option" where
  "date_parse s =
     (let y = number_at 0 4 s; m = number_at 5 2 s; dd = number_at 8 2 s;
          h = number_at 11 2 s; mi = number_at 14 2 s; sec = number_at 17 2 s;
          ms = int (read_nat (pad_end 3 (target_fraction s)))
      in if m < 1 \<or> m > 12 \<or> dd < 1 \<or> dd > 31 \<or> h > 24 \<or> mi > 59 \<or> sec > 59 then None
         else if h = 24 \<and> (mi \<noteq> 0 \<or> sec \<noteq> 0 \<or> ms \<noteq> 0) then None
         else Some (date_utc y m dd h mi + sec * 1000 + ms))"

definition parse_utc_target_time :: "string \<Rightarrow> (string \<times> time) result" where
  "parse_utc_target_time s =
     (if \<not> target_format s then Inl (BadRequest ''Target time must be an ISO-8601 UTC timestamp ending in Z'')
      else case date_parse s of
             None \<Rightarrow> Inl (BadRequest ''Target time is not a valid UTC timestamp'')
           | Some t \<Rightarrow> if iso_string t \<noteq> canonical_target s
                       then Inl (BadRequest ''Target time is not a valid UTC timestamp'')
                       else Inr (iso_string t, t))"

section \<open>Options of the vendor tools\<close>

definition known_engine :: "string \<Rightarrow> bool" where
  "known_engine e = (e = ''mysql'' \<or> e = ''mariadb'')"

definition pitr_dump_coordinate_option :: "string \<Rightarrow> string result" where
  "pitr_dump_coordinate_option engine =
     (if engine = ''mysql'' then Inr ''--source-data=2''
      else if engine = ''mariadb'' then Inr ''--master-data=2''
      else Inl (BadRequest ''PITR coordinates are supported only for MySQL and MariaDB''))"

definition show_signed :: "int \<Rightarrow> string" where
  "show_signed i = (if i < 0 then ''-'' @ show_nat (nat (- i)) else show_nat (nat i))"

text \<open>\<open>zone\<close> is \<open>getTimezoneOffset\<close> of the server's zone at an instant.\<close>

definition pitr_binlog_replay_options ::
  "(time \<Rightarrow> int) \<Rightarrow> string \<Rightarrow> int \<Rightarrow> string \<Rightarrow> (string \<times> string) list \<Rightarrow> int option \<Rightarrow> string list result" where
  "pitr_binlog_replay_options zone engine position stop mapping offset =
     (if \<not> known_engine engine then Inl (BadRequest ''PITR replay is supported only for MySQL and MariaDB'')
      else if position > max_safe \<or> position < 4 then Inl (BadRequest ''PITR start position is invalid'')
      else case parse_utc_target_time stop of
             Inl e \<Rightarrow> Inl e
           | Inr (_, epoch) \<Rightarrow>
               (let off = (case offset of Some k \<Rightarrow> k | None \<Rightarrow> zone epoch);
                    l = epoch - off * 60000; w = utc_wall l;
                    shown = show_signed (wl_year w) @ ''-'' @ show_pad 2 (wl_month w) @ ''-'' @ show_pad 2 (wl_day w) @ '' ''
                      @ show_pad 2 (wl_hour w) @ '':'' @ show_pad 2 (wl_minute w) @ '':'' @ show_pad 2 (l mod 60000 div 1000)
                in Inr ([''--verify-binlog-checksum'', ''--start-position='' @ show_nat (nat position), ''--stop-datetime='' @ shown]
                        @ map (\<lambda>(a, b). ''--rewrite-db='' @ a @ ''->'' @ b) mapping)))"

definition pitr_binlog_transport_options :: "string \<Rightarrow> bool \<Rightarrow> bool \<Rightarrow> string list" where
  "pitr_binlog_transport_options engine native ssl =
     (if engine = ''mysql'' \<and> native then [if ssl then ''--ssl-mode=REQUIRED'' else ''--ssl-mode=DISABLED'']
      else [if ssl then ''--ssl'' else ''--skip-ssl''])"

section \<open>Sequences of binary logs\<close>

text \<open>\<open>/^(.*\.)(\d{6,})$/\<close>: the digits are the longest run at the end, after a dot.\<close>

definition binlog_sequence :: "string \<Rightarrow> (string \<times> int) option" where
  "binlog_sequence s =
     (let ds = rev (takeWhile is_digit (rev s)); p = rev (dropWhile is_digit (rev s)); n = int (read_nat ds)
      in if length ds \<ge> 6 \<and> p \<noteq> [] \<and> last p = CHR ''.'' \<and> CHR 0x0A \<notin> set p \<and> CHR 0x0D \<notin> set p \<and> n \<le> max_safe
         then Some (p, n) else None)"

text \<open>A list has decreased somewhere (or repeats).\<close>

fun not_increasing :: "int list \<Rightarrow> bool" where
  "not_increasing (a # b # xs) = (b \<le> a \<or> not_increasing (b # xs))"
| "not_increasing _ = False"

fun missing_between :: "int list \<Rightarrow> int list" where
  "missing_between (a # b # xs) = [a + 1 .. b - 1] @ missing_between (b # xs)"
| "missing_between _ = []"

definition find_binlog_sequence_gaps :: "string list \<Rightarrow> string list" where
  "find_binlog_sequence_gaps names =
     (let u = uniq names; ps = map binlog_sequence u
      in if None \<in> set ps then map (\<lambda>n. ''unverifiable:'' @ n) (filter (\<lambda>n. binlog_sequence n = None) u)
         else let entries = map the ps; prefixes = uniq (map fst entries); ns = map snd entries
              in if length prefixes > 1 then [''binary log prefix changed'']
                 else if not_increasing ns then [''binary log order changed'']
                 else map (\<lambda>n. hd prefixes @ show_pad 6 n) (missing_between ns))"

section \<open>Scratch databases\<close>

definition digit36 :: "nat \<Rightarrow> char" where
  "digit36 n = (if n < 10 then char_of (48 + n) else char_of (87 + n))"

fun show_base36 :: "nat \<Rightarrow> string" where
  "show_base36 n = (if n < 36 then [digit36 n] else show_base36 (n div 36) @ [digit36 (n mod 36)])"

declare show_base36.simps [simp del]

definition random_hex_ok :: "string \<Rightarrow> bool" where
  "random_hex_ok s = (length s \<ge> 32 \<and> list_all (\<lambda>c. is_digit c \<or> CHR ''a'' \<le> c \<and> c \<le> CHR ''f'') s)"

definition scratch_char :: "char \<Rightarrow> char" where
  "scratch_char c = (if word_char c then c else CHR ''_'')"

definition scratch_suffix :: "string \<Rightarrow> nat \<Rightarrow> string" where
  "scratch_suffix hex i = take 20 hex @ ''_'' @ show_base36 i"

definition scratch_name :: "string \<Rightarrow> string \<Rightarrow> nat \<Rightarrow> string" where
  "scratch_name prefix hex i =
     (let suffix = scratch_suffix hex i;
          p = take (max 1 (63 - length suffix - 1)) (map scratch_char prefix)
      in (if p = [] then ''vb'' else p) @ ''_'' @ suffix)"

definition make_scratch_database_names :: "string list \<Rightarrow> string \<Rightarrow> string \<Rightarrow> (string \<times> string) list result" where
  "make_scratch_database_names databases prefix hex =
     (if databases = [] \<or> \<not> distinct databases
      then Inl (BadRequest ''A non-empty, unique database list is required for PITR rehearsal'')
      else if \<not> random_hex_ok hex then Inl (BadRequest ''Scratch database randomness is invalid'')
      else if list_ex (\<lambda>d. d = [] \<or> length d > 64) databases then Inl (BadRequest ''PITR baseline database names are invalid'')
      else Inr (map2 (\<lambda>i d. (d, scratch_name prefix hex i)) [0..<length databases] databases))"

end
