(* ===== verification/Pitr_Props.thy ===== *)
theory Pitr_Props
  imports Pitr_Text
begin

text \<open>
  What the text side of point-in-time recovery guarantees: target times are exact instants,
  gaps of a binary log sequence are found exactly, and scratch databases get distinct names.
\<close>

section \<open>Padded numbers\<close>

lemma is_digit_digit_char [simp]: "d < 10 \<Longrightarrow> is_digit (digit_char d)"
  by (simp add: is_digit_def digit_char_def less_eq_char_def)

lemma zeros_digits [simp]: "list_all is_digit (replicate k (CHR ''0''))"
  by (induction k) (simp_all add: is_digit_def less_eq_char_def)

lemma show_nat_digits [simp]: "list_all is_digit (show_nat n)"
proof (induction n rule: show_nat.induct)
  case (1 n)
  then show ?case by (subst show_nat.simps) simp
qed

lemma length_show_nat: "n < 10 ^ k \<Longrightarrow> 0 < k \<Longrightarrow> length (show_nat n) \<le> k"
proof (induction n arbitrary: k rule: show_nat.induct)
  case (1 n)
  show ?case
  proof (cases "n < 10")
    case True
    with 1 show ?thesis by (subst show_nat.simps) simp
  next
    case False
    with "1.prems" obtain k' where k: "k = Suc k'" "0 < k'"
      by (metis One_nat_def Suc_pred bot_nat_0.not_eq_extremum power_0 power_Suc0_right power_one_right)
    with "1.prems" have "n div 10 < 10 ^ k'" by (simp add: less_mult_imp_div_less mult.commute)
    from "1.IH" [OF False this k(2)] False k(1) show ?thesis by (subst show_nat.simps) simp
  qed
qed

lemma read_nat_zeros: "read_nat (replicate k (CHR ''0'') @ s) = read_nat s"
proof -
  have "foldl (\<lambda>a c. 10 * a + char_digit c) 0 (replicate k (CHR ''0'')) = 0"
    by (induction k) (auto simp: char_digit_def)
  then show ?thesis by (simp add: read_nat_def)
qed

lemma show_pad_facts:
  assumes "0 \<le> i" and "i < 10 ^ k" and "0 < k"
  shows "length (show_pad k i) = k" "list_all is_digit (show_pad k i)" "int (read_nat (show_pad k i)) = i"
proof -
  have "nat i < 10 ^ k" using assms(1,2) by (metis nat_less_iff of_nat_numeral of_nat_power)
  from length_show_nat [OF this assms(3)] show "length (show_pad k i) = k" by (simp add: show_pad_def pad_start_def)
  show "list_all is_digit (show_pad k i)"
    by (simp add: show_pad_def pad_start_def)
  show "int (read_nat (show_pad k i)) = i" using assms(1) by (simp add: show_pad_def pad_start_def read_nat_zeros)
qed

section \<open>Target times\<close>

lemma list_4: "length s = 4 \<Longrightarrow> \<exists>a b c d. s = [a, b, c, d]"
  by (auto simp: numeral_eq_Suc length_Suc_conv)

lemma list_2: "length s = 2 \<Longrightarrow> \<exists>a b. s = [a, b]"
  by (auto simp: numeral_eq_Suc length_Suc_conv)

lemma list_3: "length s = 3 \<Longrightarrow> \<exists>a b c. s = [a, b, c]"
  by (auto simp: numeral_eq_Suc length_Suc_conv)

lemma seconds_of_minute:
  fixes t :: int
  shows "t mod 60000 div 1000 * 1000 + t mod 1000 = t mod 60000" "0 \<le> t mod 60000 div 1000" "t mod 60000 div 1000 < 60"
proof -
  define r where "r = t mod 60000"
  have r: "0 \<le> r" "r < 60000" by (simp_all add: r_def)
  have "t mod 1000 = r mod 1000" by (simp add: r_def mod_mod_cancel)
  then show "t mod 60000 div 1000 * 1000 + t mod 1000 = t mod 60000" unfolding r_def [symmetric] by simp
  show "0 \<le> t mod 60000 div 1000" "t mod 60000 div 1000 < 60"
    unfolding r_def [symmetric] using r div_between [of 1000 r] by linarith+
qed

lemma iso_string_parses:
  assumes "0 \<le> wl_year (utc_wall t)" and "wl_year (utc_wall t) \<le> 9999"
  shows "target_format (iso_string t)" "canonical_target (iso_string t) = iso_string t" "date_parse (iso_string t) = Some t"
proof -
  let ?w = "utc_wall t"
  define sec ms where "sec = t mod 60000 div 1000" and "ms = t mod 1000"
  note rg = utc_wall_ranges [of t]
  note sm = seconds_of_minute [of t, folded sec_def ms_def]
  have ms: "0 \<le> ms" "ms < 1000" by (simp_all add: ms_def)
  have Y: "length (show_pad 4 (wl_year ?w)) = 4" "list_all is_digit (show_pad 4 (wl_year ?w))" "int (read_nat (show_pad 4 (wl_year ?w))) = wl_year ?w"
    using show_pad_facts [of "wl_year ?w" 4] assms by simp_all
  have M: "length (show_pad 2 (wl_month ?w)) = 2" "list_all is_digit (show_pad 2 (wl_month ?w))" "int (read_nat (show_pad 2 (wl_month ?w))) = wl_month ?w"
    using show_pad_facts [of "wl_month ?w" 2] rg by simp_all
  have D: "length (show_pad 2 (wl_day ?w)) = 2" "list_all is_digit (show_pad 2 (wl_day ?w))" "int (read_nat (show_pad 2 (wl_day ?w))) = wl_day ?w"
    using show_pad_facts [of "wl_day ?w" 2] rg by simp_all
  have H: "length (show_pad 2 (wl_hour ?w)) = 2" "list_all is_digit (show_pad 2 (wl_hour ?w))" "int (read_nat (show_pad 2 (wl_hour ?w))) = wl_hour ?w"
    using show_pad_facts [of "wl_hour ?w" 2] rg by simp_all
  have I: "length (show_pad 2 (wl_minute ?w)) = 2" "list_all is_digit (show_pad 2 (wl_minute ?w))" "int (read_nat (show_pad 2 (wl_minute ?w))) = wl_minute ?w"
    using show_pad_facts [of "wl_minute ?w" 2] rg by simp_all
  have S: "length (show_pad 2 sec) = 2" "list_all is_digit (show_pad 2 sec)" "int (read_nat (show_pad 2 sec)) = sec"
    using show_pad_facts [of sec 2] sm by simp_all
  have L: "length (show_pad 3 ms) = 3" "list_all is_digit (show_pad 3 ms)" "int (read_nat (show_pad 3 ms)) = ms"
    using show_pad_facts [of ms 3] ms by simp_all
  obtain y1 y2 y3 y4 where y: "show_pad 4 (wl_year ?w) = [y1, y2, y3, y4]" using list_4 [OF Y(1)] by blast
  obtain m1 m2 where m: "show_pad 2 (wl_month ?w) = [m1, m2]" using list_2 [OF M(1)] by blast
  obtain d1 d2 where d: "show_pad 2 (wl_day ?w) = [d1, d2]" using list_2 [OF D(1)] by blast
  obtain h1 h2 where h: "show_pad 2 (wl_hour ?w) = [h1, h2]" using list_2 [OF H(1)] by blast
  obtain i1 i2 where i: "show_pad 2 (wl_minute ?w) = [i1, i2]" using list_2 [OF I(1)] by blast
  obtain s1 s2 where s: "show_pad 2 sec = [s1, s2]" using list_2 [OF S(1)] by blast
  obtain l1 l2 l3 where l: "show_pad 3 ms = [l1, l2, l3]" using list_3 [OF L(1)] by blast
  have str: "iso_string t = [y1, y2, y3, y4, CHR ''-'', m1, m2, CHR ''-'', d1, d2, CHR ''T'', h1, h2, CHR '':'', i1, i2,
      CHR '':'', s1, s2, CHR ''.'', l1, l2, l3, CHR ''Z'']"
    using assms by (simp add: iso_string_def Let_def iso_year_def y m d h i s l sec_def [symmetric] ms_def [symmetric])
  have dig: "is_digit y1" "is_digit y2" "is_digit y3" "is_digit y4" "is_digit m1" "is_digit m2" "is_digit d1" "is_digit d2"
    "is_digit h1" "is_digit h2" "is_digit i1" "is_digit i2" "is_digit s1" "is_digit s2" "is_digit l1" "is_digit l2" "is_digit l3"
    using Y(2) M(2) D(2) H(2) I(2) S(2) L(2) by (simp_all add: y m d h i s l)
  show "target_format (iso_string t)" by (simp add: target_format_def str fits_def dig)
  show "canonical_target (iso_string t) = iso_string t" by (simp add: canonical_target_def target_fraction_def pad_end_def str)
  have num: "number_at 0 4 (iso_string t) = wl_year ?w" "number_at 5 2 (iso_string t) = wl_month ?w"
    "number_at 8 2 (iso_string t) = wl_day ?w" "number_at 11 2 (iso_string t) = wl_hour ?w"
    "number_at 14 2 (iso_string t) = wl_minute ?w" "number_at 17 2 (iso_string t) = sec"
    "int (read_nat (pad_end 3 (target_fraction (iso_string t)))) = ms"
    using Y(3) M(3) D(3) H(3) I(3) S(3) L(3)
    by (simp_all add: number_at_def target_fraction_def pad_end_def str y m d h i s l)
  have "date_utc (wl_year ?w) (wl_month ?w) (wl_day ?w) (wl_hour ?w) (wl_minute ?w) = t - t mod 60000"
    using wall_utc_utc_wall [of t] by (simp add: wall_utc_def)
  then have "date_utc (wl_year ?w) (wl_month ?w) (wl_day ?w) (wl_hour ?w) (wl_minute ?w) + sec * 1000 + ms = t"
    using sm(1) by linarith
  then show "date_parse (iso_string t) = Some t"
    unfolding date_parse_def Let_def num using rg sm(2,3) by simp
qed

lemma canonical_first_digit:
  assumes "target_format s"
  shows "\<exists>c r. canonical_target s = c # r \<and> is_digit c"
proof -
  from assms have f: "list_all2 (\<lambda>t c. if t = CHR ''d'' then is_digit c else c = t) ''dddd-dd-ddTdd:dd:dd'' (take 19 s)"
    by (simp add: target_format_def fits_def)
  then obtain c r where "take 19 s = c # r" "is_digit c" by (auto simp: list_all2_Cons1)
  then show ?thesis by (simp add: canonical_target_def)
qed

lemma iso_year_range:
  assumes "iso_string t = c # r" and "is_digit c"
  shows "0 \<le> wl_year (utc_wall t)" "wl_year (utc_wall t) \<le> 9999"
  using assms by (auto simp: iso_string_def Let_def iso_year_def is_digit_def less_eq_char_def split: if_splits)

text \<open>A target time that is accepted is the canonical ISO form of the instant it denotes, which is
  accepted again as the same instant; and every instant of the years 0 to 9999 is reached in this way,
  to the millisecond.\<close>

theorem target_time_round_trip:
  "(parse_utc_target_time s = Inr (x, t) \<longrightarrow>
      x = canonical_target s \<and> x = iso_string t \<and> parse_utc_target_time x = Inr (x, t))
   \<and> (0 \<le> wl_year (utc_wall u) \<and> wl_year (utc_wall u) \<le> 9999 \<longrightarrow>
      parse_utc_target_time (iso_string u) = Inr (iso_string u, u))"
proof (intro conjI impI, goal_cases)
  have exact: "parse_utc_target_time (iso_string v) = Inr (iso_string v, v)"
    if "0 \<le> wl_year (utc_wall v)" "wl_year (utc_wall v) \<le> 9999" for v
    using iso_string_parses [OF that] by (simp add: parse_utc_target_time_def)
  {
    case 4
    then show ?case using exact by blast
  }
  assume "parse_utc_target_time s = Inr (x, t)"
  then have f: "target_format s" and x: "x = iso_string t" "iso_string t = canonical_target s"
    by (auto simp: parse_utc_target_time_def split: option.splits if_splits)
  from canonical_first_digit [OF f] obtain c r where c: "iso_string t = c # r" "is_digit c" by (auto simp: x)
  show "x = canonical_target s" "x = iso_string t" using x by simp_all
  show "parse_utc_target_time x = Inr (x, t)" using exact iso_year_range [OF c] x(1) by simp
qed

theorem target_time_round_trip_witness:
  "parse_utc_target_time ''1970-01-01T00:00:07.000Z'' = Inr (''1970-01-01T00:00:07.000Z'', 7000)"
proof -
  have "case parse_utc_target_time ''1970-01-01T00:00:07Z'' of Inr (x, t) \<Rightarrow> x = ''1970-01-01T00:00:07.000Z'' \<and> t = 7000 | _ \<Rightarrow> False"
    by code_simp
  then have "parse_utc_target_time ''1970-01-01T00:00:07Z'' = Inr (''1970-01-01T00:00:07.000Z'', 7000)"
    by (auto split: sum.splits)
  with target_time_round_trip show ?thesis by blast
qed

section \<open>Gaps\<close>

lemma increasing_sorted: "\<not> not_increasing ns \<Longrightarrow> sorted ns \<and> distinct ns"
proof (induction ns rule: not_increasing.induct)
  case (1 a b xs)
  then have s: "a < b" "sorted (b # xs)" "distinct (b # xs)" by auto
  have "b \<le> y" if "y \<in> set (b # xs)" for y using s(2) that by auto
  with s show ?case by force
qed auto

lemma missing_between_set:
  "\<not> not_increasing ns \<Longrightarrow> set (missing_between ns) = {n. ns \<noteq> [] \<and> hd ns < n \<and> n < last ns \<and> n \<notin> set ns}"
proof (induction ns rule: missing_between.induct)
  case (1 a b xs)
  then have ab: "a < b" and ok: "\<not> not_increasing (b # xs)" by auto
  note s = increasing_sorted [OF ok]
  have above: "b \<le> y" if "y \<in> set (b # xs)" for y using s that by auto
  have "set (missing_between (a # b # xs)) = {a + 1 .. b - 1} \<union> {n. b < n \<and> n < last (b # xs) \<and> n \<notin> set (b # xs)}"
    using "1.IH" [OF ok] by simp
  also have "\<dots> = {n. a < n \<and> n < last (b # xs) \<and> n \<notin> set (a # b # xs)}"
  proof (intro set_eqI iffI)
    fix n assume "n \<in> {a + 1 .. b - 1} \<union> {n. b < n \<and> n < last (b # xs) \<and> n \<notin> set (b # xs)}"
    moreover have "b \<le> last (b # xs)" by (rule above) simp
    ultimately show "n \<in> {n. a < n \<and> n < last (b # xs) \<and> n \<notin> set (a # b # xs)}" using ab above by fastforce
  next
    fix n assume "n \<in> {n. a < n \<and> n < last (b # xs) \<and> n \<notin> set (a # b # xs)}"
    then show "n \<in> {a + 1 .. b - 1} \<union> {n. b < n \<and> n < last (b # xs) \<and> n \<notin> set (b # xs)}" by (cases "n < b") auto
  qed
  finally show ?case by simp
qed auto

lemma binlog_sequence_facts:
  assumes "binlog_sequence s = Some (p, n)"
  shows "0 \<le> n" "n \<le> max_safe" "p \<noteq> []" "last p = CHR ''.''" "CHR 0x0A \<notin> set p" "CHR 0x0D \<notin> set p"
  using assms by (auto simp: binlog_sequence_def Let_def split: if_splits)

lemma binlog_sequence_name:
  assumes "p \<noteq> []" "last p = CHR ''.''" "CHR 0x0A \<notin> set p" "CHR 0x0D \<notin> set p" "0 \<le> n" "n \<le> max_safe"
  shows "binlog_sequence (p @ show_pad 6 n) = Some (p, n)"
proof -
  let ?ds = "show_pad 6 n"
  have dig: "list_all is_digit ?ds" by (simp add: show_pad_def pad_start_def)
  have len: "6 \<le> length ?ds" by (simp add: show_pad_def pad_start_def)
  have val: "int (read_nat ?ds) = n" using assms(5) by (simp add: show_pad_def pad_start_def read_nat_zeros)
  have all: "\<forall>c \<in> set (rev ?ds). is_digit c" using dig by (simp add: list_all_iff)
  have "\<not> is_digit (last p)" by (simp add: assms(2) is_digit_def less_eq_char_def)
  then have stop: "takeWhile is_digit (rev p) = []" "dropWhile is_digit (rev p) = rev p"
    using assms(1) by (cases p rule: rev_cases; simp)+
  have "takeWhile is_digit (rev (p @ ?ds)) = rev ?ds" "dropWhile is_digit (rev (p @ ?ds)) = rev p"
    unfolding rev_append using all stop by (simp_all add: takeWhile_append2 dropWhile_append2 del: set_rev)
  with assms len val show ?thesis by (simp add: binlog_sequence_def Let_def)
qed

text \<open>C12: The gaps of a binary log sequence are found exactly. For names of one prefix in increasing
  order the answer is precisely the names of the missing sequence numbers between the first and the
  last one, each of which parses back to its number; and the answer is empty exactly when the names
  are consecutive.\<close>

theorem binlog_gaps_are_exact:
  assumes "map binlog_sequence (uniq names) = map (\<lambda>n. Some (p, n)) ns" and "ns \<noteq> []" and "\<not> not_increasing ns"
  shows "set (find_binlog_sequence_gaps names) = {p @ show_pad 6 n | n. hd ns < n \<and> n < last ns \<and> n \<notin> set ns}
    \<and> (\<forall>g \<in> set (find_binlog_sequence_gaps names). \<exists>n. binlog_sequence g = Some (p, n) \<and> hd ns < n \<and> n < last ns \<and> n \<notin> set ns)
    \<and> (find_binlog_sequence_gaps names = [] \<longleftrightarrow> set ns = {hd ns .. last ns})"
proof -
  have none: "None \<notin> set (map binlog_sequence (uniq names))" unfolding assms(1) by auto
  have entries: "map the (map binlog_sequence (uniq names)) = map (Pair p) ns" unfolding assms(1) by simp
  have "uniq (map fst (map (Pair p) ns)) = [p]"
  proof -
    have "uniq (map (\<lambda>n. p) ms) = (if ms = [] then [] else [p])" for ms :: "int list"
      by (cases ms) (simp_all add: filter_empty_conv)
    then show ?thesis using assms(2) by (simp add: comp_def)
  qed
  moreover have "map snd (map (Pair p) ns) = ns" by (simp add: comp_def)
  ultimately have run: "find_binlog_sequence_gaps names = map (\<lambda>n. p @ show_pad 6 n) (missing_between ns)"
    unfolding find_binlog_sequence_gaps_def Let_def entries using none assms(3) by (simp del: map_map)
  have gaps: "set (find_binlog_sequence_gaps names) = {p @ show_pad 6 n | n. hd ns < n \<and> n < last ns \<and> n \<notin> set ns}"
    unfolding run using missing_between_set [OF assms(3)] assms(2) by auto
  have parsed: "\<exists>s. binlog_sequence s = Some (p, n)" if "n \<in> set ns" for n
  proof -
    have "Some (p, n) \<in> set (map binlog_sequence (uniq names))" unfolding assms(1) using that by auto
    then show ?thesis by auto
  qed
  obtain s1 where f: "binlog_sequence s1 = Some (p, hd ns)" using parsed [of "hd ns"] assms(2) by auto
  obtain s2 where l: "binlog_sequence s2 = Some (p, last ns)" using parsed [of "last ns"] assms(2) by auto
  note F = binlog_sequence_facts [OF f] and L = binlog_sequence_facts [OF l]
  have parse: "\<forall>g \<in> set (find_binlog_sequence_gaps names). \<exists>n. binlog_sequence g = Some (p, n) \<and> hd ns < n \<and> n < last ns \<and> n \<notin> set ns"
    unfolding gaps using binlog_sequence_name [OF F(3-6)] F(1) L(2) by fastforce
  have srt: "sorted ns" "distinct ns" using increasing_sorted [OF assms(3)] by blast+
  have range: "hd ns \<le> n \<and> n \<le> last ns" if "n \<in> set ns" for n
    using srt(1) that assms(2) by (metis hd_conv_nth last_conv_nth in_set_conv_nth sorted_nth_mono Suc_pred' diff_less
      le0 length_greater_0_conv less_Suc_eq_le zero_less_one)
  have "find_binlog_sequence_gaps names = [] \<longleftrightarrow> set (missing_between ns) = {}" unfolding run by simp
  also have "\<dots> \<longleftrightarrow> set ns = {hd ns .. last ns}"
  proof
    assume "set (missing_between ns) = {}"
    then have "{n. ns \<noteq> [] \<and> hd ns < n \<and> n < last ns \<and> n \<notin> set ns} = {}"
      using missing_between_set [OF assms(3)] by simp
    then have inner: "n \<in> set ns" if "hd ns < n" "n < last ns" for n
      using assms(2) that by blast
    show "set ns = {hd ns .. last ns}"
    proof (intro set_eqI iffI)
      fix n assume "n \<in> {hd ns .. last ns}"
      then consider "n = hd ns" | "n = last ns" | "hd ns < n" "n < last ns" by fastforce
      then show "n \<in> set ns" using inner hd_in_set [OF assms(2)] last_in_set [OF assms(2)] by cases auto
    qed (use range in auto)
  next
    assume eq: "set ns = {hd ns .. last ns}"
    have "n \<in> set ns" if "hd ns < n" "n < last ns" for n using that by (subst eq) simp
    then show "set (missing_between ns) = {}" unfolding missing_between_set [OF assms(3)] by blast
  qed
  finally show ?thesis using gaps parse by blast
qed

theorem binlog_gaps_are_exact_witness:
  "set (find_binlog_sequence_gaps [''bin.000001'', ''bin.000003'']) = {''bin.'' @ show_pad 6 n | n. 1 < n \<and> n < 3 \<and> n \<notin> {1, 3}}"
proof -
  have "list_all2 (\<lambda>a b. a = b) (map binlog_sequence (uniq [''bin.000001'', ''bin.000003''])) [Some (''bin.'', 1), Some (''bin.'', 3)]"
    by code_simp
  then have "map binlog_sequence (uniq [''bin.000001'', ''bin.000003'']) = map (\<lambda>n. Some (''bin.'', n)) [1, 3]"
    by (simp add: list_all2_eq [symmetric])
  from binlog_gaps_are_exact [OF this] show ?thesis by simp
qed

section \<open>Scratch databases\<close>

lemma base36_no_underscore: "CHR ''_'' \<notin> set (show_base36 n)"
proof (induction n rule: show_base36.induct)
  case (1 n)
  have d: "digit36 d \<noteq> CHR ''_''" if "d < 36" for d
  proof -
    have "(of_char (digit36 d) :: nat) \<noteq> 95" using that by (simp add: digit36_def)
    then show ?thesis by auto
  qed
  show ?case using 1 d by (subst show_base36.simps) (auto dest: sym)
qed

lemma digit36_inject: "a < 36 \<Longrightarrow> b < 36 \<Longrightarrow> digit36 a = digit36 b \<Longrightarrow> a = b"
proof -
  assume a: "a < 36" and b: "b < 36" and eq: "digit36 a = digit36 b"
  have val: "(of_char (digit36 n) :: nat) = (if n < 10 then 48 + n else 87 + n)" if "n < 36" for n
    using that by (simp add: digit36_def)
  have "(if a < 10 then 48 + a else 87 + a) = (if b < 10 then 48 + b else 87 + b)"
    unfolding val [OF a, symmetric] val [OF b, symmetric] eq ..
  then show ?thesis by (simp split: if_splits)
qed

lemma show_base36_inject: "show_base36 a = show_base36 b \<Longrightarrow> a = b"
proof (induction a arbitrary: b rule: show_base36.induct)
  case (1 a)
  have ne: "show_base36 n \<noteq> []" for n by (subst show_base36.simps) simp
  show ?case
  proof (cases "a < 36 \<or> b < 36")
    case True
    then show ?thesis using "1.prems" ne ne [THEN not_sym] by (subst (asm) (1 2) show_base36.simps) (auto split: if_splits dest: digit36_inject)
  next
    case False
    then have "show_base36 (a div 36) @ [digit36 (a mod 36)] = show_base36 (b div 36) @ [digit36 (b mod 36)]"
      using "1.prems" by (subst (asm) (1 2) show_base36.simps) simp
    then have "show_base36 (a div 36) = show_base36 (b div 36)" "digit36 (a mod 36) = digit36 (b mod 36)" by simp_all
    with "1.IH" False have "a div 36 = b div 36" "a mod 36 = b mod 36" by (auto intro: digit36_inject)
    then show ?thesis by (metis div_mult_mod_eq)
  qed
qed

lemma length_show_base36: "n < 36 ^ k \<Longrightarrow> 0 < k \<Longrightarrow> length (show_base36 n) \<le> k"
proof (induction n arbitrary: k rule: show_base36.induct)
  case (1 n)
  show ?case
  proof (cases "n < 36")
    case True
    with 1 show ?thesis by (subst show_base36.simps) simp
  next
    case False
    with "1.prems" obtain k' where k: "k = Suc k'" "0 < k'"
      by (metis One_nat_def Suc_pred bot_nat_0.not_eq_extremum power_one_right)
    with "1.prems" have "n div 36 < 36 ^ k'" by (simp add: less_mult_imp_div_less mult.commute)
    from "1.IH" [OF False this k(2)] False k(1) show ?thesis by (subst show_base36.simps) simp
  qed
qed

lemma base36_word: "list_all word_char (show_base36 n)"
proof (induction n rule: show_base36.induct)
  case (1 n)
  have d: "word_char (digit36 d)" if "d < 36" for d
  proof (cases "d < 10")
    case True
    then show ?thesis by (simp add: digit36_def word_char_def is_alnum_def is_digit_def less_eq_char_def)
  next
    case False
    with that show ?thesis by (simp add: digit36_def word_char_def is_alnum_def is_letter_def less_eq_char_def)
  qed
  show ?case using 1 d by (subst show_base36.simps) simp
qed

lemma scratch_suffix_index:
  assumes "scratch_name prefix hex i = scratch_name prefix hex k"
  shows "i = k"
proof -
  have tail: "takeWhile (\<lambda>c. c \<noteq> CHR ''_'') (rev (scratch_name prefix hex n)) = rev (show_base36 n)" for n
  proof -
    have all: "\<forall>c \<in> set (rev (show_base36 n)). c \<noteq> CHR ''_''" using base36_no_underscore [of n] by auto
    obtain q where "scratch_name prefix hex n = q @ ''_'' @ show_base36 n"
      by (simp add: scratch_name_def scratch_suffix_def Let_def)
    then have "rev (scratch_name prefix hex n) = rev (show_base36 n) @ CHR ''_'' # rev q" by simp
    with all show ?thesis by (simp add: takeWhile_append2 del: set_rev)
  qed
  have "rev (show_base36 i) = rev (show_base36 k)" using tail [of i] tail [of k] assms by simp
  then show ?thesis using show_base36_inject by simp
qed

lemma scratch_name_shape:
  assumes hex: "random_hex_ok hex" and i: "i < 36 ^ 20"
  shows "length (scratch_name prefix hex i) \<le> 63" "list_all word_char (scratch_name prefix hex i)"
proof -
  have b: "length (show_base36 i) \<le> 20" by (rule length_show_base36 [OF i]) simp
  have "length (take 20 hex) = 20" using hex by (simp add: random_hex_ok_def)
  then have s: "length (scratch_suffix hex i) \<le> 41" using b by (simp add: scratch_suffix_def)
  define p where "p = take (max 1 (63 - length (scratch_suffix hex i) - 1)) (map scratch_char prefix)"
  have "length p \<le> 62 - length (scratch_suffix hex i)" using s by (simp add: p_def)
  then have p: "length p + length (scratch_suffix hex i) \<le> 62" using s by linarith
  have name: "scratch_name prefix hex i = (if p = [] then ''vb'' else p) @ ''_'' @ scratch_suffix hex i"
    by (simp add: scratch_name_def Let_def p_def)
  show "length (scratch_name prefix hex i) \<le> 63" unfolding name using p s by simp
  have "list_all word_char (take 20 hex)"
  proof -
    have "list_all (\<lambda>c. is_digit c \<or> CHR ''a'' \<le> c \<and> c \<le> CHR ''f'') hex" using hex by (simp add: random_hex_ok_def)
    moreover have "is_digit c \<or> CHR ''a'' \<le> c \<and> c \<le> CHR ''f'' \<Longrightarrow> word_char c" for c
      by (auto simp: word_char_def is_alnum_def is_letter_def less_eq_char_def)
    ultimately have "list_all word_char hex" by (simp add: list_all_iff)
    then show ?thesis by (metis append_take_drop_id list_all_append)
  qed
  moreover have "list_all word_char p"
  proof -
    have "word_char (scratch_char c)" for c by (simp add: scratch_char_def) (simp add: word_char_def)
    then have "list_all word_char (map scratch_char prefix)" by (simp add: list_all_iff)
    then show ?thesis unfolding p_def by (metis append_take_drop_id list_all_append)
  qed
  moreover have "list_all word_char ''vb''" "word_char (CHR ''_'')" by code_simp+
  ultimately show "list_all word_char (scratch_name prefix hex i)"
    unfolding name by (simp add: scratch_suffix_def base36_word)
qed

text \<open>A rehearsal gives every database of the baseline its own scratch database: the names are
  distinct, whatever the common prefix, they are at most 64 characters long, and consist of letters,
  digits and underscores only.\<close>

theorem scratch_names_are_distinct:
  assumes "make_scratch_database_names databases prefix hex = Inr m" and "length databases \<le> 36 ^ 20"
  shows "map fst m = databases \<and> distinct (map snd m)
    \<and> (\<forall>n \<in> set (map snd m). length n \<le> 64 \<and> list_all word_char n)"
proof -
  from assms(1) have hex: "random_hex_ok hex"
    and m: "m = map2 (\<lambda>i d. (d, scratch_name prefix hex i)) [0..<length databases] databases"
    by (simp_all add: make_scratch_database_names_def split: if_splits)
  have fst: "map fst m = databases" unfolding m by (rule nth_equalityI) simp_all
  have snd: "map snd m = map (scratch_name prefix hex) [0..<length databases]"
    unfolding m by (rule nth_equalityI) simp_all
  have "distinct (map snd m)" unfolding snd using scratch_suffix_index [of prefix hex]
    by (auto simp: distinct_map inj_on_def)
  moreover have "length n \<le> 64 \<and> list_all word_char n" if n: "n \<in> set (map snd m)" for n
  proof -
    from n obtain i where "i < length databases" "n = scratch_name prefix hex i" unfolding snd by auto
    with scratch_name_shape [OF hex, of i prefix] assms(2) show ?thesis by simp
  qed
  ultimately show ?thesis using fst by blast
qed

definition sample_hex :: string where
  "sample_hex = ''0123456789abcdef0123456789abcdef''"

theorem scratch_names_are_distinct_witness:
  "\<exists>m. make_scratch_database_names [''shop'', ''crm''] ''vb test'' sample_hex = Inr m \<and> map fst m = [''shop'', ''crm''] \<and> distinct (map snd m)"
proof -
  have "case make_scratch_database_names [''shop'', ''crm''] ''vb test'' sample_hex of Inr _ \<Rightarrow> True | Inl _ \<Rightarrow> False" by code_simp
  then obtain m where m: "make_scratch_database_names [''shop'', ''crm''] ''vb test'' sample_hex = Inr m" by (auto split: sum.splits)
  from scratch_names_are_distinct [OF m] m show ?thesis by simp
qed

end
