(* ===== verification/Pitr_Sql.thy ===== *)
theory Pitr_Sql
  imports Pitr_Text
begin

text \<open>
  Point-in-time recovery, the SQL side (\<open>src/backup/pitr.utils.ts\<close>, second half): the mask that
  hides string literals and comments, the rewriting of database names, and the validation of a
  replay.
\<close>

section \<open>Literals and comments\<close>

definition not_newline :: "char \<Rightarrow> bool" where
  "not_newline c = (c \<noteq> CHR 0x0A \<and> c \<noteq> CHR 0x0D)"

definition rx_quoted :: "char \<Rightarrow> rx" where
  "rx_quoted q = rx_seq [rx_text [q],
     Star True (rx_alt [Seq (rx_text [CHR 0x5C]) (Cls not_newline), rx_text [q, q], Cls (\<lambda>c. c \<noteq> q)]), rx_text [q]]"

text \<open>\<open>SQL_PROTECTED_PARTS\<close>.\<close>

definition sql_protected_parts :: rx where
  "sql_protected_parts = Cap 1 (rx_alt
     [rx_quoted (CHR 0x27), rx_quoted (CHR 0x22),
      rx_seq [rx_text ''/*!'', rx_upto 6 (Cls is_digit), Star False rx_any, rx_text ''*/''],
      rx_seq [rx_text ''/*'', rx_word ''M'', rx_text ''!'', rx_upto 6 (Cls is_digit), Star False rx_any, rx_text ''*/''],
      rx_seq [rx_text ''/*'', Star False rx_any, rx_text ''*/''],
      rx_seq [rx_text ''--'', Cls (\<lambda>c. c = CHR '' '' \<or> c = CHR 0x09), Star True (Cls not_newline)],
      rx_seq [rx_text ''#'', Star True (Cls not_newline)]])"

text \<open>\<open>/^\/\*M?![0-9]{0,6}/i\<close>: the length of the head of an executable comment.\<close>

definition digits_upto :: "nat \<Rightarrow> string \<Rightarrow> nat" where
  "digits_upto n s = min n (length (takeWhile is_digit s))"

definition executable_head :: "string \<Rightarrow> nat option" where
  "executable_head s =
     (if starts_with s ''/*!'' then Some (3 + digits_upto 6 (drop 3 s))
      else if starts_with s ''/*M!'' \<or> starts_with s ''/*m!'' then Some (4 + digits_upto 6 (drop 4 s))
      else None)"

text \<open>The body of an executable comment, with the lengths of its head and of its tail \<open>*/\<close>.\<close>

definition executable_comment :: "string \<Rightarrow> (nat \<times> string) option" where
  "executable_comment s =
     (case executable_head s of
        None \<Rightarrow> None
      | Some k \<Rightarrow> if k + 2 \<le> length s \<and> drop (length s - 2) s = ''*/''
                  then Some (k, take (length s - k - 2) (drop k s)) else None)"

definition spaces :: "nat \<Rightarrow> string" where
  "spaces n = replicate n (CHR '' '')"

text \<open>The pieces of \<open>split\<close>, each with whether it is a protected part (an odd index).\<close>

definition marked_pieces :: "string \<Rightarrow> (bool \<times> string) list" where
  "marked_pieces s = (let ps = rx_split sql_protected_parts s in zip (map odd [0..<length ps]) ps)"

lemma length_piece: "p \<in> set ps \<Longrightarrow> length p \<le> length (concat ps)"
  by (induction ps) auto

lemma marked_piece_length: "(b, p) \<in> set (marked_pieces s) \<Longrightarrow> length p \<le> length s"
proof -
  assume "(b, p) \<in> set (marked_pieces s)"
  then have "p \<in> set (rx_split sql_protected_parts s)" by (auto simp: marked_pieces_def Let_def dest: set_zip_rightD)
  from length_piece [OF this] show ?thesis by (simp add: rx_split_concat)
qed

lemma executable_head_pos: "executable_head s = Some k \<Longrightarrow> 3 \<le> k"
  by (auto simp: executable_head_def split: if_splits)

lemma executable_comment_shorter: "executable_comment p = Some (k, body) \<Longrightarrow> length body + k + 2 = length p \<and> 3 \<le> k"
proof -
  assume "executable_comment p = Some (k, body)"
  then have "executable_head p = Some k" "k + 2 \<le> length p" "body = take (length p - k - 2) (drop k p)"
    by (simp_all add: executable_comment_def split: option.splits if_splits)
  with executable_head_pos show ?thesis by simp
qed

function (sequential) sql_code_mask :: "string \<Rightarrow> string" where
  "sql_code_mask s = concat (map (\<lambda>(protected, p).
     if \<not> protected then p
     else case executable_comment p of
            None \<Rightarrow> spaces (length p)
          | Some (k, body) \<Rightarrow> spaces k @ sql_code_mask body @ spaces 2) (marked_pieces s))"
  by pat_completeness auto
termination
  by (relation "measure length")
    (auto dest!: marked_piece_length executable_comment_shorter)

declare sql_code_mask.simps [simp del]

section \<open>Rewriting database names\<close>

record edit =
  ed_start :: nat
  ed_end :: nat
  ed_text :: string

definition double_backticks :: "string \<Rightarrow> string" where
  "double_backticks s = concat (map (\<lambda>c. if c = CHR 0x60 then [c, c] else [c]) s)"

definition mysql_quote_identifier :: "string \<Rightarrow> string" where
  "mysql_quote_identifier s = [CHR 0x60] @ double_backticks s @ [CHR 0x60]"

definition bare_char :: "char \<Rightarrow> bool" where
  "bare_char c = (word_char c \<or> c = CHR ''$'')"

definition is_bare :: "string \<Rightarrow> bool" where
  "is_bare s = (s \<noteq> [] \<and> list_all bare_char s)"

definition before_dot :: rx where
  "before_dot = Ahead (Seq blanks (rx_text ''.''))"

definition rx_none :: rx where
  "rx_none = Cls (\<lambda>c. False)"

definition directive_pattern :: "string \<Rightarrow> rx" where
  "directive_pattern source = rx_seq [Boundary,
     rx_alt [rx_word ''USE'', rx_seq [rx_word ''CREATE'', blanks1, rx_word ''DATABASE''],
             rx_seq [rx_word ''ALTER'', blanks1, rx_word ''DATABASE''], rx_seq [rx_word ''DROP'', blanks1, rx_word ''DATABASE'']],
     rx_opt (rx_seq [blanks1, rx_word ''IF'', blanks1, rx_opt (Seq (rx_word ''NOT'') blanks1), rx_word ''EXISTS'']),
     blanks1, Cap 1 (rx_alt [rx_word (mysql_quote_identifier source), if is_bare source then rx_word source else rx_none]),
     Ahead (rx_alt [rx_blank, rx_text '';'', AtEnd])]"

text \<open>\<open>lastIndexOf\<close> of a text in another, which contains it.\<close>

definition last_index_of :: "string \<Rightarrow> string \<Rightarrow> nat" where
  "last_index_of sub s = (case filter (\<lambda>i. starts_with (drop i s) sub) (rev [0..<Suc (length s)]) of [] \<Rightarrow> 0 | i # _ \<Rightarrow> i)"

definition add_edits :: "string \<Rightarrow> rx \<Rightarrow> bool \<Rightarrow> string \<Rightarrow> edit list" where
  "add_edits masked pattern captured replacement =
     List.map_filter (\<lambda>m.
       let whole = slice (rm_start m) (rm_end m) masked; t = (if captured then text_cap 1 m else whole)
       in if t = [] then None
          else let start = rm_start m + (if captured then last_index_of t whole else 0)
               in Some \<lparr>ed_start = start, ed_end = start + length t, ed_text = replacement\<rparr>) (rx_all pattern masked)"

definition edits_for :: "string \<Rightarrow> string \<times> string \<Rightarrow> edit list" where
  "edits_for masked m =
     (let source = fst m; quoted_to = mysql_quote_identifier (snd m)
      in add_edits masked (Seq (rx_text (mysql_quote_identifier source)) before_dot) False quoted_to
         @ (if is_bare source then add_edits masked (rx_seq [NotBehind bare_char, rx_text source, before_dot]) False quoted_to else [])
         @ add_edits masked (directive_pattern source) True quoted_to)"

text \<open>The edits from the last to the first; one that reaches into the edit applied before it is
  skipped (\<open>None\<close> is \<open>POSITIVE_INFINITY\<close>).\<close>

fun apply_edits :: "edit list \<Rightarrow> nat option \<Rightarrow> string \<Rightarrow> string" where
  "apply_edits [] last_start s = s"
| "apply_edits (e # es) last_start s =
     (if (case last_start of None \<Rightarrow> False | Some l \<Rightarrow> ed_end e > l) then apply_edits es last_start s
      else apply_edits es (Some (ed_start e)) (take (ed_start e) s @ ed_text e @ drop (ed_end e) s))"

definition rewrite_pitr_sql_databases :: "string \<Rightarrow> (string \<times> string) list \<Rightarrow> string" where
  "rewrite_pitr_sql_databases contents mapping =
     (let masked = sql_code_mask contents; edits = concat (map (edits_for masked) mapping)
      in apply_edits (sort_key (\<lambda>e. - int (ed_start e)) edits) None contents)"

section \<open>Validation\<close>

text \<open>\<open>stripSqlCommentsAndStrings\<close>: an executable comment counts with its body.\<close>

definition comment_body :: "string \<Rightarrow> string option" where
  "comment_body p =
     (case executable_head p of
        None \<Rightarrow> None
      | Some k \<Rightarrow> let r = drop k p in Some (if length r \<ge> 2 \<and> drop (length r - 2) r = ''*/'' then take (length r - 2) r else r))"

lemma comment_body_shorter: "comment_body p = Some body \<Longrightarrow> length body < length p"
proof -
  assume "comment_body p = Some body"
  then obtain k where k: "executable_head p = Some k" and b: "length body \<le> length (drop k p)"
    by (auto simp: comment_body_def Let_def split: option.splits if_splits)
  have "p \<noteq> []" using k by (auto simp: executable_head_def starts_with_def)
  with executable_head_pos [OF k] b show "length body < length p" by (cases p) auto
qed

function (sequential) strip_sql :: "string \<Rightarrow> string" where
  "strip_sql s = concat (map (\<lambda>(protected, p).
     if \<not> protected then p
     else case comment_body p of None \<Rightarrow> '' '' | Some body \<Rightarrow> strip_sql body) (marked_pieces s))"
  by pat_completeness auto
termination
  by (relation "measure length") (auto dest!: marked_piece_length comment_body_shorter)

declare strip_sql.simps [simp del]

definition words :: "string list \<Rightarrow> rx" where
  "words ws = (case ws of [] \<Rightarrow> Empty | w # vs \<Rightarrow> foldl (\<lambda>r v. rx_seq [r, blanks1, rx_word v]) (rx_word w) vs)"

definition whole_words :: "string list \<Rightarrow> rx" where
  "whole_words ws = rx_seq [Boundary, words ws, Boundary]"

definition forbidden_statements :: rx where
  "forbidden_statements = rx_alt
     [rx_seq [Boundary, rx_alt (map rx_word [''CREATE'', ''ALTER'', ''DROP'']), blanks1,
        rx_alt (map rx_word [''USER'', ''ROLE'', ''SERVER'', ''TABLESPACE'']), Boundary],
      whole_words [''GRANT''], whole_words [''REVOKE''], whole_words [''FLUSH'', ''PRIVILEGES''],
      rx_seq [Boundary, rx_word ''SET'', blanks1,
        rx_alt [rx_word ''@@GLOBAL'', rx_word ''@@PERSIST'', Seq (rx_word ''GLOBAL'') Boundary, Seq (rx_word ''PERSIST'') Boundary]],
      rx_seq [Boundary, rx_alt (map rx_word [''INSTALL'', ''UNINSTALL'']), blanks1, rx_alt (map rx_word [''PLUGIN'', ''COMPONENT'']), Boundary],
      rx_seq [Boundary, words [''LOAD'', ''DATA''], blanks1, rx_opt (Seq (rx_word ''LOCAL'') blanks1), rx_word ''INFILE'', Boundary],
      rx_seq [Boundary, rx_alt (map rx_word [''PREPARE'', ''EXECUTE'']), Boundary],
      whole_words [''DEALLOCATE'', ''PREPARE''], whole_words [''CALL''],
      rx_seq [Boundary, rx_word ''INTO'', blanks1, rx_alt (map rx_word [''OUTFILE'', ''DUMPFILE'']), Boundary],
      rx_seq [Boundary, words [''CREATE'', ''FUNCTION''], Boundary, Star False rx_any, Boundary, rx_word ''SONAME'', Boundary],
      rx_seq [Boundary, rx_alt
        [rx_seq [rx_word ''RESET'', blanks1, rx_alt (map rx_word [''MASTER'', ''SLAVE'', ''PERSIST''])],
         words [''PURGE'', ''BINARY'', ''LOGS''],
         rx_seq [rx_word ''CHANGE'', blanks1, rx_alt [rx_word ''MASTER'', words [''REPLICATION'', ''SOURCE'']]],
         rx_seq [rx_word ''START'', blanks1, rx_alt (map rx_word [''SLAVE'', ''REPLICA''])],
         rx_seq [rx_word ''STOP'', blanks1, rx_alt (map rx_word [''SLAVE'', ''REPLICA''])],
         rx_word ''SHUTDOWN'', rx_word ''KILL''], Boundary]]"

definition backtick_body :: rx where
  "backtick_body = rx_plus (rx_alt [rx_text [CHR 0x60, CHR 0x60], Cls (\<lambda>c. c \<noteq> CHR 0x60)])"

definition identifier_pattern :: rx where
  "identifier_pattern = rx_alt
     [rx_seq [rx_text [CHR 0x60], Cap 1 backtick_body, rx_text [CHR 0x60], blanks, rx_text ''.''],
      rx_seq [NotBehind (\<lambda>c. c = CHR ''@''), Boundary, Cap 2 (rx_plus (Cls bare_char)), blanks, rx_text ''.'']]"

definition named_database :: rx where
  "named_database = Cap 1 (rx_alt [rx_plus (Cls bare_char), rx_seq [rx_text [CHR 0x60], backtick_body, rx_text [CHR 0x60]]])"

definition use_pattern :: rx where
  "use_pattern = rx_seq [Boundary, rx_word ''USE'', blanks1, named_database]"

definition database_statement :: rx where
  "database_statement = rx_seq [Boundary, rx_alt (map rx_word [''CREATE'', ''ALTER'', ''DROP'']), blanks1, rx_word ''DATABASE'',
     rx_opt (rx_seq [blanks1, rx_word ''IF'', blanks1, rx_opt (Seq (rx_word ''NOT'') blanks1), rx_word ''EXISTS'']),
     blanks1, named_database]"

text \<open>\<open>replace(/``/g, '`')\<close> and \<open>replace(/^`|`$/g, '')\<close>.\<close>

fun undouble :: "string \<Rightarrow> string" where
  "undouble (a # b # s) = (if a = CHR 0x60 \<and> b = CHR 0x60 then CHR 0x60 # undouble s else a # undouble (b # s))"
| "undouble s = s"

definition strip_backticks :: "string \<Rightarrow> string" where
  "strip_backticks s =
     (let t = (case s of c # cs \<Rightarrow> if c = CHR 0x60 then cs else s | [] \<Rightarrow> [])
      in if t \<noteq> [] \<and> last t = CHR 0x60 then butlast t else t)"

definition referenced_databases :: "string \<Rightarrow> string list" where
  "referenced_databases sql = map (\<lambda>m. undouble (if text_cap 1 m \<noteq> [] then text_cap 1 m else text_cap 2 m)) (rx_all identifier_pattern sql)"

definition selected_databases :: "rx \<Rightarrow> string \<Rightarrow> string list" where
  "selected_databases pattern sql = map (\<lambda>m. undouble (strip_backticks (text_cap 1 m))) (rx_all pattern sql)"

definition validate_pitr_sql :: "string \<Rightarrow> string list \<Rightarrow> unit result" where
  "validate_pitr_sql contents allowed =
     (let sql = strip_sql contents;
          unknown = filter (\<lambda>d. d \<notin> set allowed) (referenced_databases sql)
      in if rx_test forbidden_statements sql
         then Inl (BadRequest ''PITR replay contains server-level, dynamic SQL, or external-file statements outside the supported database-only recovery scope'')
         else if unknown \<noteq> []
         then Inl (BadRequest (''PITR replay references databases outside the recorded source set: '' @ join '', '' (take 5 (uniq unknown))))
         else case List.find (\<lambda>d. d \<notin> set allowed) (selected_databases use_pattern sql) of
                Some d \<Rightarrow> Inl (BadRequest (''PITR replay selects a database outside the recorded source set: '' @ d))
              | None \<Rightarrow>
                  (case List.find (\<lambda>d. d \<notin> set allowed) (selected_databases database_statement sql) of
                     Some d \<Rightarrow> Inl (BadRequest (''PITR replay changes a database outside the recorded source set: '' @ d))
                   | None \<Rightarrow> Inr ()))"

chapter \<open>Properties\<close>

text \<open>
  The rewriting of a replay: the mask keeps every position, and the edits that are applied
  replace disjoint ranges of the text and nothing else.
\<close>

section \<open>The mask keeps positions\<close>

lemma length_spaces [simp]: "length (spaces n) = n"
  by (simp add: spaces_def)

lemma marked_pieces_snd: "map snd (marked_pieces s) = rx_split sql_protected_parts s"
  by (simp add: marked_pieces_def Let_def)

lemma length_concat_map_cong:
  "(\<And>x. x \<in> set xs \<Longrightarrow> length (f x) = length (g x)) \<Longrightarrow> length (concat (map f xs)) = length (concat (map g xs))"
  by (induction xs) auto

lemma length_sql_code_mask [simp]: "length (sql_code_mask s) = length s"
proof (induction s rule: sql_code_mask.induct)
  case (1 s)
  have "length (sql_code_mask s) = length (concat (map snd (marked_pieces s)))"
  proof (subst sql_code_mask.simps, rule length_concat_map_cong)
    fix x assume x: "x \<in> set (marked_pieces s)"
    obtain b p where bp: "x = (b, p)" by (cases x)
    show "length (case x of (protected, p) \<Rightarrow> if \<not> protected then p
       else case executable_comment p of None \<Rightarrow> spaces (length p)
            | Some (k, body) \<Rightarrow> spaces k @ sql_code_mask body @ spaces 2) = length (snd x)"
    proof (cases "b \<and> executable_comment p \<noteq> None")
      case True
      then obtain k body where e: "executable_comment p = Some (k, body)" by auto
      have "length (sql_code_mask body) = length body"
        by (rule "1.IH" [OF x bp [symmetric] _ e refl]) (use True in simp)
      with True e executable_comment_shorter [OF e] show ?thesis by (simp add: bp)
    next
      case False
      then show ?thesis by (auto simp: bp split: option.splits)
    qed
  qed
  then show ?case by (simp add: marked_pieces_snd rx_split_concat)
qed

section \<open>Replacing disjoint ranges\<close>

text \<open>The reference for the rewriting: the text up to \<open>l\<close> with the ranges of the edits, given
  in their order, replaced.\<close>

fun replace_ranges :: "nat \<Rightarrow> nat \<Rightarrow> string \<Rightarrow> edit list \<Rightarrow> string" where
  "replace_ranges i l s [] = slice i l s"
| "replace_ranges i l s (e # es) = slice i (ed_start e) s @ ed_text e @ replace_ranges (ed_end e) l s es"

fun disjoint_from :: "nat \<Rightarrow> edit list \<Rightarrow> nat \<Rightarrow> bool" where
  "disjoint_from i [] l = (i \<le> l)"
| "disjoint_from i (e # es) l = (i \<le> ed_start e \<and> ed_start e < ed_end e \<and> disjoint_from (ed_end e) es l)"

text \<open>The edits the rewriting applies, in the order of the text.\<close>

fun kept_edits :: "edit list \<Rightarrow> nat \<Rightarrow> edit list" where
  "kept_edits [] l = []"
| "kept_edits (e # es) l = (if ed_end e > l then kept_edits es l else kept_edits es (ed_start e) @ [e])"

lemma replace_ranges_snoc: "replace_ranges i l s (es @ [e]) = replace_ranges i (ed_start e) s es @ ed_text e @ slice (ed_end e) l s"
  by (induction es arbitrary: i) auto

lemma disjoint_snoc:
  "disjoint_from i (es @ [e]) l = (disjoint_from i es (ed_start e) \<and> ed_start e < ed_end e \<and> ed_end e \<le> l)"
  by (induction es arbitrary: i) auto

lemma apply_edits_replace:
  "\<forall>e \<in> set es. ed_start e < ed_end e \<Longrightarrow> l \<le> length s \<Longrightarrow>
     apply_edits es (Some l) (take l s @ tail) = replace_ranges 0 l s (kept_edits es l) @ tail"
proof (induction es arbitrary: l tail)
  case Nil
  then show ?case by (simp add: slice_def)
next
  case (Cons e es)
  then show ?case by (cases "ed_end e > l") (auto simp: replace_ranges_snoc slice_def min_def drop_take)
qed

lemma kept_disjoint: "\<forall>e \<in> set es. ed_start e < ed_end e \<Longrightarrow> disjoint_from 0 (kept_edits es l) l"
  by (induction es arbitrary: l) (auto simp: disjoint_snoc)

lemma kept_subset: "set (kept_edits es l) \<subseteq> set es"
  by (induction es arbitrary: l) auto

text \<open>An edit that is not applied reaches into an applied one, or over the end.\<close>

lemma skipped_overlaps:
  "sorted (map (\<lambda>e. - int (ed_start e)) es) \<Longrightarrow> e \<in> set es \<Longrightarrow> \<forall>e \<in> set es. ed_start e \<le> l \<Longrightarrow>
     e \<in> set (kept_edits es l) \<or> ed_end e > l \<or> (\<exists>f \<in> set (kept_edits es l). ed_start e \<le> ed_start f \<and> ed_start f < ed_end e)"
proof (induction es arbitrary: l)
  case (Cons d ds)
  show ?case
  proof (cases "ed_end d > l")
    case True
    with Cons show ?thesis by (auto)
  next
    case False
    show ?thesis
    proof (cases "e = d")
      case True
      with False show ?thesis by simp
    next
      case e: False
      with Cons.prems have m: "e \<in> set ds" and le: "\<forall>e \<in> set ds. ed_start e \<le> ed_start d" by auto
      from Cons.IH [OF _ m le] Cons.prems(1) have "e \<in> set (kept_edits ds (ed_start d)) \<or> ed_end e > ed_start d
         \<or> (\<exists>f \<in> set (kept_edits ds (ed_start d)). ed_start e \<le> ed_start f \<and> ed_start f < ed_end e)" by simp
      then show ?thesis using False le m by auto
    qed
  qed
qed simp

section \<open>The edits of a mapping\<close>

lemma last_index_of_fits: "part_of t s \<Longrightarrow> last_index_of t s + length t \<le> length s"
proof -
  assume "part_of t s"
  then obtain a b where s: "s = a @ t @ b" by (auto simp: part_of_def)
  let ?is = "filter (\<lambda>i. starts_with (drop i s) t) (rev [0..<Suc (length s)])"
  have "length a \<in> set ?is" by (simp add: s starts_with_def)
  then obtain i js where i: "?is = i # js" by (cases ?is) auto
  then have "i \<in> set ?is" by simp
  then have at: "take (length t) (drop i s) = t" and i_le: "i \<le> length s" by (auto simp: starts_with_def simp del: upt_Suc)
  from at have "length t \<le> length s - i" by (metis length_drop length_take min.cobounded1)
  with i_le have "i + length t \<le> length s" by simp
  then show ?thesis by (simp add: last_index_of_def i del: upt_Suc)
qed

definition edit_within :: "nat \<Rightarrow> edit \<Rightarrow> bool" where
  "edit_within n e = (ed_start e < ed_end e \<and> ed_end e \<le> n)"

lemma add_edits_within: "e \<in> set (add_edits masked pattern captured r) \<Longrightarrow> edit_within (length masked) e \<and> ed_text e = r"
proof -
  assume "e \<in> set (add_edits masked pattern captured r)"
  then obtain m t where m: "m \<in> set (rx_all pattern masked)" and t: "t \<noteq> []"
    and t_def: "t = (if captured then text_cap 1 m else slice (rm_start m) (rm_end m) masked)"
    and e: "ed_start e = rm_start m + (if captured then last_index_of t (slice (rm_start m) (rm_end m) masked) else 0)"
      "ed_end e = ed_start e + length t" "ed_text e = r"
    by (auto simp: add_edits_def List.map_filter_def Let_def split: if_splits)
  from rx_all_bounds [OF m] have b: "rm_start m \<le> rm_end m" "rm_end m \<le> length masked" by auto
  then have len: "length (slice (rm_start m) (rm_end m) masked) = rm_end m - rm_start m" by (simp add: slice_def)
  show ?thesis
  proof (cases captured)
    case True
    with t t_def have "cap_of 1 m = Some t" by (auto simp: text_cap_def split: option.splits)
    from last_index_of_fits [OF rx_all_caps [OF m this]] len b t e True show ?thesis by (simp add: edit_within_def)
  next
    case False
    with len t t_def have "0 < rm_end m - rm_start m" by (metis length_greater_0_conv)
    with len b e t_def False show ?thesis by (simp add: edit_within_def)
  qed
qed

text \<open>All the edits of a rewriting, before the sort.\<close>

definition database_edits :: "string \<Rightarrow> (string \<times> string) list \<Rightarrow> edit list" where
  "database_edits contents mapping = concat (map (edits_for (sql_code_mask contents)) mapping)"

lemma database_edits_within:
  "e \<in> set (database_edits contents mapping) \<Longrightarrow>
     edit_within (length contents) e \<and> (\<exists>m \<in> set mapping. ed_text e = mysql_quote_identifier (snd m))"
  by (auto simp: database_edits_def edits_for_def Let_def split: if_splits dest!: add_edits_within)

lemma apply_edits_all: "\<forall>e \<in> set es. edit_within (length s) e \<Longrightarrow> apply_edits es None s = apply_edits es (Some (length s)) s"
  by (cases es) (auto simp: edit_within_def)



end
