(* ===== verification/Schema.thy ===== *)
theory Schema
  imports Control_Db
begin

text \<open>
  The schema of the control-plane database and its migration (\<open>migrate\<close> in
  \<open>src/database/database.service.ts\<close>): the statements in their order, as values, and what SQLite
  does with them. A statement that fails outside a \<open>try\<close> ends the migration; one inside is undone
  by the transaction around it.
\<close>

section \<open>Statements\<close>

datatype sql_type = TextType | IntegerType

datatype sql_value = SqlText string | SqlInt int

datatype on_delete = NoAction | Cascade | SetNull

datatype sql_constraint =
    PrimaryKey | NotNull | Unique | Default sql_value | CheckBetween int int | References string on_delete

type_synonym column = "string \<times> sql_type \<times> sql_constraint list"

text \<open>\<open>CREATE TABLE IF NOT EXISTS\<close> with the table keys, \<open>CREATE INDEX IF NOT EXISTS\<close>, the addition of
  a column that \<open>PRAGMA table_info\<close> does not list, the addition of a column in a \<open>try\<close>, and the row of
  \<open>schema_migrations\<close>.\<close>

datatype ddl =
    CreateTable string "column list" "string list list"
  | CreateIndex string string "string list"
  | EnsureColumn string column
  | TryAddColumn string column
  | RecordVersion int

definition account_tables :: "ddl list" where
  "account_tables =
  [CreateTable ''schema_migrations''
     [(''version'', IntegerType, [PrimaryKey]), (''applied_at'', TextType, [NotNull])]
     [],
   CreateTable ''app_settings''
     [(''key'', TextType, [PrimaryKey]), (''value'', TextType, [NotNull])]
     [],
   CreateTable ''setup_claims''
     [(''id'', IntegerType, [PrimaryKey, CheckBetween 1 1]), (''claimed_at'', TextType, [NotNull])]
     [],
   CreateTable ''users''
     [(''id'', TextType, [PrimaryKey]), (''username'', TextType, [Unique, NotNull]),
      (''password_hash'', TextType, [NotNull]), (''role'', TextType, [NotNull, Default (SqlText ''admin'')]),
      (''created_at'', TextType, [NotNull]), (''last_login_at'', TextType, [])]
     [],
   CreateTable ''sessions''
     [(''id'', TextType, [PrimaryKey]), (''user_id'', TextType, [NotNull, References ''users'' Cascade]),
      (''csrf_token'', TextType, [NotNull]), (''expires_at'', TextType, [NotNull]),
      (''created_at'', TextType, [NotNull])]
     []]"

definition backup_tables :: "ddl list" where
  "backup_tables =
  [CreateTable ''database_connections''
     [(''id'', TextType, [PrimaryKey]), (''name'', TextType, [NotNull]), (''engine'', TextType, [NotNull]),
      (''host'', TextType, [NotNull]), (''port'', IntegerType, [NotNull]), (''username'', TextType, [NotNull]),
      (''password_enc'', TextType, [NotNull]), (''database_name'', TextType, [NotNull]),
      (''database_scope'', TextType, [NotNull, Default (SqlText ''selected'')]),
      (''database_names'', TextType, [NotNull, Default (SqlText ''[]'')]),
      (''ssl'', IntegerType, [NotNull, Default (SqlInt 0)]),
      (''connection_purpose'', TextType, [NotNull, Default (SqlText ''backup'')]),
      (''created_at'', TextType, [NotNull])]
     [],
   CreateTable ''storage_targets''
     [(''id'', TextType, [PrimaryKey]), (''name'', TextType, [NotNull]), (''type'', TextType, [NotNull]),
      (''config_enc'', TextType, [NotNull]), (''created_at'', TextType, [NotNull])]
     [],
   CreateTable ''backup_jobs''
     [(''id'', TextType, [PrimaryKey]), (''name'', TextType, [NotNull]),
      (''database_connection_id'', TextType, [NotNull, References ''database_connections'' Cascade]),
      (''storage_target_id'', TextType, [NotNull, References ''storage_targets'' Cascade]),
      (''database_scope'', TextType, [NotNull, Default (SqlText ''selected'')]),
      (''database_names'', TextType, [NotNull, Default (SqlText ''[]'')]),
      (''backup_layout'', TextType, [NotNull, Default (SqlText ''single'')]),
      (''backup_objects'', TextType, [NotNull, Default (SqlText ''{}'')]),
      (''insert_mode'', TextType, [NotNull, Default (SqlText ''extended'')]),
      (''cron_expression'', TextType, [NotNull]),
      (''timezone'', TextType, [NotNull, Default (SqlText ''UTC'')]),
      (''enabled'', IntegerType, [NotNull, Default (SqlInt 1)]),
      (''compression'', TextType, [NotNull, Default (SqlText ''gzip'')]),
      (''backup_encryption'', TextType, [NotNull, Default (SqlText ''none'')]),
      (''retention_count'', IntegerType, [NotNull, Default (SqlInt 7)]),
      (''retry_count'', IntegerType, [NotNull, Default (SqlInt 0)]),
      (''retry_delay_seconds'', IntegerType, [NotNull, Default (SqlInt 300)]),
      (''overlap_policy'', TextType, [NotNull, Default (SqlText ''skip'')]),
      (''filename_prefix'', TextType, [NotNull]), (''next_run_at'', TextType, []),
      (''last_run_at'', TextType, []), (''created_at'', TextType, [NotNull])]
     [],
   CreateTable ''backup_runs''
     [(''id'', TextType, [PrimaryKey]), (''job_id'', TextType, [NotNull, References ''backup_jobs'' Cascade]),
      (''status'', TextType, [NotNull]), (''started_at'', TextType, [NotNull]), (''finished_at'', TextType, []),
      (''filename'', TextType, []), (''storage_location'', TextType, []), (''storage_folder'', TextType, []),
      (''storage_target_id'', TextType, []), (''database_connection_id'', TextType, []),
      (''database_names'', TextType, []), (''database_scope'', TextType, []), (''size_bytes'', IntegerType, []),
      (''sha256'', TextType, []), (''verification_status'', TextType, []),
      (''verification_message'', TextType, []), (''restore_verification_status'', TextType, []),
      (''restore_verification_message'', TextType, []), (''error_message'', TextType, []),
      (''attempt'', IntegerType, [NotNull, Default (SqlInt 1)]), (''backup_layout'', TextType, []),
      (''backup_objects'', TextType, []), (''expected_objects'', TextType, []), (''compression'', TextType, []),
      (''backup_encryption'', TextType, []), (''insert_mode'', TextType, []),
      (''connection_engine'', TextType, []), (''pitr_log_file'', TextType, []),
      (''pitr_log_position'', IntegerType, []), (''pitr_coordinate_at'', TextType, [])]
     [],
   CreateTable ''work_claims''
     [(''claim_key'', TextType, [PrimaryKey]), (''claim_token'', TextType, [NotNull]),
      (''process_id'', IntegerType, [NotNull]), (''claimed_at'', TextType, [NotNull])]
     [],
   CreateTable ''verification_reports''
     [(''id'', TextType, [PrimaryKey]), (''run_id'', TextType, [NotNull, References ''backup_runs'' Cascade]),
      (''kind'', TextType, [NotNull]), (''status'', TextType, [NotNull]), (''message'', TextType, [NotNull]),
      (''details_json'', TextType, [NotNull, Default (SqlText ''{}'')]), (''created_at'', TextType, [NotNull])]
     [],
   CreateTable ''storage_health''
     [(''target_id'', TextType, [PrimaryKey, References ''storage_targets'' Cascade]),
      (''status'', TextType, [NotNull]), (''message'', TextType, [NotNull]), (''latency_ms'', IntegerType, []),
      (''checked_at'', TextType, [NotNull])]
     [],
   CreateTable ''backup_job_connections''
     [(''job_id'', TextType, [NotNull, References ''backup_jobs'' Cascade]),
      (''connection_id'', TextType, [NotNull, References ''database_connections'' Cascade]),
      (''database_names'', TextType, [NotNull, Default (SqlText ''[]'')]),
      (''position'', IntegerType, [NotNull, Default (SqlInt 0)])]
     [[''job_id'', ''connection_id'']],
   CreateTable ''backup_job_storages''
     [(''job_id'', TextType, [NotNull, References ''backup_jobs'' Cascade]),
      (''storage_target_id'', TextType, [NotNull, References ''storage_targets'' Cascade]),
      (''position'', IntegerType, [NotNull, Default (SqlInt 0)])]
     [[''job_id'', ''storage_target_id'']],
   CreateTable ''audit_logs''
     [(''id'', TextType, [PrimaryKey]), (''user_id'', TextType, []), (''action'', TextType, [NotNull]),
      (''entity_type'', TextType, []), (''entity_id'', TextType, []), (''metadata_json'', TextType, []),
      (''created_at'', TextType, [NotNull])]
     []]"

definition recovery_tables :: "ddl list" where
  "recovery_tables =
  [CreateTable ''recovery_plans''
     [(''id'', TextType, [PrimaryKey]), (''name'', TextType, [NotNull]),
      (''job_id'', TextType, [NotNull, References ''backup_jobs'' Cascade]),
      (''destination_connection_id'', TextType, [NotNull, References ''database_connections'' Cascade]),
      (''cron_expression'', TextType, [NotNull, Default (SqlText ''0 4 * * 0'')]),
      (''timezone'', TextType, [NotNull, Default (SqlText ''UTC'')]),
      (''enabled'', IntegerType, [NotNull, Default (SqlInt 1)]),
      (''test_database_prefix'', TextType, [NotNull, Default (SqlText ''vaultback_recovery_test'')]),
      (''last_test_at'', TextType, []), (''next_test_at'', TextType, []), (''last_status'', TextType, []),
      (''last_message'', TextType, []), (''created_at'', TextType, [NotNull])]
     [],
   CreateTable ''recovery_tests''
     [(''id'', TextType, [PrimaryKey]),
      (''plan_id'', TextType, [NotNull, References ''recovery_plans'' Cascade]),
      (''source_run_id'', TextType, [References ''backup_runs'' SetNull]), (''status'', TextType, [NotNull]),
      (''started_at'', TextType, [NotNull]), (''finished_at'', TextType, []),
      (''test_database_name'', TextType, []), (''destination_connection_id'', TextType, []),
      (''rpo_seconds'', IntegerType, []), (''rto_seconds'', IntegerType, []),
      (''objects_expected'', IntegerType, []), (''objects_restored'', IntegerType, []),
      (''evidence_json'', TextType, [NotNull, Default (SqlText ''{}'')]), (''error_message'', TextType, [])]
     [],
   CreateTable ''artifact_rehearsals''
     [(''id'', TextType, [PrimaryKey]), (''backup_run_id'', TextType, [NotNull]),
      (''recovery_connection_id'', TextType, [NotNull]), (''actor_id'', TextType, [NotNull]),
      (''status'', TextType, [NotNull]), (''started_at'', TextType, [NotNull]), (''finished_at'', TextType, []),
      (''evidence_json'', TextType, [NotNull, Default (SqlText ''{}'')]), (''error_message'', TextType, [])]
     [],
   CreateTable ''pitr_sources''
     [(''connection_id'', TextType, [PrimaryKey, References ''database_connections'' Cascade]),
      (''storage_target_id'', TextType, [References ''storage_targets'' SetNull]),
      (''enabled'', IntegerType, [NotNull, Default (SqlInt 0)]),
      (''capture_interval_minutes'', IntegerType, [NotNull, Default (SqlInt 15)]),
      (''last_scan_at'', TextType, []), (''last_capture_at'', TextType, []),
      (''binlog_status'', TextType, [NotNull, Default (SqlText ''unknown'')]),
      (''earliest_binlog_at'', TextType, []), (''latest_binlog_at'', TextType, []),
      (''checkpoint_json'', TextType, [NotNull, Default (SqlText ''{}'')]),
      (''gap_status'', TextType, [NotNull, Default (SqlText ''unknown'')]),
      (''message'', TextType, [NotNull, Default (SqlText ''Not checked'')]),
      (''base_job_id'', TextType, [References ''backup_jobs'' SetNull]), (''next_capture_at'', TextType, []),
      (''last_continuous_at'', TextType, [])]
     [],
   CreateTable ''pitr_artifacts''
     [(''id'', TextType, [PrimaryKey]),
      (''connection_id'', TextType, [NotNull, References ''database_connections'' Cascade]),
      (''storage_target_id'', TextType, [NotNull, References ''storage_targets'' Cascade]),
      (''binlog_name'', TextType, [NotNull]), (''storage_location'', TextType, []),
      (''storage_folder'', TextType, [NotNull]), (''size_bytes'', IntegerType, []), (''sha256'', TextType, []),
      (''captured_at'', TextType, [NotNull]), (''status'', TextType, [NotNull]),
      (''message'', TextType, [NotNull, Default (SqlText '''')]), (''capture_id'', TextType, []),
      (''capture_kind'', TextType, [NotNull, Default (SqlText ''manual'')]),
      (''log_position'', IntegerType, []), (''log_size'', IntegerType, [])]
     [[''connection_id'', ''storage_target_id'', ''binlog_name'', ''storage_folder'']],
   CreateTable ''pitr_rehearsals''
     [(''id'', TextType, [PrimaryKey]),
      (''connection_id'', TextType, [NotNull, References ''database_connections'' Cascade]),
      (''backup_run_id'', TextType, [NotNull, References ''backup_runs'' Cascade]),
      (''recovery_connection_id'', TextType, [NotNull, References ''database_connections'' Cascade]),
      (''target_time'', TextType, [NotNull]), (''status'', TextType, [NotNull]),
      (''progress'', IntegerType, [NotNull, Default (SqlInt 0)]),
      (''stage'', TextType, [NotNull, Default (SqlText ''queued'')]), (''started_at'', TextType, [NotNull]),
      (''finished_at'', TextType, []), (''evidence_json'', TextType, [NotNull, Default (SqlText ''{}'')]),
      (''error_message'', TextType, [])]
     [],
   CreateTable ''fleet_servers''
     [(''id'', TextType, [PrimaryKey]), (''name'', TextType, [NotNull]),
      (''installation_id'', TextType, [NotNull, Unique]), (''enrollment_hash'', TextType, [NotNull]),
      (''status'', TextType, [NotNull, Default (SqlText ''active'')]), (''last_seen_at'', TextType, []),
      (''revoked_at'', TextType, []), (''created_at'', TextType, [NotNull])]
     []]"

definition control_indexes :: "ddl list" where
  "control_indexes =
  [CreateIndex ''idx_runs_job_started'' ''backup_runs'' [''job_id'', ''started_at''],
   CreateIndex ''idx_jobs_next_run'' ''backup_jobs'' [''enabled'', ''next_run_at''],
   CreateIndex ''idx_recovery_tests_plan_started'' ''recovery_tests'' [''plan_id'', ''started_at''],
   CreateIndex ''idx_recovery_plans_next_test'' ''recovery_plans'' [''enabled'', ''next_test_at''],
   CreateIndex ''idx_pitr_artifacts_connection_captured'' ''pitr_artifacts'' [''connection_id'', ''captured_at'']]"

definition execution_tables :: "ddl list" where
  "execution_tables =
  [CreateTable ''source_groups''
     [(''id'', TextType, [PrimaryKey]), (''name'', TextType, [NotNull]),
      (''concurrency'', IntegerType, [NotNull, Default (SqlInt 1), CheckBetween 1 8]),
      (''created_at'', TextType, [NotNull])]
     [],
   CreateTable ''backup_executions''
     [(''id'', TextType, [PrimaryKey]), (''job_id'', TextType, [NotNull]), (''trigger'', TextType, [NotNull]),
      (''status'', TextType, [NotNull, Default (SqlText ''queued'')]), (''scheduled_for'', TextType, []),
      (''queued_at'', TextType, [NotNull]), (''started_at'', TextType, []), (''finished_at'', TextType, []),
      (''parent_execution_id'', TextType, []), (''actor_id'', TextType, []),
      (''priority'', IntegerType, [NotNull, Default (SqlInt 0)]), (''enqueue_sequence'', IntegerType, []),
      (''snapshot_json'', TextType, [NotNull, Default (SqlText ''{}'')]),
      (''cleanup_warnings_json'', TextType, [NotNull, Default (SqlText ''[]'')]),
      (''missed_count'', IntegerType, [NotNull, Default (SqlInt 0)]), (''missed_from'', TextType, []),
      (''missed_to'', TextType, [])]
     [[''job_id'', ''scheduled_for'']],
   CreateTable ''backup_execution_pairs''
     [(''id'', TextType, [PrimaryKey]),
      (''execution_id'', TextType, [NotNull, References ''backup_executions'' NoAction]),
      (''connection_id'', TextType, [NotNull]), (''storage_target_id'', TextType, [NotNull]),
      (''fingerprint'', TextType, [NotNull]), (''source_group_id'', TextType, [NotNull]),
      (''required'', IntegerType, [NotNull, Default (SqlInt 1)]),
      (''status'', TextType, [NotNull, Default (SqlText ''queued'')]), (''wait_reason'', TextType, []),
      (''snapshot_json'', TextType, [NotNull, Default (SqlText ''{}'')]), (''next_attempt_at'', TextType, []),
      (''started_at'', TextType, []), (''finished_at'', TextType, []),
      (''cleanup_warnings_json'', TextType, [NotNull, Default (SqlText ''[]'')])]
     [[''execution_id'', ''connection_id'', ''storage_target_id'']],
   CreateTable ''backup_execution_attempts''
     [(''id'', TextType, [PrimaryKey]),
      (''pair_id'', TextType, [NotNull, References ''backup_execution_pairs'' NoAction]),
      (''attempt_number'', IntegerType, [NotNull]), (''status'', TextType, [NotNull]),
      (''backup_run_id'', TextType, []), (''started_at'', TextType, []), (''finished_at'', TextType, []),
      (''failed_stage'', TextType, []), (''error_message'', TextType, []),
      (''cleanup_warnings_json'', TextType, [NotNull, Default (SqlText ''[]'')])]
     [[''pair_id'', ''attempt_number'']],
   CreateTable ''execution_events''
     [(''id'', TextType, [PrimaryKey]), (''execution_id'', TextType, []), (''pair_id'', TextType, []),
      (''kind'', TextType, [NotNull]), (''actor_id'', TextType, []),
      (''payload_json'', TextType, [NotNull, Default (SqlText ''{}'')]), (''created_at'', TextType, [NotNull])]
     [],
   CreateTable ''notification_outbox''
     [(''id'', TextType, [PrimaryKey]), (''event_id'', TextType, [NotNull, Unique]),
      (''execution_id'', TextType, []), (''incident_id'', TextType, []), (''kind'', TextType, [NotNull]),
      (''payload_json'', TextType, [NotNull, Default (SqlText ''{}'')]),
      (''status'', TextType, [NotNull, Default (SqlText ''pending'')]),
      (''attempts'', IntegerType, [NotNull, Default (SqlInt 0)]), (''next_attempt_at'', TextType, [NotNull]),
      (''delivered_at'', TextType, []), (''last_error'', TextType, []), (''created_at'', TextType, [NotNull])]
     [],
   CreateTable ''protection_incidents''
     [(''id'', TextType, [PrimaryKey]), (''job_id'', TextType, [NotNull]),
      (''connection_id'', TextType, [NotNull]), (''storage_target_id'', TextType, [NotNull]),
      (''fingerprint'', TextType, [NotNull]), (''kind'', TextType, [NotNull]),
      (''status'', TextType, [NotNull, Default (SqlText ''open'')]), (''opened_at'', TextType, [NotNull]),
      (''updated_at'', TextType, [NotNull]), (''resolved_at'', TextType, []),
      (''evidence_json'', TextType, [NotNull, Default (SqlText ''{}'')])]
     [],
   CreateIndex ''idx_protection_open'' ''protection_incidents'' [''job_id'', ''connection_id'', ''storage_target_id'', ''fingerprint'', ''kind''],
   CreateIndex ''idx_execution_queue'' ''backup_executions'' [''status'', ''priority'', ''enqueue_sequence''],
   CreateIndex ''idx_attempt_pair'' ''backup_execution_attempts'' [''pair_id'', ''attempt_number'']]"

definition execution_columns :: "ddl list" where
  "execution_columns =
  [EnsureColumn ''storage_health'' (''free_bytes'', IntegerType, []),
   EnsureColumn ''database_connections'' (''source_group_id'', TextType, []),
   EnsureColumn ''backup_job_storages'' (''required'', IntegerType, [NotNull, Default (SqlInt 1), CheckBetween 0 1]),
   EnsureColumn ''backup_jobs'' (''missed_start_grace_minutes'', IntegerType, [NotNull, Default (SqlInt 15), CheckBetween 1 1440]),
   EnsureColumn ''backup_jobs'' (''max_verified_age_hours'', IntegerType, [NotNull, Default (SqlInt 26), CheckBetween 1 8760]),
   EnsureColumn ''backup_jobs'' (''long_running_warning_minutes'', IntegerType, [NotNull, Default (SqlInt 120), CheckBetween 1 10080]),
   EnsureColumn ''backup_runs'' (''execution_id'', TextType, []),
   EnsureColumn ''backup_runs'' (''attempt_id'', TextType, [])]"

definition legacy_backup_columns :: "ddl list" where
  "legacy_backup_columns =
  [TryAddColumn ''database_connections'' (''database_scope'', TextType, [NotNull, Default (SqlText ''selected'')]),
   TryAddColumn ''database_connections'' (''database_names'', TextType, [NotNull, Default (SqlText ''[]'')]),
   TryAddColumn ''database_connections'' (''connection_purpose'', TextType, [NotNull, Default (SqlText ''backup'')]),
   TryAddColumn ''users'' (''role'', TextType, [NotNull, Default (SqlText ''admin'')]),
   TryAddColumn ''backup_jobs'' (''database_scope'', TextType, [NotNull, Default (SqlText ''selected'')]),
   TryAddColumn ''backup_jobs'' (''database_names'', TextType, [NotNull, Default (SqlText ''[]'')]),
   TryAddColumn ''backup_jobs'' (''backup_layout'', TextType, [NotNull, Default (SqlText ''single'')]),
   TryAddColumn ''backup_jobs'' (''backup_objects'', TextType, [NotNull, Default (SqlText ''{}'')]),
   TryAddColumn ''backup_jobs'' (''insert_mode'', TextType, [NotNull, Default (SqlText ''extended'')]),
   TryAddColumn ''backup_jobs'' (''backup_encryption'', TextType, [NotNull, Default (SqlText ''none'')]),
   TryAddColumn ''backup_runs'' (''verification_status'', TextType, []),
   TryAddColumn ''backup_runs'' (''verification_message'', TextType, []),
   TryAddColumn ''backup_runs'' (''storage_location'', TextType, []),
   TryAddColumn ''backup_runs'' (''storage_folder'', TextType, []),
   TryAddColumn ''backup_runs'' (''storage_target_id'', TextType, []),
   TryAddColumn ''backup_runs'' (''database_connection_id'', TextType, []),
   TryAddColumn ''backup_runs'' (''database_names'', TextType, []),
   TryAddColumn ''backup_runs'' (''database_scope'', TextType, []),
   TryAddColumn ''backup_jobs'' (''retry_count'', IntegerType, [NotNull, Default (SqlInt 0)]),
   TryAddColumn ''backup_jobs'' (''retry_delay_seconds'', IntegerType, [NotNull, Default (SqlInt 300)]),
   TryAddColumn ''backup_jobs'' (''overlap_policy'', TextType, [NotNull, Default (SqlText ''skip'')]),
   TryAddColumn ''backup_runs'' (''restore_verification_status'', TextType, []),
   TryAddColumn ''backup_runs'' (''restore_verification_message'', TextType, []),
   TryAddColumn ''backup_runs'' (''attempt'', IntegerType, [NotNull, Default (SqlInt 1)]),
   TryAddColumn ''backup_runs'' (''backup_layout'', TextType, []),
   TryAddColumn ''backup_runs'' (''backup_objects'', TextType, []),
   TryAddColumn ''backup_runs'' (''expected_objects'', TextType, []),
   TryAddColumn ''backup_runs'' (''compression'', TextType, []),
   TryAddColumn ''backup_runs'' (''backup_encryption'', TextType, []),
   TryAddColumn ''backup_runs'' (''insert_mode'', TextType, []),
   TryAddColumn ''backup_runs'' (''connection_engine'', TextType, []),
   TryAddColumn ''backup_runs'' (''pitr_log_file'', TextType, []),
   TryAddColumn ''backup_runs'' (''pitr_log_position'', IntegerType, []),
   TryAddColumn ''backup_runs'' (''pitr_coordinate_at'', TextType, [])]"

definition legacy_pitr_columns :: "ddl list" where
  "legacy_pitr_columns =
  [TryAddColumn ''pitr_sources'' (''storage_target_id'', TextType, [References ''storage_targets'' SetNull]),
   TryAddColumn ''pitr_sources'' (''capture_interval_minutes'', IntegerType, [NotNull, Default (SqlInt 15)]),
   TryAddColumn ''pitr_sources'' (''last_capture_at'', TextType, []),
   TryAddColumn ''pitr_sources'' (''base_job_id'', TextType, [References ''backup_jobs'' SetNull]),
   TryAddColumn ''pitr_sources'' (''next_capture_at'', TextType, []),
   TryAddColumn ''pitr_sources'' (''last_continuous_at'', TextType, []),
   TryAddColumn ''pitr_artifacts'' (''capture_id'', TextType, []),
   TryAddColumn ''pitr_artifacts'' (''capture_kind'', TextType, [NotNull, Default (SqlText ''manual'')]),
   TryAddColumn ''pitr_artifacts'' (''log_position'', IntegerType, []),
   TryAddColumn ''pitr_artifacts'' (''log_size'', IntegerType, [])]"

definition migration :: "ddl list" where
  "migration = account_tables @ backup_tables @ recovery_tables @ control_indexes @ execution_tables
     @ execution_columns @ [RecordVersion 20261031] @ legacy_backup_columns @ legacy_pitr_columns"

section \<open>Effects\<close>

record table =
  tb_name :: string
  tb_columns :: "column list"
  tb_keys :: "string list list"

record schema =
  sc_tables :: "table list"
  sc_indexes :: "string list"
  sc_versions :: "(int \<times> time) list"

definition find_table :: "schema \<Rightarrow> string \<Rightarrow> table option" where
  "find_table s t = List.find (\<lambda>b. tb_name b = t) (sc_tables s)"

definition columns_of :: "schema \<Rightarrow> string \<Rightarrow> string list" where
  "columns_of s t = (case find_table s t of None \<Rightarrow> [] | Some b \<Rightarrow> map fst (tb_columns b))"

text \<open>SQLite adds a column only when it is not a key and has a default value if it may not be NULL.\<close>

definition is_default :: "sql_constraint \<Rightarrow> bool" where
  "is_default k = (case k of Default v \<Rightarrow> True | _ \<Rightarrow> False)"

definition addable :: "column \<Rightarrow> bool" where
  "addable c = (PrimaryKey \<notin> set (snd (snd c)) \<and> Unique \<notin> set (snd (snd c))
     \<and> (NotNull \<in> set (snd (snd c)) \<longrightarrow> list_ex is_default (snd (snd c))))"

definition extend_table :: "string \<Rightarrow> column \<Rightarrow> schema \<Rightarrow> schema" where
  "extend_table t c s = s\<lparr>sc_tables := map (\<lambda>b. if tb_name b = t then b\<lparr>tb_columns := tb_columns b @ [c]\<rparr> else b) (sc_tables s)\<rparr>"

definition add_column :: "string \<Rightarrow> column \<Rightarrow> schema \<Rightarrow> schema option" where
  "add_column t c s =
     (case find_table s t of
        None \<Rightarrow> None
      | Some b \<Rightarrow> if fst c \<in> set (columns_of s t) \<or> \<not> addable c then None else Some (extend_table t c s))"

definition run_ddl :: "time \<Rightarrow> ddl \<Rightarrow> schema \<Rightarrow> schema option" where
  "run_ddl now d s =
     (case d of
        CreateTable t cols keys \<Rightarrow>
          (case find_table s t of
             Some _ \<Rightarrow> Some s
           | None \<Rightarrow> Some (s\<lparr>sc_tables := sc_tables s @ [\<lparr>tb_name = t, tb_columns = cols, tb_keys = keys\<rparr>]\<rparr>))
      | CreateIndex i t cols \<Rightarrow>
          (if i \<in> set (sc_indexes s) then Some s
           else if find_table s t \<noteq> None \<and> set cols \<subseteq> set (columns_of s t) then Some (s\<lparr>sc_indexes := sc_indexes s @ [i]\<rparr>)
           else None)
      | EnsureColumn t c \<Rightarrow> (if fst c \<in> set (columns_of s t) then Some s else add_column t c s)
      | TryAddColumn t c \<Rightarrow> (case add_column t c s of None \<Rightarrow> Some s | Some s' \<Rightarrow> Some s')
      | RecordVersion v \<Rightarrow>
          (if v \<in> set (map fst (sc_versions s)) then Some s else Some (s\<lparr>sc_versions := sc_versions s @ [(v, now)]\<rparr>)))"

fun run_ddls :: "time \<Rightarrow> ddl list \<Rightarrow> schema \<Rightarrow> schema option" where
  "run_ddls now [] s = Some s"
| "run_ddls now (d # ds) s = (case run_ddl now d s of None \<Rightarrow> None | Some s' \<Rightarrow> run_ddls now ds s')"

definition migrate :: "time \<Rightarrow> schema \<Rightarrow> schema option" where
  "migrate now s = run_ddls now migration s"

definition empty_schema :: schema where
  "empty_schema = \<lparr>sc_tables = [], sc_indexes = [], sc_versions = []\<rparr>"

section \<open>Rows\<close>

text \<open>The connection and the destination that a schedule of an older version names itself become
  rows of their own; \<open>INSERT OR IGNORE\<close> leaves an existing row.\<close>

definition backfill_connections :: "db \<Rightarrow> db" where
  "backfill_connections d = foldl (\<lambda>d j.
     if \<exists>r \<in> set (job_connections d). jc_job r = j_id j \<and> jc_connection r = j_connection j then d
     else d\<lparr>job_connections := job_connections d @
       [\<lparr>jc_job = j_id j, jc_connection = j_connection j, jc_names = j_names j, jc_position = 0\<rparr>]\<rparr>) d (jobs d)"

definition backfill_storages :: "db \<Rightarrow> db" where
  "backfill_storages d = foldl (\<lambda>d j.
     if \<exists>r \<in> set (job_storages d). js_job r = j_id j \<and> js_target r = j_target j then d
     else d\<lparr>job_storages := job_storages d @
       [\<lparr>js_job = j_id j, js_target = j_target j, js_position = 0, js_required = True\<rparr>]\<rparr>) d (jobs d)"

section \<open>Migrated schemas\<close>

text \<open>A statement has nothing left to do.\<close>

definition settled :: "ddl \<Rightarrow> schema \<Rightarrow> bool" where
  "settled d s =
     (case d of
        CreateTable t cols keys \<Rightarrow> find_table s t \<noteq> None
      | CreateIndex i t cols \<Rightarrow> i \<in> set (sc_indexes s)
      | EnsureColumn t c \<Rightarrow> fst c \<in> set (columns_of s t)
      | TryAddColumn t c \<Rightarrow> fst c \<in> set (columns_of s t)
      | RecordVersion v \<Rightarrow> v \<in> set (map fst (sc_versions s)))"

text \<open>The columns of the table \<open>t\<close> that no statement of the migration adds: a table of an older
  version has to have them.\<close>

definition added_columns :: "ddl list \<Rightarrow> string \<Rightarrow> string list" where
  "added_columns ds t = concat (map (\<lambda>d. case d of
     EnsureColumn u c \<Rightarrow> if u = t then [fst c] else [] | TryAddColumn u c \<Rightarrow> if u = t then [fst c] else [] | _ \<Rightarrow> []) ds)"

definition created_columns :: "ddl list \<Rightarrow> string \<Rightarrow> string list" where
  "created_columns ds t = concat (map (\<lambda>d. case d of CreateTable u cols _ \<Rightarrow> if u = t then map fst cols else [] | _ \<Rightarrow> []) ds)"

definition without :: "'a list \<Rightarrow> 'a list \<Rightarrow> 'a list" where
  "without xs ys = filter (\<lambda>x. x \<notin> set ys) xs"

definition base_columns :: "ddl list \<Rightarrow> string \<Rightarrow> string list" where
  "base_columns ds t = without (created_columns ds t) (added_columns ds t)"

definition older_schema :: "schema \<Rightarrow> bool" where
  "older_schema s = (\<forall>b \<in> set (sc_tables s). set (base_columns migration (tb_name b)) \<subseteq> set (columns_of s (tb_name b)))"

end
