(* ===== verification/Schema_Props.thy ===== *)
theory Schema_Props
  imports Schema
begin

text \<open>
  The migration brings every older schema to the present one, keeps what was there, and does
  nothing when it is run again.
\<close>

section \<open>Single statements\<close>

text \<open>\<open>s\<close> is part of \<open>s'\<close>: its tables begin with the same columns, its indexes and versions are
  kept.\<close>

definition extends :: "schema \<Rightarrow> schema \<Rightarrow> bool" where
  "extends s s' = ((\<forall>t. find_table s t \<noteq> None \<longrightarrow> find_table s' t \<noteq> None \<and> (\<exists>cs. columns_of s' t = columns_of s t @ cs))
     \<and> set (sc_indexes s) \<subseteq> set (sc_indexes s') \<and> (\<exists>vs. sc_versions s' = sc_versions s @ vs))"

lemma extends_refl [simp]: "extends s s"
  by (simp add: extends_def)

lemma extends_trans: "extends s s' \<Longrightarrow> extends s' s'' \<Longrightarrow> extends s s''"
  unfolding extends_def by (metis append.assoc subset_trans)

lemma no_table_no_columns: "find_table s t = None \<Longrightarrow> columns_of s t = []"
  by (simp add: columns_of_def)

lemma extends_columns: "extends s s' \<Longrightarrow> set (columns_of s t) \<subseteq> set (columns_of s' t)"
  unfolding extends_def by (cases "find_table s t") (auto simp: no_table_no_columns)

lemma find_extend: "List.find (\<lambda>b. tb_name b = u) (map (\<lambda>b. if tb_name b = t then b\<lparr>tb_columns := tb_columns b @ [c]\<rparr> else b) bs) =
  map_option (\<lambda>b. if tb_name b = t then b\<lparr>tb_columns := tb_columns b @ [c]\<rparr> else b) (List.find (\<lambda>b. tb_name b = u) bs)"
  by (induction bs) auto

lemma find_table_name: "find_table s t = Some b \<Longrightarrow> tb_name b = t"
  by (auto simp: find_table_def find_Some_iff)

lemma find_table_extend: "find_table (extend_table t c s) u =
  map_option (\<lambda>b. if u = t then b\<lparr>tb_columns := tb_columns b @ [c]\<rparr> else b) (find_table s u)"
proof -
  have e: "find_table (extend_table t c s) u =
      map_option (\<lambda>b. if tb_name b = t then b\<lparr>tb_columns := tb_columns b @ [c]\<rparr> else b) (find_table s u)"
    by (simp add: find_table_def extend_table_def find_extend)
  show ?thesis using find_table_name [of s u] by (cases "find_table s u") (simp_all add: e)
qed

lemma columns_of_extend:
  "columns_of (extend_table t c s) u = (if u = t \<and> find_table s t \<noteq> None then columns_of s u @ [fst c] else columns_of s u)"
  by (auto simp: columns_of_def find_table_extend split: option.splits)

lemma extend_fields [simp]: "sc_indexes (extend_table t c s) = sc_indexes s" "sc_versions (extend_table t c s) = sc_versions s"
  by (simp_all add: extend_table_def)

lemma add_column_extends: "add_column t c s = Some s' \<Longrightarrow> extends s s' \<and> fst c \<in> set (columns_of s' t)"
  by (auto simp: add_column_def extends_def columns_of_extend find_table_extend split: option.splits if_splits)

lemma add_column_works: "find_table s t \<noteq> None \<Longrightarrow> addable c \<Longrightarrow> fst c \<notin> set (columns_of s t) \<Longrightarrow>
  add_column t c s = Some (extend_table t c s) \<and> fst c \<in> set (columns_of (extend_table t c s) t)"
  by (auto simp: add_column_def columns_of_extend split: option.splits)

lemma add_column_known: "fst c \<in> set (columns_of s t) \<Longrightarrow> add_column t c s = None"
  by (simp add: add_column_def split: option.splits)

lemma find_table_create: "find_table (s\<lparr>sc_tables := sc_tables s @ [b]\<rparr>) u =
  (case find_table s u of None \<Rightarrow> if tb_name b = u then Some b else None | Some x \<Rightarrow> Some x)"
  by (simp add: find_table_def find_append split: option.splits del: find_key_None)

lemma find_table_other [simp]:
  "find_table (s\<lparr>sc_indexes := i\<rparr>) u = find_table s u" "find_table (s\<lparr>sc_versions := v\<rparr>) u = find_table s u"
  "columns_of (s\<lparr>sc_indexes := i\<rparr>) u = columns_of s u" "columns_of (s\<lparr>sc_versions := v\<rparr>) u = columns_of s u"
  by (simp_all add: find_table_def columns_of_def)

lemma run_ddl_extends: "run_ddl now d s = Some s' \<Longrightarrow> extends s s'"
proof (cases d)
  case (CreateTable t cols keys)
  assume "run_ddl now d s = Some s'"
  with CreateTable show ?thesis
    by (auto simp: run_ddl_def extends_def find_table_create columns_of_def split: option.splits)
next
  case (CreateIndex i t cols)
  assume "run_ddl now d s = Some s'"
  with CreateIndex show ?thesis
    by (auto simp: run_ddl_def extends_def split: if_splits)
next
  case (RecordVersion v)
  assume "run_ddl now d s = Some s'"
  with RecordVersion show ?thesis
    by (auto simp: run_ddl_def extends_def split: if_splits)
qed (auto simp: run_ddl_def dest: add_column_extends split: if_splits option.splits)

lemma settled_extends: "settled d s \<Longrightarrow> extends s s' \<Longrightarrow> settled d s'"
  using extends_columns [of s s'] by (cases d) (auto simp: settled_def extends_def)

lemma settled_run: "settled d s \<Longrightarrow> run_ddl now d s = Some s"
  by (cases d) (auto simp: settled_def run_ddl_def add_column_def columns_of_def split: option.splits)

lemma run_settled: "\<forall>d \<in> set ds. settled d s \<Longrightarrow> run_ddls now ds s = Some s"
  by (induction ds) (simp_all add: settled_run)

section \<open>The sequence\<close>

text \<open>A sequence in which every index and every added column comes after its table, the columns of
  an index are not added, and every added column can be added. \<open>base\<close> are the columns that an
  existing table has.\<close>

fun well_ordered :: "(string \<Rightarrow> string list) \<Rightarrow> string list \<Rightarrow> ddl list \<Rightarrow> bool" where
  "well_ordered base made [] = True"
| "well_ordered base made (d # ds) =
     (case d of
        CreateTable t cols keys \<Rightarrow> well_ordered base (t # made) ds
      | CreateIndex i t cols \<Rightarrow> t \<in> set made \<and> list_all (\<lambda>c. c \<in> set (base t)) cols \<and> well_ordered base made ds
      | EnsureColumn t c \<Rightarrow> t \<in> set made \<and> addable c \<and> well_ordered base made ds
      | TryAddColumn t c \<Rightarrow> t \<in> set made \<and> addable c \<and> well_ordered base made ds
      | RecordVersion v \<Rightarrow> well_ordered base made ds)"

definition has_base :: "(string \<Rightarrow> string list) \<Rightarrow> schema \<Rightarrow> bool" where
  "has_base base s = (\<forall>t. find_table s t \<noteq> None \<longrightarrow> set (base t) \<subseteq> set (columns_of s t))"

lemma has_base_made: "has_base base s \<Longrightarrow> extends s s' \<Longrightarrow> find_table s t \<noteq> None \<Longrightarrow> set (base t) \<subseteq> set (columns_of s' t)"
  using extends_columns [of s s' t] by (auto simp: has_base_def)

lemma find_table_run: "run_ddl now d s = Some s' \<Longrightarrow> find_table s' t \<noteq> None \<Longrightarrow>
  find_table s t \<noteq> None \<or> (\<exists>cols keys. d = CreateTable t cols keys \<and> columns_of s' t = map fst cols)"
  by (cases d) (auto simp: run_ddl_def find_table_create columns_of_def add_column_def find_table_extend split: option.splits if_splits)

lemma well_ordered_step:
  assumes "well_ordered base made (d # ds)" and "has_base base s" and "\<forall>t \<in> set made. find_table s t \<noteq> None"
    and creates: "\<And>t cols keys. d = CreateTable t cols keys \<Longrightarrow> set (base t) \<subseteq> set (map fst cols)"
  obtains s' made' where "run_ddl now d s = Some s'" "settled d s'" "has_base base s'" "well_ordered base made' ds"
    "\<forall>t \<in> set made'. find_table s' t \<noteq> None"
proof -
  have "\<exists>s'. run_ddl now d s = Some s' \<and> settled d s'"
  proof (cases d)
    case (CreateTable t cols keys)
    then show ?thesis by (auto simp: run_ddl_def settled_def find_table_create split: option.splits)
  next
    case (CreateIndex i t cols)
    with assms have "find_table s t \<noteq> None" "set cols \<subseteq> set (base t)" by (auto simp: list_all_iff)
    moreover from this assms(2) have "set (base t) \<subseteq> set (columns_of s t)" by (simp add: has_base_def)
    ultimately show ?thesis using CreateIndex by (simp add: run_ddl_def settled_def) blast
  next
    case (EnsureColumn t c)
    with assms have "find_table s t \<noteq> None" "addable c" by auto
    with add_column_works [of s t c] EnsureColumn show ?thesis
      by (cases "fst c \<in> set (columns_of s t)") (auto simp: run_ddl_def settled_def add_column_known)
  next
    case (TryAddColumn t c)
    with assms have "find_table s t \<noteq> None" "addable c" by auto
    with add_column_works [of s t c] TryAddColumn show ?thesis
      by (cases "fst c \<in> set (columns_of s t)") (auto simp: run_ddl_def settled_def add_column_known)
  qed (auto simp: run_ddl_def settled_def)
  then obtain s' where s': "run_ddl now d s = Some s'" "settled d s'" by blast
  note ext = run_ddl_extends [OF s'(1)]
  have base: "has_base base s'"
    unfolding has_base_def
  proof (intro allI impI)
    fix t assume "find_table s' t \<noteq> None"
    from find_table_run [OF s'(1) this] show "set (base t) \<subseteq> set (columns_of s' t)"
    proof
      assume "find_table s t \<noteq> None"
      with has_base_made [OF assms(2) ext] show ?thesis by blast
    next
      assume "\<exists>cols keys. d = CreateTable t cols keys \<and> columns_of s' t = map fst cols"
      with creates show ?thesis by auto
    qed
  qed
  have old: "\<forall>t \<in> set made. find_table s' t \<noteq> None" using assms(3) ext by (auto simp: extends_def)
  show thesis
  proof (cases d)
    case (CreateTable t cols keys)
    with s'(2) old have "\<forall>t \<in> set (t # made). find_table s' t \<noteq> None" by (auto simp: settled_def)
    with s' base that [of s' "t # made"] assms(1) CreateTable show thesis by simp
  qed (use s' base old that [of s' made] assms(1) in simp_all)
qed

lemma well_ordered_runs:
  "well_ordered base made ds \<Longrightarrow> has_base base s \<Longrightarrow> \<forall>t \<in> set made. find_table s t \<noteq> None \<Longrightarrow>
     \<forall>t cols keys. CreateTable t cols keys \<in> set ds \<longrightarrow> set (base t) \<subseteq> set (map fst cols) \<Longrightarrow>
     \<exists>s'. run_ddls now ds s = Some s' \<and> extends s s' \<and> has_base base s' \<and> (\<forall>d \<in> set ds. settled d s')"
proof (induction ds arbitrary: made s)
  case (Cons d ds)
  have creates: "set (base t) \<subseteq> set (map fst cols)" if "d = CreateTable t cols keys" for t cols keys
    using Cons.prems(4) that by auto
  obtain s1 made1 where s1: "run_ddl now d s = Some s1" "settled d s1" "has_base base s1"
    "well_ordered base made1 ds" "\<forall>t \<in> set made1. find_table s1 t \<noteq> None"
    by (rule well_ordered_step [OF Cons.prems(1-3) creates])
  have "\<forall>t cols keys. CreateTable t cols keys \<in> set ds \<longrightarrow> set (base t) \<subseteq> set (map fst cols)"
    using Cons.prems(4) by auto
  from Cons.IH [OF s1(4,3,5) this] obtain s' where s': "run_ddls now ds s1 = Some s'" "extends s1 s'" "has_base base s'" "\<forall>d \<in> set ds. settled d s'"
    by blast
  have "extends s s'" using run_ddl_extends [OF s1(1)] s'(2) by (rule extends_trans)
  moreover have "settled d s'" using s1(2) s'(2) by (rule settled_extends)
  ultimately show ?case using s1(1) s' by auto
qed simp

lemma migration_ordered: "well_ordered (base_columns migration) [] migration"
  by code_simp

section \<open>The migration\<close>

lemma older_has_base: "older_schema s \<Longrightarrow> has_base (base_columns migration) s"
  unfolding older_schema_def has_base_def find_table_def by (auto simp: find_Some_iff simp del: find_key_None)

definition table_names :: "ddl list \<Rightarrow> string list" where
  "table_names ds = concat (map (\<lambda>d. case d of CreateTable t cols keys \<Rightarrow> [t] | _ \<Rightarrow> []) ds)"

lemma table_names_distinct: "distinct (table_names migration)"
  by code_simp

lemma not_created: "t \<notin> set (table_names ds) \<Longrightarrow> created_columns ds t = []"
  by (induction ds) (auto simp: table_names_def created_columns_def split: ddl.splits)

lemma created_once: "CreateTable t cols keys \<in> set ds \<Longrightarrow> distinct (table_names ds) \<Longrightarrow> created_columns ds t = map fst cols"
proof (induction ds)
  case (Cons d ds)
  have parts: "created_columns (d # ds) t = created_columns [d] t @ created_columns ds t" "table_names (d # ds) = table_names [d] @ table_names ds"
    by (simp_all add: created_columns_def table_names_def)
  show ?case
  proof (cases "d = CreateTable t cols keys")
    case True
    with Cons.prems(2) parts not_created [of t ds] show ?thesis by (simp add: created_columns_def [of "[_]"] table_names_def [of "[_]"])
  next
    case False
    with Cons.prems(1) have m: "CreateTable t cols keys \<in> set ds" by simp
    then have "t \<in> set (table_names ds)" by (force simp: table_names_def)
    with Cons.prems(2) parts have "t \<notin> set (table_names [d])" by auto
    with Cons.IH [OF m] Cons.prems(2) parts not_created [of t "[d]"] show ?thesis by simp
  qed
qed simp

lemma migration_creates:
  "\<forall>t cols keys. CreateTable t cols keys \<in> set migration \<longrightarrow> set (base_columns migration t) \<subseteq> set (map fst cols)"
  using created_once [OF _ table_names_distinct] by (auto simp: base_columns_def without_def)

lemma created_columns_mem: "CreateTable t cols keys \<in> set ds \<Longrightarrow> set (map fst cols) \<subseteq> set (created_columns ds t)"
  by (force simp: created_columns_def)

lemma added_column_settled: "c \<in> set (added_columns ds t) \<Longrightarrow> \<forall>d \<in> set ds. settled d s \<Longrightarrow> c \<in> set (columns_of s t)"
proof -
  assume "c \<in> set (added_columns ds t)" and all: "\<forall>d \<in> set ds. settled d s"
  then obtain d where d: "d \<in> set ds" and c: "c \<in> set (case d of
     EnsureColumn u c \<Rightarrow> if u = t then [fst c] else [] | TryAddColumn u c \<Rightarrow> if u = t then [fst c] else [] | _ \<Rightarrow> [])"
    by (auto simp: added_columns_def)
  from all d have "settled d s" by blast
  with c show "c \<in> set (columns_of s t)" by (cases d) (auto simp: settled_def split: if_splits)
qed


text \<open>A database from before roles were introduced.\<close>

definition first_schema :: schema where
  "first_schema = \<lparr>sc_tables = [\<lparr>tb_name = ''users'', tb_columns =
     [(''id'', TextType, [PrimaryKey]), (''username'', TextType, [Unique, NotNull]), (''password_hash'', TextType, [NotNull]),
      (''created_at'', TextType, [NotNull]), (''last_login_at'', TextType, [])], tb_keys = []\<rparr>], sc_indexes = [], sc_versions = []\<rparr>"

lemma first_schema_older: "older_schema first_schema"
proof -
  have "list_all (\<lambda>b. list_all (\<lambda>c. c \<in> set (columns_of first_schema (tb_name b))) (base_columns migration (tb_name b))) (sc_tables first_schema)"
    by code_simp
  then show ?thesis by (auto simp: older_schema_def list_all_iff)
qed


end
