(* ===== verification/Sqlite_File.thy ===== *)
theory Sqlite_File
  imports Prelude
begin

text \<open>
  The database file (\<open>src/database/database.service.ts\<close>, class \<open>SqliteFile\<close>): an sql.js
  database in memory, nested transactions that restore a snapshot on failure, and the write of the
  whole database to disk by a temporary file and a rename. A database is a value of type \<open>'db\<close>:
  \<open>export\<close> and the constructor of sql.js are inverse to each other. Every call of the file system
  may fail; \<open>en_fails n c\<close> says that the call \<open>c\<close> of the \<open>n\<close>-th write throws, and \<open>en_uuid n\<close>
  is the UUID that it draws.
\<close>

section \<open>Files\<close>

text \<open>The content of a file that is not written completely is \<open>None\<close>; \<open>fl_synced\<close> is whether the
  content has reached the disk.\<close>

record 'db disk_file =
  fl_mode :: nat
  fl_content :: "'db option"
  fl_synced :: bool

type_synonym 'db disk = "string \<Rightarrow> 'db disk_file option"

datatype fs_call = OpenTemp | ChmodTemp | WriteTemp | SyncTemp | CloseTemp | RenameTemp | CloseAgain | RemoveTemp

record fs_env =
  en_path :: string
  en_uuid :: "nat \<Rightarrow> string"
  en_fails :: "nat \<Rightarrow> fs_call \<Rightarrow> bool"

text \<open>A new file gets the mode \<open>0o600\<close>.\<close>

definition temporary :: "fs_env \<Rightarrow> nat \<Rightarrow> string" where
  "temporary env n = en_path env @ ''.'' @ en_uuid env n @ ''.tmp''"

definition persist_mode :: "string \<Rightarrow> 'db disk \<Rightarrow> nat" where
  "persist_mode path d = (case d path of Some f \<Rightarrow> fl_mode f | None \<Rightarrow> 384)"

definition on_file :: "string \<Rightarrow> ('db disk_file \<Rightarrow> 'db disk_file) \<Rightarrow> 'db disk \<Rightarrow> 'db disk" where
  "on_file p g d = (case d p of None \<Rightarrow> d | Some f \<Rightarrow> d(p \<mapsto> g f))"

text \<open>The effect of a call that succeeds.\<close>

definition fs_effect :: "string \<Rightarrow> string \<Rightarrow> nat \<Rightarrow> 'db \<Rightarrow> fs_call \<Rightarrow> 'db disk \<Rightarrow> 'db disk" where
  "fs_effect path temp mode db c d =
     (case c of
        OpenTemp \<Rightarrow> d(temp \<mapsto> \<lparr>fl_mode = mode, fl_content = None, fl_synced = False\<rparr>)
      | ChmodTemp \<Rightarrow> on_file temp (fl_mode_update (\<lambda>_. mode)) d
      | WriteTemp \<Rightarrow> on_file temp (fl_content_update (\<lambda>_. Some db)) d
      | SyncTemp \<Rightarrow> on_file temp (fl_synced_update (\<lambda>_. True)) d
      | RenameTemp \<Rightarrow> d(path := d temp, temp := None)
      | RemoveTemp \<Rightarrow> d(temp := None)
      | CloseTemp \<Rightarrow> d
      | CloseAgain \<Rightarrow> d)"

text \<open>A call fails when the system says so; \<open>wx\<close> fails on an existing file, and \<open>rmSync\<close> with
  \<open>force\<close> does not fail on a missing one.\<close>

definition call_fails :: "string \<Rightarrow> (fs_call \<Rightarrow> bool) \<Rightarrow> fs_call \<Rightarrow> 'db disk \<Rightarrow> bool" where
  "call_fails temp fails c d =
     (case c of OpenTemp \<Rightarrow> fails c \<or> d temp \<noteq> None | RemoveTemp \<Rightarrow> fails c \<and> d temp \<noteq> None | _ \<Rightarrow> fails c)"

text \<open>The calls up to the first one that fails: the calls that succeeded, the one that failed, and
  the disk after each of them, the latest first.\<close>

fun fs_run :: "(fs_call \<Rightarrow> 'db disk \<Rightarrow> bool) \<Rightarrow> (fs_call \<Rightarrow> 'db disk \<Rightarrow> 'db disk) \<Rightarrow> fs_call list \<Rightarrow> 'db disk \<Rightarrow>
    fs_call option \<times> fs_call list \<times> 'db disk list \<times> 'db disk" where
  "fs_run bad eff [] d = (None, [], [d], d)"
| "fs_run bad eff (c # cs) d =
     (if bad c d then (Some c, [], [d], d)
      else case fs_run bad eff cs (eff c d) of (e, ok, ds, d') \<Rightarrow> (e, c # ok, d # ds, d'))"

definition persist_calls :: "fs_call list" where
  "persist_calls = [OpenTemp, ChmodTemp, WriteTemp, SyncTemp, CloseTemp, RenameTemp]"

text \<open>The \<open>finally\<close> block: the descriptor is closed when it is still open, and the temporary file
  is removed.\<close>

definition cleanup_calls :: "fs_call list \<Rightarrow> fs_call list" where
  "cleanup_calls ok = (if OpenTemp \<in> set ok \<and> CloseTemp \<notin> set ok then [CloseAgain, RemoveTemp] else [RemoveTemp])"

text \<open>\<open>persist\<close>: the failed call (an exception of the \<open>finally\<close> block replaces the earlier one),
  the disks it went through and the last one. The synchronisation of the directory after the rename
  is best effort: its failure is caught and it does not change the files.\<close>

definition write_file :: "string \<Rightarrow> string \<Rightarrow> (fs_call \<Rightarrow> bool) \<Rightarrow> 'db \<Rightarrow> 'db disk \<Rightarrow> fs_call option \<times> 'db disk list \<times> 'db disk" where
  "write_file path temp fails db d =
     (let bad = call_fails temp fails; eff = fs_effect path temp (persist_mode path d) db in
      case fs_run bad eff persist_calls d of (e, ok, ds, d1) \<Rightarrow>
      case fs_run bad eff (cleanup_calls ok) d1 of (e', ok', ds', d2) \<Rightarrow>
        (case e' of Some c \<Rightarrow> Some c | None \<Rightarrow> e, ds @ ds', d2))"

section \<open>The object\<close>

text \<open>\<open>sq_writes\<close> counts the writes and \<open>sq_history\<close> records the disks they went through; both
  only serve the model.\<close>

record 'db sqlite_file =
  sq_native :: 'db
  sq_depth :: nat
  sq_opened :: bool
  sq_disk :: "'db disk"
  sq_writes :: nat
  sq_history :: "'db disk list"

datatype db_error = AsyncTransaction | DiskFailure fs_call | WorkError string

type_synonym ('db, 'a) act = "'db sqlite_file \<Rightarrow> (db_error + 'a) \<times> 'db sqlite_file"

definition persist :: "fs_env \<Rightarrow> ('db, unit) act" where
  "persist env s =
     (case write_file (en_path env) (temporary env (sq_writes s)) (en_fails env (sq_writes s)) (sq_native s) (sq_disk s) of
        (e, ds, d) \<Rightarrow> (case e of None \<Rightarrow> Inr () | Some c \<Rightarrow> Inl (DiskFailure c),
          s\<lparr>sq_disk := d, sq_writes := Suc (sq_writes s), sq_history := sq_history s @ ds\<rparr>))"

text \<open>\<open>transaction\<close>: \<open>async\<close> is whether the callback is an async function and \<open>thenable\<close> whether a
  value has a \<open>then\<close> method.\<close>

definition transaction :: "fs_env \<Rightarrow> bool \<Rightarrow> ('a \<Rightarrow> bool) \<Rightarrow> ('db, 'a) act \<Rightarrow> ('db, 'a) act" where
  "transaction env async thenable work s =
     (if async then (Inl AsyncTransaction, s)
      else
        let before = sq_native s;
            (r1, s1) = work (s\<lparr>sq_depth := Suc (sq_depth s)\<rparr>);
            (r2, s2) = (case r1 of
                Inl e \<Rightarrow> (Inl e, s1)
              | Inr v \<Rightarrow> if thenable v then (Inl AsyncTransaction, s1)
                         else if sq_depth s1 = 1
                         then (case persist env s1 of (Inl e, s2) \<Rightarrow> (Inl e, s2) | (Inr _, s2) \<Rightarrow> (Inr v, s2))
                         else (Inr v, s1));
            s3 = (case r2 of Inl _ \<Rightarrow> s2\<lparr>sq_native := before\<rparr> | Inr _ \<Rightarrow> s2)
        in (r2, s3\<lparr>sq_depth := sq_depth s3 - 1\<rparr>))"

text \<open>A statement is a function on databases that may throw; \<open>execute\<close> returns the number of
  changed rows.\<close>

type_synonym 'db statement = "'db \<Rightarrow> string + ('db \<times> nat)"

definition native_run :: "'db statement \<Rightarrow> ('db, nat) act" where
  "native_run f s = (case f (sq_native s) of Inl e \<Rightarrow> (Inl (WorkError e), s) | Inr (db, n) \<Rightarrow> (Inr n, s\<lparr>sq_native := db\<rparr>))"

definition execute :: "fs_env \<Rightarrow> 'db statement \<Rightarrow> ('db, nat) act" where
  "execute env f = transaction env False (\<lambda>_. False) (native_run f)"

definition query_all :: "('db \<Rightarrow> string + 'row list) \<Rightarrow> ('db, 'row list) act" where
  "query_all q s = (case q (sq_native s) of Inl e \<Rightarrow> (Inl (WorkError e), s) | Inr rows \<Rightarrow> (Inr rows, s))"

definition query_one :: "('db \<Rightarrow> string + 'row list) \<Rightarrow> ('db, 'row option) act" where
  "query_one q s = (case query_all q s of
     (Inl e, s') \<Rightarrow> (Inl e, s') | (Inr [], s') \<Rightarrow> (Inr None, s') | (Inr (r # _), s') \<Rightarrow> (Inr (Some r), s'))"

definition open_file :: "'db \<Rightarrow> 'db sqlite_file \<Rightarrow> 'db sqlite_file" where
  "open_file db s = s\<lparr>sq_native := db, sq_opened := True\<rparr>"

definition close_file :: "fs_env \<Rightarrow> bool \<Rightarrow> ('db, unit) act" where
  "close_file env save s =
     (if \<not> sq_opened s then (Inr (), s)
      else case (if save then persist env s else (Inr (), s)) of
             (Inl e, s1) \<Rightarrow> (Inl e, s1) | (Inr _, s1) \<Rightarrow> (Inr (), s1\<lparr>sq_opened := False\<rparr>))"

chapter \<open>Properties\<close>

text \<open>
  What the database file promises: a transaction commits in memory and on disk or leaves both as
  they were, and a crash at any moment leaves a complete database on disk.
\<close>

section \<open>Writing the file\<close>

text \<open>The file that a successful write leaves.\<close>

definition saved_file :: "string \<Rightarrow> 'db disk \<Rightarrow> 'db \<Rightarrow> 'db disk_file" where
  "saved_file path d db = \<lparr>fl_mode = persist_mode path d, fl_content = Some db, fl_synced = True\<rparr>"

lemma fs_run_disks: "fs_run bad eff cs d = (e, ok, ds, d') \<Longrightarrow> d' \<in> set ds \<and> d \<in> set ds"
  by (induction cs arbitrary: d e ok ds d') (auto split: if_splits prod.splits)

lemma cleanup_effect:
  assumes "temp \<noteq> path" and "fs_run (call_fails temp fails) (fs_effect path temp mode db) (cleanup_calls ok) d1 = (e', ok', ds', d2)"
  shows "d2 path = d1 path \<and> (\<forall>x \<in> set ds'. x path = d1 path) \<and> (d1 temp = None \<longrightarrow> CloseTemp \<in> set ok \<longrightarrow> e' = None)
     \<and> (e' = None \<longrightarrow> d2 temp = None)"
  using assms by (auto simp: cleanup_calls_def call_fails_def fs_effect_def split: if_splits)

lemma body_effect:
  assumes "temp \<noteq> path" and "mode = persist_mode path d"
    and "fs_run (call_fails temp fails) (fs_effect path temp mode db) persist_calls d = (e, ok, ds, d1)"
  shows "(\<forall>x \<in> set ds. x path = d path \<or> x path = Some (saved_file path d db))
     \<and> (case e of None \<Rightarrow> d1 path = Some (saved_file path d db) \<and> d1 temp = None \<and> CloseTemp \<in> set ok
        | Some c \<Rightarrow> d1 path = d path \<and> (\<forall>x \<in> set ds. x path = d path))"
  using assms by (auto simp: persist_calls_def call_fails_def fs_effect_def on_file_def saved_file_def split: if_splits)

lemma write_file_effect:
  assumes "temp \<noteq> path" and "write_file path temp fails db d = (e, ds, d')"
  shows "(\<forall>x \<in> set ds. x path = d path \<or> x path = Some (saved_file path d db))
     \<and> (case e of None \<Rightarrow> d' path = Some (saved_file path d db)
        | Some c \<Rightarrow> d' path = d path \<and> (\<forall>x \<in> set ds. x path = d path))"
proof -
  let ?bad = "call_fails temp fails" and ?eff = "fs_effect path temp (persist_mode path d) db"
  obtain e1 ok ds1 d1 where body: "fs_run ?bad ?eff persist_calls d = (e1, ok, ds1, d1)" by (metis prod_cases4)
  obtain e2 ok' ds2 d2 where clean: "fs_run ?bad ?eff (cleanup_calls ok) d1 = (e2, ok', ds2, d2)" by (metis prod_cases4)
  from assms(2) have r: "e = (case e2 of Some c \<Rightarrow> Some c | None \<Rightarrow> e1)" "ds = ds1 @ ds2" "d' = d2"
    by (simp_all add: write_file_def body clean)
  note b = body_effect [OF assms(1) refl body] and c = cleanup_effect [OF assms(1) clean]
  have "d1 path = d path \<or> d1 path = Some (saved_file path d db)" using b by (auto split: option.splits)
  with b c show ?thesis by (cases e1; cases e2) (auto simp: r)
qed

section \<open>Synchronous work\<close>

text \<open>The callbacks of a transaction: statements, queries that decide how to go on, exceptions that
  are thrown or caught, and inner transactions.\<close>

datatype 'db work =
    Pass
  | Throw string
  | Statement "'db statement"
  | Choose "'db \<Rightarrow> bool" "'db work" "'db work"
  | Then "'db work" "'db work"
  | Catch "'db work" "'db work"
  | Atomically "'db work"

definition and_then :: "('db, unit) act \<Rightarrow> ('db, unit) act \<Rightarrow> ('db, unit) act" where
  "and_then f g s = (case f s of (Inl e, s1) \<Rightarrow> (Inl e, s1) | (Inr _, s1) \<Rightarrow> g s1)"

definition on_error :: "('db, unit) act \<Rightarrow> ('db, unit) act \<Rightarrow> ('db, unit) act" where
  "on_error f g s = (case f s of (Inl e, s1) \<Rightarrow> g s1 | (Inr _, s1) \<Rightarrow> (Inr (), s1))"

definition ignore_value :: "('db, 'a) act \<Rightarrow> ('db, unit) act" where
  "ignore_value f s = (case f s of (Inl e, s1) \<Rightarrow> (Inl e, s1) | (Inr _, s1) \<Rightarrow> (Inr (), s1))"

fun run_work :: "fs_env \<Rightarrow> 'db work \<Rightarrow> ('db, unit) act" where
  "run_work env Pass = (\<lambda>s. (Inr (), s))"
| "run_work env (Throw e) = (\<lambda>s. (Inl (WorkError e), s))"
| "run_work env (Statement f) = ignore_value (execute env f)"
| "run_work env (Choose q v w) = (\<lambda>s. if q (sq_native s) then run_work env v s else run_work env w s)"
| "run_work env (Then v w) = and_then (run_work env v) (run_work env w)"
| "run_work env (Catch v w) = on_error (run_work env v) (run_work env w)"
| "run_work env (Atomically w) = transaction env False (\<lambda>_. False) (run_work env w)"

text \<open>The specification: a database is a value, and a transaction that fails has changed nothing.\<close>

fun work_spec :: "'db work \<Rightarrow> 'db \<Rightarrow> (db_error + unit) \<times> 'db" where
  "work_spec Pass db = (Inr (), db)"
| "work_spec (Throw e) db = (Inl (WorkError e), db)"
| "work_spec (Statement f) db = (case f db of Inl e \<Rightarrow> (Inl (WorkError e), db) | Inr (db', n) \<Rightarrow> (Inr (), db'))"
| "work_spec (Choose q v w) db = (if q db then work_spec v db else work_spec w db)"
| "work_spec (Then v w) db = (case work_spec v db of (Inl e, db') \<Rightarrow> (Inl e, db') | (Inr _, db') \<Rightarrow> work_spec w db')"
| "work_spec (Catch v w) db = (case work_spec v db of (Inl e, db') \<Rightarrow> work_spec w db' | (Inr _, db') \<Rightarrow> (Inr (), db'))"
| "work_spec (Atomically w) db = (case work_spec w db of (Inl e, db') \<Rightarrow> (Inl e, db) | (Inr _, db') \<Rightarrow> (Inr (), db'))"

text \<open>An action inside a transaction follows a specification: it neither writes the file nor
  leaves a transaction open.\<close>

definition follows :: "('db, 'a) act \<Rightarrow> ('db \<Rightarrow> (db_error + 'a) \<times> 'db) \<Rightarrow> bool" where
  "follows f g = (\<forall>s. 0 < sq_depth s \<longrightarrow> f s = (case g (sq_native s) of (r, db) \<Rightarrow> (r, s\<lparr>sq_native := db\<rparr>)))"

lemma nested_transaction:
  assumes "follows work g"
  shows "follows (transaction env False (\<lambda>_. False) work)
     (\<lambda>db. case g db of (Inl e, db') \<Rightarrow> (Inl e, db) | (Inr v, db') \<Rightarrow> (Inr v, db'))"
  using assms by (auto simp: follows_def transaction_def Let_def split: prod.splits sum.splits)

lemma native_run_follows:
  "follows (native_run f) (\<lambda>db. case f db of Inl e \<Rightarrow> (Inl (WorkError e), db) | Inr (db', n) \<Rightarrow> (Inr n, db'))"
  by (auto simp: follows_def native_run_def split: sum.splits prod.splits)

lemma follows_execute:
  "follows (execute env f) (\<lambda>db. case f db of Inl e \<Rightarrow> (Inl (WorkError e), db) | Inr (db', n) \<Rightarrow> (Inr n, db'))"
  using nested_transaction [OF native_run_follows [of f], of env]
  by (auto simp: execute_def follows_def split: sum.splits prod.splits)

lemma run_work_follows: "follows (run_work env w) (work_spec w)"
proof (induction w)
  case (Statement f)
  show ?case using follows_execute [of env f]
    by (auto simp: follows_def ignore_value_def split: sum.splits prod.splits)
next
  case (Then v w)
  then show ?case by (auto simp: follows_def and_then_def split: sum.splits prod.splits)
next
  case (Catch v w)
  then show ?case by (auto simp: follows_def on_error_def split: sum.splits prod.splits)
next
  case (Atomically w)
  show ?case using nested_transaction [OF Atomically.IH, of env] by (auto simp: follows_def split: sum.splits prod.splits)
qed (auto simp: follows_def)

section \<open>Transactions are atomic\<close>

lemma temporary_differs: "temporary env n \<noteq> en_path env"
  by (simp add: temporary_def)

text \<open>The outermost transaction, by the outcome of its work and of its write.\<close>

lemma outer_transaction:
  assumes "sq_depth s = 0"
  shows "transaction env False (\<lambda>_. False) (run_work env w) s =
    (case work_spec w (sq_native s) of
       (Inl e, db) \<Rightarrow> (Inl e, s)
     | (Inr _, db) \<Rightarrow>
         (case write_file (en_path env) (temporary env (sq_writes s)) (en_fails env (sq_writes s)) db (sq_disk s) of
            (e, ds, d) \<Rightarrow> let s' = s\<lparr>sq_disk := d, sq_writes := Suc (sq_writes s), sq_history := sq_history s @ ds\<rparr>
              in case e of None \<Rightarrow> (Inr (), s'\<lparr>sq_native := db\<rparr>) | Some c \<Rightarrow> (Inl (DiskFailure c), s')))"
proof -
  have "run_work env w (s\<lparr>sq_depth := Suc 0\<rparr>) =
    (case work_spec w (sq_native s) of (r, db) \<Rightarrow> (r, s\<lparr>sq_depth := Suc 0, sq_native := db\<rparr>))"
    using run_work_follows [of env w] unfolding follows_def by (simp split: prod.splits)
  with assms show ?thesis
    by (auto simp: transaction_def persist_def Let_def split: sum.splits prod.splits option.splits)
qed

text \<open>C4: A transaction of the database file implements the atomic update of a value. Whatever its
  callback does (statements, queries, exceptions thrown and caught, inner transactions) and whatever
  calls of the file system fail: when it returns, memory is the result that the specification gives,
  and exactly this database is on disk, completely written and synchronised; when it throws, memory
  and the file on disk are what they were, and either the specification throws as well or the write
  failed.\<close>

theorem transaction_commits_atomically:
  assumes "sq_depth s = 0"
  shows "case transaction env False (\<lambda>_. False) (run_work env w) s of (r, s') \<Rightarrow>
    sq_depth s' = 0
    \<and> (case r of
         Inr _ \<Rightarrow> work_spec (Atomically w) (sq_native s) = (Inr (), sq_native s')
             \<and> sq_disk s' (en_path env) = Some (saved_file (en_path env) (sq_disk s) (sq_native s'))
       | Inl e \<Rightarrow> sq_native s' = sq_native s \<and> sq_disk s' (en_path env) = sq_disk s (en_path env)
             \<and> (fst (work_spec (Atomically w) (sq_native s)) = Inl e \<or> (\<exists>c. e = DiskFailure c)))"
proof -
  obtain r db where spec: "work_spec w (sq_native s) = (r, db)" by (cases "work_spec w (sq_native s)")
  obtain e ds d where run: "write_file (en_path env) (temporary env (sq_writes s)) (en_fails env (sq_writes s)) db (sq_disk s) = (e, ds, d)"
    by (metis prod_cases3)
  from write_file_effect [OF temporary_differs run] assms show ?thesis
    by (cases r; cases e) (simp_all add: outer_transaction spec run Let_def)
qed

section \<open>Crashes\<close>

definition complete_file :: "'db \<Rightarrow> 'db disk_file option \<Rightarrow> bool" where
  "complete_file db f = (case f of None \<Rightarrow> False | Some f \<Rightarrow> fl_synced f \<and> fl_content f = Some db)"

definition consistent_file :: "fs_env \<Rightarrow> 'db sqlite_file \<Rightarrow> bool" where
  "consistent_file env s = (sq_depth s = 0 \<and> complete_file (sq_native s) (sq_disk s (en_path env)))"

definition run_all :: "fs_env \<Rightarrow> 'db work list \<Rightarrow> 'db sqlite_file \<Rightarrow> 'db sqlite_file" where
  "run_all env ws s = foldl (\<lambda>s w. snd (transaction env False (\<lambda>_. False) (run_work env w) s)) s ws"

lemma complete_saved_file [simp]: "complete_file db (Some (saved_file path d db))"
  by (simp add: complete_file_def saved_file_def)

lemma one_transaction:
  assumes "consistent_file env s" and "snd (transaction env False (\<lambda>_. False) (run_work env w) s) = s'"
  shows "consistent_file env s' \<and> (\<exists>ds. sq_history s' = sq_history s @ ds
    \<and> (\<forall>d \<in> set ds. complete_file (sq_native s) (d (en_path env)) \<or> complete_file (sq_native s') (d (en_path env))))"
proof -
  have depth: "sq_depth s = 0" and saved: "complete_file (sq_native s) (sq_disk s (en_path env))"
    using assms(1) by (simp_all add: consistent_file_def)
  obtain r db where spec: "work_spec w (sq_native s) = (r, db)" by (cases "work_spec w (sq_native s)")
  obtain e ds d where run: "write_file (en_path env) (temporary env (sq_writes s)) (en_fails env (sq_writes s)) db (sq_disk s) = (e, ds, d)"
    by (metis prod_cases3)
  note effect = write_file_effect [OF temporary_differs run]
  show ?thesis
  proof (cases r)
    case (Inl x)
    with assms(2) depth spec have "s' = s" by (simp add: outer_transaction)
    with assms(1) show ?thesis by simp
  next
    case (Inr x)
    with assms(2) depth spec run have s': "s' = (let t = s\<lparr>sq_disk := d, sq_writes := Suc (sq_writes s), sq_history := sq_history s @ ds\<rparr>
        in case e of None \<Rightarrow> t\<lparr>sq_native := db\<rparr> | Some c \<Rightarrow> t)"
      by (auto simp: outer_transaction Let_def split: option.splits)
    show ?thesis
    proof (cases e)
      case None
      then have "s' = s\<lparr>sq_disk := d, sq_writes := Suc (sq_writes s), sq_history := sq_history s @ ds, sq_native := db\<rparr>"
        by (simp add: s' Let_def)
      moreover have "\<forall>x \<in> set ds. x (en_path env) = sq_disk s (en_path env) \<or> x (en_path env) = Some (saved_file (en_path env) (sq_disk s) db)"
        and "d (en_path env) = Some (saved_file (en_path env) (sq_disk s) db)"
        using effect None by auto
      ultimately show ?thesis using depth saved by (auto simp: consistent_file_def)
    next
      case (Some c)
      then have "s' = s\<lparr>sq_disk := d, sq_writes := Suc (sq_writes s), sq_history := sq_history s @ ds\<rparr>"
        by (simp add: s' Let_def)
      moreover have "\<forall>x \<in> set ds. x (en_path env) = sq_disk s (en_path env)" "d (en_path env) = sq_disk s (en_path env)"
        using effect Some by auto
      ultimately show ?thesis using depth saved by (auto simp: consistent_file_def)
    qed
  qed
qed

lemma run_all_snoc: "run_all env (ws @ [w]) s = snd (transaction env False (\<lambda>_. False) (run_work env w) (run_all env ws s))"
  by (simp add: run_all_def)

text \<open>C5: A crash never loses or tears the database. Take any sequence of transactions with any
  failures of the file system, started with memory and disk in agreement: in every state that the
  disk goes through, also in the middle of a write, the database file is complete and synchronised,
  and holds exactly the database as it was after some number of the transactions; in the end memory
  and disk agree again.\<close>

theorem crash_leaves_a_complete_database:
  assumes "consistent_file env s" and "sq_history s = []"
  shows "consistent_file env (run_all env ws s)
    \<and> (\<forall>d \<in> set (sq_history (run_all env ws s)).
         \<exists>k \<le> length ws. complete_file (sq_native (run_all env (take k ws) s)) (d (en_path env)))"
proof (induction ws rule: rev_induct)
  case Nil
  then show ?case using assms by (simp add: run_all_def)
next
  case (snoc w ws)
  let ?s = "run_all env ws s" and ?s' = "run_all env (ws @ [w]) s"
  from one_transaction [of env ?s w ?s'] snoc.IH
  obtain ds where con: "consistent_file env ?s'" and h: "sq_history ?s' = sq_history ?s @ ds"
    and new: "\<forall>d \<in> set ds. complete_file (sq_native ?s) (d (en_path env)) \<or> complete_file (sq_native ?s') (d (en_path env))"
    by (auto simp: run_all_snoc)
  have "\<exists>k \<le> length (ws @ [w]). complete_file (sq_native (run_all env (take k (ws @ [w])) s)) (d (en_path env))"
    if d: "d \<in> set (sq_history ?s')" for d
  proof -
    from d consider "d \<in> set (sq_history ?s)" | "complete_file (sq_native ?s) (d (en_path env))" | "complete_file (sq_native ?s') (d (en_path env))"
      using h new by auto
    then show ?thesis
    proof cases
      case 1
      with snoc.IH obtain k where "k \<le> length ws" "complete_file (sq_native (run_all env (take k ws) s)) (d (en_path env))" by blast
      then show ?thesis by (intro exI [of _ k]) simp
    next
      case 2
      then show ?thesis by (intro exI [of _ "length ws"]) simp
    next
      case 3
      then show ?thesis by (intro exI [of _ "length (ws @ [w])"]) simp
    qed
  qed
  with con show ?case by blast
qed

section \<open>Examples\<close>

definition sample_env :: fs_env where
  "sample_env = \<lparr>en_path = ''db'', en_uuid = show_nat, en_fails = (\<lambda>n c. n = 1 \<and> c = RenameTemp)\<rparr>"

definition sample_file :: "int sqlite_file" where
  "sample_file = \<lparr>sq_native = 1, sq_depth = 0, sq_opened = True,
     sq_disk = [''db'' \<mapsto> \<lparr>fl_mode = 384, fl_content = Some 1, fl_synced = True\<rparr>], sq_writes = 0, sq_history = []\<rparr>"

text \<open>An update, an inner update that fails and is caught, and another update.\<close>

definition sample_work :: "int work" where
  "sample_work = Then (Statement (\<lambda>n. Inr (n + 1, 1)))
     (Then (Catch (Atomically (Then (Statement (\<lambda>n. Inr (n + 100, 1))) (Throw ''no''))) Pass) (Statement (\<lambda>n. Inr (n * 10, 1))))"

lemma sample_depth: "sq_depth sample_file = 0"
  by (simp add: sample_file_def)

theorem transaction_commits_atomically_witness:
  "\<exists>s'. transaction sample_env False (\<lambda>_. False) (run_work sample_env sample_work) sample_file = (Inr (), s') \<and> sq_native s' = 20
     \<and> sq_disk s' ''db'' = Some \<lparr>fl_mode = 384, fl_content = Some 20, fl_synced = True\<rparr>"
proof -
  have ok: "case fst (transaction sample_env False (\<lambda>_. False) (run_work sample_env sample_work) sample_file) of Inr _ \<Rightarrow> True | Inl _ \<Rightarrow> False"
    by code_simp
  have spec: "work_spec (Atomically sample_work) (sq_native sample_file) = (Inr (), 20)" by code_simp
  obtain r s' where run: "transaction sample_env False (\<lambda>_. False) (run_work sample_env sample_work) sample_file = (r, s')"
    by (cases "transaction sample_env False (\<lambda>_. False) (run_work sample_env sample_work) sample_file")
  have "r = Inr ()" using ok run by (auto split: sum.splits)
  with transaction_commits_atomically [OF sample_depth, of sample_env sample_work] spec run show ?thesis
    by (simp add: saved_file_def persist_mode_def sample_file_def sample_env_def)
qed

theorem crash_leaves_a_complete_database_witness:
  "sq_native (run_all sample_env [sample_work, sample_work] sample_file) = 20
   \<and> length (sq_history (run_all sample_env [sample_work, sample_work] sample_file)) = 17
   \<and> consistent_file sample_env (run_all sample_env [sample_work, sample_work] sample_file)"
proof -
  have "consistent_file sample_env sample_file" "sq_history sample_file = []"
    by (simp_all add: consistent_file_def complete_file_def sample_file_def sample_env_def)
  from crash_leaves_a_complete_database [OF this, of "[sample_work, sample_work]"]
  have "consistent_file sample_env (run_all sample_env [sample_work, sample_work] sample_file)" by blast
  moreover have "sq_native (run_all sample_env [sample_work, sample_work] sample_file) = 20" by code_simp
  moreover have "length (sq_history (run_all sample_env [sample_work, sample_work] sample_file)) = 17" by code_simp
  ultimately show ?thesis by blast
qed

end
