(* ===== verification/Data_Owner.thy ===== *)
theory Data_Owner
  imports Prelude
begin

text \<open>
  The writer lock of the data directory (\<open>src/database/data-owner.ts\<close>). Several processes run
  \<open>acquire\<close> and the function it returns, interleaved at every call of the file system; a process
  may die at any moment, and a process identifier may be used again. The shared state is the lock
  file, the gate file and the set of live processes.
\<close>

section \<open>State\<close>

text \<open>The lock file: just created and not written, text that is not the JSON of an owner, or an
  owner (\<open>owner.pid\<close> and \<open>owner.token\<close>, checked to be a positive safe integer and a text that is
  not empty).\<close>

datatype lock_file = Blank | Garbage | Owner int string

definition max_safe_pid :: int where
  "max_safe_pid = 2 ^ 53 - 1"

definition readable_owner :: "lock_file \<Rightarrow> (int \<times> string) option" where
  "readable_owner f = (case f of
      Owner pid token \<Rightarrow> if \<bar>pid\<bar> \<le> max_safe_pid \<and> pid > 0 \<and> token \<noteq> [] then Some (pid, token) else None
    | _ \<Rightarrow> None)"

text \<open>Where a process is: outside, inside the gate before it looked for the lock, when the
  lock file exists, with the owner it read, about to create the lock file, about to write it, about to leave the gate with
  or without the lock, the owner, and after \<open>release\<close> or a refusal.\<close>

datatype owner_error = GateExists | Ambiguous | Unverifiable | LiveWriter | OwnershipChanged | SystemError

datatype stage =
    Outside
  | InGate string
  | Exists string
  | Found string int
  | Remove string
  | Create string
  | Writing string
  | Leaving string
  | Refusing owner_error
  | Holding string
  | Released
  | Refused owner_error

record owners =
  ow_lock :: "lock_file option"
  ow_gate :: bool
  ow_alive :: "int \<Rightarrow> bool"
  ow_stage :: "int \<Rightarrow> stage"
  ow_tokens :: nat

definition no_owners :: owners where
  "no_owners = \<lparr>ow_lock = None, ow_gate = False, ow_alive = (\<lambda>_. False), ow_stage = (\<lambda>_. Outside), ow_tokens = 0\<rparr>"

definition goto :: "int \<Rightarrow> stage \<Rightarrow> owners \<Rightarrow> owners" where
  "goto p g s = s\<lparr>ow_stage := (ow_stage s)(p := g)\<rparr>"

text \<open>\<open>process.kill(pid, 0)\<close>: \<open>ESRCH\<close> for a process that does not exist; \<open>denied\<close> is whether the
  call is refused for another reason.\<close>

datatype probe = Alive | Dead | Denied

definition kill_probe :: "owners \<Rightarrow> (int \<Rightarrow> bool) \<Rightarrow> int \<Rightarrow> probe" where
  "kill_probe s denied pid = (if \<not> ow_alive s pid then Dead else if denied pid then Denied else Alive)"

section \<open>Steps\<close>

text \<open>One call of \<open>acquire\<close> by the process \<open>p\<close>, from where it is.\<close>

definition acquire_step :: "(int \<Rightarrow> bool) \<Rightarrow> int \<Rightarrow> owners \<Rightarrow> owners" where
  "acquire_step denied p s =
     (case ow_stage s p of
        Outside \<Rightarrow>
          if ow_gate s then goto p (Refused GateExists) s
          else goto p (InGate (uuid (ow_tokens s))) (s\<lparr>ow_gate := True, ow_tokens := Suc (ow_tokens s)\<rparr>)
      | InGate t \<Rightarrow> (case ow_lock s of None \<Rightarrow> goto p (Create t) s | Some _ \<Rightarrow> goto p (Exists t) s)
      | Exists t \<Rightarrow>
          (case ow_lock s of
             None \<Rightarrow> goto p (Refusing Ambiguous) s
           | Some f \<Rightarrow> (case readable_owner f of None \<Rightarrow> goto p (Refusing Ambiguous) s | Some (pid, _) \<Rightarrow> goto p (Found t pid) s))
      | Found t pid \<Rightarrow>
          (case kill_probe s denied pid of
             Dead \<Rightarrow> goto p (Remove t) s
           | Denied \<Rightarrow> goto p (Refusing Unverifiable) s
           | Alive \<Rightarrow> goto p (Refusing LiveWriter) s)
      | Remove t \<Rightarrow> (case ow_lock s of None \<Rightarrow> goto p (Refusing SystemError) s | Some _ \<Rightarrow> goto p (Create t) (s\<lparr>ow_lock := None\<rparr>))
      | Create t \<Rightarrow> (case ow_lock s of None \<Rightarrow> goto p (Writing t) (s\<lparr>ow_lock := Some Blank\<rparr>) | Some _ \<Rightarrow> goto p (Refusing SystemError) s)
      | Writing t \<Rightarrow> goto p (Leaving t) (s\<lparr>ow_lock := Some (Owner p t)\<rparr>)
      | Leaving t \<Rightarrow> goto p (Holding t) (s\<lparr>ow_gate := False\<rparr>)
      | Refusing e \<Rightarrow> goto p (Refused e) (s\<lparr>ow_gate := False\<rparr>)
      | _ \<Rightarrow> s)"

text \<open>The function that \<open>acquire\<close> returns, at the first call that gets through; a later call does
  nothing.\<close>

definition release :: "int \<Rightarrow> owners \<Rightarrow> owner_error + owners" where
  "release p s =
     (case ow_stage s p of
        Holding t \<Rightarrow>
          (case ow_lock s of
             Some (Owner pid token) \<Rightarrow> if token \<noteq> t \<or> pid \<noteq> p then Inl OwnershipChanged else Inr (goto p Released (s\<lparr>ow_lock := None\<rparr>))
           | _ \<Rightarrow> Inl SystemError)
      | _ \<Rightarrow> Inr s)"

text \<open>The transitions: a process starts (with an identifier that no live process has), takes a step
  of \<open>acquire\<close>, releases the lock, begins another \<open>acquire\<close> when it is done, or dies; a write that
  fails leaves a blank lock file and the gate is left.\<close>

inductive owner_step :: "owners \<Rightarrow> owners \<Rightarrow> bool" where
  start: "0 < p \<Longrightarrow> p \<le> max_safe_pid \<Longrightarrow> \<not> ow_alive s p \<Longrightarrow> owner_step s (goto p Outside (s\<lparr>ow_alive := (ow_alive s)(p := True)\<rparr>))"
| acquire: "ow_alive s p \<Longrightarrow> owner_step s (acquire_step denied p s)"
| write_fails: "ow_alive s p \<Longrightarrow> ow_stage s p = Writing t \<Longrightarrow> owner_step s (goto p (Refusing SystemError) s)"
| release: "ow_alive s p \<Longrightarrow> release p s = Inr s' \<Longrightarrow> owner_step s s'"
| again: "ow_alive s p \<Longrightarrow> ow_stage s p \<in> {Released} \<union> range Refused \<Longrightarrow> owner_step s (goto p Outside s)"
| die: "ow_alive s p \<Longrightarrow> owner_step s (s\<lparr>ow_alive := (ow_alive s)(p := False)\<rparr>)"

text \<open>The directory may hold any lock and gate files at first.\<close>

inductive owners_reachable :: "owners \<Rightarrow> bool" where
  initial: "owners_reachable (no_owners\<lparr>ow_lock := f, ow_gate := g\<rparr>)"
| step: "owners_reachable s \<Longrightarrow> owner_step s s' \<Longrightarrow> owners_reachable s'"

section \<open>One live writer\<close>

fun gate_stage :: "stage \<Rightarrow> bool" where
  "gate_stage Outside = False"
| "gate_stage (Holding t) = False"
| "gate_stage Released = False"
| "gate_stage (Refused e) = False"
| "gate_stage _ = True"

text \<open>The live processes in the gate, and the live owners.\<close>

definition in_gate :: "owners \<Rightarrow> int \<Rightarrow> bool" where
  "in_gate s p = (ow_alive s p \<and> gate_stage (ow_stage s p))"

definition holds :: "owners \<Rightarrow> int \<Rightarrow> bool" where
  "holds s p = (ow_alive s p \<and> (case ow_stage s p of Holding t \<Rightarrow> True | _ \<Rightarrow> False))"

text \<open>What each stage knows of the lock.\<close>

definition stage_ok :: "owners \<Rightarrow> int \<Rightarrow> bool" where
  "stage_ok s p =
     (case ow_stage s p of
        Found t pid \<Rightarrow> \<forall>q. holds s q \<longrightarrow> q = pid
      | Remove t \<Rightarrow> \<forall>q. \<not> holds s q
      | Create t \<Rightarrow> ow_lock s = None
      | Writing t \<Rightarrow> ow_lock s = Some Blank
      | Leaving t \<Rightarrow> ow_lock s = Some (Owner p t)
      | Holding t \<Rightarrow> ow_lock s = Some (Owner p t)
      | _ \<Rightarrow> True)"

definition owners_ok :: "owners \<Rightarrow> bool" where
  "owners_ok s = ((\<forall>p. in_gate s p \<longrightarrow> ow_gate s) \<and> (\<forall>p q. in_gate s p \<longrightarrow> in_gate s q \<longrightarrow> p = q)
     \<and> (\<forall>p. ow_alive s p \<longrightarrow> stage_ok s p))"

chapter \<open>Properties\<close>

text \<open>
  The writer lock excludes: at most one live process owns the data directory, whatever the
  interleaving, the deaths and the files found at first.
\<close>

section \<open>The invariant\<close>

lemma ow_stage_goto [simp]: "ow_stage (goto p g s) q = (if q = p then g else ow_stage s q)"
  by (simp add: goto_def)

lemma goto_fields [simp]:
  "ow_lock (goto p g s) = ow_lock s" "ow_gate (goto p g s) = ow_gate s" "ow_alive (goto p g s) = ow_alive s"
  "ow_tokens (goto p g s) = ow_tokens s"
  by (simp_all add: goto_def)

lemma in_gate_goto [simp]: "in_gate (goto p g s) q = (if q = p then ow_alive s p \<and> gate_stage g else in_gate s q)"
  by (simp add: in_gate_def)

lemma holds_goto [simp]: "holds (goto p g s) q = (if q = p then ow_alive s p \<and> (\<exists>t. g = Holding t) else holds s q)"
  by (auto simp: holds_def split: stage.splits)

lemma gate_lock_irrelevant [simp]:
  "in_gate (s\<lparr>ow_lock := l\<rparr>) q = in_gate s q" "in_gate (s\<lparr>ow_gate := b\<rparr>) q = in_gate s q" "in_gate (s\<lparr>ow_tokens := n\<rparr>) q = in_gate s q"
  "holds (s\<lparr>ow_lock := l\<rparr>) q = holds s q" "holds (s\<lparr>ow_gate := b\<rparr>) q = holds s q" "holds (s\<lparr>ow_tokens := n\<rparr>) q = holds s q"
  by (simp_all add: in_gate_def holds_def)

lemma stage_ok_free: "\<not> gate_stage (ow_stage s q) \<Longrightarrow> stage_ok s q = (\<forall>t. ow_stage s q = Holding t \<longrightarrow> ow_lock s = Some (Owner q t))"
  by (cases "ow_stage s q") (auto simp: stage_ok_def)

lemma holder_lock: "owners_ok s \<Longrightarrow> holds s q \<Longrightarrow> \<exists>t. ow_lock s = Some (Owner q t)"
  unfolding owners_ok_def holds_def stage_ok_def by (fastforce split: stage.splits)

text \<open>A step of the process that is in the gate.\<close>

lemma gate_move:
  assumes ok: "owners_ok s" and p: "in_gate s p"
    and lock: "\<And>q. holds s q \<Longrightarrow> l = ow_lock s"
    and gate: "gate_stage g \<Longrightarrow> b"
    and stage: "stage_ok (goto p g (s\<lparr>ow_lock := l, ow_gate := b\<rparr>)) p"
  shows "owners_ok (goto p g (s\<lparr>ow_lock := l, ow_gate := b\<rparr>))"
proof -
  have alone: "\<not> in_gate s q" if "q \<noteq> p" for q using ok p that unfolding owners_ok_def by blast
  have "stage_ok (goto p g (s\<lparr>ow_lock := l, ow_gate := b\<rparr>)) q" if "ow_alive s q" "q \<noteq> p" for q
  proof -
    have free: "\<not> gate_stage (ow_stage s q)" using alone that by (simp add: in_gate_def)
    have "stage_ok s q" using ok that by (simp add: owners_ok_def)
    with free have "\<forall>t. ow_stage s q = Holding t \<longrightarrow> ow_lock s = Some (Owner q t) \<and> holds s q"
      using that(1) by (simp add: stage_ok_free holds_def)
    then show ?thesis using free lock that(2) by (auto simp: stage_ok_free)
  qed
  then show ?thesis using alone p stage gate unfolding owners_ok_def by (auto simp: in_gate_def)
qed

text \<open>A step of a process that is outside of the gate and stays there.\<close>

lemma free_move:
  assumes ok: "owners_ok s" and p: "\<not> in_gate s p" "ow_alive s p" and g: "\<not> gate_stage g" "\<And>t. g \<noteq> Holding t"
    and lock: "l = ow_lock s \<or> (holds s p \<and> l = None)"
  shows "owners_ok (goto p g (s\<lparr>ow_lock := l\<rparr>))"
proof -
  have "stage_ok (goto p g (s\<lparr>ow_lock := l\<rparr>)) q" if q: "ow_alive s q" "q \<noteq> p" for q
  proof -
    have old: "stage_ok s q" using ok q by (simp add: owners_ok_def)
    show ?thesis
    proof (cases "holds s p")
      case True
      with holder_lock [OF ok] obtain t where "ow_lock s = Some (Owner p t)" by blast
      with old q True show ?thesis by (cases "ow_stage s q") (auto simp: stage_ok_def)
    next
      case False
      with lock old q g(2) show ?thesis by (cases "ow_stage s q") (auto simp: stage_ok_def)
    qed
  qed
  moreover have "stage_ok (goto p g (s\<lparr>ow_lock := l\<rparr>)) p" using g by (simp add: stage_ok_free)
  ultimately show ?thesis using ok p g unfolding owners_ok_def by (auto simp: in_gate_def)
qed

lemma in_gate_locked: "owners_ok s \<Longrightarrow> in_gate s p \<Longrightarrow> ow_gate s"
  unfolding owners_ok_def by blast

lemma gate_stay:
  assumes "owners_ok s" and "in_gate s p" and "stage_ok (goto p g s) p"
  shows "owners_ok (goto p g s)"
proof -
  have s: "s\<lparr>ow_lock := ow_lock s, ow_gate := True\<rparr> = s" using in_gate_locked [OF assms(1,2)] by simp
  show ?thesis using gate_move [OF assms(1,2), of "ow_lock s" g True] assms(3) unfolding s by blast
qed

lemma gate_write:
  assumes "owners_ok s" and "in_gate s p" and "\<And>q. holds s q \<Longrightarrow> l = ow_lock s" and "stage_ok (goto p g (s\<lparr>ow_lock := l\<rparr>)) p"
  shows "owners_ok (goto p g (s\<lparr>ow_lock := l\<rparr>))"
proof -
  have s: "s\<lparr>ow_lock := l, ow_gate := True\<rparr> = s\<lparr>ow_lock := l\<rparr>" using in_gate_locked [OF assms(1,2)] by simp
  show ?thesis using gate_move [OF assms(1,2), of l g True] assms(3,4) unfolding s by blast
qed

lemma gate_leave:
  assumes "owners_ok s" and "in_gate s p" and "\<not> gate_stage g" and "stage_ok (goto p g (s\<lparr>ow_gate := False\<rparr>)) p"
  shows "owners_ok (goto p g (s\<lparr>ow_gate := False\<rparr>))"
proof -
  have s: "s\<lparr>ow_lock := ow_lock s, ow_gate := False\<rparr> = s\<lparr>ow_gate := False\<rparr>" by simp
  show ?thesis using gate_move [OF assms(1,2), of "ow_lock s" g False] assms(3,4) unfolding s by blast
qed

lemma stage_ok_now: "owners_ok s \<Longrightarrow> ow_alive s p \<Longrightarrow> stage_ok s p"
  by (simp add: owners_ok_def)

lemma holds_alive: "holds s q \<Longrightarrow> ow_alive s q"
  by (simp add: holds_def)

lemma acquire_keeps_owners_ok:
  assumes ok: "owners_ok s" and p: "ow_alive s p"
  shows "owners_ok (acquire_step denied p s)"
proof (cases "ow_stage s p")
  case Outside
  show ?thesis
  proof (cases "ow_gate s")
    case True
    with free_move [OF ok, of p "Refused GateExists" "ow_lock s"] Outside p show ?thesis
      by (simp add: acquire_step_def in_gate_def)
  next
    case False
    define s' where "s' = s\<lparr>ow_gate := True, ow_tokens := Suc (ow_tokens s)\<rparr>"
    have free: "\<not> gate_stage (ow_stage s q)" if "ow_alive s q" for q using ok False that by (auto simp: owners_ok_def in_gate_def)
    have "stage_ok (goto p (InGate t) s') q" if q: "ow_alive s q" for q t
      using stage_ok_now [OF ok q] free [OF q] by (cases "q = p") (auto simp: stage_ok_free s'_def stage_ok_def [of _ p])
    then show ?thesis using free Outside False
      by (auto simp: acquire_step_def s'_def [symmetric] owners_ok_def in_gate_def) (simp_all add: s'_def)
  qed
next
  case (InGate t)
  then have g: "in_gate s p" using p by (simp add: in_gate_def)
  show ?thesis using gate_stay [OF ok g] InGate
    by (auto simp: acquire_step_def stage_ok_def split: option.splits)
next
  case (Exists t)
  then have g: "in_gate s p" using p by (simp add: in_gate_def)
  have "q = pid" if "holds s q" "ow_lock s = Some f" "readable_owner f = Some (pid, u)" for q f pid u
    using holder_lock [OF ok that(1)] that by (auto simp: readable_owner_def split: if_splits)
  then show ?thesis using gate_stay [OF ok g] Exists
    by (auto simp: acquire_step_def stage_ok_def split: option.splits)
next
  case (Found t pid)
  then have g: "in_gate s p" using p by (simp add: in_gate_def)
  have "\<not> holds s q" if "kill_probe s denied pid = Dead" for q
    using stage_ok_now [OF ok p] Found that holds_alive [of s q]
    by (auto simp: stage_ok_def kill_probe_def split: if_splits)
  then show ?thesis using gate_stay [OF ok g] Found
    by (auto simp: acquire_step_def stage_ok_def split: probe.splits)
next
  case (Remove t)
  then have g: "in_gate s p" using p by (simp add: in_gate_def)
  have "\<not> holds s q" for q using stage_ok_now [OF ok p] Remove by (simp add: stage_ok_def)
  then show ?thesis using gate_stay [OF ok g, of "Refusing SystemError"] gate_write [OF ok g, of None "Create t"] Remove
    by (auto simp: acquire_step_def stage_ok_def split: option.splits)
next
  case (Create t)
  then have g: "in_gate s p" using p by (simp add: in_gate_def)
  have none: "ow_lock s = None" using stage_ok_now [OF ok p] Create by (simp add: stage_ok_def)
  have "\<not> holds s q" for q using holder_lock [OF ok] none by auto
  then show ?thesis using gate_write [OF ok g, of "Some Blank" "Writing t"] Create none
    by (simp add: acquire_step_def stage_ok_def)
next
  case (Writing t)
  then have g: "in_gate s p" using p by (simp add: in_gate_def)
  have blank: "ow_lock s = Some Blank" using stage_ok_now [OF ok p] Writing by (simp add: stage_ok_def)
  have "\<not> holds s q" for q using holder_lock [OF ok] blank by auto
  then show ?thesis using gate_write [OF ok g, of "Some (Owner p t)" "Leaving t"] Writing
    by (simp add: acquire_step_def stage_ok_def)
next
  case (Leaving t)
  then have g: "in_gate s p" using p by (simp add: in_gate_def)
  have "ow_lock s = Some (Owner p t)" using stage_ok_now [OF ok p] Leaving by (simp add: stage_ok_def)
  then show ?thesis using gate_leave [OF ok g, of "Holding t"] Leaving
    by (simp add: acquire_step_def stage_ok_def)
next
  case (Refusing e)
  then have g: "in_gate s p" using p by (simp add: in_gate_def)
  show ?thesis using gate_leave [OF ok g, of "Refused e"] Refusing by (simp add: acquire_step_def stage_ok_def)
qed (use ok in \<open>simp_all add: acquire_step_def\<close>)

lemma release_keeps_owners_ok:
  assumes "owners_ok s" and "ow_alive s p" and "release p s = Inr s'"
  shows "owners_ok s'"
proof (cases "ow_stage s p")
  case (Holding t)
  then have "holds s p" "\<not> in_gate s p" using assms(2) by (simp_all add: holds_def in_gate_def)
  moreover have "s' = goto p Released (s\<lparr>ow_lock := None\<rparr>)"
    using assms(3) Holding by (auto simp: release_def split: option.splits lock_file.splits if_splits)
  ultimately show ?thesis using free_move [OF assms(1), of p Released None] assms(2) by simp
qed (use assms in \<open>auto simp: release_def\<close>)

lemma die_keeps_owners_ok:
  assumes "owners_ok s"
  shows "owners_ok (s\<lparr>ow_alive := (ow_alive s)(p := False)\<rparr>)" (is "owners_ok ?s")
proof -
  have sub: "in_gate ?s q \<Longrightarrow> in_gate s q" "holds ?s q \<Longrightarrow> holds s q" for q by (auto simp: in_gate_def holds_def split: if_splits)
  have "stage_ok ?s q" if "stage_ok s q" for q
    using that sub(2) by (cases "ow_stage s q") (auto simp: stage_ok_def)
  moreover have "ow_alive ?s q \<Longrightarrow> ow_alive s q" "ow_gate ?s = ow_gate s" for q by (auto split: if_splits)
  ultimately show ?thesis using assms sub(1) unfolding owners_ok_def by metis
qed

lemma start_keeps_owners_ok:
  assumes "owners_ok s" and "\<not> ow_alive s p"
  shows "owners_ok (goto p Outside (s\<lparr>ow_alive := (ow_alive s)(p := True)\<rparr>))" (is "owners_ok ?s")
proof -
  have sub: "in_gate ?s q = in_gate s q" "holds ?s q = holds s q" for q
    using assms(2) by (auto simp: in_gate_def holds_def goto_def)
  have "stage_ok ?s q" if "stage_ok s q \<or> q = p" for q
    using that sub(2) by (cases "q = p"; cases "ow_stage s q") (auto simp: stage_ok_def)
  then show ?thesis using assms sub(1) unfolding owners_ok_def by (auto simp: goto_def split: if_splits)
qed

lemma owner_step_keeps: "owner_step s s' \<Longrightarrow> owners_ok s \<Longrightarrow> owners_ok s'"
proof (induction rule: owner_step.induct)
  case (write_fails s p t)
  then have g: "in_gate s p" by (simp add: in_gate_def)
  show ?case using gate_stay [OF write_fails.prems g] by (simp add: stage_ok_def)
next
  case (again s p)
  then show ?case using free_move [OF again.prems, of p Outside "ow_lock s"] by (auto simp: in_gate_def)
qed (simp_all add: acquire_keeps_owners_ok release_keeps_owners_ok die_keeps_owners_ok start_keeps_owners_ok)

lemma reachable_owners_ok: "owners_reachable s \<Longrightarrow> owners_ok s"
proof (induction rule: owners_reachable.induct)
  case (initial f g)
  show ?case by (simp add: owners_ok_def in_gate_def no_owners_def)
qed (rule owner_step_keeps)

section \<open>Properties\<close>

text \<open>C6: A data directory has at most one live writer. In every reachable state, whatever
  processes start, run, die or are refused in whatever order, and whatever files the directory held
  at first, two live processes that both own the directory are the same process; the lock file then
  names it, and it can release the directory, after which no one owns it.\<close>

theorem one_live_writer:
  assumes "owners_reachable s" and "holds s p" and "holds s q"
  shows "p = q \<and> (\<exists>t. ow_lock s = Some (Owner p t)) \<and> (\<exists>s'. release p s = Inr s' \<and> (\<forall>r. \<not> holds s' r))"
proof -
  note ok = reachable_owners_ok [OF assms(1)]
  have only: "r = p" if "holds s r" for r using holder_lock [OF ok that] holder_lock [OF ok assms(2)] by auto
  from assms(2) obtain t where t: "ow_stage s p = Holding t" "ow_alive s p" by (auto simp: holds_def split: stage.splits)
  have lock: "ow_lock s = Some (Owner p t)" using stage_ok_now [OF ok t(2)] t(1) by (simp add: stage_ok_def)
  have "release p s = Inr (goto p Released (s\<lparr>ow_lock := None\<rparr>))" using t lock by (simp add: release_def)
  moreover have "\<not> holds (goto p Released (s\<lparr>ow_lock := None\<rparr>)) r" for r using only by auto
  ultimately show ?thesis using only [OF assms(3)] lock by blast
qed

text \<open>The lock is free, or was left by a process that is dead.\<close>

definition lock_claimable :: "owners \<Rightarrow> bool" where
  "lock_claimable s = (case ow_lock s of
      None \<Rightarrow> True
    | Some f \<Rightarrow> (case readable_owner f of None \<Rightarrow> False | Some (pid, _) \<Rightarrow> \<not> ow_alive s pid))"

definition acquire_alone :: "(int \<Rightarrow> bool) \<Rightarrow> int \<Rightarrow> owners \<Rightarrow> owners" where
  "acquire_alone denied p s = (acquire_step denied p ^^ 8) s"

text \<open>An acquisition that is not disturbed is decided within eight calls. When the gate is free
  it becomes the owner exactly if there is no lock or the lock names a dead process, and otherwise it
  is refused and the lock is as it was: a live owner, an owner that cannot be checked and an
  unreadable lock all keep it out. The gate is free again in each case; and a gate that another
  process left behind refuses everyone and is never removed.\<close>

theorem acquisition_is_decided:
  assumes "ow_alive s p" and "ow_stage s p = Outside"
  shows "if ow_gate s then acquire_alone denied p s = goto p (Refused GateExists) s
    else \<not> ow_gate (acquire_alone denied p s)
       \<and> (if lock_claimable s
          then holds (acquire_alone denied p s) p \<and> ow_lock (acquire_alone denied p s) = Some (Owner p (uuid (ow_tokens s)))
          else (\<exists>e. ow_stage (acquire_alone denied p s) p = Refused e) \<and> ow_lock (acquire_alone denied p s) = ow_lock s)"
proof -
  have eight: "acquire_alone denied p s = acquire_step denied p (acquire_step denied p (acquire_step denied p (acquire_step denied p
     (acquire_step denied p (acquire_step denied p (acquire_step denied p (acquire_step denied p s)))))))"
    by (simp add: acquire_alone_def numeral_eq_Suc)
  consider "ow_gate s" | "\<not> ow_gate s" "ow_lock s = None"
    | f where "\<not> ow_gate s" "ow_lock s = Some f" "readable_owner f = None"
    | f pid t where "\<not> ow_gate s" "ow_lock s = Some f" "readable_owner f = Some (pid, t)"
    by (metis not_Some_eq surj_pair)
  then show ?thesis
  proof cases
    case 1
    with assms show ?thesis by (simp add: eight acquire_step_def)
  next
    case 2
    with assms show ?thesis by (simp add: eight acquire_step_def lock_claimable_def holds_def)
  next
    case 3
    with assms show ?thesis by (simp add: eight acquire_step_def lock_claimable_def)
  next
    case 4
    with assms show ?thesis
      by (cases "ow_alive s pid"; cases "denied pid") (simp_all add: eight acquire_step_def lock_claimable_def holds_def kill_probe_def)
  qed
qed

text \<open>A directory whose owner, process 7, died; process 9 takes over.\<close>

definition crashed_owner :: owners where
  "crashed_owner = no_owners\<lparr>ow_lock := Some (Owner 7 ''old''), ow_gate := False\<rparr>"

definition restarted :: owners where
  "restarted = goto 9 Outside (crashed_owner\<lparr>ow_alive := (ow_alive crashed_owner)(9 := True)\<rparr>)"

lemma restarted_reachable: "owners_reachable restarted"
  unfolding restarted_def crashed_owner_def
  by (rule owners_reachable.step [OF owners_reachable.initial], rule owner_step.start)
    (simp_all add: no_owners_def max_safe_pid_def)

lemma acquire_reachable:
  "owners_reachable s \<Longrightarrow> ow_alive s p \<Longrightarrow> owners_reachable ((acquire_step denied p ^^ n) s) \<and> ow_alive ((acquire_step denied p ^^ n) s) p"
proof (induction n)
  case (Suc n)
  have "ow_alive (acquire_step denied p t) p = ow_alive t p" for t
    by (auto simp: acquire_step_def split: stage.splits option.splits probe.splits)
  with Suc show ?case by (auto intro: owners_reachable.step owner_step.acquire)
qed simp

theorem acquisition_is_decided_witness:
  "holds (acquire_alone (\<lambda>_. False) 9 restarted) 9 \<and> ow_lock (acquire_alone (\<lambda>_. False) 9 restarted) = Some (Owner 9 (uuid 0))"
  using acquisition_is_decided [of restarted 9 "\<lambda>_. False"]
  by (simp add: restarted_def crashed_owner_def no_owners_def lock_claimable_def readable_owner_def max_safe_pid_def split: if_splits)

theorem one_live_writer_witness:
  "\<exists>s'. release 9 (acquire_alone (\<lambda>_. False) 9 restarted) = Inr s' \<and> (\<forall>r. \<not> holds s' r)"
proof -
  have alive: "ow_alive restarted 9" by (simp add: restarted_def)
  have "owners_reachable (acquire_alone (\<lambda>_. False) 9 restarted)"
    using acquire_reachable [OF restarted_reachable alive] by (simp add: acquire_alone_def)
  moreover have "holds (acquire_alone (\<lambda>_. False) 9 restarted) 9"
    by (simp add: acquire_alone_def numeral_eq_Suc acquire_step_def restarted_def crashed_owner_def no_owners_def
      readable_owner_def max_safe_pid_def kill_probe_def holds_def)
  ultimately show ?thesis using one_live_writer by blast
qed

section \<open>A restart under the same identifier\<close>

text \<open>A process that finds a lock with its own identifier (left by a process that died, as the first process of
  a container after a restart) is refused as if another writer lived, and leaves the lock in place for the next attempt.\<close>

lemma own_identifier_is_refused:
  assumes "ow_alive s p" and "ow_stage s p = Outside" and "\<not> ow_gate s"
    and "ow_lock s = Some (Owner p t)" and "readable_owner (Owner p t) = Some (p, t)" and "\<not> denied p"
  shows "ow_stage ((acquire_step denied p ^^ 5) s) p = Refused LiveWriter"
    and "ow_lock ((acquire_step denied p ^^ 5) s) = Some (Owner p t)" and "\<not> ow_gate ((acquire_step denied p ^^ 5) s)"
  using assms by (simp_all add: numeral_eq_Suc acquire_step_def goto_def kill_probe_def)

end
