(* ===== verification/Database_Service.thy ===== *)
theory Database_Service
  imports Sqlite_File Data_Owner Schema
begin

text \<open>
  The database service (\<open>src/database/database.service.ts\<close>, class \<open>DatabaseService\<close>): the
  encryption key and the encrypted values, the check of the key at start, an import that is staged
  for the next start, and the order of the start and of the end of the process. AES-256-GCM,
  base64url, the JSON text of a value and the random bytes are parameters.
\<close>

section \<open>The encryption key\<close>

text \<open>\<open>kf_env\<close> is \<open>APP_ENCRYPTION_KEY\<close>, \<open>kf_file\<close> the content of \<open>.encryption-key\<close>.\<close>

record key_files =
  kf_env :: "string option"
  kf_file :: "string option"

definition configured_key :: "key_files \<Rightarrow> string" where
  "configured_key k = (case kf_env k of Some v \<Rightarrow> v | None \<Rightarrow> [])"

definition stored_key :: "key_files \<Rightarrow> string" where
  "stored_key k = (case kf_file k of Some v \<Rightarrow> trim v | None \<Rightarrow> [])"

definition encryption_key_value :: "key_files \<Rightarrow> string" where
  "encryption_key_value k = (if configured_key k \<noteq> [] then configured_key k else stored_key k)"

text \<open>\<open>getEncryptionKey\<close>: the key text, before it is hashed, and the files; \<open>fresh\<close> are the random
  bytes in hexadecimal.\<close>

definition get_encryption_key :: "string \<Rightarrow> key_files \<Rightarrow> string \<times> key_files" where
  "get_encryption_key fresh k =
     (if encryption_key_value k \<noteq> [] then (encryption_key_value k, k) else (fresh, k\<lparr>kf_file := Some fresh\<rparr>))"

section \<open>Encrypted values\<close>

record cipher =
  cp_seal :: "string \<Rightarrow> string \<Rightarrow> string \<Rightarrow> string \<times> string"
  cp_open :: "string \<Rightarrow> string \<Rightarrow> string \<Rightarrow> string \<Rightarrow> string option"
  cp_encode :: "string \<Rightarrow> string"
  cp_decode :: "string \<Rightarrow> string"

definition encrypt :: "cipher \<Rightarrow> string \<Rightarrow> string \<Rightarrow> string \<Rightarrow> string" where
  "encrypt c key iv text =
     (case cp_seal c key iv text of (tag, body) \<Rightarrow> join ''.'' [cp_encode c iv, cp_encode c tag, cp_encode c body])"

datatype decrypt_error = Malformed | AuthenticationFailed

definition decrypt :: "cipher \<Rightarrow> string \<Rightarrow> string \<Rightarrow> decrypt_error + string" where
  "decrypt c key encoded =
     (case split_on (CHR ''.'') encoded of
        iv # tag # body # _ \<Rightarrow>
          if iv = [] \<or> tag = [] \<or> body = [] then Inl Malformed
          else (case cp_open c key (cp_decode c iv) (cp_decode c tag) (cp_decode c body) of
                  None \<Rightarrow> Inl AuthenticationFailed | Some text \<Rightarrow> Inr text)
      | _ \<Rightarrow> Inl Malformed)"

text \<open>What the code relies on: base64url is injective, free of dots and empty only for the empty
  text; the cipher opens what it sealed with the same key, and its tag and body are not empty.\<close>

definition documented_cipher :: "cipher \<Rightarrow> bool" where
  "documented_cipher c =
     ((\<forall>x. cp_decode c (cp_encode c x) = x \<and> CHR ''.'' \<notin> set (cp_encode c x) \<and> (cp_encode c x = [] \<longrightarrow> x = []))
      \<and> (\<forall>key iv text. text \<noteq> [] \<longrightarrow> fst (cp_seal c key iv text) \<noteq> [] \<and> snd (cp_seal c key iv text) \<noteq> []
           \<and> cp_open c key iv (fst (cp_seal c key iv text)) (snd (cp_seal c key iv text)) = Some text))"

section \<open>The check of the key\<close>

record encryption_status =
  es_ok :: bool
  es_message :: string
  es_checked :: nat
  es_at :: time

text \<open>The first non-NULL value of each of the three tables.\<close>

definition encrypted_values :: "string list \<Rightarrow> string list \<Rightarrow> string list \<Rightarrow> string list" where
  "encrypted_values passwords storages app = take 1 passwords @ take 1 storages @ take 1 app"

definition check_encryption_key :: "cipher \<Rightarrow> string \<Rightarrow> string list \<Rightarrow> time \<Rightarrow> encryption_status" where
  "check_encryption_key c key values now =
     (if list_all (\<lambda>v. case decrypt c key v of Inl _ \<Rightarrow> False | Inr _ \<Rightarrow> True) values
      then \<lparr>es_ok = True,
             es_message = (if values \<noteq> [] then ''Stored encrypted configuration can be decrypted'' else ''No encrypted configuration exists yet''),
             es_checked = length values, es_at = now\<rparr>
      else \<lparr>es_ok = False,
             es_message = ''The encryption key is missing or does not match the stored configuration. Restore the original APP_ENCRYPTION_KEY or data/.encryption-key before using saved credentials.'',
             es_checked = length values, es_at = now\<rparr>)"

definition assert_encryption_healthy :: "encryption_status \<Rightarrow> unit result" where
  "assert_encryption_healthy s = (if es_ok s then Inr () else Inl (Unavailable (es_message s)))"

section \<open>Staged imports\<close>

text \<open>The files of the data directory; the content of a file that is being written is \<open>None\<close>.\<close>

record data_dir =
  dd_database :: "string option option"
  dd_key :: "string option option"
  dd_pending_database :: "string option option"
  dd_pending_key :: "string option option"

text \<open>The two writes of \<open>stageImportedDatabase\<close>, and the calls of \<open>applyPendingImport\<close>; a crash can
  come between any two of them.\<close>

definition stage_imported_database :: "string \<Rightarrow> string \<Rightarrow> (data_dir \<Rightarrow> data_dir) list" where
  "stage_imported_database db key =
     [dd_pending_database_update (\<lambda>_. Some None), dd_pending_database_update (\<lambda>_. Some (Some db)),
      dd_pending_key_update (\<lambda>_. Some None), dd_pending_key_update (\<lambda>_. Some (Some key))]"

definition import_calls :: "(data_dir \<Rightarrow> data_dir) list" where
  "import_calls =
     [dd_database_update (\<lambda>_. Some None), \<lambda>d. d\<lparr>dd_database := dd_pending_database d\<rparr>,
      dd_key_update (\<lambda>_. Some None), \<lambda>d. d\<lparr>dd_key := dd_pending_key d\<rparr>,
      dd_pending_database_update (\<lambda>_. None), dd_pending_key_update (\<lambda>_. None)]"

definition run_calls :: "(data_dir \<Rightarrow> data_dir) list \<Rightarrow> data_dir \<Rightarrow> data_dir" where
  "run_calls fs d = foldl (\<lambda>d f. f d) d fs"

definition import_calls_for :: "data_dir \<Rightarrow> (data_dir \<Rightarrow> data_dir) list" where
  "import_calls_for d = (if dd_pending_database d = None \<or> dd_pending_key d = None then [] else import_calls)"

definition apply_pending_import :: "data_dir \<Rightarrow> data_dir" where
  "apply_pending_import d = run_calls (import_calls_for d) d"

section \<open>Start and end\<close>

text \<open>What happens to the lock and the database at the start and the end of the process, in order.
  Each step of the start may throw; then the database is closed without a write and the lock is
  released.\<close>

datatype start_step = Directories | PendingImport | OpenDatabase | BackupBeforeExecutions | MigrateSchema | LoadKey | CheckKey

record db_service =
  dv_owner :: bool
  dv_open :: bool
  dv_steps :: "start_step list"

definition no_service :: db_service where
  "no_service = \<lparr>dv_owner = False, dv_open = False, dv_steps = []\<rparr>"

text \<open>The copy of a database of an older version is made only when the file exists and has no
  table of executions.\<close>

definition start_steps :: "bool \<Rightarrow> bool \<Rightarrow> start_step list" where
  "start_steps file_exists has_executions =
     [Directories, PendingImport, OpenDatabase]
     @ (if file_exists \<and> \<not> has_executions then [BackupBeforeExecutions] else []) @ [MigrateSchema, LoadKey, CheckKey]"

definition do_step :: "start_step \<Rightarrow> db_service \<Rightarrow> db_service" where
  "do_step p s = s\<lparr>dv_open := (dv_open s \<or> p = OpenDatabase), dv_steps := dv_steps s @ [p]\<rparr>"

fun start_from :: "(start_step \<Rightarrow> bool) \<Rightarrow> start_step list \<Rightarrow> db_service \<Rightarrow> start_step option \<times> db_service" where
  "start_from fails [] s = (None, s)"
| "start_from fails (p # ps) s =
     (if fails p then (Some p, s\<lparr>dv_open := False, dv_owner := False\<rparr>) else start_from fails ps (do_step p s))"

datatype init_error = OwnerRefused owner_error | StepFailed start_step

definition on_module_init :: "owner_error option \<Rightarrow> (start_step \<Rightarrow> bool) \<Rightarrow> bool \<Rightarrow> bool \<Rightarrow> db_service \<Rightarrow> init_error option \<times> db_service" where
  "on_module_init acquired fails file_exists has_executions s =
     (case acquired of
        Some e \<Rightarrow> (Some (OwnerRefused e), s)
      | None \<Rightarrow> (case start_from fails (start_steps file_exists has_executions) (s\<lparr>dv_owner := True\<rparr>) of
                    (None, s') \<Rightarrow> (None, s') | (Some p, s') \<Rightarrow> (Some (StepFailed p), s')))"

text \<open>\<open>onModuleDestroy\<close>: the hooks in their order (the coordinator drains in one), then the last
  write and the release of the lock; an exception of a hook or of the write leaves the lock.\<close>

fun run_hooks :: "(nat \<Rightarrow> bool) \<Rightarrow> nat \<Rightarrow> nat \<Rightarrow> nat option" where
  "run_hooks fails i 0 = None"
| "run_hooks fails i (Suc n) = (if fails i then Some i else run_hooks fails (Suc i) n)"

definition on_module_destroy :: "nat \<Rightarrow> (nat \<Rightarrow> bool) \<Rightarrow> bool \<Rightarrow> db_service \<Rightarrow> bool \<times> db_service" where
  "on_module_destroy hooks fails write_ok s =
     (case run_hooks fails 0 hooks of
        Some i \<Rightarrow> (False, s)
      | None \<Rightarrow> if dv_open s \<and> \<not> write_ok then (False, s) else (True, s\<lparr>dv_open := False, dv_owner := False\<rparr>))"

section \<open>Properties\<close>

lemma encrypt_decrypt:
  assumes "documented_cipher c" and "text \<noteq> []" and "iv \<noteq> []"
  shows "decrypt c key (encrypt c key iv text) = Inr text"
proof -
  obtain tag body where seal: "cp_seal c key iv text = (tag, body)" by (cases "cp_seal c key iv text")
  have enc: "cp_decode c (cp_encode c x) = x" "CHR ''.'' \<notin> set (cp_encode c x)" "x \<noteq> [] \<Longrightarrow> cp_encode c x \<noteq> []" for x
    using assms(1) by (auto simp: documented_cipher_def)
  have sealed: "tag \<noteq> []" "body \<noteq> []" "cp_open c key iv tag body = Some text"
  proof -
    have "fst (cp_seal c key iv text) \<noteq> [] \<and> snd (cp_seal c key iv text) \<noteq> []
        \<and> cp_open c key iv (fst (cp_seal c key iv text)) (snd (cp_seal c key iv text)) = Some text"
      using assms(1,2) by (simp add: documented_cipher_def)
    with seal show "tag \<noteq> []" "body \<noteq> []" "cp_open c key iv tag body = Some text" by simp_all
  qed
  have "split_on (CHR ''.'') (encrypt c key iv text) = [cp_encode c iv, cp_encode c tag, cp_encode c body]"
    unfolding encrypt_def seal prod.case by (rule split_on_join) (simp_all add: enc)
  with sealed assms(3) show ?thesis by (simp add: decrypt_def enc)
qed

text \<open>The key that a start draws is found again by every later start.\<close>

lemma key_is_kept:
  assumes "trim fresh = fresh"
  shows "fst (get_encryption_key other (snd (get_encryption_key fresh k))) = fst (get_encryption_key fresh k) \<or> fresh = []"
  using assms by (auto simp: get_encryption_key_def encryption_key_value_def configured_key_def stored_key_def split: option.splits)

text \<open>Whatever fails at the start, an unsuccessful start keeps neither the lock nor the database,
  and a successful one has done every step in order.\<close>

lemma start_from_result:
  "case start_from fails ps s of
     (None, s') \<Rightarrow> dv_steps s' = dv_steps s @ ps \<and> dv_owner s' = dv_owner s \<and> (dv_open s' \<longleftrightarrow> dv_open s \<or> OpenDatabase \<in> set ps)
       \<and> (\<forall>p \<in> set ps. \<not> fails p)
   | (Some p, s') \<Rightarrow> fails p \<and> p \<in> set ps \<and> \<not> dv_owner s' \<and> \<not> dv_open s'"
proof (induction ps arbitrary: s)
  case (Cons p ps)
  from Cons.IH [of "do_step p s"] show ?case by (auto simp: do_step_def split: prod.splits option.splits)
qed simp

lemma failed_start_releases_the_lock:
  "on_module_init acquired fails file_exists has_executions no_service = (Some e, s') \<Longrightarrow> \<not> dv_owner s' \<and> \<not> dv_open s'"
  using start_from_result [where fails = fails and ps = "start_steps file_exists has_executions" and s = "no_service\<lparr>dv_owner := True\<rparr>"]
  by (auto simp: on_module_init_def no_service_def split: option.splits prod.splits)

text \<open>C8: A staged import survives crashes. When both parts of an import are staged, a start that is
  interrupted after any number of its calls, also in the middle of copying the database, and is then
  repeated leaves exactly the imported database and its key; a start without an interruption does the
  same and removes both staged files, so that later starts change nothing.\<close>

theorem interrupted_import_is_completed:
  assumes "dd_pending_database d = Some (Some db)" and "dd_pending_key d = Some (Some key)"
  shows "(\<forall>k. let d' = apply_pending_import (run_calls (take k (import_calls_for d)) d) in
            dd_database d' = Some (Some db) \<and> dd_key d' = Some (Some key))
     \<and> dd_pending_database (apply_pending_import d) = None \<and> dd_pending_key (apply_pending_import d) = None
     \<and> apply_pending_import (apply_pending_import d) = apply_pending_import d"
proof -
  have calls: "import_calls_for d = import_calls" using assms by (simp add: import_calls_for_def)
  have "dd_database (apply_pending_import (run_calls (take k import_calls) d)) = Some (Some db)
      \<and> dd_key (apply_pending_import (run_calls (take k import_calls) d)) = Some (Some key)" for k
  proof -
    consider "k = 0" | "k = 1" | "k = 2" | "k = 3" | "k = 4" | "k = 5" | "k \<ge> 6" by linarith
    then show ?thesis
      by cases (simp_all add: import_calls_def apply_pending_import_def import_calls_for_def run_calls_def assms)
  qed
  then show ?thesis unfolding calls Let_def
    using assms by (simp add: apply_pending_import_def import_calls_for_def import_calls_def run_calls_def)
qed

definition staged_sample :: data_dir where
  "staged_sample = \<lparr>dd_database = Some (Some ''old''), dd_key = None,
     dd_pending_database = Some (Some ''new''), dd_pending_key = Some (Some ''key'')\<rparr>"

theorem interrupted_import_is_completed_witness:
  "dd_database (run_calls [dd_database_update (\<lambda>_. Some None)] staged_sample) = Some None
   \<and> dd_database (apply_pending_import (run_calls [dd_database_update (\<lambda>_. Some None)] staged_sample)) = Some (Some ''new'')"
proof -
  have "dd_pending_database staged_sample = Some (Some ''new'')" "dd_pending_key staged_sample = Some (Some ''key'')"
    by (simp_all add: staged_sample_def)
  note all = interrupted_import_is_completed [OF this]
  have one: "take 1 (import_calls_for staged_sample) = [dd_database_update (\<lambda>_. Some None)]"
    by (simp add: import_calls_for_def import_calls_def staged_sample_def)
  from all have "dd_database (apply_pending_import (run_calls (take 1 (import_calls_for staged_sample)) staged_sample)) = Some (Some ''new'')"
    unfolding Let_def by blast
  then show ?thesis unfolding one by (simp add: run_calls_def staged_sample_def)
qed

end
