(* ===== verification/Protection.thy ===== *)
theory Protection
  imports Selection Pitr_Text
begin

text \<open>
  Protection policy (\<open>src/backup/protection.service.ts\<close>): what the recorded runs and executions
  prove about every source and destination of a schedule, and the incidents that are opened and
  resolved from it.
\<close>

section \<open>Assessments\<close>

datatype freshness = Fresh | Stale | Grace | FUnknown | FPaused
datatype missed_start = OnTime | Missed | MUnknown | MPaused
datatype long_running = Normal | LongRunning | LUnknown | LPaused

record evidence =
  ev_reason :: string
  ev_grace :: "time option"
  ev_outcome :: "string option"
  ev_verification :: "string option"
  ev_scheduled :: "time option"
  ev_running :: "time option"
  ev_rollback :: bool

record assessment =
  pa_job :: id
  pa_connection :: id
  pa_target :: id
  pa_required :: bool
  pa_fingerprint :: digest
  pa_run :: "id option"
  pa_verified :: "time option"
  pa_freshness :: freshness
  pa_missed :: missed_start
  pa_long :: long_running
  pa_evidence :: evidence

section \<open>Runs\<close>

text \<open>The configuration that a run recorded, as far as its fingerprint reads it; \<open>None\<close> when a
  column is NULL, when the objects are not four booleans or when the names are corrupt.\<close>

definition object_bool :: "json \<Rightarrow> string \<Rightarrow> bool option" where
  "object_bool objects k = (case jget objects k of Some (JBool b) \<Rightarrow> Some b | _ \<Rightarrow> None)"

definition run_objects :: "jtext \<Rightarrow> backup_objects option" where
  "run_objects t = (case t of
      Parsed objects \<Rightarrow>
        (case (object_bool objects ''views'', object_bool objects ''routines'', object_bool objects ''triggers'', object_bool objects ''events'') of
           (Some v, Some r, Some t, Some e) \<Rightarrow> Some \<lparr>bo_views = v, bo_routines = r, bo_triggers = t, bo_events = e\<rparr>
         | _ \<Rightarrow> None)
    | _ \<Rightarrow> None)"

definition run_snapshot :: "run_row \<Rightarrow> snapshot option" where
  "run_snapshot r =
     (case (r_scope r, r_layout r, r_insert_mode r, r_compression r, r_encryption r, run_objects (r_objects r)) of
        (Some scope, Some layout, Some mode, Some compression, Some encryption, Some objects) \<Rightarrow>
          if r_names r = Absent then None
          else Some \<lparr>s_name = [], s_scope = scope, s_names = r_names r, s_layout = layout, s_objects = objects,
                      s_insert_mode = mode, s_compression = compression, s_encryption = encryption, s_prefix = [],
                      s_retention = 0, s_retry_count = 0, s_retry_delay = 0, s_pitr = False\<rparr>
      | _ \<Rightarrow> None)"

definition run_matches :: "run_row \<Rightarrow> digest \<Rightarrow> bool" where
  "run_matches r f = (case run_snapshot r of
      None \<Rightarrow> False
    | Some s \<Rightarrow> (case selection_fingerprint s of Inl _ \<Rightarrow> False | Inr g \<Rightarrow> g = f))"

definition verified_run :: "run_row \<Rightarrow> bool" where
  "verified_run r = (r_status r = ''success'' \<and> r_verification r = Some ''passed'' \<and> r_finished r \<noteq> None)"

text \<open>A comparison with a date that is missing is false.\<close>

definition later_than :: "time \<Rightarrow> time option \<Rightarrow> bool" where
  "later_than now t = (case t of None \<Rightarrow> False | Some t \<Rightarrow> t > now)"

definition not_later :: "time \<Rightarrow> time option \<Rightarrow> bool" where
  "not_later now t = (case t of None \<Rightarrow> False | Some t \<Rightarrow> t \<le> now)"

definition older_by :: "time \<Rightarrow> int \<Rightarrow> time option \<Rightarrow> bool" where
  "older_by now age t = (case t of None \<Rightarrow> False | Some t \<Rightarrow> now - t \<ge> age)"

text \<open>\<open>ORDER BY finished_at DESC\<close>: NULL comes last.\<close>

definition latest_first :: "('a \<Rightarrow> time option) \<Rightarrow> 'a list \<Rightarrow> 'a list" where
  "latest_first t xs = sort_key (\<lambda>x. - the (t x)) (filter (\<lambda>x. t x \<noteq> None) xs) @ filter (\<lambda>x. t x = None) xs"

definition runs_of :: "db \<Rightarrow> id \<Rightarrow> id \<Rightarrow> id \<Rightarrow> run_row list" where
  "runs_of d job connection target =
     latest_first r_finished (filter (\<lambda>r. r_job r = job \<and> r_connection r = Some connection \<and> r_target r = Some target) (runs d))"

section \<open>Executions\<close>

definition pair_history :: "db \<Rightarrow> id \<Rightarrow> id \<Rightarrow> id \<Rightarrow> digest \<Rightarrow> (pair_row \<times> exec_row) list" where
  "pair_history d job connection target f =
     sort_key (\<lambda>x. - e_queued_at (snd x))
       (List.map_filter (\<lambda>p. case find_exec d (p_execution p) of
            Some e \<Rightarrow> if e_job e = job \<and> p_connection p = connection \<and> p_target p = target \<and> p_fingerprint p = f then Some (p, e) else None
          | None \<Rightarrow> None) (pairs d))"

definition latest_occurrence :: "(pair_row \<times> exec_row) list \<Rightarrow> (pair_row \<times> exec_row) option" where
  "latest_occurrence ps =
     (case sort_key (\<lambda>x. - the (e_scheduled_for (snd x)))
         (filter (\<lambda>x. e_scheduled_for (snd x) \<noteq> None \<and> e_trigger (snd x) \<in> {Scheduled, Catchup}) ps) of
        [] \<Rightarrow> None | x # _ \<Rightarrow> Some x)"

definition running_attempt :: "db \<Rightarrow> pair_row \<Rightarrow> attempt_row option" where
  "running_attempt d p =
     (case sort_key (\<lambda>a. - a_number a) (filter (\<lambda>a. a_status a = ARunning) (attempts_of d (p_id p))) of
        [] \<Rightarrow> None | a # _ \<Rightarrow> Some a)"

definition active_attempts :: "db \<Rightarrow> (pair_row \<times> exec_row) list \<Rightarrow> attempt_row list" where
  "active_attempts d ps = List.map_filter (running_attempt d) (filter (\<lambda>p. is_active_status (p_status p)) (map fst ps))"

fun pair_status_text :: "pair_status \<Rightarrow> string" where
  "pair_status_text PQueued = ''queued''"
| "pair_status_text PRetryWait = ''retry_wait''"
| "pair_status_text PRunning = ''running''"
| "pair_status_text PCancelRequested = ''cancel_requested''"
| "pair_status_text PSuccess = ''success''"
| "pair_status_text PFailed = ''failed''"
| "pair_status_text PCancelled = ''cancelled''"
| "pair_status_text PInterrupted = ''interrupted''"
| "pair_status_text PNotStarted = ''not_started''"

section \<open>The policy\<close>

text \<open>One source and destination whose configuration is corrupt.\<close>

definition invalid_assessment :: "job_row \<Rightarrow> id \<Rightarrow> id \<Rightarrow> bool \<Rightarrow> assessment" where
  "invalid_assessment j connection target required =
     \<lparr>pa_job = j_id j, pa_connection = connection, pa_target = target, pa_required = required,
      pa_fingerprint = Plain ''invalid_configuration'', pa_run = None, pa_verified = None,
      pa_freshness = (if j_enabled j then FUnknown else FPaused),
      pa_missed = (if j_enabled j then MUnknown else MPaused),
      pa_long = (if j_enabled j then LUnknown else LPaused),
      pa_evidence = \<lparr>ev_reason = ''Invalid persisted backup selection configuration'', ev_grace = None, ev_outcome = None,
        ev_verification = None, ev_scheduled = None, ev_running = None, ev_rollback = False\<rparr>\<rparr>"

definition hours :: int where
  "hours = 3600000"

definition minutes :: int where
  "minutes = 60000"

definition freshness_of :: "time \<Rightarrow> job_row \<Rightarrow> run_row option \<Rightarrow> bool \<Rightarrow> bool \<Rightarrow> freshness" where
  "freshness_of now j latest has_history has_matching =
     (case latest of
        Some r \<Rightarrow> if older_by now (j_max_age j * hours) (r_finished r) then Stale else Fresh
      | None \<Rightarrow>
          if (\<not> has_history \<or> has_matching) \<and> now < j_created j + j_max_age j * hours then Grace
          else if has_history \<and> \<not> has_matching then FUnknown else Stale)"

definition missed_occurrence :: "time \<Rightarrow> job_row \<Rightarrow> (pair_row \<times> exec_row) list \<Rightarrow> time option" where
  "missed_occurrence now j ps =
     (case latest_occurrence ps of
        None \<Rightarrow> None
      | Some (p, e) \<Rightarrow> if p_started p = None \<and> p_status p = PQueued \<and> older_by now (j_start_grace j * minutes) (e_scheduled_for e)
                       then e_scheduled_for e else None)"

definition overdue_run :: "time \<Rightarrow> job_row \<Rightarrow> time option" where
  "overdue_run now j = (if older_by now (j_start_grace j * minutes) (j_next_run j) then j_next_run j else None)"

definition first_some :: "'a option list \<Rightarrow> 'a option" where
  "first_some xs = (case filter (\<lambda>x. x \<noteq> None) xs of [] \<Rightarrow> None | x # _ \<Rightarrow> x)"

definition nonempty_text :: "string \<Rightarrow> string option" where
  "nonempty_text s = (if s = [] then None else Some s)"

definition assess_pair :: "db \<Rightarrow> time \<Rightarrow> job_row \<Rightarrow> id \<Rightarrow> id \<Rightarrow> bool \<Rightarrow> digest \<Rightarrow> assessment" where
  "assess_pair d now j connection target required f =
     (let ps = pair_history d (j_id j) connection target f;
          rs = runs_of d (j_id j) connection target;
          matching = filter (\<lambda>r. run_matches r f) rs;
          latest = List.find (\<lambda>r. not_later now (r_finished r)) (filter verified_run matching);
          has_history = (rs \<noteq> [] \<or> ps \<noteq> []);
          active = active_attempts d ps;
          future = (list_ex (\<lambda>r. later_than now (r_finished r) \<or> r_started r > now) matching
            \<or> list_ex (\<lambda>x. e_queued_at (snd x) > now) ps \<or> j_created j > now
            \<or> list_ex (\<lambda>a. later_than now (a_started a)) active);
          missed = missed_occurrence now j ps; due = overdue_run now j;
          running = List.find (\<lambda>a. older_by now (j_long_running j * minutes) (a_started a)) active
      in \<lparr>pa_job = j_id j, pa_connection = connection, pa_target = target, pa_required = required, pa_fingerprint = f,
          pa_run = map_option r_id latest, pa_verified = Option.bind latest r_finished,
          pa_freshness = (if \<not> j_enabled j then FPaused else if future then FUnknown
             else freshness_of now j latest has_history (matching \<noteq> [] \<or> ps \<noteq> [])),
          pa_missed = (if \<not> j_enabled j then MPaused else if future then MUnknown
             else if missed \<noteq> None \<or> due \<noteq> None then Missed else OnTime),
          pa_long = (if \<not> j_enabled j then LPaused else if future then LUnknown
             else if running \<noteq> None then LongRunning else Normal),
          pa_evidence =
            \<lparr>ev_reason = (if future then ''Future-dated evidence: clock rollback or invalid timestamps''
               else if latest \<noteq> None then ''Verified artifact with matching recorded configuration''
               else if \<not> has_history then ''No history: freshness grace starts at schedule creation''
               else ''No verified artifact proves the current configuration''),
             ev_grace = (if has_history then None else Some (j_created j + j_max_age j * hours)),
             ev_outcome = first_some [Option.bind (case matching of [] \<Rightarrow> None | r # _ \<Rightarrow> Some (r_status r)) nonempty_text,
               case ps of [] \<Rightarrow> None | x # _ \<Rightarrow> Some (pair_status_text (p_status (fst x)))],
             ev_verification = Option.bind (case matching of [] \<Rightarrow> None | r # _ \<Rightarrow> r_verification r) nonempty_text,
             ev_scheduled = first_some [missed, due],
             ev_running = Option.bind running a_started,
             ev_rollback = future\<rparr>\<rparr>)"

text \<open>The sources and the destinations of a schedule; a schedule of an older version names one of
  each itself.\<close>

definition assessed_sources :: "db \<Rightarrow> job_row \<Rightarrow> (id \<times> jtext) list" where
  "assessed_sources d j =
     (case filter (\<lambda>r. jc_job r = j_id j) (job_connections d) of
        [] \<Rightarrow> [(j_connection j, j_names j)] | rs \<Rightarrow> map (\<lambda>r. (jc_connection r, jc_names r)) rs)"

definition assessed_targets :: "db \<Rightarrow> job_row \<Rightarrow> (id \<times> bool) list" where
  "assessed_targets d j =
     (case filter (\<lambda>r. js_job r = j_id j) (job_storages d) of
        [] \<Rightarrow> [(j_target j, True)] | rs \<Rightarrow> map (\<lambda>r. (js_target r, js_required r)) rs)"

definition selection_of :: "db \<Rightarrow> job_row \<Rightarrow> id \<Rightarrow> jtext \<Rightarrow> digest result" where
  "selection_of d j connection names =
     (case snapshot_configuration j names (find_connection d connection) False of
        Inl e \<Rightarrow> Inl e | Inr s \<Rightarrow> selection_fingerprint s)"

definition assess_job :: "db \<Rightarrow> time \<Rightarrow> job_row \<Rightarrow> assessment list" where
  "assess_job d now j = concat (map (\<lambda>(connection, names). map (\<lambda>(target, required).
      case selection_of d j connection names of
        Inl _ \<Rightarrow> invalid_assessment j connection target required
      | Inr f \<Rightarrow> assess_pair d now j connection target required f) (assessed_targets d j)) (assessed_sources d j))"

definition assess :: "db \<Rightarrow> time \<Rightarrow> assessment list" where
  "assess d now = concat (map (assess_job d now) (jobs d))"

section \<open>Incidents\<close>

text \<open>What a status says of an incident: it is there, it is not, or nothing new is known.\<close>

datatype condition = Bad | Clear | Held

definition conditions :: "assessment \<Rightarrow> (incident_kind \<times> condition) list" where
  "conditions a =
     [(KFreshness, case pa_freshness a of Stale \<Rightarrow> Bad | FUnknown \<Rightarrow> Held | FPaused \<Rightarrow> Held | _ \<Rightarrow> Clear),
      (KMissedStart, case pa_missed a of Missed \<Rightarrow> Bad | MUnknown \<Rightarrow> Held | MPaused \<Rightarrow> Held | _ \<Rightarrow> Clear),
      (KLongRunning, case pa_long a of LongRunning \<Rightarrow> Bad | LUnknown \<Rightarrow> Held | LPaused \<Rightarrow> Held | _ \<Rightarrow> Clear)]"

type_synonym protection_key = "id \<times> id \<times> id \<times> digest \<times> incident_kind"

definition assessment_key :: "assessment \<Rightarrow> incident_kind \<Rightarrow> protection_key" where
  "assessment_key a k = (pa_job a, pa_connection a, pa_target a, pa_fingerprint a, k)"

definition incident_key :: "incident_row \<Rightarrow> protection_key" where
  "incident_key i = (i_job i, i_connection i, i_target i, i_fingerprint i, i_kind i)"

text \<open>The payload of an event; \<open>hex\<close> is the hexadecimal SHA-256 of a JSON text.\<close>

definition digest_text :: "(json \<Rightarrow> string) \<Rightarrow> digest \<Rightarrow> string" where
  "digest_text hex f = (case f of Sha256 j \<Rightarrow> hex j | Plain s \<Rightarrow> s)"

definition incident_payload :: "id \<Rightarrow> (string \<times> json) list \<Rightarrow> jtext" where
  "incident_payload i assessment = Parsed (JObj [(''incidentId'', JStr i), (''assessment'', JObj assessment)])"

fun freshness_text :: "freshness \<Rightarrow> string" where
  "freshness_text Fresh = ''fresh''"
| "freshness_text Stale = ''stale''"
| "freshness_text Grace = ''grace''"
| "freshness_text FUnknown = ''unknown''"
| "freshness_text FPaused = ''paused''"

fun missed_text :: "missed_start \<Rightarrow> string" where
  "missed_text OnTime = ''on_time''"
| "missed_text Missed = ''missed''"
| "missed_text MUnknown = ''unknown''"
| "missed_text MPaused = ''paused''"

fun long_text :: "long_running \<Rightarrow> string" where
  "long_text Normal = ''normal''"
| "long_text LongRunning = ''long_running''"
| "long_text LUnknown = ''unknown''"
| "long_text LPaused = ''paused''"

definition json_text :: "string option \<Rightarrow> json" where
  "json_text t = (case t of None \<Rightarrow> JNull | Some s \<Rightarrow> JStr s)"

definition json_date :: "time option \<Rightarrow> json" where
  "json_date t = json_text (map_option iso_string t)"

definition evidence_json :: "evidence \<Rightarrow> json" where
  "evidence_json e = JObj
     [(''reason'', JStr (ev_reason e)), (''graceUntil'', json_date (ev_grace e)), (''latestOutcome'', json_text (ev_outcome e)),
      (''latestVerificationStatus'', json_text (ev_verification e)), (''scheduledFor'', json_date (ev_scheduled e)),
      (''runningSince'', json_date (ev_running e)), (''clockRollback'', JBool (ev_rollback e))]"

definition assessment_json :: "(json \<Rightarrow> string) \<Rightarrow> assessment \<Rightarrow> (string \<times> json) list" where
  "assessment_json hex a =
     [(''jobId'', JStr (pa_job a)), (''connectionId'', JStr (pa_connection a)), (''storageTargetId'', JStr (pa_target a)),
      (''required'', JBool (pa_required a)), (''fingerprint'', JStr (digest_text hex (pa_fingerprint a))),
      (''latestVerifiedRunId'', json_text (pa_run a)), (''latestVerifiedAt'', json_date (pa_verified a)),
      (''freshnessStatus'', JStr (freshness_text (pa_freshness a))), (''missedStartStatus'', JStr (missed_text (pa_missed a))),
      (''longRunningStatus'', JStr (long_text (pa_long a))), (''evidence'', evidence_json (pa_evidence a))]"

text \<open>INSERT INTO protection_incidents under the unique index of the open incidents.\<close>

definition open_incident :: "(json \<Rightarrow> string) \<Rightarrow> time \<Rightarrow> assessment \<Rightarrow> incident_kind \<Rightarrow> db \<Rightarrow> (id \<times> db) result" where
  "open_incident hex now a k d =
     (if \<exists>i \<in> set (incidents d). i_open i \<and> incident_key i = assessment_key a k
      then Inl (Failure ''UNIQUE constraint failed: protection_incidents'')
      else let i = uuid (draws d);
               d1 = d\<lparr>incidents := incidents d @ [\<lparr>i_id = i, i_job = pa_job a, i_connection = pa_connection a, i_target = pa_target a,
                        i_fingerprint = pa_fingerprint a, i_kind = k, i_open = True, i_opened = now, i_updated = now, i_resolved = None,
                        i_evidence = Parsed (JObj (assessment_json hex a))\<rparr>],
                      draws := Suc (draws d)\<rparr>
           in Inr (i, add_event now None None ''protection_incident_opened'' None (incident_payload i (assessment_json hex a)) d1))"

text \<open>The loop over the assessments and the three kinds: the incidents that stay open (\<open>active\<close>)
  and the ones that are opened.\<close>

fun visit :: "(json \<Rightarrow> string) \<Rightarrow> time \<Rightarrow> incident_row list \<Rightarrow> (assessment \<times> incident_kind \<times> condition) list \<Rightarrow> db \<Rightarrow> id list \<Rightarrow>
    (db \<times> id list) result" where
  "visit hex now opened [] d active = Inr (d, active)"
| "visit hex now opened ((a, k, c) # xs) d active =
     (let existing = List.find (\<lambda>i. incident_key i = assessment_key a k) opened
      in if \<not> pa_required a then visit hex now opened xs d active
         else if c = Held then visit hex now opened xs d (case existing of Some i \<Rightarrow> i_id i # active | None \<Rightarrow> active)
         else if c = Clear then visit hex now opened xs d active
         else (case existing of
                 Some i \<Rightarrow> visit hex now opened xs d (i_id i # active)
               | None \<Rightarrow> (case open_incident hex now a k d of
                            Inl e \<Rightarrow> Inl e | Inr (i, d1) \<Rightarrow> visit hex now opened xs d1 (i # active))))"

definition kind_text :: "incident_kind \<Rightarrow> string" where
  "kind_text k = (case k of KFreshness \<Rightarrow> ''freshness'' | KMissedStart \<Rightarrow> ''missed_start'' | KLongRunning \<Rightarrow> ''long_running'')"

definition same_pair :: "incident_row \<Rightarrow> assessment \<Rightarrow> bool" where
  "same_pair i a = (pa_job a = i_job i \<and> pa_connection a = i_connection i \<and> pa_target a = i_target i)"

definition close_reason :: "assessment list \<Rightarrow> incident_row \<Rightarrow> string" where
  "close_reason as i =
     (case List.find (same_pair i) as of
        None \<Rightarrow> ''configuration_removed''
      | Some a \<Rightarrow> if pa_fingerprint a \<noteq> i_fingerprint i then ''configuration_changed''
                  else if \<not> pa_required a then ''destination_optional'' else ''condition_cleared'')"

text \<open>A required pair whose configuration cannot be read keeps its incidents.\<close>

definition held_by_invalid :: "assessment list \<Rightarrow> incident_row \<Rightarrow> bool" where
  "held_by_invalid as i =
     (case List.find (\<lambda>a. same_pair i a \<and> pa_fingerprint a = Plain ''invalid_configuration'') as of
        None \<Rightarrow> False | Some a \<Rightarrow> pa_required a)"

definition close_incident :: "(json \<Rightarrow> string) \<Rightarrow> time \<Rightarrow> assessment list \<Rightarrow> incident_row \<Rightarrow> db \<Rightarrow> db" where
  "close_incident hex now as i d =
     (let reason = close_reason as i;
          d1 = d\<lparr>incidents := update_where (\<lambda>r. i_id r = i_id i \<and> i_open r)
                 (\<lambda>r. r\<lparr>i_open := False, i_updated := now, i_resolved := Some now\<rparr>) (incidents d)\<rparr>
      in add_event now None None
           (if reason = ''condition_cleared'' then ''protection_incident_resolved'' else ''protection_incident_closed'') None
           (incident_payload (i_id i) [(''reason'', JStr reason), (''jobId'', JStr (i_job i)), (''connectionId'', JStr (i_connection i)),
              (''storageTargetId'', JStr (i_target i)), (''fingerprint'', JStr (digest_text hex (i_fingerprint i))),
              (''kind'', JStr (kind_text (i_kind i)))]) d1)"

fun close_others :: "(json \<Rightarrow> string) \<Rightarrow> time \<Rightarrow> assessment list \<Rightarrow> id list \<Rightarrow> incident_row list \<Rightarrow> db \<Rightarrow> db" where
  "close_others hex now as active [] d = d"
| "close_others hex now as active (i # is) d =
     close_others hex now as active is
       (if i_id i \<in> set active \<or> held_by_invalid as i then d else close_incident hex now as i d)"

definition all_conditions :: "assessment list \<Rightarrow> (assessment \<times> incident_kind \<times> condition) list" where
  "all_conditions as = concat (map (\<lambda>a. map (Pair a) (conditions a)) as)"

text \<open>\<open>evaluateIncidents\<close>; the transaction leaves the database as it was when a statement fails.\<close>

definition evaluate_incidents :: "(json \<Rightarrow> string) \<Rightarrow> time \<Rightarrow> db \<Rightarrow> db result" where
  "evaluate_incidents hex now d =
     (let as = assess d now; opened = filter i_open (incidents d)
      in case visit hex now opened (all_conditions as) d [] of
           Inl e \<Rightarrow> Inl e
         | Inr (d1, active) \<Rightarrow> Inr (close_others hex now as active opened d1))"

end
