(* ===== verification/Protection_Props.thy ===== *)
theory Protection_Props
  imports Protection Sample
begin

text \<open>
  Freshness is proved by a verified run whose columns are the configured selection, and the open incidents
  follow the assessments.
\<close>

section \<open>Verified runs\<close>

lemma set_latest_first [simp]: "set (latest_first t xs) = set xs"
  by (auto simp: latest_first_def)

lemma find_sorted_least:
  "sorted (map f xs) \<Longrightarrow> List.find P xs = Some x \<Longrightarrow> y \<in> set xs \<Longrightarrow> P y \<Longrightarrow> f x \<le> f y"
  by (induction xs) (auto split: if_splits)

lemma find_filter: "List.find P (filter Q xs) = List.find (\<lambda>x. Q x \<and> P x) xs"
  by (induction xs) auto

lemma find_latest:
  assumes "List.find P (latest_first t xs) = Some x" and "y \<in> set xs" and "P y" and "t y = Some w" and "\<And>z. P z \<Longrightarrow> t z \<noteq> None"
  shows "\<exists>v. t x = Some v \<and> w \<le> v"
proof -
  let ?dated = "sort_key (\<lambda>x. - the (t x)) (filter (\<lambda>x. t x \<noteq> None) xs)"
  have y: "y \<in> set ?dated" using assms(2,4) by simp
  then have "List.find P ?dated \<noteq> None" using assms(3) by (auto simp: find_None_iff simp del: find_key_None)
  then have x: "List.find P ?dated = Some x" using assms(1) by (auto simp: latest_first_def find_append split: option.splits simp del: find_key_None)
  have "- the (t x) \<le> - the (t y)" by (rule find_sorted_least [OF _ x y assms(3)]) simp
  moreover have "P x" using x by (auto simp: find_Some_iff)
  ultimately show ?thesis using assms(4,5) by fastforce
qed

text \<open>What a run recorded, compared column by column with the selection that is configured now: the
  snapshot \<open>s\<close> of the schedule and the names \<open>ns\<close> in it. Nothing here is hashed.\<close>

definition recorded_as :: "run_row \<Rightarrow> snapshot \<Rightarrow> bool" where
  "recorded_as r s =
     (r_scope r = Some (s_scope s) \<and> r_layout r = Some (s_layout s) \<and> r_insert_mode r = Some (s_insert_mode s)
      \<and> r_compression r = Some (s_compression s) \<and> r_encryption r = Some (s_encryption s)
      \<and> (\<exists>objects. r_objects r = Parsed objects
            \<and> jget objects ''views'' = Some (JBool (bo_views (s_objects s)))
            \<and> jget objects ''routines'' = Some (JBool (bo_routines (s_objects s)))
            \<and> jget objects ''triggers'' = Some (JBool (bo_triggers (s_objects s)))
            \<and> jget objects ''events'' = Some (JBool (bo_events (s_objects s))))
      \<and> r_names r \<noteq> Absent
      \<and> (s_scope s = ''all'' \<or> (\<exists>ms ns. r_names r = Parsed (JArr (map JStr ms)) \<and> s_names s = Parsed (JArr (map JStr ns)) \<and> set ms = set ns)))"

text \<open>The run \<open>r\<close> proves at \<open>now\<close> that the pair of the assessment was backed up at \<open>t\<close> with the
  selection \<open>s\<close>.\<close>

definition proves :: "db \<Rightarrow> time \<Rightarrow> snapshot \<Rightarrow> assessment \<Rightarrow> run_row \<Rightarrow> time \<Rightarrow> bool" where
  "proves d now s a r t =
     (r \<in> set (runs d) \<and> r_job r = pa_job a \<and> r_connection r = Some (pa_connection a) \<and> r_target r = Some (pa_target a)
      \<and> r_status r = ''success'' \<and> r_verification r = Some ''passed'' \<and> recorded_as r s
      \<and> r_finished r = Some t \<and> t \<le> now)"

lemma parse_names_iff: "parse_database_names t = Inr ms \<longleftrightarrow> t = Parsed (JArr (map JStr ms))"
proof
  assume A: "parse_database_names t = Inr ms"
  then obtain xs where xs: "t = Parsed (JArr xs)" "list_all is_jstr xs" "ms = map jstr xs"
    by (cases t rule: parse_database_names.cases) (auto split: if_splits)
  have "map JStr (map jstr xs) = xs" using xs(2) by (induction xs) (auto simp: is_jstr_def split: json.splits)
  with xs show "t = Parsed (JArr (map JStr ms))" by simp
next
  assume "t = Parsed (JArr (map JStr ms))"
  then show "parse_database_names t = Inr ms" using parse_json_names [of ms] by (simp add: json_names_def)
qed

lemma object_bool_iff: "object_bool objects k = Some b \<longleftrightarrow> jget objects k = Some (JBool b)"
  by (auto simp: object_bool_def split: option.splits json.splits)

lemma run_objects_iff:
  "run_objects t = Some q \<longleftrightarrow> (\<exists>objects. t = Parsed objects
     \<and> jget objects ''views'' = Some (JBool (bo_views q)) \<and> jget objects ''routines'' = Some (JBool (bo_routines q))
     \<and> jget objects ''triggers'' = Some (JBool (bo_triggers q)) \<and> jget objects ''events'' = Some (JBool (bo_events q)))"
  unfolding run_objects_def object_bool_iff [symmetric]
  by (cases q) (auto split: jtext.splits option.splits)

lemma run_snapshot_iff:
  "run_snapshot r = Some g \<longleftrightarrow> r_scope r = Some (s_scope g) \<and> r_layout r = Some (s_layout g) \<and> r_insert_mode r = Some (s_insert_mode g)
     \<and> r_compression r = Some (s_compression g) \<and> r_encryption r = Some (s_encryption g) \<and> run_objects (r_objects r) = Some (s_objects g)
     \<and> r_names r \<noteq> Absent
     \<and> g = \<lparr>s_name = [], s_scope = s_scope g, s_names = r_names r, s_layout = s_layout g, s_objects = s_objects g,
          s_insert_mode = s_insert_mode g, s_compression = s_compression g, s_encryption = s_encryption g, s_prefix = [],
          s_retention = 0, s_retry_count = 0, s_retry_delay = 0, s_pitr = False\<rparr>"
  unfolding run_snapshot_def by (auto split: option.splits if_splits)

text \<open>Matching fingerprints are matching columns.\<close>

lemma run_matches_recorded:
  assumes "snapshot_configuration j names source False = Inr s" and "selection_fingerprint s = Inr f"
  shows "run_matches r f \<longleftrightarrow> recorded_as r s"
proof -
  from assms(1) obtain ns where ns: "s_names s = Parsed (JArr (map JStr ns))"
    by (elim snapshot_configuration_Inr) (simp add: json_names_def)
  then have parse_s: "parse_database_names (s_names s) = Inr ns" by (simp only: parse_names_iff)
  have one: "selection_fingerprint g = Inr f \<longleftrightarrow>
      s_scope g = s_scope s \<and> s_layout g = s_layout s \<and> s_objects g = s_objects s \<and> s_insert_mode g = s_insert_mode s
      \<and> s_compression g = s_compression s \<and> s_encryption g = s_encryption s
      \<and> (s_scope s = ''all'' \<or> (\<exists>ms. s_names g = Parsed (JArr (map JStr ms)) \<and> set ms = set ns))" for g
    unfolding parse_names_iff [symmetric] using assms(2) parse_s
    by (cases "s_scope g = ''all''"; cases "s_scope s = ''all''"; cases "parse_database_names (s_names g)")
       (auto simp: selection_fingerprint_def fingerprint_key_eq_iff canonical_names_eq_iff)
  have names: "(\<exists>ms ks. r_names r = Parsed (JArr (map JStr ms)) \<and> s_names s = Parsed (JArr (map JStr ks)) \<and> set ms = set ks)
      \<longleftrightarrow> (\<exists>ms. r_names r = Parsed (JArr (map JStr ms)) \<and> set ms = set ns)"
    unfolding ns by (auto simp: inj_JStr)
  have "run_matches r f \<longleftrightarrow> (\<exists>g. run_snapshot r = Some g \<and> selection_fingerprint g = Inr f)"
    by (auto simp: run_matches_def split: option.splits sum.splits)
  also have "\<dots> \<longleftrightarrow> recorded_as r s"
  proof
    assume "\<exists>g. run_snapshot r = Some g \<and> selection_fingerprint g = Inr f"
    then obtain g where g: "run_snapshot r = Some g" "selection_fingerprint g = Inr f" by blast
    have "s_names g = r_names r" using g(1) unfolding run_snapshot_iff by (metis snapshot.select_convs(3))
    with g show "recorded_as r s"
      unfolding recorded_as_def run_snapshot_iff run_objects_iff one names by simp
  next
    assume R: "recorded_as r s"
    let ?g = "\<lparr>s_name = [], s_scope = s_scope s, s_names = r_names r, s_layout = s_layout s, s_objects = s_objects s,
          s_insert_mode = s_insert_mode s, s_compression = s_compression s, s_encryption = s_encryption s, s_prefix = [],
          s_retention = 0, s_retry_count = 0, s_retry_delay = 0, s_pitr = False\<rparr>"
    have "run_snapshot r = Some ?g" "selection_fingerprint ?g = Inr f"
      using R unfolding recorded_as_def run_snapshot_iff run_objects_iff one names by simp_all
    then show "\<exists>g. run_snapshot r = Some g \<and> selection_fingerprint g = Inr f" by blast
  qed
  finally show ?thesis .
qed

lemma assess_member:
  assumes "a \<in> set (assess d now)"
  obtains j connection names target required where "j \<in> set (jobs d)" "(connection, names) \<in> set (assessed_sources d j)"
    "(target, required) \<in> set (assessed_targets d j)"
    "(\<exists>e. selection_of d j connection names = Inl e \<and> a = invalid_assessment j connection target required)
     \<or> (\<exists>f. selection_of d j connection names = Inr f \<and> a = assess_pair d now j connection target required f)"
proof -
  from assms obtain j where j: "j \<in> set (jobs d)" "a \<in> set (assess_job d now j)" by (auto simp: assess_def)
  from j(2) obtain connection names target required where p: "(connection, names) \<in> set (assessed_sources d j)"
    "(target, required) \<in> set (assessed_targets d j)"
    "a = (case selection_of d j connection names of Inl _ \<Rightarrow> invalid_assessment j connection target required
       | Inr f \<Rightarrow> assess_pair d now j connection target required f)"
    by (auto simp: assess_job_def)
  show thesis using that [OF j(1) p(1,2)] p(3) by (cases "selection_of d j connection names") auto
qed

lemma assess_pair_fields [simp]:
  "pa_job (assess_pair d now j connection target required f) = j_id j"
  "pa_connection (assess_pair d now j connection target required f) = connection"
  "pa_target (assess_pair d now j connection target required f) = target"
  "pa_required (assess_pair d now j connection target required f) = required"
  "pa_fingerprint (assess_pair d now j connection target required f) = f"
  by (simp_all add: assess_pair_def Let_def)

lemma invalid_assessment_fields [simp]:
  "pa_job (invalid_assessment j connection target required) = j_id j"
  "pa_connection (invalid_assessment j connection target required) = connection"
  "pa_target (invalid_assessment j connection target required) = target"
  "pa_required (invalid_assessment j connection target required) = required"
  "pa_fingerprint (invalid_assessment j connection target required) = Plain ''invalid_configuration''"
  by (simp_all add: invalid_assessment_def)

definition latest_proof :: "db \<Rightarrow> time \<Rightarrow> job_row \<Rightarrow> id \<Rightarrow> id \<Rightarrow> digest \<Rightarrow> run_row option" where
  "latest_proof d now j connection target f =
     List.find (\<lambda>r. not_later now (r_finished r)) (filter verified_run (filter (\<lambda>r. run_matches r f) (runs_of d (j_id j) connection target)))"

lemma assess_pair_freshness:
  assumes "a = assess_pair d now j connection target required f" and "pa_freshness a = Fresh \<or> pa_freshness a = Stale"
  shows "j_enabled j \<and> pa_run a = map_option r_id (latest_proof d now j connection target f)
     \<and> pa_verified a = Option.bind (latest_proof d now j connection target f) r_finished
     \<and> (case latest_proof d now j connection target f of
          None \<Rightarrow> pa_freshness a = Stale
        | Some r \<Rightarrow> (pa_freshness a = Stale \<longleftrightarrow> older_by now (j_max_age j * hours) (r_finished r)))"
  using assms by (auto simp: assess_pair_def Let_def latest_proof_def freshness_of_def split: if_splits option.splits)

lemma latest_proof_find:
  "latest_proof d now j connection target f =
     List.find (\<lambda>r. run_matches r f \<and> verified_run r \<and> not_later now (r_finished r)) (runs_of d (j_id j) connection target)"
  by (simp add: latest_proof_def find_filter conj_ac)

lemma runs_of_member:
  "r \<in> set (runs_of d job connection target) \<longleftrightarrow> r \<in> set (runs d) \<and> r_job r = job \<and> r_connection r = Some connection \<and> r_target r = Some target"
  by (auto simp: runs_of_def)

lemma latest_proof_proves:
  assumes a: "pa_job a = j_id j" "pa_connection a = connection" "pa_target a = target"
    and matching: "\<And>r. run_matches r f \<longleftrightarrow> recorded_as r s"
  shows "case latest_proof d now j connection target f of
      None \<Rightarrow> \<forall>r t. \<not> proves d now s a r t
    | Some r \<Rightarrow> \<exists>t. proves d now s a r t \<and> (\<forall>r' t'. proves d now s a r' t' \<longrightarrow> t' \<le> t)"
proof (cases "latest_proof d now j connection target f")
  case None
  have "\<not> proves d now s a r t" for r t
  proof
    assume "proves d now s a r t"
    then have "r \<in> set (runs_of d (j_id j) connection target)" "run_matches r f \<and> verified_run r \<and> not_later now (r_finished r)"
      by (auto simp: proves_def a matching runs_of_member verified_run_def not_later_def)
    with None show False by (auto simp: latest_proof_find find_None_iff simp del: find_key_None)
  qed
  with None show ?thesis by simp
next
  case (Some r)
  then have r: "r \<in> set (runs_of d (j_id j) connection target)" "run_matches r f \<and> verified_run r \<and> not_later now (r_finished r)"
    unfolding latest_proof_find by (auto simp: find_Some_iff)
  then obtain t where t: "proves d now s a r t"
    by (auto simp: proves_def a matching runs_of_member verified_run_def not_later_def split: option.splits)
  have "t' \<le> t" if "proves d now s a r' t'" for r' t'
  proof -
    let ?P = "\<lambda>r. run_matches r f \<and> verified_run r \<and> not_later now (r_finished r)"
    let ?rs = "filter (\<lambda>r. r_job r = j_id j \<and> r_connection r = Some connection \<and> r_target r = Some target) (runs d)"
    have "List.find ?P (latest_first r_finished ?rs) = Some r" using Some by (simp add: latest_proof_find runs_of_def)
    moreover have "r' \<in> set ?rs" "?P r'" "r_finished r' = Some t'"
      using that by (auto simp: proves_def a matching verified_run_def not_later_def)
    ultimately have "\<exists>v. r_finished r = Some v \<and> t' \<le> v"
      by (rule find_latest) (simp add: verified_run_def)
    with t show ?thesis by (simp add: proves_def)
  qed
  with Some t show ?thesis by auto
qed

text \<open>The selection that is configured now for the source of an assessment: \<open>s\<close> is the snapshot of the
  schedule \<open>j\<close> with the names it stores for this source.\<close>

definition configured_now :: "db \<Rightarrow> job_row \<Rightarrow> assessment \<Rightarrow> snapshot \<Rightarrow> bool" where
  "configured_now d j a s = (\<exists>names. (pa_connection a, names) \<in> set (assessed_sources d j)
     \<and> snapshot_configuration j names (find_connection d (pa_connection a)) False = Inr s)"

text \<open>C13: A pair counts as freshly protected only on proof. Whenever the policy calls a source and
  destination of a schedule fresh, the schedule is enabled and there is a successful run of it for
  this pair, verified, that finished less than the allowed age before the present and whose recorded
  columns are the selection configured now: the same scope, layout, four object switches, insert
  mode, compression and encryption and, unless the scope is all, the same set of databases. The
  assessment names this run, and no proving run is later. When it calls the pair stale, every run
  that proves it is at least as old as the allowed age.\<close>

theorem fresh_protection_is_proved:
  assumes "a \<in> set (assess d now)"
  shows "\<exists>j \<in> set (jobs d). j_id j = pa_job a
    \<and> (pa_freshness a = Fresh \<longrightarrow> j_enabled j \<and> (\<exists>s r t. configured_now d j a s \<and> proves d now s a r t
          \<and> now - t < j_max_age j * hours
          \<and> pa_run a = Some (r_id r) \<and> pa_verified a = Some t \<and> (\<forall>r' t'. proves d now s a r' t' \<longrightarrow> t' \<le> t)))
    \<and> (pa_freshness a = Stale \<longrightarrow> j_enabled j \<and> (\<exists>s. configured_now d j a s
          \<and> (\<forall>r t. proves d now s a r t \<longrightarrow> now - t \<ge> j_max_age j * hours)))"
proof -
  from assms obtain j connection names target required where j: "j \<in> set (jobs d)"
    and source: "(connection, names) \<in> set (assessed_sources d j)"
    and shape: "(\<exists>e. selection_of d j connection names = Inl e \<and> a = invalid_assessment j connection target required)
     \<or> (\<exists>f. selection_of d j connection names = Inr f \<and> a = assess_pair d now j connection target required f)"
    by (rule assess_member)
  from shape show ?thesis
  proof (elim disjE exE conjE)
    fix e assume "a = invalid_assessment j connection target required"
    with j show ?thesis by (intro bexI [of _ j]) (auto simp: invalid_assessment_def split: if_splits)
  next
    fix f assume f: "selection_of d j connection names = Inr f" and a: "a = assess_pair d now j connection target required f"
    then have key: "pa_job a = j_id j" "pa_connection a = connection" "pa_target a = target" by simp_all
    from f obtain s where s: "snapshot_configuration j names (find_connection d connection) False = Inr s" "selection_fingerprint s = Inr f"
      by (auto simp: selection_of_def split: sum.splits)
    have now_s: "configured_now d j a s" using source s(1) key by (auto simp: configured_now_def)
    note facts = assess_pair_freshness [OF a]
      and latest = latest_proof_proves [OF key run_matches_recorded [OF s], of d now]
    show ?thesis
    proof (intro bexI [OF _ j] conjI impI)
      show "j_id j = pa_job a" using key by simp
      assume fresh: "pa_freshness a = Fresh"
      with facts obtain r where r: "latest_proof d now j connection target f = Some r" "j_enabled j" "\<not> older_by now (j_max_age j * hours) (r_finished r)"
        "pa_run a = Some (r_id r)" "pa_verified a = r_finished r" by (auto split: option.splits)
      from latest r(1) obtain t where t: "proves d now s a r t" "\<forall>r' t'. proves d now s a r' t' \<longrightarrow> t' \<le> t" by auto
      moreover have "r_finished r = Some t" using t(1) by (simp add: proves_def)
      ultimately show "\<exists>s r t. configured_now d j a s \<and> proves d now s a r t \<and> now - t < j_max_age j * hours \<and> pa_run a = Some (r_id r)
          \<and> pa_verified a = Some t \<and> (\<forall>r' t'. proves d now s a r' t' \<longrightarrow> t' \<le> t)"
        using r now_s by (auto simp: older_by_def)
      show "j_enabled j" by (rule r(2))
    next
      assume stale: "pa_freshness a = Stale"
      with facts show "j_enabled j" by simp
      have "\<forall>r t. proves d now s a r t \<longrightarrow> now - t \<ge> j_max_age j * hours"
      proof (cases "latest_proof d now j connection target f")
        case None
        with latest show ?thesis by simp
      next
        case (Some r)
        with latest obtain t where t: "proves d now s a r t" "\<forall>r' t'. proves d now s a r' t' \<longrightarrow> t' \<le> t" by auto
        from facts stale Some have "older_by now (j_max_age j * hours) (r_finished r)" by simp
        with t show ?thesis by (fastforce simp: older_by_def proves_def)
      qed
      with now_s show "\<exists>s. configured_now d j a s \<and> (\<forall>r t. proves d now s a r t \<longrightarrow> now - t \<ge> j_max_age j * hours)" by blast
    qed
  qed
qed

chapter \<open>Incidents\<close>

text \<open>
  The open incidents follow the assessments: what one evaluation opens, keeps and resolves.
\<close>

section \<open>Open incidents\<close>

definition is_open :: "db \<Rightarrow> protection_key \<Rightarrow> bool" where
  "is_open d k = (\<exists>i \<in> set (incidents d). i_open i \<and> incident_key i = k)"

definition incidents_ok :: "db \<Rightarrow> bool" where
  "incidents_ok d = (distinct (map i_id (incidents d)) \<and> i_id ` set (incidents d) \<subseteq> uuid ` {..<draws d}
     \<and> distinct (map incident_key (filter i_open (incidents d))))"

abbreviation entry_key :: "assessment \<times> incident_kind \<times> condition \<Rightarrow> protection_key" where
  "entry_key x \<equiv> assessment_key (fst x) (fst (snd x))"

definition opens :: "incident_row list \<Rightarrow> assessment \<times> incident_kind \<times> condition \<Rightarrow> bool" where
  "opens opened x = (pa_required (fst x) \<and> snd (snd x) = Bad \<and> entry_key x \<notin> incident_key ` set opened)"

definition keeps :: "(assessment \<times> incident_kind \<times> condition) list \<Rightarrow> incident_row \<Rightarrow> bool" where
  "keeps xs i = (\<exists>x \<in> set xs. pa_required (fst x) \<and> snd (snd x) \<noteq> Clear \<and> incident_key i = entry_key x)"

lemma keeps_Cons: "keeps (x # xs) i \<longleftrightarrow> (pa_required (fst x) \<and> snd (snd x) \<noteq> Clear \<and> incident_key i = entry_key x) \<or> keeps xs i"
  by (auto simp: keeps_def)

lemma find_key_cases:
  assumes "distinct (map f xs)"
  shows "(case List.find (\<lambda>x. f x = k) xs of None \<Rightarrow> k \<notin> f ` set xs | Some x \<Rightarrow> x \<in> set xs \<and> f x = k \<and> (\<forall>y \<in> set xs. f y = k \<longrightarrow> y = x))"
  using assms by (induction xs) (auto simp del: find_key_None split: option.splits, metis image_eqI)

text \<open>What the loop over the assessments has done: the opened incidents are appended, with fresh
  identifiers; the identifiers of these and of the ones that are kept are collected.\<close>

definition visited :: "incident_row list \<Rightarrow> (assessment \<times> incident_kind \<times> condition) list \<Rightarrow> db \<Rightarrow> id list \<Rightarrow> db \<Rightarrow> id list \<Rightarrow> incident_row list \<Rightarrow> bool" where
  "visited opened xs d act d' act' new =
     (incidents d' = incidents d @ new \<and> (\<forall>i \<in> set new. i_open i) \<and> map incident_key new = map entry_key (filter (opens opened) xs)
      \<and> distinct (map i_id new) \<and> i_id ` set new \<subseteq> uuid ` {draws d..<draws d'} \<and> draws d \<le> draws d'
      \<and> set act' = set act \<union> i_id ` set new \<union> i_id ` {i \<in> set opened. keeps xs i})"

lemma visit_visited:
  assumes "distinct (map incident_key opened)" and "distinct (map entry_key xs)"
    and "\<forall>x \<in> set xs. opens opened x \<longrightarrow> \<not> is_open d (entry_key x)"
  shows "\<exists>d' act' new. visit hex now opened xs d act = Inr (d', act') \<and> visited opened xs d act d' act' new"
  using assms(2,3)
proof (induction xs arbitrary: d act)
  case Nil
  show ?case by (auto simp: visited_def keeps_def)
next
  case (Cons x xs)
  obtain a k c where x: "x = (a, k, c)" by (cases x)
  let ?key = "assessment_key a k"
  let ?find = "List.find (\<lambda>i. incident_key i = ?key) opened"
  note found = find_key_cases [OF assms(1), of ?key]
  have keys: "distinct (map entry_key xs)" "?key \<notin> entry_key ` set xs" using Cons.prems(1) by (auto simp: x)
  have later: "\<forall>y \<in> set xs. opens opened y \<longrightarrow> \<not> is_open d (entry_key y)" using Cons.prems(2) by simp
  note IH = Cons.IH [OF keys(1)]
  show ?case
  proof (cases "pa_required a \<and> c \<noteq> Clear")
    case False
    with IH [OF later, of act] obtain d' act' new where "visit hex now opened xs d act = Inr (d', act')" "visited opened xs d act d' act' new" by blast
    with False show ?thesis by (intro exI [of _ d'] exI [of _ act'] exI [of _ new]) (auto simp: x visited_def keeps_Cons opens_def Let_def)
  next
    case req: True
    show ?thesis
    proof (cases ?find)
      case None
      then have fresh: "?key \<notin> incident_key ` set opened" using found by simp
      then have unmatched: "\<And>i. i \<in> set opened \<Longrightarrow> incident_key i \<noteq> ?key" by (metis image_eqI)
      show ?thesis
      proof (cases "c = Bad")
        case False
        with req have "c = Held" by (cases c) auto
        with IH [OF later, of act] obtain d' act' new where "visit hex now opened xs d act = Inr (d', act')" "visited opened xs d act d' act' new" by blast
        moreover from calculation(1) \<open>c = Held\<close> req None have "visit hex now opened (x # xs) d act = Inr (d', act')" by (simp add: x Let_def del: find_key_None)
        ultimately show ?thesis using fresh unmatched \<open>c = Held\<close>
          by (intro exI [of _ d'] exI [of _ act'] exI [of _ new]) (auto simp: x visited_def keeps_Cons opens_def)
      next
        case True
        then have o: "opens opened x" using req fresh by (simp add: x opens_def)
        then have no: "\<not> is_open d ?key" using Cons.prems(2) by (simp add: x)
        define d1 where "d1 = snd (case open_incident hex now a k d of Inr r \<Rightarrow> r | Inl _ \<Rightarrow> undefined)"
        define row where "row = \<lparr>i_id = uuid (draws d), i_job = pa_job a, i_connection = pa_connection a, i_target = pa_target a,
          i_fingerprint = pa_fingerprint a, i_kind = k, i_open = True, i_opened = now, i_updated = now, i_resolved = None,
          i_evidence = Parsed (JObj (assessment_json hex a))\<rparr>"
        have op: "open_incident hex now a k d = Inr (uuid (draws d), d1)"
          using no by (auto simp: open_incident_def is_open_def d1_def Let_def)
        have d1: "incidents d1 = incidents d @ [row]" "draws d1 = Suc (Suc (draws d))"
          using no by (simp_all add: d1_def open_incident_def is_open_def Let_def row_def) auto
        have row: "i_open row" "incident_key row = ?key" "i_id row = uuid (draws d)" by (simp_all add: row_def incident_key_def assessment_key_def)
        have "\<forall>y \<in> set xs. opens opened y \<longrightarrow> \<not> is_open d1 (entry_key y)"
          using later keys(2) row by (auto simp: is_open_def d1)
        from IH [OF this, of "uuid (draws d) # act"] obtain d' act' new where
          run: "visit hex now opened xs d1 (uuid (draws d) # act) = Inr (d', act')" and v: "visited opened xs d1 (uuid (draws d) # act) d' act' new" by blast
        from run None True req op have "visit hex now opened (x # xs) d act = Inr (d', act')" by (simp add: x Let_def del: find_key_None)
        moreover have "visited opened (x # xs) d act d' act' (row # new)"
        proof -
          have ids: "i_id ` set new \<subseteq> uuid ` {Suc (Suc (draws d))..<draws d'}" "Suc (Suc (draws d)) \<le> draws d'" using v d1 by (simp_all add: visited_def)
          then have "uuid (draws d) \<notin> i_id ` set new" by auto
          moreover have "i_id ` set (row # new) \<subseteq> uuid ` {draws d..<draws d'}"
          proof -
            have "uuid ` {Suc (Suc (draws d))..<draws d'} \<subseteq> uuid ` {draws d..<draws d'}" by (rule image_mono) simp
            moreover have "uuid (draws d) \<in> uuid ` {draws d..<draws d'}" by (rule imageI) (use ids(2) in simp)
            ultimately show ?thesis using ids(1) by (auto simp: row simp del: image_Suc_atLeastLessThan)
          qed
          moreover have "{j \<in> set opened. keeps (x # xs) j} = {j \<in> set opened. keeps xs j}"
            using unmatched by (auto simp: keeps_Cons x)
          moreover have "filter (opens opened) (x # xs) = x # filter (opens opened) xs" using o by simp
          ultimately show ?thesis using v row d1 ids(2) unfolding visited_def by (simp add: x)
        qed
        ultimately show ?thesis by blast
      qed
    next
      case (Some i)
      with found have i: "i \<in> set opened" "incident_key i = ?key" "\<forall>y \<in> set opened. incident_key y = ?key \<longrightarrow> y = i" by auto
      with IH [OF later, of "i_id i # act"] obtain d' act' new where
        run: "visit hex now opened xs d (i_id i # act) = Inr (d', act')" and v: "visited opened xs d (i_id i # act) d' act' new" by blast
      from run Some req have "visit hex now opened (x # xs) d act = Inr (d', act')" by (cases c) (auto simp: x Let_def)
      moreover have "?key \<in> incident_key ` set opened" using i(1,2) by (metis image_eqI)
      then have "\<not> opens opened x" by (simp add: opens_def x)
      moreover have "{j \<in> set opened. keeps (x # xs) j} = insert i {j \<in> set opened. keeps xs j}"
      proof -
        have "keeps (x # xs) j \<longleftrightarrow> j = i \<or> keeps xs j" if "j \<in> set opened" for j
          using that req i(2) i(3) [rule_format, of j] unfolding keeps_Cons x by auto
        then show ?thesis using i(1) by blast
      qed
      moreover have "filter (opens opened) (x # xs) = filter (opens opened) xs" using calculation(2) by simp
      ultimately show ?thesis using v by (intro exI [of _ d'] exI [of _ act'] exI [of _ new]) (simp add: visited_def)
    qed
  qed
qed

section \<open>Closing incidents\<close>

definition closed :: "time \<Rightarrow> incident_row \<Rightarrow> incident_row" where
  "closed now r = r\<lparr>i_open := False, i_updated := now, i_resolved := Some now\<rparr>"

definition closes :: "assessment list \<Rightarrow> id list \<Rightarrow> incident_row \<Rightarrow> bool" where
  "closes as act i = (i_id i \<notin> set act \<and> \<not> held_by_invalid as i)"

lemma closed_fields [simp]: "i_id (closed now r) = i_id r" "incident_key (closed now r) = incident_key r" "\<not> i_open (closed now r)"
  by (simp_all add: closed_def incident_key_def)

lemma close_incident_incidents:
  "incidents (close_incident hex now as i d) =
     map (\<lambda>r. if i_id r = i_id i \<and> i_open r then closed now r else r) (incidents d)"
  by (simp add: close_incident_def Let_def update_where_def closed_def)

lemma close_incident_draws: "draws d \<le> draws (close_incident hex now as i d)"
  by (simp add: close_incident_def Let_def)

lemma close_others_incidents:
  "incidents (close_others hex now as act xs d) =
     map (\<lambda>r. if i_open r \<and> (\<exists>i \<in> set xs. i_id i = i_id r \<and> closes as act i) then closed now r else r) (incidents d)
   \<and> draws d \<le> draws (close_others hex now as act xs d)"
proof (induction xs arbitrary: d)
  case (Cons i xs)
  let ?d = "if closes as act i then close_incident hex now as i d else d"
  have step: "close_others hex now as act (i # xs) d = close_others hex now as act xs ?d" by (auto simp: closes_def)
  have "draws d \<le> draws ?d" using close_incident_draws by simp
  then show ?case using Cons.IH [of ?d] unfolding step
    by (auto simp: close_incident_incidents)
qed simp

section \<open>The assessments name distinct pairs\<close>

definition keys_ok :: "db \<Rightarrow> bool" where
  "keys_ok d = (distinct (map j_id (jobs d)) \<and> distinct (map (\<lambda>r. (jc_job r, jc_connection r)) (job_connections d))
     \<and> distinct (map (\<lambda>r. (js_job r, js_target r)) (job_storages d)))"

lemma distinct_map_concat:
  assumes "distinct (map g xs)" and "\<And>x. x \<in> set xs \<Longrightarrow> distinct (map h (f x))"
    and "\<And>x y. x \<in> set xs \<Longrightarrow> y \<in> set (f x) \<Longrightarrow> p (h y) = g x"
  shows "distinct (map h (concat (map f xs)))"
  using assms
proof (induction xs)
  case (Cons x xs)
  have "h y \<noteq> h z" if "y \<in> set (f x)" and "z' \<in> set xs" and "z \<in> set (f z')" for y z z'
  proof -
    have "p (h y) = g x" "p (h z) = g z'" using Cons.prems(3) that by auto
    moreover have "g x \<noteq> g z'" using Cons.prems(1) that(2) by auto
    ultimately show ?thesis by metis
  qed
  then have "h ` set (f x) \<inter> h ` set (concat (map f xs)) = {}" by fastforce
  moreover have "distinct (map h (concat (map f xs)))" using Cons by simp
  moreover have "distinct (map h (f x))" using Cons.prems(2) by simp
  ultimately show ?case by simp
qed simp

definition pair_key :: "assessment \<Rightarrow> id \<times> id \<times> id" where
  "pair_key a = (pa_job a, pa_connection a, pa_target a)"

lemma conditions_kinds: "map fst (conditions a) = [KFreshness, KMissedStart, KLongRunning]"
  by (simp add: conditions_def)

lemma assess_sources_distinct:
  assumes "keys_ok d"
  shows "distinct (map fst (assessed_sources d j))" and "distinct (map fst (assessed_targets d j))"
proof -
  have one: "distinct (map f (filter (\<lambda>r. g r = k) xs))" if "distinct (map (\<lambda>r. (g r, f r)) xs)" for f g k and xs :: "'x list"
    using that by (induction xs) (auto simp: rev_image_eqI)
  have "distinct (map jc_connection (filter (\<lambda>r. jc_job r = j_id j) (job_connections d)))"
    and "distinct (map js_target (filter (\<lambda>r. js_job r = j_id j) (job_storages d)))"
    using assms unfolding keys_ok_def by (blast intro: one)+
  then show "distinct (map fst (assessed_sources d j))" and "distinct (map fst (assessed_targets d j))"
    by (auto simp: assessed_sources_def assessed_targets_def comp_def split: list.splits)
qed

lemma assess_job_keys:
  assumes "keys_ok d"
  shows "distinct (map pair_key (assess_job d now j))"
proof -
  let ?one = "\<lambda>connection names (target, required). case selection_of d j connection names of
      Inl _ \<Rightarrow> invalid_assessment j connection target required | Inr f \<Rightarrow> assess_pair d now j connection target required f"
  have key: "pair_key (?one c n t) = (j_id j, c, fst t)" for c n t
    by (simp add: pair_key_def split: sum.splits prod.splits)
  have inner: "distinct (map pair_key (map (?one c n) (assessed_targets d j)))" for c n
    using assess_sources_distinct(2) [OF assms, of j] by (simp add: comp_def key distinct_map inj_on_def)
  show ?thesis unfolding assess_job_def
  proof (rule distinct_map_concat [where g = fst and p = "\<lambda>x. fst (snd x)"])
    show "distinct (map fst (assessed_sources d j))" by (rule assess_sources_distinct(1) [OF assms])
  next
    fix s assume "s \<in> set (assessed_sources d j)"
    show "distinct (map pair_key (case s of (c, n) \<Rightarrow> map (?one c n) (assessed_targets d j)))" using inner by (cases s) simp
  next
    fix s y assume "y \<in> set (case s of (c, n) \<Rightarrow> map (?one c n) (assessed_targets d j))"
    moreover obtain c n where s: "s = (c, n)" by (cases s)
    ultimately have "y \<in> ?one c n ` set (assessed_targets d j)" by simp
    then obtain t where "y = ?one c n t" by (rule imageE)
    then show "fst (snd (pair_key y)) = fst s" by (simp add: key s)
  qed
qed

lemma assess_keys:
  assumes "keys_ok d"
  shows "distinct (map pair_key (assess d now))"
  unfolding assess_def
proof (rule distinct_map_concat [where g = j_id and p = fst])
  show "distinct (map j_id (jobs d))" using assms by (simp add: keys_ok_def)
  fix j show "distinct (map pair_key (assess_job d now j))" by (rule assess_job_keys [OF assms])
next
  fix j a assume "a \<in> set (assess_job d now j)"
  then show "fst (pair_key a) = j_id j"
    by (auto simp: assess_job_def pair_key_def split: sum.splits)
qed

lemma condition_keys:
  assumes "distinct (map pair_key as)"
  shows "distinct (map entry_key (all_conditions as))"
  unfolding all_conditions_def
proof (rule distinct_map_concat [where g = pair_key and p = "\<lambda>(j, c, t, _). (j, c, t)"])
  show "distinct (map pair_key as)" by (rule assms)
  fix a show "distinct (map entry_key (map (Pair a) (conditions a)))"
    by (simp add: conditions_def assessment_key_def)
next
  fix a y assume "y \<in> set (map (Pair a) (conditions a))"
  then show "(\<lambda>(j, c, t, _). (j, c, t)) (entry_key y) = pair_key a" by (auto simp: assessment_key_def pair_key_def)
qed

section \<open>What one evaluation does\<close>

text \<open>What the assessments ask for an incident: one of a required pair whose condition holds, or one
  that was open and about which nothing new is known.\<close>

definition demanded :: "db \<Rightarrow> time \<Rightarrow> protection_key \<Rightarrow> bool" where
  "demanded d now k = (\<exists>(a, kd, c) \<in> set (all_conditions (assess d now)).
     pa_required a \<and> assessment_key a kd = k \<and> (c = Bad \<or> c = Held \<and> is_open d k))"

definition frozen :: "db \<Rightarrow> time \<Rightarrow> protection_key \<Rightarrow> bool" where
  "frozen d now k = (\<exists>i \<in> set (incidents d). i_open i \<and> incident_key i = k \<and> held_by_invalid (assess d now) i)"

lemma is_open_map:
  assumes "incidents d' = map (\<lambda>r. if i_open r \<and> c r then closed now r else r) rows"
  shows "is_open d' k \<longleftrightarrow> (\<exists>i \<in> set rows. i_open i \<and> incident_key i = k \<and> \<not> c i)"
  unfolding is_open_def assms by (auto split: if_splits)

lemma distinct_open_map:
  assumes "distinct (map incident_key (filter i_open rows))"
  shows "distinct (map incident_key (filter i_open (map (\<lambda>r. if i_open r \<and> c r then closed now r else r) rows)))"
proof -
  have "map incident_key (filter i_open (map (\<lambda>r. if i_open r \<and> c r then closed now r else r) rows))
      = map incident_key (filter (\<lambda>r. \<not> c r) (filter i_open rows))"
    by (induction rows) auto
  then show ?thesis using assms by (simp add: distinct_map_filter del: filter_filter)
qed

lemma map_id_closing: "map i_id (map (\<lambda>r. if i_open r \<and> c r then closed now r else r) rows) = map i_id rows"
  by simp

lemma evaluation:
  assumes "incidents_ok d" and "keys_ok d"
  obtains d1 act new d' where "evaluate_incidents hex now d = Inr d'"
    and "visited (filter i_open (incidents d)) (all_conditions (assess d now)) d [] d1 act new"
    and "d' = close_others hex now (assess d now) act (filter i_open (incidents d)) d1"
proof -
  have "distinct (map incident_key (filter i_open (incidents d)))" using assms(1) by (simp add: incidents_ok_def)
  moreover have "distinct (map entry_key (all_conditions (assess d now)))" by (rule condition_keys [OF assess_keys [OF assms(2)]])
  moreover have "\<forall>x \<in> set (all_conditions (assess d now)). opens (filter i_open (incidents d)) x \<longrightarrow> \<not> is_open d (entry_key x)"
  proof (intro ballI impI notI)
    fix x assume "opens (filter i_open (incidents d)) x" and "is_open d (entry_key x)"
    then obtain i where "i \<in> set (filter i_open (incidents d))" "incident_key i = entry_key x" by (auto simp: is_open_def)
    then have "entry_key x \<in> incident_key ` set (filter i_open (incidents d))" by (metis image_eqI)
    then show False using \<open>opens _ x\<close> by (simp add: opens_def)
  qed
  ultimately obtain d1 act new where "visit hex now (filter i_open (incidents d)) (all_conditions (assess d now)) d [] = Inr (d1, act)"
    and v: "visited (filter i_open (incidents d)) (all_conditions (assess d now)) d [] d1 act new"
    using visit_visited [of "filter i_open (incidents d)" "all_conditions (assess d now)" d hex now "[]"] by blast
  then show thesis using that [OF _ v] by (simp add: evaluate_incidents_def Let_def)
qed

lemma keys_of_opened:
  assumes "visited opened xs d act d1 act1 new"
  shows "k \<in> incident_key ` set new \<longleftrightarrow> (\<exists>x \<in> set xs. opens opened x \<and> entry_key x = k)"
proof -
  have "set (map incident_key new) = set (map entry_key (filter (opens opened) xs))" using assms by (simp only: visited_def)
  then have E: "incident_key ` set new = entry_key ` set (filter (opens opened) xs)" by simp
  show ?thesis unfolding E image_iff by (simp only: set_filter mem_Collect_eq Bex_def) (metis (no_types))
qed

lemma opened_or_kept:
  assumes "v = visited (filter i_open (incidents d)) xs d act d1 act1 new" and v
  shows "k \<in> incident_key ` set new \<or> (\<exists>i \<in> set (incidents d). i_open i \<and> incident_key i = k \<and> keeps xs i)
    \<longleftrightarrow> (\<exists>x \<in> set xs. pa_required (fst x) \<and> entry_key x = k \<and> (snd (snd x) = Bad \<or> snd (snd x) = Held \<and> is_open d k))"
proof -
  have kept: "(\<exists>i \<in> set (incidents d). i_open i \<and> incident_key i = k \<and> keeps xs i)
      \<longleftrightarrow> is_open d k \<and> (\<exists>x \<in> set xs. pa_required (fst x) \<and> snd (snd x) \<noteq> Clear \<and> entry_key x = k)"
  proof
    assume "\<exists>i \<in> set (incidents d). i_open i \<and> incident_key i = k \<and> keeps xs i"
    then obtain i x where "i \<in> set (incidents d)" "i_open i" "incident_key i = k" "x \<in> set xs" "pa_required (fst x)"
      "snd (snd x) \<noteq> Clear" "incident_key i = entry_key x" unfolding keeps_def by blast
    then show "is_open d k \<and> (\<exists>x \<in> set xs. pa_required (fst x) \<and> snd (snd x) \<noteq> Clear \<and> entry_key x = k)"
      unfolding is_open_def by auto
  next
    assume "is_open d k \<and> (\<exists>x \<in> set xs. pa_required (fst x) \<and> snd (snd x) \<noteq> Clear \<and> entry_key x = k)"
    then obtain i x where "i \<in> set (incidents d)" "i_open i" "incident_key i = k" "x \<in> set xs" "pa_required (fst x)"
      "snd (snd x) \<noteq> Clear" "entry_key x = k" unfolding is_open_def by blast
    moreover from this have "keeps xs i" unfolding keeps_def by (intro bexI [of _ x]) simp_all
    ultimately show "\<exists>i \<in> set (incidents d). i_open i \<and> incident_key i = k \<and> keeps xs i" by blast
  qed
  have opened: "entry_key x \<in> incident_key ` set (filter i_open (incidents d)) \<longleftrightarrow> is_open d (entry_key x)" for x
    unfolding is_open_def by (simp add: image_iff) metis
  have new: "k \<in> incident_key ` set new \<longleftrightarrow> \<not> is_open d k \<and> (\<exists>x \<in> set xs. pa_required (fst x) \<and> snd (snd x) = Bad \<and> entry_key x = k)"
    unfolding keys_of_opened [OF assms(2) [unfolded assms(1)]] opens_def opened by blast
  have clear: "c \<noteq> Clear \<longleftrightarrow> c = Bad \<or> c = Held" for c by (cases c) auto
  show ?thesis unfolding new kept clear by (cases "is_open d k") (simp_all, blast+)
qed

text \<open>The database \<open>d'\<close> that one evaluation leaves, with the identifiers that stay active and the
  incidents that were opened.\<close>

definition evaluated :: "(json \<Rightarrow> string) \<Rightarrow> time \<Rightarrow> db \<Rightarrow> id list \<Rightarrow> incident_row list \<Rightarrow> db \<Rightarrow> db \<Rightarrow> bool" where
  "evaluated hex now d act new d1 d' =
     (visited (filter i_open (incidents d)) (all_conditions (assess d now)) d [] d1 act new
      \<and> d' = close_others hex now (assess d now) act (filter i_open (incidents d)) d1)"

definition resolves :: "time \<Rightarrow> db \<Rightarrow> id list \<Rightarrow> incident_row \<Rightarrow> bool" where
  "resolves now d act r = (\<exists>i \<in> set (filter i_open (incidents d)). i_id i = i_id r \<and> closes (assess d now) act i)"

lemma evaluated_rows:
  assumes "evaluated hex now d act new d1 d'"
  shows "incidents d' = map (\<lambda>r. if i_open r \<and> resolves now d act r then closed now r else r) (incidents d @ new)"
    and "draws d1 \<le> draws d'"
  using close_others_incidents [of hex now "assess d now" act "filter i_open (incidents d)" d1] assms
  by (simp_all add: evaluated_def visited_def resolves_def)

lemma evaluated_new:
  assumes "evaluated hex now d act new d1 d'"
  shows "i_id ` set new \<subseteq> uuid ` {draws d..<draws d1}" and "distinct (map i_id new)" and "\<forall>i \<in> set new. i_open i" and "draws d \<le> draws d1"
    and "map incident_key new = map entry_key (filter (opens (filter i_open (incidents d))) (all_conditions (assess d now)))"
    and "set act = i_id ` set new \<union> i_id ` {i \<in> set (filter i_open (incidents d)). keeps (all_conditions (assess d now)) i}"
  using assms by (simp_all add: evaluated_def visited_def)

lemma evaluated_apart:
  assumes "incidents_ok d" and "evaluated hex now d act new d1 d'"
  shows "i_id ` set (incidents d) \<inter> i_id ` set new = {}"
proof -
  have "uuid ` {..<draws d} \<inter> uuid ` {draws d..<draws d1} = {}" by auto
  moreover have "i_id ` set (incidents d) \<subseteq> uuid ` {..<draws d}" using assms(1) by (simp add: incidents_ok_def)
  ultimately show ?thesis using evaluated_new(1) [OF assms(2)] by blast
qed

lemma resolves_new:
  assumes "incidents_ok d" and "evaluated hex now d act new d1 d'" and "i \<in> set new"
  shows "\<not> resolves now d act i"
  using assms(3) evaluated_apart [OF assms(1,2)] unfolding resolves_def by (auto simp: disjoint_iff)

lemma resolves_old:
  assumes "incidents_ok d" and "evaluated hex now d act new d1 d'" and that: "i \<in> set (incidents d)" "i_open i"
  shows "resolves now d act i \<longleftrightarrow> \<not> keeps (all_conditions (assess d now)) i \<and> \<not> held_by_invalid (assess d now) i"
proof -
  let ?opened = "filter i_open (incidents d)" and ?xs = "all_conditions (assess d now)"
  have same: "i = j" if "i \<in> set (incidents d)" "j \<in> set (incidents d)" "i_id i = i_id j" for i j
    using assms(1) that by (auto simp: incidents_ok_def distinct_map dest: inj_onD)
  have "i_id i \<notin> i_id ` set new" using that(1) evaluated_apart [OF assms(1,2)] by blast
  moreover have "i_id i \<in> i_id ` {i \<in> set ?opened. keeps ?xs i} \<longleftrightarrow> keeps ?xs i" using that same by (auto simp: image_iff)
  ultimately have "i_id i \<in> set act \<longleftrightarrow> keeps ?xs i" unfolding evaluated_new(6) [OF assms(2)] by blast
  moreover have "resolves now d act i \<longleftrightarrow> closes (assess d now) act i" unfolding resolves_def using that same by auto
  ultimately show ?thesis by (simp add: closes_def)
qed

lemma evaluated_ok:
  assumes "incidents_ok d" and E: "evaluated hex now d act new d1 d'"
    and keys: "distinct (map entry_key (all_conditions (assess d now)))"
  shows "incidents_ok d'"
proof -
    let ?opened = "filter i_open (incidents d)" and ?xs = "all_conditions (assess d now)"
    note new = evaluated_new [OF E] and rows = evaluated_rows(1) [OF E] and more = evaluated_rows(2) [OF E]
      and apart = evaluated_apart [OF assms(1) E]
    have old: "distinct (map i_id (incidents d))" "i_id ` set (incidents d) \<subseteq> uuid ` {..<draws d}" "distinct (map incident_key ?opened)"
      using assms(1) by (simp_all add: incidents_ok_def)
    have same_ids: "map i_id (incidents d') = map i_id (incidents d @ new)" unfolding rows by (rule map_id_closing)
    have ids: "distinct (map i_id (incidents d'))" unfolding same_ids using old(1) new(2) apart by simp
    have "i_id ` set (incidents d') = set (map i_id (incidents d'))" by (rule set_map [symmetric])
    also have "\<dots> = i_id ` set (incidents d) \<union> i_id ` set new" unfolding same_ids by (simp add: image_Un)
    finally have both: "i_id ` set (incidents d') = i_id ` set (incidents d) \<union> i_id ` set new" .
    have wider: "uuid ` {..<draws d} \<subseteq> uuid ` {..<draws d'}" "uuid ` {draws d..<draws d1} \<subseteq> uuid ` {..<draws d'}"
      using new(4) more by (intro image_mono; force)+
    have "i_id ` set (incidents d') \<subseteq> uuid ` {..<draws d'}"
      unfolding both by (rule Un_least [OF subset_trans [OF old(2) wider(1)] subset_trans [OF new(1) wider(2)]])
    moreover have "distinct (map incident_key (filter i_open (incidents d @ new)))"
    proof -
      have "distinct (map entry_key (filter (opens ?opened) ?xs))" by (rule distinct_map_filter) (rule keys)
      moreover have "filter i_open new = new" using new(3) by (simp add: filter_id_conv)
      moreover have "incident_key ` set ?opened \<inter> incident_key ` set new = {}"
      proof -
        have E: "incident_key ` set new = entry_key ` set (filter (opens ?opened) ?xs)"
          using arg_cong [OF new(5), of set] by (simp only: set_map)
        have "entry_key x \<notin> incident_key ` set ?opened" if "x \<in> set (filter (opens ?opened) ?xs)" for x
        proof -
          have "opens ?opened x" using that by (simp only: set_filter mem_Collect_eq)
          then show ?thesis unfolding opens_def by (elim conjE)
        qed
        then have "A \<inter> entry_key ` set (filter (opens ?opened) ?xs) = {}" if "A = incident_key ` set ?opened" for A
          unfolding that [symmetric] by auto
        then show ?thesis unfolding E by simp
      qed
      ultimately show ?thesis using old(3) unfolding new(5) [symmetric] by simp
    qed
    then have "distinct (map incident_key (filter i_open (incidents d')))" unfolding rows by (rule distinct_open_map)
    ultimately show ?thesis using ids by (simp add: incidents_ok_def)
qed

lemma evaluated_open:
  assumes "incidents_ok d" and E: "evaluated hex now d act new d1 d'"
  shows "is_open d' k \<longleftrightarrow> demanded d now k \<or> frozen d now k"
proof -
    let ?xs = "all_conditions (assess d now)" and ?as = "assess d now"
    have v: "visited (filter i_open (incidents d)) ?xs d [] d1 act new" using E by (simp add: evaluated_def)
    have "is_open d' k \<longleftrightarrow> (\<exists>i \<in> set (incidents d @ new). i_open i \<and> incident_key i = k \<and> \<not> resolves now d act i)" by (rule is_open_map [OF evaluated_rows(1) [OF E]])
    also have "\<dots> \<longleftrightarrow> k \<in> incident_key ` set new
        \<or> (\<exists>i \<in> set (incidents d). i_open i \<and> incident_key i = k \<and> (keeps ?xs i \<or> held_by_invalid ?as i))"
      using resolves_new [OF assms(1) E] resolves_old [OF assms(1) E] evaluated_new(3) [OF E] by (simp add: bex_Un image_iff) blast
    also have "\<dots> \<longleftrightarrow> (k \<in> incident_key ` set new \<or> (\<exists>i \<in> set (incidents d). i_open i \<and> incident_key i = k \<and> keeps ?xs i)) \<or> frozen d now k"
      unfolding frozen_def by blast
    also have "\<dots> \<longleftrightarrow> demanded d now k \<or> frozen d now k"
      unfolding opened_or_kept [OF refl v] demanded_def by (simp add: split_beta)
    finally show ?thesis .
qed

text \<open>C14: An evaluation of the incidents never fails. Afterwards an incident is open for a pair, its
  configuration and a kind exactly when the assessment of a required pair says that the condition
  holds, when it was open and the assessment knows nothing new (paused or unknown), or when it was
  open and the configuration of its required pair cannot be read. At most one incident stays open
  for each key.\<close>

theorem incidents_follow_assessments:
  assumes "incidents_ok d" and "keys_ok d"
  shows "\<exists>d'. evaluate_incidents hex now d = Inr d' \<and> incidents_ok d'
    \<and> (\<forall>k. is_open d' k \<longleftrightarrow> demanded d now k \<or> frozen d now k)"
proof -
  obtain d1 act new d' where run: "evaluate_incidents hex now d = Inr d'" and E: "evaluated hex now d act new d1 d'"
    using evaluation [OF assms, of hex now] unfolding evaluated_def by metis
  have "incidents_ok d'" by (rule evaluated_ok [OF assms(1) E condition_keys [OF assess_keys [OF assms(2)]]])
  moreover have "\<forall>k. is_open d' k \<longleftrightarrow> demanded d now k \<or> frozen d now k" using evaluated_open [OF assms(1) E] by blast
  ultimately show ?thesis using run by blast
qed

chapter \<open>A concrete installation\<close>

text \<open>
  The protection properties at a concrete installation: one schedule, one source, one destination
  and one verified run of the configured selection.
\<close>

section \<open>The installation\<close>

definition protected_run :: run_row where
  "protected_run = \<lparr>r_id = ''run'', r_job = ''job'', r_status = ''success'', r_started = 1100, r_finished = Some 1200,
     r_connection = Some ''a'', r_target = Some ''t1'', r_scope = Some ''selected'', r_names = Parsed (JArr [JStr ''shop'']),
     r_layout = Some ''single'',
     r_objects = Parsed (JObj [(''views'', JBool True), (''routines'', JBool True), (''triggers'', JBool True), (''events'', JBool True)]),
     r_insert_mode = Some ''extended'', r_compression = Some ''gzip'', r_encryption = Some ''none'',
     r_verification = Some ''passed'', r_attempt = None\<rparr>"

definition protected_db :: db where
  "protected_db = empty_db\<lparr>connections := [sample_connection ''a'' ''db-a''],
     jobs := [sample_job\<lparr>j_max_age := 24\<rparr>], runs := [protected_run]\<rparr>"

lemma protected_assessments:
  "map pa_freshness (assess protected_db 2000) = [Fresh]"
  by code_simp

theorem fresh_protection_is_proved_witness:
  "\<exists>a \<in> set (assess protected_db 2000). pa_freshness a = Fresh
     \<and> (\<exists>j s r t. configured_now protected_db j a s \<and> proves protected_db 2000 s a r t)"
proof -
  from protected_assessments obtain a where a: "assess protected_db 2000 = [a]" "pa_freshness a = Fresh" by auto
  then have m: "a \<in> set (assess protected_db 2000)" by simp
  from fresh_protection_is_proved [OF m] a(2) have "\<exists>j s r t. configured_now protected_db j a s \<and> proves protected_db 2000 s a r t" by blast
  with a m show ?thesis by blast
qed

lemma sample_keys: "incidents_ok sample_db" "keys_ok sample_db"
  by (simp_all add: sample_db_def empty_db_def incidents_ok_def keys_ok_def sample_job_def)

theorem incidents_follow_assessments_witness:
  "\<exists>d'. evaluate_incidents (\<lambda>_. ''00'') 400000 sample_db = Inr d' \<and> incidents_ok d'"
  using incidents_follow_assessments [OF sample_keys, of "\<lambda>_. ''00''" 400000] by blast

end
