(* ===== verification/Json_Text.thy ===== *)
theory Json_Text
  imports Js_Text
begin

text \<open>
  Conversions of JSON values to text as JavaScript does them: \<open>String(value)\<close>, \<open>String(value || '')\<close>
  and \<open>array.join(separator)\<close>.
\<close>

definition show_int :: "int \<Rightarrow> string" where
  "show_int n = (if n < 0 then CHR ''-'' # show_nat (nat (- n)) else show_nat (nat n))"

text \<open>\<open>String(value)\<close>; in an array \<open>null\<close> is the empty text.\<close>

fun js_string :: "json \<Rightarrow> string"
  and js_item :: "json \<Rightarrow> string" where
  "js_string JNull = ''null''"
| "js_string (JBool b) = (if b then ''true'' else ''false'')"
| "js_string (JNum n) = show_int n"
| "js_string (JStr s) = s"
| "js_string (JArr xs) = join '','' (map js_item xs)"
| "js_string (JObj _) = ''[object Object]''"
| "js_item x = (if x = JNull then [] else js_string x)"

text \<open>\<open>String(value || '')\<close>, where \<open>None\<close> is \<open>undefined\<close>.\<close>

definition text_of :: "json option \<Rightarrow> string" where
  "text_of v = (case v of None \<Rightarrow> [] | Some x \<Rightarrow> if truthy x then js_string x else [])"

text \<open>\<open>Boolean(value)\<close>.\<close>

definition truth_of :: "json option \<Rightarrow> bool" where
  "truth_of v = (case v of None \<Rightarrow> False | Some x \<Rightarrow> truthy x)"

text \<open>\<open>value.join(separator)\<close>: no other value than an array has the method.\<close>

definition js_join :: "string \<Rightarrow> json \<Rightarrow> string option" where
  "js_join sep j = (case j of JArr xs \<Rightarrow> Some (join sep (map js_item xs)) | _ \<Rightarrow> None)"

text \<open>Property access on a value that may be \<open>null\<close>: a TypeError is \<open>None\<close>.\<close>

definition jprop :: "json \<Rightarrow> string \<Rightarrow> json option option" where
  "jprop j k = (if j = JNull then None else Some (jget j k))"

lemma text_of_JStr [simp]: "text_of (Some (JStr s)) = s"
  by (simp add: text_of_def)

lemma text_of_None [simp]: "text_of None = []"
  by (simp add: text_of_def)

lemma jget_Cons [simp]: "jget (JObj []) k = None"
  by (simp add: jget_def)

lemma js_join_strings [simp]: "js_join sep (JArr (map JStr xs)) = Some (join sep xs)"
  by (simp add: js_join_def comp_def)

end
