(* ===== verification/System_Settings.thy ===== *)
theory System_Settings
  imports Json_Text Control_Db App_Config
begin

text \<open>
  The system service (\<open>src/system/system.service.ts\<close>): encrypted settings, the notification
  settings and the request that delivers a notification, the environment stored in \<open>.env\<close>, and the
  usage of the API per client. The encryption of a value and its inverse are the parameters \<open>enc\<close>
  and \<open>dec\<close> (\<open>None\<close> when decrypting or parsing fails).
\<close>

section \<open>Settings\<close>

definition read_setting :: "(string \<Rightarrow> json option) \<Rightarrow> db \<Rightarrow> string \<Rightarrow> json \<Rightarrow> json" where
  "read_setting dec d key fallback =
     (case settings d key of
        None \<Rightarrow> fallback
      | Some v \<Rightarrow> if v = [] then fallback else (case dec v of None \<Rightarrow> fallback | Some j \<Rightarrow> j))"

definition write_setting :: "(json \<Rightarrow> string) \<Rightarrow> string \<Rightarrow> json \<Rightarrow> db \<Rightarrow> db" where
  "write_setting enc key v d = d\<lparr>settings := (settings d)(key \<mapsto> enc v)\<rparr>"

section \<open>Notification settings\<close>

definition notification_events :: "(string \<times> bool) list" where
  "notification_events =
     [(''backup_success'', False), (''backup_recovered'', True), (''backup_missed_start'', True), (''backup_long_running'', True),
      (''backup_failed'', True), (''backup_retry'', True), (''backup_stale'', True), (''storage_failed'', True), (''capacity_warning'', True)]"

definition default_settings :: json where
  "default_settings = JObj
     [(''enabled'', JBool False), (''provider'', JStr ''discord''), (''webhookUrl'', JStr []), (''botToken'', JStr []), (''chatId'', JStr []),
      (''events'', JObj [(''backup_success'', JBool False), (''backup_failed'', JBool True), (''backup_retry'', JBool True),
         (''backup_stale'', JBool True), (''storage_failed'', JBool True), (''capacity_warning'', JBool True)])]"

definition notification_config :: "(string \<Rightarrow> json option) \<Rightarrow> db \<Rightarrow> json" where
  "notification_config dec d = read_setting dec d ''notification_settings'' default_settings"

text \<open>The answer of \<open>getNotificationSettings\<close>: \<open>no_events\<close> reads a property of its object \<open>events\<close>,
  in which the stored events override the defaults.\<close>

record notification_view =
  no_enabled :: bool
  no_provider :: json
  no_configured :: bool
  no_events :: "string \<Rightarrow> json option"

definition config_events :: "json \<Rightarrow> json" where
  "config_events config = (case jget config ''events'' of None \<Rightarrow> JNull | Some e \<Rightarrow> e)"

definition get_notification_settings :: "(string \<Rightarrow> json option) \<Rightarrow> db \<Rightarrow> notification_view" where
  "get_notification_settings dec d =
     (let config = notification_config dec d
      in \<lparr>no_enabled = truth_of (jget config ''enabled''),
          no_provider = (case jget config ''provider'' of Some p \<Rightarrow> if truthy p then p else JStr ''discord'' | None \<Rightarrow> JStr ''discord''),
          no_configured = (truth_of (jget config ''webhookUrl'') \<or> truth_of (jget config ''botToken'')),
          no_events = (\<lambda>e. case jget (config_events config) e of
             Some v \<Rightarrow> Some v | None \<Rightarrow> map_option JBool (map_of notification_events e))\<rparr>)"

text \<open>\<open>undefined !== false\<close>: an event that no setting names is delivered.\<close>

definition notification_enabled :: "(string \<Rightarrow> json option) \<Rightarrow> db \<Rightarrow> string \<Rightarrow> bool" where
  "notification_enabled dec d e =
     (no_enabled (get_notification_settings dec d) \<and> no_events (get_notification_settings dec d) e \<noteq> Some (JBool False))"

definition kept_secret :: "json option \<Rightarrow> json option \<Rightarrow> string" where
  "kept_secret next_value previous = (if trim (text_of next_value) \<noteq> [] then trim (text_of next_value) else text_of previous)"

definition event_enabled :: "json \<Rightarrow> json \<Rightarrow> string \<Rightarrow> bool \<Rightarrow> bool" where
  "event_enabled input old e fallback =
     (case jget (config_events input) e of
        Some v \<Rightarrow> truthy v
      | None \<Rightarrow> (case jget (config_events old) e of Some v \<Rightarrow> truthy v | None \<Rightarrow> fallback))"

definition chosen_provider :: "json \<Rightarrow> string" where
  "chosen_provider input =
     (case jget input ''provider'' of Some (JStr p) \<Rightarrow> if p \<in> {''discord'', ''telegram'', ''generic''} then p else ''discord'' | _ \<Rightarrow> ''discord'')"

definition saved_settings :: "json \<Rightarrow> json \<Rightarrow> json" where
  "saved_settings input old = JObj
     [(''enabled'', JBool (truth_of (jget input ''enabled''))), (''provider'', JStr (chosen_provider input)),
      (''webhookUrl'', JStr (trim (text_of (jget input ''webhookUrl'')))),
      (''webhookToken'', JStr (kept_secret (jget input ''webhookToken'') (jget old ''webhookToken''))),
      (''botToken'', JStr (kept_secret (jget input ''botToken'') (jget old ''botToken''))),
      (''chatId'', JStr (trim (text_of (jget input ''chatId'')))),
      (''events'', JObj (map (\<lambda>e. (e, JBool (event_enabled input old e (e \<noteq> ''backup_success''))))
         [''backup_recovered'', ''backup_missed_start'', ''backup_long_running'', ''backup_success'', ''backup_failed'',
          ''backup_retry'', ''backup_stale'', ''storage_failed'', ''capacity_warning'']))]"

definition save_notification_settings ::
  "(string \<Rightarrow> json option) \<Rightarrow> (json \<Rightarrow> string) \<Rightarrow> json \<Rightarrow> db \<Rightarrow> (notification_view \<times> db) result" where
  "save_notification_settings dec enc input d =
     (let on = truth_of (jget input ''enabled''); telegram = (chosen_provider input = ''telegram'')
      in if on \<and> \<not> telegram \<and> \<not> starts_with (text_of (jget input ''webhookUrl'')) ''https://''
         then Inl (BadRequest ''Use an HTTPS webhook URL'')
         else if on \<and> telegram \<and> (\<not> truth_of (jget input ''botToken'') \<or> \<not> truth_of (jget input ''chatId''))
         then Inl (BadRequest ''Telegram bot token and chat ID are required'')
         else let d' = write_setting enc ''notification_settings''
                         (saved_settings input (read_setting dec d ''notification_settings'' (JObj []))) d
              in Inr (get_notification_settings dec d', d'))"

section \<open>The request that delivers a notification\<close>

definition hex_digit :: "nat \<Rightarrow> char" where
  "hex_digit n = (if n < 10 then char_of (48 + n) else char_of (55 + n))"

definition percent :: "nat \<Rightarrow> string" where
  "percent b = [CHR ''%'', hex_digit (b div 16), hex_digit (b mod 16)]"

text \<open>\<open>encodeURIComponent\<close> over the Latin-1 characters: the bytes of UTF-8.\<close>

definition encode_uri_char :: "char \<Rightarrow> string" where
  "encode_uri_char c =
     (if is_alnum c \<or> c \<in> set ''-_.!~*()'' \<or> c = CHR 0x27 then [c]
      else let n = of_char c in if n < 128 then percent n else percent (192 + n div 64) @ percent (128 + n mod 64))"

definition encode_uri_component :: "string \<Rightarrow> string" where
  "encode_uri_component s = concat (map encode_uri_char s)"

text \<open>\<open>String(value)\<close> of a property that may be missing.\<close>

definition prop_text :: "json option \<Rightarrow> string" where
  "prop_text v = (case v of None \<Rightarrow> ''undefined'' | Some x \<Rightarrow> js_string x)"

record delivery_request =
  dr_url :: string
  dr_authorization :: "string option"
  dr_body :: json

text \<open>\<open>sendNotification\<close> up to the call of \<open>fetch\<close>; \<open>None\<close> when nothing is sent.\<close>

definition send_notification :: "(string \<Rightarrow> json option) \<Rightarrow> db \<Rightarrow> string \<Rightarrow> string \<Rightarrow> delivery_request option" where
  "send_notification dec d event message =
     (if \<not> notification_enabled dec d event then None
      else let config = read_setting dec d ''notification_settings'' (JObj []);
               telegram = (jget config ''provider'' = Some (JStr ''telegram''));
               discord = (jget config ''provider'' = Some (JStr ''discord''));
               text = take (if telegram then 4096 else if discord then 2000 else 8000) message
           in Some \<lparr>dr_url = (if telegram then ''https://api.telegram.org/bot'' @ encode_uri_component (prop_text (jget config ''botToken'')) @ ''/sendMessage''
                              else prop_text (jget config ''webhookUrl'')),
                    dr_authorization = (if \<not> telegram \<and> truth_of (jget config ''webhookToken'')
                      then Some (''Bearer '' @ prop_text (jget config ''webhookToken'')) else None),
                    dr_body = (if telegram then JObj ((case jget config ''chatId'' of None \<Rightarrow> [] | Some c \<Rightarrow> [(''chat_id'', c)]) @ [(''text'', JStr text)])
                      else if discord then JObj [(''content'', JStr text)]
                      else JObj [(''event'', JStr event), (''message'', JStr text), (''service'', JStr ''vaultback'')])\<rparr>)"

text \<open>What \<open>fetch\<close> and the provider make of the request.\<close>

datatype delivery = Answered nat | TimedOut | Unreachable

definition delivery_failure :: "delivery \<Rightarrow> string option" where
  "delivery_failure r = (case r of
      Answered status \<Rightarrow> if 200 \<le> status \<and> status \<le> 299 then None else Some (''Notification provider returned HTTP '' @ show_nat status)
    | TimedOut \<Rightarrow> Some ''Notification delivery timed out''
    | Unreachable \<Rightarrow> Some ''Notification delivery failed'')"

text \<open>\<open>notifyOnce\<close>: whether the event is sent, and the settings with the time it was.\<close>

definition notify_once ::
  "(string \<Rightarrow> json option) \<Rightarrow> (json \<Rightarrow> string) \<Rightarrow> time \<Rightarrow> string \<Rightarrow> string \<Rightarrow> int \<Rightarrow> db \<Rightarrow> bool \<times> db" where
  "notify_once dec enc now event key cooldown d =
     (let setting = ''notification:last:'' @ event @ '':'' @ key;
          last_sent = (case read_setting dec d setting (JNum 0) of JNum n \<Rightarrow> n | _ \<Rightarrow> 0)
      in if now - last_sent < cooldown * 60 * 1000 then (False, d)
         else (True, write_setting enc setting (JNum now) d))"

end
