(* ===== verification/Notification_Outbox.thy ===== *)
theory Notification_Outbox
  imports Protection System_Settings
begin

text \<open>
  The notification outbox (\<open>src/system/notification-outbox.service.ts\<close>): notifications are
  materialized from the events of the queue and of the incidents under a stored cursor, and a single
  worker delivers those that are due.
\<close>

section \<open>Recording\<close>

record execution_notification =
  nt_event :: id
  nt_execution :: "id option"
  nt_incident :: "id option"
  nt_kind :: string
  nt_pairs :: "json list"
  nt_message :: string

definition preference_of :: "string \<Rightarrow> string" where
  "preference_of kind =
     (if kind = ''first_failure'' \<or> kind = ''final_failure'' then ''backup_failed''
      else if kind = ''recovered'' then ''backup_recovered''
      else if kind = ''success'' then ''backup_success''
      else if kind = ''stale'' then ''backup_stale''
      else if kind = ''missed_start'' then ''backup_missed_start'' else ''backup_long_running'')"

definition optional_id :: "string \<Rightarrow> id option \<Rightarrow> (string \<times> json) list" where
  "optional_id k v = (case v of None \<Rightarrow> [] | Some i \<Rightarrow> [(k, JStr i)])"

definition notification_json :: "execution_notification \<Rightarrow> json" where
  "notification_json n = JObj
     ([(''eventId'', JStr (nt_event n))] @ optional_id ''executionId'' (nt_execution n) @ optional_id ''incidentId'' (nt_incident n)
      @ [(''kind'', JStr (nt_kind n)), (''pairs'', JArr (nt_pairs n)), (''message'', JStr (nt_message n)),
         (''preference'', JStr (preference_of (nt_kind n)))])"

text \<open>\<open>INSERT OR IGNORE\<close> under the keys \<open>id\<close> and \<open>event_id\<close>.\<close>

definition insert_notice :: "outbox_row \<Rightarrow> db \<Rightarrow> db" where
  "insert_notice r d =
     (if \<exists>x \<in> set (outbox d). n_id x = n_id r \<or> n_event x = n_event r then d else d\<lparr>outbox := outbox d @ [r]\<rparr>)"

definition record_notice :: "time \<Rightarrow> execution_notification \<Rightarrow> db \<Rightarrow> db" where
  "record_notice now n d =
     insert_notice \<lparr>n_id = nt_event n, n_event = nt_event n, n_execution = nt_execution n, n_incident = nt_incident n,
       n_kind = nt_kind n, n_payload = Parsed (notification_json n), n_status = NPending, n_attempts = 0, n_next = now,
       n_delivered = None, n_error = None, n_created = now\<rparr> d"

definition invalid_notice :: "time \<Rightarrow> event_row \<Rightarrow> db \<Rightarrow> db" where
  "invalid_notice now v d =
     insert_notice \<lparr>n_id = ''invalid:'' @ v_id v, n_event = v_id v, n_execution = None, n_incident = None,
       n_kind = ''invalid_event'', n_payload = Parsed (JObj []), n_status = NExhausted, n_attempts = 0, n_next = now,
       n_delivered = None, n_error = Some ''Invalid persisted notification event'', n_created = now\<rparr> d"

definition update_notices :: "(outbox_row \<Rightarrow> bool) \<Rightarrow> (outbox_row \<Rightarrow> outbox_row) \<Rightarrow> db \<Rightarrow> db" where
  "update_notices P f d = d\<lparr>outbox := update_where P f (outbox d)\<rparr>"

section \<open>Notifications of an execution\<close>

definition or_id :: "string option \<Rightarrow> string \<Rightarrow> string" where
  "or_id v fallback = (case v of Some s \<Rightarrow> if s \<noteq> [] then s else fallback | None \<Rightarrow> fallback)"

definition pair_databases :: "snapshot \<Rightarrow> string option" where
  "pair_databases s =
     (if s_scope s = ''all'' then Some ''all databases''
      else case or_empty_array (s_names s) of
             Parsed j \<Rightarrow> map_option (take 120) (js_join '', '' j)
           | _ \<Rightarrow> None)"

definition connection_name :: "db \<Rightarrow> id \<Rightarrow> string option" where
  "connection_name d i = map_option c_name (find_connection d i)"

definition target_name :: "db \<Rightarrow> id \<Rightarrow> string option" where
  "target_name d i = map_option t_name (List.find (\<lambda>t. t_id t = i) (targets d))"

definition pair_label :: "db \<Rightarrow> pair_row \<Rightarrow> string option" where
  "pair_label d p =
     map_option (\<lambda>databases.
         take 80 (or_id (connection_name d (p_connection p)) (p_connection p)) @ '' ['' @ databases @ ''] -> ''
         @ take 80 (or_id (target_name d (p_target p)) (p_target p))
         @ '' ('' @ (if p_required p then ''required'' else ''optional'') @ '': '' @ pair_status_text (p_status p) @ '')'')
       (pair_databases (p_snapshot p))"

fun all_some :: "'a option list \<Rightarrow> 'a list option" where
  "all_some [] = Some []"
| "all_some (x # xs) = (case x of None \<Rightarrow> None | Some y \<Rightarrow> map_option ((#) y) (all_some xs))"

text \<open>The labels that fit into 1200 characters.\<close>

fun shown_labels :: "nat \<Rightarrow> string list \<Rightarrow> string list" where
  "shown_labels sz [] = []"
| "shown_labels sz (l # ls) = (if sz + length l > 1200 then [] else l # shown_labels (sz + length l + 2) ls)"

definition summary_of :: "string list \<Rightarrow> string" where
  "summary_of labels =
     (let shown = shown_labels 0 labels
      in join ''; '' shown
         @ (if length shown < length labels
            then ''; '' @ show_nat (length labels - length shown) @ '' more pairs; inspect execution details.'' else []))"

definition execution_notice_id :: "id \<Rightarrow> string \<Rightarrow> id" where
  "execution_notice_id i kind = ''execution:'' @ i @ '':'' @ kind"

definition notice_pair :: "pair_row \<Rightarrow> json" where
  "notice_pair p = JObj [(''connectionId'', JStr (p_connection p)), (''storageTargetId'', JStr (p_target p)),
     (''required'', JBool (p_required p)), (''status'', JStr (pair_status_text (p_status p)))]"

definition execution_notice :: "id \<Rightarrow> pair_row list \<Rightarrow> string \<Rightarrow> string \<Rightarrow> execution_notification" where
  "execution_notice i ps kind message =
     \<lparr>nt_event = execution_notice_id i kind, nt_execution = Some i, nt_incident = None, nt_kind = kind,
      nt_pairs = map notice_pair ps, nt_message = message\<rparr>"

definition scope_text :: "exec_row \<Rightarrow> pair_row list \<Rightarrow> string" where
  "scope_text e ps =
     (let job = take 120 (case ps of [] \<Rightarrow> e_job e | p # _ \<Rightarrow> or_id (Some (s_name (p_snapshot p))) (e_job e))
      in case e_parent e of
           Some parent \<Rightarrow> if parent \<noteq> [] then ''Schedule '' @ job @ '', selected-pair retry '' @ e_id e @ '' from parent '' @ parent
                           else ''Schedule '' @ job @ '', execution '' @ e_id e
         | None \<Rightarrow> ''Schedule '' @ job @ '', execution '' @ e_id e)"

definition has_failed_attempt :: "db \<Rightarrow> id \<Rightarrow> bool" where
  "has_failed_attempt d i = (\<exists>a \<in> set (attempts d). \<exists>p \<in> set (pairs d). p_id p = a_pair a \<and> p_execution p = i \<and> a_status a = AFinished OFailed)"

text \<open>The private method \<open>execution\<close>; \<open>None\<close> when it throws, before it has written anything.\<close>

definition notify_execution :: "time \<Rightarrow> id \<Rightarrow> db \<Rightarrow> db option" where
  "notify_execution now i d =
     (case find_exec d i of
        None \<Rightarrow> Some d
      | Some e \<Rightarrow>
          (let ps = pairs_of d i; failed = has_failed_attempt d i; terminal = is_terminal_exec (e_status e);
               child = (e_parent e \<noteq> None \<and> e_parent e \<noteq> Some []); scope = scope_text e ps
           in case all_some (map (pair_label d) ps) of
                None \<Rightarrow> None
              | Some labels \<Rightarrow>
                  (let summary = summary_of labels;
                       notice = (\<lambda>kind message. execution_notice i ps kind (scope @ '': '' @ message @ '' '' @ summary));
                       first = execution_notice_id i ''first_failure'';
                       d1 = (if \<not> terminal \<and> failed
                             then record_notice now (notice ''first_failure'' ''Backup attempt failed; automatic retries may still be pending.'') d else d);
                       d2 = (if terminal then update_notices (\<lambda>r. n_event r = first \<and> n_status r = NPending) (\<lambda>r. r\<lparr>n_status := NSuperseded\<rparr>) d1 else d1);
                       d3 = (if \<not> terminal \<or> e_status e = ECancelled then d2
                             else if e_status e = ESuccess
                             then record_notice now (notice (if failed \<or> child then ''recovered'' else ''success'')
                               (if child then ''Selected pairs completed successfully; inspect the parent for other outcomes.''
                                else if failed then ''Automatic retry recovered all execution pairs.'' else ''Backup completed successfully.'')) d2
                             else record_notice now (notice ''final_failure'' ''Backup finished with unsuccessful pairs; inspect required and optional outcomes.'') d2)
                   in Some (if failed
                            then update_notices (\<lambda>r. n_event r = first \<and> n_status r = NPending)
                              (\<lambda>r. r\<lparr>n_payload := Parsed (notification_json
                                 (execution_notice i ps ''first_failure'' (scope @ '': Backup attempt failed. '' @ summary)))\<rparr>) d3
                            else d3))))"

section \<open>Materialization\<close>

definition incident_message :: "bool \<Rightarrow> string \<Rightarrow> string" where
  "incident_message resolved kind =
     (if resolved
      then (if kind = ''freshness'' then ''Verified protection is fresh.''
            else if kind = ''missed_start'' then ''Previously delayed work started.''
            else ''Long-running work ended; inspect its outcome.'')
      else (if kind = ''freshness'' then ''Verified protection is stale.''
            else if kind = ''missed_start'' then ''Scheduled work has not started.''
            else ''Backup work is running longer than expected.''))"

definition incident_notice :: "db \<Rightarrow> event_row \<Rightarrow> id \<Rightarrow> string \<Rightarrow> id \<Rightarrow> id \<Rightarrow> id \<Rightarrow> execution_notification" where
  "incident_notice d v incident kind job connection target =
     \<lparr>nt_event = v_id v, nt_execution = None, nt_incident = Some incident,
      nt_kind = (if kind = ''freshness'' then ''stale'' else kind),
      nt_pairs = [JObj [(''connectionId'', JStr connection), (''storageTargetId'', JStr target)]],
      nt_message = incident_message (v_kind v = ''protection_incident_resolved'') kind @ '' Schedule ''
        @ take 120 (or_id (map_option j_name (find_job d job)) job) @ ''; ''
        @ take 120 (or_id (connection_name d connection) connection) @ '' -> ''
        @ take 120 (or_id (target_name d target) target) @ ''.''\<rparr>"

text \<open>The fields that an event of the incidents carries (\<open>incident_payload\<close>); a payload without them
  makes the statement that binds them throw.\<close>

definition jstring :: "json option \<Rightarrow> string option" where
  "jstring v = (case v of Some (JStr s) \<Rightarrow> Some s | _ \<Rightarrow> None)"

definition payload_incident :: "event_row \<Rightarrow> id option" where
  "payload_incident v = (case v_payload v of Parsed j \<Rightarrow> jstring (jget j ''incidentId'') | _ \<Rightarrow> None)"

definition payload_field :: "event_row \<Rightarrow> string \<Rightarrow> string option" where
  "payload_field v k = (case v_payload v of
      Parsed j \<Rightarrow> Option.bind (jget j ''assessment'') (\<lambda>a. jstring (jget a k)) | _ \<Rightarrow> None)"

definition incident_event :: "time \<Rightarrow> event_row \<Rightarrow> db \<Rightarrow> db option" where
  "incident_event now v d =
     (if v_kind v \<in> {''protection_incident_opened'', ''protection_incident_resolved''}
      then (case (payload_incident v, payload_field v ''jobId'', payload_field v ''connectionId'', payload_field v ''storageTargetId'') of
              (Some incident, Some job, Some connection, Some target) \<Rightarrow>
                let stored = map_option (\<lambda>r. kind_text (i_kind r)) (List.find (\<lambda>r. i_id r = incident) (incidents d));
                    own = (case payload_field v ''kind'' of Some k \<Rightarrow> if k \<noteq> [] then Some k else stored | None \<Rightarrow> stored)
                in map_option (\<lambda>kind. record_notice now (incident_notice d v incident kind job connection target) d) own
            | _ \<Rightarrow> None)
      else Some d)"

definition closing_event :: "event_row \<Rightarrow> db \<Rightarrow> db option" where
  "closing_event v d =
     (if v_kind v \<in> {''protection_incident_resolved'', ''protection_incident_closed''}
      then map_option (\<lambda>incident. update_notices (\<lambda>r. n_incident r = Some incident \<and> n_status r = NPending) (\<lambda>r. r\<lparr>n_status := NSuperseded\<rparr>) d)
             (payload_incident v)
      else Some d)"

text \<open>One event of the loop; what was written before the throw stays.\<close>

fun try_all :: "('s \<Rightarrow> 's option) list \<Rightarrow> ('s \<Rightarrow> 's) \<Rightarrow> 's \<Rightarrow> 's" where
  "try_all [] failed s = s"
| "try_all (f # fs) failed s = (case f s of None \<Rightarrow> failed s | Some s' \<Rightarrow> try_all fs failed s')"

definition materialize_event :: "time \<Rightarrow> event_row \<Rightarrow> db \<Rightarrow> db" where
  "materialize_event now v d =
     try_all [\<lambda>d. (case v_execution v of Some i \<Rightarrow> if i \<noteq> [] then notify_execution now i d else Some d | None \<Rightarrow> Some d),
              closing_event v, incident_event now v] (invalid_notice now v) d"

text \<open>The events are numbered by their rowid: none is ever deleted, so it is their position.\<close>

definition event_cursor :: "db \<Rightarrow> jsnum" where
  "event_cursor d = (case settings d ''notification_event_cursor'' of None \<Rightarrow> Fin 0 | Some v \<Rightarrow> if v = [] then Fin 0 else js_number v)"

definition after_cursor :: "jsnum \<Rightarrow> nat \<Rightarrow> bool" where
  "after_cursor c n = (case c of Fin r \<Rightarrow> of_nat n > r | Infinite neg \<Rightarrow> neg | NaN \<Rightarrow> False)"

definition pending_events :: "db \<Rightarrow> (nat \<times> event_row) list" where
  "pending_events d = take 250 (filter (\<lambda>x. after_cursor (event_cursor d) (fst x)) (zip [1..<Suc (length (events d))] (events d)))"

definition materialize :: "time \<Rightarrow> db \<Rightarrow> db" where
  "materialize now d =
     (let batch = pending_events d; d1 = fold (\<lambda>x. materialize_event now (snd x)) batch d
      in if batch = [] then d1
         else d1\<lparr>settings := (settings d1)(''notification_event_cursor'' \<mapsto> show_nat (fst (last batch)))\<rparr>)"

end
