(* ===== verification/Notification_Delivery.thy ===== *)
theory Notification_Delivery
  imports Notification_Outbox
begin

text \<open>
  The delivery worker of the outbox (\<open>deliverDue\<close>, \<open>flush\<close> and \<open>stop\<close> of
  \<open>src/system/notification-outbox.service.ts\<close>). The worker is suspended while a provider answers, and
  the poll, the rest of the program and \<open>stop\<close> run in between; each stretch between two suspensions is
  one step.
\<close>

section \<open>The service\<close>

record sending =
  sg_row :: outbox_row
  sg_request :: "delivery_request option"

text \<open>The worker: when its flush began, the rows it has still to visit, and the one being sent.\<close>

record worker =
  wk_now :: time
  wk_rows :: "outbox_row list"
  wk_sending :: "sending option"

record outbox_service =
  ob_db :: db
  ob_stopped :: bool
  ob_worker :: "worker option"

definition due_rows :: "time \<Rightarrow> db \<Rightarrow> outbox_row list" where
  "due_rows now d = take 25 (sort_key n_created (filter (\<lambda>r. n_status r = NPending \<and> n_next r \<le> now) (outbox d)))"

text \<open>\<open>JSON.parse(payload).preference\<close>: \<open>None\<close> when it throws; no preference is \<open>undefined\<close>.\<close>

definition payload_preference :: "jtext \<Rightarrow> json option option" where
  "payload_preference t = (case t of Parsed j \<Rightarrow> jprop j ''preference'' | _ \<Rightarrow> None)"

definition payload_message :: "jtext \<Rightarrow> string" where
  "payload_message t = (case t of Parsed j \<Rightarrow> prop_text (jget j ''message'') | _ \<Rightarrow> [])"

text \<open>The loop of \<open>flush\<close> up to the next request, or its end.\<close>

fun visit_rows :: "(string \<Rightarrow> json option) \<Rightarrow> time \<Rightarrow> outbox_row list \<Rightarrow> db \<Rightarrow> db \<times> worker option" where
  "visit_rows dec now [] d = (d, None)"
| "visit_rows dec now (r # rs) d =
     (case List.find (\<lambda>x. n_id x = n_id r) (outbox d) of
        None \<Rightarrow> visit_rows dec now rs d
      | Some x \<Rightarrow>
          if n_status x \<noteq> NPending then visit_rows dec now rs d
          else (case payload_preference (n_payload x) of
                  None \<Rightarrow> (d, None)
                | Some p \<Rightarrow>
                    if \<not> notification_enabled dec d (prop_text p)
                    then visit_rows dec now rs (update_notices (\<lambda>y. n_id y = n_id r) (\<lambda>y. y\<lparr>n_status := NSuppressed\<rparr>) d)
                    else (d, Some \<lparr>wk_now = now, wk_rows = rs, wk_sending = Some \<lparr>sg_row = r,
                            sg_request = send_notification dec d (prop_text p) (payload_message (n_payload x))\<rparr>\<rparr>)))"

definition run_worker :: "(string \<Rightarrow> json option) \<Rightarrow> time \<Rightarrow> outbox_row list \<Rightarrow> outbox_service \<Rightarrow> outbox_service" where
  "run_worker dec now rs s =
     (if ob_stopped s then s\<lparr>ob_worker := None\<rparr>
      else case visit_rows dec now rs (ob_db s) of (d, w) \<Rightarrow> s\<lparr>ob_db := d, ob_worker := w\<rparr>)"

text \<open>\<open>deliverDue\<close>, which the poll calls every second.\<close>

definition deliver_due :: "(string \<Rightarrow> json option) \<Rightarrow> time \<Rightarrow> outbox_service \<Rightarrow> outbox_service" where
  "deliver_due dec now s =
     (if ob_stopped s then s
      else let s1 = s\<lparr>ob_db := materialize now (ob_db s)\<rparr>
           in if ob_worker s1 \<noteq> None then s1 else run_worker dec now (due_rows now (ob_db s1)) s1)"

definition retry_delay :: "nat \<Rightarrow> int" where
  "retry_delay attempt = [1, 5, 15, 60] ! min (attempt - 1) 3 * 60000"

text \<open>The receipt of one request that was answered at the time \<open>t\<close>.\<close>

definition receipt :: "time \<Rightarrow> outbox_row \<Rightarrow> delivery \<Rightarrow> db \<Rightarrow> db" where
  "receipt t r answer d =
     (case delivery_failure answer of
        None \<Rightarrow> update_notices (\<lambda>x. n_id x = n_id r)
          (\<lambda>x. x\<lparr>n_status := NDelivered, n_attempts := Suc (n_attempts x), n_delivered := Some t, n_error := None\<rparr>) d
      | Some message \<Rightarrow>
          (let attempt = Suc (n_attempts r)
           in update_notices (\<lambda>x. n_id x = n_id r \<and> n_status x = NPending)
                (\<lambda>x. x\<lparr>n_status := if attempt \<ge> 5 then NExhausted else NPending, n_attempts := attempt,
                       n_next := t + retry_delay attempt, n_error := Some message\<rparr>) d))"

definition complete_delivery :: "(string \<Rightarrow> json option) \<Rightarrow> int \<Rightarrow> delivery \<Rightarrow> outbox_service \<Rightarrow> outbox_service" where
  "complete_delivery dec elapsed answer s =
     (case ob_worker s of
        None \<Rightarrow> s
      | Some w \<Rightarrow> (case wk_sending w of
            None \<Rightarrow> s
          | Some g \<Rightarrow> run_worker dec (wk_now w) (wk_rows w)
                        (s\<lparr>ob_db := receipt (wk_now w + max 0 elapsed) (sg_row g) answer (ob_db s)\<rparr>)))"

definition stop_outbox :: "outbox_service \<Rightarrow> outbox_service" where
  "stop_outbox s = s\<lparr>ob_stopped := True\<rparr>"

text \<open>The list that the interface shows.\<close>

definition list_outbox :: "db \<Rightarrow> outbox_row list" where
  "list_outbox d = take 100 (sort_key (\<lambda>r. - n_created r) (outbox d))"

section \<open>The steps\<close>

text \<open>The rest of the program may change every other table. A process that ends leaves the database; the
  next one starts without a worker.\<close>

inductive outbox_step :: "(string \<Rightarrow> json option) \<Rightarrow> outbox_service \<Rightarrow> outbox_service \<Rightarrow> bool" for dec where
  poll: "outbox_step dec s (deliver_due dec now s)"
| completed: "outbox_step dec s (complete_delivery dec elapsed answer s)"
| stopping: "outbox_step dec s (stop_outbox s)"
| elsewhere: "outbox d = outbox (ob_db s) \<Longrightarrow> outbox_step dec s (s\<lparr>ob_db := d\<rparr>)"
| restarted: "outbox_step dec s (s\<lparr>ob_stopped := False, ob_worker := None\<rparr>)"

inductive outbox_reachable :: "(string \<Rightarrow> json option) \<Rightarrow> outbox_service \<Rightarrow> bool" for dec where
  start: "outbox d = [] \<Longrightarrow> outbox_reachable dec \<lparr>ob_db = d, ob_stopped = False, ob_worker = None\<rparr>"
| step: "outbox_reachable dec s \<Longrightarrow> outbox_step dec s s' \<Longrightarrow> outbox_reachable dec s'"

end
