(* ===== verification/Outbox_Props.thy ===== *)
theory Outbox_Props
  imports Notification_Delivery Prelude
begin

text \<open>
  The outbox: no notification is recorded twice, each is attempted at most five times, and one that is
  settled never changes again; the materialization handles every event once and in order.
\<close>

section \<open>How materialization changes the outbox\<close>

definition distinct_notices :: "db \<Rightarrow> bool" where
  "distinct_notices d = (distinct (map n_id (outbox d)) \<and> distinct (map n_event (outbox d)))"

definition tame :: "outbox_row \<Rightarrow> outbox_row \<Rightarrow> bool" where
  "tame r r' = (n_id r' = n_id r \<and> n_event r' = n_event r \<and> n_kind r' = n_kind r \<and> n_attempts r' = n_attempts r
     \<and> (n_status r \<noteq> NPending \<longrightarrow> r' = r) \<and> (n_status r' = n_status r \<or> n_status r' = NSuperseded))"

definition fresh_row :: "outbox_row \<Rightarrow> bool" where
  "fresh_row r = (n_attempts r = 0 \<and> n_status r \<in> {NPending, NExhausted, NSuperseded}
     \<and> (n_status r = NExhausted \<longrightarrow> n_kind r = ''invalid_event''))"

definition grows :: "db \<Rightarrow> db \<Rightarrow> bool" where
  "grows d d' = (distinct_notices d \<longrightarrow> distinct_notices d' \<and>
     (\<exists>f new. outbox d' = map f (outbox d) @ new \<and> (\<forall>r. tame r (f r)) \<and> (\<forall>r \<in> set new. fresh_row r)))"

lemma tame_refl [simp]: "tame r r"
  by (simp add: tame_def)

lemma tame_trans: "tame r s \<Longrightarrow> tame s t \<Longrightarrow> tame r t"
  unfolding tame_def by metis

lemma tame_fresh: "fresh_row r \<Longrightarrow> tame r s \<Longrightarrow> fresh_row s"
  unfolding tame_def fresh_row_def by auto

lemma grows_same: "outbox d' = outbox d \<Longrightarrow> grows d d'"
  unfolding grows_def distinct_notices_def by (auto intro!: exI [of _ "\<lambda>r. r"] exI [of _ "[]"])

lemma grows_trans:
  assumes "grows d d1" and "grows d1 d2"
  shows "grows d d2"
  unfolding grows_def
proof
  assume "distinct_notices d"
  with assms(1) obtain f new where d1: "distinct_notices d1" "outbox d1 = map f (outbox d) @ new" "\<forall>r. tame r (f r)" "\<forall>r \<in> set new. fresh_row r"
    unfolding grows_def by blast
  with assms(2) obtain g new' where d2: "distinct_notices d2" "outbox d2 = map g (outbox d1) @ new'" "\<forall>r. tame r (g r)" "\<forall>r \<in> set new'. fresh_row r"
    unfolding grows_def by blast
  have "outbox d2 = map (g \<circ> f) (outbox d) @ (map g new @ new')" using d1 d2 by simp
  moreover have "\<forall>r. tame r ((g \<circ> f) r)" using d1(3) d2(3) tame_trans by (metis comp_apply)
  moreover have "\<forall>r \<in> set (map g new @ new'). fresh_row r" using d1(4) d2(3,4) tame_fresh by auto
  ultimately show "distinct_notices d2 \<and> (\<exists>f new. outbox d2 = map f (outbox d) @ new \<and> (\<forall>r. tame r (f r)) \<and> (\<forall>r \<in> set new. fresh_row r))"
    using d2(1) by blast
qed

lemma grows_insert:
  assumes "fresh_row r"
  shows "grows d (insert_notice r d)"
proof (cases "\<exists>x \<in> set (outbox d). n_id x = n_id r \<or> n_event x = n_event r")
  case True
  then show ?thesis by (simp add: insert_notice_def grows_same)
next
  case False
  then have "distinct_notices d \<longrightarrow> distinct_notices (insert_notice r d)" by (auto simp: insert_notice_def distinct_notices_def)
  moreover have "outbox (insert_notice r d) = map (\<lambda>r. r) (outbox d) @ [r]" using False by (simp add: insert_notice_def)
  ultimately show ?thesis unfolding grows_def using assms by (metis empty_iff empty_set set_ConsD tame_refl)
qed

lemma grows_update:
  assumes "\<And>r. P r \<Longrightarrow> tame r (g r)"
  shows "grows d (update_notices P g d)"
proof -
  have f: "\<forall>r. tame r (if P r then g r else r)" using assms by simp
  then have keys: "n_id (if P r then g r else r) = n_id r" "n_event (if P r then g r else r) = n_event r" for r
    unfolding tame_def by blast+
  have rows: "outbox (update_notices P g d) = map (\<lambda>r. if P r then g r else r) (outbox d) @ []"
    by (simp add: update_notices_def update_where_def)
  have "distinct_notices (update_notices P g d) = distinct_notices d"
    unfolding distinct_notices_def rows by (simp add: comp_def keys)
  moreover have "\<exists>f new. outbox (update_notices P g d) = map f (outbox d) @ new \<and> (\<forall>r. tame r (f r)) \<and> (\<forall>r \<in> set new. fresh_row r)"
    by (intro exI conjI, rule rows, rule f) simp
  ultimately show ?thesis unfolding grows_def by blast
qed

text \<open>The operations of a transaction, one after the other.\<close>

named_theorems growing

lemma grows_if [growing]: "(b \<Longrightarrow> grows d x) \<Longrightarrow> (\<not> b \<Longrightarrow> grows d y) \<Longrightarrow> grows d (if b then x else y)"
  by simp

lemma grows_record [growing]: "grows d d' \<Longrightarrow> grows d (record_notice now n d')"
  unfolding record_notice_def by (rule grows_trans [OF _ grows_insert]) (simp_all add: fresh_row_def)

lemma grows_invalid [growing]: "grows d d' \<Longrightarrow> grows d (invalid_notice now v d')"
  unfolding invalid_notice_def by (rule grows_trans [OF _ grows_insert]) (simp_all add: fresh_row_def)

lemma grows_supersede [growing]:
  "grows d d' \<Longrightarrow> grows d (update_notices (\<lambda>r. P r \<and> n_status r = NPending) (\<lambda>r. r\<lparr>n_status := NSuperseded\<rparr>) d')"
  by (rule grows_trans [OF _ grows_update]) (simp_all add: tame_def)

lemma grows_payload [growing]:
  "grows d d' \<Longrightarrow> grows d (update_notices (\<lambda>r. P r \<and> n_status r = NPending) (\<lambda>r. r\<lparr>n_payload := t\<rparr>) d')"
  by (rule grows_trans [OF _ grows_update]) (simp_all add: tame_def)

lemma grows_refl [growing, simp]: "grows d d"
  by (rule grows_same) simp

lemma grows_execution:
  assumes "notify_execution now i d = Some d'"
  shows "grows d d'"
proof (cases "find_exec d i")
  case None
  then show ?thesis using assms by (simp add: notify_execution_def)
next
  case (Some e)
  show ?thesis
  proof (cases "all_some (map (pair_label d) (pairs_of d i))")
    case None
    then show ?thesis using assms Some by (simp add: notify_execution_def Let_def)
  next
    case labels: (Some ls)
    show ?thesis using assms unfolding notify_execution_def Let_def Some labels option.case option.inject
      by (rule subst [where P = "grows d"]) (intro growing)
  qed
qed

lemma grows_closing: "closing_event v d = Some d' \<Longrightarrow> grows d d'"
  unfolding closing_event_def by (auto split: if_splits intro!: growing)

lemma grows_incident: "incident_event now v d = Some d' \<Longrightarrow> grows d d'"
  unfolding incident_event_def by (auto split: if_splits option.splits simp: Let_def intro!: growing)

lemma grows_try:
  assumes "\<forall>f \<in> set fs. \<forall>d d'. f d = Some d' \<longrightarrow> grows d d'" and "\<And>d. grows d (failed d)"
  shows "grows d (try_all fs failed d)"
  using assms(1)
proof (induction fs arbitrary: d)
  case (Cons f fs)
  show ?case
  proof (cases "f d")
    case None
    then show ?thesis using assms(2) by simp
  next
    case (Some d1)
    then have "grows d d1" using Cons.prems by simp
    moreover have "grows d1 (try_all fs failed d1)" using Cons by simp
    ultimately show ?thesis using Some grows_trans by simp
  qed
qed simp

lemma grows_event: "grows d (materialize_event now v d)"
  unfolding materialize_event_def
  by (rule grows_try) (auto intro: grows_execution grows_closing grows_incident growing split: option.splits if_splits)

lemma grows_materialize: "grows d (materialize now d)"
proof -
  have fold: "grows d (fold (\<lambda>x. materialize_event now (snd x)) xs d)" for xs d
  proof (induction xs arbitrary: d)
    case (Cons x xs)
    show ?case using grows_trans [OF grows_event Cons.IH] by simp
  qed simp
  then show ?thesis unfolding materialize_def Let_def
    by (auto intro: grows_trans [OF fold grows_same])
qed

section \<open>Delivery\<close>

definition row_ok :: "outbox_row \<Rightarrow> bool" where
  "row_ok r = (n_attempts r \<le> 5 \<and> (n_status r = NPending \<longrightarrow> n_attempts r < 5)
     \<and> (n_status r = NExhausted \<longrightarrow> n_attempts r = 5 \<or> n_kind r = ''invalid_event''))"

definition settled :: "outbox_row \<Rightarrow> bool" where
  "settled r = (n_status r \<in> {NDelivered, NSuppressed, NExhausted})"

definition tracked :: "db \<Rightarrow> outbox_row \<Rightarrow> bool" where
  "tracked d r = (\<exists>x \<in> set (outbox d). n_id x = n_id r \<and> n_attempts x = n_attempts r \<and> \<not> settled x \<and> n_attempts r < 5)"

definition worker_rows :: "worker option \<Rightarrow> outbox_row list" where
  "worker_rows w = (case w of None \<Rightarrow> [] | Some w \<Rightarrow> (case wk_sending w of None \<Rightarrow> [] | Some g \<Rightarrow> [sg_row g]) @ wk_rows w)"

definition queue_ok :: "db \<Rightarrow> outbox_row list \<Rightarrow> bool" where
  "queue_ok d rs = (distinct_notices d \<and> (\<forall>r \<in> set (outbox d). row_ok r) \<and> distinct (map n_id rs) \<and> (\<forall>r \<in> set rs. tracked d r))"

definition keeps_settled :: "db \<Rightarrow> db \<Rightarrow> bool" where
  "keeps_settled d d' = (\<forall>r \<in> set (outbox d). settled r \<longrightarrow> r \<in> set (outbox d'))"

lemma keeps_settled_trans: "keeps_settled d d1 \<Longrightarrow> keeps_settled d1 d2 \<Longrightarrow> keeps_settled d d2"
  by (auto simp: keeps_settled_def)

lemma keeps_settled_refl [simp]: "keeps_settled d d"
  by (simp add: keeps_settled_def)

lemma tame_row_ok: "row_ok r \<Longrightarrow> tame r s \<Longrightarrow> row_ok s"
  unfolding row_ok_def tame_def by auto

lemma fresh_row_ok: "fresh_row r \<Longrightarrow> row_ok r"
  unfolding row_ok_def fresh_row_def by auto

lemma tame_settled: "tame r s \<Longrightarrow> settled s \<longleftrightarrow> settled r" "tame r s \<Longrightarrow> settled r \<Longrightarrow> s = r"
  unfolding tame_def settled_def by auto

lemma grows_queue:
  assumes "grows d d'" and "queue_ok d rs"
  shows "queue_ok d' rs \<and> keeps_settled d d'"
proof -
  have "distinct_notices d" using assms(2) by (simp add: queue_ok_def)
  with assms(1) obtain f new where d': "distinct_notices d'" "outbox d' = map f (outbox d) @ new"
    and f: "\<And>r. tame r (f r)" and new: "\<forall>r \<in> set new. fresh_row r"
    unfolding grows_def by blast
  have "\<forall>r \<in> set (outbox d'). row_ok r"
    using assms(2) f new unfolding d'(2) queue_ok_def by (auto intro: tame_row_ok fresh_row_ok)
  moreover have "tracked d' r" if "tracked d r" for r
  proof -
    from that obtain x where x: "x \<in> set (outbox d)" "n_id x = n_id r" "n_attempts x = n_attempts r" "\<not> settled x" "n_attempts r < 5"
      unfolding tracked_def by blast
    have "n_id (f x) = n_id r" "n_attempts (f x) = n_attempts r" using f [of x] x unfolding tame_def by simp_all
    moreover have "\<not> settled (f x)" using tame_settled(1) [OF f [of x]] x(4) by simp
    ultimately show ?thesis unfolding tracked_def d'(2) using x(1,5) by auto
  qed
  ultimately have "queue_ok d' rs" using assms(2) d'(1) by (simp add: queue_ok_def)
  moreover have "keeps_settled d d'"
    unfolding keeps_settled_def d'(2) using tame_settled(2) [OF f] by (auto intro: rev_image_eqI)
  ultimately show ?thesis by simp
qed

text \<open>The worker changes the one row it has an open notification of.\<close>

lemma find_notice:
  assumes "distinct_notices d" and "tracked d r"
  obtains x where "List.find (\<lambda>x. n_id x = n_id r) (outbox d) = Some x" and "x \<in> set (outbox d)" and "n_id x = n_id r"
    and "n_attempts x = n_attempts r" and "\<not> settled x" and "n_attempts r < 5"
    and "\<And>y. y \<in> set (outbox d) \<Longrightarrow> n_id y = n_id r \<Longrightarrow> y = x"
proof -
  obtain x where x: "x \<in> set (outbox d)" "n_id x = n_id r" "n_attempts x = n_attempts r" "\<not> settled x" "n_attempts r < 5"
    using assms(2) unfolding tracked_def by blast
  have same: "y = x" if "y \<in> set (outbox d)" "n_id y = n_id r" for y
  proof -
    have "inj_on n_id (set (outbox d))" using assms(1) by (simp add: distinct_notices_def distinct_map)
    then show ?thesis by (rule inj_onD) (use that x in simp_all)
  qed
  obtain y where y: "List.find (\<lambda>x. n_id x = n_id r) (outbox d) = Some y"
    using x(1,2) by (cases "List.find (\<lambda>x. n_id x = n_id r) (outbox d)") (auto simp: find_None_iff simp del: find_key_None)
  then have "y = x" using same [of y] find_key_SomeD [OF y] by simp
  then show thesis using that y x same by blast
qed

lemma worker_update:
  assumes ok: "queue_ok d (r # rs)" and g: "\<And>x. n_id (g x) = n_id x \<and> n_event (g x) = n_event x"
    and row: "\<And>x. n_id x = n_id r \<Longrightarrow> n_attempts x = n_attempts r \<Longrightarrow> n_attempts r < 5 \<Longrightarrow> \<not> settled x \<Longrightarrow> P x \<Longrightarrow> row_ok (g x)"
    and P: "\<And>x. P x \<Longrightarrow> n_id x = n_id r"
  shows "queue_ok (update_notices P g d) rs \<and> keeps_settled d (update_notices P g d)"
proof -
  let ?f = "\<lambda>x. if P x then g x else x"
  have rows: "outbox (update_notices P g d) = map ?f (outbox d)" by (simp add: update_notices_def update_where_def)
  have keys: "n_id (?f x) = n_id x" "n_event (?f x) = n_event x" for x using g by simp_all
  have d: "distinct_notices d" "tracked d r" using ok by (simp_all add: queue_ok_def)
  obtain x where x: "n_attempts x = n_attempts r" "\<not> settled x" "n_attempts r < 5" "n_id x = n_id r"
    "\<And>y. y \<in> set (outbox d) \<Longrightarrow> n_id y = n_id r \<Longrightarrow> y = x"
    by (rule find_notice [OF d]) blast
  have only: "y = x" if "y \<in> set (outbox d)" "P y" for y using x(5) that P by blast
  have "row_ok (?f y)" if "y \<in> set (outbox d)" for y
    using only [OF that] row [of x] x ok that by (auto simp: queue_ok_def)
  then have "\<forall>y \<in> set (outbox (update_notices P g d)). row_ok y" unfolding rows set_map by blast
  moreover have "tracked (update_notices P g d) q" if "q \<in> set rs" for q
  proof -
    have "tracked d q" using ok that by (simp add: queue_ok_def)
    then obtain y where y: "y \<in> set (outbox d)" "n_id y = n_id q" "n_attempts y = n_attempts q" "\<not> settled y" "n_attempts q < 5"
      unfolding tracked_def by blast
    have "n_id r \<notin> n_id ` set rs" using ok by (simp add: queue_ok_def)
    then have "n_id q \<noteq> n_id r" using that by (metis imageI)
    then have "?f y = y" using P [of y] y(2) by auto
    then have "y \<in> set (outbox (update_notices P g d))" using y(1) unfolding rows by (rule in_map_fixed)
    then show ?thesis using y unfolding tracked_def by blast
  qed
  moreover have "distinct_notices (update_notices P g d)"
    using d(1) unfolding distinct_notices_def rows by (simp add: comp_def keys)
  moreover have "keeps_settled d (update_notices P g d)"
    unfolding keeps_settled_def rows
  proof (intro ballI impI)
    fix y assume "y \<in> set (outbox d)" "settled y"
    then have "?f y = y" using only [of y] x(2) by auto
    then show "y \<in> set (map ?f (outbox d))" using \<open>y \<in> set (outbox d)\<close> by (rule in_map_fixed)
  qed
  ultimately show ?thesis using ok by (simp add: queue_ok_def)
qed

section \<open>The steps\<close>

lemma visit_rows_ok:
  "queue_ok d rs \<Longrightarrow> visit_rows dec now rs d = (d', w) \<Longrightarrow> queue_ok d' (worker_rows w) \<and> keeps_settled d d'"
proof (induction rs arbitrary: d)
  case Nil
  then show ?case by (auto simp: worker_rows_def)
next
  case (Cons r rs)
  have rest: "queue_ok d rs" using Cons.prems(1) by (simp add: queue_ok_def)
  have none: "queue_ok d []" using Cons.prems(1) by (simp add: queue_ok_def)
  have tracked: "distinct_notices d" "tracked d r" using Cons.prems(1) by (simp_all add: queue_ok_def)
  obtain x where x: "List.find (\<lambda>x. n_id x = n_id r) (outbox d) = Some x" "\<not> settled x"
    by (rule find_notice [OF tracked])
  show ?case
  proof (cases "n_status x \<noteq> NPending")
    case True
    then show ?thesis using Cons.IH [OF rest] Cons.prems(2) x(1) by simp
  next
    case False
    show ?thesis
    proof (cases "payload_preference (n_payload x)")
      case None
      then show ?thesis using Cons.prems(2) x(1) False none by (auto simp: worker_rows_def)
    next
      case (Some p)
      show ?thesis
      proof (cases "notification_enabled dec d (prop_text p)")
        case True
        then show ?thesis using Cons.prems x(1) False Some by (auto simp: worker_rows_def)
      next
        case off: False
        let ?d = "update_notices (\<lambda>y. n_id y = n_id r) (\<lambda>y. y\<lparr>n_status := NSuppressed\<rparr>) d"
        have "queue_ok ?d rs \<and> keeps_settled d ?d"
          by (rule worker_update [OF Cons.prems(1)]) (auto simp: row_ok_def)
        moreover have "visit_rows dec now rs ?d = (d', w)" using Cons.prems(2) x(1) False Some off by simp
        ultimately show ?thesis using Cons.IH [of ?d] keeps_settled_trans by blast
      qed
    qed
  qed
qed

definition outbox_inv :: "outbox_service \<Rightarrow> bool" where
  "outbox_inv s = queue_ok (ob_db s) (worker_rows (ob_worker s))"

lemma queue_ok_Nil: "queue_ok d rs \<Longrightarrow> queue_ok d []"
  by (simp add: queue_ok_def)

lemma run_worker_ok:
  assumes "queue_ok (ob_db s) rs"
  shows "outbox_inv (run_worker dec now rs s) \<and> keeps_settled (ob_db s) (ob_db (run_worker dec now rs s))"
proof (cases "ob_stopped s")
  case True
  then show ?thesis using queue_ok_Nil [OF assms] by (simp add: run_worker_def outbox_inv_def worker_rows_def)
next
  case False
  obtain d w where v: "visit_rows dec now rs (ob_db s) = (d, w)" by fastforce
  then show ?thesis using visit_rows_ok [OF assms v] False by (simp add: run_worker_def outbox_inv_def)
qed

lemma due_rows_ok:
  assumes "queue_ok d rs"
  shows "queue_ok d (due_rows now d)"
proof -
  let ?due = "filter (\<lambda>r. n_status r = NPending \<and> n_next r \<le> now) (outbox d)"
  have sub: "set (due_rows now d) \<subseteq> set ?due" unfolding due_rows_def by (rule subset_trans [OF set_take_subset]) simp
  have "distinct (map n_id ?due)" using assms by (simp add: queue_ok_def distinct_notices_def distinct_map_filter)
  then have "distinct ?due" "inj_on n_id (set ?due)" by (simp_all only: distinct_map)
  then have "distinct (map n_id (due_rows now d))"
    using sub by (simp add: due_rows_def distinct_map inj_on_subset)
  moreover have "tracked d r" if "r \<in> set (due_rows now d)" for r
  proof -
    have "r \<in> set (outbox d)" "n_status r = NPending" using that sub by auto
    moreover from this have "n_attempts r < 5" using assms by (simp add: queue_ok_def row_ok_def)
    ultimately show ?thesis unfolding tracked_def settled_def by auto
  qed
  ultimately show ?thesis using assms by (simp add: queue_ok_def)
qed

lemma receipt_ok:
  assumes "queue_ok d (r # rs)"
  shows "queue_ok (receipt t r answer d) rs \<and> keeps_settled d (receipt t r answer d)"
proof (cases "delivery_failure answer")
  case None
  then have "receipt t r answer d = update_notices (\<lambda>x. n_id x = n_id r)
      (\<lambda>x. x\<lparr>n_status := NDelivered, n_attempts := Suc (n_attempts x), n_delivered := Some t, n_error := None\<rparr>) d"
    by (simp add: receipt_def)
  then show ?thesis using worker_update [OF assms, of _ "\<lambda>x. n_id x = n_id r"] by (simp add: row_ok_def)
next
  case (Some m)
  then have "receipt t r answer d = update_notices (\<lambda>x. n_id x = n_id r \<and> n_status x = NPending)
      (\<lambda>x. x\<lparr>n_status := if Suc (n_attempts r) \<ge> 5 then NExhausted else NPending, n_attempts := Suc (n_attempts r),
             n_next := t + retry_delay (Suc (n_attempts r)), n_error := Some m\<rparr>) d"
    by (simp add: receipt_def Let_def)
  then show ?thesis using worker_update [OF assms, of _ "\<lambda>x. n_id x = n_id r \<and> n_status x = NPending"] by (auto simp: row_ok_def)
qed

inductive_cases outbox_stepE: "outbox_step dec s s'"

lemma step_ok:
  assumes "outbox_inv s" and "outbox_step dec s s'"
  shows "outbox_inv s' \<and> keeps_settled (ob_db s) (ob_db s')"
  using assms(2)
proof (cases rule: outbox_step.cases)
  case (poll now)
  let ?d = "materialize now (ob_db s)"
  have m: "queue_ok ?d (worker_rows (ob_worker s))" "keeps_settled (ob_db s) ?d"
    using grows_queue [OF grows_materialize] assms(1) unfolding outbox_inv_def by blast+
  show ?thesis
  proof (cases "ob_stopped s \<or> ob_worker s \<noteq> None")
    case True
    then show ?thesis using m assms(1) poll by (auto simp: deliver_due_def outbox_inv_def Let_def)
  next
    case False
    let ?s = "s\<lparr>ob_db := ?d\<rparr>"
    have "s' = run_worker dec now (due_rows now ?d) ?s" using False poll by (simp add: deliver_due_def)
    moreover have "queue_ok (ob_db ?s) (due_rows now ?d)" using due_rows_ok [OF m(1)] by simp
    ultimately show ?thesis using run_worker_ok [of ?s "due_rows now ?d" dec now] m(2) keeps_settled_trans by auto
  qed
next
  case (completed elapsed answer)
  show ?thesis
  proof (cases "ob_worker s")
    case None
    then show ?thesis using assms(1) completed by (simp add: complete_delivery_def)
  next
    case w: (Some w)
    show ?thesis
    proof (cases "wk_sending w")
      case None
      then show ?thesis using assms(1) completed w by (simp add: complete_delivery_def)
    next
      case (Some g)
      let ?d = "receipt (wk_now w + max 0 elapsed) (sg_row g) answer (ob_db s)"
      let ?s = "s\<lparr>ob_db := ?d\<rparr>"
      have "queue_ok (ob_db s) (sg_row g # wk_rows w)" using assms(1) w Some by (simp add: outbox_inv_def worker_rows_def)
      then have r: "queue_ok (ob_db ?s) (wk_rows w)" "keeps_settled (ob_db s) ?d" using receipt_ok by auto
      have "s' = run_worker dec (wk_now w) (wk_rows w) ?s" using completed w Some by (simp add: complete_delivery_def)
      then show ?thesis using run_worker_ok [OF r(1), of dec "wk_now w"] r(2) keeps_settled_trans by auto
    qed
  qed
next
  case stopping
  then show ?thesis using assms(1) by (simp add: stop_outbox_def outbox_inv_def)
next
  case (elsewhere d)
  then show ?thesis using assms(1)
    by (simp add: outbox_inv_def queue_ok_def tracked_def distinct_notices_def keeps_settled_def)
next
  case restarted
  then show ?thesis using assms(1) queue_ok_Nil by (auto simp: outbox_inv_def worker_rows_def)
qed

lemma reachable_inv: "outbox_reachable dec s \<Longrightarrow> outbox_inv s"
proof (induction rule: outbox_reachable.induct)
  case (start d)
  then show ?case by (simp add: outbox_inv_def queue_ok_def distinct_notices_def worker_rows_def)
next
  case (step s s')
  then show ?case using step_ok by blast
qed


text \<open>A notification that was delivered, suppressed or given up is never changed, attempted or
  removed by a later step.\<close>

theorem settled_notifications_stay:
  assumes "outbox_reachable dec s" and "outbox_step dec s s'"
    and "r \<in> set (outbox (ob_db s))" and "n_status r \<in> {NDelivered, NSuppressed, NExhausted}"
  shows "r \<in> set (outbox (ob_db s'))"
  using step_ok [OF reachable_inv [OF assms(1)] assms(2)] assms(3,4) unfolding keeps_settled_def settled_def by blast

chapter \<open>Materialization\<close>

text \<open>
  The materialization handles the events in their order, each one once: the stored cursor is the
  number of the events that have been handled.
\<close>

section \<open>The text of a number\<close>

lemma digit_char_bounds: "n < 10 \<Longrightarrow> of_char (digit_char n) = 48 + n"
  by (simp add: digit_char_def)

lemma is_digit_char: "is_digit c \<longleftrightarrow> 48 \<le> (of_char c :: nat) \<and> (of_char c :: nat) \<le> 57"
  by (simp add: is_digit_def less_eq_char_def)

lemma digits_show_nat: "list_all is_digit (show_nat n)"
proof (induction n rule: show_nat.induct)
  case (1 n)
  have digit: "is_digit (digit_char k)" if "k < 10" for k using that by (simp add: is_digit_char digit_char_bounds)
  then show ?case using 1 by (subst show_nat.simps) simp
qed

lemma digit_not_space: "is_digit c \<Longrightarrow> \<not> is_space c"
  by (auto simp: is_digit_char is_space_def)

lemma trim_digits: "list_all is_digit s \<Longrightarrow> trim s = s"
proof -
  assume "list_all is_digit s"
  then have no: "\<forall>c \<in> set s. \<not> is_space c" using digit_not_space by (auto simp: list_all_iff)
  then have "dropWhile is_space s = s" by (cases s) auto
  moreover have "dropWhile is_space (rev s) = rev s" using no by (cases "rev s") (auto simp: rev_eq_Cons_iff)
  ultimately show ?thesis by (simp add: trim_def)
qed

lemma unsigned_digits: "s \<noteq> [] \<Longrightarrow> list_all is_digit s \<Longrightarrow> unsigned_number s = Some (of_nat (read_nat s))"
proof -
  assume s: "s \<noteq> []" "list_all is_digit s"
  then have d: "takeWhile is_digit s = s" "dropWhile is_digit s = []" by (simp_all add: list_all_iff)
  show "unsigned_number s = Some (of_nat (read_nat s))" unfolding unsigned_number_def d Let_def using s(1) by simp
qed

lemma js_number_digits:
  assumes "s \<noteq> []" and "list_all is_digit s"
  shows "js_number s = Fin (of_nat (read_nat s))"
proof -
  obtain c cs where s: "s = c # cs" "is_digit c" "list_all is_digit cs" using assms by (cases s) auto
  have "c \<noteq> CHR ''-''" "c \<noteq> CHR ''+''" "c \<noteq> CHR ''I''" using s(2) by (auto simp: is_digit_char)
  moreover have "to_lower (take 2 s) \<noteq> [CHR ''0'', x]" if "x \<in> {CHR ''x'', CHR ''o'', CHR ''b''}" for x
  proof -
    have "lower_char b = b" if "is_digit b" for b using that by (auto simp: lower_char_def is_digit_char less_eq_char_def)
    then show ?thesis using s that by (cases cs) (auto simp: to_lower_def is_digit_char)
  qed
  ultimately show ?thesis using assms s(1) trim_digits [OF assms(2)] unsigned_digits [OF assms]
    by (simp add: js_number_def Let_def)
qed

lemma js_number_show_nat [simp]: "js_number (show_nat n) = Fin (of_nat n)"
  using js_number_digits [OF show_nat_not_Nil digits_show_nat] by simp

section \<open>What an event leaves alone\<close>

definition quiet :: "db \<Rightarrow> db \<Rightarrow> bool" where
  "quiet d d' = (settings d' = settings d \<and> events d' = events d)"

lemma quiet_operations [simp]:
  "settings (insert_notice r d) = settings d" "events (insert_notice r d) = events d"
  "settings (update_notices P f d) = settings d" "events (update_notices P f d) = events d"
  "settings (record_notice now n d) = settings d" "events (record_notice now n d) = events d"
  "settings (invalid_notice now v d) = settings d" "events (invalid_notice now v d) = events d"
  by (simp_all add: insert_notice_def update_notices_def record_notice_def invalid_notice_def)

lemma quiet_execution:
  assumes "notify_execution now i d = Some d'"
  shows "quiet d d'"
proof (cases "find_exec d i")
  case None
  then show ?thesis using assms by (simp add: notify_execution_def quiet_def)
next
  case (Some e)
  show ?thesis
  proof (cases "all_some (map (pair_label d) (pairs_of d i))")
    case None
    then show ?thesis using assms Some by (simp add: notify_execution_def Let_def)
  next
    case labels: (Some ls)
    show ?thesis using assms unfolding notify_execution_def Let_def Some labels option.case option.inject
      by (rule subst [where P = "quiet d"]) (simp add: quiet_def)
  qed
qed

lemma quiet_try:
  assumes "\<forall>f \<in> set fs. \<forall>d d'. f d = Some d' \<longrightarrow> quiet d d'" and "\<And>d. quiet d (failed d)"
  shows "quiet d (try_all fs failed d)"
  using assms(1)
proof (induction fs arbitrary: d)
  case (Cons f fs)
  show ?case
  proof (cases "f d")
    case None
    then show ?thesis using assms(2) by simp
  next
    case (Some d1)
    then have "quiet d d1" using Cons.prems by simp
    moreover have "quiet d1 (try_all fs failed d1)" using Cons by simp
    ultimately show ?thesis using Some by (simp add: quiet_def)
  qed
qed (simp add: quiet_def)

lemma quiet_raised: "quiet d (materialize_event now v d)"
  unfolding materialize_event_def
proof (rule quiet_try)
  have "closing_event v d = Some d' \<Longrightarrow> quiet d d'" for d d'
    unfolding closing_event_def by (auto split: if_splits simp: quiet_def)
  moreover have "incident_event now v d = Some d' \<Longrightarrow> quiet d d'" for d d'
    unfolding incident_event_def by (auto split: if_splits option.splits simp: Let_def quiet_def)
  moreover have "(case v_execution v of Some i \<Rightarrow> if i \<noteq> [] then notify_execution now i d else Some d | None \<Rightarrow> Some d) = Some d' \<Longrightarrow> quiet d d'" for d d'
    using quiet_execution [of now _ d d'] by (auto split: option.splits if_splits simp: quiet_def)
  ultimately show "\<forall>f \<in> set [\<lambda>d. (case v_execution v of Some i \<Rightarrow> if i \<noteq> [] then notify_execution now i d else Some d | None \<Rightarrow> Some d),
      closing_event v, incident_event now v]. \<forall>d d'. f d = Some d' \<longrightarrow> quiet d d'" by simp
qed (simp add: quiet_def)

lemma quiet_materialized: "quiet d (fold (\<lambda>x. materialize_event now (snd x)) xs d)"
proof (induction xs arbitrary: d)
  case (Cons x xs)
  show ?case using Cons.IH [of "materialize_event now (snd x) d"] quiet_raised [of d now "snd x"] by (simp add: quiet_def)
qed (simp add: quiet_def)

section \<open>The cursor\<close>

lemma filter_after: "filter (\<lambda>x. of_nat k < (of_nat (fst x) :: rat)) (zip [Suc m..<Suc m + length vs] vs)
    = drop (k - m) (zip [Suc m..<Suc m + length vs] vs)"
proof (induction vs arbitrary: m)
  case (Cons v vs)
  have split: "zip [Suc m..<Suc m + length (v # vs)] (v # vs) = (Suc m, v) # zip [Suc (Suc m)..<Suc (Suc m) + length vs] vs"
    by (simp add: upt_conv_Cons del: upt_Suc)
  show ?case
  proof (cases "k \<le> m")
    case True
    have "k < fst x" if "x \<in> set (zip [Suc m..<Suc m + length (v # vs)] (v # vs))" for x
    proof -
      have "fst x \<in> set [Suc m..<Suc m + length (v # vs)]" by (rule set_zip_leftD [of _ "snd x"]) (use that in simp)
      then show ?thesis using True by (simp del: upt_Suc)
    qed
    then have "filter (\<lambda>x. of_nat k < (of_nat (fst x) :: rat)) (zip [Suc m..<Suc m + length (v # vs)] (v # vs))
        = zip [Suc m..<Suc m + length (v # vs)] (v # vs)"
      by (intro filter_True) simp
    then show ?thesis using True by simp
  next
    case False
    then have "k - m = Suc (k - Suc m)" by simp
    then show ?thesis unfolding split using Cons.IH [of "Suc m"] False by simp
  qed
qed simp

text \<open>The events that follow the first \<open>k\<close>, at most 250 of them.\<close>

definition next_events :: "nat \<Rightarrow> db \<Rightarrow> event_row list" where
  "next_events k d = take 250 (drop k (events d))"

lemma pending_events_at:
  assumes "event_cursor d = Fin (of_nat k)"
  shows "map snd (pending_events d) = next_events k d"
    and "pending_events d \<noteq> [] \<Longrightarrow> fst (last (pending_events d)) = k + length (next_events k d)"
proof -
  let ?all = "zip [Suc 0..<Suc 0 + length (events d)] (events d)"
  have p: "pending_events d = take 250 (drop k ?all)"
    unfolding pending_events_def using filter_after [of k 0 "events d"] assms by (simp add: after_cursor_def del: upt_Suc)
  have all: "map snd ?all = events d" "length ?all = length (events d)" by (simp_all del: upt_Suc)
  show one: "map snd (pending_events d) = next_events k d"
    unfolding p next_events_def using all(1) by (metis drop_map take_map)
  assume "pending_events d \<noteq> []"
  then have n: "0 < length (next_events k d)" using one by (metis length_greater_0_conv map_is_Nil_conv)
  have len: "length (pending_events d) = length (next_events k d)" using one by (metis length_map)
  have "last (pending_events d) = pending_events d ! (length (next_events k d) - 1)"
    using \<open>pending_events d \<noteq> []\<close> len by (simp add: last_conv_nth)
  also have "\<dots> = ?all ! (k + (length (next_events k d) - 1))"
    unfolding p using n by (simp add: next_events_def all(2) del: upt_Suc)
  also have "fst \<dots> = Suc (k + (length (next_events k d) - 1))"
    using n by (simp add: next_events_def del: upt_Suc)
  finally show "fst (last (pending_events d)) = k + length (next_events k d)" using n by simp
qed

text \<open>When the cursor says that the first \<open>k\<close> events have been handled, a materialization handles
  the next events in their order, at most 250 of them, each exactly once, and the cursor then counts
  these as well; no event is lost or handled again, whatever the events and the notifications are.\<close>

theorem events_are_materialized_once:
  assumes "event_cursor d = Fin (of_nat k)" and "k \<le> length (events d)"
  shows "event_cursor (materialize now d) = Fin (of_nat (min (k + 250) (length (events d))))
    \<and> events (materialize now d) = events d
    \<and> outbox (materialize now d) = outbox (fold (materialize_event now) (next_events k d) d)"
proof -
  let ?d = "fold (\<lambda>x. materialize_event now (snd x)) (pending_events d) d"
  have folded: "?d = fold (materialize_event now) (next_events k d) d"
    unfolding pending_events_at(1) [OF assms(1), symmetric] by (simp add: fold_map comp_def)
  have q: "settings ?d = settings d" "events ?d = events d" using quiet_materialized [of d now] unfolding quiet_def by blast+
  have len: "k + length (next_events k d) = min (k + 250) (length (events d))" using assms(2) by (simp add: next_events_def)
  show ?thesis
  proof (cases "pending_events d = []")
    case True
    then have "next_events k d = []" using pending_events_at(1) [OF assms(1)] by simp
    then show ?thesis using True assms(1) len by (simp add: materialize_def)
  next
    case False
    then have "materialize now d = ?d\<lparr>settings := (settings ?d)(''notification_event_cursor'' \<mapsto> show_nat (min (k + 250) (length (events d))))\<rparr>"
      using pending_events_at(2) [OF assms(1) False] len by (simp add: materialize_def Let_def)
    then show ?thesis using q(2) folded by (simp add: event_cursor_def)
  qed
qed

end
