(* ===== verification/System_Updates.thy ===== *)
theory System_Updates
  imports Json_Text App_Config
begin

text \<open>
  The system service (\<open>src/system/system.service.ts\<close>), third part: versions, the release manifest,
  the status file of the updater and the start of an update. The answer of the update server, the
  version of the application and the platform are parameters.
\<close>

section \<open>Versions\<close>

definition drop_v :: "string \<Rightarrow> string" where
  "drop_v s = (case s of c # cs \<Rightarrow> if c = CHR ''v'' then cs else s | [] \<Rightarrow> [])"

definition version_parts :: "string \<Rightarrow> int list" where
  "version_parts s =
     map (\<lambda>p. case parse_int p of None \<Rightarrow> 0 | Some n \<Rightarrow> n) (split_on (CHR ''.'') (hd (split_on (CHR ''-'') (drop_v s))))"

definition part :: "nat \<Rightarrow> int list \<Rightarrow> int" where
  "part i xs = (if i < length xs then xs ! i else 0)"

definition compare_versions :: "string \<Rightarrow> string \<Rightarrow> int" where
  "compare_versions left right =
     (let a = version_parts left; b = version_parts right
      in if part 0 a \<noteq> part 0 b then part 0 a - part 0 b
         else if part 1 a \<noteq> part 1 b then part 1 a - part 1 b
         else part 2 a - part 2 b)"

text \<open>\<open>/^\d+\.\d+\.\d+(?:-[0-9A-Za-z.-]+)?$/\<close>.\<close>

definition version_ok :: "string \<Rightarrow> bool" where
  "version_ok v =
     (let numbers = split_on (CHR ''.'') (takeWhile (\<lambda>c. c \<noteq> CHR ''-'') v); suffix = dropWhile (\<lambda>c. c \<noteq> CHR ''-'') v
      in length numbers = 3 \<and> list_all (\<lambda>p. p \<noteq> [] \<and> list_all is_digit p) numbers
         \<and> (suffix = [] \<or> length suffix \<ge> 2 \<and> list_all (\<lambda>c. is_alnum c \<or> c = CHR ''.'' \<or> c = CHR ''-'') (tl suffix)))"

definition https_url :: "string \<Rightarrow> bool" where
  "https_url s = starts_with (to_lower s) ''https://''"

text \<open>\<open>/^[a-f0-9]{64}$/i\<close>.\<close>

definition sha256_text :: "string \<Rightarrow> bool" where
  "sha256_text s = (length s = 64 \<and> list_all (\<lambda>c. is_digit c \<or> CHR ''a'' \<le> lower_char c \<and> lower_char c \<le> CHR ''f'') s)"

section \<open>The release manifest\<close>

definition artifact_bytes :: "json option \<Rightarrow> int option" where
  "artifact_bytes v = (case v of Some (JNum n) \<Rightarrow> if n = 0 then None else Some n | _ \<Rightarrow> None)"

definition release_artifact :: "string \<Rightarrow> json \<Rightarrow> json option" where
  "release_artifact key manifest =
     (case Option.bind (jget manifest ''artifacts'') (\<lambda>artifacts. jget artifacts key) of
        None \<Rightarrow> None
      | Some a \<Rightarrow>
          (let url = text_of (jget a ''url''); sha = text_of (jget a ''sha256'')
           in if \<not> truthy a \<or> \<not> https_url url \<or> \<not> sha256_text sha then None
              else Some (JObj ([(''key'', JStr key), (''url'', JStr url), (''sha256'', JStr (to_lower sha))]
                     @ (case artifact_bytes (jget a ''bytes'') of None \<Rightarrow> [] | Some n \<Rightarrow> [(''bytes'', JNum n)])))))"

record release =
  rl_version :: string
  rl_notes :: string
  rl_published :: string

definition release_summary :: "json \<Rightarrow> release option" where
  "release_summary item =
     (let version = drop_v (text_of (jget item ''version'')); notes = text_of (jget item ''releaseNotesUrl'')
      in if \<not> version_ok version \<or> \<not> https_url notes then None
         else Some \<lparr>rl_version = version, rl_notes = notes, rl_published = text_of (jget item ''publishedAt'')\<rparr>)"

text \<open>\<open>Array.prototype.sort\<close> with a comparison: a stable sort.\<close>

fun insert_by :: "('a \<Rightarrow> 'a \<Rightarrow> int) \<Rightarrow> 'a \<Rightarrow> 'a list \<Rightarrow> 'a list" where
  "insert_by cmp x [] = [x]"
| "insert_by cmp x (y # ys) = (if cmp x y \<le> 0 then x # y # ys else y # insert_by cmp x ys)"

definition sort_with :: "('a \<Rightarrow> 'a \<Rightarrow> int) \<Rightarrow> 'a list \<Rightarrow> 'a list" where
  "sort_with cmp xs = foldr (insert_by cmp) xs []"

definition release_history :: "json option \<Rightarrow> string \<Rightarrow> release option \<Rightarrow> release list" where
  "release_history v current latest =
     (let summaries = List.map_filter release_summary (case v of Some (JArr items) \<Rightarrow> items | _ \<Rightarrow> []);
          known = (case latest of
              None \<Rightarrow> summaries
            | Some l \<Rightarrow> if rl_version l \<noteq> [] \<and> rl_notes l \<noteq> [] \<and> rl_version l \<notin> rl_version ` set summaries
                        then summaries @ [l] else summaries)
      in sort_with (\<lambda>l r. compare_versions (rl_version r) (rl_version l))
           (filter (\<lambda>r. compare_versions (rl_version r) current > 0) known))"

section \<open>The status file\<close>

type_synonym update_status = "string \<rightharpoonup> json"

definition write_update_status :: "time \<Rightarrow> (time \<Rightarrow> string) \<Rightarrow> (string \<times> json) list \<Rightarrow> update_status \<Rightarrow> update_status" where
  "write_update_status now stamp vs s = (s ++ map_of (rev vs))(''updatedAt'' \<mapsto> JStr (stamp now))"

definition status_text :: "update_status \<Rightarrow> string \<Rightarrow> string" where
  "status_text s k = text_of (s k)"

record update_view =
  uw_enabled :: bool
  uw_current :: string
  uw_channel :: string
  uw_latest :: "string option"
  uw_available :: bool
  uw_releases :: "release list"
  uw_notes :: "json option"
  uw_published :: "json option"
  uw_checked :: "json option"
  uw_status :: string
  uw_progress :: "json option"
  uw_error :: string

definition env_or :: "config \<Rightarrow> string \<Rightarrow> string \<Rightarrow> string" where
  "env_or cfg k fallback = (if env_value cfg k \<noteq> [] then env_value cfg k else fallback)"

definition update_manifest_url :: "config \<Rightarrow> string" where
  "update_manifest_url cfg =
     trim (env_or cfg ''UPDATE_MANIFEST_URL'' ''https://github.com/dr-rei/VaultBack/releases/latest/download/latest.json'')"

text \<open>\<open>value || null\<close> (and \<open>value || 0\<close> of a number).\<close>

definition given :: "json option \<Rightarrow> json option" where
  "given v = (if truth_of v then v else None)"

definition update_info :: "config \<Rightarrow> string \<Rightarrow> update_status \<Rightarrow> update_view" where
  "update_info cfg current s =
     (let latest = status_text s ''latestVersion'';
          release = (if latest \<noteq> [] \<and> https_url (status_text s ''releaseNotesUrl'')
                     then Some \<lparr>rl_version = latest, rl_notes = status_text s ''releaseNotesUrl'', rl_published = status_text s ''publishedAt''\<rparr>
                     else None)
      in \<lparr>uw_enabled = (update_manifest_url cfg \<noteq> []), uw_current = current, uw_channel = env_or cfg ''UPDATE_CHANNEL'' ''stable'',
          uw_latest = (if latest = [] then None else Some latest),
          uw_available = (latest \<noteq> [] \<and> compare_versions latest current > 0 \<and> truth_of (s ''artifact'')),
          uw_releases = release_history (s ''releases'') current release,
          uw_notes = given (s ''releaseNotesUrl''), uw_published = given (s ''publishedAt''), uw_checked = given (s ''checkedAt''),
          uw_status = (if truth_of (s ''state'') then status_text s ''state'' else ''not_checked''),
          uw_progress = given (s ''progress''), uw_error = status_text s ''error''\<rparr>)"

section \<open>Checking for an update\<close>

text \<open>What the update server answers: the URL after the redirections, the status and the body, when it
  is JSON.\<close>

datatype update_answer = NoAnswer string | UpdateAnswer string nat "json option"

definition manifest_of :: "config \<Rightarrow> update_answer \<Rightarrow> json result" where
  "manifest_of cfg answer =
     (if \<not> https_url (update_manifest_url cfg) then Inl (BadRequest ''UPDATE_MANIFEST_URL must use HTTPS.'')
      else case answer of
             NoAnswer e \<Rightarrow> Inl (Failure e)
           | UpdateAnswer url status body \<Rightarrow>
               if \<not> starts_with url ''https:'' then Inl (BadRequest ''The update server redirected to an insecure URL.'')
               else if status = 404
               then Inl (BadRequest ''No published release manifest was found. Publish a successful release containing latest.json first.'')
               else if \<not> (200 \<le> status \<and> status \<le> 299)
               then Inl (BadRequest (''Update server returned HTTP '' @ show_nat status @ ''.''))
               else (case body of
                       None \<Rightarrow> Inl (Failure ''SyntaxError'')
                     | Some m \<Rightarrow> if version_ok (text_of (jget m ''version'')) then Inr m
                                 else Inl (BadRequest ''Update manifest has an invalid version.'')))"

definition error_text :: "http_error \<Rightarrow> string" where
  "error_text e = (case e of BadRequest m \<Rightarrow> m | Unauthorized m \<Rightarrow> m | Forbidden m \<Rightarrow> m | NotFound m \<Rightarrow> m | Unavailable m \<Rightarrow> m | Failure m \<Rightarrow> m)"

definition checked_status :: "(time \<Rightarrow> string) \<Rightarrow> time \<Rightarrow> config \<Rightarrow> string \<Rightarrow> string \<Rightarrow> json \<Rightarrow> update_status \<Rightarrow> update_status" where
  "checked_status stamp now cfg platform current m s =
     (let version = text_of (jget m ''version''); artifact = release_artifact platform m;
          available = (artifact \<noteq> None \<and> compare_versions version current > 0);
          notes = (if https_url (text_of (jget m ''releaseNotesUrl'')) then text_of (jget m ''releaseNotesUrl'') else []);
          published = text_of (jget m ''publishedAt'');
          releases = (case jget m ''releases'' of
              Some (JArr items) \<Rightarrow> JArr items
            | _ \<Rightarrow> JArr [JObj [(''version'', JStr version), (''releaseNotesUrl'', JStr notes), (''publishedAt'', JStr published)]])
      in write_update_status now stamp
           [(''state'', JStr (if available then ''available'' else ''current'')), (''checkedAt'', JStr (stamp now)), (''currentVersion'', JStr current),
            (''latestVersion'', JStr version),
            (''channel'', JStr (if truth_of (jget m ''channel'') then text_of (jget m ''channel'') else env_or cfg ''UPDATE_CHANNEL'' ''stable'')),
            (''releaseNotesUrl'', JStr notes), (''publishedAt'', if truth_of (jget m ''publishedAt'') then the (jget m ''publishedAt'') else JStr []), (''releases'', releases),
            (''artifact'', case artifact of None \<Rightarrow> JNull | Some a \<Rightarrow> a), (''error'', JStr [])] s)"

text \<open>\<open>checkForUpdate\<close>: a failure is recorded and thrown again.\<close>

definition check_for_update ::
  "(time \<Rightarrow> string) \<Rightarrow> time \<Rightarrow> config \<Rightarrow> string \<Rightarrow> string \<Rightarrow> update_answer \<Rightarrow> update_status \<Rightarrow> update_view result \<times> update_status" where
  "check_for_update stamp now cfg platform current answer s =
     (case manifest_of cfg answer of
        Inl e \<Rightarrow> (Inl e, write_update_status now stamp
                    [(''state'', JStr ''failed''), (''checkedAt'', JStr (stamp now)), (''error'', JStr (take 500 (error_text e)))] s)
      | Inr m \<Rightarrow> (let s' = checked_status stamp now cfg platform current m s in (Inr (update_info cfg current s'), s')))"

section \<open>Starting an update\<close>

text \<open>\<open>Number(text)\<close> as the text of a port; a port that is no integer keeps its text.\<close>

definition port_text :: "string \<Rightarrow> string" where
  "port_text s = (case js_number s of
      Fin r \<Rightarrow> if r = of_int \<lfloor>r\<rfloor> then show_int \<lfloor>r\<rfloor> else s
    | Infinite n \<Rightarrow> if n then ''-Infinity'' else ''Infinity''
    | NaN \<Rightarrow> ''NaN'')"

definition health_url :: "config \<Rightarrow> string" where
  "health_url cfg =
     (let configured = to_lower (env_or cfg ''APP_PROTOCOL'' ''http'');
          protocol = (if configured = ''https'' \<or> configured = ''both'' then ''https'' else ''http'');
          port = (if configured = ''both'' then port_text (env_or cfg ''HTTPS_PORT'' ''3443'') else port_text (env_or cfg ''PORT'' ''3010''))
      in protocol @ ''://127.0.0.1:'' @ port @ ''/api/health'')"

definition health_host :: "config \<Rightarrow> string" where
  "health_host cfg =
     (let h = trim (hd (split_on (CHR '','') (env_or cfg ''APP_DOMAIN'' ''127.0.0.1''))) in if h \<noteq> [] then h else ''127.0.0.1'')"

record update_start =
  uo_command :: string
  uo_args :: "string list"
  uo_target :: string

text \<open>\<open>startUpdate\<close> up to the start of the updater; \<open>launcher\<close> is \<open>setsid\<close>, where it exists, and
  \<open>app\<close>, \<open>data\<close> and \<open>node\<close> are the directories and the executable.\<close>

definition start_update ::
  "(time \<Rightarrow> string) \<Rightarrow> time \<Rightarrow> config \<Rightarrow> string \<Rightarrow> string \<Rightarrow> string \<Rightarrow> string option \<Rightarrow> string \<Rightarrow> update_status \<Rightarrow>
     (update_start \<times> update_status) result" where
  "start_update stamp now cfg app data node launcher current s =
     (let target = status_text s ''latestVersion''
      in case s ''artifact'' of
           None \<Rightarrow> Inl (BadRequest ''Check for a newer release before starting an update.'')
         | Some artifact \<Rightarrow>
             if \<not> truthy artifact \<or> target = [] \<or> compare_versions target current \<le> 0
             then Inl (BadRequest ''Check for a newer release before starting an update.'')
             else let args = [app @ ''/scripts/update.mjs'', ''--app-root'', app, ''--data-dir'', data, ''--version'', target,
                              ''--url'', text_of (jget artifact ''url''), ''--sha256'', text_of (jget artifact ''sha256''),
                              ''--health-url'', health_url cfg, ''--health-host'', health_host cfg]
                             @ (if env_value cfg ''UPDATE_PM2_APP'' \<noteq> [] then [''--pm2-app'', env_value cfg ''UPDATE_PM2_APP''] else [])
                  in Inr (\<lparr>uo_command = (case launcher of Some l \<Rightarrow> l | None \<Rightarrow> node),
                           uo_args = (if launcher \<noteq> None then node # args else args), uo_target = target\<rparr>,
                          write_update_status now stamp
                            [(''state'', JStr ''queued''), (''progress'', JNum 0), (''targetVersion'', JStr target), (''error'', JStr [])] s))"

end
