(* ===== verification/System_Props.thy ===== *)
theory System_Props
  imports System_Settings System_Updates
begin

text \<open>
  Notification settings that were saved are the ones that deliver, over HTTPS; an update runs a release
  that is newer, from the artifact that the manifest pinned.
\<close>

section \<open>Notification settings\<close>

text \<open>What is relied on of the encryption: it opens what it sealed and is never empty.\<close>

definition opens_sealed :: "(string \<Rightarrow> json option) \<Rightarrow> (json \<Rightarrow> string) \<Rightarrow> bool" where
  "opens_sealed dec enc = (\<forall>j. enc j \<noteq> [] \<and> dec (enc j) = Some j)"

lemma read_write:
  assumes "opens_sealed dec enc"
  shows "read_setting dec (write_setting enc k v d) k fallback = v"
  using assms by (simp add: opens_sealed_def read_setting_def write_setting_def)

lemma saved_settings_fields:
  "jget (saved_settings input old) ''enabled'' = Some (JBool (truth_of (jget input ''enabled'')))"
  "jget (saved_settings input old) ''provider'' = Some (JStr (chosen_provider input))"
  "jget (saved_settings input old) ''webhookUrl'' = Some (JStr (trim (text_of (jget input ''webhookUrl''))))"
  by (simp_all add: saved_settings_def jget_def)

lemma saved_settings_event:
  assumes "e \<in> fst ` set notification_events"
  shows "jget (config_events (saved_settings input old)) e = Some (JBool (event_enabled input old e (e \<noteq> ''backup_success'')))"
  using assms by (auto simp: config_events_def saved_settings_def jget_def notification_events_def)

lemma saved_view:
  assumes "opens_sealed dec enc" and "save_notification_settings dec enc input d = Inr (view, d')"
  defines "old \<equiv> read_setting dec d ''notification_settings'' (JObj [])"
  shows "read_setting dec d' ''notification_settings'' fallback = saved_settings input old"
    and "truth_of (jget input ''enabled'') \<Longrightarrow> chosen_provider input \<noteq> ''telegram'' \<Longrightarrow> starts_with (text_of (jget input ''webhookUrl'')) ''https://''"
proof -
  have d': "d' = write_setting enc ''notification_settings'' (saved_settings input old) d"
    and ok: "truth_of (jget input ''enabled'') \<Longrightarrow> chosen_provider input \<noteq> ''telegram'' \<Longrightarrow> starts_with (text_of (jget input ''webhookUrl'')) ''https://''"
    using assms(2) by (auto simp: save_notification_settings_def Let_def old_def split: if_splits)
  show "read_setting dec d' ''notification_settings'' fallback = saved_settings input old"
    unfolding d' by (rule read_write [OF assms(1)])
  show "truth_of (jget input ''enabled'') \<Longrightarrow> chosen_provider input \<noteq> ''telegram'' \<Longrightarrow> starts_with (text_of (jget input ''webhookUrl'')) ''https://''"
    by (rule ok)
qed

lemma trim_https:
  assumes "starts_with s ''https://''"
  shows "starts_with (trim s) ''https://''"
proof -
  have "take 8 s = ''https://''" using assms by (simp add: starts_with_def numeral_eq_Suc)
  then have "s = ''https://'' @ drop 8 s" by (metis append_take_drop_id)
  then obtain r where s: "s = ''https:/'' @ CHR ''/'' # r" by simp
  have "dropWhile is_space s = s" unfolding s by (simp add: is_space_def)
  have "\<exists>r'. dropWhile is_space (rev r @ [CHR ''/'']) = r' @ [CHR ''/'']"
    by (induction r rule: rev_induct) (auto simp: is_space_def)
  then obtain r' where r': "dropWhile is_space (rev r @ [CHR ''/'']) = r' @ [CHR ''/'']" by blast
  have "dropWhile is_space ((rev r @ [CHR ''/'']) @ rev ''https:/'') = (r' @ [CHR ''/'']) @ rev ''https:/''"
    unfolding r' [symmetric] by (rule dropWhile_append1 [of "CHR ''/''"]) (simp_all add: is_space_def)
  moreover have "rev s = (rev r @ [CHR ''/'']) @ rev ''https:/''" unfolding s by simp
  ultimately have "trim s = rev ((r' @ [CHR ''/'']) @ rev ''https:/'')"
    unfolding trim_def \<open>dropWhile is_space s = s\<close> by (simp only:)
  then show ?thesis by (simp add: starts_with_def)
qed

text \<open>After the notification settings were saved, an event is delivered exactly when notifications
  are switched on and the request, or else the settings before it, left the event switched on (only the
  success of a backup is off unless chosen); and every request then goes to an HTTPS address.\<close>

theorem saved_notification_settings_take_effect:
  assumes "opens_sealed dec enc" and "save_notification_settings dec enc input d = Inr (view, d')"
    and "e \<in> fst ` set notification_events"
  shows "notification_enabled dec d' e = (truth_of (jget input ''enabled'')
       \<and> event_enabled input (read_setting dec d ''notification_settings'' (JObj [])) e (e \<noteq> ''backup_success''))
    \<and> (case send_notification dec d' e message of None \<Rightarrow> \<not> notification_enabled dec d' e
       | Some rq \<Rightarrow> starts_with (dr_url rq) ''https://'')"
proof -
  note saved = saved_view [OF assms(1,2)]
  have on: "notification_enabled dec d' e = (truth_of (jget input ''enabled'')
       \<and> event_enabled input (read_setting dec d ''notification_settings'' (JObj [])) e (e \<noteq> ''backup_success''))"
    unfolding notification_enabled_def get_notification_settings_def notification_config_def saved(1) Let_def
    by (simp add: saved_settings_event [OF assms(3)] saved_settings_fields truth_of_def)
  have "starts_with (dr_url rq) ''https://''" if "send_notification dec d' e message = Some rq" for rq
  proof -
    have "truth_of (jget input ''enabled'')" using that on by (auto simp: send_notification_def split: if_splits)
    then have "chosen_provider input \<noteq> ''telegram'' \<Longrightarrow> starts_with (trim (text_of (jget input ''webhookUrl''))) ''https://''"
      using saved(2) trim_https by blast
    then show ?thesis using that
      by (auto simp: send_notification_def Let_def saved(1) saved_settings_fields prop_text_def starts_with_def split: if_splits)
  qed
  then show ?thesis using on by (auto simp: send_notification_def Let_def split: option.splits)
qed

section \<open>Updates\<close>

definition pinned :: "json \<Rightarrow> bool" where
  "pinned a = (https_url (text_of (jget a ''url'')) \<and> sha256_text (text_of (jget a ''sha256'')))"

definition status_ok :: "update_status \<Rightarrow> bool" where
  "status_ok s = (case s ''artifact'' of None \<Rightarrow> True | Some a \<Rightarrow> truthy a \<longrightarrow> pinned a)"

lemma lower_twice [simp]: "lower_char (lower_char c) = lower_char c"
proof (cases "CHR ''A'' \<le> c \<and> c \<le> CHR ''Z''")
  case True
  then have "65 \<le> (of_char c :: nat)" "(of_char c :: nat) \<le> 90" by (simp_all add: less_eq_char_def)
  then have "of_char (lower_char c) = (of_char c :: nat) + 32" using True by (simp add: lower_char_def)
  then have "\<not> (CHR ''A'' \<le> lower_char c \<and> lower_char c \<le> CHR ''Z'')" using \<open>65 \<le> _\<close> by (simp add: less_eq_char_def)
  then show ?thesis unfolding lower_char_def [of "lower_char c"] by (simp only: if_False)
next
  case False
  then have "lower_char c = c" unfolding lower_char_def by (simp only: if_False)
  then show ?thesis by (simp only:)
qed

lemma lower_digit: "is_digit c \<Longrightarrow> lower_char c = c"
  by (auto simp: lower_char_def is_digit_def less_eq_char_def)

lemma sha256_lower: "sha256_text s \<Longrightarrow> sha256_text (to_lower s)"
  by (auto simp: sha256_text_def to_lower_def list_all_iff lower_digit)

lemma release_artifact_pinned:
  assumes "release_artifact key m = Some a"
  shows "truthy a \<and> pinned a"
  using assms sha256_lower
  by (auto simp: release_artifact_def Let_def pinned_def jget_def split: option.splits if_splits)

lemma write_other_status:
  assumes "''artifact'' \<notin> fst ` set vs" and "status_ok s"
  shows "status_ok (write_update_status now stamp vs s)"
proof -
  have "map_of (rev vs) ''artifact'' = None" using assms(1) by (simp add: map_of_eq_None_iff)
  then show ?thesis using assms(2) by (simp add: status_ok_def write_update_status_def map_add_def)
qed

lemma check_keeps_status:
  assumes "status_ok s"
  shows "status_ok (snd (check_for_update stamp now cfg platform current answer s))"
proof (cases "manifest_of cfg answer")
  case (Inl e)
  then show ?thesis using write_other_status [OF _ assms] by (simp add: check_for_update_def)
next
  case (Inr m)
  have "checked_status stamp now cfg platform current m s ''artifact''
      = Some (case release_artifact platform m of None \<Rightarrow> JNull | Some a \<Rightarrow> a)"
    by (simp add: checked_status_def Let_def write_update_status_def map_add_def)
  then show ?thesis using Inr release_artifact_pinned [of platform m]
    by (auto simp: check_for_update_def Let_def status_ok_def split: option.splits)
qed

lemma start_keeps_status:
  assumes "status_ok s" and "start_update stamp now cfg app data node launcher current s = Inr (u, s')"
  shows "status_ok s'"
proof -
  have "s' = write_update_status now stamp [(''state'', JStr ''queued''), (''progress'', JNum 0),
      (''targetVersion'', JStr (status_text s ''latestVersion'')), (''error'', JStr [])] s"
    using assms(2) by (auto simp: start_update_def Let_def split: option.splits if_splits)
  then show ?thesis using write_other_status [OF _ assms(1)] by simp
qed

text \<open>The status files that checks, starts and reports of the updater lead to.\<close>

inductive status_reachable :: "update_status \<Rightarrow> bool" where
  none: "status_reachable Map.empty"
| checked: "status_reachable s \<Longrightarrow> status_reachable (snd (check_for_update stamp now cfg platform current answer s))"
| started: "status_reachable s \<Longrightarrow> start_update stamp now cfg app data node launcher current s = Inr (u, s') \<Longrightarrow> status_reachable s'"
| reported: "status_reachable s \<Longrightarrow> ''artifact'' \<notin> fst ` set vs \<Longrightarrow> status_reachable (write_update_status now stamp vs s)"

lemma status_reachable_ok: "status_reachable s \<Longrightarrow> status_ok s"
proof (induction rule: status_reachable.induct)
  case none
  then show ?case by (simp add: status_ok_def)
qed (auto intro: check_keeps_status start_keeps_status write_other_status)

text \<open>Whatever was checked, started and reported before, an update that starts is to a version newer
  than the running one, and the updater is given the HTTPS address and the SHA-256 digest of an artifact
  that the release manifest pinned for this platform.\<close>

theorem updates_are_newer_and_pinned:
  assumes "status_reachable s" and "start_update stamp now cfg app data node launcher current s = Inr (u, s')"
  shows "compare_versions (uo_target u) current > 0
    \<and> (\<exists>url sha front rest. uo_args u = front @ [''--url'', url, ''--sha256'', sha] @ rest \<and> https_url url \<and> sha256_text sha)"
proof -
  obtain a where a: "s ''artifact'' = Some a" "truthy a" and newer: "compare_versions (status_text s ''latestVersion'') current > 0"
    and target: "uo_target u = status_text s ''latestVersion''"
    and args: "\<exists>front rest. uo_args u = front @ [''--url'', text_of (jget a ''url''), ''--sha256'', text_of (jget a ''sha256'')] @ rest"
  proof -
    obtain a where a: "s ''artifact'' = Some a" "truthy a" and newer: "compare_versions (status_text s ''latestVersion'') current > 0"
      using assms(2) by (auto simp: start_update_def Let_def split: option.splits if_splits)
    let ?target = "status_text s ''latestVersion''"
    let ?front = "[app @ ''/scripts/update.mjs'', ''--app-root'', app, ''--data-dir'', data, ''--version'', ?target]"
    let ?rest = "[''--health-url'', health_url cfg, ''--health-host'', health_host cfg]
                             @ (if env_value cfg ''UPDATE_PM2_APP'' \<noteq> [] then [''--pm2-app'', env_value cfg ''UPDATE_PM2_APP''] else [])"
    have "uo_args u = ((if launcher \<noteq> None then [node] else []) @ ?front) @ [''--url'', text_of (jget a ''url''), ''--sha256'', text_of (jget a ''sha256'')] @ ?rest"
      and "uo_target u = ?target"
      using assms(2) a by (auto simp: start_update_def Let_def split: if_splits)
    then show thesis using that a newer by blast
  qed
  have "pinned a" using status_reachable_ok [OF assms(1)] a by (simp add: status_ok_def)
  then show ?thesis using newer target args unfolding pinned_def by auto
qed

end
