(* ===== verification/System_Environment.thy ===== *)
theory System_Environment
  imports Json_Text Control_Db App_Config
begin

text \<open>
  The system service (\<open>src/system/system.service.ts\<close>), second part: the environment kept in \<open>.env\<close>,
  the usage of the API per client address, the setup status and the pages of the audit log.
\<close>

section \<open>The environment\<close>

record environment_view =
  ew_current :: string
  ew_configured :: string
  ew_pending :: bool
  ew_protections :: bool

text \<open>\<open>started\<close> is the environment the process started with, \<open>cfg\<close> the present configuration.\<close>

definition environment_settings :: "string \<Rightarrow> config \<Rightarrow> environment_view" where
  "environment_settings started cfg =
     (let v = configured_env_value cfg ''NODE_ENV'';
          configured = (if to_lower (if v \<noteq> [] then v else started) = ''production'' then ''production'' else ''development'')
      in \<lparr>ew_current = started, ew_configured = configured, ew_pending = (started \<noteq> configured),
          ew_protections = (configured = ''production'')\<rparr>)"

text \<open>\<open>/^\s*#?\s*NODE_ENV\s*=/\<close>.\<close>

definition environment_line :: "string \<Rightarrow> bool" where
  "environment_line line =
     (let s = dropWhile is_space line
      in assigns ''NODE_ENV'' (case s of c # cs \<Rightarrow> if c = CHR ''#'' then cs else s | [] \<Rightarrow> s))"

text \<open>The first line that assigns the variable, commented out or not, is replaced; the others become
  empty.\<close>

fun replace_lines :: "string \<Rightarrow> bool \<Rightarrow> string list \<Rightarrow> string list \<times> bool" where
  "replace_lines new replaced [] = ([], replaced)"
| "replace_lines new replaced (l # ls) =
     (let l' = (if \<not> environment_line l then l else if replaced then [] else new);
          (ls', r) = replace_lines new (replaced \<or> environment_line l) ls
      in (l' # ls', r))"

definition drop_empty_end :: "string list \<Rightarrow> string list" where
  "drop_empty_end ls = rev (dropWhile (\<lambda>l. l = []) (rev ls))"

definition environment_lines :: "string \<Rightarrow> string list \<Rightarrow> string list" where
  "environment_lines new ls =
     (case replace_lines new False ls of
        (ls', True) \<Rightarrow> ls'
      | (ls', False) \<Rightarrow> (let kept = drop_empty_end ls' in kept @ (if kept \<noteq> [] then [[]] else []) @ [new]))"

definition environment_text :: "string \<Rightarrow> string \<Rightarrow> string" where
  "environment_text environment existing =
     (let t = join [CHR 0x0A] (environment_lines (''NODE_ENV='' @ environment) (file_lines existing))
      in rev (dropWhile (\<lambda>c. c = CHR 0x0A) (rev t)) @ [CHR 0x0A])"

text \<open>\<open>saveEnvironment\<close>: the file is written beside the old one and renamed over it; \<open>writes\<close> says
  whether that succeeds.\<close>

definition save_environment :: "bool \<Rightarrow> string \<Rightarrow> config \<Rightarrow> config result" where
  "save_environment writes v cfg =
     (let environment = to_lower (trim v)
      in if environment \<noteq> ''development'' \<and> environment \<noteq> ''production''
         then Inl (BadRequest ''Environment must be development or production'')
         else if environment = ''production'' \<and> configured_env_value cfg ''APP_DOMAIN'' = []
         then Inl (BadRequest ''Configure APP_DOMAIN before enabling production mode'')
         else if \<not> writes then Inl (BadRequest ''Could not save .env'')
         else Inr (cfg\<lparr>cf_file := Some (environment_text environment (case cf_file cfg of None \<Rightarrow> [] | Some t \<Rightarrow> t))\<rparr>))"

section \<open>Usage of the API\<close>

record usage =
  us_window :: time
  us_count :: nat
  us_seen :: time

text \<open>The map \<open>apiUsage\<close> in the order of its insertions.\<close>

type_synonym usage_map = "(string \<times> usage) list"

definition window_of :: "time \<Rightarrow> time" where
  "window_of now = now div 60000 * 60000"

fun put_usage :: "string \<Rightarrow> usage \<Rightarrow> usage_map \<Rightarrow> usage_map" where
  "put_usage ip u [] = [(ip, u)]"
| "put_usage ip u (x # xs) = (if fst x = ip then (ip, u) # xs else x # put_usage ip u xs)"

definition prune_api_usage :: "time \<Rightarrow> time \<Rightarrow> usage_map \<Rightarrow> usage_map" where
  "prune_api_usage now window m =
     (let live = filter (\<lambda>x. us_window (snd x) = window \<and> \<not> now - us_seen (snd x) > 120000) m;
          oldest = map fst (take (length live - 2000) (sort_key (\<lambda>x. us_seen (snd x)) live))
      in if length live \<le> 2000 then live else filter (\<lambda>x. fst x \<notin> set oldest) live)"

definition client_address :: "string option \<Rightarrow> string option \<Rightarrow> string" where
  "client_address ip remote =
     (let pick = (\<lambda>v d. case v of Some s \<Rightarrow> if s \<noteq> [] then s else d | None \<Rightarrow> d);
          s = trim (pick ip (pick remote ''unknown''))
      in if s \<noteq> [] then s else ''unknown'')"

definition record_api_request :: "time \<Rightarrow> string \<Rightarrow> usage_map \<Rightarrow> usage_map" where
  "record_api_request now ip m =
     (let window = window_of now;
          entry = (case map_of m ip of
                     Some u \<Rightarrow> if us_window u = window then u else \<lparr>us_window = window, us_count = 0, us_seen = now\<rparr>
                   | None \<Rightarrow> \<lparr>us_window = window, us_count = 0, us_seen = now\<rparr>)
      in prune_api_usage now window (put_usage ip (entry\<lparr>us_count := Suc (us_count entry), us_seen := now\<rparr>) m))"

record usage_item =
  ui_ip :: string
  ui_requests :: nat
  ui_remaining :: int

record usage_page =
  up_enabled :: bool
  up_window :: time
  up_reset :: time
  up_limit :: int
  up_items :: "usage_item list"
  up_total :: nat
  up_page :: int
  up_size :: int
  up_count :: int

definition list_api_usage :: "config \<Rightarrow> time \<Rightarrow> query \<Rightarrow> usage_map \<Rightarrow> usage_page \<times> usage_map" where
  "list_api_usage cfg now q m =
     (let window = window_of now; m' = prune_api_usage now window m;
          rows = sort_key (\<lambda>x. - us_seen (snd x)) (filter (\<lambda>x. us_window (snd x) = window) m');
          busiest = sort_key (\<lambda>x. - int (us_count (snd x))) rows;
          n = length busiest; sz = page_size q; pages = page_count n sz;
          page = min (page_number q) pages; limit = rate_limit_per_minute cfg
      in (\<lparr>up_enabled = is_production cfg, up_window = window, up_reset = window + 60000, up_limit = limit,
           up_items = map (\<lambda>x. \<lparr>ui_ip = fst x, ui_requests = us_count (snd x), ui_remaining = max 0 (limit - int (us_count (snd x)))\<rparr>)
             (limit_offset sz ((page - 1) * sz) busiest),
           up_total = n, up_page = page, up_size = sz, up_count = pages\<rparr>, m'))"

section \<open>Capacity, setup status and audit log\<close>

text \<open>\<open>Math.round\<close> of the used share in percent.\<close>

definition used_percent :: "int \<Rightarrow> int \<Rightarrow> int" where
  "used_percent whole free = (if whole = 0 then 0 else \<lfloor>(of_int ((whole - free) * 100) / of_int whole :: rat) + 1 / 2\<rfloor>)"

record setup_view =
  sp_connections :: nat
  sp_storage :: nat
  sp_schedules :: nat
  sp_complete :: bool

definition setup_status :: "db \<Rightarrow> setup_view" where
  "setup_status d =
     (let c = length (filter (\<lambda>c. c_purpose c \<noteq> ''recovery'') (connections d)); s = length (targets d); j = length (jobs d)
      in \<lparr>sp_connections = c, sp_storage = s, sp_schedules = j, sp_complete = (c > 0 \<and> s > 0 \<and> j > 0)\<rparr>)"

record audit_row =
  al_id :: id
  al_user :: "id option"
  al_action :: string
  al_entity :: "string option"
  al_entity_id :: "string option"
  al_metadata :: "string option"
  al_created :: time

definition or_nothing :: "string option \<Rightarrow> string" where
  "or_nothing v = (case v of None \<Rightarrow> [] | Some s \<Rightarrow> s)"

definition audit_text :: "db \<Rightarrow> audit_row \<Rightarrow> string" where
  "audit_text d r =
     to_lower (al_action r @ '' '' @ or_nothing (al_entity r) @ '' '' @ or_nothing (al_metadata r) @ '' '' @
       (case Option.bind (al_user r) (find_user d) of None \<Rightarrow> [] | Some u \<Rightarrow> u_name u))"

record audit_page =
  ap_items :: "audit_row list"
  ap_total :: nat
  ap_page :: int
  ap_size :: int
  ap_count :: int

definition list_audit :: "db \<Rightarrow> audit_row list \<Rightarrow> query \<Rightarrow> audit_page" where
  "list_audit d rows q =
     (let page = page_number q; sz = page_size q; search = to_lower (trim (or_nothing (q ''search'')));
          found = (if search = [] then rows else filter (\<lambda>r. sql_like (''%'' @ search @ ''%'') (audit_text d r)) rows)
      in \<lparr>ap_items = limit_offset sz ((page - 1) * sz) (sort_key (\<lambda>r. - al_created r) found),
          ap_total = length found, ap_page = page, ap_size = sz, ap_count = page_count (length found) sz\<rparr>)"

end
