(* ===== verification/Environment_Props.thy ===== *)
theory Environment_Props
  imports System_Environment Prelude
begin

text \<open>
  The environment that was saved is the one that is read, and every other variable of \<open>.env\<close> keeps its
  value; the usage counted for a client is the number of its requests in the present window.
\<close>

section \<open>Lines\<close>

lemma split_on_pieces: "x \<in> set (split_on c s) \<Longrightarrow> c \<notin> set x"
  by (induction s arbitrary: x) (auto split: list.splits if_splits)

lemma set_chomp: "set (chomp l) \<subseteq> set l"
  by (auto simp: chomp_def rev_eq_Cons_iff split: list.splits if_splits)

lemma file_lines_no_newline: "l \<in> set (file_lines s) \<Longrightarrow> CHR 0x0A \<notin> set l"
  using split_on_pieces [of _ "CHR 0x0A" s] set_chomp
  by (auto simp: file_lines_def Let_def dest!: in_set_butlastD)

lemma drop_empty_end_snoc [simp]: "drop_empty_end (ls @ [l]) = (if l = [] then drop_empty_end ls else ls @ [l])"
  by (simp add: drop_empty_end_def)

lemma drop_empty_end_Nil [simp]: "drop_empty_end [] = []"
  by (simp add: drop_empty_end_def)

lemma join_snoc: "join sep (ls @ [l]) = (if ls = [] then l else join sep ls @ sep @ l)"
  by (induction sep ls rule: join.induct) auto

lemma strip_join:
  assumes "\<forall>l \<in> set ls. CHR 0x0A \<notin> set l"
  shows "rev (dropWhile (\<lambda>c. c = CHR 0x0A) (rev (join [CHR 0x0A] ls))) = join [CHR 0x0A] (drop_empty_end ls)"
  using assms
proof (induction ls rule: rev_induct)
  case (snoc l ls)
  show ?case
  proof (cases "l = []")
    case True
    then show ?thesis using snoc by (simp add: join_snoc)
  next
    case False
    then obtain m x where l: "l = m @ [x]" by (cases l rule: rev_cases) auto
    then have x: "x \<noteq> CHR 0x0A" using snoc.prems by auto
    obtain k where k: "join [CHR 0x0A] (ls @ [l]) = k @ l" by (cases "ls = []") (auto simp: join_snoc)
    have "rev (k @ l) = x # rev (k @ m)" by (simp add: l)
    then have "dropWhile (\<lambda>c. c = CHR 0x0A) (rev (k @ l)) = rev (k @ l)" using x by simp
    then show ?thesis unfolding drop_empty_end_snoc k using False k by simp
  qed
qed simp

lemma written_lines:
  assumes "\<forall>l \<in> set ls. CHR 0x0A \<notin> set l" and "drop_empty_end ls \<noteq> []"
  shows "file_lines (rev (dropWhile (\<lambda>c. c = CHR 0x0A) (rev (join [CHR 0x0A] ls))) @ [CHR 0x0A]) = map chomp (drop_empty_end ls) @ [[]]"
proof -
  let ?ks = "drop_empty_end ls"
  have sub: "set ?ks \<subseteq> set ls" unfolding drop_empty_end_def using set_dropWhileD by fastforce
  have "join [CHR 0x0A] ?ks @ [CHR 0x0A] = join [CHR 0x0A] (?ks @ [[]])" using assms(2) by (simp add: join_snoc)
  moreover have "split_on (CHR 0x0A) (join [CHR 0x0A] (?ks @ [[]])) = ?ks @ [[]]"
    by (rule split_on_join) (use assms sub in auto)
  ultimately show ?thesis unfolding strip_join [OF assms(1)] by (simp add: file_lines_def Let_def)
qed

section \<open>A line that assigns\<close>

definition name_char :: "char \<Rightarrow> bool" where
  "name_char c = (is_alnum c \<or> c = CHR ''_'')"

lemma name_not_space: "name_char c \<Longrightarrow> \<not> is_space c"
  by (auto simp: name_char_def is_alnum_def is_letter_def is_digit_def is_space_def less_eq_char_def)

definition line_value :: "string \<Rightarrow> string" where
  "line_value l = unquote (trim (tl (dropWhile (\<lambda>c. c \<noteq> CHR ''='') l)))"

lemma chomp_cases: "chomp l = l \<or> l = chomp l @ [CHR 0x0D]"
  by (auto simp: chomp_def rev_eq_Cons_iff split: list.splits)

lemma starts_with_snoc: "c \<notin> set k \<Longrightarrow> starts_with (s @ [c]) k \<longleftrightarrow> starts_with s k"
proof (induction k arbitrary: s)
  case (Cons x k)
  then show ?case by (cases s) (auto simp: starts_with_def)
qed (simp add: starts_with_def)

lemma assigns_snoc:
  assumes "list_all name_char k"
  shows "assigns k (l @ [CHR 0x0D]) \<longleftrightarrow> assigns k l"
proof -
  have sp: "is_space (CHR 0x0D)" by (simp add: is_space_def)
  have no: "CHR 0x0D \<notin> set k" using assms name_not_space sp by (auto simp: list_all_iff)
  have first: "(case dropWhile is_space (t @ [CHR 0x0D]) of c # _ \<Rightarrow> c = CHR ''='' | [] \<Rightarrow> False)
      = (case dropWhile is_space t of c # _ \<Rightarrow> c = CHR ''='' | [] \<Rightarrow> False)" for t
    by (induction t) (simp_all add: sp)
  show ?thesis
  proof (cases "\<forall>c \<in> set l. is_space c")
    case True
    then have d: "dropWhile is_space (l @ [CHR 0x0D]) = []" "dropWhile is_space l = []" using sp by (simp_all add: dropWhile_eq_Nil_conv)
    show ?thesis unfolding assigns_def d Let_def by simp
  next
    case False
    then have d: "dropWhile is_space (l @ [CHR 0x0D]) = dropWhile is_space l @ [CHR 0x0D]" by (auto simp: dropWhile_append1)
    let ?s = "dropWhile is_space l"
    show ?thesis
    proof (cases "starts_with ?s k")
      case True
      then have "length k \<le> length ?s" unfolding starts_with_def by (metis nat_le_linear take_all_iff)
      then have "drop (length k) (?s @ [CHR 0x0D]) = drop (length k) ?s @ [CHR 0x0D]" by simp
      then show ?thesis unfolding assigns_def d Let_def using starts_with_snoc [OF no] first by simp
    next
      case False
      then show ?thesis unfolding assigns_def d Let_def using starts_with_snoc [OF no] by simp
    qed
  qed
qed

lemma assigns_chomp: "list_all name_char k \<Longrightarrow> assigns k (chomp l) \<longleftrightarrow> assigns k l"
  using assigns_snoc [of k "chomp l"] chomp_cases [of l] by metis

lemma trim_snoc:
  assumes "is_space c"
  shows "trim (s @ [c]) = trim s"
proof (cases "\<forall>x \<in> set s. is_space x")
  case True
  then have d: "dropWhile is_space (s @ [c]) = []" "dropWhile is_space s = []" using assms by (simp_all add: dropWhile_eq_Nil_conv)
  show ?thesis unfolding trim_def d ..
next
  case False
  then have "dropWhile is_space (s @ [c]) = dropWhile is_space s @ [c]" by (auto simp: dropWhile_append1)
  then show ?thesis using assms by (simp add: trim_def)
qed

lemma line_value_chomp:
  assumes "CHR ''='' \<in> set l"
  shows "line_value (chomp l) = line_value l"
proof (cases "chomp l = l")
  case False
  then have l: "l = chomp l @ [CHR 0x0D]" using chomp_cases by blast
  have "set l = set (chomp l) \<union> {CHR 0x0D}" by (subst l) simp
  then have "CHR ''='' \<in> set (chomp l)" using assms by simp
  then obtain a b where ab: "chomp l = a @ CHR ''='' # b" "CHR ''='' \<notin> set a" using split_list_first by metis
  have "dropWhile (\<lambda>c. c \<noteq> CHR ''='') (chomp l) = CHR ''='' # b" using ab by (simp add: dropWhile_append)
  moreover have "dropWhile (\<lambda>c. c \<noteq> CHR ''='') l = CHR ''='' # b @ [CHR 0x0D]"
    by (subst l, unfold ab(1)) (use ab(2) in \<open>simp add: dropWhile_append\<close>)
  ultimately show ?thesis by (simp add: line_value_def trim_snoc is_space_def)
qed simp

section \<open>The line of the environment\<close>

lemma assigns_environment: "assigns ''NODE_ENV'' l \<Longrightarrow> environment_line l"
proof -
  assume a: "assigns ''NODE_ENV'' l"
  then obtain r where s: "dropWhile is_space l = CHR ''N'' # r" unfolding assigns_def Let_def starts_with_def
    by (cases "dropWhile is_space l") auto
  moreover have "dropWhile is_space (dropWhile is_space l) = dropWhile is_space l" by simp
  ultimately show ?thesis using a by (simp add: environment_line_def assigns_def Let_def)
qed

text \<open>No other variable is assigned by a line of the environment.\<close>

lemma environment_assigns:
  assumes "list_all name_char k" and "k \<noteq> ''NODE_ENV''" and env: "environment_line l"
  shows "\<not> assigns k l"
proof
  assume k: "assigns k l"
  let ?s = "dropWhile is_space l"
  show False
  proof (cases ?s)
    case Nil
    show False using env unfolding environment_line_def Nil by (simp add: assigns_def starts_with_def)
  next
    case (Cons c cs)
    show False
    proof (cases "c = CHR ''#''")
      case True
      have "k = []"
      proof (rule ccontr)
        assume "k \<noteq> []"
        then have "hd k = c" using k Cons by (cases k) (auto simp: assigns_def starts_with_def)
        then have "name_char c" using assms(1) \<open>k \<noteq> []\<close> by (cases k) auto
        then show False using True by (simp add: name_char_def is_alnum_def is_letter_def is_digit_def less_eq_char_def)
      qed
      then show False using k Cons True by (simp add: assigns_def is_space_def)
    next
      case False
      have no: "\<not> is_space c" using Cons by (metis dropWhile_eq_Cons_conv)
      define t where "t = drop 8 ?s"
      have n: "starts_with ?s ''NODE_ENV''" and eq: "case dropWhile is_space t of c # _ \<Rightarrow> c = CHR ''='' | [] \<Rightarrow> False"
        using env Cons False no by (simp_all add: environment_line_def assigns_def Let_def t_def numeral_eq_Suc)
      have "take 8 ?s = ''NODE_ENV''" using n by (simp add: starts_with_def numeral_eq_Suc)
      then have s: "?s = ''NODE_ENV'' @ t" unfolding t_def by (metis append_take_drop_id)
      have pre: "take (length k) (''NODE_ENV'' @ t) = k" and keq: "case dropWhile is_space (drop (length k) (''NODE_ENV'' @ t)) of c # _ \<Rightarrow> c = CHR ''='' | [] \<Rightarrow> False"
        using k unfolding assigns_def Let_def s starts_with_def by blast+
      show False
      proof (cases "length k \<le> 8")
        case True
        then have "length k \<in> {0, 1, 2, 3, 4, 5, 6, 7, 8}" unfolding insert_iff empty_iff by presburger
        then show False using pre keq assms(2) eq by (elim insertE) (auto simp: numeral_eq_Suc is_space_def)
      next
        case long: False
        then obtain x r where t: "t = x # r" using eq by (cases t) auto
        have "k ! 8 = take (length k) (''NODE_ENV'' @ t) ! 8" unfolding pre ..
        also have "\<dots> = (''NODE_ENV'' @ t) ! 8" using long by (intro nth_take) simp
        also have "\<dots> = x" by (simp add: t)
        finally have "k ! 8 = x" .
        then have "name_char x" using assms(1) long by (auto simp: list_all_length)
        moreover from this have "x = CHR ''=''" using eq t name_not_space by simp
        ultimately show False by (simp add: name_char_def is_alnum_def is_letter_def is_digit_def less_eq_char_def)
      qed
    qed
  qed
qed

section \<open>The file that is written\<close>

lemma find_filter_hd: "List.find P xs = (case filter P xs of [] \<Rightarrow> None | x # _ \<Rightarrow> Some x)"
  by (induction xs) auto

lemma not_assigns_empty [simp]: "\<not> assigns k []"
  by (simp add: assigns_def)

lemma filter_drop_empty_end: "\<not> P [] \<Longrightarrow> filter P (drop_empty_end ls) = filter P ls"
  by (induction ls rule: rev_induct) auto

lemma kept_line: "l \<in> set ls \<Longrightarrow> l \<noteq> [] \<Longrightarrow> l \<in> set (drop_empty_end ls)"
  by (induction ls rule: rev_induct) (auto split: if_splits)

lemma replaced_lines:
  assumes "replace_lines new r ls = (ls', r')"
  shows "\<And>l. l \<in> set ls' \<Longrightarrow> l = new \<or> l = [] \<or> l \<in> set ls \<and> \<not> environment_line l"
    and "\<not> r \<Longrightarrow> r' \<Longrightarrow> new \<in> set ls'"
    and "\<not> assigns k new \<Longrightarrow> (\<And>l. environment_line l \<Longrightarrow> \<not> assigns k l) \<Longrightarrow> filter (assigns k) ls' = filter (assigns k) ls"
  using assms
  by (induction new r ls arbitrary: ls' r' rule: replace_lines.induct) (fastforce split: if_splits prod.splits simp: Let_def)+

lemma environment_lines_facts:
  shows "\<And>l. l \<in> set (environment_lines new ls) \<Longrightarrow> l = new \<or> l = [] \<or> l \<in> set ls \<and> \<not> environment_line l"
    and "new \<in> set (environment_lines new ls)"
    and "\<not> assigns k new \<Longrightarrow> (\<And>l. environment_line l \<Longrightarrow> \<not> assigns k l) \<Longrightarrow>
      filter (assigns k) (environment_lines new ls) = filter (assigns k) ls"
proof -
  obtain ls' r' where r: "replace_lines new False ls = (ls', r')" by fastforce
  note facts = replaced_lines [OF r]
  have sub: "set (drop_empty_end ls') \<subseteq> set ls'" unfolding drop_empty_end_def using set_dropWhileD by fastforce
  show "\<And>l. l \<in> set (environment_lines new ls) \<Longrightarrow> l = new \<or> l = [] \<or> l \<in> set ls \<and> \<not> environment_line l"
    using facts(1) sub by (auto simp: environment_lines_def r Let_def split: bool.splits if_splits)
  show "new \<in> set (environment_lines new ls)"
    using facts(2) by (auto simp: environment_lines_def r Let_def split: bool.splits)
  show "\<not> assigns k new \<Longrightarrow> (\<And>l. environment_line l \<Longrightarrow> \<not> assigns k l) \<Longrightarrow>
      filter (assigns k) (environment_lines new ls) = filter (assigns k) ls"
  proof -
    assume k: "\<not> assigns k new" and env: "\<And>l. environment_line l \<Longrightarrow> \<not> assigns k l"
    have same: "filter (assigns k) ls' = filter (assigns k) ls" by (rule facts(3) [OF k env])
    moreover have "filter (assigns k) (drop_empty_end ls') = filter (assigns k) ls" using same by (simp add: filter_drop_empty_end)
    ultimately show "filter (assigns k) (environment_lines new ls) = filter (assigns k) ls"
      using k by (auto simp: environment_lines_def r Let_def split: bool.splits)
  qed
qed

lemma assigns_equals: "assigns k l \<Longrightarrow> CHR ''='' \<in> set l"
proof -
  assume "assigns k l"
  then have head: "case dropWhile is_space (drop (length k) (dropWhile is_space l)) of c # _ \<Rightarrow> c = CHR ''='' | [] \<Rightarrow> False"
    unfolding assigns_def Let_def by (rule conjunct2)
  have "case xs of c # _ \<Rightarrow> c = CHR ''='' | [] \<Rightarrow> False \<Longrightarrow> CHR ''='' \<in> set xs" for xs by (cases xs) auto
  from this [OF head] have "CHR ''='' \<in> set (dropWhile is_space (drop (length k) (dropWhile is_space l)))" .
  then have "CHR ''='' \<in> set (drop (length k) (dropWhile is_space l))" by (rule set_dropWhileD)
  then have "CHR ''='' \<in> set (dropWhile is_space l)" by (rule in_set_dropD)
  then show "CHR ''='' \<in> set l" by (rule set_dropWhileD)
qed

lemma first_line: "\<forall>l \<in> set ls. l = n \<Longrightarrow> n \<in> set ls \<Longrightarrow> (case ls of [] \<Rightarrow> [] | l # _ \<Rightarrow> f l) = f n"
  by (cases ls) auto

lemma read_value: "read_env_file_value cfg k = (case cf_file cfg of None \<Rightarrow> [] | Some t \<Rightarrow>
    (case filter (assigns k) (file_lines t) of [] \<Rightarrow> [] | l # _ \<Rightarrow> line_value l))"
  by (simp add: read_env_file_value_def find_filter_hd line_value_def split: option.splits list.splits)

lemma read_environment_text:
  fixes old :: string
  assumes k: "list_all name_char k" and new: "CHR 0x0A \<notin> set new" "new \<noteq> []"
  defines "ls \<equiv> environment_lines new (file_lines old)"
  shows "(case filter (assigns k) (file_lines (rev (dropWhile (\<lambda>c. c = CHR 0x0A) (rev (join [CHR 0x0A] ls))) @ [CHR 0x0A])) of
      [] \<Rightarrow> [] | l # _ \<Rightarrow> line_value l) = (case filter (assigns k) ls of [] \<Rightarrow> [] | l # _ \<Rightarrow> line_value l)"
proof -
  have clean: "\<forall>l \<in> set ls. CHR 0x0A \<notin> set l"
    using environment_lines_facts(1) [of _ new "file_lines old"] new(1) file_lines_no_newline unfolding ls_def by fastforce
  have "new \<in> set (drop_empty_end ls)" unfolding ls_def by (rule kept_line [OF environment_lines_facts(2) new(2)])
  then have "drop_empty_end ls \<noteq> []" by auto
  note lines = written_lines [OF clean this]
  have chomped: "filter (assigns k) (map chomp xs) = map chomp (filter (assigns k) xs)" for xs
    using assigns_chomp [OF k] by (induction xs) auto
  have "filter (assigns k) (map chomp (drop_empty_end ls) @ [[]]) = map chomp (filter (assigns k) ls)"
    using filter_drop_empty_end [of "assigns k" ls] by (simp add: chomped)
  moreover have "line_value (chomp l) = line_value l" if "filter (assigns k) ls = l # rest" for l rest
  proof -
    have "l \<in> set (filter (assigns k) ls)" unfolding that by simp
    then have "assigns k l" by simp
    then show ?thesis by (intro line_value_chomp assigns_equals)
  qed
  ultimately show ?thesis unfolding lines by (cases "filter (assigns k) ls") simp_all
qed

lemma environment_value:
  assumes "e = ''development'' \<or> e = ''production''"
  shows "line_value (''NODE_ENV='' @ e) = e" and "assigns ''NODE_ENV'' (''NODE_ENV='' @ e)" and "CHR 0x0A \<notin> set (''NODE_ENV='' @ e)"
    and "environment_line (''NODE_ENV='' @ e)"
proof -
  have "line_value ''NODE_ENV=development'' = ''development''" "line_value ''NODE_ENV=production'' = ''production''"
    "assigns ''NODE_ENV'' ''NODE_ENV=development''" "assigns ''NODE_ENV'' ''NODE_ENV=production''" by code_simp+
  then show "line_value (''NODE_ENV='' @ e) = e" and a: "assigns ''NODE_ENV'' (''NODE_ENV='' @ e)" using assms by auto
  show "CHR 0x0A \<notin> set (''NODE_ENV='' @ e)" using assms by auto
  show "environment_line (''NODE_ENV='' @ e)" using assigns_environment [OF a] .
qed

text \<open>When an environment was saved, the file .env gives it back, whatever the file held before;
  every other variable keeps its value.\<close>

theorem saved_environment_is_read:
  assumes "save_environment True v cfg = Inr cfg'"
  shows "read_env_file_value cfg' ''NODE_ENV'' = to_lower (trim v)
    \<and> (\<forall>k. list_all name_char k \<and> k \<noteq> ''NODE_ENV'' \<longrightarrow> read_env_file_value cfg' k = read_env_file_value cfg k)"
proof -
  define e where "e = to_lower (trim v)"
  define old where "old = (case cf_file cfg of None \<Rightarrow> [] | Some t \<Rightarrow> t)"
  let ?new = "''NODE_ENV='' @ e" and ?ls = "environment_lines (''NODE_ENV='' @ e) (file_lines old)"
  have e: "e = ''development'' \<or> e = ''production''" and stored: "cf_file cfg' = Some (environment_text e old)"
    using assms by (auto simp: save_environment_def Let_def e_def old_def split: if_splits)
  have val: "read_env_file_value cfg' k = (case filter (assigns k) ?ls of [] \<Rightarrow> [] | l # _ \<Rightarrow> line_value l)" if "list_all name_char k" for k
    unfolding read_value stored environment_text_def Let_def option.case
    by (rule read_environment_text [OF that environment_value(3) [OF e]]) simp
  have name: "list_all name_char ''NODE_ENV''" by code_simp
  have only: "\<forall>l \<in> set (filter (assigns ''NODE_ENV'') ?ls). l = ?new"
  proof
    fix l assume "l \<in> set (filter (assigns ''NODE_ENV'') ?ls)"
    then have l: "l \<in> set ?ls" "assigns ''NODE_ENV'' l" by simp_all
    then have "l \<noteq> []" "environment_line l" using assigns_environment by auto
    then show "l = ?new" using environment_lines_facts(1) [OF l(1)] by blast
  qed
  have some: "?new \<in> set (filter (assigns ''NODE_ENV'') ?ls)"
    unfolding set_filter by (intro CollectI conjI environment_lines_facts(2) environment_value(2) [OF e])
  have "read_env_file_value cfg' ''NODE_ENV'' = line_value ?new"
    unfolding val [OF name] by (rule first_line [OF only some])
  then have "read_env_file_value cfg' ''NODE_ENV'' = e" unfolding environment_value(1) [OF e] .
  moreover have "read_env_file_value cfg' k = read_env_file_value cfg k" if k: "list_all name_char k" "k \<noteq> ''NODE_ENV''" for k
  proof -
    have other: "\<And>l. environment_line l \<Longrightarrow> \<not> assigns k l" using environment_assigns k by blast
    have "filter (assigns k) ?ls = filter (assigns k) (file_lines old)"
      by (rule environment_lines_facts(3) [OF other [OF environment_value(4) [OF e]] other])
    then show ?thesis unfolding val [OF k(1)] by (simp add: read_value old_def file_lines_def split: option.splits)
  qed
  ultimately show ?thesis unfolding e_def by blast
qed

chapter \<open>Usage\<close>

text \<open>
  The usage of the API that the service counts per client: at most 2000 clients are kept, and as long
  as no more than these call within a minute every count is exact.
\<close>

section \<open>Pruning\<close>

definition usage_ok :: "time \<Rightarrow> usage_map \<Rightarrow> bool" where
  "usage_ok t m = (distinct (map fst m) \<and> (\<forall>x \<in> set m. us_window (snd x) = window_of t \<and> window_of t \<le> us_seen (snd x) \<and> us_seen (snd x) \<le> t))"

lemma window_bounds: "window_of t \<le> t" "t < window_of t + 60000"
proof -
  have "t div 60000 * 60000 + t mod 60000 = t" "0 \<le> t mod 60000" "t mod 60000 < 60000" by simp_all
  then show "window_of t \<le> t" "t < window_of t + 60000" unfolding window_of_def by linarith+
qed

lemma window_mono: "t \<le> u \<Longrightarrow> window_of t \<le> window_of u"
  by (simp add: window_of_def zdiv_mono1)

definition live_usage :: "time \<Rightarrow> time \<Rightarrow> usage_map \<Rightarrow> usage_map" where
  "live_usage now window m = filter (\<lambda>x. us_window (snd x) = window \<and> \<not> now - us_seen (snd x) > 120000) m"

lemma prune_length:
  assumes "distinct (map fst m)"
  shows "length (prune_api_usage now window m) \<le> 2000"
proof -
  have "distinct (map fst (live_usage now window m))" using assms by (simp add: live_usage_def distinct_map_filter)
  from length_drop_surplus [OF this, of 2000 "\<lambda>x. us_seen (snd x)"]
  show ?thesis by (simp add: prune_api_usage_def live_usage_def Let_def)
qed

lemma prune_subset: "set (prune_api_usage now window m) \<subseteq> set (live_usage now window m)"
  by (auto simp: prune_api_usage_def live_usage_def Let_def)

lemma prune_distinct: "distinct (map fst m) \<Longrightarrow> distinct (map fst (prune_api_usage now window m))"
  by (simp add: prune_api_usage_def Let_def distinct_map_filter)

lemma prune_few: "length (live_usage now window m) \<le> 2000 \<Longrightarrow> prune_api_usage now window m = live_usage now window m"
  by (simp add: prune_api_usage_def live_usage_def Let_def)

section \<open>One request\<close>

lemma keys_put: "map fst (put_usage ip u m) = (if ip \<in> fst ` set m then map fst m else map fst m @ [ip])"
  by (induction m) auto

lemma map_of_put: "map_of (put_usage ip u m) = (map_of m)(ip \<mapsto> u)"
  by (induction m) (auto simp: fun_eq_iff)

lemma set_put: "set (put_usage ip u m) \<subseteq> insert (ip, u) (set m)"
  by (induction m) auto

lemma put_distinct: "distinct (map fst m) \<Longrightarrow> distinct (map fst (put_usage ip u m))"
  by (simp add: keys_put)

definition next_entry :: "time \<Rightarrow> string \<Rightarrow> usage_map \<Rightarrow> usage" where
  "next_entry now ip m =
     \<lparr>us_window = window_of now,
      us_count = Suc (case map_of m ip of Some u \<Rightarrow> if us_window u = window_of now then us_count u else 0 | None \<Rightarrow> 0),
      us_seen = now\<rparr>"

lemma usage_update: "us_window u = w \<Longrightarrow> u\<lparr>us_count := c, us_seen := s\<rparr> = \<lparr>us_window = w, us_count = c, us_seen = s\<rparr>"
  by (cases u) simp

lemma record_eq: "record_api_request now ip m = prune_api_usage now (window_of now) (put_usage ip (next_entry now ip m) m)"
  by (auto simp: record_api_request_def next_entry_def Let_def usage_update split: option.splits)

lemma record_ok:
  assumes "distinct (map fst m)" and "\<forall>x \<in> set m. us_seen (snd x) \<le> now \<and> us_window (snd x) \<le> us_seen (snd x)"
  shows "usage_ok now (record_api_request now ip m) \<and> length (record_api_request now ip m) \<le> 2000"
proof -
  have "x \<in> set (record_api_request now ip m) \<Longrightarrow> us_window (snd x) = window_of now \<and> window_of now \<le> us_seen (snd x) \<and> us_seen (snd x) \<le> now" for x
  proof -
    assume "x \<in> set (record_api_request now ip m)"
    then have "x \<in> set (live_usage now (window_of now) (put_usage ip (next_entry now ip m) m))"
      using prune_subset unfolding record_eq by blast
    then have "us_window (snd x) = window_of now" "x = (ip, next_entry now ip m) \<or> x \<in> set m"
      using set_put by (auto simp: live_usage_def)
    then show ?thesis using assms(2) window_bounds(1) [of now] by (auto simp: next_entry_def)
  qed
  then show ?thesis using prune_distinct [OF put_distinct [OF assms(1)]] prune_length [OF put_distinct [OF assms(1)]]
    unfolding usage_ok_def record_eq by blast
qed

definition count_in :: "usage_map \<Rightarrow> string \<Rightarrow> nat" where
  "count_in m ip = (case map_of m ip of None \<Rightarrow> 0 | Some u \<Rightarrow> us_count u)"

section \<open>All requests\<close>

definition usage_after :: "(time \<times> string) list \<Rightarrow> usage_map" where
  "usage_after rs = fold (\<lambda>(t, ip). record_api_request t ip) rs []"

definition clients_in :: "time \<Rightarrow> (time \<times> string) list \<Rightarrow> string set" where
  "clients_in t rs = snd ` set (filter (\<lambda>r. window_of (fst r) = window_of t) rs)"

definition requests_in :: "time \<Rightarrow> string \<Rightarrow> (time \<times> string) list \<Rightarrow> nat" where
  "requests_in t ip rs = length (filter (\<lambda>r. window_of (fst r) = window_of t \<and> snd r = ip) rs)"

lemma usage_after_snoc: "usage_after (rs @ [(t, ip)]) = record_api_request t ip (usage_after rs)"
  by (simp add: usage_after_def)

lemma usage_after_ok:
  assumes "sorted (map fst rs)" and "rs \<noteq> []"
  shows "usage_ok (fst (last rs)) (usage_after rs) \<and> length (usage_after rs) \<le> 2000"
  using assms
proof (induction rs rule: rev_induct)
  case (snoc r rs)
  obtain t ip where r: "r = (t, ip)" by (cases r)
  have ok: "distinct (map fst (usage_after rs)) \<and> (\<forall>x \<in> set (usage_after rs). us_seen (snd x) \<le> t \<and> us_window (snd x) \<le> us_seen (snd x))"
  proof (cases "rs = []")
    case False
    then have "fst (last rs) \<le> t" using snoc.prems by (auto simp: sorted_append r)
    moreover have "usage_ok (fst (last rs)) (usage_after rs)" using snoc False by (simp add: sorted_append)
    ultimately show ?thesis by (fastforce simp: usage_ok_def)
  qed (simp add: usage_after_def)
  then show ?case using record_ok [of "usage_after rs" t ip] by (simp add: r usage_after_snoc)
qed simp

lemma requests_snoc:
  "requests_in t i (rs @ [(t, ip)]) = (if i = ip then Suc (requests_in t i rs) else requests_in t i rs)"
  by (simp add: requests_in_def)

lemma clients_mono: "clients_in t rs \<subseteq> clients_in t (rs @ [r])"
  by (auto simp: clients_in_def)

text \<open>A request in the window of the ones before it: nothing is pruned.\<close>

lemma record_same_window:
  assumes ok: "usage_ok u m" and "u \<le> t" and w: "window_of u = window_of t" and few: "card (insert ip (fst ` set m)) \<le> 2000"
  shows "record_api_request t ip m = put_usage ip (next_entry t ip m) m"
proof -
  let ?m = "put_usage ip (next_entry t ip m) m"
  have live: "us_window (snd x) = window_of t \<and> \<not> t - us_seen (snd x) > 120000" if "x \<in> set ?m" for x
  proof -
    from that set_put consider "x = (ip, next_entry t ip m)" | "x \<in> set m" by blast
    then show ?thesis
    proof cases
      case 1
      then show ?thesis by (simp add: next_entry_def)
    next
      case 2
      then have "us_window (snd x) = window_of t" "window_of t \<le> us_seen (snd x)" using ok w by (auto simp: usage_ok_def)
      then show ?thesis using window_bounds(2) [of t] by simp
    qed
  qed
  then have same: "live_usage t (window_of t) ?m = ?m" unfolding live_usage_def by (intro filter_True) blast
  have "distinct (map fst ?m)" using ok by (intro put_distinct) (simp add: usage_ok_def)
  then have "length ?m = card (set (map fst ?m))" by (metis distinct_card length_map)
  also have "set (map fst ?m) = insert ip (fst ` set m)" by (simp only: keys_put) auto
  finally show ?thesis unfolding record_eq using prune_few [of t "window_of t" ?m] same few by simp
qed

text \<open>A request in a later window: it is the only one left.\<close>

lemma record_new_window:
  assumes ok: "usage_ok u m" and w: "window_of u \<noteq> window_of t"
  shows "record_api_request t ip m = [(ip, \<lparr>us_window = window_of t, us_count = 1, us_seen = t\<rparr>)]"
proof -
  let ?e = "\<lparr>us_window = window_of t, us_count = 1, us_seen = t\<rparr>"
  have old: "us_window (snd x) \<noteq> window_of t" if "x \<in> set m" for x using ok w that by (auto simp: usage_ok_def)
  have e: "next_entry t ip m = ?e"
    using old by (auto simp: next_entry_def split: option.splits dest!: map_of_SomeD)
  have filter: "filter (\<lambda>x. us_window (snd x) = window_of t \<and> \<not> t - us_seen (snd x) > 120000) (put_usage ip ?e m) = [(ip, ?e)]"
    using old ok unfolding usage_ok_def by (induction m) (auto simp: filter_empty_conv)
  show ?thesis unfolding record_eq e prune_api_usage_def filter Let_def by simp
qed

lemma earlier_window:
  assumes "sorted (map fst (rs @ [(t, ip)]))" and "\<not> (rs \<noteq> [] \<and> window_of (fst (last rs)) = window_of t)" and "x \<in> set rs"
  shows "window_of (fst x) \<noteq> window_of t"
proof -
  have "rs \<noteq> []" using assms(3) by auto
  then have "window_of (fst (last rs)) \<noteq> window_of t" "fst (last rs) \<le> t" using assms(1,2) by (auto simp: sorted_append)
  then have "window_of (fst (last rs)) < window_of t" using window_mono by fastforce
  moreover have "rs = butlast rs @ [last rs]" using \<open>rs \<noteq> []\<close> by simp
  then have "sorted (map fst (butlast rs @ [last rs]))" "x \<in> set (butlast rs @ [last rs])"
    using assms(1,3) by (simp_all add: sorted_append)
  then have "fst x \<le> fst (last rs)" by (auto simp: sorted_append)
  then have "window_of (fst x) \<le> window_of (fst (last rs))" by (rule window_mono)
  ultimately show ?thesis by simp
qed

lemma usage_new_window:
  assumes "sorted (map fst (rs @ [(t, ip)]))" and new: "\<not> (rs \<noteq> [] \<and> window_of (fst (last rs)) = window_of t)"
  shows "fst ` set (usage_after (rs @ [(t, ip)])) = clients_in t (rs @ [(t, ip)])
    \<and> (\<forall>i. count_in (usage_after (rs @ [(t, ip)])) i = requests_in t i (rs @ [(t, ip)]))"
proof -
  have rec: "usage_after (rs @ [(t, ip)]) = [(ip, \<lparr>us_window = window_of t, us_count = 1, us_seen = t\<rparr>)]"
  proof (cases "rs = []")
    case True
    then show ?thesis by (simp add: usage_after_def record_eq next_entry_def prune_api_usage_def)
  next
    case nonempty: False
    then have "usage_ok (fst (last rs)) (usage_after rs)" using usage_after_ok assms(1) by (simp add: sorted_append)
    then show ?thesis unfolding usage_after_snoc using new nonempty by (intro record_new_window) auto
  qed
  have "filter (\<lambda>x. window_of (fst x) = window_of t) rs = []" using earlier_window [OF assms] by (simp add: filter_empty_conv)
  then have "clients_in t rs = {}" "\<And>i. requests_in t i rs = 0"
    by (simp_all add: clients_in_def requests_in_def filter_empty_conv)
  then show ?thesis by (simp add: rec count_in_def requests_snoc) (auto simp: clients_in_def)
qed

lemma usage_same_window:
  assumes sorted: "sorted (map fst (rs @ [(t, ip)]))" and "rs \<noteq> []" and w: "window_of (fst (last rs)) = window_of t"
    and few: "card (clients_in t (rs @ [(t, ip)])) \<le> 2000"
    and IH: "fst ` set (usage_after rs) = clients_in t rs" "\<And>i. count_in (usage_after rs) i = requests_in t i rs"
  shows "fst ` set (usage_after (rs @ [(t, ip)])) = clients_in t (rs @ [(t, ip)])
    \<and> (\<forall>i. count_in (usage_after (rs @ [(t, ip)])) i = requests_in t i (rs @ [(t, ip)]))"
proof -
  let ?u = "fst (last rs)" and ?m = "usage_after rs"
  have le: "?u \<le> t" using sorted \<open>rs \<noteq> []\<close> by (auto simp: sorted_append)
  have ok: "usage_ok ?u ?m" using usage_after_ok sorted \<open>rs \<noteq> []\<close> by (simp add: sorted_append)
  have grow: "clients_in t (rs @ [(t, ip)]) = insert ip (clients_in t rs)" by (auto simp: clients_in_def)
  have rec: "usage_after (rs @ [(t, ip)]) = put_usage ip (next_entry t ip ?m) ?m"
    unfolding usage_after_snoc by (rule record_same_window [OF ok le w]) (use few IH(1) grow in simp)
  have "us_count (next_entry t ip ?m) = Suc (count_in ?m ip)"
  proof (cases "map_of ?m ip")
    case (Some x)
    then have "us_window x = window_of t" using ok w map_of_SomeD [OF Some] by (auto simp: usage_ok_def)
    then show ?thesis using Some by (simp add: next_entry_def count_in_def)
  qed (simp add: next_entry_def count_in_def)
  then have "count_in (usage_after (rs @ [(t, ip)])) i = requests_in t i (rs @ [(t, ip)])" for i
    using IH(2) [of i] IH(2) [of ip] by (cases "i = ip") (simp_all add: rec count_in_def map_of_put requests_snoc)
  moreover have "set (map fst (usage_after (rs @ [(t, ip)]))) = clients_in t (rs @ [(t, ip)])"
    unfolding rec keys_put using IH(1) grow by auto
  ultimately show ?thesis by simp
qed

lemma usage_counts:
  assumes "sorted (map fst rs)" and "rs \<noteq> []" and "card (clients_in (fst (last rs)) rs) \<le> 2000"
  shows "fst ` set (usage_after rs) = clients_in (fst (last rs)) rs
    \<and> (\<forall>ip. count_in (usage_after rs) ip = requests_in (fst (last rs)) ip rs)"
  using assms
proof (induction rs rule: rev_induct)
  case (snoc r rs)
  obtain t ip where r: "r = (t, ip)" by (cases r)
  have few: "card (clients_in t (rs @ [(t, ip)])) \<le> 2000" using snoc.prems(3) by (simp add: r)
  have sorted: "sorted (map fst (rs @ [(t, ip)]))" using snoc.prems(1) by (simp add: r)
  show ?case
  proof (cases "rs \<noteq> [] \<and> window_of (fst (last rs)) = window_of t")
    case True
    have clients: "clients_in (fst (last rs)) rs = clients_in t rs" and requests: "\<And>i. requests_in (fst (last rs)) i rs = requests_in t i rs"
      using True by (simp_all add: clients_in_def requests_in_def)
    have "finite (clients_in t (rs @ [(t, ip)]))" by (simp add: clients_in_def)
    then have "card (clients_in (fst (last rs)) rs) \<le> 2000" using card_mono [OF _ clients_mono] few clients by (metis le_trans)
    then have "fst ` set (usage_after rs) = clients_in t rs" "\<And>i. count_in (usage_after rs) i = requests_in t i rs"
      using snoc.IH snoc.prems(1) True clients requests by (auto simp: sorted_append)
    then show ?thesis using usage_same_window [OF sorted _ _ few] True by (simp add: r)
  next
    case False
    then show ?thesis using usage_new_window [OF sorted] by (simp add: r)
  qed
qed simp

text \<open>After any requests in the order of their times, at most 2000 clients are kept. When no more than
  2000 clients called within the minute of the last request, the clients kept are exactly these, and each
  count is the number of the client's requests in this minute.\<close>

theorem api_usage_is_exact:
  assumes "sorted (map fst rs)" and "rs \<noteq> []"
  shows "length (usage_after rs) \<le> 2000
    \<and> (card (clients_in (fst (last rs)) rs) \<le> 2000 \<longrightarrow> fst ` set (usage_after rs) = clients_in (fst (last rs)) rs
        \<and> (\<forall>ip. count_in (usage_after rs) ip = requests_in (fst (last rs)) ip rs))"
  using usage_after_ok [OF assms] usage_counts [OF assms] by blast

end
