(* ===== verification/System_Witnesses.thy ===== *)
theory System_Witnesses
  imports Sample Outbox_Props System_Props Environment_Props "HOL-Library.Countable"
begin

text \<open>
  The properties of the system service and of the outbox at concrete inputs.
\<close>

section \<open>The outbox\<close>

definition broken_event :: event_row where
  "broken_event = \<lparr>v_id = ''ev'', v_execution = None, v_pair = None, v_kind = ''protection_incident_opened'', v_actor = None,
     v_payload = Corrupt, v_created = 5\<rparr>"

definition outbox_start :: outbox_service where
  "outbox_start = \<lparr>ob_db = empty_db\<lparr>events := [broken_event]\<rparr>, ob_stopped = False, ob_worker = None\<rparr>"

definition outbox_polled :: outbox_service where
  "outbox_polled = deliver_due (\<lambda>_. None) 9 outbox_start"

lemma outbox_polled_reachable: "outbox_reachable (\<lambda>_. None) outbox_polled"
proof -
  have "outbox_reachable (\<lambda>_. None) outbox_start" unfolding outbox_start_def by (rule outbox_reachable.start) simp
  then show ?thesis unfolding outbox_polled_def by (rule outbox_reachable.step) (rule outbox_step.poll)
qed

lemma outbox_polled_rows: "map (\<lambda>r. (n_id r, n_status r)) (outbox (ob_db outbox_polled)) = [(''invalid:ev'', NExhausted)]"
  by code_simp


theorem settled_notifications_stay_witness:
  "\<exists>r. r \<in> set (outbox (ob_db (stop_outbox outbox_polled))) \<and> n_status r = NExhausted"
proof -
  obtain r where r: "r \<in> set (outbox (ob_db outbox_polled))" "n_status r = NExhausted"
    using outbox_polled_rows by (cases "outbox (ob_db outbox_polled)") auto
  then have "r \<in> set (outbox (ob_db (stop_outbox outbox_polled)))"
    by (intro settled_notifications_stay [OF outbox_polled_reachable outbox_step.stopping]) simp_all
  then show ?thesis using r(2) by blast
qed

theorem events_are_materialized_once_witness:
  "event_cursor (materialize 9 (ob_db outbox_start)) = Fin 1"
  using events_are_materialized_once [of "ob_db outbox_start" 0 9] by (simp add: outbox_start_def event_cursor_def)

section \<open>Settings\<close>

text \<open>JSON values are countable: a number is an encryption that can be opened.\<close>

instance json :: countable
  by countable_datatype

definition number_enc :: "json \<Rightarrow> string" where
  "number_enc j = show_nat (to_nat j)"

definition number_dec :: "string \<Rightarrow> json option" where
  "number_dec s = Some (from_nat (read_nat s))"

definition webhook_input :: json where
  "webhook_input = JObj [(''enabled'', JBool True), (''provider'', JStr ''generic''), (''webhookUrl'', JStr ''https://hook'')]"

lemma number_sealed: "opens_sealed number_dec number_enc"
  by (simp add: opens_sealed_def number_dec_def number_enc_def)

theorem saved_notification_settings_take_effect_witness:
  "\<exists>view d'. save_notification_settings number_dec number_enc webhook_input empty_db = Inr (view, d')
     \<and> notification_enabled number_dec d' ''backup_failed''"
proof -
  obtain view d' where s: "save_notification_settings number_dec number_enc webhook_input empty_db = Inr (view, d')"
    by (auto simp: save_notification_settings_def webhook_input_def jget_def truth_of_def text_of_def chosen_provider_def starts_with_def Let_def)
  have e: "''backup_failed'' \<in> fst ` set notification_events" by (simp add: notification_events_def)
  have "notification_enabled number_dec d' ''backup_failed''"
    using saved_notification_settings_take_effect [OF number_sealed s e, of "''m''"]
    by (simp add: event_enabled_def webhook_input_def jget_def truth_of_def config_events_def read_setting_def)
  with s show ?thesis by blast
qed

section \<open>Updates\<close>

definition release_manifest :: json where
  "release_manifest = JObj [(''version'', JStr ''2.0.0''), (''artifacts'', JObj [(''linux-x64'', JObj [(''url'', JStr ''https://r/a.tgz''),
     (''sha256'', JStr (replicate 64 (CHR ''a'')))])])]"

definition no_env :: config where
  "no_env = \<lparr>cf_file = None, cf_env = Map.empty\<rparr>"

definition checked_once :: update_status where
  "checked_once = snd (check_for_update (\<lambda>_. ''now'') 5 no_env ''linux-x64'' ''1.4.0''
     (UpdateAnswer ''https://r/latest.json'' 200 (Some release_manifest)) Map.empty)"

definition started_once :: "(update_start \<times> update_status) result" where
  "started_once = start_update (\<lambda>_. ''now'') 6 no_env ''/app'' ''/data'' ''node'' None ''1.4.0'' checked_once"

lemma manifest_accepted:
  "manifest_of no_env (UpdateAnswer ''https://r/latest.json'' 200 (Some release_manifest)) = Inr release_manifest"
  by (simp add: manifest_of_def update_manifest_url_def env_or_def env_value_def no_env_def) code_simp

lemma artifact_accepted: "case release_artifact ''linux-x64'' release_manifest of None \<Rightarrow> False | Some a \<Rightarrow> truthy a"
  by code_simp

lemma newer_version: "compare_versions ''2.0.0'' ''1.4.0'' = 1" "text_of (jget release_manifest ''version'') = ''2.0.0''"
  by code_simp+

lemma checked_once_fields:
  "checked_once ''latestVersion'' = Some (JStr ''2.0.0'')" "\<exists>a. checked_once ''artifact'' = Some a \<and> truthy a"
  using artifact_accepted
  by (auto simp: checked_once_def check_for_update_def manifest_accepted checked_status_def Let_def write_update_status_def
      map_add_def newer_version split: option.splits)

lemma started_once_target: "\<exists>u s'. started_once = Inr (u, s')"
  using checked_once_fields newer_version(1)
  by (auto simp: started_once_def start_update_def Let_def status_text_def text_of_def)

theorem updates_are_newer_and_pinned_witness:
  "\<exists>u s'. started_once = Inr (u, s') \<and> compare_versions (uo_target u) ''1.4.0'' > 0"
proof -
  obtain u s' where s: "started_once = Inr (u, s')" using started_once_target by blast
  have "status_reachable checked_once" unfolding checked_once_def by (rule status_reachable.checked [OF status_reachable.none])
  from updates_are_newer_and_pinned [OF this s [unfolded started_once_def]] show ?thesis using s by blast
qed

section \<open>The environment and the usage\<close>

definition env_before :: config where
  "env_before = no_env\<lparr>cf_file := Some (''A=1'' @ [CHR 0x0A] @ ''#NODE_ENV=x'' @ [CHR 0x0A] @ ''APP_DOMAIN=a.b'' @ [CHR 0x0A])\<rparr>"

lemma env_saved: "is_ok (save_environment True ''Production'' env_before)"
  by code_simp

theorem saved_environment_is_read_witness:
  "\<exists>cfg'. save_environment True ''Production'' env_before = Inr cfg' \<and> read_env_file_value cfg' ''NODE_ENV'' = ''production''"
proof -
  obtain cfg' where s: "save_environment True ''Production'' env_before = Inr cfg'"
    using env_saved by (cases "save_environment True ''Production'' env_before") (auto simp: is_ok_def)
  moreover have "to_lower (trim ''Production'') = ''production''" by code_simp
  ultimately show ?thesis using saved_environment_is_read [OF s] by auto
qed

theorem api_usage_is_exact_witness:
  "count_in (usage_after [(0, ''a''), (61000, ''b''), (70000, ''a''), (80000, ''a'')]) ''a'' = 2"
proof -
  let ?rs = "[(0, ''a''), (61000, ''b''), (70000, ''a''), (80000, ''a'')] :: (time \<times> string) list"
  have w: "window_of 0 = 0" "window_of 61000 = 60000" "window_of 70000 = 60000" "window_of 80000 = 60000" by (simp_all add: window_of_def)
  then have "card (clients_in 80000 ?rs) \<le> 2000" by (simp add: clients_in_def card_insert_if)
  then have "count_in (usage_after ?rs) ''a'' = requests_in 80000 ''a'' ?rs"
    using api_usage_is_exact [of ?rs] by simp
  then show ?thesis by (simp add: requests_in_def w)
qed

end
