(* ===== verification/System_Export.thy ===== *)
theory System_Export
  imports Js_Text
begin

text \<open>
  The encrypted package of a full export and its import (\<open>fullExport\<close> and \<open>importFull\<close> of
  \<open>src/system/system.service.ts\<close>). scrypt, AES-256-GCM, base64url and the JSON text of the payload are
  parameters; a buffer is the text of its bytes.
\<close>

section \<open>The package\<close>

record payload =
  xl_format :: string
  xl_database :: string
  xl_key :: string

record envelope =
  xp_format :: string
  xp_version :: int
  xp_kdf :: string
  xp_salt :: string
  xp_iv :: string
  xp_tag :: string
  xp_ciphertext :: string

record package_crypto =
  pk_key :: "string \<Rightarrow> string \<Rightarrow> string"
  pk_seal :: "string \<Rightarrow> string \<Rightarrow> string \<Rightarrow> string \<Rightarrow> string \<times> string"
  pk_open :: "string \<Rightarrow> string \<Rightarrow> string \<Rightarrow> string \<Rightarrow> string \<Rightarrow> string option"
  pk_encode :: "string \<Rightarrow> string"
  pk_decode :: "string \<Rightarrow> string"
  pk_json :: "payload \<Rightarrow> string"
  pk_parse :: "string \<Rightarrow> payload option"

definition package_aad :: string where
  "package_aad = ''vaultback-full-export-v1''"

definition require_export_password :: "string \<Rightarrow> unit result" where
  "require_export_password p =
     (if length p < 12 then Inl (BadRequest ''Use an export password of at least 12 characters'') else Inr ())"

definition full_export :: "package_crypto \<Rightarrow> string \<Rightarrow> string \<Rightarrow> string \<Rightarrow> string \<Rightarrow> string \<Rightarrow> envelope result" where
  "full_export c salt iv database encryption_key password =
     (case require_export_password password of
        Inl e \<Rightarrow> Inl e
      | Inr _ \<Rightarrow>
          (let text = pk_json c \<lparr>xl_format = ''vaultback-full-export'', xl_database = pk_encode c database, xl_key = encryption_key\<rparr>;
               (tag, body) = pk_seal c (pk_key c password salt) iv package_aad text
           in Inr \<lparr>xp_format = ''vaultback-encrypted-export'', xp_version = 2, xp_kdf = ''scrypt'', xp_salt = pk_encode c salt,
                   xp_iv = pk_encode c iv, xp_tag = pk_encode c tag, xp_ciphertext = pk_encode c body\<rparr>))"

text \<open>\<open>/^[a-zA-Z0-9_-]{32,256}$/\<close>.\<close>

definition key_text_ok :: "string \<Rightarrow> bool" where
  "key_text_ok k = (32 \<le> length k \<and> length k \<le> 256 \<and> list_all (\<lambda>c. is_alnum c \<or> c = CHR ''_'' \<or> c = CHR ''-'') k)"

definition database_ok :: "string \<Rightarrow> bool" where
  "database_ok db = (take 16 db = ''SQLite format 3'' @ [CHR 0x00] \<and> length db \<ge> 100)"

definition package_limit :: nat where
  "package_limit = 50 * 1024 * 1024"

definition could_not_decrypt :: http_error where
  "could_not_decrypt = BadRequest ''Could not decrypt the export package. Check the export password.''"

text \<open>The database and the key that are staged for the next start.\<close>

definition import_full :: "package_crypto \<Rightarrow> envelope \<Rightarrow> string \<Rightarrow> (string \<times> string) result" where
  "import_full c e password =
     (case require_export_password password of
        Inl err \<Rightarrow> Inl err
      | Inr _ \<Rightarrow>
          if xp_format e \<noteq> ''vaultback-encrypted-export'' \<or> xp_version e \<notin> {1, 2}
          then Inl (BadRequest ''Unsupported VaultBack export package'')
          else let salt = pk_decode c (xp_salt e); iv = pk_decode c (xp_iv e); tag = pk_decode c (xp_tag e);
                   body = pk_decode c (xp_ciphertext e)
               in if length salt \<noteq> 16 \<or> length iv \<noteq> 12 \<or> length tag \<noteq> 16 \<or> body = [] \<or> length body > package_limit
                  then Inl could_not_decrypt
                  else (case Option.bind (pk_open c (pk_key c password salt) iv package_aad tag body) (pk_parse c) of
                          None \<Rightarrow> Inl could_not_decrypt
                        | Some p \<Rightarrow>
                            (let database = pk_decode c (xl_database p); key = trim (xl_key p)
                             in if \<not> database_ok database \<or> \<not> key_text_ok key then Inl could_not_decrypt
                                else Inr (database, key))))"

section \<open>The round trip\<close>

text \<open>What is relied on: base64url and JSON are read back, and GCM opens what it sealed with the same
  key, nonce and associated data, with a tag of 16 bytes and a body as long as the text.\<close>

definition documented_package :: "package_crypto \<Rightarrow> bool" where
  "documented_package c =
     ((\<forall>x. pk_decode c (pk_encode c x) = x) \<and> (\<forall>p. pk_parse c (pk_json c p) = Some p \<and> pk_json c p \<noteq> [])
      \<and> (\<forall>key iv aad text. length (fst (pk_seal c key iv aad text)) = 16
           \<and> length (snd (pk_seal c key iv aad text)) = length text
           \<and> pk_open c key iv aad (fst (pk_seal c key iv aad text)) (snd (pk_seal c key iv aad text)) = Some text))"

definition package_text :: "package_crypto \<Rightarrow> string \<Rightarrow> string \<Rightarrow> string" where
  "package_text c database encryption_key =
     pk_json c \<lparr>xl_format = ''vaultback-full-export'', xl_database = pk_encode c database, xl_key = encryption_key\<rparr>"

text \<open>C40: A package that was exported is imported again with the same password exactly when its text has
  at most 50 MiB, the database is a SQLite file and the encryption key has 32 to 256 letters, digits,
  underscores or hyphens; then the staged database is the exported one and the staged key is the
  exported one without surrounding blanks. An installation whose key is shorter or has other characters
  exports packages that no installation accepts.\<close>

theorem export_round_trip:
  assumes "documented_package c" and "length salt = 16" and "length iv = 12"
    and "full_export c salt iv database encryption_key password = Inr e"
  shows "import_full c e password =
    (if length (package_text c database encryption_key) \<le> package_limit \<and> database_ok database \<and> key_text_ok (trim encryption_key)
     then Inr (database, trim encryption_key) else Inl could_not_decrypt)"
proof -
  let ?text = "package_text c database encryption_key"
  let ?sealed = "pk_seal c (pk_key c password salt) iv package_aad ?text"
  have pw: "require_export_password password = Inr ()"
    using assms(4) by (auto simp: full_export_def require_export_password_def split: if_splits)
  have e: "e = \<lparr>xp_format = ''vaultback-encrypted-export'', xp_version = 2, xp_kdf = ''scrypt'', xp_salt = pk_encode c salt,
      xp_iv = pk_encode c iv, xp_tag = pk_encode c (fst ?sealed), xp_ciphertext = pk_encode c (snd ?sealed)\<rparr>"
    using assms(4) by (simp add: full_export_def pw package_text_def Let_def split_beta)
  have code: "pk_decode c (pk_encode c x) = x" for x using assms(1) by (simp add: documented_package_def)
  have sealed: "length (fst ?sealed) = 16" "length (snd ?sealed) = length ?text"
    "pk_open c (pk_key c password salt) iv package_aad (fst ?sealed) (snd ?sealed) = Some ?text"
    using assms(1) by (simp_all add: documented_package_def)
  have parse: "pk_parse c ?text = Some \<lparr>xl_format = ''vaultback-full-export'', xl_database = pk_encode c database, xl_key = encryption_key\<rparr>"
    and "?text \<noteq> []"
    using assms(1) by (simp_all add: documented_package_def package_text_def)
  then have "snd ?sealed \<noteq> []" using sealed(2) by auto
  then show ?thesis
    using assms(2,3) sealed by (simp add: import_full_def pw e code parse Let_def)
qed

text \<open>A cipher with which the theorem is applied: it keeps the text and forgets the password.\<close>

definition plain_json :: "payload \<Rightarrow> string" where
  "plain_json p = CHR ''p'' # show_nat (length (xl_format p)) @ [CHR '':''] @ show_nat (length (xl_database p)) @ [CHR '':'']
     @ xl_format p @ xl_database p @ xl_key p"

definition plain_parse :: "string \<Rightarrow> payload option" where
  "plain_parse s =
     (let m = read_nat (takeWhile (\<lambda>c. c \<noteq> CHR '':'') (tl s)); s1 = tl (dropWhile (\<lambda>c. c \<noteq> CHR '':'') (tl s));
          n = read_nat (takeWhile (\<lambda>c. c \<noteq> CHR '':'') s1); s2 = tl (dropWhile (\<lambda>c. c \<noteq> CHR '':'') s1)
      in Some \<lparr>xl_format = take m s2, xl_database = take n (drop m s2), xl_key = drop (m + n) s2\<rparr>)"

definition plain_package :: package_crypto where
  "plain_package = \<lparr>pk_key = (\<lambda>password salt. []), pk_seal = (\<lambda>key iv aad text. (replicate 16 (CHR ''t''), text)),
     pk_open = (\<lambda>key iv aad tag body. Some body), pk_encode = (\<lambda>x. x), pk_decode = (\<lambda>x. x), pk_json = plain_json, pk_parse = plain_parse\<rparr>"

lemma no_colon: "CHR '':'' \<notin> set (show_nat n)"
proof (induction n rule: show_nat.induct)
  case (1 n)
  have "CHR '':'' \<noteq> digit_char k" if "k < 10" for k
  proof
    assume "CHR '':'' = digit_char k"
    from this [symmetric] have "(of_char (digit_char k) :: nat) = 58" by simp
    then show False using that by (simp add: digit_char_def)
  qed
  then show ?case using 1 by (subst show_nat.simps) auto
qed

lemma read_until_colon:
  "takeWhile (\<lambda>c. c \<noteq> CHR '':'') (show_nat n @ CHR '':'' # s) = show_nat n"
  "dropWhile (\<lambda>c. c \<noteq> CHR '':'') (show_nat n @ CHR '':'' # s) = CHR '':'' # s"
  using no_colon [of n] by (auto simp: takeWhile_append dropWhile_append)

lemma plain_parse_json: "plain_parse (plain_json p) = Some p"
  by (simp add: plain_parse_def plain_json_def read_until_colon Let_def)

lemma plain_documented: "documented_package plain_package"
  by (simp add: documented_package_def plain_package_def plain_parse_json) (simp add: plain_json_def)

definition sample_database :: string where
  "sample_database = ''SQLite format 3'' @ CHR 0x00 # replicate 90 (CHR ''x'')"

lemma sample_export_small: "length (package_text plain_package sample_database (replicate 32 (CHR ''k''))) \<le> package_limit"
proof -
  have small: "length (show_nat n) \<le> Suc n" for n
  proof (induction n rule: show_nat.induct)
    case (1 n)
    then show ?case by (subst show_nat.simps) auto
  qed
  have "length (package_text plain_package sample_database (replicate 32 (CHR ''k''))) \<le> 1000"
    using small [of "length ''vaultback-full-export''"] small [of 106] by (simp add: package_text_def plain_package_def plain_json_def sample_database_def)
  then show ?thesis by (simp add: package_limit_def)
qed

theorem export_round_trip_witness:
  "\<exists>e. full_export plain_package (replicate 16 (CHR ''s'')) (replicate 12 (CHR ''i'')) sample_database (replicate 32 (CHR ''k'')) ''a long password'' = Inr e
     \<and> import_full plain_package e ''a long password'' = Inr (sample_database, replicate 32 (CHR ''k''))"
proof -
  obtain e where e: "full_export plain_package (replicate 16 (CHR ''s'')) (replicate 12 (CHR ''i'')) sample_database (replicate 32 (CHR ''k'')) ''a long password'' = Inr e"
    by (simp add: full_export_def require_export_password_def Let_def split_beta)
  have "trim (replicate 32 (CHR ''k'')) = replicate 32 (CHR ''k'')" "key_text_ok (replicate 32 (CHR ''k''))" "database_ok sample_database"
    by code_simp+
  then show ?thesis using e sample_export_small export_round_trip [OF plain_documented _ _ e] by auto
qed

end
