(* ===== verification/Asset_Cache.thy ===== *)
theory Asset_Cache
  imports System_Updates Regex Control_Db
begin

text \<open>
  The cache of the frontend's assets (\<open>AssetCacheService\<close>, \<open>src/system/asset-cache.service.ts\<close>): the
  stored configuration, the assets under content-addressed paths, the headers of their responses and
  the rules shown for a CDN. Parameters: \<open>dec\<close> and \<open>enc\<close> (\<open>JSON.parse\<close>, \<open>JSON.stringify\<close> of the stored
  value), \<open>digest\<close> (SHA-256 in hexadecimal), \<open>collate\<close> (\<open>localeCompare\<close>) and \<open>url_host\<close> (the host name of
  a parsed URL).
\<close>

section \<open>The configuration\<close>

record cache_config =
  ac_enabled :: bool
  ac_browser :: int
  ac_edge :: int

definition default_cache_config :: cache_config where
  "default_cache_config = \<lparr>ac_enabled = True, ac_browser = 31536000, ac_edge = 31536000\<rparr>"

definition min_ttl :: int where
  "min_ttl = 60"

definition max_ttl :: int where
  "max_ttl = 31536000"

definition valid_ttl :: "json option \<Rightarrow> int option" where
  "valid_ttl v = (case v of Some (JNum n) \<Rightarrow> if min_ttl \<le> n \<and> n \<le> max_ttl then Some n else None | _ \<Rightarrow> None)"

definition normalize_cache_config :: "json \<Rightarrow> cache_config result" where
  "normalize_cache_config v =
     (case v of
        JObj _ \<Rightarrow>
          (case (jget v ''enabled'', valid_ttl (jget v ''browserMaxAgeSeconds''), valid_ttl (jget v ''edgeMaxAgeSeconds'')) of
             (Some (JBool e), Some b, Some g) \<Rightarrow> Inr \<lparr>ac_enabled = e, ac_browser = b, ac_edge = g\<rparr>
           | _ \<Rightarrow> Inl (BadRequest ''Cache settings require a boolean enabled value and TTL values between 60 and 31536000 seconds''))
      | _ \<Rightarrow> Inl (BadRequest ''Cache settings must be an object''))"

definition cache_config_json :: "cache_config \<Rightarrow> json" where
  "cache_config_json c = JObj [(''enabled'', JBool (ac_enabled c)), (''browserMaxAgeSeconds'', JNum (ac_browser c)),
     (''edgeMaxAgeSeconds'', JNum (ac_edge c))]"

text \<open>\<open>getConfig\<close>: a value that is missing, empty, not JSON or not valid gives the default.\<close>

definition get_cache_config :: "(string \<Rightarrow> json option) \<Rightarrow> db \<Rightarrow> cache_config" where
  "get_cache_config dec d =
     (case settings d ''asset_cache_settings'' of
        None \<Rightarrow> default_cache_config
      | Some v \<Rightarrow> if v = [] then default_cache_config
                 else (case dec v of
                         None \<Rightarrow> default_cache_config
                       | Some j \<Rightarrow> (case normalize_cache_config j of Inl _ \<Rightarrow> default_cache_config | Inr c \<Rightarrow> c)))"

definition save_cache_config :: "(json \<Rightarrow> string) \<Rightarrow> json \<Rightarrow> db \<Rightarrow> (cache_config \<times> db) result" where
  "save_cache_config enc v d =
     (case normalize_cache_config v of
        Inl e \<Rightarrow> Inl e
      | Inr c \<Rightarrow> Inr (c, d\<lparr>settings := (settings d)(''asset_cache_settings'' \<mapsto> enc (cache_config_json c))\<rparr>))"

section \<open>Versioned assets\<close>

record versioned_asset =
  va_name :: string
  va_path :: string
  va_sha256 :: string
  va_bytes :: nat
  va_content :: string

text \<open>A directory entry: its name, whether it is a file, its content.\<close>

type_synonym dir_entry = "string \<times> bool \<times> string"

definition asset_char :: "char \<Rightarrow> bool" where
  "asset_char c = (is_alnum c \<or> c = CHR ''.'' \<or> c = CHR ''_'' \<or> c = CHR ''-'')"

definition ends_with :: "string \<Rightarrow> string \<Rightarrow> bool" where
  "ends_with s e = starts_with (rev s) (rev e)"

text \<open>\<open>/^[A-Za-z0-9][A-Za-z0-9._-]*\.(?:js|css)$/i\<close>.\<close>

definition asset_name :: "string \<Rightarrow> bool" where
  "asset_name n =
     (\<exists>e \<in> {''.js'', ''.css''}. ends_with (to_lower n) e
        \<and> (let stem = take (length n - length e) n in stem \<noteq> [] \<and> is_alnum (hd stem) \<and> list_all asset_char stem))"

definition versioned :: "(string \<Rightarrow> string) \<Rightarrow> dir_entry \<Rightarrow> versioned_asset" where
  "versioned digest x =
     (let content = snd (snd x)
      in \<lparr>va_name = fst x, va_path = ''/_assets/'' @ digest content @ ''/'' @ fst x, va_sha256 = digest content,
          va_bytes = length content, va_content = content\<rparr>)"

text \<open>\<open>None\<close>: the public root does not exist or is no directory.\<close>

definition build_manifest ::
  "(string \<Rightarrow> string) \<Rightarrow> (string \<Rightarrow> string \<Rightarrow> int) \<Rightarrow> dir_entry list option \<Rightarrow> versioned_asset list" where
  "build_manifest digest collate dir =
     (case dir of
        None \<Rightarrow> []
      | Some entries \<Rightarrow> map (versioned digest)
          (sort_with (\<lambda>l r. collate (fst l) (fst r)) (filter (\<lambda>x. fst (snd x) \<and> asset_name (fst x)) entries)))"

text \<open>\<open>/((?:src|href)\s*=\s*)(["'])(\/[^"']+)\2/gi\<close>: the back reference is an alternative for each of
  the two quotes.\<close>

definition not_quote :: "char \<Rightarrow> bool" where
  "not_quote c = (c \<noteq> CHR 0x22 \<and> c \<noteq> CHR 0x27)"

definition quoted_url :: "char \<Rightarrow> rx" where
  "quoted_url q = rx_seq [Cap 2 (rx_text [q]), Cap 3 (Seq (rx_text ''/'') (rx_plus (Cls not_quote))), rx_text [q]]"

definition asset_reference :: rx where
  "asset_reference = rx_seq
     [Cap 1 (rx_seq [rx_alt [rx_word ''src'', rx_word ''href''], Star True rx_blank, rx_text ''='', Star True rx_blank]),
      rx_alt [quoted_url (CHR 0x22), quoted_url (CHR 0x27)]]"

text \<open>The \<open>Map\<close> keeps the last of several assets of one name.\<close>

definition versioned_path :: "versioned_asset list \<Rightarrow> string \<Rightarrow> string option" where
  "versioned_path manifest url =
     map_of (rev (map (\<lambda>a. (''/'' @ va_name a, va_path a)) manifest))
       (takeWhile (\<lambda>c. c \<noteq> CHR ''?'' \<and> c \<noteq> CHR ''#'') url)"

definition rewritten_reference :: "versioned_asset list \<Rightarrow> string \<Rightarrow> rx_match \<Rightarrow> string" where
  "rewritten_reference manifest html m =
     (case versioned_path manifest (text_cap 3 m) of
        None \<Rightarrow> slice (rm_start m) (rm_end m) html
      | Some p \<Rightarrow> text_cap 1 m @ text_cap 2 m @ p @ text_cap 2 m)"

fun replace_matches :: "(rx_match \<Rightarrow> string) \<Rightarrow> string \<Rightarrow> nat \<Rightarrow> rx_match list \<Rightarrow> string" where
  "replace_matches f s i [] = drop i s"
| "replace_matches f s i (m # ms) = slice i (rm_start m) s @ f m @ replace_matches f s (rm_end m) ms"

definition rewrite_references :: "string \<Rightarrow> versioned_asset list \<Rightarrow> string" where
  "rewrite_references html manifest =
     replace_matches (rewritten_reference manifest html) html 0 (rx_all asset_reference html)"

section \<open>Headers\<close>

type_synonym headers = "(string \<times> string) list"

definition no_store_headers :: headers where
  "no_store_headers =
     [(''Cache-Control'', ''no-store, max-age=0''), (''CDN-Cache-Control'', ''no-store''),
      (''Cloudflare-CDN-Cache-Control'', ''no-store''), (''Surrogate-Control'', ''no-store'')]"

definition versioned_headers :: "cache_config \<Rightarrow> headers" where
  "versioned_headers c =
     (if \<not> ac_enabled c then no_store_headers
      else [(''Cache-Control'', ''public, max-age='' @ show_int (ac_browser c) @ '', immutable''),
            (''CDN-Cache-Control'', ''public, max-age='' @ show_int (ac_edge c)),
            (''Cloudflare-CDN-Cache-Control'', ''public, max-age='' @ show_int (ac_edge c)),
            (''Surrogate-Control'', ''max-age='' @ show_int (ac_edge c))])"

section \<open>Rules for a CDN\<close>

definition host_char :: "char \<Rightarrow> bool" where
  "host_char c = (CHR ''a'' \<le> c \<and> c \<le> CHR ''z'' \<or> is_digit c \<or> c = CHR ''.'' \<or> c = CHR ''-'')"

definition drop_dot :: "string \<Rightarrow> string" where
  "drop_dot s = (if s \<noteq> [] \<and> last s = CHR ''.'' then butlast s else s)"

fun double_dot :: "string \<Rightarrow> bool" where
  "double_dot (a # b # cs) = (a = CHR ''.'' \<and> b = CHR ''.'' \<or> double_dot (b # cs))"
| "double_dot _ = False"

text \<open>\<open>url_host t\<close> is \<open>new URL(t).hostname\<close>, \<open>None\<close> where the constructor throws.\<close>

definition cloudflare_hostname :: "(string \<Rightarrow> string option) \<Rightarrow> string option \<Rightarrow> string" where
  "cloudflare_hostname url_host host =
     (let fallback = ''your-vaultback-hostname.example''
      in case url_host (''http://'' @ (case host of None \<Rightarrow> [] | Some h \<Rightarrow> h)) of
           None \<Rightarrow> fallback
         | Some h \<Rightarrow>
             (let name = drop_dot (to_lower h)
              in if length name > 253 \<or> name = [] \<or> \<not> list_all host_char name \<or> hd name = CHR ''.''
                    \<or> last name = CHR ''.'' \<or> double_dot name
                 then fallback else name))"

text \<open>\<open>JSON.stringify\<close> of a text without control characters.\<close>

definition json_quote :: "string \<Rightarrow> string" where
  "json_quote s = [CHR 0x22] @ concat (map (\<lambda>c. if c = CHR 0x22 \<or> c = CHR 0x5C then [CHR 0x5C, c] else [c]) s) @ [CHR 0x22]"

record cdn_rule =
  cd_name :: string
  cd_expression :: string
  cd_action :: string
  cd_settings :: "(string \<times> string) list"

record cache_view =
  cv_config :: cache_config
  cv_assets :: "(string \<times> string \<times> string \<times> nat) list"
  cv_rules :: "cdn_rule list"

definition cache_settings ::
  "(string \<Rightarrow> json option) \<Rightarrow> (string \<Rightarrow> string option) \<Rightarrow> string option \<Rightarrow> versioned_asset list \<Rightarrow> db \<Rightarrow> cache_view" where
  "cache_settings dec url_host host assets d =
     (let asset_set = (if assets \<noteq> [] then ''http.request.uri.path in {'' @ join '' '' (map (json_quote \<circ> va_path) assets) @ ''}''
                       else ''http.request.uri.path eq '' @ json_quote ''/_assets/no-current-assets'');
          host_text = ''http.host eq '' @ json_quote (cloudflare_hostname url_host host)
      in \<lparr>cv_config = get_cache_config dec d,
          cv_assets = map (\<lambda>a. (va_name a, va_path a, va_sha256 a, va_bytes a)) assets,
          cv_rules =
            [\<lparr>cd_name = ''Bypass all VaultBack traffic except current versioned assets'',
              cd_expression = ''('' @ host_text @ '' and not ('' @ asset_set @ ''))'',
              cd_action = ''Bypass cache'', cd_settings = [(''cacheEligibility'', ''Bypass cache'')]\<rparr>,
             \<lparr>cd_name = ''Cache only current versioned VaultBack assets'',
              cd_expression = ''('' @ host_text @ '' and '' @ asset_set @ '')'',
              cd_action = ''Eligible for cache'',
              cd_settings = [(''cacheEligibility'', ''Eligible for cache''), (''browserTtl'', ''Respect origin Cache-Control''),
                             (''edgeTtl'', ''Use Cache-Control header if present'')]\<rparr>]\<rparr>)"

end
