(* ===== verification/Http_Server.thy ===== *)
theory Http_Server
  imports Asset_Cache System_Environment Auth
begin

text \<open>
  The HTTP server (\<open>src/main.ts\<close>): the start-up checks of protocol, domains, certificates and ports, the
  \<open>onRequest\<close> hooks in their order (host check, usage, no-store headers, guard of the API
  documentation, rate limit), the handler of \<open>GET /*\<close> for the frontend, and the redirect from HTTP.
  Parameters: the file system (\<open>exists\<close>, \<open>files\<close>) and the verdict of \<open>@fastify/rate-limit\<close>.
\<close>

section \<open>Start-up\<close>

datatype protocol = Http | Https | Both

definition env_or_default :: "config \<Rightarrow> string \<Rightarrow> string \<Rightarrow> string" where
  "env_or_default cfg k fallback = (let v = env_value cfg k in if v = [] then fallback else v)"

text \<open>A start-up \<open>throw\<close> is \<open>Inl\<close> of its message.\<close>

definition configured_protocol :: "config \<Rightarrow> string + protocol" where
  "configured_protocol cfg =
     (let v = to_lower (trim (env_or_default cfg ''APP_PROTOCOL'' ''http''))
      in if v = ''http'' then Inr Http else if v = ''https'' then Inr Https else if v = ''both'' then Inr Both
         else Inl ''APP_PROTOCOL must be http, https, or both.'')"

text \<open>\<open>host.slice(1, host.indexOf(']'))\<close>: without a bracket the last character is dropped.\<close>

definition in_brackets :: "string \<Rightarrow> string" where
  "in_brackets h = (if CHR '']'' \<in> set h then tl (takeWhile (\<lambda>c. c \<noteq> CHR '']'') h) else butlast (tl h))"

definition normalize_host :: "string option \<Rightarrow> string" where
  "normalize_host v =
     (let host = drop_dot (to_lower (trim (or_nothing v)))
      in if starts_with host ''['' then in_brackets host
         else if length (split_on (CHR '':'') host) \<le> 2 then hd (split_on (CHR '':'') host)
         else host)"

definition allowed_domains :: "config \<Rightarrow> string + string list" where
  "allowed_domains cfg =
     (let configured = filter (\<lambda>h. h \<noteq> []) (map (\<lambda>h. normalize_host (Some h)) (split_on (CHR '','') (configured_env_value cfg ''APP_DOMAIN'')))
      in if configured \<noteq> [] then Inr configured
         else if is_production cfg
         then Inl ''APP_DOMAIN is required when NODE_ENV=production. Set one or more allowed hostnames separated by commas.''
         else Inr [''localhost'', ''127.0.0.1'', ''::1''])"

text \<open>The certificate and the key that are read, \<open>None\<close> without TLS; \<open>exists\<close> is \<open>existsSync\<close> of the
  path resolved against the working directory.\<close>

definition tls_options :: "(string \<Rightarrow> bool) \<Rightarrow> config \<Rightarrow> protocol \<Rightarrow> string + (string \<times> string) option" where
  "tls_options exists cfg p =
     (if p = Http then Inr None
      else let certificate = trim (env_value cfg ''HTTPS_CERT_FILE''); key = trim (env_value cfg ''HTTPS_KEY_FILE'')
           in if certificate = [] \<or> key = []
              then Inl ''HTTPS_CERT_FILE and HTTPS_KEY_FILE are required when APP_PROTOCOL is https or both.''
              else if \<not> exists certificate \<or> \<not> exists key
              then Inl ''The configured HTTPS certificate or private-key file does not exist.''
              else Inr (Some (certificate, key)))"

text \<open>The port of the server and, for \<open>both\<close>, the port that redirects. NaN equals nothing.\<close>

definition port_of :: "config \<Rightarrow> string \<Rightarrow> jsnum \<Rightarrow> jsnum" where
  "port_of cfg k fallback = (let v = env_value cfg k in if v = [] then fallback else js_number v)"

definition listen_ports :: "config \<Rightarrow> protocol \<Rightarrow> string + jsnum \<times> jsnum option" where
  "listen_ports cfg p =
     (let port = port_of cfg ''PORT'' (Fin 3010);
          http_port = port_of cfg ''HTTP_PORT'' port;
          https_port = port_of cfg ''HTTPS_PORT'' (Fin 3443)
      in if p = Both \<and> http_port = https_port \<and> http_port \<noteq> NaN
         then Inl ''HTTP_PORT and HTTPS_PORT must be different when APP_PROTOCOL=both.''
         else Inr (if p = Both then (https_port, Some http_port) else (port, None)))"

section \<open>Requests and responses\<close>

record wire_request =
  wq_request :: http_request
  wq_url :: string
  wq_host :: "string option"
  wq_ip :: "string option"
  wq_remote :: "string option"

record response =
  rp_status :: nat
  rp_headers :: headers
  rp_type :: string
  rp_body :: string

text \<open>\<open>String(request.url || '').split('?')[0]\<close>.\<close>

definition request_path :: "string \<Rightarrow> string" where
  "request_path url = takeWhile (\<lambda>c. c \<noteq> CHR ''?'') url"

definition json_type :: string where
  "json_type = ''application/json; charset=utf-8''"

definition message_body :: "string \<Rightarrow> string" where
  "message_body m = ''{'' @ json_quote ''message'' @ '':'' @ json_quote m @ ''}''"

definition message_response :: "nat \<Rightarrow> headers \<Rightarrow> string \<Rightarrow> response" where
  "message_response status hs m = \<lparr>rp_status = status, rp_headers = hs, rp_type = json_type, rp_body = message_body m\<rparr>"

section \<open>Hooks\<close>

definition is_api_path :: "string \<Rightarrow> bool" where
  "is_api_path p = (p = ''/api'' \<or> starts_with p ''/api/'')"

definition login_path :: "string \<Rightarrow> bool" where
  "login_path p = (p = ''/api/auth/login'' \<or> p = ''/api/auth/setup'')"

definition counted_request :: "string \<Rightarrow> bool" where
  "counted_request p = (starts_with p ''/api/'' \<and> p \<noteq> ''/api/events'' \<and> \<not> login_path p)"

definition count_request :: "time \<Rightarrow> wire_request \<Rightarrow> usage_map \<Rightarrow> usage_map" where
  "count_request now w usage =
     (if counted_request (request_path (wq_url w)) then record_api_request now (client_address (wq_ip w) (wq_remote w)) usage
      else usage)"

definition api_headers :: "string \<Rightarrow> headers" where
  "api_headers p = (if is_api_path p then no_store_headers else [])"

definition docs_hidden :: "config \<Rightarrow> time \<Rightarrow> db \<Rightarrow> wire_request \<Rightarrow> bool" where
  "docs_hidden cfg now d w =
     (to_lower (trim (env_value cfg ''SWAGGER_ENABLED'')) = ''true'' \<and> starts_with (request_path (wq_url w)) ''/api/docs''
       \<and> (case get_session (wq_request w) now d of None \<Rightarrow> True | Some s \<Rightarrow> sn_role s \<noteq> ''admin''))"

definition docs_headers :: "config \<Rightarrow> string \<Rightarrow> headers" where
  "docs_headers cfg p =
     (if to_lower (trim (env_value cfg ''SWAGGER_ENABLED'')) = ''true'' \<and> starts_with p ''/api/docs''
      then no_store_headers @ [(''Vary'', ''Cookie'')] else [])"

text \<open>The limiter of a request: a bucket with its maximum and its window in minutes.\<close>

datatype limiter = Unlimited | Limited string int int

definition limiter_of :: "config \<Rightarrow> time \<Rightarrow> db \<Rightarrow> wire_request \<Rightarrow> limiter" where
  "limiter_of cfg now d w =
     (let p = request_path (wq_url w)
      in if \<not> is_production cfg \<or> \<not> starts_with p ''/api/'' then Unlimited
         else if p = ''/api/events'' \<and> get_session (wq_request w) now d \<noteq> None then Unlimited
         else if login_path p \<or> p = ''/api/events'' then Limited ''auth'' 10 15
         else Limited ''api'' (rate_limit_per_minute cfg) 1)"

text \<open>The hooks: a response that ends the request, or the headers set so far. \<open>over l\<close>: the limiter
  \<open>l\<close> answers 429.\<close>

definition on_request ::
  "(limiter \<Rightarrow> bool) \<Rightarrow> config \<Rightarrow> string list \<Rightarrow> time \<Rightarrow> db \<Rightarrow> wire_request \<Rightarrow> usage_map \<Rightarrow> (response + headers) \<times> usage_map" where
  "on_request over cfg domains now d w usage =
     (let p = request_path (wq_url w); hs = api_headers p @ docs_headers cfg p; usage' = count_request now w usage
      in if normalize_host (wq_host w) \<notin> set domains then (Inl (message_response 421 [] ''Host not allowed''), usage)
         else if docs_hidden cfg now d w then (Inl (message_response 404 hs ''Not found''), usage')
         else if limiter_of cfg now d w \<noteq> Unlimited \<and> over (limiter_of cfg now d w)
         then (Inl (message_response 429 hs ''Rate limit exceeded''), usage')
         else (Inr hs, usage'))"

section \<open>The frontend\<close>

text \<open>\<open>path.resolve(root, relative)\<close> of a relative path: the segments with \<open>.\<close> and \<open>..\<close> resolved.\<close>

fun resolve_segments :: "string list \<Rightarrow> string list \<Rightarrow> string list" where
  "resolve_segments acc [] = rev acc"
| "resolve_segments acc (s # ss) =
     (if s = [] \<or> s = ''.'' then resolve_segments acc ss
      else if s = ''..'' then resolve_segments (tl acc) ss
      else resolve_segments (s # acc) ss)"

definition resolve_path :: "string list \<Rightarrow> string \<Rightarrow> string list" where
  "resolve_path base relative = resolve_segments (rev base) (split_on (CHR ''/'') relative)"

definition below :: "string list \<Rightarrow> string list \<Rightarrow> bool" where
  "below base p = (take (length base) p = base)"

definition extension :: "string \<Rightarrow> string" where
  "extension name =
     (let r = rev name; e = takeWhile (\<lambda>c. c \<noteq> CHR ''.'') r; stem = drop (Suc (length e)) r
      in if CHR ''.'' \<notin> set name \<or> stem = [] then [] else CHR ''.'' # to_lower (rev e))"

definition html_type :: string where
  "html_type = ''text/html; charset=utf-8''"

definition mime_types :: "(string \<times> string) list" where
  "mime_types =
     [(''.html'', html_type), (''.js'', ''text/javascript; charset=utf-8''), (''.css'', ''text/css; charset=utf-8''),
      (''.svg'', ''image/svg+xml''), (''.png'', ''image/png''), (''.ico'', ''image/x-icon'')]"

definition mime_of :: "string \<Rightarrow> string" where
  "mime_of name = (case map_of mime_types (extension name) of None \<Rightarrow> ''application/octet-stream'' | Some t \<Rightarrow> t)"

definition frontend_routes :: "string list" where
  "frontend_routes =
     [''/'', ''/overview'', ''/databases'', ''/connections'', ''/storage'', ''/schedules'', ''/jobs'', ''/history'', ''/runs'',
      ''/recovery'', ''/guide'', ''/help'', ''/settings'', ''/sessions'']"

definition drop_slashes :: "string \<Rightarrow> string" where
  "drop_slashes p = (let s = rev (dropWhile (\<lambda>c. c = CHR ''/'') (rev p)) in if s = [] then ''/'' else s)"

record site =
  si_root :: "string list"
  si_files :: "string list \<Rightarrow> string option"
  si_assets :: "versioned_asset list"
  si_index :: string

definition asset_at :: "versioned_asset list \<Rightarrow> string \<Rightarrow> versioned_asset option" where
  "asset_at assets p = map_of (rev (map (\<lambda>a. (va_path a, a)) assets)) p"

definition serve_file :: "site \<Rightarrow> headers \<Rightarrow> string list \<Rightarrow> string \<Rightarrow> response" where
  "serve_file st hs candidate content =
     \<lparr>rp_status = 200, rp_headers = hs @ no_store_headers, rp_type = mime_of (last ([] # candidate)),
      rp_body = (if candidate = si_root st @ [''index.html''] then si_index st else content)\<rparr>"

text \<open>The handler of \<open>GET /*\<close>; \<open>hs\<close> are the headers that the hooks have set.\<close>

definition serve_public :: "site \<Rightarrow> cache_config \<Rightarrow> headers \<Rightarrow> string \<Rightarrow> response" where
  "serve_public st cache hs url =
     (let requested = request_path (if url = [] then ''/'' else url);
          path = drop_slashes requested;
          candidate = resolve_path (si_root st) (if requested = ''/'' then ''index.html'' else dropWhile (\<lambda>c. c = CHR ''/'') requested)
      in if starts_with requested ''/_assets/''
         then (case asset_at (si_assets st) requested of
                 None \<Rightarrow> \<lparr>rp_status = 404, rp_headers = hs @ no_store_headers, rp_type = ''text/plain; charset=utf-8'', rp_body = ''Not found''\<rparr>
               | Some a \<Rightarrow> \<lparr>rp_status = 200, rp_headers = hs @ versioned_headers cache, rp_type = mime_of (va_name a), rp_body = va_content a\<rparr>)
         else case (if below (si_root st) candidate then si_files st candidate else None) of
                Some content \<Rightarrow> serve_file st hs candidate content
              | None \<Rightarrow>
                  (if path = ''/api'' \<or> starts_with path ''/api/'' then message_response 404 hs ''Not found''
                   else \<lparr>rp_status = (if path \<in> set frontend_routes then 200 else 404), rp_headers = hs @ no_store_headers,
                         rp_type = html_type, rp_body = si_index st\<rparr>))"

text \<open>A request to the frontend: the hooks, then the handler.\<close>

definition get_page ::
  "(limiter \<Rightarrow> bool) \<Rightarrow> config \<Rightarrow> string list \<Rightarrow> site \<Rightarrow> (string \<Rightarrow> json option) \<Rightarrow> time \<Rightarrow> db \<Rightarrow> wire_request \<Rightarrow> usage_map
     \<Rightarrow> response \<times> usage_map" where
  "get_page over cfg domains st dec now d w usage =
     (case on_request over cfg domains now d w usage of
        (Inl r, u) \<Rightarrow> (r, u)
      | (Inr hs, u) \<Rightarrow> (serve_public st (get_cache_config dec d) hs (wq_url w), u))"

section \<open>The redirect from HTTP\<close>

definition redirect :: "string list \<Rightarrow> int \<Rightarrow> string option \<Rightarrow> string \<Rightarrow> response" where
  "redirect domains https_port host url =
     (if normalize_host host \<notin> set domains then message_response 421 [] ''Host not allowed''
      else \<lparr>rp_status = 308,
            rp_headers = [(''location'', ''https://'' @ hd domains @ (if https_port = 443 then [] else '':'' @ show_int https_port)
                             @ (if url = [] then ''/'' else url))],
            rp_type = [], rp_body = []\<rparr>)"

end
