(* ===== verification/Http_Props.thy ===== *)
theory Http_Props
  imports Http_Server
begin

text \<open>What the responses to page requests may be cached as (\<open>src/main.ts\<close>, \<open>src/system/asset-cache.service.ts\<close>).\<close>

section \<open>Headers\<close>

text \<open>\<open>no_store\<close>: nothing but \<open>no-store\<close> is said about caching; \<open>has_control\<close>: something is said.\<close>

definition no_store :: "headers \<Rightarrow> bool" where
  "no_store hs = list_all (\<lambda>h. fst h = ''Cache-Control'' \<longrightarrow> snd h = ''no-store, max-age=0'') hs"

definition has_control :: "headers \<Rightarrow> bool" where
  "has_control hs = list_ex (\<lambda>h. fst h = ''Cache-Control'') hs"

lemma header_facts [simp]:
  "no_store (a @ b) \<longleftrightarrow> no_store a \<and> no_store b" "has_control (a @ b) \<longleftrightarrow> has_control a \<or> has_control b"
  "no_store no_store_headers" "has_control no_store_headers" "no_store []"
  "has_control (versioned_headers c)"
  by (simp_all add: no_store_def has_control_def no_store_headers_def versioned_headers_def)

lemma hook_headers [simp]: "no_store (api_headers p)" "no_store (docs_headers cfg p)"
  "is_api_path p \<Longrightarrow> has_control (api_headers p)"
  by (simp_all add: api_headers_def docs_headers_def) (simp add: no_store_def)

section \<open>The configuration\<close>

lemma normalize_cache_config_bounds:
  assumes "normalize_cache_config v = Inr c"
  shows "min_ttl \<le> ac_browser c" "ac_browser c \<le> max_ttl" "min_ttl \<le> ac_edge c" "ac_edge c \<le> max_ttl"
  using assms by (auto simp: normalize_cache_config_def valid_ttl_def split: json.splits option.splits if_splits)

lemma normalize_cache_config_json:
  assumes "normalize_cache_config v = Inr c"
  shows "normalize_cache_config (cache_config_json c) = Inr c"
  using normalize_cache_config_bounds [OF assms]
  by (simp add: normalize_cache_config_def cache_config_json_def valid_ttl_def jget_def)

text \<open>What is saved is what is read, with the bounds of the lifetimes.\<close>

lemma get_saved_cache_config:
  assumes "\<And>j. enc j \<noteq> [] \<and> dec (enc j) = Some j" and "save_cache_config enc v d = Inr (c, d')"
  shows "get_cache_config dec d' = c"
  using assms(2) normalize_cache_config_json
  by (auto simp: save_cache_config_def get_cache_config_def assms(1) split: sum.splits)

section \<open>Paths\<close>

lemma starts_with_prefix: "starts_with s (p @ q) \<Longrightarrow> starts_with s p"
  unfolding starts_with_def by (metis append_take_drop_id append_eq_conv_conj append.assoc)

lemma docs_path_api: "starts_with p ''/api/docs'' \<Longrightarrow> is_api_path p"
  using starts_with_prefix [of p "''/api/''" "''docs''"] by (simp add: is_api_path_def)

lemma limited_path_api: "limiter_of cfg now d w \<noteq> Unlimited \<Longrightarrow> is_api_path (request_path (wq_url w))"
  by (simp add: limiter_of_def Let_def is_api_path_def split: if_splits)

lemma dropped_slashes: "\<exists>t. p = rev (dropWhile (\<lambda>c. c = CHR ''/'') (rev p)) @ t \<and> set t \<subseteq> {CHR ''/''}"
proof -
  have "p = rev (dropWhile (\<lambda>c. c = CHR ''/'') (rev p)) @ rev (takeWhile (\<lambda>c. c = CHR ''/'') (rev p))"
    by (metis rev_append rev_rev_ident takeWhile_dropWhile_id)
  moreover have "set (rev (takeWhile (\<lambda>c. c = CHR ''/'') (rev p))) \<subseteq> {CHR ''/''}"
    using set_takeWhileD by fastforce
  ultimately show ?thesis by blast
qed

text \<open>The 404 of the handler for paths of the API is given only to requests that the hooks took for
  such paths.\<close>

lemma drop_slashes_api:
  assumes "drop_slashes p = ''/api'' \<or> starts_with (drop_slashes p) ''/api/''"
  shows "is_api_path p"
proof -
  define q where "q = rev (dropWhile (\<lambda>c. c = CHR ''/'') (rev p))"
  obtain t where t: "p = q @ t" "set t \<subseteq> {CHR ''/''}" using dropped_slashes [of p] unfolding q_def by blast
  have q: "q = ''/api'' \<or> starts_with q ''/api/''"
    using assms by (auto simp: drop_slashes_def q_def [symmetric] Let_def starts_with_def split: if_splits)
  show ?thesis
  proof (cases "q = ''/api''")
    case True
    with t show ?thesis by (cases t) (auto simp: is_api_path_def starts_with_def)
  next
    case False
    with q have "take 5 q = ''/api/''" by (simp add: starts_with_def numeral_eq_Suc)
    moreover have "length q \<ge> 5"
      using arg_cong [OF calculation, of length] by simp
    ultimately show ?thesis unfolding t(1) by (simp add: is_api_path_def starts_with_def numeral_eq_Suc)
  qed
qed

section \<open>Responses\<close>

lemma set_insert_by [simp]: "set (insert_by cmp x ys) = insert x (set ys)"
  by (induction ys) auto

lemma set_sort_with [simp]: "set (sort_with cmp xs) = set xs"
  unfolding sort_with_def by (induction xs) auto

definition page_path :: "string \<Rightarrow> string" where
  "page_path url = request_path (if url = [] then ''/'' else url)"

lemma page_path_api: "is_api_path (page_path url) = is_api_path (request_path url)"
  by (simp add: page_path_def is_api_path_def request_path_def starts_with_def)

lemma serve_public_cases:
  obtains (asset) a where "asset_at (si_assets st) (page_path url) = Some a"
      "serve_public st c hs url = \<lparr>rp_status = 200, rp_headers = hs @ versioned_headers c, rp_type = mime_of (va_name a), rp_body = va_content a\<rparr>"
  | (other) "no_store hs \<Longrightarrow> no_store (rp_headers (serve_public st c hs url))"
      "has_control hs \<or> \<not> is_api_path (page_path url) \<Longrightarrow> has_control (rp_headers (serve_public st c hs url))"
proof (cases "starts_with (page_path url) ''/_assets/''")
  case True
  show ?thesis
  proof (cases "asset_at (si_assets st) (page_path url)")
    case None
    with True have "serve_public st c hs url =
        \<lparr>rp_status = 404, rp_headers = hs @ no_store_headers, rp_type = ''text/plain; charset=utf-8'', rp_body = ''Not found''\<rparr>"
      by (simp add: serve_public_def page_path_def Let_def)
    then show ?thesis by (intro other) simp_all
  next
    case (Some a)
    with True show ?thesis by (intro asset) (simp_all add: serve_public_def page_path_def Let_def)
  qed
next
  case False
  define q where "q = drop_slashes (page_path url)"
  define f where "f = resolve_path (si_root st) (if page_path url = ''/'' then ''index.html'' else dropWhile (\<lambda>c. c = CHR ''/'') (page_path url))"
  have r: "serve_public st c hs url =
      (case (if below (si_root st) f then si_files st f else None) of
         Some content \<Rightarrow> serve_file st hs f content
       | None \<Rightarrow> (if q = ''/api'' \<or> starts_with q ''/api/'' then message_response 404 hs ''Not found''
                   else \<lparr>rp_status = (if q \<in> set frontend_routes then 200 else 404), rp_headers = hs @ no_store_headers,
                         rp_type = html_type, rp_body = si_index st\<rparr>))"
    using False unfolding serve_public_def Let_def page_path_def [symmetric] q_def f_def by (simp only: if_False)
  have q: "q = ''/api'' \<or> starts_with q ''/api/'' \<Longrightarrow> is_api_path (page_path url)"
    unfolding q_def by (rule drop_slashes_api)
  show ?thesis
  proof (cases "if below (si_root st) f then si_files st f else None")
    case (Some content)
    then have "serve_public st c hs url = serve_file st hs f content" unfolding r by (simp only: option.case)
    then show ?thesis by (intro other) (simp_all add: serve_file_def)
  next
    case None
    show ?thesis
    proof (cases "q = ''/api'' \<or> starts_with q ''/api/''")
      case True
      with r None have "serve_public st c hs url = message_response 404 hs ''Not found''" by (simp only: option.case if_True)
      with q [OF True] show ?thesis by (intro other) (simp_all add: message_response_def)
    next
      case False
      with r None have "serve_public st c hs url =
          \<lparr>rp_status = (if q \<in> set frontend_routes then 200 else 404), rp_headers = hs @ no_store_headers,
           rp_type = html_type, rp_body = si_index st\<rparr>" by (simp only: option.case if_False)
      then show ?thesis by (intro other) simp_all
    qed
  qed
qed

lemma asset_at_manifest:
  assumes "asset_at (build_manifest digest collate dir) p = Some a"
  obtains entries name content where "dir = Some entries" "(name, True, content) \<in> set entries" "asset_name name"
    "a = versioned digest (name, True, content)" "p = ''/_assets/'' @ digest content @ ''/'' @ name"
proof -
  from assms have a: "a \<in> set (build_manifest digest collate dir)" and p: "p = va_path a"
    by (auto simp: asset_at_def dest!: map_of_SomeD)
  from a obtain entries where d: "dir = Some entries" by (auto simp: build_manifest_def split: option.splits)
  with a obtain x where x: "x \<in> set entries" "fst (snd x)" "asset_name (fst x)" "a = versioned digest x"
    by (auto simp: build_manifest_def)
  from x(2) have triple: "x = (fst x, True, snd (snd x))" by (cases x) simp
  show ?thesis
  proof (rule that [OF d])
    show "(fst x, True, snd (snd x)) \<in> set entries" "a = versioned digest (fst x, True, snd (snd x))"
      using x triple by simp_all
    show "p = ''/_assets/'' @ digest (snd (snd x)) @ ''/'' @ fst x" unfolding p x(4) by (simp add: versioned_def Let_def)
  qed (rule x(3))
qed

lemma page_cases:
  assumes "get_page over cfg domains st dec now d w usage = (r, usage')"
  obtains (foreign) "normalize_host (wq_host w) \<notin> set domains" "r = message_response 421 [] ''Host not allowed''" "usage' = usage"
    | (refused) hs n t where "normalize_host (wq_host w) \<in> set domains" "no_store hs" "has_control hs" "r = message_response n hs t"
    | (served) hs where "normalize_host (wq_host w) \<in> set domains" "no_store hs"
        "is_api_path (request_path (wq_url w)) \<Longrightarrow> has_control hs"
        "r = serve_public st (get_cache_config dec d) hs (wq_url w)"
proof -
  define p where "p = request_path (wq_url w)"
  define hs where "hs = api_headers p @ docs_headers cfg p"
  have hs: "no_store hs" "is_api_path p \<Longrightarrow> has_control hs" by (simp_all add: hs_def)
  consider "normalize_host (wq_host w) \<notin> set domains" "r = message_response 421 [] ''Host not allowed''" "usage' = usage"
    | n t where "normalize_host (wq_host w) \<in> set domains" "is_api_path p" "r = message_response n hs t"
    | "normalize_host (wq_host w) \<in> set domains" "r = serve_public st (get_cache_config dec d) hs (wq_url w)"
    using assms docs_path_api limited_path_api [of cfg now d w]
    by (auto simp: get_page_def on_request_def Let_def p_def hs_def docs_hidden_def split: if_splits)
  then show thesis using that hs p_def by metis
qed

lemma page_is_cacheable:
  assumes "get_page over cfg domains st dec now d w usage = (r, usage')"
    and "si_assets st = build_manifest digest collate dir"
  shows "no_store (rp_headers r) \<or>
      (\<exists>entries name content. dir = Some entries \<and> (name, True, content) \<in> set entries \<and> asset_name name \<and> rp_body r = content
         \<and> page_path (wq_url w) = ''/_assets/'' @ digest content @ ''/'' @ name
         \<and> normalize_host (wq_host w) \<in> set domains \<and> ac_enabled (get_cache_config dec d))"
  using assms(1)
proof (cases rule: page_cases)
  case (served hs)
  define c where "c = get_cache_config dec d"
  note r = served(4) [folded c_def]
  show ?thesis
  proof (cases rule: serve_public_cases [of st "wq_url w" c hs])
    case (asset a)
    obtain entries name content where e: "dir = Some entries" "(name, True, content) \<in> set entries" "asset_name name"
      "a = versioned digest (name, True, content)" "page_path (wq_url w) = ''/_assets/'' @ digest content @ ''/'' @ name"
      using asset_at_manifest asset(1) unfolding assms(2) by metis
    have "no_store (rp_headers r)" if "\<not> ac_enabled c"
      using that served(2) asset(2) r by (simp add: versioned_headers_def)
    moreover have "rp_body r = content" using asset(2) r e(4) by (simp add: versioned_def)
    ultimately show ?thesis using e(1-3,5) served(1) c_def by blast
  next
    case other
    with served(2) r show ?thesis by simp
  qed
qed (simp_all add: message_response_def)

lemma page_is_controlled:
  assumes "get_page over cfg domains st dec now d w usage = (r, usage')"
  shows "has_control (rp_headers r) \<or> rp_status r = 421 \<and> usage' = usage \<and> normalize_host (wq_host w) \<notin> set domains"
  using assms
proof (cases rule: page_cases)
  case (served hs)
  show ?thesis
  proof (cases rule: serve_public_cases [of st "wq_url w" "get_cache_config dec d" hs])
    case (asset a)
    with served(4) show ?thesis by simp
  next
    case other
    with served(3,4) page_path_api [of "wq_url w"] show ?thesis by metis
  qed
qed (simp_all add: message_response_def)

text \<open>A page response allows caching (says anything but no-store) only when it is the content of a
  script or style sheet of the public directory whose digest is in the requested path, the host is an
  allowed one and caching is switched on; and every response but the refusal of a foreign host says how it
  may be cached.\<close>

theorem only_versioned_assets_are_cacheable:
  assumes "get_page over cfg domains st dec now d w usage = (r, usage')"
    and "si_assets st = build_manifest digest collate dir"
  shows "(no_store (rp_headers r) \<or>
      (\<exists>entries name content. dir = Some entries \<and> (name, True, content) \<in> set entries \<and> asset_name name \<and> rp_body r = content
         \<and> page_path (wq_url w) = ''/_assets/'' @ digest content @ ''/'' @ name
         \<and> normalize_host (wq_host w) \<in> set domains \<and> ac_enabled (get_cache_config dec d)))
    \<and> (has_control (rp_headers r) \<or> rp_status r = 421 \<and> usage' = usage \<and> normalize_host (wq_host w) \<notin> set domains)"
  using page_is_cacheable [OF assms] page_is_controlled [OF assms(1)] by blast

end
