(* ===== verification/Routes.thy ===== *)
theory Routes
  imports Request_Dtos Auth
begin

text \<open>
  The HTTP interface: the routes of every controller with their guard, the DTO of the body and the
  operation behind them, and the way of a request to it: the router, the validation pipe, the guard at
  the start of the handler. The router is the one of Fastify, a parameter of the model: what is used of it is
  stated as \<open>documented_router\<close>. The operations are arguments here; those of the modelled services are applied in
  \<open>Auth_Api\<close>, \<open>System_Api\<close> and \<open>Execution_Api\<close>.
\<close>

section \<open>Routes\<close>

text \<open>\<open>Free\<close>: no guard. \<open>Session w\<close>: \<open>requireSession(req, w)\<close>. \<open>Admin\<close>: \<open>requireAdmin(req)\<close>.
  \<open>AdminWrite\<close>: \<open>requireAdmin(req, true)\<close>.\<close>

datatype guard = Free | Session bool | Admin | AdminWrite

datatype route = Route (ro_method: string) (ro_path: string) (ro_guard: guard) (ro_body: "dto option") (ro_operation: string)

abbreviation get :: "string \<Rightarrow> guard \<Rightarrow> string \<Rightarrow> route" where
  "get p g f \<equiv> Route ''GET'' p g None f"

abbreviation post :: "string \<Rightarrow> guard \<Rightarrow> string \<Rightarrow> route" where
  "post p g f \<equiv> Route ''POST'' p g None f"

abbreviation post_body :: "string \<Rightarrow> guard \<Rightarrow> dto \<Rightarrow> string \<Rightarrow> route" where
  "post_body p g b f \<equiv> Route ''POST'' p g (Some b) f"

abbreviation delete :: "string \<Rightarrow> guard \<Rightarrow> string \<Rightarrow> route" where
  "delete p g f \<equiv> Route ''DELETE'' p g None f"

definition auth_routes :: "route list" where
  "auth_routes =
     [get ''api/auth/status'' Free ''auth.isSetupComplete'',
      post_body ''api/auth/setup'' Free credentials_dto ''auth.setup'',
      post_body ''api/auth/login'' Free credentials_dto ''auth.login'',
      post ''api/auth/logout'' (Session True) ''auth.logout'',
      get ''api/auth/me'' (Session False) ''auth.me'',
      get ''api/auth/users'' Admin ''auth.listUsersPage'',
      post_body ''api/auth/users'' Admin user_dto ''auth.createUser'',
      Route ''PATCH'' ''api/auth/users/:id'' Admin (Some user_dto) ''auth.updateUser'',
      delete ''api/auth/users/:id'' Admin ''auth.deleteUser'',
      get ''api/auth/sessions'' Admin ''auth.listActiveSessions'',
      post ''api/auth/sessions/logout-lower'' Admin ''auth.forceLogoutLowerRoles'',
      post ''api/auth/sessions/logout-all'' Admin ''auth.forceLogoutEveryone'',
      post ''api/auth/users/:id/logout-sessions'' Admin ''auth.forceLogoutUser'']"

definition backup_routes :: "route list" where
  "backup_routes =
     [get ''api/dependencies/status'' (Session False) ''backups.dependencyDiagnostics'',
      get ''api/dependencies'' Admin ''backups.dependencyStatus'',
      post ''api/dependencies/install'' Admin ''tools.startInstall'',
      post ''api/dependencies/repair'' Admin ''tools.repair'',
      get ''api/dependencies/install/:id'' Admin ''tools.status'',
      get ''api/connections'' (Session False) ''backups.listConnectionsPage'',
      post_body ''api/connections'' Admin database_connection_dto ''backups.saveConnection'',
      post_body ''api/connections/test'' Admin database_connection_dto ''backups.testConnection'',
      get ''api/connections/:id/databases'' Admin ''backups.listAvailableDatabases'',
      delete ''api/connections/:id'' Admin ''backups.deleteConnection'',
      get ''api/jobs'' (Session False) ''backups.listJobsPageV2'',
      post_body ''api/jobs'' Admin backup_job_dto ''backups.saveJobV2'',
      get ''api/jobs/:id/runs'' (Session False) ''backups.runsForJobPage'',
      delete ''api/jobs/:id'' Admin ''backups.deleteJob'',
      post ''api/jobs/:id/run'' Admin ''backups.runNow'',
      get ''api/processes'' (Session False) ''backups.liveProcesses'',
      get ''api/runs'' (Session False) ''backups.runsPage'',
      get ''api/runs/activity'' (Session False) ''backups.backupActivity'',
      post ''api/runs/reconcile'' Admin ''backups.reconcileMissingArtifacts'',
      post ''api/runs/:id/download/prepare'' (Session True) ''backups.startDownloadPreparation'',
      get ''api/downloads/:id/status'' (Session False) ''backups.getDownloadPreparation'',
      get ''api/downloads/:id/file'' (Session False) ''backups.takePreparedDownload'',
      get ''api/runs/:id/download'' (Session False) ''backups.downloadRun'',
      post_body ''api/runs/:id/restore'' Admin restore_dto ''backups.restoreRun'',
      post ''api/runs/:id/retry'' Admin ''backups.retryRun'',
      get ''api/runs/:id/verification'' (Session False) ''backups.verificationReport'']"

definition storage_routes :: "route list" where
  "storage_routes =
     [get ''api/storage'' (Session False) ''storage.listPage'',
      post_body ''api/storage'' Admin storage_target_dto ''storage.save'',
      post ''api/storage/:id/test'' Admin ''storage.test'',
      get ''api/storage/health'' (Session False) ''storage.healthSummary'',
      post ''api/storage/:id/health'' Admin ''storage.health'',
      delete ''api/storage/:id'' Admin ''storage.delete'']"

definition recovery_routes :: "route list" where
  "recovery_routes =
     [post_body ''api/recovery/rehearsals'' Admin artifact_rehearsal_dto ''recovery.rehearseArtifact'',
      get ''api/recovery/rehearsals/:id'' Admin ''recovery.getArtifactRehearsal'',
      get ''api/recovery/dashboard'' (Session False) ''recovery.snapshot'',
      get ''api/recovery/plans'' (Session False) ''recovery.listPlans'',
      get ''api/recovery/connections'' Admin ''recovery.listRecoveryConnections'',
      post_body ''api/recovery/connections'' Admin recovery_connection_dto ''recovery.saveRecoveryConnection'',
      post_body ''api/recovery/connections/test'' Admin recovery_connection_dto ''recovery.testRecoveryConnection'',
      delete ''api/recovery/connections/:id'' Admin ''recovery.deleteRecoveryConnection'',
      post_body ''api/recovery/plans'' Admin recovery_plan_dto ''recovery.savePlan'',
      delete ''api/recovery/plans/:id'' Admin ''recovery.deletePlan'',
      post ''api/recovery/plans/:id/run'' Admin ''recovery.runTest'',
      get ''api/recovery/tests'' (Session False) ''recovery.listTests'',
      get ''api/recovery/pitr'' Admin ''recovery.pitrStatus'',
      post_body ''api/recovery/pitr/config'' Admin pitr_configuration_dto ''recovery.savePitrConfiguration'',
      post_body ''api/recovery/pitr/capture'' Admin pitr_capture_dto ''recovery.capturePitr'',
      post_body ''api/recovery/pitr/rehearsals'' Admin pitr_rehearsal_dto ''recovery.startPitrRehearsal'',
      get ''api/recovery/pitr/rehearsals/:id'' Admin ''recovery.getPitrRehearsal'',
      get ''api/recovery/runbooks'' (Session False) ''recovery.runbooks'',
      get ''api/recovery/fleet'' Admin ''recovery.listFleet'',
      post_body ''api/recovery/fleet/enroll'' Admin fleet_enrollment_dto ''recovery.enrollFleet'',
      post ''api/recovery/fleet/:id/revoke'' Admin ''recovery.revokeFleet'']"

definition execution_routes :: "route list" where
  "execution_routes =
     [get ''api/executions'' (Session False) ''executions.list'',
      get ''api/executions/:id'' (Session False) ''executions.get'',
      post ''api/jobs/:id/executions'' Admin ''executions.enqueue'',
      post ''api/runs/:id/retry-execution'' Admin ''executions.retryHistoricalRun'',
      post_body ''api/executions/:id/retries'' Admin execution_retry_dto ''executions.retry'',
      post_body ''api/executions/:id/cancel'' Admin execution_cancel_dto ''executions.cancel'',
      post ''api/executions/:id/priority'' Admin ''executions.moveAhead'',
      get ''api/protection'' (Session False) ''protection.assess'',
      get ''api/source-groups'' (Session False) ''executions.groups'',
      post_body ''api/source-groups'' Admin source_group_dto ''executions.assignGroup'',
      get ''api/notification-deliveries'' Admin ''outbox.list'']"

definition system_routes :: "route list" where
  "system_routes =
     [get ''api/settings/notifications'' (Session False) ''system.getNotificationSettings'',
      post_body ''api/settings/notifications'' Admin notification_dto ''system.saveNotificationSettings'',
      get ''api/settings/capacity'' (Session False) ''system.capacity'',
      get ''api/settings/environment'' Admin ''system.environmentSettings'',
      post_body ''api/settings/environment'' AdminWrite environment_dto ''system.saveEnvironment'',
      get ''api/settings/setup'' (Session False) ''system.setupStatus'',
      get ''api/settings/rate-limit-usage'' Admin ''system.listApiUsage'',
      get ''api/settings/audit'' Admin ''system.listAudit'',
      get ''api/settings/export'' Admin ''system.exportSafeConfig'',
      post_body ''api/settings/export/full'' Admin full_export_dto ''system.fullExport'',
      post_body ''api/settings/import/full'' Admin full_import_dto ''system.importFull'',
      post ''api/settings/restart'' AdminWrite ''system.requestRestart'',
      get ''api/settings/update'' Admin ''system.updateInfo'',
      post ''api/settings/update/check'' Admin ''system.checkForUpdate'',
      post ''api/settings/update/install'' AdminWrite ''system.startUpdate'']"

definition cache_routes :: "route list" where
  "cache_routes =
     [get ''api/settings/cache'' Admin ''cache.settings'',
      post_body ''api/settings/cache'' Admin asset_cache_settings_dto ''cache.saveConfig'']"

definition realtime_routes :: "route list" where
  "realtime_routes = [get ''api/events'' (Session False) ''realtime.connect'']"

definition health_routes :: "route list" where
  "health_routes =
     [get ''api/health/ready'' Free ''health.readiness'', get ''api/health'' Free ''health.liveness'', get ''api/health/live'' Free ''health.live'']"

definition app_routes :: "route list" where
  "app_routes =
     [get ''api/health/details'' (Session False) ''app.healthDetails'', get ''api/overview'' (Session False) ''app.overview'']"

definition api_routes :: "route list" where
  "api_routes = auth_routes @ backup_routes @ storage_routes @ recovery_routes @ execution_routes @ system_routes
     @ cache_routes @ realtime_routes @ health_routes @ app_routes"

section \<open>The way of a request\<close>

definition is_param :: "string \<Rightarrow> bool" where
  "is_param s = (case s of [] \<Rightarrow> False | c # _ \<Rightarrow> c = CHR '':'')"

text \<open>A path fits the pattern of a route segment by segment; a segment \<open>:name\<close> takes any.\<close>

definition path_fits :: "string list \<Rightarrow> string list \<Rightarrow> bool" where
  "path_fits ps ss = list_all2 (\<lambda>p s. is_param p \<or> p = s) ps ss"

definition path_params :: "string list \<Rightarrow> string list \<Rightarrow> string list" where
  "path_params ps ss = map snd (filter (\<lambda>x. is_param (fst x)) (zip ps ss))"

text \<open>The router: the declared route of a method and a path, with the parameters of the path. What it answers is a
  route of the request's method whose pattern the path fits; a HEAD request is answered by a GET route, as Fastify
  exposes one for each.\<close>

type_synonym router = "string \<Rightarrow> string list \<Rightarrow> (route \<times> string list) option"

definition documented_router :: "router \<Rightarrow> bool" where
  "documented_router router =
     (\<forall>m ss r ps. router m ss = Some (r, ps) \<longrightarrow>
        r \<in> set api_routes \<and> (ro_method r = m \<or> m = ''HEAD'' \<and> ro_method r = ''GET'')
        \<and> path_fits (split_on (CHR ''/'') (ro_path r)) ss \<and> ps = path_params (split_on (CHR ''/'') (ro_path r)) ss)"

text \<open>The guard that the handler calls first.\<close>

definition admit :: "guard \<Rightarrow> http_request \<Rightarrow> time \<Rightarrow> db \<Rightarrow> session option result" where
  "admit g rq now d =
     (case g of
        Free \<Rightarrow> Inr None
      | Session w \<Rightarrow> (case require_session rq w now d of Inl e \<Rightarrow> Inl e | Inr s \<Rightarrow> Inr (Some s))
      | Admin \<Rightarrow> (case require_admin rq now d of Inl e \<Rightarrow> Inl e | Inr s \<Rightarrow> Inr (Some s))
      | AdminWrite \<Rightarrow> (case require_admin_with rq True now d of Inl e \<Rightarrow> Inl e | Inr s \<Rightarrow> Inr (Some s)))"

type_synonym json_body = "(string \<times> jsv) list"

definition piped :: "(dto \<Rightarrow> json_body \<Rightarrow> json_body option) \<Rightarrow> route \<Rightarrow> json_body \<Rightarrow> json_body option" where
  "piped pipe r body = (case ro_body r of None \<Rightarrow> Some [] | Some dto \<Rightarrow> pipe dto body)"

text \<open>\<open>Inr\<close>: the operation was reached, with the session of the guard, the parameters of the path and
  the validated body.\<close>

definition serve ::
  "router \<Rightarrow> (dto \<Rightarrow> json_body \<Rightarrow> json_body option) \<Rightarrow> (string \<Rightarrow> session option \<Rightarrow> string list \<Rightarrow> json_body \<Rightarrow> 'r)
     \<Rightarrow> http_request \<Rightarrow> string list \<Rightarrow> json_body \<Rightarrow> time \<Rightarrow> db \<Rightarrow> 'r result" where
  "serve router pipe operation rq segments body now d =
     (case router (rq_method rq) segments of
        None \<Rightarrow> Inl (NotFound ''Not found'')
      | Some (r, ps) \<Rightarrow>
          (case piped pipe r body of
             None \<Rightarrow> Inl (BadRequest ''Bad Request'')
           | Some b \<Rightarrow>
               (case admit (ro_guard r) rq now d of
                  Inl e \<Rightarrow> Inl e
                | Inr s \<Rightarrow> Inr (operation (ro_operation r) s ps b))))"

end
