(* ===== verification/Routes_Props.thy ===== *)
theory Routes_Props
  imports Routes Auth_Facts
begin

text \<open>Which requests reach which operation of the HTTP interface.\<close>

section \<open>One route per request\<close>

text \<open>Two patterns that some path fits.\<close>

fun overlap :: "string list \<Rightarrow> string list \<Rightarrow> bool" where
  "overlap [] [] = True"
| "overlap (p # ps) (q # qs) = ((is_param p \<or> is_param q \<or> p = q) \<and> overlap ps qs)"
| "overlap _ _ = False"

lemma fits_overlap: "path_fits ps ss \<Longrightarrow> path_fits qs ss \<Longrightarrow> overlap ps qs"
proof (induction ps arbitrary: qs ss)
  case Nil
  then show ?case by (cases qs) (auto simp: path_fits_def)
next
  case (Cons p ps)
  then show ?case by (cases qs; cases ss) (auto simp: path_fits_def)
qed

text \<open>The key of a route is compared, not the whole of it.\<close>

definition route_key :: "route \<Rightarrow> string \<times> string list" where
  "route_key r = (ro_method r, split_on (CHR ''/'') (ro_path r))"

definition keys_overlap :: "string \<times> string list \<Rightarrow> string \<times> string list \<Rightarrow> bool" where
  "keys_overlap k l = (fst k = fst l \<and> overlap (snd k) (snd l))"

fun separate :: "(string \<times> string list) list \<Rightarrow> bool" where
  "separate [] = True"
| "separate (k # ks) = (list_all (\<lambda>l. \<not> keys_overlap k l) ks \<and> separate ks)"

lemma api_routes_separate: "separate (map route_key api_routes)"
  by code_simp

lemma separateD:
  assumes "separate (map f rs)" and "r \<in> set rs" and "q \<in> set rs" and "keys_overlap (f r) (f q)"
  shows "r = q"
proof -
  have sym: "overlap ps qs = overlap qs ps" for ps qs by (induction ps qs rule: overlap.induct) auto
  have "keys_overlap (f q) (f r)" using assms(4) by (simp add: keys_overlap_def sym)
  with assms show ?thesis by (induction rs) (auto simp: list_all_iff)
qed

text \<open>No two declared routes of a method fit the same path: whichever order the router tries them in, a path that
  fits a route is answered by that route or by none.\<close>

lemma one_route_per_request:
  assumes "documented_router router" and "router m ss = Some (q, ps)" and "r \<in> set api_routes" and "ro_method r = ro_method q"
    and "path_fits (split_on (CHR ''/'') (ro_path r)) ss"
  shows "q = r"
proof -
  from assms(1,2) have q: "q \<in> set api_routes" "path_fits (split_on (CHR ''/'') (ro_path q)) ss"
    unfolding documented_router_def by blast+
  then have "keys_overlap (route_key q) (route_key r)"
    using fits_overlap [OF q(2) assms(5)] assms(4) by (simp add: keys_overlap_def route_key_def)
  then show ?thesis by (rule separateD [OF api_routes_separate q(1) assms(3)])
qed

text \<open>A router of that kind: the first declared route that fits, of GET for a HEAD request.\<close>

definition first_fit :: router where
  "first_fit m ss =
     map_option (\<lambda>r. (r, path_params (split_on (CHR ''/'') (ro_path r)) ss))
       (List.find (\<lambda>r. ro_method r = (if m = ''HEAD'' then ''GET'' else m) \<and> path_fits (split_on (CHR ''/'') (ro_path r)) ss) api_routes)"

lemma first_fit_documented: "documented_router first_fit"
  by (auto simp: documented_router_def first_fit_def find_Some_iff)

section \<open>Guards\<close>

lemma require_sessionE:
  assumes "require_session rq w now d = Inr s"
  obtains row u where "row \<in> set (sessions d)" "rq_session rq = Some (ss_id row)" "now < ss_expires row"
    "find_user d (ss_user row) = Some u" "sn_role s = u_role u" "sn_csrf s = ss_csrf row" "sn_user s = ss_user row"
    "w \<Longrightarrow> rq_csrf rq = Some (ss_csrf row)"
proof -
  from assms obtain row u where "List.find (\<lambda>x. ss_id x = the (rq_session rq) \<and> session_live d now x) (sessions d) = Some row"
      "rq_session rq = Some (the (rq_session rq))" "find_user d (ss_user row) = Some u"
      "s = \<lparr>sn_id = ss_id row, sn_user = ss_user row, sn_csrf = ss_csrf row, sn_name = u_name u, sn_role = u_role u\<rparr>"
      "w \<longrightarrow> rq_csrf rq = Some (sn_csrf s)"
    by (auto simp: require_session_def get_session_def split: option.splits if_splits)
  then show ?thesis
    by (intro that [of row u]) (auto simp: session_live_def find_Some_iff)
qed

lemma require_admin_withE:
  assumes "require_admin_with rq w now d = Inr s"
  shows "require_session rq w now d = Inr s" "sn_role s = ''admin''"
  using assms by (auto simp: require_admin_with_def split: sum.splits if_splits)

text \<open>The tables: a route of a changing method has a guard that checks the CSRF token; all but the
  preparation of a download and the logout ask for an administrator.\<close>

definition guarded_route :: "route \<Rightarrow> bool" where
  "guarded_route r =
     (ro_method r = ''GET'' \<or> ro_guard r = Admin \<or> ro_guard r = AdminWrite
       \<or> ro_guard r = Session True \<and> ro_path r \<in> {''api/auth/logout'', ''api/runs/:id/download/prepare''}
       \<or> ro_guard r = Free \<and> ro_path r \<in> {''api/auth/login'', ''api/auth/setup''})"

lemma api_routes_guarded: "list_all guarded_route api_routes"
  by code_simp

lemma admitE:
  assumes "admit g rq now d = Inr x" and "g \<noteq> Free" and "g = Session True \<or> g = AdminWrite \<or> g = Admin \<and> rq_method rq \<noteq> ''GET''"
  obtains s where "x = Some s" "require_session rq True now d = Inr s" "g \<noteq> Session True \<Longrightarrow> sn_role s = ''admin''"
proof (cases g)
  case (Session w)
  with assms that show ?thesis by (auto simp: admit_def split: sum.splits)
next
  case Admin
  with assms have "require_admin_with rq True now d = Inr (the x)" "x = Some (the x)"
    by (auto simp: admit_def require_admin_def split: sum.splits)
  with require_admin_withE [OF this(1)] that show ?thesis by metis
next
  case AdminWrite
  with assms have "require_admin_with rq True now d = Inr (the x)" "x = Some (the x)"
    by (auto simp: admit_def split: sum.splits)
  with require_admin_withE [OF this(1)] that show ?thesis by metis
qed (use assms(2) in simp)

lemma exception_segments:
  "split_on (CHR ''/'') ''api/auth/logout'' = [''api'', ''auth'', ''logout'']"
  "split_on (CHR ''/'') ''api/auth/login'' = [''api'', ''auth'', ''login'']"
  "split_on (CHR ''/'') ''api/auth/setup'' = [''api'', ''auth'', ''setup'']"
  "split_on (CHR ''/'') ''api/runs/:id/download/prepare'' = [''api'', ''runs'', '':id'', ''download'', ''prepare'']"
  by simp_all

lemma fit_exceptions:
  "path_fits (split_on (CHR ''/'') ''api/auth/logout'') ss \<longleftrightarrow> ss = [''api'', ''auth'', ''logout'']"
  "path_fits (split_on (CHR ''/'') ''api/auth/login'') ss \<longleftrightarrow> ss = [''api'', ''auth'', ''login'']"
  "path_fits (split_on (CHR ''/'') ''api/auth/setup'') ss \<longleftrightarrow> ss = [''api'', ''auth'', ''setup'']"
  "path_fits (split_on (CHR ''/'') ''api/runs/:id/download/prepare'') ss
     \<longleftrightarrow> (\<exists>i. ss = [''api'', ''runs'', i, ''download'', ''prepare''])"
  unfolding exception_segments path_fits_def list_all2_Cons1 by (auto simp: is_param_def)

text \<open>C29: Whatever the operations do, and whichever way the router finds a route, a request with a changing method (any
  but GET and HEAD) reaches an operation other than login and setup only with the cookie of a stored,
  unexpired session and the CSRF token of that session, and, but for the logout and the preparation of a download,
  only when the account of the session is an administrator. The router is a parameter: it answers with a declared
  route of the request's method whose pattern the path fits. HEAD requests are left out: Fastify answers them by the
  GET routes.\<close>

theorem changing_requests_are_authorised:
  assumes router: "documented_router router"
    and reached: "serve router pipe operation rq segments body now d = Inr y"
    and changing: "rq_method rq \<noteq> ''GET'' \<and> rq_method rq \<noteq> ''HEAD''"
    and no_login: "segments \<noteq> [''api'', ''auth'', ''login''] \<and> segments \<noteq> [''api'', ''auth'', ''setup'']"
  shows "\<exists>row u. row \<in> set (sessions d) \<and> rq_session rq = Some (ss_id row) \<and> now < ss_expires row
      \<and> rq_csrf rq = Some (ss_csrf row) \<and> find_user d (ss_user row) = Some u
      \<and> (u_role u = ''admin'' \<or> segments = [''api'', ''auth'', ''logout'']
          \<or> (\<exists>i. segments = [''api'', ''runs'', i, ''download'', ''prepare'']))"
proof -
  from reached obtain r ps x where r: "router (rq_method rq) segments = Some (r, ps)" and x: "admit (ro_guard r) rq now d = Inr x"
    by (auto simp: serve_def split: option.splits sum.splits)
  have found: "r \<in> set api_routes" "ro_method r = rq_method rq" "path_fits (split_on (CHR ''/'') (ro_path r)) segments"
    using router r changing unfolding documented_router_def by blast+
  have "guarded_route r" using api_routes_guarded found(1) by (simp add: list_all_iff)
  moreover have "ro_method r \<noteq> ''GET''" using found(2) changing by simp
  moreover have "ro_path r \<noteq> ''api/auth/login''" "ro_path r \<noteq> ''api/auth/setup''"
    using no_login found(3) fit_exceptions(2,3) [of segments] by metis+
  ultimately have g: "ro_guard r = Admin \<or> ro_guard r = AdminWrite
      \<or> ro_guard r = Session True \<and> (ro_path r = ''api/auth/logout'' \<or> ro_path r = ''api/runs/:id/download/prepare'')"
    unfolding guarded_route_def by blast
  obtain s where s: "require_session rq True now d = Inr s" "ro_guard r \<noteq> Session True \<Longrightarrow> sn_role s = ''admin''"
    using admitE [OF x] g changing by (metis guard.distinct(1,3,5))
  obtain row u where row: "row \<in> set (sessions d)" "rq_session rq = Some (ss_id row)" "now < ss_expires row"
      "find_user d (ss_user row) = Some u" "sn_role s = u_role u" "rq_csrf rq = Some (ss_csrf row)"
    using require_sessionE [OF s(1)] by (metis (no_types))
  have "u_role u = ''admin'' \<or> segments = [''api'', ''auth'', ''logout''] \<or> (\<exists>i. segments = [''api'', ''runs'', i, ''download'', ''prepare''])"
  proof (cases "ro_guard r = Session True")
    case True
    with g found(3) fit_exceptions(1,4) [of segments] show ?thesis by auto
  next
    case False
    with s(2) row(5) show ?thesis by simp
  qed
  with row show ?thesis by blast
qed

end
