(* ===== verification/System_Api.thy ===== *)
theory System_Api
  imports Asset_Cache System_Settings System_Environment System_Export Auth Routes_Props
begin

text \<open>
  The handlers of \<open>SystemController\<close> (all but \<open>exportConfig\<close>) and \<open>AssetCacheController\<close> (\<open>src/system/system.controller.ts\<close>,
  \<open>src/system/asset-cache.controller.ts\<close>) over the operations of the services: guard, operation and the
  entry of the audit log, with the restart of \<open>requestRestart\<close>. What the process takes from outside is the
  record \<open>outside\<close>.
\<close>

section \<open>State\<close>

record system_state =
  sy_db :: db
  sy_config :: config
  sy_usage :: usage_map
  sy_status :: update_status
  sy_audit :: "audit_row list"
  sy_staged :: "(string \<times> string) option"
  sy_restart :: bool
  sy_update :: "update_start option"
  sy_published :: "string list"

text \<open>\<open>po_started\<close>: the environment of the start; \<open>po_writes\<close>: writing \<open>.env\<close> succeeds; \<open>po_random\<close>: salt and
  nonce of an export; \<open>po_database\<close>, \<open>po_key\<close>: the database file and the encryption key; \<open>po_statfs\<close>: blocks,
  block size and available blocks of a directory; \<open>po_process\<close>: application directory, data directory,
  executable.\<close>

record outside =
  po_dec :: "string \<Rightarrow> json option"
  po_enc :: "json \<Rightarrow> string"
  po_stamp :: "time \<Rightarrow> string"
  po_started :: string
  po_version :: string
  po_platform :: string
  po_answer :: update_answer
  po_writes :: bool
  po_crypto :: package_crypto
  po_random :: "string \<times> string"
  po_database :: string
  po_key :: string
  po_statfs :: "string \<Rightarrow> (int \<times> int \<times> int) option"
  po_process :: "string \<times> string \<times> string"
  po_launcher :: "string option"
  po_url_host :: "string \<Rightarrow> string option"
  po_host :: "string option"
  po_assets :: "versioned_asset list"

section \<open>The audit log\<close>

text \<open>\<open>JSON.stringify\<close>.\<close>

fun stringify :: "json \<Rightarrow> string" where
  "stringify JNull = ''null''"
| "stringify (JBool b) = (if b then ''true'' else ''false'')"
| "stringify (JNum n) = show_int n"
| "stringify (JStr s) = json_quote s"
| "stringify (JArr xs) = ''['' @ join '','' (map stringify xs) @ '']''"
| "stringify (JObj ps) = ''{'' @ join '','' (map (\<lambda>p. json_quote (fst p) @ '':'' @ stringify (snd p)) ps) @ ''}''"

definition some_text :: "string option \<Rightarrow> string option" where
  "some_text v = (if v = Some [] then None else v)"

definition audit ::
  "time \<Rightarrow> id option \<Rightarrow> string \<Rightarrow> string option \<Rightarrow> string option \<Rightarrow> json option \<Rightarrow> system_state \<Rightarrow> system_state" where
  "audit now user action entity entity_id metadata st =
     st\<lparr>sy_audit := sy_audit st @ [\<lparr>al_id = uuid (draws (sy_db st)), al_user = user, al_action = action,
          al_entity = some_text entity, al_entity_id = some_text entity_id, al_metadata = map_option stringify metadata, al_created = now\<rparr>],
        sy_db := (sy_db st)\<lparr>draws := Suc (draws (sy_db st))\<rparr>\<rparr>"

definition audit_action :: "time \<Rightarrow> session \<Rightarrow> string \<Rightarrow> system_state \<Rightarrow> system_state" where
  "audit_action now s action st = audit now (Some (sn_user s)) action None None None st"

section \<open>Capacity and restart\<close>

text \<open>A location: its size, the free bytes and the used share, \<open>None\<close> when it cannot be read.\<close>

definition capacity :: "outside \<Rightarrow> (string \<times> (int \<times> int \<times> int) option) list" where
  "capacity po =
     (let data = fst (snd (po_process po))
      in map (\<lambda>(name, dir). (name, map_option (\<lambda>(blocks, bsize, bavail).
                (blocks * bsize, bavail * bsize, used_percent (blocks * bsize) (bavail * bsize))) (po_statfs po dir)))
           [(''Application data'', data), (''Local backups'', data @ ''/backups'')])"

definition request_restart :: "time \<Rightarrow> session \<Rightarrow> system_state \<Rightarrow> system_state" where
  "request_restart now s st = (audit_action now s ''system.restart'' st)\<lparr>sy_restart := True\<rparr>"

section \<open>Calls and answers\<close>

datatype system_call =
    GetNotifications
  | SaveNotifications json
  | GetCapacity
  | GetEnvironment
  | SaveEnvironment string bool
  | GetSetup
  | GetRateLimitUsage
  | GetAudit
  | FullExport string
  | FullImport envelope string
  | Restart
  | GetUpdate
  | CheckUpdate
  | InstallUpdate
  | GetCache
  | SaveCache json

datatype system_value =
    SNotifications notification_view
  | SCapacity "(string \<times> (int \<times> int \<times> int) option) list"
  | SEnvironment environment_view bool
  | SSetup setup_view
  | SUsage usage_page
  | SAudit audit_page
  | SPackage envelope
  | SStaged
  | SRestarting
  | SUpdate update_view
  | SUpdating string
  | SCache cache_view

type_synonym system_answer = "system_value result \<times> system_state"

section \<open>Handlers\<close>

text \<open>The administrator's guard around a handler.\<close>

definition as_admin :: "http_request \<Rightarrow> bool \<Rightarrow> time \<Rightarrow> system_state \<Rightarrow> (session \<Rightarrow> system_answer) \<Rightarrow> system_answer" where
  "as_admin rq write now st f =
     (case require_admin_with rq write now (sy_db st) of Inl e \<Rightarrow> (Inl e, st) | Inr s \<Rightarrow> f s)"

definition as_user :: "http_request \<Rightarrow> time \<Rightarrow> system_state \<Rightarrow> system_answer \<Rightarrow> system_answer" where
  "as_user rq now st a = (case require_session rq False now (sy_db st) of Inl e \<Rightarrow> (Inl e, st) | Inr s \<Rightarrow> a)"

definition save_notifications :: "outside \<Rightarrow> http_request \<Rightarrow> time \<Rightarrow> json \<Rightarrow> system_state \<Rightarrow> system_answer" where
  "save_notifications po rq now body st = as_admin rq (rq_method rq \<noteq> ''GET'') now st (\<lambda>s.
     case save_notification_settings (po_dec po) (po_enc po) body (sy_db st) of
       Inl e \<Rightarrow> (Inl e, st)
     | Inr (v, d) \<Rightarrow> (Inr (SNotifications v), audit_action now s ''settings.notifications.update'' (st\<lparr>sy_db := d\<rparr>)))"

definition post_environment :: "outside \<Rightarrow> http_request \<Rightarrow> time \<Rightarrow> string \<Rightarrow> bool \<Rightarrow> system_state \<Rightarrow> system_answer" where
  "post_environment po rq now environment restart st = as_admin rq True now st (\<lambda>s.
     if \<not> is_primary_user (sy_db st) (sn_user s)
     then (Inl (Forbidden ''Only the first administrator can change the runtime environment''), st)
     else case save_environment (po_writes po) environment (sy_config st) of
            Inl e \<Rightarrow> (Inl e, st)
          | Inr cfg \<Rightarrow>
              (let v = environment_settings (po_started po) cfg;
                   st' = audit now (Some (sn_user s)) ''settings.environment.update'' None None
                           (Some (JObj [(''environment'', JStr (ew_configured v))])) (st\<lparr>sy_config := cfg\<rparr>)
               in (Inr (SEnvironment v restart), if restart then request_restart now s st' else st')))"

definition post_export :: "outside \<Rightarrow> http_request \<Rightarrow> time \<Rightarrow> string \<Rightarrow> system_state \<Rightarrow> system_answer" where
  "post_export po rq now password st = as_admin rq (rq_method rq \<noteq> ''GET'') now st (\<lambda>s.
     case full_export (po_crypto po) (fst (po_random po)) (snd (po_random po)) (po_database po) (po_key po) password of
       Inl e \<Rightarrow> (Inl e, st)
     | Inr p \<Rightarrow> (Inr (SPackage p), audit_action now s ''config.full_export'' st))"

definition post_import :: "outside \<Rightarrow> http_request \<Rightarrow> time \<Rightarrow> envelope \<Rightarrow> string \<Rightarrow> system_state \<Rightarrow> system_answer" where
  "post_import po rq now package password st = as_admin rq (rq_method rq \<noteq> ''GET'') now st (\<lambda>s.
     case import_full (po_crypto po) package password of
       Inl e \<Rightarrow> (Inl e, st)
     | Inr staged \<Rightarrow> (Inr SStaged, audit_action now s ''config.full_import'' (st\<lparr>sy_staged := Some staged\<rparr>)))"

definition post_restart :: "http_request \<Rightarrow> time \<Rightarrow> system_state \<Rightarrow> system_answer" where
  "post_restart rq now st = as_admin rq True now st (\<lambda>s. (Inr SRestarting, request_restart now s st))"

definition post_check :: "outside \<Rightarrow> http_request \<Rightarrow> time \<Rightarrow> system_state \<Rightarrow> system_answer" where
  "post_check po rq now st = as_admin rq (rq_method rq \<noteq> ''GET'') now st (\<lambda>s.
     case check_for_update (po_stamp po) now (sy_config st) (po_platform po) (po_version po) (po_answer po) (sy_status st) of
       (Inl e, us) \<Rightarrow> (Inl e, st\<lparr>sy_status := us\<rparr>)
     | (Inr v, us) \<Rightarrow> (Inr (SUpdate v), st\<lparr>sy_status := us, sy_published := sy_published st @ [''updates'']\<rparr>))"

definition post_install :: "outside \<Rightarrow> http_request \<Rightarrow> time \<Rightarrow> system_state \<Rightarrow> system_answer" where
  "post_install po rq now st = as_admin rq True now st (\<lambda>s.
     case po_process po of (app, data, node) \<Rightarrow>
       (case start_update (po_stamp po) now (sy_config st) app data node (po_launcher po) (po_version po) (sy_status st) of
          Inl e \<Rightarrow> (Inl e, st)
        | Inr (start, us) \<Rightarrow>
            (Inr (SUpdating (uo_target start)),
             (audit now (Some (sn_user s)) ''system.update.start'' None (Some (uo_target start)) None
                (st\<lparr>sy_status := us, sy_published := sy_published st @ [''updates'']\<rparr>))\<lparr>sy_update := Some start, sy_restart := True\<rparr>)))"

text \<open>The metadata of the entry are the fields of the body.\<close>

definition body_fields :: "json \<Rightarrow> string list \<Rightarrow> json" where
  "body_fields body ks = JObj (List.map_filter (\<lambda>k. map_option (Pair k) (jget body k)) ks)"

definition post_cache :: "outside \<Rightarrow> http_request \<Rightarrow> time \<Rightarrow> json \<Rightarrow> system_state \<Rightarrow> system_answer" where
  "post_cache po rq now body st = as_admin rq (rq_method rq \<noteq> ''GET'') now st (\<lambda>s.
     case save_cache_config (po_enc po) body (sy_db st) of
       Inl e \<Rightarrow> (Inl e, st)
     | Inr (_, d) \<Rightarrow>
         (let st' = audit now (Some (sn_user s)) ''settings.cache.update'' None None
                      (Some (body_fields body [''enabled'', ''browserMaxAgeSeconds'', ''edgeMaxAgeSeconds''])) (st\<lparr>sy_db := d\<rparr>)
          in (Inr (SCache (cache_settings (po_dec po) (po_url_host po) (po_host po) (po_assets po) (sy_db st'))), st')))"

definition system_handler :: "outside \<Rightarrow> http_request \<Rightarrow> time \<Rightarrow> system_call \<Rightarrow> system_state \<Rightarrow> system_answer" where
  "system_handler po rq now c st = (case c of
     GetNotifications \<Rightarrow> as_user rq now st (Inr (SNotifications (get_notification_settings (po_dec po) (sy_db st))), st)
   | SaveNotifications body \<Rightarrow> save_notifications po rq now body st
   | GetCapacity \<Rightarrow> as_user rq now st (Inr (SCapacity (capacity po)), st)
   | GetEnvironment \<Rightarrow> as_admin rq (rq_method rq \<noteq> ''GET'') now st
       (\<lambda>s. (Inr (SEnvironment (environment_settings (po_started po) (sy_config st)) False), st))
   | SaveEnvironment environment restart \<Rightarrow> post_environment po rq now environment restart st
   | GetSetup \<Rightarrow> as_user rq now st (Inr (SSetup (setup_status (sy_db st))), st)
   | GetRateLimitUsage \<Rightarrow> as_admin rq (rq_method rq \<noteq> ''GET'') now st
       (\<lambda>s. case list_api_usage (sy_config st) now (rq_query rq) (sy_usage st) of (p, u) \<Rightarrow> (Inr (SUsage p), st\<lparr>sy_usage := u\<rparr>))
   | GetAudit \<Rightarrow> as_admin rq (rq_method rq \<noteq> ''GET'') now st
       (\<lambda>s. (Inr (SAudit (list_audit (sy_db st) (sy_audit st) (rq_query rq))), st))
   | FullExport password \<Rightarrow> post_export po rq now password st
   | FullImport package password \<Rightarrow> post_import po rq now package password st
   | Restart \<Rightarrow> post_restart rq now st
   | GetUpdate \<Rightarrow> as_admin rq (rq_method rq \<noteq> ''GET'') now st
       (\<lambda>s. (Inr (SUpdate (update_info (sy_config st) (po_version po) (sy_status st))), st))
   | CheckUpdate \<Rightarrow> post_check po rq now st
   | InstallUpdate \<Rightarrow> post_install po rq now st
   | GetCache \<Rightarrow> as_admin rq (rq_method rq \<noteq> ''GET'') now st
       (\<lambda>s. (Inr (SCache (cache_settings (po_dec po) (po_url_host po) (po_host po) (po_assets po) (sy_db st))), st))
   | SaveCache body \<Rightarrow> post_cache po rq now body st)"

section \<open>What an administrator answers for\<close>

text \<open>What operates the installation: the settings, the configuration file, a staged import, a requested
  restart and a started update.\<close>

definition operated :: "system_state \<Rightarrow> (string \<rightharpoonup> string) \<times> config \<times> (string \<times> string) option \<times> bool \<times> update_start option" where
  "operated st = (settings (sy_db st), sy_config st, sy_staged st, sy_restart st, sy_update st)"

definition audited :: "system_state \<Rightarrow> session \<Rightarrow> time \<Rightarrow> system_state \<Rightarrow> bool" where
  "audited st s now st' =
     (\<exists>rows. rows \<noteq> [] \<and> sy_audit st' = sy_audit st @ rows \<and> list_all (\<lambda>r. al_user r = Some (sn_user s) \<and> al_created r = now) rows)"

lemma audit_simps [simp]:
  "sy_audit (audit now u a e i m st) = sy_audit st @ [\<lparr>al_id = uuid (draws (sy_db st)), al_user = u, al_action = a,
     al_entity = some_text e, al_entity_id = some_text i, al_metadata = map_option stringify m, al_created = now\<rparr>]"
  "operated (audit now u a e i m st) = operated st"
  by (simp_all add: audit_def operated_def)

lemma as_adminE:
  assumes "as_admin rq w now st f = (r, st')"
  obtains (refused) "st' = st" | (admitted) s where "require_admin_with rq w now (sy_db st) = Inr s" "f s = (r, st')"
  using assms by (auto simp: as_admin_def split: sum.splits)

lemma as_user_same: "as_user rq now st (v, st) = (r, st') \<Longrightarrow> st' = st"
  by (auto simp: as_user_def split: sum.splits)

chapter \<open>Properties\<close>

text \<open>Who operates the installation, and what the audit log says about it.\<close>

lemma audited_one:
  assumes "sy_audit st' = sy_audit st @ [r]" and "al_user r = Some (sn_user s)" and "al_created r = now"
  shows "audited st s now st'"
  unfolding audited_def using assms by (intro exI [of _ "[r]"]) simp

lemma request_restart_simps [simp]:
  "sy_audit (request_restart now s st) = sy_audit (audit_action now s ''system.restart'' st)"
  by (simp add: request_restart_def)

text \<open>\<open>answerable\<close>: what a handler run for the session \<open>s\<close> may do.\<close>

definition answerable :: "time \<Rightarrow> system_state \<Rightarrow> session \<Rightarrow> system_answer \<Rightarrow> bool" where
  "answerable now st s a = (operated (snd a) = operated st \<or> audited st s now (snd a))"

lemma answerable_same: "answerable now st s (r, st)"
  by (simp add: answerable_def)

lemma answerable_audit:
  assumes "sy_audit st1 = sy_audit st"
  shows "answerable now st s (r, audit now (Some (sn_user s)) a e i m st1)"
    "answerable now st s (r, audit_action now s a st1)"
  unfolding answerable_def using assms by (auto simp: audit_action_def intro!: audited_one)

lemma answerable_restart: "answerable now st s (r, request_restart now s st)"
  unfolding answerable_def by (auto simp: audit_action_def intro!: audited_one)

lemma answerable_restart_audit:
  assumes "sy_audit st1 = sy_audit st"
  shows "answerable now st s (r, request_restart now s (audit now (Some (sn_user s)) a e i m st1))"
proof -
  have "audited st s now (request_restart now s (audit now (Some (sn_user s)) a e i m st1))"
    unfolding audited_def using assms by (simp add: audit_action_def)
  then show ?thesis by (simp add: answerable_def)
qed

lemma answerable_install:
  assumes "sy_audit st1 = sy_audit st"
  shows "answerable now st s (r, (audit now (Some (sn_user s)) a e i m st1)\<lparr>sy_update := u, sy_restart := b\<rparr>)"
proof -
  have "audited st s now ((audit now (Some (sn_user s)) a e i m st1)\<lparr>sy_update := u, sy_restart := b\<rparr>)"
    unfolding audited_def using assms by simp
  then show ?thesis by (simp add: answerable_def)
qed

text \<open>The calls that may change what is operated; all others leave it.\<close>

fun changing_call :: "system_call \<Rightarrow> bool" where
  "changing_call (SaveNotifications _) = True"
| "changing_call (SaveEnvironment _ _) = True"
| "changing_call (FullImport _ _) = True"
| "changing_call Restart = True"
| "changing_call InstallUpdate = True"
| "changing_call (SaveCache _) = True"
| "changing_call _ = False"

lemma quiet_calls:
  assumes "\<not> changing_call c"
  shows "operated (snd (system_handler po rq now c st)) = operated st"
  using assms
  by (cases c) (auto simp: system_handler_def as_user_def as_admin_def post_export_def post_check_def audit_action_def operated_def audit_def
      split: sum.splits prod.splits)

text \<open>Each of the others runs behind the guard of an administrator.\<close>

lemma changing_calls:
  assumes "changing_call c" and "system_handler po rq now c st = (r, st')" and "rq_method rq \<noteq> ''GET''"
  shows "st' = st \<or> (\<exists>s. require_admin_with rq True now (sy_db st) = Inr s \<and> answerable now st s (r, st'))"
proof -
  have admin: "as_admin rq True now st f = (r, st') \<Longrightarrow> (\<And>s. require_admin_with rq True now (sy_db st) = Inr s \<Longrightarrow> answerable now st s (f s)) \<Longrightarrow> ?thesis"
    for f by (erule as_adminE) (simp, metis)
  show ?thesis
  proof (cases c)
    case (SaveNotifications body)
    with assms(2,3) show ?thesis
      by (intro admin) (auto simp: system_handler_def save_notifications_def answerable_same intro!: answerable_audit split: sum.splits)
  next
    case (SaveEnvironment environment restart)
    with assms(2) show ?thesis
      by (intro admin) (auto simp: system_handler_def post_environment_def answerable_same Let_def
          intro!: answerable_audit answerable_restart_audit split: sum.splits)
  next
    case (FullImport package password)
    with assms(2,3) show ?thesis
      by (intro admin) (auto simp: system_handler_def post_import_def answerable_same intro!: answerable_audit split: sum.splits)
  next
    case Restart
    with assms(2) show ?thesis
      by (intro admin) (auto simp: system_handler_def post_restart_def answerable_restart)
  next
    case InstallUpdate
    with assms(2) show ?thesis
      by (intro admin) (auto simp: system_handler_def post_install_def answerable_same intro!: answerable_install split: sum.splits prod.splits)
  next
    case (SaveCache body)
    with assms(2,3) show ?thesis
      by (intro admin) (auto simp: system_handler_def post_cache_def answerable_same Let_def intro!: answerable_audit split: sum.splits)
  qed (use assms(1) in simp_all)
qed

text \<open>When a call of the system interface changes the settings, the configuration file, the staged
  import, or requests a restart or an update, then its sender holds the cookie and the CSRF token of a
  stored, unexpired session of an administrator, and the audit log has new entries at its end, all of this
  call's time and with this administrator as their user.\<close>

theorem administrative_changes_are_audited:
  assumes "system_handler po rq now c st = (r, st')" and "operated st' \<noteq> operated st"
    and "changing_call c \<Longrightarrow> rq_method rq \<noteq> ''GET''"
  shows "\<exists>row u rows. row \<in> set (sessions (sy_db st)) \<and> rq_session rq = Some (ss_id row) \<and> now < ss_expires row
      \<and> rq_csrf rq = Some (ss_csrf row) \<and> find_user (sy_db st) (ss_user row) = Some u \<and> u_role u = ''admin''
      \<and> sy_audit st' = sy_audit st @ rows \<and> rows \<noteq> []
      \<and> list_all (\<lambda>e. al_user e = Some (ss_user row) \<and> al_created e = now) rows"
proof -
  have c: "changing_call c" using quiet_calls [of c po rq now st] assms(1,2) by fastforce
  from changing_calls [OF c assms(1) assms(3) [OF c]] assms(2)
  obtain s where s: "require_admin_with rq True now (sy_db st) = Inr s" and "answerable now st s (r, st')" by blast
  with assms(2) have "audited st s now st'" by (simp add: answerable_def)
  then obtain rows where rows: "rows \<noteq> []" "sy_audit st' = sy_audit st @ rows"
      "list_all (\<lambda>e. al_user e = Some (sn_user s) \<and> al_created e = now) rows"
    unfolding audited_def by blast
  note admin = require_admin_withE [OF s]
  show ?thesis
  proof (rule require_sessionE [OF admin(1)])
    fix row u
    assume *: "row \<in> set (sessions (sy_db st))" "rq_session rq = Some (ss_id row)" "now < ss_expires row"
      "find_user (sy_db st) (ss_user row) = Some u" "sn_role s = u_role u" "sn_user s = ss_user row" "True \<Longrightarrow> rq_csrf rq = Some (ss_csrf row)"
    show ?thesis
      by (rule exI [of _ row], rule exI [of _ u], rule exI [of _ rows]) (use * admin(2) rows in simp)
  qed
qed

end
