(* ===== verification/Execution_Api.thy ===== *)
theory Execution_Api
  imports Routes_Props Reachability Protection Notification_Delivery Admission_Props
begin

text \<open>
  The handlers of \<open>ExecutionController\<close> (\<open>src/backup/execution.controller.ts\<close>) over the execution
  service: guard, checks of the body, operation and answer. A body is a value of its DTO class after the
  validation pipe, its own properties in order.
\<close>

section \<open>Calls and answers\<close>

datatype execution_call =
    GetExecutions
  | GetExecution id
  | PostExecution id
  | PostHistoricalRetry id
  | PostRetry id json_body
  | PostCancel id json_body
  | PostPriority id
  | GetProtection
  | GetGroups
  | PostGroups json_body
  | GetDeliveries

datatype execution_value =
    XPage page
  | XView execution_view "event_row list option"
  | XStarted id
  | XAssessments "assessment list"
  | XGroups "(group_view \<times> int) list" int "string option"
  | XDeliveries "outbox_row list"

type_synonym execution_answer = "execution_value result \<times> service"

definition with_admin :: "http_request \<Rightarrow> time \<Rightarrow> service \<Rightarrow> (session \<Rightarrow> execution_answer) \<Rightarrow> execution_answer" where
  "with_admin rq now sv f = (case require_admin rq now (sv_db sv) of Inl e \<Rightarrow> (Inl e, sv) | Inr s \<Rightarrow> f s)"

definition with_session :: "http_request \<Rightarrow> time \<Rightarrow> service \<Rightarrow> (session \<Rightarrow> execution_answer) \<Rightarrow> execution_answer" where
  "with_session rq now sv f = (case require_session rq False now (sv_db sv) of Inl e \<Rightarrow> (Inl e, sv) | Inr s \<Rightarrow> f s)"

section \<open>Reading\<close>

fun exec_status_text :: "exec_status \<Rightarrow> string" where
  "exec_status_text EQueued = ''queued''"
| "exec_status_text ERunning = ''running''"
| "exec_status_text ECancelRequested = ''cancel_requested''"
| "exec_status_text ERetrying = ''retrying''"
| "exec_status_text ESuccess = ''success''"
| "exec_status_text EPartialFailure = ''partial_failure''"
| "exec_status_text EFailed = ''failed''"
| "exec_status_text ECancelled = ''cancelled''"
| "exec_status_text EInterrupted = ''interrupted''"

definition status_named :: "string \<Rightarrow> exec_status option" where
  "status_named s = List.find (\<lambda>x. exec_status_text x = s)
     [EQueued, ERunning, ECancelRequested, ERetrying, ESuccess, EPartialFailure, EFailed, ECancelled, EInterrupted]"

text \<open>\<open>Number(value)\<close> of a page parameter where it is an integer; anything else is refused, as 0 is.\<close>

definition page_param :: "int \<Rightarrow> string option \<Rightarrow> int" where
  "page_param fallback v =
     (case v of None \<Rightarrow> fallback | Some s \<Rightarrow> if s = [] then fallback
        else case js_number s of Fin r \<Rightarrow> if r = of_int \<lfloor>r\<rfloor> then \<lfloor>r\<rfloor> else 0 | _ \<Rightarrow> 0)"

text \<open>\<open>list(req.query)\<close>: a status that is none matches no row.\<close>

definition list_query :: "query \<Rightarrow> db \<Rightarrow> page result" where
  "list_query q d =
     (let text = (\<lambda>k. case q k of None \<Rightarrow> None | Some s \<Rightarrow> if s = [] then None else Some s);
          page = page_param 1 (q ''page''); sz = page_param 25 (q ''pageSize'')
      in case text ''status'' of
           None \<Rightarrow> list_executions None (text ''jobId'') page sz d
         | Some s \<Rightarrow> (case status_named s of
               Some st \<Rightarrow> list_executions (Some st) (text ''jobId'') page sz d
             | None \<Rightarrow> list_executions None (text ''jobId'') page sz (d\<lparr>executions := []\<rparr>)))"

text \<open>\<open>audit(id)\<close>: the events of the execution, \<open>ORDER BY created_at, rowid\<close>.\<close>

definition execution_audit :: "db \<Rightarrow> id \<Rightarrow> event_row list" where
  "execution_audit d i = sort_key v_created (filter (\<lambda>v. v_execution v = Some i) (events d))"

definition get_view :: "http_request \<Rightarrow> time \<Rightarrow> id \<Rightarrow> service \<Rightarrow> execution_answer" where
  "get_view rq now i sv = with_session rq now sv (\<lambda>s.
     case get_execution (sv_db sv) i of
       Inl e \<Rightarrow> (Inl e, sv)
     | Inr v \<Rightarrow> (Inr (XView v (if sn_role s = ''admin'' then Some (execution_audit (sv_db sv) i) else None)), sv))"

definition groups_answer :: "service \<Rightarrow> execution_answer" where
  "groups_answer sv = (Inr (XGroups (groups (sv_db sv)) (setting (sv_db sv) ''execution_concurrency'' 4) (sv_error sv)), sv)"

section \<open>Admission\<close>

definition started :: "service \<Rightarrow> (id \<times> db) result \<Rightarrow> execution_answer" where
  "started sv r = (case r of Inl e \<Rightarrow> (Inl e, sv) | Inr (i, d) \<Rightarrow> (Inr (XStarted i), sv\<lparr>sv_db := d\<rparr>))"

definition post_execution :: "http_request \<Rightarrow> time \<Rightarrow> id \<Rightarrow> service \<Rightarrow> execution_answer" where
  "post_execution rq now job sv = with_admin rq now sv (\<lambda>s.
     started sv (enqueue now job Manual (Some (sn_user s)) None (sv_db sv)))"

definition post_historical :: "http_request \<Rightarrow> time \<Rightarrow> id \<Rightarrow> service \<Rightarrow> execution_answer" where
  "post_historical rq now run sv = with_admin rq now sv (\<lambda>s.
     started sv (retry_historical now run (sn_user s) (sv_db sv)))"

definition selection_of_body :: "jsv \<Rightarrow> pair_selection option" where
  "selection_of_body v =
     (case v of
        VObj kvs \<Rightarrow> (case (prop_of kvs ''connectionId'', prop_of kvs ''storageTargetId'') of
            (VStr c, VStr t) \<Rightarrow> Some \<lparr>sel_connection = c, sel_target = t\<rparr> | _ \<Rightarrow> None)
      | _ \<Rightarrow> None)"

definition post_retry :: "http_request \<Rightarrow> time \<Rightarrow> id \<Rightarrow> json_body \<Rightarrow> service \<Rightarrow> execution_answer" where
  "post_retry rq now i body sv = with_admin rq now sv (\<lambda>s.
     case prop_of body ''pairs'' of
       VArr vs \<Rightarrow>
         (if list_ex (\<lambda>v. selection_of_body v = None) vs then (Inl (BadRequest ''Select valid execution pairs''), sv)
          else started sv (retry_execution now i (map (\<lambda>v. the (selection_of_body v)) vs) (sn_user s) (sv_db sv)))
     | _ \<Rightarrow> (Inl (BadRequest ''Select valid execution pairs''), sv))"

section \<open>Control\<close>

text \<open>An error of the \<open>pump\<close> at the end of an operation is thrown to the client.\<close>

definition after_pump :: "execution_value \<Rightarrow> http_error option \<times> service \<Rightarrow> execution_answer" where
  "after_pump v p = (case p of (None, sv) \<Rightarrow> (Inr v, sv) | (Some e, sv) \<Rightarrow> (Inl e, sv))"

definition post_cancel :: "http_request \<Rightarrow> time \<Rightarrow> id \<Rightarrow> json_body \<Rightarrow> service \<Rightarrow> execution_answer" where
  "post_cancel rq now i body sv = with_admin rq now sv (\<lambda>s.
     case prop_of body ''stopRunningConfirmed'' of
       VUndefined \<Rightarrow> (case cancel_execution now i (sn_user s) False sv of Inl e \<Rightarrow> (Inl e, sv) | Inr p \<Rightarrow> after_pump (XStarted i) p)
     | VBool b \<Rightarrow> (case cancel_execution now i (sn_user s) b sv of Inl e \<Rightarrow> (Inl e, sv) | Inr p \<Rightarrow> after_pump (XStarted i) p)
     | _ \<Rightarrow> (Inl (BadRequest ''Invalid stop confirmation''), sv))"

definition post_priority :: "http_request \<Rightarrow> time \<Rightarrow> id \<Rightarrow> service \<Rightarrow> execution_answer" where
  "post_priority rq now i sv = with_admin rq now sv (\<lambda>s.
     case move_ahead now i (sn_user s) (sv_db sv) of
       Inl e \<Rightarrow> (Inl e, sv)
     | Inr d \<Rightarrow> after_pump (XStarted i) (pump now (sv\<lparr>sv_db := d\<rparr>)))"

section \<open>Source groups\<close>

text \<open>\<open>Number.isInteger(value)\<close> fails for everything that is not an integer, and 0 is out of range.\<close>

definition body_int :: "jsv \<Rightarrow> int" where
  "body_int v = (case v of VInt n \<Rightarrow> n | _ \<Rightarrow> 0)"

definition strings_of :: "jsv \<Rightarrow> string list option" where
  "strings_of v =
     (case v of
        VArr vs \<Rightarrow> if list_all (\<lambda>x. case x of VStr _ \<Rightarrow> True | _ \<Rightarrow> False) vs
                   then Some (map (\<lambda>x. case x of VStr s \<Rightarrow> s | _ \<Rightarrow> []) vs) else None
      | _ \<Rightarrow> None)"

definition post_concurrency :: "time \<Rightarrow> session \<Rightarrow> json_body \<Rightarrow> service \<Rightarrow> execution_answer" where
  "post_concurrency now s body sv =
     (if list_ex (\<lambda>k. k \<noteq> ''globalConcurrency'') (map fst body)
      then (Inl (BadRequest ''Submit global concurrency separately''), sv)
      else case configure (body_int (prop_of body ''globalConcurrency'')) (sn_user s) (sv_db sv) of
             Inl e \<Rightarrow> (Inl e, sv)
           | Inr d \<Rightarrow> (case pump now (sv\<lparr>sv_db := d\<rparr>) of
                         (None, sv') \<Rightarrow> groups_answer sv' | (Some e, sv') \<Rightarrow> (Inl e, sv')))"

definition post_group :: "time \<Rightarrow> session \<Rightarrow> json_body \<Rightarrow> service \<Rightarrow> execution_answer" where
  "post_group now s body sv =
     (case (prop_of body ''name'', strings_of (prop_of body ''connectionIds'')) of
        (VStr nm, Some ids) \<Rightarrow>
          (if trim nm = [] \<or> \<not> distinct ids then (Inl (BadRequest ''Invalid source group''), sv)
           else let given = (case prop_of body ''id'' of VStr g \<Rightarrow> g | _ \<Rightarrow> []);
                    g = (if given \<noteq> [] then given else uuid (draws (sv_db sv)));
                    d1 = (if given \<noteq> [] then sv_db sv else (sv_db sv)\<lparr>draws := Suc (draws (sv_db sv))\<rparr>)
                in case assign_group now ids g (trim nm) (body_int (prop_of body ''concurrency'')) (sn_user s) d1 of
                     Inl e \<Rightarrow> (Inl e, sv)
                   | Inr d \<Rightarrow> (case pump now (sv\<lparr>sv_db := d\<rparr>) of
                                 (None, sv') \<Rightarrow> groups_answer sv' | (Some e, sv') \<Rightarrow> (Inl e, sv')))
      | _ \<Rightarrow> (Inl (BadRequest ''Invalid source group''), sv))"

definition configure_groups :: "http_request \<Rightarrow> time \<Rightarrow> json_body \<Rightarrow> service \<Rightarrow> execution_answer" where
  "configure_groups rq now body sv = with_admin rq now sv (\<lambda>s.
     if prop_of body ''globalConcurrency'' \<noteq> VUndefined then post_concurrency now s body sv else post_group now s body sv)"

section \<open>The controller\<close>

definition execution_handler :: "http_request \<Rightarrow> time \<Rightarrow> execution_call \<Rightarrow> service \<Rightarrow> execution_answer" where
  "execution_handler rq now c sv = (case c of
     GetExecutions \<Rightarrow> with_session rq now sv (\<lambda>s. (case list_query (rq_query rq) (sv_db sv) of Inl e \<Rightarrow> Inl e | Inr p \<Rightarrow> Inr (XPage p), sv))
   | GetExecution i \<Rightarrow> get_view rq now i sv
   | PostExecution job \<Rightarrow> post_execution rq now job sv
   | PostHistoricalRetry run \<Rightarrow> post_historical rq now run sv
   | PostRetry i body \<Rightarrow> post_retry rq now i body sv
   | PostCancel i body \<Rightarrow> post_cancel rq now i body sv
   | PostPriority i \<Rightarrow> post_priority rq now i sv
   | GetProtection \<Rightarrow> with_session rq now sv (\<lambda>s. (Inr (XAssessments (assess (sv_db sv) now)), sv))
   | GetGroups \<Rightarrow> with_session rq now sv (\<lambda>s. groups_answer sv)
   | PostGroups body \<Rightarrow> configure_groups rq now body sv
   | GetDeliveries \<Rightarrow> with_admin rq now sv (\<lambda>s. (Inr (XDeliveries (list_outbox (sv_db sv))), sv)))"

chapter \<open>Properties\<close>

text \<open>The interface of the executions: every call is a sequence of steps of the service.\<close>

lemma reachable_db:
  "reachable cron sv \<Longrightarrow> elsewhere (sv_db sv) d \<Longrightarrow> reachable cron (sv\<lparr>sv_db := d\<rparr>)"
  by (erule reachable.step) (rule service_step.others)

lemma reachable_pump: "reachable cron sv \<Longrightarrow> pump now sv = (e, sv') \<Longrightarrow> reachable cron sv'"
  using reachable.step [OF _ service_step.dispatch, of cron sv now] by simp

lemma reachable_started:
  assumes "reachable cron sv" and "\<And>i d. r = Inr (i, d) \<Longrightarrow> service_step cron sv (sv\<lparr>sv_db := d\<rparr>)"
  shows "reachable cron (snd (started sv r))"
  using assms by (auto simp: started_def intro: reachable.step split: sum.split prod.split)

lemma reachable_after_pump: "reachable cron sv \<Longrightarrow> reachable cron (snd (after_pump v (pump now sv)))"
  using reachable_pump [of cron sv now] by (auto simp: after_pump_def split: prod.split option.split)

lemma reachable_cancel:
  assumes "reachable cron sv"
  shows "reachable cron (snd (case cancel_execution now i a b sv of Inl e \<Rightarrow> (Inl e, sv) | Inr p \<Rightarrow> after_pump v p))"
proof (cases "cancel_execution now i a b sv")
  case (Inr p)
  obtain e sv' where p: "p = (e, sv')" by (cases p)
  have "reachable cron sv'" using reachable.step [OF assms service_step.cancelled] Inr p by blast
  then show ?thesis using Inr p by (auto simp: after_pump_def split: option.split)
qed (use assms in simp)

lemma reachable_groups_pump:
  assumes "reachable cron sv"
  shows "reachable cron (snd (case pump now sv of (None, sv') \<Rightarrow> groups_answer sv' | (Some e, sv') \<Rightarrow> (Inl e, sv')))"
  using reachable_pump [OF assms, of now] by (auto simp: groups_answer_def split: prod.split option.split)

lemma reachable_concurrency: "reachable cron sv \<Longrightarrow> reachable cron (snd (post_concurrency now s body sv))"
  unfolding post_concurrency_def
  by (auto split: sum.split intro: reachable_groups_pump reachable.step [OF _ service_step.configured])

lemma reachable_group:
  assumes "reachable cron sv"
  shows "reachable cron (snd (post_group now s body sv))"
proof -
  define given where "given = (case prop_of body ''id'' of VStr g \<Rightarrow> g | _ \<Rightarrow> [])"
  define d1 where "d1 = (if given \<noteq> [] then sv_db sv else (sv_db sv)\<lparr>draws := Suc (draws (sv_db sv))\<rparr>)"
  have "elsewhere (sv_db sv) ((sv_db sv)\<lparr>draws := Suc (draws (sv_db sv))\<rparr>)" "elsewhere (sv_db sv) (sv_db sv)" by (simp_all add: elsewhere_def)
  then have r1: "reachable cron (sv\<lparr>sv_db := d1\<rparr>)" unfolding d1_def using assms reachable_db by simp
  have "reachable cron (snd (case assign_group now ids g nm n (sn_user s) d1 of
      Inl e \<Rightarrow> (Inl e, sv)
    | Inr d \<Rightarrow> (case pump now (sv\<lparr>sv_db := d\<rparr>) of (None, sv') \<Rightarrow> groups_answer sv' | (Some e, sv') \<Rightarrow> (Inl e, sv'))))"
    for ids g nm n
  proof (cases "assign_group now ids g nm n (sn_user s) d1")
    case (Inr d)
    then have "reachable cron (sv\<lparr>sv_db := d\<rparr>)"
      using reachable.step [OF r1 service_step.grouped [of now ids g nm n "sn_user s" "sv\<lparr>sv_db := d1\<rparr>" d cron]] by simp
    from reachable_groups_pump [OF this] Inr show ?thesis by simp
  qed (simp add: assms)
  then show ?thesis using assms
    unfolding post_group_def Let_def given_def [symmetric] d1_def [symmetric]
    by (simp split: jsv.split option.split)
qed

text \<open>The interface of the executions goes through the operations of the service alone: a call takes
  a reachable state of the service to a reachable state, whatever the request, its session and its body are.
  All invariants of the reachable states hold behind the interface.\<close>

theorem execution_calls_stay_reachable:
  assumes "reachable cron sv"
  shows "reachable cron (snd (execution_handler rq now c sv))"
proof -
  have admin: "(\<And>s. reachable cron (snd (f s))) \<Longrightarrow> reachable cron (snd (with_admin rq now sv f))" for f
    using assms by (simp add: with_admin_def split: sum.split)
  have user: "(\<And>s. reachable cron (snd (f s))) \<Longrightarrow> reachable cron (snd (with_session rq now sv f))" for f
    using assms by (simp add: with_session_def split: sum.split)
  note parts = execution_handler_def get_view_def post_execution_def post_historical_def post_retry_def post_cancel_def
    post_priority_def configure_groups_def groups_answer_def
  show ?thesis
  proof (cases c)
    case (PostRetry i body)
    then show ?thesis unfolding parts
      by (auto intro!: admin reachable_started service_step.retried simp: assms split: jsv.split)
  next
    case (PostCancel i body)
    then show ?thesis unfolding parts
      by (auto intro!: admin reachable_cancel simp: assms split: jsv.split)
  next
    case (PostPriority i)
    then show ?thesis unfolding parts
      by (auto intro!: admin reachable_after_pump intro: reachable.step [OF assms service_step.prioritized]
          simp: assms move_ahead_def split: sum.split)
  next
    case (PostGroups body)
    then show ?thesis unfolding parts using assms by (auto intro!: admin reachable_concurrency reachable_group)
  next
    case (PostExecution job)
    then show ?thesis unfolding parts by (auto intro!: admin reachable_started service_step.enqueued simp: assms)
  next
    case (PostHistoricalRetry run)
    then show ?thesis unfolding parts by (auto intro!: admin reachable_started service_step.retried_run simp: assms)
  qed (auto simp: parts assms split: sum.split intro!: admin user)
qed

section \<open>What a dispatch leaves alone\<close>

text \<open>The columns that say what an execution is.\<close>

definition identity :: "exec_row \<Rightarrow> id \<times> id \<times> trigger \<times> id option \<times> id option \<times> int" where
  "identity e = (e_id e, e_job e, e_trigger e, e_parent e, e_actor e, e_priority e)"

lemma identity_update:
  assumes "\<And>e. identity (f e) = identity e"
  shows "map identity (update_where P f es) = map identity es"
  using assms by (simp add: update_where_def)

definition dispatched :: "service \<Rightarrow> service \<Rightarrow> bool" where
  "dispatched sv sv' =
     (map identity (executions (sv_db sv')) = map identity (executions (sv_db sv)) \<and> settings (sv_db sv') = settings (sv_db sv)
      \<and> source_groups (sv_db sv') = source_groups (sv_db sv) \<and> connections (sv_db sv') = connections (sv_db sv)
      \<and> (\<exists>ws. sv_workers sv' = sv_workers sv @ ws))"

lemma dispatched_refl: "dispatched sv sv"
  by (simp add: dispatched_def)

lemma dispatched_trans: "dispatched a b \<Longrightarrow> dispatched b c \<Longrightarrow> dispatched a c"
  by (auto simp: dispatched_def)

lemma set_wait_dispatched: "dispatched sv (sv\<lparr>sv_db := set_wait i r (sv_db sv)\<rparr>)"
  by (simp add: dispatched_def set_wait_def)

lemma start_dispatched:
  assumes "start_attempt now q d = Inr (ctx, d')"
  shows "dispatched (sv\<lparr>sv_db := d\<rparr>) (sv\<lparr>sv_db := d', sv_workers := sv_workers sv @ [w]\<rparr>)"
proof -
  obtain p where d': "d' = start_writes now p d" using assms by (auto simp: start_attempt_def split: option.splits if_splits)
  have "map identity (executions d') = map identity (executions d)"
    unfolding d' start_writes_def Let_def update_execs_def by (simp add: identity_update identity_def)
  then show ?thesis by (simp add: dispatched_def d' start_writes_def Let_def)
qed

lemma pump_loop_dispatched: "pump_loop now limit qs sv = (e, sv') \<Longrightarrow> dispatched sv sv'"
proof (induction now limit qs sv arbitrary: e sv' rule: pump_loop.induct)
  case (1 now limit sv)
  then show ?case by (simp add: dispatched_refl)
next
  case (2 now limit q qs sv)
  define r where "r = wait_reason_for now limit sv q"
  define d1 where "d1 = set_wait (q_pair q) r (sv_db sv)"
  have d1: "dispatched sv (sv\<lparr>sv_db := d1\<rparr>)" unfolding d1_def by (rule set_wait_dispatched)
  show ?case
  proof (cases "r = None")
    case False
    with 2(3) have "pump_loop now limit qs (sv\<lparr>sv_db := d1\<rparr>) = (e, sv')" by (simp add: Let_def r_def d1_def)
    from 2(1) [OF r_def d1_def _ this] False show ?thesis using d1 dispatched_trans by simp
  next
    case True
    show ?thesis
    proof (cases "start_attempt now (q_pair q) d1")
      case (Inl x)
      with 2(3) True have "sv' = sv\<lparr>sv_db := d1\<rparr>" by (simp add: Let_def r_def d1_def)
      with d1 show ?thesis by simp
    next
      case (Inr y)
      obtain ctx d2 where y: "y = (ctx, d2)" by (cases y)
      let ?sv = "sv\<lparr>sv_db := d2, sv_workers := sv_workers sv @ [new_worker q ctx]\<rparr>"
      have "pump_loop now limit qs ?sv = (e, sv')" using 2(3) True Inr y by (simp add: Let_def r_def d1_def)
      from 2(2) [OF r_def d1_def _ Inr y [symmetric] this] True have "dispatched ?sv sv'" by simp
      with start_dispatched [of now "q_pair q" d1 ctx d2 sv "new_worker q ctx"] Inr y d1 show ?thesis by (blast intro: dispatched_trans)
    qed
  qed
qed

lemma pump_dispatched: "dispatched sv (snd (pump now sv))"
proof (cases "pump now sv")
  case (Pair e sv')
  then show ?thesis by (auto simp: pump_def dispatched_refl pump_loop_dispatched split: if_splits)
qed

section \<open>Who may call, and what a call does\<close>

text \<open>A new execution \<open>e\<close> of the actor \<open>user\<close>, with pairs of its own, queued and not started; nothing else changed in the
  queue.\<close>

definition queued_new :: "id \<Rightarrow> service \<Rightarrow> service \<Rightarrow> exec_row \<Rightarrow> bool" where
  "queued_new user sv sv' e =
     (executions (sv_db sv') = executions (sv_db sv) @ [e] \<and> e_id e \<notin> e_id ` set (executions (sv_db sv))
      \<and> e_status e = EQueued \<and> e_actor e = Some user \<and> sv_workers sv' = sv_workers sv
      \<and> (\<exists>new. pairs (sv_db sv') = pairs (sv_db sv) @ new \<and> new \<noteq> [] \<and> (\<forall>p \<in> set new. p_execution p = e_id e \<and> p_status p = PQueued)))"

text \<open>The effect of a call by the user \<open>user\<close> that changed something, for each call of the interface.\<close>

definition call_effect :: "id \<Rightarrow> execution_call \<Rightarrow> execution_value result \<Rightarrow> service \<Rightarrow> service \<Rightarrow> bool" where
  "call_effect user c answer sv sv' =
     (case c of
        PostExecution job \<Rightarrow>
          (\<exists>e. answer = Inr (XStarted (e_id e)) \<and> queued_new user sv sv' e \<and> e_job e = job \<and> e_trigger e = Manual \<and> e_parent e = None)
      | PostHistoricalRetry run \<Rightarrow>
          (\<exists>e r. answer = Inr (XStarted (e_id e)) \<and> queued_new user sv sv' e \<and> find_run (sv_db sv) run = Some r
             \<and> r_status r \<in> {''failed'', ''retrying''} \<and> e_job e = r_job r \<and> e_trigger e = Retry \<and> e_parent e = None
             \<and> (\<forall>p \<in> set (pairs_of (sv_db sv') (e_id e)). r_connection r = Some (p_connection p) \<and> r_target r = Some (p_target p)))
      | PostRetry i body \<Rightarrow>
          (\<exists>e old vs. answer = Inr (XStarted (e_id e)) \<and> queued_new user sv sv' e \<and> find_exec (sv_db sv) i = Some old
             \<and> e_job e = e_job old \<and> e_trigger e = Retry \<and> e_parent e = Some i \<and> prop_of body ''pairs'' = VArr vs
             \<and> list_all2 (\<lambda>v p. \<exists>kvs. v = VObj kvs \<and> prop_of kvs ''connectionId'' = VStr (p_connection p)
                  \<and> prop_of kvs ''storageTargetId'' = VStr (p_target p)) vs (pairs_of (sv_db sv') (e_id e)))
      | PostCancel i body \<Rightarrow>
          find_exec (sv_db sv) i \<noteq> None
          \<and> ((\<exists>p \<in> set (pairs_of (sv_db sv) i). p_status p = PRunning) \<longrightarrow> prop_of body ''stopRunningConfirmed'' = VBool True)
          \<and> (\<forall>w \<in> set (sv_workers sv). w_pair w \<notin> p_id ` set (pairs_of (sv_db sv) i) \<longrightarrow> w \<in> set (sv_workers sv'))
      | PostPriority i \<Rightarrow>
          (\<exists>e e'. find_exec (sv_db sv) i = Some e \<and> e_status e = EQueued \<and> find_exec (sv_db sv') i = Some e'
             \<and> (\<forall>f \<in> set (executions (sv_db sv')). e_id f \<noteq> i \<longrightarrow> e_priority f < e_priority e'))
      | PostGroups body \<Rightarrow>
          (if prop_of body ''globalConcurrency'' \<noteq> VUndefined
           then \<exists>n. prop_of body ''globalConcurrency'' = VInt n \<and> 1 \<le> n \<and> n \<le> 32
                  \<and> settings (sv_db sv') ''execution_concurrency'' = Some (show_int n)
           else \<exists>nm ids g n. prop_of body ''name'' = VStr nm \<and> strings_of (prop_of body ''connectionIds'') = Some ids
                  \<and> prop_of body ''concurrency'' = VInt n \<and> 1 \<le> n \<and> n \<le> 8
                  \<and> (\<exists>r \<in> set (source_groups (sv_db sv')). g_id r = g \<and> g_name r = trim nm \<and> g_concurrency r = n)
                  \<and> (\<forall>x \<in> set (connections (sv_db sv')). c_id x \<in> set ids \<longrightarrow> c_group x = Some g))
      | _ \<Rightarrow> False)"

lemma inserted_new:
  assumes inv: "store_inv d1" and ins: "insert_execution now job trig (Some user) None parent pls d1 = Inr (i, d')"
    and same: "same_queue (sv_db sv) d1" and ne: "pls \<noteq> []" and d: "pairs d'' = pairs d'" "executions d'' = executions d'"
  shows "queued_new user sv (sv\<lparr>sv_db := d''\<rparr>) (new_exec i job trig None now parent (Some user) (next_sequence d1))"
proof -
  have new: "scheduled_exec d1 job None = None" by (simp add: scheduled_exec_def)
  have I: "i = uuid (draws d1)" "executions d' = executions d1 @ [new_exec i job trig None now parent (Some user) (next_sequence d1)]"
    "pairs d' = pairs d1 @ new_pairs i (Suc (draws d1)) pls"
    "map p_snapshot (new_pairs i (Suc (draws d1)) pls) = map pp_snapshot pls"
    using ins new by (auto elim!: insert_execution_cases)
  have "i \<notin> e_id ` set (executions d1)" using fresh_uuid(1) [OF inv order_refl] I(1) by simp
  moreover have "new_pairs i (Suc (draws d1)) pls \<noteq> []" using I(4) ne by auto
  moreover have "\<forall>p \<in> set (new_pairs i (Suc (draws d1)) pls). p_execution p = i \<and> p_status p = PQueued" using new_pairs_rows by blast
  moreover have "executions d1 = executions (sv_db sv)" "pairs d1 = pairs (sv_db sv)" using same by (simp_all add: same_queue_def)
  moreover have "e_actor (new_exec i job trig None now parent (Some user) (next_sequence d1)) = Some user" by (simp add: new_exec_def)
  ultimately show ?thesis by (auto simp: queued_new_def I(2,3) d)
qed

lemma execution_effect:
  assumes inv: "store_inv (sv_db sv)" and run: "started sv (enqueue now job Manual (Some user) None (sv_db sv)) = (answer, sv')" and "sv' \<noteq> sv"
  shows "call_effect user (PostExecution job) answer sv sv'"
proof -
  obtain i d' where e: "enqueue now job Manual (Some user) None (sv_db sv) = Inr (i, d')" and a: "answer = Inr (XStarted i)" "sv' = sv\<lparr>sv_db := d'\<rparr>"
    using run assms(3) by (auto simp: started_def split: sum.splits)
  from e show ?thesis
  proof (rule enqueue_Inr)
    fix j pls d1 assume ins: "insert_execution now job Manual (Some user) None None pls d1 = Inr (i, d')" and s: "same_queue (sv_db sv) d1" "pls \<noteq> []"
    let ?e = "new_exec i job Manual None now None (Some user) (next_sequence d1)"
    have "queued_new user sv sv' ?e" unfolding a(2) by (rule inserted_new [OF same_queue_inv [OF s(1) inv] ins s refl refl])
    then show ?thesis unfolding call_effect_def by (intro execution_call.case(3) [THEN iffD2] exI [of _ ?e]) (simp add: a(1) new_exec_def)
  qed
qed

lemma historical_effect:
  assumes inv: "store_inv (sv_db sv)" and run: "started sv (retry_historical now r user (sv_db sv)) = (answer, sv')" and "sv' \<noteq> sv"
  shows "call_effect user (PostHistoricalRetry r) answer sv sv'"
proof -
  obtain i d' where e: "retry_historical now r user (sv_db sv) = Inr (i, d')" and a: "answer = Inr (XStarted i)" "sv' = sv\<lparr>sv_db := d'\<rparr>"
    using run assms(3) by (auto simp: started_def split: sum.splits)
  then obtain row conn target s g d1 d2 where row: "find_run (sv_db sv) r = Some row" "r_status row \<in> {''failed'', ''retrying''}"
    and h: "historical_snapshot row (find_job (sv_db sv) (r_job row)) = Inr (conn, target, s)" and g: "source_group conn (sv_db sv) = (g, d1)"
    and ins: "insert_execution now (r_job row) Retry (Some user) None None
        [\<lparr>pp_connection = conn, pp_target = target, pp_required = True, pp_group = g, pp_snapshot = s\<rparr>] d1 = Inr (i, d2)"
    and d': "pairs d' = pairs d2" "executions d' = executions d2"
    by (auto simp: retry_historical_def split: sum.splits option.splits if_splits prod.splits)
  have ct: "r_connection row = Some conn" "r_target row = Some target"
    using h by (auto simp: historical_snapshot_def split: option.splits if_splits jtext.splits sum.splits)
  note same = source_group_same [OF g]
  note inv1 = same_queue_inv [OF same inv]
  let ?e = "new_exec i (r_job row) Retry None now None (Some user) (next_sequence d1)"
  have q: "queued_new user sv sv' ?e" unfolding a(2) by (rule inserted_new [OF inv1 ins same _ d']) simp
  have "map (\<lambda>p. (p_connection p, p_target p, p_required p)) (pairs_of d2 i) = [(conn, target, True)]"
    using insert_execution_new(3) [OF inv1 _ ins] by (simp add: scheduled_exec_def)
  moreover have "pairs_of d' i = pairs_of d2 i" by (simp add: pairs_of_def d'(1))
  ultimately have "\<forall>p \<in> set (pairs_of d' i). p_connection p = conn \<and> p_target p = target"
    by (cases "pairs_of d2 i") auto
  with q row ct show ?thesis unfolding call_effect_def
    by (intro execution_call.case(4) [THEN iffD2] exI [of _ ?e] exI [of _ row]) (simp add: a new_exec_def)
qed

lemma retry_effect:
  assumes inv: "store_inv (sv_db sv)" and b: "prop_of body ''pairs'' = VArr vs" "\<not> list_ex (\<lambda>v. selection_of_body v = None) vs"
    and run: "started sv (retry_execution now i (map (\<lambda>v. the (selection_of_body v)) vs) user (sv_db sv)) = (answer, sv')" and "sv' \<noteq> sv"
  shows "call_effect user (PostRetry i body) answer sv sv'"
proof -
  let ?sels = "map (\<lambda>v. the (selection_of_body v)) vs"
  obtain k d' where e: "retry_execution now i ?sels user (sv_db sv) = Inr (k, d')" and a: "answer = Inr (XStarted k)" "sv' = sv\<lparr>sv_db := d'\<rparr>"
    using run assms(5) by (auto simp: started_def split: sum.splits)
  have cols: "map (\<lambda>p. (p_connection p, p_target p)) (pairs_of d' k) = map (\<lambda>s. (sel_connection s, sel_target s)) ?sels"
    using retry_covers_the_selection [OF inv e] by blast
  have "list_all2 (\<lambda>v p. \<exists>kvs. v = VObj kvs \<and> prop_of kvs ''connectionId'' = VStr (p_connection p)
      \<and> prop_of kvs ''storageTargetId'' = VStr (p_target p)) vs (pairs_of d' k)"
  proof (unfold list_all2_conv_all_nth, intro conjI allI impI)
    show len: "length vs = length (pairs_of d' k)" using cols by (metis length_map)
    fix n assume n: "n < length vs"
    then have "selection_of_body (vs ! n) \<noteq> None" using b(2) by (auto simp: list_ex_iff)
    then obtain kvs c t where v: "vs ! n = VObj kvs" "prop_of kvs ''connectionId'' = VStr c" "prop_of kvs ''storageTargetId'' = VStr t"
      "the (selection_of_body (vs ! n)) = \<lparr>sel_connection = c, sel_target = t\<rparr>"
      by (auto simp: selection_of_body_def split: jsv.splits)
    have "(p_connection (pairs_of d' k ! n), p_target (pairs_of d' k ! n)) = (c, t)"
      using arg_cong [OF cols, of "\<lambda>l. l ! n"] n len v(4) by simp
    with v show "\<exists>kvs. vs ! n = VObj kvs \<and> prop_of kvs ''connectionId'' = VStr (p_connection (pairs_of d' k ! n))
        \<and> prop_of kvs ''storageTargetId'' = VStr (p_target (pairs_of d' k ! n))" by simp
  qed
  moreover from e obtain old pls d1 where old: "find_exec (sv_db sv) i = Some old" and s: "same_queue (sv_db sv) d1" "pls \<noteq> []"
    and ins: "insert_execution now (e_job old) Retry (Some user) None (Some i) pls d1 = Inr (k, d')"
    by (rule retry_execution_Inr) blast
  let ?e = "new_exec k (e_job old) Retry None now (Some i) (Some user) (next_sequence d1)"
  have "queued_new user sv sv' ?e" unfolding a(2) by (rule inserted_new [OF same_queue_inv [OF s(1) inv] ins s refl refl])
  ultimately show ?thesis using old b(1) unfolding call_effect_def
    by (intro execution_call.case(5) [THEN iffD2] exI [of _ ?e] exI [of _ old] exI [of _ vs]) (simp add: a new_exec_def)
qed

lemma after_pump_snd: "after_pump x p = (answer, sv') \<Longrightarrow> sv' = snd p"
  by (auto simp: after_pump_def split: prod.splits option.splits)

lemma cancel_effect:
  assumes run: "(case cancel_execution now i user b sv of Inl e \<Rightarrow> (Inl e, sv) | Inr p \<Rightarrow> after_pump (XStarted i) p) = (answer, sv')"
    and "sv' \<noteq> sv" and b: "b \<longrightarrow> prop_of body ''stopRunningConfirmed'' = VBool True"
  shows "call_effect user (PostCancel i body) answer sv sv'"
proof -
  obtain p where p: "cancel_execution now i user b sv = Inr p" and sv': "sv' = snd p"
    using run assms(2) by (cases "cancel_execution now i user b sv") (auto dest: after_pump_snd)
  then obtain v d ws where v: "get_execution (sv_db sv) i = Inr v" and run: "PRunning \<in> set (map pv_status (ev_pairs v)) \<longrightarrow> b"
    and ws: "ws = abort_workers (\<lambda>p. p \<in> set (map pv_id (ev_pairs v))) CancelledByAdmin (sv_workers sv)"
    and r: "p = pump now (sv\<lparr>sv_db := d, sv_workers := ws\<rparr>)"
    by (auto simp: cancel_execution_def split: sum.splits if_splits)
  have e: "find_exec (sv_db sv) i \<noteq> None" and views: "ev_pairs v = map (view_pair (sv_db sv)) (pairs_of (sv_db sv) i)"
    using v by (auto simp: get_execution_def split: option.splits)
  have ids: "set (map pv_id (ev_pairs v)) = p_id ` set (pairs_of (sv_db sv) i)" "set (map pv_status (ev_pairs v)) = p_status ` set (pairs_of (sv_db sv) i)"
    by (simp_all add: views view_pair_def image_image)
  have c: "PRunning \<in> p_status ` set (pairs_of (sv_db sv) i) \<longrightarrow> b" using run unfolding ids .
  obtain more where "sv_workers sv' = ws @ more"
    using pump_dispatched [of "sv\<lparr>sv_db := d, sv_workers := ws\<rparr>" now] r sv' by (auto simp: dispatched_def)
  moreover have "w \<in> set ws" if "w \<in> set (sv_workers sv)" "w_pair w \<notin> p_id ` set (pairs_of (sv_db sv) i)" for w
    using that unfolding ws ids abort_workers_def in_set_update_where by (intro bexI [of _ w]) simp_all
  moreover have "prop_of body ''stopRunningConfirmed'' = VBool True" if "\<exists>p \<in> set (pairs_of (sv_db sv) i). p_status p = PRunning"
    using c b that by (metis image_eqI)
  ultimately show ?thesis using e by (simp add: call_effect_def)
qed

lemma max_priority_ge: "e \<in> set (executions d) \<Longrightarrow> e_priority e \<le> max_priority d"
  using fold_max_ge by (cases "map e_priority (executions d)") (auto simp: max_priority_def dest!: map_eq_Cons_D)

lemma priority_effect:
  assumes inv: "store_inv (sv_db sv)"
    and run: "(case move_ahead now i user (sv_db sv) of Inl e \<Rightarrow> (Inl e, sv) | Inr d \<Rightarrow> after_pump (XStarted i) (pump now (sv\<lparr>sv_db := d\<rparr>))) = (answer, sv')"
    and "sv' \<noteq> sv"
  shows "call_effect user (PostPriority i) answer sv sv'"
proof -
  obtain d where d: "move_ahead now i user (sv_db sv) = Inr d" and sv': "sv' = snd (pump now (sv\<lparr>sv_db := d\<rparr>))"
    using run assms(3) by (cases "move_ahead now i user (sv_db sv)") (auto dest: after_pump_snd)
  let ?m = "max_priority (sv_db sv)"
  obtain e where e: "find_exec (sv_db sv) i = Some e" "e_status e = EQueued"
    and ex: "executions d = update_where (\<lambda>e. e_id e = i) (\<lambda>e. e\<lparr>e_priority := ?m + 1\<rparr>) (executions (sv_db sv))"
    using d by (auto simp: move_ahead_def prioritize_def update_execs_def split: sum.splits option.splits if_splits)
  have "map identity (executions (sv_db sv')) = map identity (executions d)"
    using pump_dispatched [of "sv\<lparr>sv_db := d\<rparr>" now] sv' by (simp add: dispatched_def)
  moreover have "map (\<lambda>e. (e_id e, e_priority e)) xs = map (\<lambda>(a, b, c, p, q, n). (a, n)) (map identity xs)" for xs
    by (simp add: identity_def)
  ultimately have same: "map (\<lambda>e. (e_id e, e_priority e)) (executions (sv_db sv')) = map (\<lambda>e. (e_id e, e_priority e)) (executions d)"
    by (simp only:)
  have row: "\<exists>g \<in> set (executions (sv_db sv)). e_id g = e_id f \<and> e_priority f = (if e_id f = i then ?m + 1 else e_priority g)"
    if "f \<in> set (executions (sv_db sv'))" for f
  proof -
    have "(e_id f, e_priority f) \<in> set (map (\<lambda>e. (e_id e, e_priority e)) (executions d))" using that unfolding same [symmetric] by auto
    then show ?thesis unfolding ex in_set_update_where set_map
      by (auto simp: image_iff in_set_update_where) blast+
  qed
  have "i \<in> fst ` set (map (\<lambda>e. (e_id e, e_priority e)) (executions d))"
  proof -
    have "e \<in> set (executions (sv_db sv))" "e_id e = i" using e(1) by (auto simp: find_exec_def dest!: find_SomeD)
    then have "e\<lparr>e_priority := ?m + 1\<rparr> \<in> set (executions d)" unfolding ex in_set_update_where by (intro bexI [of _ e]) simp_all
    then show ?thesis unfolding set_map image_image by (rule image_eqI [rotated]) (simp add: \<open>e_id e = i\<close>)
  qed
  then have "\<exists>f \<in> set (executions (sv_db sv')). e_id f = i" unfolding same [symmetric] by auto
  then obtain e' where e': "find_exec (sv_db sv') i = Some e'"
    by (cases "find_exec (sv_db sv') i") (auto simp: find_exec_def find_None_iff simp del: find_key_None)
  then have "e' \<in> set (executions (sv_db sv'))" "e_id e' = i" by (auto simp: find_exec_def dest!: find_SomeD)
  then have "e_priority e' = ?m + 1" using row [of e'] by auto
  moreover have "e_priority f \<le> ?m" if "f \<in> set (executions (sv_db sv'))" "e_id f \<noteq> i" for f
    using row [OF that(1)] that(2) max_priority_ge [of _ "sv_db sv"] by auto
  ultimately show ?thesis using e e' by (fastforce simp: call_effect_def)
qed

lemma groups_pump_db:
  assumes "(case pump now sv of (None, sv') \<Rightarrow> groups_answer sv' | (Some e, sv') \<Rightarrow> (Inl e, sv')) = (answer, sv'')"
  shows "dispatched sv sv''"
proof -
  obtain e sv' where p: "pump now sv = (e, sv')" by fastforce
  then have "sv'' = sv'" using assms by (auto simp: groups_answer_def split: option.splits)
  with pump_dispatched [of sv now] p show ?thesis by simp
qed

lemma concurrency_effect:
  assumes g: "prop_of body ''globalConcurrency'' \<noteq> VUndefined"
    and run: "post_concurrency now s body sv = (answer, sv')" and "sv' \<noteq> sv"
  shows "call_effect (sn_user s) (PostGroups body) answer sv sv'"
proof -
  let ?n = "body_int (prop_of body ''globalConcurrency'')"
  obtain d where d: "configure ?n (sn_user s) (sv_db sv) = Inr d"
    and r: "(case pump now (sv\<lparr>sv_db := d\<rparr>) of (None, sv') \<Rightarrow> groups_answer sv' | (Some e, sv') \<Rightarrow> (Inl e, sv')) = (answer, sv')"
    using run assms(3) unfolding post_concurrency_def
    by (cases "configure ?n (sn_user s) (sv_db sv)") (auto split: if_splits)
  have n: "1 \<le> ?n" "?n \<le> 32" "settings d ''execution_concurrency'' = Some (show_int ?n)"
    using d by (auto simp: configure_def split: sum.splits if_splits)
  then have "prop_of body ''globalConcurrency'' = VInt ?n" by (auto simp: body_int_def split: jsv.splits)
  moreover have "settings (sv_db sv') = settings d" using groups_pump_db [OF r] by (simp add: dispatched_def)
  ultimately have "\<exists>n. prop_of body ''globalConcurrency'' = VInt n \<and> 1 \<le> n \<and> n \<le> 32
      \<and> settings (sv_db sv') ''execution_concurrency'' = Some (show_int n)" using n by (intro exI [of _ ?n] conjI) simp_all
  with g show ?thesis by (simp add: call_effect_def)
qed

lemma group_effect:
  assumes g: "prop_of body ''globalConcurrency'' = VUndefined" and run: "post_group now s body sv = (answer, sv')" and "sv' \<noteq> sv"
  shows "call_effect (sn_user s) (PostGroups body) answer sv sv'"
proof -
  let ?n = "body_int (prop_of body ''concurrency'')"
  obtain nm ids gi d0 d where b: "prop_of body ''name'' = VStr nm" "strings_of (prop_of body ''connectionIds'') = Some ids"
    and d: "assign_group now ids gi (trim nm) ?n (sn_user s) d0 = Inr d"
    and r: "(case pump now (sv\<lparr>sv_db := d\<rparr>) of (None, sv') \<Rightarrow> groups_answer sv' | (Some e, sv') \<Rightarrow> (Inl e, sv')) = (answer, sv')"
    using run assms(3) unfolding post_group_def Let_def
    by (auto split: jsv.splits option.splits if_splits sum.splits)
  have n: "1 \<le> ?n" "?n \<le> 8" and sg: "source_groups d = source_groups (save_group gi (trim nm) ?n d0)"
    and co: "\<exists>cs. connections d = update_where (\<lambda>c. c_id c \<in> set ids) (\<lambda>c. c\<lparr>c_group := Some gi\<rparr>) cs"
    using d by (auto simp: assign_group_def Let_def set_group_def split: sum.splits if_splits)
  have "\<exists>r \<in> set (source_groups d). g_id r = gi \<and> g_name r = trim nm \<and> g_concurrency r = ?n"
  proof (cases "find_group d0 gi")
    case None
    then show ?thesis unfolding sg by (auto simp: save_group_def)
  next
    case (Some r)
    then have "r \<in> set (source_groups d0)" "g_id r = gi" by (auto simp: find_group_def dest!: find_SomeD)
    then have "r\<lparr>g_name := trim nm, g_concurrency := ?n\<rparr> \<in> set (source_groups d)"
      unfolding sg save_group_def using Some by (auto simp: in_set_update_where intro!: bexI [of _ r])
    with \<open>g_id r = gi\<close> show ?thesis by (intro bexI [of _ "r\<lparr>g_name := trim nm, g_concurrency := ?n\<rparr>"]) simp_all
  qed
  moreover have "\<forall>x \<in> set (connections d). c_id x \<in> set ids \<longrightarrow> c_group x = Some gi"
    using co by (auto simp: in_set_update_where)
  moreover have "prop_of body ''concurrency'' = VInt ?n" using n by (auto simp: body_int_def split: jsv.splits)
  moreover have "source_groups (sv_db sv') = source_groups d" "connections (sv_db sv') = connections d"
    using groups_pump_db [OF r] by (simp_all add: dispatched_def)
  ultimately show ?thesis using g b n by (simp add: call_effect_def) blast
qed

lemma call_by_admin:
  assumes inv: "store_inv (sv_db sv)" and run: "execution_handler rq now c sv = (answer, sv')" and "sv' \<noteq> sv"
  shows "\<exists>s. require_admin rq now (sv_db sv) = Inr s \<and> call_effect (sn_user s) c answer sv sv'"
proof -
  have admin: "\<exists>s. require_admin rq now (sv_db sv) = Inr s \<and> f s = (answer, sv')" if "with_admin rq now sv f = (answer, sv')" for f
    using that assms(3) by (auto simp: with_admin_def split: sum.splits)
  have session: False if "with_session rq now sv f = (answer, sv')" "\<And>s. snd (f s) = sv" for f
    using that assms(3) by (auto simp: with_session_def split: sum.splits) (metis snd_conv)
  note unfold = run [unfolded execution_handler_def]
  show ?thesis
  proof (cases c)
    case GetExecutions
    with unfold session [of "\<lambda>s. (case list_query (rq_query rq) (sv_db sv) of Inl e \<Rightarrow> Inl e | Inr p \<Rightarrow> Inr (XPage p), sv)"] show ?thesis by simp
  next
    case (GetExecution i)
    have "snd (get_view rq now i sv) = sv" by (auto simp: get_view_def with_session_def split: sum.splits)
    with GetExecution unfold assms(3) show ?thesis by (metis execution_call.case(2) snd_conv)
  next
    case (PostExecution job)
    with unfold admin [of "\<lambda>s. started sv (enqueue now job Manual (Some (sn_user s)) None (sv_db sv))"] show ?thesis
      using execution_effect [OF inv _ assms(3)] by (auto simp: post_execution_def)
  next
    case (PostHistoricalRetry r)
    with unfold admin [of "\<lambda>s. started sv (retry_historical now r (sn_user s) (sv_db sv))"] show ?thesis
      using historical_effect [OF inv _ assms(3)] by (auto simp: post_historical_def)
  next
    case (PostRetry i body)
    from admin [OF unfold [unfolded PostRetry execution_call.case post_retry_def]] obtain s where s: "require_admin rq now (sv_db sv) = Inr s"
      and r: "(case prop_of body ''pairs'' of
         VArr vs \<Rightarrow> (if list_ex (\<lambda>v. selection_of_body v = None) vs then (Inl (BadRequest ''Select valid execution pairs''), sv)
          else started sv (retry_execution now i (map (\<lambda>v. the (selection_of_body v)) vs) (sn_user s) (sv_db sv)))
       | _ \<Rightarrow> (Inl (BadRequest ''Select valid execution pairs''), sv)) = (answer, sv')" by blast
    then obtain vs where "prop_of body ''pairs'' = VArr vs" "\<not> list_ex (\<lambda>v. selection_of_body v = None) vs"
      "started sv (retry_execution now i (map (\<lambda>v. the (selection_of_body v)) vs) (sn_user s) (sv_db sv)) = (answer, sv')"
      using assms(3) by (auto split: jsv.splits if_splits)
    from retry_effect [OF inv this assms(3)] s PostRetry show ?thesis by blast
  next
    case (PostCancel i body)
    from admin [OF unfold [unfolded PostCancel execution_call.case post_cancel_def]] obtain s where s: "require_admin rq now (sv_db sv) = Inr s"
      and r: "(case prop_of body ''stopRunningConfirmed'' of
         VUndefined \<Rightarrow> (case cancel_execution now i (sn_user s) False sv of Inl e \<Rightarrow> (Inl e, sv) | Inr p \<Rightarrow> after_pump (XStarted i) p)
       | VBool b \<Rightarrow> (case cancel_execution now i (sn_user s) b sv of Inl e \<Rightarrow> (Inl e, sv) | Inr p \<Rightarrow> after_pump (XStarted i) p)
       | _ \<Rightarrow> (Inl (BadRequest ''Invalid stop confirmation''), sv)) = (answer, sv')" by blast
    then obtain b where "(case cancel_execution now i (sn_user s) b sv of Inl e \<Rightarrow> (Inl e, sv) | Inr p \<Rightarrow> after_pump (XStarted i) p) = (answer, sv')"
      "b \<longrightarrow> prop_of body ''stopRunningConfirmed'' = VBool True"
      using assms(3) by (cases "prop_of body ''stopRunningConfirmed''") auto
    from cancel_effect [OF this(1) assms(3) this(2)] s PostCancel show ?thesis by blast
  next
    case (PostPriority i)
    from admin [OF unfold [unfolded PostPriority execution_call.case post_priority_def]] show ?thesis
      using priority_effect [OF inv _ assms(3)] PostPriority by blast
  next
    case GetProtection
    with unfold session [of "\<lambda>s. (Inr (XAssessments (assess (sv_db sv) now)), sv)"] show ?thesis by simp
  next
    case GetGroups
    with unfold session [of "\<lambda>s. groups_answer sv"] show ?thesis by (simp add: groups_answer_def)
  next
    case (PostGroups body)
    from admin [OF unfold [unfolded PostGroups execution_call.case configure_groups_def]] obtain s where s: "require_admin rq now (sv_db sv) = Inr s"
      and r: "(if prop_of body ''globalConcurrency'' \<noteq> VUndefined then post_concurrency now s body sv else post_group now s body sv) = (answer, sv')" by blast
    have "call_effect (sn_user s) c answer sv sv'"
    proof (cases "prop_of body ''globalConcurrency'' = VUndefined")
      case True
      with r show ?thesis unfolding PostGroups by (intro group_effect [OF True _ assms(3)]) simp
    next
      case False
      with r show ?thesis unfolding PostGroups by (intro concurrency_effect [OF False _ assms(3)]) simp
    qed
    with s show ?thesis by blast
  next
    case GetDeliveries
    with unfold assms(3) show ?thesis by (auto simp: with_admin_def split: sum.splits)
  qed
qed


section \<open>The global concurrency\<close>

text \<open>\<open>tsconfig.json\<close> compiles to ES2022, where a declared field of a class is an own property of every
  instance; with \<open>transform: true\<close> the pipe answers an instance of the DTO class. So the body has every
  declared field among its own properties.\<close>

definition instance_pipe :: "(dto \<Rightarrow> json_body \<Rightarrow> json_body option) \<Rightarrow> bool" where
  "instance_pipe pipe = (\<forall>dto body out. pipe dto body = Some out \<longrightarrow> set (map fname dto) \<subseteq> set (map fst out))"

text \<open>The interface never sets the global concurrency: a validated body that has the property globalConcurrency is
  refused, because as an instance of its class it always has the other declared properties too.\<close>

theorem global_concurrency_is_refused:
  assumes "instance_pipe pipe" and "pipe source_group_dto body = Some out"
    and "prop_of out ''globalConcurrency'' \<noteq> VUndefined" and "require_admin rq now (sv_db sv) = Inr s"
  shows "execution_handler rq now (PostGroups out) sv = (Inl (BadRequest ''Submit global concurrency separately''), sv)"
proof -
  have "''name'' \<in> set (map fst out)"
  proof -
    have "''name'' \<in> set (map fname source_group_dto)" by (simp add: source_group_dto_def optional_def)
    with assms(1,2) show ?thesis unfolding instance_pipe_def by blast
  qed
  then have "list_ex (\<lambda>k. k \<noteq> ''globalConcurrency'') (map fst out)" unfolding list_ex_iff by (intro bexI [of _ "''name''"]) simp_all
  then show ?thesis using assms(3,4) by (simp add: execution_handler_def configure_groups_def with_admin_def post_concurrency_def)
qed

end
