(* ===== verification/Realtime.thy ===== *)
theory Realtime
  imports Control_Db Js_Text
begin

text \<open>
  Server-sent events (\<open>src/system/realtime.service.ts\<close> and \<open>src/system/realtime.controller.ts\<close>): the open
  connections, the topics each may receive, the snapshots and their fingerprints, and every way an event
  is written. Parameters of an operation are the validator, which gives the user and the role of the
  session of a token at that moment, the connections whose response can still be written, and the
  snapshot providers (\<open>None\<close>: no provider, nothing to send, or the provider throws).
\<close>

section \<open>Connections\<close>

type_synonym topic = string
type_synonym connection_id = "time \<times> nat"

text \<open>The identifier is written with both numbers in base 36 and a hyphen between them.\<close>

record rt_connection =
  cn_id :: connection_id
  cn_user :: id
  cn_role :: string
  cn_ip :: string
  cn_token :: string
  cn_query :: query
  cn_topics :: "topic list"
  cn_connected :: time
  cn_prints :: "topic \<rightharpoonup> digest"

text \<open>An event that was written: where, to which session, its topic and its payload.\<close>

record sent_event =
  se_id :: connection_id
  se_user :: id
  se_token :: string
  se_topic :: topic
  se_payload :: json

record broker =
  rt_connections :: "rt_connection list"
  rt_pending :: "(topic \<times> json) list"
  rt_sequence :: nat
  rt_sent :: "sent_event list"

type_synonym validator = "(string \<Rightarrow> (id \<times> string) option) option"

definition max_connections_per_user :: nat where
  "max_connections_per_user = 5"

definition max_connections_per_ip :: nat where
  "max_connections_per_ip = 20"

definition allowed_topics :: "string \<Rightarrow> topic list" where
  "allowed_topics role =
     (let common = [''processes'', ''backup_runs'', ''storage_health'', ''downloads'', ''executions'', ''protection'']
      in if role = ''admin''
         then common @ [''sessions'', ''rate_limit'', ''updates'', ''recovery_tests'', ''pitr_rehearsals'', ''notification_deliveries'']
         else common)"

definition find_rt :: "connection_id \<Rightarrow> broker \<Rightarrow> rt_connection option" where
  "find_rt i b = List.find (\<lambda>c. cn_id c = i) (rt_connections b)"

definition update_rt :: "connection_id \<Rightarrow> (rt_connection \<Rightarrow> rt_connection) \<Rightarrow> broker \<Rightarrow> broker" where
  "update_rt i f b = b\<lparr>rt_connections := update_where (\<lambda>c. cn_id c = i) f (rt_connections b)\<rparr>"

definition close_rt :: "connection_id \<Rightarrow> broker \<Rightarrow> broker" where
  "close_rt i b = b\<lparr>rt_connections := filter (\<lambda>c. cn_id c \<noteq> i) (rt_connections b)\<rparr>"

fun close_all_rt :: "connection_id list \<Rightarrow> broker \<Rightarrow> broker" where
  "close_all_rt [] b = b"
| "close_all_rt (i # is) b = close_all_rt is (close_rt i b)"

section \<open>Writing\<close>

text \<open>\<open>validate\<close>: a connection whose session is gone is closed; one whose role changed loses the topics
  that the role does not allow.\<close>

definition validate :: "validator \<Rightarrow> connection_id \<Rightarrow> broker \<Rightarrow> bool \<times> broker" where
  "validate v i b =
     (case find_rt i b of
        None \<Rightarrow> (False, b)
      | Some c \<Rightarrow>
          (case v of
             None \<Rightarrow> (True, b)
           | Some who \<Rightarrow>
               (case who (cn_token c) of
                  None \<Rightarrow> (False, close_rt i b)
                | Some (user, role) \<Rightarrow>
                    if user \<noteq> cn_user c then (False, close_rt i b)
                    else (True, update_rt i (\<lambda>c. c\<lparr>cn_role := role,
                            cn_topics := filter (\<lambda>t. t \<in> set (allowed_topics role)) (cn_topics c),
                            cn_prints := (\<lambda>t. if t \<in> set (cn_topics c) \<and> t \<notin> set (allowed_topics role) then None else cn_prints c t)\<rparr>) b))))"

definition write_raw :: "(connection_id \<Rightarrow> bool) \<Rightarrow> connection_id \<Rightarrow> topic \<Rightarrow> json \<Rightarrow> broker \<Rightarrow> bool \<times> broker" where
  "write_raw writable i t payload b =
     (case find_rt i b of
        None \<Rightarrow> (False, b)
      | Some c \<Rightarrow>
          if writable i
          then (True, b\<lparr>rt_sent := rt_sent b @ [\<lparr>se_id = i, se_user = cn_user c, se_token = cn_token c, se_topic = t, se_payload = payload\<rparr>]\<rparr>)
          else (False, b))"

text \<open>\<open>writeEvent\<close> and the \<open>writeRaw\<close> it calls; both validate, with the same answer.\<close>

definition write_event :: "validator \<Rightarrow> (connection_id \<Rightarrow> bool) \<Rightarrow> connection_id \<Rightarrow> topic \<Rightarrow> json \<Rightarrow> broker \<Rightarrow> bool \<times> broker" where
  "write_event v writable i t payload b =
     (case validate v i b of
        (False, b1) \<Rightarrow> (False, b1)
      | (True, b1) \<Rightarrow>
          (case find_rt i b1 of
             None \<Rightarrow> (False, b1)
           | Some c \<Rightarrow> if t \<noteq> ''connected'' \<and> t \<notin> set (cn_topics c) then (True, b1)
                       else write_raw writable i t payload b1))"

definition has_topic :: "connection_id \<Rightarrow> topic \<Rightarrow> broker \<Rightarrow> bool" where
  "has_topic i t b = (case find_rt i b of None \<Rightarrow> False | Some c \<Rightarrow> t \<in> set (cn_topics c))"

definition remember_print :: "connection_id \<Rightarrow> topic \<Rightarrow> json \<Rightarrow> broker \<Rightarrow> broker" where
  "remember_print i t payload b =
     (if has_topic i t b then update_rt i (\<lambda>c. c\<lparr>cn_prints := (cn_prints c)(t \<mapsto> Sha256 payload)\<rparr>) b else b)"

section \<open>Publishing\<close>

fun publish_to :: "validator \<Rightarrow> (connection_id \<Rightarrow> bool) \<Rightarrow> topic \<Rightarrow> json \<Rightarrow> connection_id list \<Rightarrow> broker \<Rightarrow> broker" where
  "publish_to v writable t payload [] b = b"
| "publish_to v writable t payload (i # is) b =
     publish_to v writable t payload is
       (if \<not> has_topic i t b then b
        else case write_event v writable i t payload b of
               (False, b1) \<Rightarrow> close_rt i b1
             | (True, b1) \<Rightarrow> if t \<noteq> ''processes'' then remember_print i t payload b1 else b1)"

definition publish_rt :: "validator \<Rightarrow> (connection_id \<Rightarrow> bool) \<Rightarrow> topic \<Rightarrow> json \<Rightarrow> broker \<Rightarrow> broker" where
  "publish_rt v writable t payload b = publish_to v writable t payload (map cn_id (rt_connections b)) b"

fun publish_user_to :: "validator \<Rightarrow> (connection_id \<Rightarrow> bool) \<Rightarrow> topic \<Rightarrow> json \<Rightarrow> connection_id list \<Rightarrow> broker \<Rightarrow> broker" where
  "publish_user_to v writable t payload [] b = b"
| "publish_user_to v writable t payload (i # is) b =
     publish_user_to v writable t payload is
       (if \<not> has_topic i t b then b
        else case write_event v writable i t payload b of (False, b1) \<Rightarrow> close_rt i b1 | (True, b1) \<Rightarrow> b1)"

definition publish_to_user :: "validator \<Rightarrow> (connection_id \<Rightarrow> bool) \<Rightarrow> topic \<Rightarrow> id \<Rightarrow> json \<Rightarrow> broker \<Rightarrow> broker" where
  "publish_to_user v writable t user payload b =
     publish_user_to v writable t payload (map cn_id (filter (\<lambda>c. cn_user c = user) (rt_connections b))) b"

text \<open>\<open>publishThrottled\<close>: the first call starts a timer, the later ones replace what it will publish.\<close>

fun replace_pending :: "topic \<Rightarrow> json \<Rightarrow> (topic \<times> json) list \<Rightarrow> (topic \<times> json) list" where
  "replace_pending t payload [] = [(t, payload)]"
| "replace_pending t payload (x # xs) = (if fst x = t then (t, payload) # xs else x # replace_pending t payload xs)"

definition publish_throttled :: "topic \<Rightarrow> json \<Rightarrow> broker \<Rightarrow> broker" where
  "publish_throttled t payload b = b\<lparr>rt_pending := replace_pending t payload (rt_pending b)\<rparr>"

definition throttle_timer :: "validator \<Rightarrow> (connection_id \<Rightarrow> bool) \<Rightarrow> topic \<Rightarrow> broker \<Rightarrow> broker" where
  "throttle_timer v writable t b =
     (case map_of (rt_pending b) t of
        None \<Rightarrow> b
      | Some payload \<Rightarrow> publish_rt v writable t payload (b\<lparr>rt_pending := filter (\<lambda>x. fst x \<noteq> t) (rt_pending b)\<rparr>))"

section \<open>Snapshots\<close>

record snapshot_context =
  sx_user :: id
  sx_role :: string
  sx_ip :: string
  sx_token :: string
  sx_query :: query

definition context_of :: "rt_connection \<Rightarrow> snapshot_context" where
  "context_of c = \<lparr>sx_user = cn_user c, sx_role = cn_role c, sx_ip = cn_ip c, sx_token = cn_token c, sx_query = cn_query c\<rparr>"

type_synonym providers = "topic \<Rightarrow> snapshot_context \<Rightarrow> json option"

fun push_topics :: "validator \<Rightarrow> (connection_id \<Rightarrow> bool) \<Rightarrow> providers \<Rightarrow> connection_id \<Rightarrow> topic list \<Rightarrow> broker \<Rightarrow> broker" where
  "push_topics v writable ps i [] b = b"
| "push_topics v writable ps i (t # ts) b =
     (case find_rt i b of
        None \<Rightarrow> b
      | Some c \<Rightarrow>
          if t \<notin> set (cn_topics c) then push_topics v writable ps i ts b
          else (case ps t (context_of c) of
                  None \<Rightarrow> push_topics v writable ps i ts b
                | Some payload \<Rightarrow>
                    if payload = JNull \<or> t \<noteq> ''processes'' \<and> cn_prints c t = Some (Sha256 payload)
                    then push_topics v writable ps i ts b
                    else (case write_event v writable i t payload b of
                            (False, b1) \<Rightarrow> close_rt i b1
                          | (True, b1) \<Rightarrow> push_topics v writable ps i ts (remember_print i t payload b1))))"

definition push_connection_snapshots ::
  "validator \<Rightarrow> (connection_id \<Rightarrow> bool) \<Rightarrow> providers \<Rightarrow> connection_id \<Rightarrow> broker \<Rightarrow> broker" where
  "push_connection_snapshots v writable ps i b =
     (case validate v i b of
        (False, b1) \<Rightarrow> b1
      | (True, b1) \<Rightarrow> (case find_rt i b1 of None \<Rightarrow> b1 | Some c \<Rightarrow> push_topics v writable ps i (cn_topics c) b1))"

fun push_each :: "validator \<Rightarrow> (connection_id \<Rightarrow> bool) \<Rightarrow> providers \<Rightarrow> connection_id list \<Rightarrow> broker \<Rightarrow> broker" where
  "push_each v writable ps [] b = b"
| "push_each v writable ps (i # is) b =
     push_each v writable ps is (if find_rt i b = None then b else push_connection_snapshots v writable ps i b)"

definition push_snapshots :: "validator \<Rightarrow> (connection_id \<Rightarrow> bool) \<Rightarrow> providers \<Rightarrow> broker \<Rightarrow> broker" where
  "push_snapshots v writable ps b = push_each v writable ps (map cn_id (rt_connections b)) b"

section \<open>Connecting and disconnecting\<close>

definition oldest_surplus :: "nat \<Rightarrow> (rt_connection \<Rightarrow> bool) \<Rightarrow> broker \<Rightarrow> connection_id list" where
  "oldest_surplus limit P b =
     (let xs = sort_key cn_connected (filter P (rt_connections b)) in map cn_id (take (length xs + 1 - limit) xs))"

record connect_request =
  cq_user :: id
  cq_role :: string
  cq_ip :: string
  cq_token :: string
  cq_topics :: "string list"
  cq_query :: query

definition requested_topics :: "string \<Rightarrow> string list \<Rightarrow> topic list" where
  "requested_topics role ts =
     (let chosen = uniq (filter (\<lambda>t. t \<in> set (allowed_topics role)) ts)
      in if chosen = [] then allowed_topics role else chosen)"

definition connect_rt ::
  "validator \<Rightarrow> (connection_id \<Rightarrow> bool) \<Rightarrow> providers \<Rightarrow> time \<Rightarrow> connect_request \<Rightarrow> broker \<Rightarrow> broker" where
  "connect_rt v writable ps now q b =
     (let b1 = close_all_rt (oldest_surplus max_connections_per_user (\<lambda>c. cn_user c = cq_user q) b) b;
          b2 = close_all_rt (oldest_surplus max_connections_per_ip (\<lambda>c. cn_ip c = cq_ip q) b1) b1;
          i = (now, Suc (rt_sequence b2)); topics = requested_topics (cq_role q) (cq_topics q);
          c = \<lparr>cn_id = i, cn_user = cq_user q, cn_role = cq_role q, cn_ip = cq_ip q, cn_token = cq_token q, cn_query = cq_query q,
               cn_topics = topics, cn_connected = now, cn_prints = Map.empty\<rparr>;
          b3 = b2\<lparr>rt_connections := rt_connections b2 @ [c], rt_sequence := Suc (rt_sequence b2)\<rparr>;
          b4 = snd (write_event v writable i ''connected'' (JObj [(''topics'', JArr (map JStr topics)), (''reconnect'', JBool True)]) b3)
      in push_connection_snapshots v writable ps i b4)"

definition heartbeat :: "validator \<Rightarrow> (connection_id \<Rightarrow> bool) \<Rightarrow> connection_id \<Rightarrow> broker \<Rightarrow> broker" where
  "heartbeat v writable i b =
     (case validate v i b of (False, b1) \<Rightarrow> close_rt i b1 | (True, b1) \<Rightarrow> if writable i then b1 else close_rt i b1)"

definition disconnect_user :: "id \<Rightarrow> broker \<Rightarrow> broker" where
  "disconnect_user user b = b\<lparr>rt_connections := filter (\<lambda>c. cn_user c \<noteq> user) (rt_connections b)\<rparr>"

definition disconnect_all :: "broker \<Rightarrow> broker" where
  "disconnect_all b = b\<lparr>rt_connections := []\<rparr>"

definition shutdown_rt :: "broker \<Rightarrow> broker" where
  "shutdown_rt b = disconnect_all (b\<lparr>rt_pending := []\<rparr>)"

text \<open>\<open>GET /api/events\<close>, behind \<open>requireSession\<close>: the topics of the query.\<close>

definition topics_of_query :: "string option \<Rightarrow> string list" where
  "topics_of_query v = filter (\<lambda>t. t \<noteq> []) (map trim (split_on (CHR '','') (case v of None \<Rightarrow> [] | Some s \<Rightarrow> s)))"

definition events_request :: "id \<Rightarrow> string \<Rightarrow> string \<Rightarrow> string option \<Rightarrow> query \<Rightarrow> connect_request" where
  "events_request user role ip cookie q =
     \<lparr>cq_user = user, cq_role = role, cq_ip = (if ip = [] then ''unknown'' else ip),
      cq_token = (case cookie of None \<Rightarrow> [] | Some t \<Rightarrow> t), cq_topics = topics_of_query (q ''topics''), cq_query = q\<rparr>"

section \<open>The steps\<close>

inductive rt_step :: "validator \<Rightarrow> broker \<Rightarrow> broker \<Rightarrow> bool" for v where
  connect: "rt_step v b (connect_rt v writable ps now q b)"
| publish: "rt_step v b (publish_rt v writable t payload b)"
| publish_user: "rt_step v b (publish_to_user v writable t user payload b)"
| throttle: "rt_step v b (publish_throttled t payload b)"
| timer: "rt_step v b (throttle_timer v writable t b)"
| snapshots: "rt_step v b (push_snapshots v writable ps b)"
| beat: "rt_step v b (heartbeat v writable i b)"
| closed: "rt_step v b (close_rt i b)"
| logout: "rt_step v b (disconnect_user user b)"
| logout_all: "rt_step v b (disconnect_all b)"
| shutdown: "rt_step v b (shutdown_rt b)"

definition start_broker :: broker where
  "start_broker = \<lparr>rt_connections = [], rt_pending = [], rt_sequence = 0, rt_sent = []\<rparr>"

text \<open>The answers of the validator change with the sessions.\<close>

inductive rt_reachable :: "broker \<Rightarrow> bool" where
  start: "rt_reachable start_broker"
| step: "rt_reachable b \<Longrightarrow> rt_step v b b' \<Longrightarrow> rt_reachable b'"

end
