(* ===== verification/Realtime_Props.thy ===== *)
theory Realtime_Props
  imports Realtime Prelude
begin

text \<open>
  An event reaches a connection only while its session lives and its role allows the topic; the numbers
  of connections per user and per address are bounded.
\<close>

section \<open>What an operation does to the connections and to the log\<close>

definition authorised :: "validator \<Rightarrow> sent_event \<Rightarrow> bool" where
  "authorised v e = (case v of None \<Rightarrow> True
     | Some who \<Rightarrow> (\<exists>role. who (se_token e) = Some (se_user e, role) \<and> (se_topic e = ''connected'' \<or> se_topic e \<in> set (allowed_topics role))))"

text \<open>A connection as the limits see it.\<close>

definition identity :: "rt_connection \<Rightarrow> connection_id \<times> id \<times> string" where
  "identity c = (cn_id c, cn_user c, cn_ip c)"

definition mild :: "validator \<Rightarrow> broker \<Rightarrow> broker \<Rightarrow> bool" where
  "mild v b b' = ((\<exists>new. rt_sent b' = rt_sent b @ new \<and> (\<forall>e \<in> set new. authorised v e))
     \<and> (\<exists>P. map identity (rt_connections b') = filter P (map identity (rt_connections b)))
     \<and> rt_sequence b' = rt_sequence b)"

lemma mild_refl [simp]: "mild v b b"
  by (auto simp: mild_def intro!: exI [of _ "[]"] exI [of _ "\<lambda>_. True"])

lemma mild_trans:
  assumes "mild v b b1" and "mild v b1 b2"
  shows "mild v b b2"
proof -
  obtain n1 P1 where 1: "rt_sent b1 = rt_sent b @ n1" "\<forall>e \<in> set n1. authorised v e"
    "map identity (rt_connections b1) = filter P1 (map identity (rt_connections b))" "rt_sequence b1 = rt_sequence b"
    using assms(1) unfolding mild_def by blast
  obtain n2 P2 where 2: "rt_sent b2 = rt_sent b1 @ n2" "\<forall>e \<in> set n2. authorised v e"
    "map identity (rt_connections b2) = filter P2 (map identity (rt_connections b1))" "rt_sequence b2 = rt_sequence b1"
    using assms(2) unfolding mild_def by blast
  have "rt_sent b2 = rt_sent b @ (n1 @ n2)" "\<forall>e \<in> set (n1 @ n2). authorised v e" using 1 2 by auto
  moreover have "map identity (rt_connections b2) = filter (\<lambda>x. P1 x \<and> P2 x) (map identity (rt_connections b))"
    unfolding 2(3) 1(3) filter_filter ..
  ultimately show ?thesis using 1(4) 2(4) unfolding mild_def by metis
qed

lemma mild_filter:
  assumes "rt_connections b' = filter P (rt_connections b)" and "\<And>c. P c = Q (identity c)"
    and "rt_sent b' = rt_sent b" and "rt_sequence b' = rt_sequence b"
  shows "mild v b b'"
proof -
  have "map identity (rt_connections b') = filter Q (map identity (rt_connections b))"
  proof -
    have "P = (\<lambda>c. Q (identity c))" using assms(2) by (rule ext)
    then show ?thesis unfolding assms(1) by (simp add: filter_map comp_def)
  qed
  then show ?thesis unfolding mild_def using assms(3,4) by (metis append_Nil2 empty_iff empty_set)
qed

named_theorems mildness

lemma mild_close [mildness]: "mild v b b' \<Longrightarrow> mild v b (close_rt i b')"
  by (erule mild_trans, rule mild_filter [where P = "\<lambda>c. cn_id c \<noteq> i" and Q = "\<lambda>x. fst x \<noteq> i"]) (simp_all add: close_rt_def identity_def)

lemma mild_update:
  assumes "\<And>c. identity (f c) = identity c"
  shows "mild v b (update_rt i f b)"
proof -
  have "map identity (rt_connections (update_rt i f b)) = filter (\<lambda>_. True) (map identity (rt_connections b))"
    using assms by (simp add: update_rt_def update_where_def comp_def)
  then show ?thesis unfolding mild_def by (auto simp: update_rt_def intro!: exI [of _ "[]"] exI [of _ "\<lambda>_. True"])
qed

lemma find_update: "(\<And>c. cn_id (f c) = cn_id c) \<Longrightarrow> find_rt i (update_rt i f b) = map_option f (find_rt i b)"
proof -
  assume f: "\<And>c. cn_id (f c) = cn_id c"
  have "List.find (\<lambda>c. cn_id c = i) (update_where (\<lambda>c. cn_id c = i) f cs) = map_option f (List.find (\<lambda>c. cn_id c = i) cs)" for cs
    by (induction cs) (simp_all add: f del: find_key_None)
  then show ?thesis by (simp add: find_rt_def update_rt_def)
qed

lemma find_close [simp]: "find_rt i (close_rt i b) = None"
  by (auto simp: find_rt_def close_rt_def)

section \<open>The operations\<close>

lemma validate_mild: "mild v b (snd (validate v i b))"
  unfolding validate_def
  by (auto split: option.splits intro!: mild_close mild_update simp: identity_def)

lemma validate_live:
  assumes "validate v i b = (True, b1)" and "find_rt i b1 = Some c"
  shows "case v of None \<Rightarrow> True | Some who \<Rightarrow> \<exists>role. who (cn_token c) = Some (cn_user c, role) \<and> set (cn_topics c) \<subseteq> set (allowed_topics role)"
proof (cases v)
  case (Some who)
  obtain c0 where c0: "find_rt i b = Some c0" using assms(1) by (auto simp: validate_def split: option.splits)
  obtain role where w: "who (cn_token c0) = Some (cn_user c0, role)"
    and b1: "b1 = update_rt i (\<lambda>c. c\<lparr>cn_role := role, cn_topics := filter (\<lambda>t. t \<in> set (allowed_topics role)) (cn_topics c),
        cn_prints := (\<lambda>t. if t \<in> set (cn_topics c) \<and> t \<notin> set (allowed_topics role) then None else cn_prints c t)\<rparr>) b"
    using assms(1) Some c0 by (auto simp: validate_def split: option.splits if_splits)
  have "c = c0\<lparr>cn_role := role, cn_topics := filter (\<lambda>t. t \<in> set (allowed_topics role)) (cn_topics c0),
        cn_prints := (\<lambda>t. if t \<in> set (cn_topics c0) \<and> t \<notin> set (allowed_topics role) then None else cn_prints c0 t)\<rparr>"
    using assms(2) c0 unfolding b1 by (subst (asm) find_update) auto
  then show ?thesis using Some w by auto
qed simp

lemma write_event_mild: "mild v b (snd (write_event v writable i t payload b))"
proof (cases "validate v i b")
  case (Pair ok b1)
  have m: "mild v b b1" using validate_mild [of v b i] Pair by simp
  show ?thesis
  proof (cases "ok \<and> find_rt i b1 \<noteq> None")
    case False
    then show ?thesis using Pair m by (cases ok) (auto simp: write_event_def)
  next
    case True
    then obtain c where c: "find_rt i b1 = Some c" by auto
    show ?thesis
    proof (cases "(t = ''connected'' \<or> t \<in> set (cn_topics c)) \<and> writable i")
      case False
      then show ?thesis using Pair True c m by (auto simp: write_event_def write_raw_def)
    next
      case send: True
      let ?e = "\<lparr>se_id = i, se_user = cn_user c, se_token = cn_token c, se_topic = t, se_payload = payload\<rparr>"
      have "authorised v ?e"
        using validate_live [of v i b b1 c] Pair True c send by (auto simp: authorised_def split: option.splits)
      then have "mild v b1 (b1\<lparr>rt_sent := rt_sent b1 @ [?e]\<rparr>)"
        unfolding mild_def by (auto intro!: exI [of _ "[?e]"] exI [of _ "\<lambda>_. True"])
      moreover have "snd (write_event v writable i t payload b) = b1\<lparr>rt_sent := rt_sent b1 @ [?e]\<rparr>"
        using Pair True c send by (auto simp: write_event_def write_raw_def)
      ultimately show ?thesis using mild_trans [OF m] by simp
    qed
  qed
qed

lemma mild_write [mildness]: "mild v b b' \<Longrightarrow> write_event v writable i t payload b' = (ok, b1) \<Longrightarrow> mild v b b1"
  using mild_trans write_event_mild by (metis snd_conv)

lemma mild_print [mildness]: "mild v b b' \<Longrightarrow> mild v b (remember_print i t payload b')"
  by (auto simp: remember_print_def identity_def intro: mild_trans intro!: mild_update)

lemma mild_pending [mildness]: "mild v b b' \<Longrightarrow> mild v b (b'\<lparr>rt_pending := ps\<rparr>)"
  by (simp add: mild_def)

lemma publish_to_mild: "mild v b (publish_to v writable t payload is b)"
proof (induction "is" arbitrary: b)
  case (Cons i "is")
  let ?b = "if \<not> has_topic i t b then b else case write_event v writable i t payload b of
      (False, b1) \<Rightarrow> close_rt i b1 | (True, b1) \<Rightarrow> if t \<noteq> ''processes'' then remember_print i t payload b1 else b1"
  have "mild v b ?b"
    by (auto split: prod.splits bool.splits intro: mild_close mild_print mild_write [OF mild_refl])
  then show ?case using mild_trans Cons.IH by (simp only: publish_to.simps)
qed simp

lemma publish_user_mild: "mild v b (publish_user_to v writable t payload is b)"
proof (induction "is" arbitrary: b)
  case (Cons i "is")
  let ?b = "if \<not> has_topic i t b then b else case write_event v writable i t payload b of (False, b1) \<Rightarrow> close_rt i b1 | (True, b1) \<Rightarrow> b1"
  have "mild v b ?b"
    by (auto split: prod.splits bool.splits intro: mild_close mild_write [OF mild_refl])
  then show ?case using mild_trans Cons.IH by (simp only: publish_user_to.simps)
qed simp

lemma push_topics_mild: "mild v b (push_topics v writable ps i ts b)"
proof (induction ts arbitrary: b)
  case (Cons t ts)
  have step: "mild v b (push_topics v writable ps i ts (remember_print i topic payload b1))"
    if "write_event v writable i topic payload b = (True, b1)" for topic payload b1
    by (rule mild_trans [OF mild_print [OF mild_write [OF mild_refl that]] Cons.IH])
  have closing: "mild v b (close_rt i b1)" if "write_event v writable i topic payload b = (False, b1)" for topic payload b1
    by (rule mild_close [OF mild_write [OF mild_refl that]])
  show ?case using Cons.IH [of b] by (auto split: option.splits prod.splits bool.splits intro: step closing)
qed simp

lemma push_connection_mild: "mild v b (push_connection_snapshots v writable ps i b)"
proof (cases "validate v i b")
  case (Pair ok b1)
  have "mild v b b1" using validate_mild [of v b i] Pair by simp
  then show ?thesis using Pair mild_trans push_topics_mild
    by (cases ok; cases "find_rt i b1") (auto simp: push_connection_snapshots_def)
qed

lemma push_each_mild: "mild v b (push_each v writable ps is b)"
proof (induction "is" arbitrary: b)
  case (Cons i "is")
  have "mild v b (if find_rt i b = None then b else push_connection_snapshots v writable ps i b)"
    using push_connection_mild by simp
  then show ?case using mild_trans Cons.IH by (simp only: push_each.simps)
qed simp

lemma heartbeat_mild: "mild v b (heartbeat v writable i b)"
proof (cases "validate v i b")
  case (Pair ok b1)
  have "mild v b b1" using validate_mild [of v b i] Pair by simp
  then show ?thesis using Pair by (cases ok) (auto simp: heartbeat_def intro: mild_close)
qed

lemma close_all_mild: "mild v b (close_all_rt is b)"
proof (induction "is" arbitrary: b)
  case (Cons i "is")
  show ?case using mild_trans [OF mild_close [OF mild_refl] Cons.IH] by simp
qed simp

lemma disconnect_mild: "mild v b (disconnect_user user b)" "mild v b (disconnect_all b)" "mild v b (shutdown_rt b)"
proof -
  show "mild v b (disconnect_user user b)"
    by (rule mild_filter [where P = "\<lambda>c. cn_user c \<noteq> user" and Q = "\<lambda>x. fst (snd x) \<noteq> user"]) (simp_all add: disconnect_user_def identity_def)
  show "mild v b (disconnect_all b)"
    by (rule mild_filter [where P = "\<lambda>c. False" and Q = "\<lambda>x. False"]) (simp_all add: disconnect_all_def)
  then show "mild v b (shutdown_rt b)" by (simp add: shutdown_rt_def mild_def disconnect_all_def)
qed

section \<open>The limits\<close>

definition ids_ok :: "broker \<Rightarrow> bool" where
  "ids_ok b = (distinct (map cn_id (rt_connections b)) \<and> (\<forall>c \<in> set (rt_connections b). snd (cn_id c) \<le> rt_sequence b))"

definition count_of :: "(rt_connection \<Rightarrow> bool) \<Rightarrow> broker \<Rightarrow> nat" where
  "count_of P b = length (filter P (rt_connections b))"

definition limits_ok :: "broker \<Rightarrow> bool" where
  "limits_ok b = (ids_ok b \<and> (\<forall>u. count_of (\<lambda>c. cn_user c = u) b \<le> 5) \<and> (\<forall>ip. count_of (\<lambda>c. cn_ip c = ip) b \<le> 20))"

lemma count_identity: "count_of (\<lambda>c. Q (identity c)) b = length (filter Q (map identity (rt_connections b)))"
  by (simp add: count_of_def filter_map comp_def)

lemma mild_identity:
  assumes "mild v b b'"
  obtains P where "map identity (rt_connections b') = filter P (map identity (rt_connections b))" and "rt_sequence b' = rt_sequence b"
  using assms unfolding mild_def by blast

lemma mild_count:
  assumes "mild v b b'"
  shows "count_of (\<lambda>c. Q (identity c)) b' \<le> count_of (\<lambda>c. Q (identity c)) b"
proof -
  have "length (filter Q (filter P xs)) \<le> length (filter Q xs)" for P and xs :: "(connection_id \<times> id \<times> string) list"
    by (induction xs) auto
  then show ?thesis using assms unfolding count_identity mild_def by metis
qed

lemma mild_count_user: "mild v b b' \<Longrightarrow> count_of (\<lambda>c. cn_user c = u) b' \<le> count_of (\<lambda>c. cn_user c = u) b"
  using mild_count [of v b b' "\<lambda>x. fst (snd x) = u"] by (simp add: identity_def)

lemma mild_count_ip: "mild v b b' \<Longrightarrow> count_of (\<lambda>c. cn_ip c = ip) b' \<le> count_of (\<lambda>c. cn_ip c = ip) b"
  using mild_count [of v b b' "\<lambda>x. snd (snd x) = ip"] by (simp add: identity_def)

lemma mild_ids:
  assumes "mild v b b'" and "ids_ok b"
  shows "ids_ok b'"
proof -
  obtain P where P: "map identity (rt_connections b') = filter P (map identity (rt_connections b))" "rt_sequence b' = rt_sequence b"
    by (rule mild_identity [OF assms(1)])
  have ids: "map cn_id (rt_connections x) = map fst (map identity (rt_connections x))" for x by (simp add: identity_def)
  have "distinct (map cn_id (rt_connections b'))"
    using assms(2) unfolding ids_ok_def ids P(1) by (simp add: distinct_map_filter)
  moreover have "set (map cn_id (rt_connections b')) \<subseteq> set (map cn_id (rt_connections b))"
    unfolding ids P(1) by auto
  moreover have "snd (cn_id c) \<le> rt_sequence b'" if "c \<in> set (rt_connections b')" for c
  proof -
    have "cn_id c \<in> set (map cn_id (rt_connections b'))" using that by simp
    then have "cn_id c \<in> set (map cn_id (rt_connections b))" using calculation(2) by (rule rev_subsetD)
    then obtain c0 where "c0 \<in> set (rt_connections b)" "cn_id c = cn_id c0" by auto
    then show ?thesis using assms(2) P(2) by (simp add: ids_ok_def)
  qed
  ultimately show ?thesis unfolding ids_ok_def by blast
qed

lemma mild_limits: "mild v b b' \<Longrightarrow> limits_ok b \<Longrightarrow> limits_ok b'"
  unfolding limits_ok_def using mild_ids mild_count_user mild_count_ip by (meson le_trans)

lemma close_all_connections: "rt_connections (close_all_rt is b) = filter (\<lambda>c. cn_id c \<notin> set is) (rt_connections b)"
  by (induction "is" arbitrary: b) (auto simp: close_rt_def filter_filter intro!: filter_cong)

text \<open>Closing the oldest connections beyond the limit makes room for one more.\<close>

lemma room_for_one:
  assumes "ids_ok b" and "0 < limit"
  shows "count_of P (close_all_rt (oldest_surplus limit P b) b) < limit"
proof -
  let ?xs = "filter P (rt_connections b)"
  have d: "distinct (map cn_id ?xs)" using assms(1) by (simp add: ids_ok_def distinct_map_filter)
  have k: "length ?xs + 1 - limit = length ?xs - (limit - 1)" using assms(2) by simp
  have "count_of P (close_all_rt (oldest_surplus limit P b) b)
      = length (filter (\<lambda>c. cn_id c \<notin> cn_id ` set (take (length ?xs - (limit - 1)) (sort_key cn_connected ?xs))) ?xs)"
    unfolding count_of_def close_all_connections oldest_surplus_def Let_def length_sort k filter_filter
    by (simp add: conj_commute)
  also have "\<dots> \<le> limit - 1" by (rule length_drop_surplus [OF d])
  finally show ?thesis using assms(2) by simp
qed

lemma connect_ok:
  assumes "limits_ok b"
  shows "limits_ok (connect_rt v writable ps now q b)
    \<and> (\<exists>new. rt_sent (connect_rt v writable ps now q b) = rt_sent b @ new \<and> (\<forall>e \<in> set new. authorised v e))"
proof -
  define b1 where "b1 = close_all_rt (oldest_surplus max_connections_per_user (\<lambda>c. cn_user c = cq_user q) b) b"
  define b2 where "b2 = close_all_rt (oldest_surplus max_connections_per_ip (\<lambda>c. cn_ip c = cq_ip q) b1) b1"
  define c where "c = \<lparr>cn_id = (now, Suc (rt_sequence b2)), cn_user = cq_user q, cn_role = cq_role q, cn_ip = cq_ip q, cn_token = cq_token q,
    cn_query = cq_query q, cn_topics = requested_topics (cq_role q) (cq_topics q), cn_connected = now, cn_prints = Map.empty\<rparr>"
  define b3 where "b3 = b2\<lparr>rt_connections := rt_connections b2 @ [c], rt_sequence := Suc (rt_sequence b2)\<rparr>"
  have m1: "mild v b b1" and m2: "mild v b1 b2" unfolding b1_def b2_def by (rule close_all_mild)+
  have ids: "ids_ok b" "ids_ok b1" "ids_ok b2" using assms mild_ids [OF m1] mild_ids [OF m2] by (auto simp: limits_ok_def)
  have "count_of (\<lambda>c. cn_user c = cq_user q) b1 < 5"
    unfolding b1_def using room_for_one [OF ids(1)] by (simp add: max_connections_per_user_def)
  then have user: "count_of (\<lambda>c. cn_user c = cq_user q) b2 < 5" using mild_count_user [OF m2] by (rule le_less_trans [rotated])
  have ip: "count_of (\<lambda>c. cn_ip c = cq_ip q) b2 < 20"
    unfolding b2_def using room_for_one [OF ids(2)] by (simp add: max_connections_per_ip_def)
  have l2: "limits_ok b2" using mild_limits [OF m2 mild_limits [OF m1 assms]] .
  have "limits_ok b3"
  proof -
    have le: "snd (cn_id x) \<le> rt_sequence b2" if "x \<in> set (rt_connections b2)" for x using ids(3) that by (simp add: ids_ok_def)
    have "cn_id c \<notin> cn_id ` set (rt_connections b2)"
    proof
      assume "cn_id c \<in> cn_id ` set (rt_connections b2)"
      then obtain x where "x \<in> set (rt_connections b2)" "cn_id c = cn_id x" by (rule imageE) blast
      then have "snd (cn_id c) \<le> rt_sequence b2" using le by simp
      then show False by (simp add: c_def)
    qed
    then have "distinct (map cn_id (rt_connections b3))" using ids(3) by (simp add: ids_ok_def b3_def)
    moreover have "snd (cn_id x) \<le> rt_sequence b3" if "x \<in> set (rt_connections b3)" for x
      using that le by (auto simp: b3_def c_def intro: le_SucI)
    ultimately have "ids_ok b3" by (simp add: ids_ok_def)
    moreover have "count_of (\<lambda>c. cn_user c = u) b3 \<le> 5" for u
      using l2 user by (auto simp: limits_ok_def count_of_def b3_def c_def)
    moreover have "count_of (\<lambda>c. cn_ip c = i) b3 \<le> 20" for i
      using l2 ip by (auto simp: limits_ok_def count_of_def b3_def c_def)
    ultimately show ?thesis by (simp add: limits_ok_def)
  qed
  define payload where "payload = JObj [(''topics'', JArr (map JStr (requested_topics (cq_role q) (cq_topics q)))), (''reconnect'', JBool True)]"
  define b4 where "b4 = snd (write_event v writable (now, Suc (rt_sequence b2)) ''connected'' payload b3)"
  have end_eq: "connect_rt v writable ps now q b = push_connection_snapshots v writable ps (now, Suc (rt_sequence b2)) b4"
    unfolding connect_rt_def Let_def b4_def b3_def c_def b2_def b1_def payload_def ..
  have m3: "mild v b3 (connect_rt v writable ps now q b)"
    unfolding end_eq b4_def by (rule mild_trans [OF write_event_mild push_connection_mild])
  have "rt_sent b3 = rt_sent b2" by (simp add: b3_def)
  moreover have "mild v b b2" by (rule mild_trans [OF m1 m2])
  ultimately have "\<exists>new. rt_sent (connect_rt v writable ps now q b) = rt_sent b @ new \<and> (\<forall>e \<in> set new. authorised v e)"
    using m3 unfolding mild_def by (metis (no_types, opaque_lifting) append_assoc set_append UnE)
  then show ?thesis using mild_limits [OF m3 \<open>limits_ok b3\<close>] by blast
qed

lemma step_mild: "rt_step v b b' \<Longrightarrow> mild v b b' \<or> (\<exists>writable ps now q. b' = connect_rt v writable ps now q b)"
  by (cases rule: rt_step.cases, assumption)
    (auto simp: publish_rt_def publish_to_user_def publish_throttled_def throttle_timer_def push_snapshots_def split: option.splits
      intro: publish_to_mild publish_user_mild push_each_mild heartbeat_mild disconnect_mild mild_pending mild_close
        mild_trans [OF mild_pending [OF mild_refl] publish_to_mild])

lemma reachable_limits: "rt_reachable b \<Longrightarrow> limits_ok b"
proof (induction rule: rt_reachable.induct)
  case start
  then show ?case by (simp add: limits_ok_def ids_ok_def count_of_def start_broker_def)
next
  case (step b v b')
  then show ?case using step_mild mild_limits connect_ok by blast
qed

text \<open>C23: Whatever happens to sessions and roles, every event that is written goes to a connection whose
  session is alive at that moment and belongs to the user who opened it, and its topic is one that the
  user's present role allows (or it is the greeting).\<close>

theorem events_reach_authorised_sessions:
  assumes "rt_reachable b" and "rt_step (Some who) b b'"
  shows "\<exists>new. rt_sent b' = rt_sent b @ new
    \<and> (\<forall>e \<in> set new. \<exists>role. who (se_token e) = Some (se_user e, role) \<and> (se_topic e = ''connected'' \<or> se_topic e \<in> set (allowed_topics role)))"
proof -
  have "\<exists>new. rt_sent b' = rt_sent b @ new \<and> (\<forall>e \<in> set new. authorised (Some who) e)"
    using step_mild [OF assms(2)] connect_ok [OF reachable_limits [OF assms(1)]] unfolding mild_def by blast
  then show ?thesis by (simp add: authorised_def)
qed

text \<open>No user ever holds more than five connections and no address more than twenty.\<close>

theorem connections_are_limited:
  assumes "rt_reachable b"
  shows "length (filter (\<lambda>c. cn_user c = u) (rt_connections b)) \<le> 5 \<and> length (filter (\<lambda>c. cn_ip c = ip) (rt_connections b)) \<le> 20"
  using reachable_limits [OF assms] by (simp add: limits_ok_def count_of_def)

end
