(* ===== verification/Api_Witnesses.thy ===== *)
theory Api_Witnesses
  imports Witnesses Http_Props Routes_Props System_Api Execution_Api Realtime_Props
begin

text \<open>The properties of the HTTP interface and of the event stream at concrete inputs.\<close>

section \<open>A session\<close>

definition logged_in :: db where
  "logged_in = sample_db\<lparr>sessions := [\<lparr>ss_id = ''cookie'', ss_user = ''root'', ss_csrf = ''csrf'', ss_expires = 1000, ss_created = 0\<rparr>],
     settings := [''asset_cache_settings'' \<mapsto> ''stored'']\<rparr>"

definition root_request :: "string \<Rightarrow> http_request" where
  "root_request m = \<lparr>rq_method = m, rq_session = Some ''cookie'', rq_csrf = Some ''csrf'', rq_query = Map.empty\<rparr>"

section \<open>Pages\<close>

definition small_site :: site where
  "small_site = \<lparr>si_root = [''srv'', ''public''], si_files = (\<lambda>_. None),
     si_assets = build_manifest (\<lambda>_. ''d1'') (\<lambda>_ _. 0) (Some [(''app.js'', True, ''x()''), (''notes.txt'', True, ''n'')]), si_index = ''index''\<rparr>"

definition page_request :: "string \<Rightarrow> wire_request" where
  "page_request url = \<lparr>wq_request = root_request ''GET'', wq_url = url, wq_host = Some ''localhost:3010'', wq_ip = None, wq_remote = None\<rparr>"

definition page_answer :: "string \<Rightarrow> response \<times> usage_map" where
  "page_answer url = get_page (\<lambda>_. False) \<lparr>cf_file = None, cf_env = Map.empty\<rparr> [''localhost''] small_site
     (\<lambda>_. Some (cache_config_json \<lparr>ac_enabled = True, ac_browser = 60, ac_edge = 90\<rparr>)) 5 logged_in
     (page_request url) []"

lemma asset_page_is_cacheable: "no_store (rp_headers (fst (page_answer ''/_assets/d1/app.js''))) = False"
  by code_simp

theorem only_versioned_assets_are_cacheable_witness:
  "rp_body (fst (page_answer ''/_assets/d1/app.js'')) \<in> {''x()'', ''n''} \<and> has_control (rp_headers (fst (page_answer ''/overview'')))
     \<or> rp_status (fst (page_answer ''/overview'')) = 421"
proof -
  have st: "si_assets small_site = build_manifest (\<lambda>_. ''d1'') (\<lambda>_ _. 0) (Some [(''app.js'', True, ''x()''), (''notes.txt'', True, ''n'')])"
    by (simp add: small_site_def)
  note page = only_versioned_assets_are_cacheable [OF page_answer_def [symmetric, THEN trans [OF _ prod.collapse [symmetric]]] st]
  show ?thesis using page [of "''/_assets/d1/app.js''"] page [of "''/overview''"] asset_page_is_cacheable by auto
qed

section \<open>Routes\<close>

definition run_now :: "string result" where
  "run_now = serve first_fit (\<lambda>_. Some) (\<lambda>f s ps b. f) (root_request ''POST'') [''api'', ''jobs'', ''job'', ''run''] [] 5 logged_in"

lemma run_now_reached: "run_now = Inr ''backups.runNow''"
  by code_simp

theorem changing_requests_are_authorised_witness:
  "\<exists>row. row \<in> set (sessions logged_in) \<and> 5 < ss_expires row \<and> ss_csrf row = ''csrf''"
  using changing_requests_are_authorised [OF first_fit_documented run_now_reached [unfolded run_now_def]]
  by (auto simp: root_request_def)

section \<open>The system interface\<close>

definition some_outside :: outside where
  "some_outside = \<lparr>po_dec = (\<lambda>_. None), po_enc = (\<lambda>_. ''x''), po_stamp = (\<lambda>_. ''now''), po_started = ''development'', po_version = ''1.0.0'',
     po_platform = ''linux-x64'', po_answer = NoAnswer ''down'', po_writes = True, po_crypto = plain_package, po_random = (''salt'', ''iv''),
     po_database = [], po_key = [], po_statfs = (\<lambda>_. None), po_process = (''app'', ''data'', ''node''), po_launcher = None,
     po_url_host = (\<lambda>_. None), po_host = None, po_assets = []\<rparr>"

definition idle_system :: system_state where
  "idle_system = \<lparr>sy_db = logged_in, sy_config = \<lparr>cf_file = None, cf_env = Map.empty\<rparr>, sy_usage = [], sy_status = Map.empty, sy_audit = [],
     sy_staged = None, sy_restart = False, sy_update = None, sy_published = []\<rparr>"

definition restarted :: system_answer where
  "restarted = system_handler some_outside (root_request ''POST'') 5 Restart idle_system"

lemma restart_requested: "sy_restart (snd restarted)"
  by code_simp

theorem administrative_changes_are_audited_witness:
  "sy_audit (snd restarted) \<noteq> [] \<and> list_all (\<lambda>e. al_created e = 5) (sy_audit (snd restarted))"
proof -
  have "operated (snd restarted) \<noteq> operated idle_system"
    using restart_requested by (simp add: operated_def idle_system_def)
  from administrative_changes_are_audited [OF restarted_def [symmetric, THEN trans [OF _ prod.collapse [symmetric]]] this]
  show ?thesis by (auto simp: root_request_def idle_system_def list_all_iff)
qed

section \<open>The execution interface\<close>

definition sample_logged_in :: service where
  "sample_logged_in = sample_boot\<lparr>sv_db := logged_in\<rparr>"

definition ran_now :: execution_answer where
  "ran_now = execution_handler (root_request ''POST'') 5 (PostExecution ''job'') sample_logged_in"

lemma sample_logged_in_reachable: "reachable hourly sample_logged_in"
  unfolding sample_logged_in_def
  by (rule reachable_db [OF sample_boot_reachable]) (simp add: elsewhere_def sample_boot_def init_service_def logged_in_def)

lemma ran_now_started: "length (executions (sv_db (snd ran_now))) = 1"
  by code_simp

theorem execution_calls_stay_reachable_witness:
  "reachable hourly (snd ran_now) \<and> length (executions (sv_db (snd ran_now))) = 1"
  using execution_calls_stay_reachable [OF sample_logged_in_reachable] ran_now_started by (simp add: ran_now_def)


definition instances :: "dto \<Rightarrow> json_body \<Rightarrow> json_body option" where
  "instances dto body = Some (map (\<lambda>f. (fname f, prop_of body (fname f))) dto)"

definition concurrency_body :: json_body where
  "concurrency_body = map (\<lambda>f. (fname f, prop_of [(''globalConcurrency'', VInt 4)] (fname f))) source_group_dto"

lemma concurrency_given: "prop_of concurrency_body ''globalConcurrency'' = VInt 4"
  by code_simp

lemma root_admitted: "is_ok (require_admin (root_request ''POST'') 5 (sv_db sample_logged_in))"
  by code_simp

theorem global_concurrency_is_refused_witness:
  "execution_handler (root_request ''POST'') 5 (PostGroups concurrency_body) sample_logged_in
     = (Inl (BadRequest ''Submit global concurrency separately''), sample_logged_in)"
proof -
  obtain s where s: "require_admin (root_request ''POST'') 5 (sv_db sample_logged_in) = Inr s"
    using root_admitted by (cases "require_admin (root_request ''POST'') 5 (sv_db sample_logged_in)") (auto simp: is_ok_def)
  have pipe: "instance_pipe instances" by (auto simp: instance_pipe_def instances_def image_image)
  have out: "instances source_group_dto [(''globalConcurrency'', VInt 4)] = Some concurrency_body"
    by (simp only: instances_def concurrency_body_def)
  show ?thesis
    by (rule global_concurrency_is_refused [OF pipe out _ s]) (simp add: concurrency_given)
qed

section \<open>The event stream\<close>

definition who_is :: "string \<Rightarrow> (id \<times> string) option" where
  "who_is token = (if token = ''cookie'' then Some (''root'', ''admin'') else None)"

definition listening :: broker where
  "listening = connect_rt (Some who_is) (\<lambda>_. True) (\<lambda>_ _. None) 5
     (events_request ''root'' ''admin'' ''10.0.0.1'' (Some ''cookie'') [''topics'' \<mapsto> ''executions'']) start_broker"

definition published :: broker where
  "published = publish_rt (Some who_is) (\<lambda>_. True) ''executions'' (JNum 1) listening"

lemma listening_reachable: "rt_reachable listening"
  unfolding listening_def by (rule rt_reachable.step [OF rt_reachable.start rt_step.connect])

lemma listening_one: "length (rt_connections listening) = 1"
  by code_simp

lemma published_one: "map se_topic (drop (length (rt_sent listening)) (rt_sent published)) = [''executions'']"
  by code_simp

theorem events_reach_authorised_sessions_witness:
  "\<exists>e. e \<in> set (rt_sent published) \<and> se_topic e = ''executions'' \<and> (\<exists>role. who_is (se_token e) = Some (se_user e, role))"
proof -
  have step: "rt_step (Some who_is) listening published" unfolding published_def by (rule rt_step.publish)
  obtain new where new: "rt_sent published = rt_sent listening @ new"
      "\<forall>e \<in> set new. \<exists>role. who_is (se_token e) = Some (se_user e, role) \<and> (se_topic e = ''connected'' \<or> se_topic e \<in> set (allowed_topics role))"
    using events_reach_authorised_sessions [OF listening_reachable step] by blast
  obtain e where "new = [e]" "se_topic e = ''executions''" using published_one new(1) by auto
  with new show ?thesis by auto
qed

theorem connections_are_limited_witness:
  "length (rt_connections listening) = 1 \<and> length (filter (\<lambda>c. cn_user c = ''root'') (rt_connections listening)) \<le> 5"
  using connections_are_limited [OF listening_reachable] listening_one by blast

end
