(* ===== verification/Connection_Store.thy ===== *)
theory Connection_Store
  imports Source_Groups Database_Service Protection Json_Text
begin

text \<open>
  The state of the recovery service (\<open>src/recovery/recovery.service.ts\<close>) and the operations on the
  table of database connections that it shares with the backup service
  (\<open>src/backup/backup.service.ts\<close>): the tables of the queue (\<open>db\<close>), the columns of connections,
  runs and capture sources that \<open>db\<close> leaves out, and the service's own tables.
\<close>

section \<open>Rows\<close>

text \<open>What a row of \<open>database_connections\<close> holds besides \<open>connection_row\<close>; the password is encrypted.\<close>

record connection_columns =
  cc_username :: string
  cc_password :: string
  cc_scope :: string
  cc_ssl :: bool
  cc_created :: time

text \<open>What a row of \<open>backup_runs\<close> holds besides \<open>run_row\<close>.\<close>

record artifact_columns =
  ax_filename :: "string option"
  ax_location :: "string option"
  ax_folder :: "string option"
  ax_sha256 :: "string option"
  ax_expected :: jtext
  ax_log_file :: "string option"
  ax_log_position :: "int option"
  ax_coordinate :: "time option"

text \<open>What a row of \<open>storage_targets\<close> holds besides \<open>target_row\<close>: the encrypted configuration.\<close>

record target_columns =
  tc_config :: string
  tc_created :: time

record health_row =
  he_target :: id
  he_status :: string
  he_message :: string
  he_latency :: int
  he_checked :: time
  he_free :: "int option"

record plan_row =
  pl_id :: id
  pl_name :: string
  pl_job :: id
  pl_destination :: id
  pl_cron :: string
  pl_timezone :: string
  pl_enabled :: bool
  pl_prefix :: string
  pl_last_test :: "time option"
  pl_next_test :: "time option"
  pl_last_status :: "string option"
  pl_last_message :: "string option"
  pl_created :: time

datatype test_status = TRunning | TPassed | TWarning | TFailed

record test_row =
  te_id :: id
  te_plan :: id
  te_run :: "id option"
  te_status :: test_status
  te_started :: time
  te_finished :: "time option"
  te_database :: string
  te_destination :: id
  te_rpo :: "int option"
  te_rto :: "int option"
  te_expected :: "int option"
  te_restored :: "int option"
  te_evidence :: "(string \<times> json) list"
  te_error :: "string option"

datatype rehearsal_status = RRunning | RPassed | RWarning | RFailed | RInterrupted

record rehearsal_row =
  rh_id :: id
  rh_run :: id
  rh_connection :: id
  rh_actor :: id
  rh_status :: rehearsal_status
  rh_started :: time
  rh_finished :: "time option"
  rh_evidence :: "(string \<times> json) list"
  rh_error :: "string option"

text \<open>A rehearsal whose worker has not ended: what it captured when it was started.\<close>

record rehearsal_worker =
  rw_id :: id
  rw_run :: id
  rw_source :: "id option"
  rw_connection :: id
  rw_evidence :: "(string \<times> json) list"

text \<open>What a row of \<open>pitr_sources\<close> holds besides \<open>pitr_source_row\<close>.\<close>

record capture_columns =
  pc_target :: "id option"
  pc_interval :: int
  pc_last_capture :: "time option"
  pc_continuous :: "time option"
  pc_next :: "time option"
  pc_gap :: string
  pc_checkpoint :: jtext
  pc_message :: string

record fleet_row =
  fv_id :: id
  fv_name :: string
  fv_installation :: string
  fv_hash :: string
  fv_status :: string
  fv_seen :: "time option"
  fv_revoked :: "time option"
  fv_created :: time

section \<open>State\<close>

text \<open>\<open>vt_workers\<close> is \<open>artifactWorkers\<close>, \<open>vt_captured\<close> holds the connection
  and the target of each row of \<open>pitr_artifacts\<close> that a scheduled capture wrote.\<close>

record vault =
  vt_db :: db
  vt_columns :: "id \<rightharpoonup> connection_columns"
  vt_targets :: "id \<rightharpoonup> target_columns"
  vt_health :: "health_row list"
  vt_artifacts :: "id \<rightharpoonup> artifact_columns"
  vt_plans :: "plan_row list"
  vt_tests :: "test_row list"
  vt_rehearsals :: "rehearsal_row list"
  vt_captures :: "id \<rightharpoonup> capture_columns"
  vt_captured :: "(id \<times> id) list"
  vt_fleet :: "fleet_row list"
  vt_workers :: "rehearsal_worker list"
  vt_closing :: bool

text \<open>\<open>String(error?.message || error)\<close>.\<close>

fun message_of :: "http_error \<Rightarrow> string" where
  "message_of (BadRequest s) = s"
| "message_of (Unauthorized s) = s"
| "message_of (Forbidden s) = s"
| "message_of (NotFound s) = s"
| "message_of (Unavailable s) = s"
| "message_of (Failure s) = s"

definition find_plan :: "vault \<Rightarrow> id \<Rightarrow> plan_row option" where
  "find_plan v i = List.find (\<lambda>p. pl_id p = i) (vt_plans v)"

definition fresh_id :: "vault \<Rightarrow> id \<times> vault" where
  "fresh_id v = (uuid (draws (vt_db v)), v\<lparr>vt_db := vt_db v\<lparr>draws := Suc (draws (vt_db v))\<rparr>\<rparr>)"

text \<open>\<open>String(input.id || crypto.randomUUID())\<close>.\<close>

definition id_or_fresh :: "string option \<Rightarrow> vault \<Rightarrow> id \<times> vault" where
  "id_or_fresh i v = (case i of None \<Rightarrow> fresh_id v | Some s \<Rightarrow> if s = [] then fresh_id v else (s, v))"

definition purpose_of :: "vault \<Rightarrow> id \<Rightarrow> string option" where
  "purpose_of v i = map_option c_purpose (find_connection (vt_db v) i)"

section \<open>Writing a connection\<close>

text \<open>The body of a request that saves a connection, after the validation pipe.\<close>

record connection_input =
  ci_id :: "string option"
  ci_name :: string
  ci_engine :: "string option"
  ci_host :: string
  ci_port :: "int option"
  ci_username :: string
  ci_password :: "string option"
  ci_database :: "string option"
  ci_ssl :: bool

definition input_port :: "connection_input \<Rightarrow> int" where
  "input_port b = (case ci_port b of None \<Rightarrow> 3306 | Some p \<Rightarrow> if p = 0 then 3306 else p)"

definition input_engine :: "connection_input \<Rightarrow> string" where
  "input_engine b = (case ci_engine b of None \<Rightarrow> ''mysql'' | Some s \<Rightarrow> if s = [] then ''mysql'' else s)"

text \<open>A new password, else the one that is stored, else the empty one.\<close>

definition saved_password :: "(string \<Rightarrow> string) \<Rightarrow> connection_input \<Rightarrow> connection_columns option \<Rightarrow> string" where
  "saved_password enc b old =
     (case ci_password b of
        Some (x # xs) \<Rightarrow> enc (x # xs)
      | _ \<Rightarrow> (case old of Some cc \<Rightarrow> if cc_password cc = [] then enc [] else cc_password cc | None \<Rightarrow> enc []))"

text \<open>\<open>INSERT \<dots> ON CONFLICT(id) DO UPDATE\<close>: a new row, or the named columns of the row that is there.\<close>

definition upsert_connection :: "connection_row \<Rightarrow> (connection_row \<Rightarrow> connection_row) \<Rightarrow> db \<Rightarrow> db" where
  "upsert_connection new f d =
     (case find_connection d (c_id new) of
        None \<Rightarrow> d\<lparr>connections := connections d @ [new]\<rparr>
      | Some _ \<Rightarrow> d\<lparr>connections := update_where (\<lambda>c. c_id c = c_id new) f (connections d)\<rparr>)"

definition upsert_columns :: "id \<Rightarrow> connection_columns \<Rightarrow> (id \<rightharpoonup> connection_columns) \<Rightarrow> (id \<rightharpoonup> connection_columns)" where
  "upsert_columns i new m =
     (case m i of
        None \<Rightarrow> m(i \<mapsto> new)
      | Some old \<Rightarrow> m(i \<mapsto> old\<lparr>cc_username := cc_username new, cc_password := cc_password new, cc_ssl := cc_ssl new\<rparr>))"

section \<open>Connections of the backup service\<close>

definition identity_changed :: "vault \<Rightarrow> connection_input \<Rightarrow> bool" where
  "identity_changed v b =
     (case ci_id b of
        None \<Rightarrow> False
      | Some i \<Rightarrow> (if i = [] then False
          else case find_connection (vt_db v) i of
             None \<Rightarrow> False
           | Some c \<Rightarrow> c_host c \<noteq> ci_host b \<or> c_port c \<noteq> input_port b \<or> c_engine c \<noteq> input_engine b))"

definition has_open_pairs :: "db \<Rightarrow> id \<Rightarrow> bool" where
  "has_open_pairs d i = list_ex (\<lambda>p. p_connection p = i \<and> p_status p \<in> {PQueued, PRunning, PRetryWait}) (pairs d)"

definition legacy_database :: "connection_input \<Rightarrow> connection_row option \<Rightarrow> string" where
  "legacy_database b old =
     (case ci_database b of
        Some (x # xs) \<Rightarrow> x # xs
      | _ \<Rightarrow> (case old of Some c \<Rightarrow> c_database_name c | None \<Rightarrow> []))"

definition save_connection :: "(string \<Rightarrow> string) \<Rightarrow> time \<Rightarrow> connection_input \<Rightarrow> vault \<Rightarrow> (id \<times> vault) result" where
  "save_connection enc now b v =
     (if identity_changed v b \<and> has_open_pairs (vt_db v) (the (ci_id b))
        then Inl (BadRequest ''Cannot change source host, port or engine with queued or running work'')
      else if ci_name b = [] \<or> ci_host b = [] \<or> ci_username b = [] then Inl (BadRequest ''Name, host and username are required'')
      else (let (i, v1) = id_or_fresh (ci_id b) v; d = vt_db v1; old = find_connection d i
            in if purpose_of v1 i = Some ''recovery''
               then Inl (BadRequest ''Dedicated recovery connections must be managed in Recovery Assurance'')
               else (let dbname = legacy_database b old;
                         new = \<lparr>c_id = i, c_name = ci_name b, c_engine = input_engine b, c_host = ci_host b, c_port = input_port b,
                                c_database_name = dbname, c_names = Parsed (JArr []), c_purpose = ''backup'', c_group = None\<rparr>;
                         f = (\<lambda>c. c\<lparr>c_name := ci_name b, c_engine := input_engine b, c_host := ci_host b, c_port := input_port b,
                                   c_database_name := dbname, c_purpose := ''backup''\<rparr>);
                         cols = \<lparr>cc_username = ci_username b, cc_password = saved_password enc b (vt_columns v1 i),
                                 cc_scope = ''selected'', cc_ssl = ci_ssl b, cc_created = now\<rparr>
                     in Inr (i, v1\<lparr>vt_db := upsert_connection new f d, vt_columns := upsert_columns i cols (vt_columns v1)\<rparr>))))"

text \<open>\<open>DELETE \<dots> WHERE id=? AND COALESCE(connection_purpose,'backup') <> 'recovery'\<close>; the foreign keys take
  the plans that name it and their tests, the links of schedules, and its capture source along. The
  schedules it leads go through \<open>drop_jobs\<close>.\<close>

definition drop_plans :: "(plan_row \<Rightarrow> bool) \<Rightarrow> vault \<Rightarrow> vault" where
  "drop_plans P v =
     (let gone = map pl_id (filter P (vt_plans v))
      in v\<lparr>vt_plans := filter (\<lambda>p. \<not> P p) (vt_plans v), vt_tests := filter (\<lambda>t. te_plan t \<notin> set gone) (vt_tests v)\<rparr>)"

definition drop_jobs :: "id list \<Rightarrow> vault \<Rightarrow> vault" where
  "drop_jobs js v =
     (let d = vt_db v; gone = map r_id (filter (\<lambda>r. r_job r \<in> set js) (runs d));
          v1 = drop_plans (\<lambda>p. pl_job p \<in> set js) v
      in v1\<lparr>vt_db := d\<lparr>jobs := filter (\<lambda>j. j_id j \<notin> set js) (jobs d), runs := filter (\<lambda>r. r_job r \<notin> set js) (runs d),
                         job_connections := filter (\<lambda>l. jc_job l \<notin> set js) (job_connections d),
                         job_storages := filter (\<lambda>l. js_job l \<notin> set js) (job_storages d),
                         pitr_sources := update_where (\<lambda>s. case ps_base_job s of None \<Rightarrow> False | Some j \<Rightarrow> j \<in> set js)
                           (\<lambda>s. s\<lparr>ps_base_job := None\<rparr>) (pitr_sources d)\<rparr>,
            vt_tests := update_where (\<lambda>t. case te_run t of None \<Rightarrow> False | Some r \<Rightarrow> r \<in> set gone) (\<lambda>t. t\<lparr>te_run := None\<rparr>) (vt_tests v1)\<rparr>)"

definition drop_connection :: "id \<Rightarrow> vault \<Rightarrow> vault" where
  "drop_connection i v =
     (let v1 = drop_plans (\<lambda>p. pl_destination p = i)
                 (drop_jobs (map j_id (filter (\<lambda>j. j_connection j = i) (jobs (vt_db v)))) v); d = vt_db v1
      in v1\<lparr>vt_db := d\<lparr>connections := filter (\<lambda>c. c_id c \<noteq> i) (connections d),
                         job_connections := filter (\<lambda>l. jc_connection l \<noteq> i) (job_connections d),
                         pitr_sources := filter (\<lambda>s. ps_connection s \<noteq> i) (pitr_sources d)\<rparr>,
            vt_columns := (vt_columns v1)(i := None), vt_captures := (vt_captures v1)(i := None),
            vt_captured := filter (\<lambda>x. fst x \<noteq> i) (vt_captured v1)\<rparr>)"

definition delete_connection :: "id \<Rightarrow> vault \<Rightarrow> vault" where
  "delete_connection i v =
     (case purpose_of v i of
        None \<Rightarrow> v
      | Some p \<Rightarrow> if p = ''recovery'' then v else drop_connection i v)"

record connection_view =
  cw_id :: id
  cw_name :: string
  cw_engine :: string
  cw_host :: string
  cw_port :: int
  cw_username :: string
  cw_database :: string
  cw_scope :: string
  cw_names :: json
  cw_ssl :: bool
  cw_created :: time

text \<open>A connection without its password: the stored names, an array, else the default database split at commas.\<close>

definition listed_names :: "connection_row \<Rightarrow> string \<Rightarrow> json" where
  "listed_names c scope =
     (let stored = (case c_names c of Parsed j \<Rightarrow> j | _ \<Rightarrow> JArr [])
      in if scope = ''selected'' \<and> stored = JArr [] \<and> c_database_name c \<noteq> []
         then JArr (map JStr (filter (\<lambda>n. n \<noteq> []) (map trim (split_on CHR '','' (c_database_name c))))) else stored)"

definition view_connection :: "connection_row \<Rightarrow> connection_columns \<Rightarrow> connection_view" where
  "view_connection c cc =
     (let scope = (if cc_scope cc = ''all'' then ''all'' else ''selected''); names = listed_names c scope
      in \<lparr>cw_id = c_id c, cw_name = c_name c, cw_engine = c_engine c, cw_host = c_host c, cw_port = c_port c,
          cw_username = cc_username cc,
          cw_database = (if scope = ''all'' then ''*'' else case js_join '', '' names of None \<Rightarrow> [] | Some s \<Rightarrow> s),
          cw_scope = scope, cw_names = names, cw_ssl = cc_ssl cc, cw_created = cc_created cc\<rparr>)"

definition with_columns :: "vault \<Rightarrow> connection_row list \<Rightarrow> (connection_row \<times> connection_columns) list" where
  "with_columns v cs = List.map_filter (\<lambda>c. map_option (\<lambda>cc. (c, cc)) (vt_columns v (c_id c))) cs"

definition list_connections :: "vault \<Rightarrow> connection_view list" where
  "list_connections v =
     map (\<lambda>(c, cc). view_connection c cc)
       (with_columns v (sort_key c_name (filter (\<lambda>c. c_purpose c \<noteq> ''recovery'') (connections (vt_db v)))))"

end
