(* ===== verification/Recovery.thy ===== *)
theory Recovery
  imports Connection_Store Cron Regex
begin

text \<open>
  The recovery service (\<open>src/recovery/recovery.service.ts\<close>): recovery-only connections, plans, isolated
  rehearsals of one artifact, scheduled recovery tests and enrolled servers. The restore itself belongs to the
  backup service; its outcome is an argument of the step that records it.
\<close>

section \<open>Recovery-only destinations\<close>

text \<open>The server of a connection: its canonical host, where every name of the local machine is one, and its port.\<close>

definition recovery_host :: "connection_row \<Rightarrow> string" where
  "recovery_host c =
     (let name = canonical_host (c_host c);
          name = (if name \<in> {''localhost'', ''127.0.0.1'', ''::1''} then ''loopback'' else name)
      in name @ '':'' @ show_int (if c_port c = 0 then 3306 else c_port c))"

definition assert_recovery_destination :: "id \<Rightarrow> id \<Rightarrow> vault \<Rightarrow> unit result" where
  "assert_recovery_destination source destination v =
     (case (find_connection (vt_db v) source, find_connection (vt_db v) destination) of
        (Some s, Some t) \<Rightarrow>
          (if c_purpose t \<noteq> ''recovery'' then Inl (BadRequest ''Select a dedicated recovery-only connection'')
           else if c_id s = c_id t \<or> recovery_host s = recovery_host t
              \<or> (case c_group s of None \<Rightarrow> False | Some g \<Rightarrow> g \<noteq> [] \<and> c_group t = Some g)
             then Inl (BadRequest ''Recovery destination must be on a different source server/group'')
           else if c_engine s \<noteq> c_engine t then Inl (BadRequest ''Recovery engine must match the recorded source'')
           else Inr ())
      | _ \<Rightarrow> Inl (BadRequest ''Select a dedicated recovery-only connection''))"

definition rehearsing :: "vault \<Rightarrow> id \<Rightarrow> bool" where
  "rehearsing v c = list_ex (\<lambda>r. rh_connection r = c \<and> rh_status r = RRunning) (vt_rehearsals v)"

definition assert_no_artifact_worker :: "id \<Rightarrow> vault \<Rightarrow> unit result" where
  "assert_no_artifact_worker c v =
     (if rehearsing v c then Inl (BadRequest ''Wait for the active artifact rehearsal before editing or deleting this connection'')
      else Inr ())"

section \<open>Recovery connections\<close>

definition list_recovery_connections :: "encryption_status \<Rightarrow> vault \<Rightarrow> (connection_row \<times> connection_columns) list result" where
  "list_recovery_connections es v =
     (case assert_encryption_healthy es of
        Inl e \<Rightarrow> Inl e
      | Inr _ \<Rightarrow> Inr (map (\<lambda>(c, cc). (c, cc\<lparr>cc_password := []\<rparr>))
          (with_columns v (sort_key c_name (filter (\<lambda>c. c_purpose c = ''recovery'') (connections (vt_db v)))))))"

definition save_recovery_connection ::
  "encryption_status \<Rightarrow> (string \<Rightarrow> string) \<Rightarrow> time \<Rightarrow> connection_input \<Rightarrow> vault \<Rightarrow> (id \<times> vault) result" where
  "save_recovery_connection es enc now b v =
     (case assert_encryption_healthy es of
        Inl e \<Rightarrow> Inl e
      | Inr _ \<Rightarrow>
          (if ci_name b = [] \<or> ci_host b = [] \<or> ci_username b = [] then Inl (BadRequest ''Name, host, and username are required'')
           else if ci_host b = ''0.0.0.0'' \<or> ci_host b = ''::''
             then Inl (BadRequest ''Use the actual recovery database server address, not a bind address'')
           else (let (i, v1) = id_or_fresh (ci_id b) v
                 in case assert_no_artifact_worker i v1 of
                      Inl e \<Rightarrow> Inl e
                    | Inr _ \<Rightarrow>
                        (if purpose_of v1 i \<noteq> None \<and> purpose_of v1 i \<noteq> Some ''recovery''
                         then Inl (BadRequest ''That ID belongs to a normal backup connection'')
                         else (let new = \<lparr>c_id = i, c_name = trim (ci_name b), c_engine = input_engine b, c_host = trim (ci_host b),
                                          c_port = input_port b, c_database_name = [], c_names = Parsed (JArr []),
                                          c_purpose = ''recovery'', c_group = None\<rparr>;
                                   f = (\<lambda>c. c\<lparr>c_name := c_name new, c_engine := c_engine new, c_host := c_host new,
                                             c_port := c_port new, c_purpose := ''recovery''\<rparr>);
                                   cols = \<lparr>cc_username = trim (ci_username b), cc_password = saved_password enc b (vt_columns v1 i),
                                           cc_scope = ''selected'', cc_ssl = ci_ssl b, cc_created = now\<rparr>
                               in Inr (i, v1\<lparr>vt_db := upsert_connection new f (vt_db v1),
                                             vt_columns := upsert_columns i cols (vt_columns v1)\<rparr>))))))"

definition delete_recovery_connection :: "id \<Rightarrow> vault \<Rightarrow> vault result" where
  "delete_recovery_connection i v =
     (case assert_no_artifact_worker i v of
        Inl e \<Rightarrow> Inl e
      | Inr _ \<Rightarrow>
          (if list_ex (\<lambda>p. pl_destination p = i) (vt_plans v)
           then Inl (BadRequest ''This recovery server is used by a recovery plan. Delete or update the plan first.'')
           else Inr (if purpose_of v i = Some ''recovery'' then drop_connection i v else v)))"

section \<open>Plans\<close>

record plan_input =
  pi_id :: "string option"
  pi_name :: string
  pi_job :: id
  pi_recovery :: "id option"
  pi_destination :: "id option"
  pi_cron :: "string option"
  pi_timezone :: "string option"
  pi_enabled :: "bool option"
  pi_prefix :: "string option"

text \<open>\<open>String(value || fallback)\<close> of an optional text.\<close>

definition or_text :: "string option \<Rightarrow> string \<Rightarrow> string" where
  "or_text v fallback = (case v of None \<Rightarrow> fallback | Some s \<Rightarrow> if s = [] then fallback else s)"

text \<open>\<open>safeFilePart\<close>: runs of characters that do not belong become one dash, runs of dashes one dash.\<close>

definition file_char :: "char \<Rightarrow> bool" where
  "file_char c = (is_alnum c \<or> c \<in> {CHR ''.'', CHR ''_'', CHR ''-''})"

fun squeeze_dashes :: "string \<Rightarrow> string" where
  "squeeze_dashes (CHR ''-'' # CHR ''-'' # cs) = squeeze_dashes (CHR ''-'' # cs)"
| "squeeze_dashes (c # cs) = c # squeeze_dashes cs"
| "squeeze_dashes [] = []"

definition safe_file_part :: "string \<Rightarrow> string" where
  "safe_file_part s = or_text (Some (take 80 (squeeze_dashes (map (\<lambda>c. if file_char c then c else CHR ''-'') s)))) ''backup''"

definition identifier_char :: "char \<Rightarrow> char" where
  "identifier_char c = (if is_alnum c \<or> c = CHR ''_'' then c else CHR ''_'')"

definition default_prefix :: string where
  "default_prefix = ''vaultback_recovery_test''"

definition plan_prefix :: "string option \<Rightarrow> string" where
  "plan_prefix v = or_text (Some (take 40 (map identifier_char (safe_file_part (or_text v default_prefix))))) default_prefix"

text \<open>The row with the name of its schedule and of its destination, and the latest test.\<close>

record plan_view =
  pv_plan :: plan_row
  pv_job_name :: string
  pv_destination_name :: string
  pv_recovery :: "id option"
  pv_latest :: "test_row option"

definition view_plan :: "vault \<Rightarrow> plan_row \<Rightarrow> plan_view option" where
  "view_plan v p =
     (case (find_job (vt_db v) (pl_job p), find_connection (vt_db v) (pl_destination p)) of
        (Some j, Some c) \<Rightarrow>
          Some \<lparr>pv_plan = p, pv_job_name = j_name j, pv_destination_name = c_name c,
                pv_recovery = (if c_purpose c = ''recovery'' then Some (pl_destination p) else None),
                pv_latest = (case sort_key (\<lambda>t. - te_started t) (filter (\<lambda>t. te_plan t = pl_id p) (vt_tests v)) of
                               [] \<Rightarrow> None | t # _ \<Rightarrow> Some t)\<rparr>
      | _ \<Rightarrow> None)"

definition list_plans :: "encryption_status \<Rightarrow> vault \<Rightarrow> plan_view list result" where
  "list_plans es v =
     (case assert_encryption_healthy es of
        Inl e \<Rightarrow> Inl e
      | Inr _ \<Rightarrow> Inr (List.map_filter (view_plan v) (sort_key pl_name (vt_plans v))))"

definition upsert_plan :: "plan_row \<Rightarrow> vault \<Rightarrow> vault" where
  "upsert_plan new v =
     v\<lparr>vt_plans :=
         (case find_plan v (pl_id new) of
            None \<Rightarrow> vt_plans v @ [new]
          | Some _ \<Rightarrow> update_where (\<lambda>p. pl_id p = pl_id new)
              (\<lambda>p. p\<lparr>pl_name := pl_name new, pl_job := pl_job new, pl_destination := pl_destination new, pl_cron := pl_cron new,
                     pl_timezone := pl_timezone new, pl_enabled := pl_enabled new, pl_prefix := pl_prefix new,
                     pl_next_test := pl_next_test new\<rparr>) (vt_plans v))\<rparr>"

definition save_plan ::
  "(string \<Rightarrow> local_clock option) \<Rightarrow> encryption_status \<Rightarrow> time \<Rightarrow> plan_input \<Rightarrow> vault \<Rightarrow> (id \<times> vault) result" where
  "save_plan zones es now b v =
     (case assert_encryption_healthy es of
        Inl e \<Rightarrow> Inl e
      | Inr _ \<Rightarrow>
          (let dest = trim (or_text (pi_recovery b) (or_text (pi_destination b) []))
           in if pi_name b = [] \<or> pi_job b = [] \<or> dest = []
                then Inl (BadRequest ''Name, schedule, and recovery destination are required'')
              else if find_job (vt_db v) (pi_job b) = None then Inl (BadRequest ''Backup schedule not found'')
              else (case purpose_of v dest of
                      None \<Rightarrow> Inl (BadRequest ''Recovery destination database connection not found'')
                    | Some purpose \<Rightarrow>
                        (if purpose \<noteq> ''recovery'' then Inl (BadRequest ''Select a dedicated recovery database connection'')
                         else (let cron = or_text (pi_cron b) ''0 4 * * 0''; tz = or_text (pi_timezone b) ''UTC''
                               in case next_cron zones cron tz now of
                                    Inl e \<Rightarrow> Inl e
                                  | Inr nxt \<Rightarrow>
                                      (let (i, v1) = id_or_fresh (pi_id b) v
                                       in Inr (i, upsert_plan \<lparr>pl_id = i, pl_name = trim (pi_name b), pl_job = pi_job b,
                                            pl_destination = dest, pl_cron = cron, pl_timezone = tz,
                                            pl_enabled = (pi_enabled b \<noteq> Some False), pl_prefix = plan_prefix (pi_prefix b),
                                            pl_last_test = None, pl_next_test = Some nxt, pl_last_status = None,
                                            pl_last_message = None, pl_created = now\<rparr> v1)))))))"

definition delete_plan :: "id \<Rightarrow> vault \<Rightarrow> vault" where
  "delete_plan i v = drop_plans (\<lambda>p. pl_id p = i) v"

text \<open>The table of recovery plans keeps the contract of a keyed table.\<close>

interpretation plan_table: deletable_table vt_plans pl_id upsert_plan
  "\<lambda>new p. p\<lparr>pl_name := pl_name new, pl_job := pl_job new, pl_destination := pl_destination new, pl_cron := pl_cron new,
       pl_timezone := pl_timezone new, pl_enabled := pl_enabled new, pl_prefix := pl_prefix new, pl_next_test := pl_next_test new\<rparr>"
  delete_plan
proof unfold_locales
  show "vt_plans (delete_plan k v) = filter (\<lambda>p. pl_id p \<noteq> k) (vt_plans v)" for k v
    by (simp add: delete_plan_def drop_plans_def)
qed (auto simp del: find_key_None simp: upsert_plan_def find_plan_def list_ex_iff find_None_iff split: option.split dest: find_key_SomeD)

end
