(* ===== verification/Storage_Targets.thy ===== *)
theory Storage_Targets
  imports Connection_Store Regex
begin

text \<open>
  The stored targets of \<open>src/storage/storage.service.ts\<close>: their encrypted configuration, what a client
  sees of it, their health, and the limits on downloads. Encryption is the parameters \<open>enc\<close> and \<open>dec\<close> of
  the database service; a configuration is the property list of its JSON object.
\<close>

type_synonym settings_object = "(string \<times> json) list"

definition secret_keys :: "string list" where
  "secret_keys = [''password'', ''token'', ''accessToken'', ''refreshToken'', ''clientSecret'', ''webhookToken'', ''botToken'',
     ''accessKeyId'', ''secretAccessKey'']"

text \<open>\<open>redact\<close>: a copy without the secrets.\<close>

definition redact :: "settings_object \<Rightarrow> settings_object" where
  "redact c = filter (\<lambda>(k, x). k \<notin> set secret_keys) c"

text \<open>\<open>{...a, ...b}\<close>: the properties of the first, overwritten by those of the second.\<close>

definition spread :: "settings_object \<Rightarrow> settings_object \<Rightarrow> settings_object" where
  "spread a b = map (\<lambda>(k, x). (k, case map_of b k of Some y \<Rightarrow> y | None \<Rightarrow> x)) a
     @ filter (\<lambda>(k, x). k \<notin> fst ` set a) b"

record target =
  st_id :: id
  st_name :: string
  st_type :: string
  st_config :: settings_object
  st_created :: time

definition decrypt_config :: "(string \<Rightarrow> json option) \<Rightarrow> string \<Rightarrow> settings_object result" where
  "decrypt_config dec s = (case dec s of Some (JObj c) \<Rightarrow> Inr c | _ \<Rightarrow> Inl (Failure ''Invalid encrypted value''))"

definition target_of :: "(string \<Rightarrow> json option) \<Rightarrow> vault \<Rightarrow> target_row \<Rightarrow> target result" where
  "target_of dec v t =
     (case vt_targets v (t_id t) of
        None \<Rightarrow> Inl (Failure ''Invalid encrypted value'')
      | Some cols \<Rightarrow>
          (case decrypt_config dec (tc_config cols) of
             Inl e \<Rightarrow> Inl e
           | Inr c \<Rightarrow> Inr \<lparr>st_id = t_id t, st_name = t_name t, st_type = t_type t, st_config = c, st_created = tc_created cols\<rparr>))"

fun collect :: "'a result list \<Rightarrow> 'a list result" where
  "collect [] = Inr []"
| "collect (Inl e # rs) = Inl e"
| "collect (Inr x # rs) = (case collect rs of Inl e \<Rightarrow> Inl e | Inr xs \<Rightarrow> Inr (x # xs))"

definition list_targets :: "encryption_status \<Rightarrow> (string \<Rightarrow> json option) \<Rightarrow> vault \<Rightarrow> target list result" where
  "list_targets es dec v =
     (case assert_encryption_healthy es of
        Inl e \<Rightarrow> Inl e
      | Inr _ \<Rightarrow> (case collect (map (target_of dec v) (sort_key t_name (targets (vt_db v)))) of
            Inl e \<Rightarrow> Inl e
          | Inr ts \<Rightarrow> Inr (map (\<lambda>t. t\<lparr>st_config := redact (st_config t)\<rparr>) ts)))"

definition get_target :: "encryption_status \<Rightarrow> (string \<Rightarrow> json option) \<Rightarrow> id \<Rightarrow> vault \<Rightarrow> target result" where
  "get_target es dec i v =
     (case assert_encryption_healthy es of
        Inl e \<Rightarrow> Inl e
      | Inr _ \<Rightarrow> (case List.find (\<lambda>t. t_id t = i) (targets (vt_db v)) of
            None \<Rightarrow> Inl (BadRequest ''Storage target not found'')
          | Some t \<Rightarrow> target_of dec v t))"

text \<open>\<open>listPage\<close>: the targets whose name and type match the search, one page of them.\<close>

definition target_matches :: "string \<Rightarrow> target_row \<Rightarrow> bool" where
  "target_matches search t = (search = [] \<or> sql_like (''%'' @ search @ ''%'') (to_lower (t_name t @ '' '' @ t_type t)))"

definition list_target_page ::
  "encryption_status \<Rightarrow> (string \<Rightarrow> json option) \<Rightarrow> query \<Rightarrow> vault \<Rightarrow> (target list \<times> nat \<times> int \<times> int \<times> int) result" where
  "list_target_page es dec q v =
     (case assert_encryption_healthy es of
        Inl e \<Rightarrow> Inl e
      | Inr _ \<Rightarrow>
          (let page = page_number q; sz = page_size q;
               search = to_lower (trim (case q ''search'' of None \<Rightarrow> [] | Some s \<Rightarrow> s));
               found = filter (target_matches search) (targets (vt_db v))
           in case collect (map (target_of dec v) (limit_offset sz ((page - 1) * sz) (sort_key t_name found))) of
                Inl e \<Rightarrow> Inl e
              | Inr ts \<Rightarrow> Inr (map (\<lambda>t. t\<lparr>st_config := redact (st_config t)\<rparr>) ts, length found, page, sz,
                              page_count (length found) sz)))"

section \<open>Writing a target\<close>

record target_input =
  ti_id :: "string option"
  ti_name :: string
  ti_type :: string
  ti_config :: "settings_object option"

definition storage_types :: "string list" where
  "storage_types = [''local'', ''ftp'', ''webdav'', ''google-drive'', ''onedrive'', ''s3'']"

text \<open>A secret that the body leaves out or leaves blank is kept from the stored configuration.\<close>

definition keep_secret :: "settings_object \<Rightarrow> string \<Rightarrow> settings_object \<Rightarrow> settings_object" where
  "keep_secret old k c =
     (if trim (text_of (map_of c k)) = [] then
        (case map_of old k of None \<Rightarrow> c | Some x \<Rightarrow> spread c [(k, x)])
      else c)"

definition keep_secrets :: "settings_object \<Rightarrow> settings_object \<Rightarrow> settings_object" where
  "keep_secrets old c = fold (keep_secret old) secret_keys c"

definition stored_config :: "(string \<Rightarrow> json option) \<Rightarrow> string option \<Rightarrow> vault \<Rightarrow> settings_object result" where
  "stored_config dec i v =
     (case i of
        None \<Rightarrow> Inr []
      | Some s \<Rightarrow> (case vt_targets v s of
            None \<Rightarrow> Inr []
          | Some cols \<Rightarrow> if s = [] \<or> tc_config cols = [] then Inr [] else decrypt_config dec (tc_config cols)))"

definition upsert_target :: "target_row \<Rightarrow> string \<Rightarrow> time \<Rightarrow> vault \<Rightarrow> vault" where
  "upsert_target new code now v =
     (let d = vt_db v; i = t_id new
      in if list_ex (\<lambda>t. t_id t = i) (targets d)
         then v\<lparr>vt_db := d\<lparr>targets := update_where (\<lambda>t. t_id t = i) (\<lambda>t. t\<lparr>t_name := t_name new, t_type := t_type new\<rparr>) (targets d)\<rparr>,
                vt_targets := (vt_targets v)(i := map_option (\<lambda>cols. cols\<lparr>tc_config := code\<rparr>) (vt_targets v i))\<rparr>
         else v\<lparr>vt_db := d\<lparr>targets := targets d @ [new]\<rparr>, vt_targets := (vt_targets v)(i \<mapsto> \<lparr>tc_config = code, tc_created = now\<rparr>)\<rparr>)"

definition save_target ::
  "encryption_status \<Rightarrow> (json \<Rightarrow> string) \<Rightarrow> (string \<Rightarrow> json option) \<Rightarrow> time \<Rightarrow> target_input \<Rightarrow> vault \<Rightarrow> (id \<times> vault) result" where
  "save_target es enc dec now b v =
     (case assert_encryption_healthy es of
        Inl e \<Rightarrow> Inl e
      | Inr _ \<Rightarrow>
          (case ti_config b of
             None \<Rightarrow> Inl (BadRequest ''Name, type and configuration are required'')
           | Some c \<Rightarrow>
               (if ti_name b = [] \<or> ti_type b = [] then Inl (BadRequest ''Name, type and configuration are required'')
                else if ti_type b \<notin> set storage_types then Inl (BadRequest ''Unsupported storage type'')
                else (let (i, v1) = id_or_fresh (ti_id b) v
                      in case stored_config dec (ti_id b) v1 of
                           Inl e \<Rightarrow> Inl e
                         | Inr old \<Rightarrow>
                             Inr (i, upsert_target \<lparr>t_id = i, t_name = ti_name b, t_type = ti_type b\<rparr>
                                       (enc (JObj (keep_secrets old c))) now v1)))))"

text \<open>The foreign keys take the schedules whose main target it is, the links of others, its health and the
  captures stored on it along; a capture source keeps its row without a target.\<close>

definition delete_target :: "id \<Rightarrow> vault \<Rightarrow> vault" where
  "delete_target i v =
     (let v1 = drop_jobs (map j_id (filter (\<lambda>j. j_target j = i) (jobs (vt_db v)))) v; d = vt_db v1
      in v1\<lparr>vt_db := d\<lparr>targets := filter (\<lambda>t. t_id t \<noteq> i) (targets d), job_storages := filter (\<lambda>l. js_target l \<noteq> i) (job_storages d)\<rparr>,
            vt_targets := (vt_targets v1)(i := None), vt_health := filter (\<lambda>h. he_target h \<noteq> i) (vt_health v1),
            vt_captures := (\<lambda>c. map_option (\<lambda>p. if pc_target p = Some i then p\<lparr>pc_target := None\<rparr> else p) (vt_captures v1 c)),
            vt_captured := filter (\<lambda>x. snd x \<noteq> i) (vt_captured v1)\<rparr>)"

section \<open>Health\<close>

text \<open>\<open>health\<close> records the outcome of the test of a target, an answer or an error.\<close>

definition record_health :: "time \<Rightarrow> int \<Rightarrow> int option \<Rightarrow> string result \<Rightarrow> id \<Rightarrow> vault \<Rightarrow> vault" where
  "record_health now latency free outcome i v =
     (let h = (case outcome of
                 Inr msg \<Rightarrow> \<lparr>he_target = i, he_status = ''healthy'', he_message = msg, he_latency = latency, he_checked = now, he_free = free\<rparr>
               | Inl e \<Rightarrow> \<lparr>he_target = i, he_status = ''unavailable'', he_message = take 500 (message_of e),
                           he_latency = latency, he_checked = now, he_free = None\<rparr>)
      in v\<lparr>vt_health := (if list_ex (\<lambda>x. he_target x = i) (vt_health v)
                          then update_where (\<lambda>x. he_target x = i) (\<lambda>_. h) (vt_health v) else vt_health v @ [h])\<rparr>)"

definition health_summary :: "vault \<Rightarrow> (string \<times> health_row) list" where
  "health_summary v =
     sort_key fst (List.map_filter (\<lambda>h. map_option (\<lambda>t. (t_name t, h)) (List.find (\<lambda>t. t_id t = he_target h) (targets (vt_db v))))
       (vt_health v))"

record immutability =
  im_enforced :: bool
  im_configured :: bool
  im_provider :: "string option"
  im_message :: string

definition immutability_status :: "encryption_status \<Rightarrow> (string \<Rightarrow> json option) \<Rightarrow> id \<Rightarrow> vault \<Rightarrow> immutability result" where
  "immutability_status es dec i v =
     (case get_target es dec i v of
        Inl e \<Rightarrow> Inl e
      | Inr t \<Rightarrow>
          (let s3 = (st_type t = ''s3''); configured = (s3 \<and> truth_of (map_of (st_config t) ''objectLockRequired''));
               verified = (configured \<and> (case List.find (\<lambda>h. he_target h = i) (vt_health v) of
                  None \<Rightarrow> False
                | Some h \<Rightarrow> he_status h = ''healthy'' \<and> rx_test (rx_text ''object lock is enabled'') (to_lower (he_message h))))
           in Inr \<lparr>im_enforced = verified, im_configured = configured, im_provider = (if s3 then Some ''S3 Object Lock'' else None),
                   im_message = (if verified then ''S3 Object Lock is enabled and was verified by the last health check.''
                     else if configured then ''Object Lock is configured but has not been verified successfully.''
                     else ''This storage provider does not expose provider-enforced WORM retention through VaultBack.'')\<rparr>))"

text \<open>The table of storage targets keeps the contract of a keyed table.\<close>

interpretation target_table: deletable_table "\<lambda>v. targets (vt_db v)" t_id "\<lambda>t. upsert_target t code now"
  "\<lambda>new old. old\<lparr>t_name := t_name new, t_type := t_type new\<rparr>" delete_target for code now
proof unfold_locales
  show "targets (vt_db (delete_target k v)) = filter (\<lambda>t. t_id t \<noteq> k) (targets (vt_db v))" for k v
    by (simp add: delete_target_def drop_jobs_def drop_plans_def Let_def)
qed (simp_all add: upsert_target_def Let_def)

end
