(* ===== verification/Recovery_Policy.thy ===== *)
theory Recovery_Policy
  imports Recovery Storage_Targets
begin

text \<open>
  What the recovery service (\<open>src/recovery/recovery.service.ts\<close>) reports: the policy findings of every
  schedule, the state of point-in-time recovery of every source, and the lists of tests and servers. The titles
  and details of findings are constant texts and left out.
\<close>

section \<open>Lists\<close>

text \<open>\<open>listTests\<close>: the latest hundred, with the name of the plan; a test without its plan is not listed.\<close>

definition list_tests :: "id option \<Rightarrow> vault \<Rightarrow> (test_row \<times> string \<times> string option) list" where
  "list_tests plan v =
     take 100 (List.map_filter (\<lambda>t. map_option
         (\<lambda>p. (t, pl_name p, Option.bind (Option.bind (te_run t) (vt_artifacts v)) ax_filename)) (find_plan v (te_plan t)))
       (sort_key (\<lambda>t. - te_started t) (filter (\<lambda>t. plan = None \<or> plan = Some [] \<or> plan = Some (te_plan t)) (vt_tests v))))"

section \<open>Findings\<close>

datatype severity = Critical | High | Medium

datatype risk = RiskCritical | RiskHigh | RiskMedium | Ready

record item =
  it_job :: id
  it_run :: "id option"
  it_at :: "time option"
  it_target :: "id option"
  it_findings :: "(severity \<times> string) list"
  it_risk :: risk

definition run_at :: "run_row \<Rightarrow> time" where
  "run_at r = (case r_finished r of Some t \<Rightarrow> t | None \<Rightarrow> r_started r)"

text \<open>\<open>Math.round(ms / 1000)\<close>.\<close>

definition rounded_seconds :: "int \<Rightarrow> int" where
  "rounded_seconds ms = (ms + 500) div 1000"

text \<open>The latest run of each pair: the rows come latest first.\<close>

fun first_by :: "('a \<Rightarrow> 'k) \<Rightarrow> 'a list \<Rightarrow> 'a list" where
  "first_by key [] = []"
| "first_by key (x # xs) = x # first_by key (filter (\<lambda>y. key y \<noteq> key x) xs)"

definition text_or_empty :: "string option \<Rightarrow> string" where
  "text_or_empty v = (case v of None \<Rightarrow> [] | Some s \<Rightarrow> s)"

definition candidates :: "vault \<Rightarrow> job_row \<Rightarrow> run_row option list" where
  "candidates v j =
     (let rs = sort_key (\<lambda>r. - run_at r) (filter (\<lambda>r. r_job r = j_id j \<and> r_status r = ''success'') (runs (vt_db v)));
          latest = first_by (\<lambda>r. (text_or_empty (r_connection r), text_or_empty (r_target r))) rs
      in if latest = [] then [None] else map Some latest)"

definition latest_test :: "vault \<Rightarrow> id \<Rightarrow> id \<Rightarrow> test_row option" where
  "latest_test v job run =
     (case sort_key (\<lambda>t. - te_started t)
         (filter (\<lambda>t. te_run t = Some run \<and> (case find_plan v (te_plan t) of None \<Rightarrow> False | Some p \<Rightarrow> pl_job p = job)) (vt_tests v)) of
        [] \<Rightarrow> None | t # _ \<Rightarrow> Some t)"

definition age_findings :: "time \<Rightarrow> run_row option \<Rightarrow> (severity \<times> string) list" where
  "age_findings now latest =
     (case latest of
        None \<Rightarrow> [(Critical, ''no_success'')]
      | Some r \<Rightarrow> if max 0 (rounded_seconds (now - run_at r)) > 48 * 3600 then [(High, ''stale'')] else [])"

definition test_findings :: "vault \<Rightarrow> job_row \<Rightarrow> run_row option \<Rightarrow> (severity \<times> string) list" where
  "test_findings v j latest =
     (case latest of
        None \<Rightarrow> [(High, ''untested'')]
      | Some r \<Rightarrow>
          (case latest_test v (j_id j) (r_id r) of
             None \<Rightarrow> [(High, ''untested'')]
           | Some t \<Rightarrow> (case te_status t of
                 TPassed \<Rightarrow> [] | TWarning \<Rightarrow> [(Medium, ''cleanup_warning'')] | _ \<Rightarrow> [(High, ''untested'')])))"

text \<open>\<open>metadataComplete\<close>.\<close>

definition present :: "string option \<Rightarrow> bool" where
  "present v = (case v of None \<Rightarrow> False | Some s \<Rightarrow> s \<noteq> [])"

definition metadata_complete :: "vault \<Rightarrow> run_row \<Rightarrow> bool" where
  "metadata_complete v r =
     (present (r_connection r) \<and> present (r_scope r) \<and> r_names r \<noteq> Absent \<and> present (r_layout r)
      \<and> (case vt_artifacts v (r_id r) of None \<Rightarrow> False | Some a \<Rightarrow> ax_expected a \<noteq> Absent)
      \<and> present (r_compression r) \<and> r_encryption r \<noteq> None \<and> present (r_target r))"

definition metadata_findings :: "vault \<Rightarrow> run_row option \<Rightarrow> (severity \<times> string) list" where
  "metadata_findings v latest =
     (case latest of
        None \<Rightarrow> []
      | Some r \<Rightarrow> if metadata_complete v r then [] else [(High, ''run_metadata'')])"

definition risk_of :: "(severity \<times> string) list \<Rightarrow> risk" where
  "risk_of fs =
     (if Critical \<in> fst ` set fs then RiskCritical
      else if High \<in> fst ` set fs then RiskHigh
      else if fs \<noteq> [] then RiskMedium else Ready)"

definition immutability_findings ::
  "encryption_status \<Rightarrow> (string \<Rightarrow> json option) \<Rightarrow> vault \<Rightarrow> id option \<Rightarrow> (severity \<times> string) list result" where
  "immutability_findings es dec v target =
     (case target of
        None \<Rightarrow> Inr [(Medium, ''immutability'')]
      | Some t \<Rightarrow> (case immutability_status es dec t v of
            Inl e \<Rightarrow> Inl e
          | Inr im \<Rightarrow> Inr (if im_enforced im then [] else [(Medium, ''immutability'')])))"

definition policy_item ::
  "encryption_status \<Rightarrow> (string \<Rightarrow> json option) \<Rightarrow> time \<Rightarrow> vault \<Rightarrow> job_row \<Rightarrow> run_row option \<Rightarrow> item result" where
  "policy_item es dec now v j latest =
     (let target = (case latest of None \<Rightarrow> None | Some r \<Rightarrow> if present (r_target r) then r_target r else None)
      in case immutability_findings es dec v target of
           Inl e \<Rightarrow> Inl e
         | Inr im \<Rightarrow>
             (let fs = age_findings now latest @ test_findings v j latest @ im @ metadata_findings v latest
              in Inr \<lparr>it_job = j_id j, it_run = map_option r_id latest, it_at = map_option run_at latest, it_target = target,
                      it_findings = fs, it_risk = risk_of fs\<rparr>))"

definition policy ::
  "encryption_status \<Rightarrow> (string \<Rightarrow> json option) \<Rightarrow> time \<Rightarrow> vault \<Rightarrow> item list result" where
  "policy es dec now v =
     collect (concat (map (\<lambda>j. map (policy_item es dec now v j) (candidates v j)) (sort_key j_name (jobs (vt_db v)))))"

definition policy_summary :: "item list \<Rightarrow> nat \<times> nat \<times> nat \<times> nat" where
  "policy_summary items =
     (let n = (\<lambda>r. length (filter (\<lambda>i. it_risk i = r) items)) in (n RiskCritical, n RiskHigh, n RiskMedium, n Ready))"

text \<open>\<open>snapshot()\<close>, what \<open>publish\<close> sends: it fails where one of its parts does.\<close>

definition snapshot_of ::
  "encryption_status \<Rightarrow> (string \<Rightarrow> json option) \<Rightarrow> time \<Rightarrow> vault
     \<Rightarrow> (plan_view list \<times> (test_row \<times> string \<times> string option) list \<times> item list) result" where
  "snapshot_of es dec now v =
     (case list_plans es v of
        Inl e \<Rightarrow> Inl e
      | Inr ps \<Rightarrow> (case policy es dec now v of Inl e \<Rightarrow> Inl e | Inr is \<Rightarrow> Inr (ps, list_tests None v, is)))"

end
