(* ===== verification/Recovery_Runs.thy ===== *)
theory Recovery_Runs
  imports Recovery_Policy
begin

text \<open>
  The operations of the recovery service that run over time (\<open>src/recovery/recovery.service.ts\<close>): rehearsals of
  an artifact by a background worker, recovery tests of a plan, and the minute tick. Each is split where
  the code awaits; a step takes the outcome of what was awaited.
\<close>

section \<open>Rehearsals of an artifact\<close>

definition hex_digit :: "char \<Rightarrow> bool" where
  "hex_digit c = (is_digit c \<or> lower_char c \<in> set ''abcdef'')"

text \<open>\<open>/^[a-f0-9]{64}$/i\<close>.\<close>

definition sha256_text :: "string option \<Rightarrow> bool" where
  "sha256_text v = (case v of None \<Rightarrow> False | Some s \<Rightarrow> length s = 64 \<and> list_all hex_digit s)"

definition assert_run_destination :: "id option \<Rightarrow> id \<Rightarrow> vault \<Rightarrow> unit result" where
  "assert_run_destination source destination v = assert_recovery_destination (text_or_empty source) destination v"

definition artifact_ready :: "vault \<Rightarrow> id \<Rightarrow> (run_row \<times> artifact_columns) option" where
  "artifact_ready v i =
     (case (find_run (vt_db v) i, vt_artifacts v i) of
        (Some r, Some a) \<Rightarrow> if r_status r = ''success'' \<and> present (ax_filename a) \<and> sha256_text (ax_sha256 a) then Some (r, a) else None
      | _ \<Rightarrow> None)"

definition rehearse_artifact :: "time \<Rightarrow> id \<Rightarrow> id \<Rightarrow> id \<Rightarrow> vault \<Rightarrow> (id \<times> vault) result" where
  "rehearse_artifact now run connection actor v =
     (if vt_closing v then Inl (BadRequest ''Application is shutting down'')
      else case artifact_ready v run of
        None \<Rightarrow> Inl (BadRequest ''Select a completed artifact with a recorded SHA-256'')
      | Some (r, a) \<Rightarrow>
          (case assert_run_destination (r_connection r) connection v of
             Inl e \<Rightarrow> Inl e
           | Inr _ \<Rightarrow>
               (if rehearsing v connection then Inl (BadRequest ''A rehearsal is already running on this recovery connection'')
                else (let (i, v1) = fresh_id v;
                          evidence = [(''backupRunId'', JStr (r_id r)), (''sha256'', json_text (ax_sha256 a)),
                                      (''filename'', json_text (ax_filename a)), (''recoveryConnectionId'', JStr connection)]
                      in Inr (i, v1\<lparr>vt_rehearsals := vt_rehearsals v1 @
                                   [\<lparr>rh_id = i, rh_run = r_id r, rh_connection = connection, rh_actor = actor, rh_status = RRunning,
                                     rh_started = now, rh_finished = None, rh_evidence = evidence, rh_error = None\<rparr>],
                                    vt_workers := vt_workers v1 @
                                   [\<lparr>rw_id = i, rw_run = r_id r, rw_source = r_connection r, rw_connection = connection,
                                     rw_evidence = evidence\<rparr>]\<rparr>)))))"

definition update_rehearsal :: "id \<Rightarrow> (rehearsal_row \<Rightarrow> rehearsal_row) \<Rightarrow> vault \<Rightarrow> vault" where
  "update_rehearsal i f v = v\<lparr>vt_rehearsals := update_where (\<lambda>r. rh_id r = i) f (vt_rehearsals v)\<rparr>"

definition fail_rehearsal :: "time \<Rightarrow> http_error \<Rightarrow> rehearsal_row \<Rightarrow> rehearsal_row" where
  "fail_rehearsal now e r = r\<lparr>rh_status := RFailed, rh_finished := Some now, rh_error := Some (take 1800 (message_of e))\<rparr>"

definition end_worker :: "rehearsal_worker \<Rightarrow> vault \<Rightarrow> vault" where
  "end_worker w v = v\<lparr>vt_workers := filter (\<lambda>x. rw_id x \<noteq> rw_id w) (vt_workers v)\<rparr>"

text \<open>The worker begins: it checks the destination again before the restore.\<close>

definition begin_rehearsal :: "time \<Rightarrow> rehearsal_worker \<Rightarrow> vault \<Rightarrow> vault" where
  "begin_rehearsal now w v =
     (case assert_run_destination (rw_source w) (rw_connection w) v of
        Inl e \<Rightarrow> end_worker w (update_rehearsal (rw_id w) (fail_rehearsal now e) v)
      | Inr _ \<Rightarrow> v)"

text \<open>The restore reports progress: \<open>{...evidence, ...update}\<close>.\<close>

definition rehearsal_progress :: "settings_object \<Rightarrow> rehearsal_worker \<Rightarrow> vault \<Rightarrow> vault" where
  "rehearsal_progress upd w v = update_rehearsal (rw_id w) (\<lambda>r. r\<lparr>rh_evidence := spread (rh_evidence r) upd\<rparr>) v"

text \<open>The restore ends: with its report and the warnings of the cleanup, or with an error.\<close>

definition end_rehearsal :: "time \<Rightarrow> (settings_object \<times> string list) result \<Rightarrow> rehearsal_worker \<Rightarrow> vault \<Rightarrow> vault" where
  "end_rehearsal now outcome w v =
     end_worker w (update_rehearsal (rw_id w)
       (case outcome of
          Inr (report, warnings) \<Rightarrow> (\<lambda>r. r\<lparr>rh_status := (if warnings \<noteq> [] then RWarning else RPassed), rh_finished := Some now,
            rh_evidence := spread (spread (rw_evidence w) report) [(''stage'', JStr ''completed'')]\<rparr>)
        | Inl e \<Rightarrow> fail_rehearsal now e) v)"

text \<open>\<open>onApplicationBootstrap\<close>: what a stop interrupted.\<close>

definition interrupted_text :: string where
  "interrupted_text = ''Application stopped before rehearsal completed; inspect the recorded scratch database names before manual cleanup''"

definition bootstrap_recovery :: "time \<Rightarrow> vault \<Rightarrow> vault" where
  "bootstrap_recovery now v =
     v\<lparr>vt_rehearsals := update_where (\<lambda>r. rh_status r = RRunning)
         (\<lambda>r. r\<lparr>rh_status := RInterrupted, rh_finished := Some now, rh_error := Some interrupted_text\<rparr>) (vt_rehearsals v),
       vt_workers := [], vt_closing := False\<rparr>"

text \<open>The callback of \<open>registerBeforeClose\<close>: no new rehearsal; the close waits until no worker is left.\<close>

definition begin_close :: "vault \<Rightarrow> vault" where
  "begin_close v = v\<lparr>vt_closing := True\<rparr>"

definition may_close :: "vault \<Rightarrow> bool" where
  "may_close v = (vt_closing v \<and> vt_workers v = [])"

definition get_artifact_rehearsal :: "id \<Rightarrow> vault \<Rightarrow> rehearsal_row result" where
  "get_artifact_rehearsal i v =
     (case List.find (\<lambda>r. rh_id r = i) (vt_rehearsals v) of
        None \<Rightarrow> Inl (BadRequest ''Artifact rehearsal not found'')
      | Some r \<Rightarrow> Inr r)"

section \<open>Recovery tests\<close>

text \<open>The first part of \<open>runTest\<close>, up to the question whether the artifact is still there.\<close>

definition latest_artifact :: "vault \<Rightarrow> id \<Rightarrow> run_row option" where
  "latest_artifact v job =
     (case sort_key (\<lambda>r. - run_at r) (filter (\<lambda>r. r_job r = job \<and> r_status r = ''success''
         \<and> (case vt_artifacts v (r_id r) of None \<Rightarrow> False | Some a \<Rightarrow> ax_filename a \<noteq> None)) (runs (vt_db v))) of
        [] \<Rightarrow> None | r # _ \<Rightarrow> Some r)"

definition testing :: "vault \<Rightarrow> id \<Rightarrow> bool" where
  "testing v plan = list_ex (\<lambda>t. te_plan t = plan \<and> te_status t = TRunning) (vt_tests v)"

definition select_test ::
  "encryption_status \<Rightarrow> (string \<Rightarrow> json option) \<Rightarrow> id \<Rightarrow> vault \<Rightarrow> (plan_row \<times> run_row \<times> target) result" where
  "select_test es dec plan v =
     (case find_plan v plan of
        None \<Rightarrow> Inl (BadRequest ''Recovery plan not found'')
      | Some p \<Rightarrow>
          (if testing v plan then Inl (BadRequest ''A recovery test is already running for this plan'')
           else case latest_artifact v (pl_job p) of
             None \<Rightarrow> Inl (BadRequest ''No completed backup is available for this schedule'')
           | Some r \<Rightarrow>
               (case assert_run_destination (r_connection r) (pl_destination p) v of
                  Inl e \<Rightarrow> Inl e
                | Inr _ \<Rightarrow>
                    (if \<not> present (r_target r)
                     then Inl (BadRequest ''The selected historical run has no recorded storage target and cannot be tested safely'')
                     else case get_target es dec (the (r_target r)) v of Inl e \<Rightarrow> Inl e | Inr t \<Rightarrow> Inr (p, r, t)))))"

definition test_database :: "plan_row \<Rightarrow> string \<Rightarrow> string" where
  "test_database p suffix =
     or_text (Some (take 30 (map identifier_char (or_text (Some (pl_prefix p)) default_prefix)))) default_prefix @ ''_'' @ suffix"

text \<open>The second part: the artifact is available. The row of the test is written and the dashboard
  published; an error of either leaves \<open>runTest\<close> here.\<close>

definition begin_test ::
  "encryption_status \<Rightarrow> (string \<Rightarrow> json option) \<Rightarrow> time \<Rightarrow> string \<Rightarrow> plan_row \<Rightarrow> run_row \<Rightarrow> vault \<Rightarrow> id result \<times> vault" where
  "begin_test es dec now suffix p r v =
     (if find_plan v (pl_id p) = None \<or> find_run (vt_db v) (r_id r) = None then (Inl (Failure ''FOREIGN KEY constraint failed''), v)
      else (let (i, v1) = fresh_id v;
                t = \<lparr>te_id = i, te_plan = pl_id p, te_run = Some (r_id r), te_status = TRunning, te_started = now, te_finished = None,
                     te_database = test_database p suffix, te_destination = pl_destination p, te_rpo = None, te_rto = None,
                     te_expected = None, te_restored = None,
                     te_evidence = [(''sourceFilename'', json_text (Option.bind (vt_artifacts v (r_id r)) ax_filename)),
                                    (''sourceFinishedAt'', json_date (Some (run_at r)))],
                     te_error = None\<rparr>;
                v2 = v1\<lparr>vt_tests := vt_tests v1 @ [t]\<rparr>
            in (case snapshot_of es dec now v2 of Inl e \<Rightarrow> Inl e | Inr _ \<Rightarrow> Inr i, v2)))"

record restore_report =
  rr_verification :: "settings_object option"
  rr_cleanup_ok :: bool
  rr_cleanup_message :: string

definition update_test :: "id \<Rightarrow> (test_row \<Rightarrow> test_row) \<Rightarrow> vault \<Rightarrow> vault" where
  "update_test i f v = v\<lparr>vt_tests := update_where (\<lambda>t. te_id t = i) f (vt_tests v)\<rparr>"

definition checked_objects :: "restore_report \<Rightarrow> int" where
  "checked_objects rep =
     (case rr_verification rep of
        None \<Rightarrow> 0
      | Some vr \<Rightarrow> (case map_of vr ''details'' of Some (JArr xs) \<Rightarrow> int (length xs) | _ \<Rightarrow> 0))"

definition report_passed :: "restore_report \<Rightarrow> bool" where
  "report_passed rep =
     (case rr_verification rep of None \<Rightarrow> False | Some vr \<Rightarrow> map_of vr ''status'' = Some (JStr ''passed''))"

definition test_verdict :: "restore_report \<Rightarrow> test_status \<times> string" where
  "test_verdict rep =
     (if rr_cleanup_ok rep then (TPassed, ''Backup restored, verified, and disposable database removed'')
      else (TWarning, ''Restore verified, but disposable database cleanup needs manual review: '' @ rr_cleanup_message rep))"

fun test_status_text :: "test_status \<Rightarrow> string" where
  "test_status_text TRunning = ''running''"
| "test_status_text TPassed = ''passed''"
| "test_status_text TWarning = ''warning''"
| "test_status_text TFailed = ''failed''"

definition finished_test :: "time \<Rightarrow> time \<Rightarrow> run_row \<Rightarrow> restore_report \<Rightarrow> test_row \<Rightarrow> test_row" where
  "finished_test now started r rep t =
     t\<lparr>te_status := fst (test_verdict rep), te_finished := Some now,
       te_rpo := Some (max 0 (rounded_seconds (now - run_at r))), te_rto := Some (max 0 (rounded_seconds (now - started))),
       te_expected := Some (checked_objects rep), te_restored := Some (if report_passed rep then checked_objects rep else 0),
       te_evidence := spread (case rr_verification rep of None \<Rightarrow> [] | Some vr \<Rightarrow> vr)
         [(''sourceRunId'', JStr (r_id r)), (''sourceFinishedAt'', json_date (Some (run_at r))), (''cleanupOk'', JBool (rr_cleanup_ok rep)),
          (''cleanupMessage'', JStr (rr_cleanup_message rep))],
       te_error := (if rr_cleanup_ok rep then None else Some (rr_cleanup_message rep))\<rparr>"

text \<open>The plan after a test: the next occurrence may not exist, then the UPDATE is not reached.\<close>

definition advance_plan ::
  "(string \<Rightarrow> local_clock option) \<Rightarrow> time \<Rightarrow> plan_row \<Rightarrow> test_status \<Rightarrow> string \<Rightarrow> vault \<Rightarrow> vault result" where
  "advance_plan zones now p status msg v =
     (case next_cron zones (pl_cron p) (pl_timezone p) now of
        Inl e \<Rightarrow> Inl e
      | Inr nxt \<Rightarrow> Inr (v\<lparr>vt_plans := update_where (\<lambda>q. pl_id q = pl_id p)
          (\<lambda>q. q\<lparr>pl_last_test := Some now, pl_next_test := Some nxt, pl_last_status := Some (test_status_text status),
                 pl_last_message := Some msg\<rparr>) (vt_plans v)\<rparr>))"

text \<open>The catch block: the error is recorded and thrown again.\<close>

definition fail_test ::
  "(string \<Rightarrow> local_clock option) \<Rightarrow> encryption_status \<Rightarrow> (string \<Rightarrow> json option) \<Rightarrow> time \<Rightarrow> plan_row \<Rightarrow> id \<Rightarrow> http_error
     \<Rightarrow> vault \<Rightarrow> test_status result \<times> vault" where
  "fail_test zones es dec now p i e v =
     (let msg = take 1000 (message_of e);
          v1 = update_test i (\<lambda>t. t\<lparr>te_status := TFailed, te_finished := Some now, te_error := Some msg\<rparr>) v
      in case advance_plan zones now p TFailed msg v1 of
           Inl e' \<Rightarrow> (Inl e', v1)
         | Inr v2 \<Rightarrow> (case snapshot_of es dec now v2 of
               Inl e' \<Rightarrow> (Inl e', v2)
             | Inr _ \<Rightarrow> (Inl (BadRequest (''Recovery test failed: '' @ msg)), v2)))"

text \<open>The restore has ended.\<close>

definition end_test ::
  "(string \<Rightarrow> local_clock option) \<Rightarrow> encryption_status \<Rightarrow> (string \<Rightarrow> json option) \<Rightarrow> time \<Rightarrow> time \<Rightarrow> plan_row \<Rightarrow> run_row \<Rightarrow> id
     \<Rightarrow> restore_report result \<Rightarrow> vault \<Rightarrow> test_status result \<times> vault" where
  "end_test zones es dec now started p r i outcome v =
     (case outcome of
        Inl e \<Rightarrow> fail_test zones es dec now p i e v
      | Inr rep \<Rightarrow>
          (let v1 = update_test i (finished_test now started r rep) v
           in case advance_plan zones now p (fst (test_verdict rep)) (snd (test_verdict rep)) v1 of
                Inl e \<Rightarrow> fail_test zones es dec now p i e v1
              | Inr v2 \<Rightarrow> (case snapshot_of es dec now v2 of
                    Inl e \<Rightarrow> fail_test zones es dec now p i e v2
                  | Inr _ \<Rightarrow> (Inr (fst (test_verdict rep)), v2))))"

section \<open>The minute tick\<close>

definition six_hours :: int where
  "six_hours = 6 * 60 * 60 * 1000"

definition interrupt_tests :: "time \<Rightarrow> vault \<Rightarrow> vault" where
  "interrupt_tests now v =
     v\<lparr>vt_tests := update_where (\<lambda>t. te_status t = TRunning \<and> te_started t < now - six_hours)
         (\<lambda>t. t\<lparr>te_status := TFailed, te_finished := Some now, te_error := Some ''Recovery test was interrupted before completion''\<rparr>)
         (vt_tests v)\<rparr>"

definition is_due :: "time \<Rightarrow> time option \<Rightarrow> bool" where
  "is_due now t = (case t of None \<Rightarrow> False | Some t \<Rightarrow> t \<le> now)"

definition due_plans :: "time \<Rightarrow> vault \<Rightarrow> plan_row list" where
  "due_plans now v = filter (\<lambda>p. pl_enabled p \<and> is_due now (pl_next_test p)) (vt_plans v)"

definition due_captures :: "time \<Rightarrow> vault \<Rightarrow> (id \<times> id option) list" where
  "due_captures now v =
     List.map_filter (\<lambda>s. case vt_captures v (ps_connection s) of
         None \<Rightarrow> None
       | Some pc \<Rightarrow> if ps_enabled s \<and> is_due now (pc_next pc) then Some (ps_connection s, pc_target pc) else None) (pitr_sources (vt_db v))"

text \<open>\<open>runDue\<close>: the tests that were interrupted, what each due plan starts with, and the due captures.\<close>

definition recovery_tick ::
  "encryption_status \<Rightarrow> (string \<Rightarrow> json option) \<Rightarrow> time \<Rightarrow> vault
     \<Rightarrow> (plan_row \<times> run_row \<times> target) result list \<times> (id \<times> id option) list \<times> vault" where
  "recovery_tick es dec now v =
     (let v1 = interrupt_tests now v
      in (map (\<lambda>p. select_test es dec (pl_id p) v1) (due_plans now v1), due_captures now v1, v1))"

chapter \<open>Point-in-time recovery and enrolled servers\<close>

text \<open>
  Point-in-time recovery as the recovery service configures and reports it, and the enrolled servers
  (\<open>src/recovery/recovery.service.ts\<close>). The inspection of a source's binary log is an argument: a result of
  the backup service for each connection.
\<close>

section \<open>Configuration\<close>

record pitr_input =
  px_connection :: id
  px_job :: id
  px_target :: id
  px_interval :: "int option"
  px_enabled :: "bool option"

definition flag_false :: "json \<Rightarrow> string \<Rightarrow> bool" where
  "flag_false j k = (jget j k = Some (JBool False))"

definition json_or_empty :: "jtext \<Rightarrow> json" where
  "json_or_empty t = (case t of Parsed j \<Rightarrow> j | _ \<Rightarrow> JObj [])"

definition linked_source :: "db \<Rightarrow> job_row \<Rightarrow> id \<Rightarrow> bool" where
  "linked_source d j c =
     (let links = filter (\<lambda>l. jc_job l = j_id j) (job_connections d)
      in if links \<noteq> [] then list_ex (\<lambda>l. jc_connection l = c) links else j_connection j = c)"

definition capture_interval :: "int option \<Rightarrow> int" where
  "capture_interval v = max 1 (min 1440 (case v of None \<Rightarrow> 15 | Some n \<Rightarrow> if n = 0 then 15 else n))"

definition waiting_text :: "bool \<Rightarrow> string" where
  "waiting_text enabled =
     (if enabled then ''Waiting for a new baseline backup with coordinates'' else ''Scheduled capture is disabled'')"

text \<open>The upsert: a new source starts as unknown or disabled, an existing one keeps its checkpoint, its captures
  and its next capture.\<close>

definition upsert_source :: "id \<Rightarrow> id \<Rightarrow> id \<Rightarrow> int \<Rightarrow> bool \<Rightarrow> time \<Rightarrow> vault \<Rightarrow> vault" where
  "upsert_source c job target interval enabled now v =
     (let d = vt_db v; gap = (if enabled then ''unknown'' else ''disabled'')
      in if list_ex (\<lambda>s. ps_connection s = c) (pitr_sources d)
         then v\<lparr>vt_db := d\<lparr>pitr_sources := update_where (\<lambda>s. ps_connection s = c)
                  (\<lambda>s. s\<lparr>ps_enabled := enabled, ps_base_job := Some job\<rparr>) (pitr_sources d)\<rparr>,
                vt_captures := (vt_captures v)(c := map_option (\<lambda>p. p\<lparr>pc_target := Some target, pc_interval := interval,
                  pc_next := (if enabled then Some now else None), pc_gap := gap, pc_message := waiting_text enabled\<rparr>) (vt_captures v c))\<rparr>
         else v\<lparr>vt_db := d\<lparr>pitr_sources := pitr_sources d @ [\<lparr>ps_connection = c, ps_enabled = enabled, ps_base_job = Some job\<rparr>]\<rparr>,
                vt_captures := (vt_captures v)(c \<mapsto> \<lparr>pc_target = Some target, pc_interval = interval, pc_last_capture = None,
                  pc_continuous = None, pc_next = (if enabled then Some now else None), pc_gap = gap,
                  pc_checkpoint = Parsed (JObj []), pc_message = waiting_text enabled\<rparr>)\<rparr>)"

definition save_pitr_configuration ::
  "encryption_status \<Rightarrow> (string \<Rightarrow> json option) \<Rightarrow> time \<Rightarrow> pitr_input \<Rightarrow> vault \<Rightarrow> vault result" where
  "save_pitr_configuration es dec now b v =
     (case find_connection (vt_db v) (px_connection b) of
        None \<Rightarrow> Inl (BadRequest ''Select an existing MySQL or MariaDB source connection'')
      | Some c \<Rightarrow>
          (if c_purpose c = ''recovery'' then Inl (BadRequest ''Select an existing MySQL or MariaDB source connection'')
           else if c_engine c \<notin> {''mysql'', ''mariadb''} then Inl (BadRequest ''PITR capture is supported only for MySQL and MariaDB'')
           else case find_job (vt_db v) (px_job b) of
             None \<Rightarrow> Inl (BadRequest ''Choose an enabled backup schedule'')
           | Some j \<Rightarrow>
               (let objects = json_or_empty (j_objects j); enabled = (px_enabled b \<noteq> Some False)
                in if \<not> j_enabled j then Inl (BadRequest ''Choose an enabled backup schedule'')
                   else if j_scope j \<noteq> ''all'' \<or> j_layout j \<noteq> ''single''
                     then Inl (BadRequest ''PITR requires a single-layout, all-database backup schedule'')
                   else if objects = JNull then Inl (Failure ''Cannot read properties of null'')
                   else if flag_false objects ''views'' \<or> flag_false objects ''routines'' \<or> flag_false objects ''triggers'' \<or> flag_false objects ''events''
                     then Inl (BadRequest ''The PITR baseline must include views, routines, triggers, and events'')
                   else if \<not> linked_source (vt_db v) j (c_id c)
                     then Inl (BadRequest ''The selected schedule does not include this source connection'')
                   else case get_target es dec (px_target b) v of
                     Inl e \<Rightarrow> Inl e
                   | Inr _ \<Rightarrow> Inr (upsert_source (c_id c) (j_id j) (px_target b) (capture_interval (px_interval b)) enabled now v))))"

section \<open>Status\<close>

record baseline =
  bl_run :: id
  bl_file :: string
  bl_position :: int
  bl_coordinate :: "time option"
  bl_expected :: jtext
  bl_names :: jtext

definition baseline_of :: "vault \<Rightarrow> run_row \<Rightarrow> baseline option" where
  "baseline_of v r =
     (case vt_artifacts v (r_id r) of
        None \<Rightarrow> None
      | Some a \<Rightarrow> (case (ax_log_file a, ax_log_position a) of
            (Some f, Some p) \<Rightarrow> Some \<lparr>bl_run = r_id r, bl_file = f, bl_position = p, bl_coordinate = ax_coordinate a,
                                    bl_expected = ax_expected a, bl_names = r_names r\<rparr>
          | _ \<Rightarrow> None))"

definition latest_baseline :: "vault \<Rightarrow> id option \<Rightarrow> id \<Rightarrow> baseline option" where
  "latest_baseline v job c =
     (case job of
        None \<Rightarrow> None
      | Some j \<Rightarrow>
          (case List.map_filter (baseline_of v) (sort_key (\<lambda>r. - run_at r)
               (filter (\<lambda>r. r_job r = j \<and> r_connection r = Some c \<and> r_status r = ''success'') (runs (vt_db v)))) of
             [] \<Rightarrow> None | b # _ \<Rightarrow> Some b))"

text \<open>\<open>Object.keys(value).length\<close>; \<open>null\<close> throws.\<close>

definition key_count :: "json \<Rightarrow> nat option" where
  "key_count j =
     (case j of JObj ps \<Rightarrow> Some (length (remdups (map fst ps))) | JArr xs \<Rightarrow> Some (length xs) | JStr s \<Rightarrow> Some (length s)
      | JNull \<Rightarrow> None | _ \<Rightarrow> Some 0)"

definition object_names :: "json option \<Rightarrow> bool" where
  "object_names v =
     (case v of Some (JArr xs) \<Rightarrow> list_all (\<lambda>x. case x of JStr s \<Rightarrow> trim s \<noteq> [] | _ \<Rightarrow> False) xs | _ \<Rightarrow> False)"

text \<open>Every database of the baseline has its list of objects; \<open>None\<close> is a TypeError.\<close>

definition objects_complete :: "json \<Rightarrow> json \<Rightarrow> bool option" where
  "objects_complete names expected =
     (case names of
        JArr (n # ns) \<Rightarrow>
          (case key_count expected of
             None \<Rightarrow> None
           | Some k \<Rightarrow> Some (k = length (n # ns) \<and> list_all (\<lambda>x. object_names (jget expected (js_string x))) (n # ns)))
      | _ \<Rightarrow> Some False)"

definition json_number :: "json option \<Rightarrow> jsnum" where
  "json_number v =
     (case v of None \<Rightarrow> NaN | Some (JNum n) \<Rightarrow> Fin (of_int n) | Some (JStr s) \<Rightarrow> js_number s
      | Some JNull \<Rightarrow> Fin 0 | Some (JBool x) \<Rightarrow> Fin (if x then 1 else 0) | Some _ \<Rightarrow> NaN)"

definition checkpoint_matches :: "json \<Rightarrow> baseline \<Rightarrow> bool" where
  "checkpoint_matches cp b =
     (jget cp ''baselineRunId'' = Some (JStr (bl_run b)) \<and> jget cp ''baselineFile'' = Some (JStr (bl_file b))
      \<and> json_number (jget cp ''baselinePosition'') = Fin (of_int (bl_position b)))"

definition current_baseline :: "json \<Rightarrow> baseline option \<Rightarrow> bool option" where
  "current_baseline cp latest =
     (case latest of
        None \<Rightarrow> Some False
      | Some b \<Rightarrow>
          (case objects_complete (json_or_empty (bl_names b)) (json_or_empty (bl_expected b)) of
             None \<Rightarrow> None
           | Some ok \<Rightarrow> if ok \<and> cp = JNull then None else Some (ok \<and> checkpoint_matches cp b)))"

datatype pitr_state = NotConfigured | PitrReady | PitrGap | NotProven | PitrError

record pitr_item =
  pt_connection :: id
  pt_state :: pitr_state
  pt_message :: string
  pt_baseline :: "id option"
  pt_enabled :: bool
  pt_captured :: nat

definition proven_state :: "bool \<Rightarrow> capture_columns option \<Rightarrow> bool \<Rightarrow> pitr_state" where
  "proven_state enabled pc current =
     (case pc of
        None \<Rightarrow> NotConfigured
      | Some p \<Rightarrow> if \<not> enabled then NotConfigured
                  else if pc_gap p = ''continuous'' \<and> pc_continuous p \<noteq> None \<and> current then PitrReady
                  else if pc_gap p = ''gap'' then PitrGap else NotProven)"

definition state_message :: "bool \<Rightarrow> capture_columns option \<Rightarrow> bool \<Rightarrow> string" where
  "state_message enabled pc current =
     (case pc of
        None \<Rightarrow> ''PITR capture is not configured. Binary logging alone does not prove a recoverable chain.''
      | Some p \<Rightarrow> if \<not> enabled then ''PITR capture is not configured. Binary logging alone does not prove a recoverable chain.''
                  else if pc_gap p = ''gap'' \<or> current then pc_message p
                  else ''A new baseline is waiting for a complete binary-log capture.'')"

definition error_item :: "connection_row \<Rightarrow> http_error \<Rightarrow> pitr_item" where
  "error_item c e = \<lparr>pt_connection = c_id c, pt_state = PitrError, pt_message = take 300 (message_of e), pt_baseline = None,
     pt_enabled = False, pt_captured = 0\<rparr>"

definition source_of :: "vault \<Rightarrow> id \<Rightarrow> pitr_source_row option" where
  "source_of v c = List.find (\<lambda>s. ps_connection s = c) (pitr_sources (vt_db v))"

definition source_enabled :: "vault \<Rightarrow> id \<Rightarrow> bool" where
  "source_enabled v c = (case source_of v c of None \<Rightarrow> False | Some s \<Rightarrow> ps_enabled s)"

text \<open>One source: a failed inspection, or a stored value that cannot be read, gives an item with the error.\<close>

definition pitr_item_of :: "(id \<Rightarrow> unit result) \<Rightarrow> vault \<Rightarrow> connection_row \<Rightarrow> pitr_item" where
  "pitr_item_of inspect v c =
     (case inspect (c_id c) of
        Inl e \<Rightarrow> error_item c e
      | Inr _ \<Rightarrow>
          (let s = source_of v (c_id c); pc = (if s = None then None else vt_captures v (c_id c));
               cp = (case pc of None \<Rightarrow> JObj [] | Some p \<Rightarrow> json_or_empty (pc_checkpoint p));
               latest = latest_baseline v (Option.bind s ps_base_job) (c_id c); enabled = source_enabled v (c_id c)
           in case current_baseline cp latest of
                None \<Rightarrow> error_item c (Failure ''Cannot convert undefined or null to object'')
              | Some current \<Rightarrow>
                  \<lparr>pt_connection = c_id c, pt_state = proven_state enabled pc current, pt_message = state_message enabled pc current,
                   pt_baseline = map_option bl_run latest, pt_enabled = enabled,
                   pt_captured = length (filter (\<lambda>x. fst x = c_id c) (vt_captured v))\<rparr>))"

definition pitr_status :: "(id \<Rightarrow> unit result) \<Rightarrow> vault \<Rightarrow> pitr_item list" where
  "pitr_status inspect v =
     map (pitr_item_of inspect v) (sort_key c_name (filter (\<lambda>c. c_purpose c \<noteq> ''recovery'') (connections (vt_db v))))"

section \<open>Enrolled servers\<close>

definition list_fleet :: "vault \<Rightarrow> fleet_row list" where
  "list_fleet v = map (\<lambda>f. f\<lparr>fv_hash := []\<rparr>) (sort_key fv_name (vt_fleet v))"

definition enroll_fleet :: "(string \<Rightarrow> string) \<Rightarrow> time \<Rightarrow> string \<Rightarrow> string \<Rightarrow> string \<Rightarrow> vault \<Rightarrow> (id \<times> vault) result" where
  "enroll_fleet sha now name installation token v =
     (let inst = trim installation
      in if inst = [] \<or> length token < 16 then Inl (BadRequest ''A valid installation ID and one-time token are required'')
         else if list_ex (\<lambda>f. fv_installation f = inst) (vt_fleet v) then Inl (Failure ''UNIQUE constraint failed: fleet_servers.installation_id'')
         else (let (i, v1) = fresh_id v
               in Inr (i, v1\<lparr>vt_fleet := vt_fleet v1 @
                    [\<lparr>fv_id = i, fv_name = trim name, fv_installation = inst, fv_hash = sha token, fv_status = ''active'',
                      fv_seen = None, fv_revoked = None, fv_created = now\<rparr>]\<rparr>)))"

definition revoke_fleet :: "time \<Rightarrow> id \<Rightarrow> vault \<Rightarrow> vault" where
  "revoke_fleet now i v =
     v\<lparr>vt_fleet := update_where (\<lambda>f. fv_id f = i) (\<lambda>f. f\<lparr>fv_status := ''revoked'', fv_revoked := Some now\<rparr>) (vt_fleet v)\<rparr>"

end
