(* ===== verification/Recovery_Steps.thy ===== *)
theory Recovery_Steps
  imports Recovery_Runs
begin

text \<open>
  The steps of the recovery service together with those of the backup and storage services on the tables they
  share, in any order, with restarts; and what every reachable state keeps of the rehearsals.
\<close>

section \<open>Steps\<close>

inductive recovery_step :: "vault \<Rightarrow> vault \<Rightarrow> bool" where
  rehearse: "rehearse_artifact now run c actor v = Inr (i, v') \<Longrightarrow> recovery_step v v'"
| rehearsal_begins: "w \<in> set (vt_workers v) \<Longrightarrow> recovery_step v (begin_rehearsal now w v)"
| rehearsal_reports: "w \<in> set (vt_workers v) \<Longrightarrow> recovery_step v (rehearsal_progress upd w v)"
| rehearsal_ends: "w \<in> set (vt_workers v) \<Longrightarrow> recovery_step v (end_rehearsal now outcome w v)"
| save_recovery: "save_recovery_connection es enc now b v = Inr (i, v') \<Longrightarrow> recovery_step v v'"
| delete_recovery: "delete_recovery_connection i v = Inr v' \<Longrightarrow> recovery_step v v'"
| save_backup: "save_connection enc now b v = Inr (i, v') \<Longrightarrow> recovery_step v v'"
| delete_backup: "recovery_step v (delete_connection i v)"
| save_a_plan: "save_plan zones es now pin v = Inr (i, v') \<Longrightarrow> recovery_step v v'"
| delete_a_plan: "recovery_step v (delete_plan i v)"
| test_begins: "begin_test es dec now suffix p r v = (res, v') \<Longrightarrow> recovery_step v v'"
| test_ends: "end_test zones es dec now started p r i out v = (res', v') \<Longrightarrow> recovery_step v v'"
| minute: "recovery_tick es dec now v = (starts, captures, v') \<Longrightarrow> recovery_step v v'"
| configure_pitr: "save_pitr_configuration es dec now px v = Inr v' \<Longrightarrow> recovery_step v v'"
| save_storage: "save_target es encj dec now tin v = Inr (i, v') \<Longrightarrow> recovery_step v v'"
| delete_storage: "recovery_step v (delete_target i v)"
| close: "recovery_step v (begin_close v)"
| restart: "recovery_step v (bootstrap_recovery now v)"

inductive recovery_run :: "vault \<Rightarrow> bool" where
  empty: "vt_rehearsals v = [] \<Longrightarrow> vt_workers v = [] \<Longrightarrow> recovery_run v"
| step: "recovery_run v \<Longrightarrow> recovery_step v v' \<Longrightarrow> recovery_run v'"

section \<open>The invariant\<close>

definition running_rehearsals :: "vault \<Rightarrow> rehearsal_row list" where
  "running_rehearsals v = filter (\<lambda>r. rh_status r = RRunning) (vt_rehearsals v)"

definition drawn :: "nat \<Rightarrow> id \<Rightarrow> bool" where
  "drawn n i = (\<exists>k < n. i = uuid k)"

definition rehearsals_ok :: "vault \<Rightarrow> bool" where
  "rehearsals_ok v =
     (distinct (map rh_id (vt_rehearsals v)) \<and> (\<forall>r \<in> set (vt_rehearsals v). drawn (draws (vt_db v)) (rh_id r))
      \<and> distinct (map rh_connection (running_rehearsals v))
      \<and> (\<forall>r \<in> set (running_rehearsals v). purpose_of v (rh_connection r) = Some ''recovery''
           \<and> rh_id r \<in> rw_id ` set (vt_workers v)))"

lemma rehearsing_iff: "rehearsing v c \<longleftrightarrow> c \<in> rh_connection ` set (running_rehearsals v)"
  by (auto simp: rehearsing_def list_ex_iff running_rehearsals_def)

text \<open>What a step that leaves rehearsals and workers alone must keep.\<close>

definition keeps_rehearsals :: "vault \<Rightarrow> vault \<Rightarrow> bool" where
  "keeps_rehearsals v v' =
     (vt_rehearsals v' = vt_rehearsals v \<and> vt_workers v' = vt_workers v \<and> draws (vt_db v) \<le> draws (vt_db v')
      \<and> (\<forall>c. rehearsing v c \<longrightarrow> purpose_of v c = Some ''recovery'' \<longrightarrow> purpose_of v' c = Some ''recovery''))"

lemma drawn_mono: "drawn m i \<Longrightarrow> m \<le> n \<Longrightarrow> drawn n i"
  unfolding drawn_def using order_less_le_trans by blast

lemma rehearsals_ok_frame:
  assumes "rehearsals_ok v" and "keeps_rehearsals v v'"
  shows "rehearsals_ok v'"
proof -
  have same: "vt_rehearsals v' = vt_rehearsals v" "vt_workers v' = vt_workers v" "running_rehearsals v' = running_rehearsals v"
    using assms(2) by (simp_all add: keeps_rehearsals_def running_rehearsals_def)
  have "purpose_of v' (rh_connection r) = Some ''recovery''" if "r \<in> set (running_rehearsals v)" for r
    using assms that unfolding keeps_rehearsals_def rehearsals_ok_def rehearsing_iff by blast
  moreover have "drawn (draws (vt_db v')) (rh_id r)" if "r \<in> set (vt_rehearsals v)" for r
    using assms that drawn_mono unfolding keeps_rehearsals_def rehearsals_ok_def by blast
  ultimately show ?thesis using assms(1) unfolding rehearsals_ok_def same by blast
qed

lemma keeps_refl [simp]: "keeps_rehearsals v v"
  by (simp add: keeps_rehearsals_def)

lemma keeps_connections:
  assumes "vt_rehearsals v' = vt_rehearsals v" and "vt_workers v' = vt_workers v"
    and "connections (vt_db v') = connections (vt_db v)" and "draws (vt_db v) \<le> draws (vt_db v')"
  shows "keeps_rehearsals v v'"
  using assms by (simp add: keeps_rehearsals_def purpose_of_def find_connection_def)

named_theorems vault_simps \<open>what the operations keep of the tables\<close>

lemma id_or_fresh_keeps [vault_simps]:
  assumes "id_or_fresh i v = (j, v')"
  shows "vt_rehearsals v' = vt_rehearsals v \<and> vt_workers v' = vt_workers v \<and> connections (vt_db v') = connections (vt_db v)
     \<and> draws (vt_db v) \<le> draws (vt_db v') \<and> vt_columns v' = vt_columns v"
  using assms by (auto simp: id_or_fresh_def fresh_id_def split: option.splits if_splits)

lemma drop_plans_keeps [simp]:
  "vt_rehearsals (drop_plans P v) = vt_rehearsals v" "vt_workers (drop_plans P v) = vt_workers v" "vt_db (drop_plans P v) = vt_db v"
  "vt_columns (drop_plans P v) = vt_columns v"
  by (simp_all add: drop_plans_def Let_def)

lemma drop_jobs_keeps [simp]:
  "vt_rehearsals (drop_jobs js v) = vt_rehearsals v" "vt_workers (drop_jobs js v) = vt_workers v"
  "connections (vt_db (drop_jobs js v)) = connections (vt_db v)" "draws (vt_db (drop_jobs js v)) = draws (vt_db v)"
  "vt_columns (drop_jobs js v) = vt_columns v" "targets (vt_db (drop_jobs js v)) = targets (vt_db v)"
  by (simp_all add: drop_jobs_def Let_def)

lemma drop_connection_keeps [simp]:
  "vt_rehearsals (drop_connection i v) = vt_rehearsals v" "vt_workers (drop_connection i v) = vt_workers v"
  "draws (vt_db (drop_connection i v)) = draws (vt_db v)"
  "connections (vt_db (drop_connection i v)) = filter (\<lambda>c. c_id c \<noteq> i) (connections (vt_db v))"
  "vt_columns (drop_connection i v) = (vt_columns v)(i := None)"
  by (simp_all add: drop_connection_def Let_def)

lemma find_filter_other: "c \<noteq> i \<Longrightarrow> List.find (\<lambda>x. key x = c) (filter (\<lambda>x. key x \<noteq> i) xs) = List.find (\<lambda>x. key x = c) xs"
  by (induction xs) auto

lemma find_drop_connection [simp]:
  "c \<noteq> i \<Longrightarrow> find_connection (vt_db (drop_connection i v)) c = find_connection (vt_db v) c"
  by (simp add: find_connection_def find_filter_other)

lemma purpose_drop_connection: "c \<noteq> i \<Longrightarrow> purpose_of (drop_connection i v) c = purpose_of v c"
  by (simp add: purpose_of_def)

lemma find_update_key:
  assumes "\<And>x. key (f x) = key x"
  shows "List.find (\<lambda>x. key x = c) (update_where (\<lambda>x. key x = k) f xs)
    = (if c = k then map_option f (List.find (\<lambda>x. key x = c) xs) else List.find (\<lambda>x. key x = c) xs)"
  using assms by (induction xs) auto

lemma find_upsert_connection:
  assumes "\<And>x. c_id (f x) = c_id x"
  shows "find_connection (upsert_connection new f d) c =
    (if c = c_id new then Some (case find_connection d c of None \<Rightarrow> new | Some x \<Rightarrow> f x) else find_connection d c)"
proof (cases "find_connection d (c_id new)")
  case None
  show ?thesis unfolding upsert_connection_def None using None
    by (simp del: find_key_None add: find_connection_def find_append split: option.split)
next
  case (Some y)
  show ?thesis unfolding upsert_connection_def Some using Some
    by (simp del: find_key_None add: find_connection_def find_update_key [where key = c_id, OF assms])
qed

lemma upsert_connection_draws [simp]: "draws (upsert_connection new f d) = draws d"
  by (simp add: upsert_connection_def split: option.split)

section \<open>The steps that leave rehearsals alone\<close>

text \<open>A saved connection: the row with its identifier and the purpose of the service that saves it.\<close>

definition saves :: "vault \<Rightarrow> id \<Rightarrow> string \<Rightarrow> vault \<Rightarrow> bool" where
  "saves v i purpose v' =
     (\<exists>new f. vt_rehearsals v' = vt_rehearsals v \<and> vt_workers v' = vt_workers v \<and> draws (vt_db v) \<le> draws (vt_db v')
        \<and> (\<forall>c. find_connection (vt_db v') c = find_connection (upsert_connection new f (vt_db v)) c)
        \<and> c_id new = i \<and> c_purpose new = purpose \<and> (\<forall>x. c_id (f x) = c_id x \<and> c_purpose (f x) = purpose)
        \<and> (\<forall>c. c \<noteq> i \<longrightarrow> vt_columns v' c = vt_columns v c))"

lemma find_connection_cong: "connections d = connections d' \<Longrightarrow> find_connection d c = find_connection d' c"
  by (simp add: find_connection_def)

lemma upsert_connection_cong:
  assumes "connections d = connections d'"
  shows "connections (upsert_connection new f d) = connections (upsert_connection new f d')"
  using assms find_connection_cong [OF assms] by (simp add: upsert_connection_def split: option.split)

lemma savesI:
  assumes "id_or_fresh k v = (i, v1)" and "c_id new = i" and "c_purpose new = purpose"
    and "\<And>x. c_id (f x) = c_id x" and "\<And>x. c_purpose (f x) = purpose"
  shows "saves v i purpose (v1\<lparr>vt_db := upsert_connection new f (vt_db v1), vt_columns := upsert_columns i cols (vt_columns v1)\<rparr>)"
proof -
  note k = id_or_fresh_keeps [OF assms(1)]
  have "upsert_columns i cols (vt_columns v1) c = vt_columns v c" if "c \<noteq> i" for c
    using k that by (simp add: upsert_columns_def split: option.split)
  moreover have "find_connection (upsert_connection new f (vt_db v1)) c = find_connection (upsert_connection new f (vt_db v)) c" for c
    using k by (intro find_connection_cong upsert_connection_cong) simp
  ultimately show ?thesis unfolding saves_def using assms k by (intro exI [of _ new] exI [of _ f]) simp
qed

lemma save_connection_saves:
  assumes "save_connection enc now b v = Inr (i, v')"
  shows "saves v i ''backup'' v' \<and> purpose_of v i \<noteq> Some ''recovery''"
proof -
  obtain v1 where v1: "id_or_fresh (ci_id b) v = (i, v1)" "purpose_of v1 i \<noteq> Some ''recovery''"
    using assms by (auto simp: save_connection_def Let_def split: if_splits prod.splits)
  have "purpose_of v1 i = purpose_of v i"
    using id_or_fresh_keeps [OF v1(1)] by (simp add: purpose_of_def find_connection_def)
  with v1 show ?thesis using assms by (auto simp: save_connection_def Let_def split: if_splits intro!: savesI)
qed

lemma save_recovery_saves:
  assumes "save_recovery_connection es enc now b v = Inr (i, v')"
  shows "saves v i ''recovery'' v' \<and> (purpose_of v i = None \<or> purpose_of v i = Some ''recovery'') \<and> \<not> rehearsing v i"
proof -
  obtain v1 where v1: "id_or_fresh (ci_id b) v = (i, v1)" "purpose_of v1 i = None \<or> purpose_of v1 i = Some ''recovery''"
    "\<not> rehearsing v1 i"
    using assms by (auto simp: save_recovery_connection_def assert_no_artifact_worker_def Let_def split: if_splits prod.splits sum.splits)
  have "purpose_of v1 i = purpose_of v i" "rehearsing v1 i = rehearsing v i"
    using id_or_fresh_keeps [OF v1(1)] by (simp_all add: purpose_of_def find_connection_def rehearsing_def)
  with v1 show ?thesis using assms
    by (auto simp: save_recovery_connection_def assert_no_artifact_worker_def Let_def split: if_splits sum.splits intro!: savesI)
qed

lemma saves_find:
  assumes "saves v i purpose v'" and "c \<noteq> i"
  shows "find_connection (vt_db v') c = find_connection (vt_db v) c \<and> vt_columns v' c = vt_columns v c"
  using assms unfolding saves_def by (auto simp: find_upsert_connection)

lemma saves_purpose: "saves v i purpose v' \<Longrightarrow> purpose_of v' i = Some purpose"
  unfolding saves_def by (auto simp: find_upsert_connection purpose_of_def split: option.split)

lemma save_frame:
  assumes "saves v i purpose v'" and "purpose = ''recovery'' \<or> purpose_of v i \<noteq> Some ''recovery''"
  shows "keeps_rehearsals v v'"
proof -
  have "purpose_of v' c = Some ''recovery''" if "purpose_of v c = Some ''recovery''" for c
    using that assms saves_find [OF assms(1)] saves_purpose [OF assms(1)] by (cases "c = i") (auto simp: purpose_of_def)
  then show ?thesis using assms(1) by (auto simp: keeps_rehearsals_def saves_def)
qed

lemma delete_recovery_frame:
  assumes "delete_recovery_connection i v = Inr v'"
  shows "keeps_rehearsals v v'"
proof -
  have idle: "\<not> rehearsing v i" and v': "v' = v \<or> v' = drop_connection i v"
    using assms by (auto simp: delete_recovery_connection_def assert_no_artifact_worker_def split: if_splits sum.splits)
  have "purpose_of (drop_connection i v) c = Some ''recovery''" if "rehearsing v c" "purpose_of v c = Some ''recovery''" for c
    using that idle purpose_drop_connection by metis
  with v' show ?thesis by (auto simp: keeps_rehearsals_def)
qed

lemma delete_backup_frame: "keeps_rehearsals v (delete_connection i v)"
proof -
  have "purpose_of (drop_connection i v) c = Some ''recovery''"
    if "purpose_of v i \<noteq> Some ''recovery''" "purpose_of v c = Some ''recovery''" for c
    using that purpose_drop_connection by metis
  then show ?thesis by (auto simp: delete_connection_def keeps_rehearsals_def split: option.split)
qed

lemma save_plan_frame: "save_plan zones es now b v = Inr (i, v') \<Longrightarrow> keeps_rehearsals v v'"
  by (rule keeps_connections)
    (auto simp: save_plan_def upsert_plan_def Let_def dest!: id_or_fresh_keeps split: sum.splits if_splits option.splits prod.splits)

lemma delete_plan_frame: "keeps_rehearsals v (delete_plan i v)"
  by (rule keeps_connections) (simp_all add: delete_plan_def)

lemma begin_test_frame: "begin_test es dec now suffix p r v = (res, v') \<Longrightarrow> keeps_rehearsals v v'"
  by (rule keeps_connections) (auto simp: begin_test_def fresh_id_def Let_def split: if_splits)

lemma advance_plan_keeps:
  "advance_plan zones now p s m v = Inr v' \<Longrightarrow> vt_rehearsals v' = vt_rehearsals v \<and> vt_workers v' = vt_workers v \<and> vt_db v' = vt_db v
     \<and> vt_tests v' = vt_tests v"
  by (auto simp: advance_plan_def split: sum.splits)

lemma update_test_keeps [simp]:
  "vt_rehearsals (update_test i f v) = vt_rehearsals v" "vt_workers (update_test i f v) = vt_workers v" "vt_db (update_test i f v) = vt_db v"
  by (simp_all add: update_test_def)

lemma fail_test_keeps:
  assumes "fail_test zones es dec now p i e v = (res, v')"
  shows "vt_rehearsals v' = vt_rehearsals v \<and> vt_workers v' = vt_workers v \<and> vt_db v' = vt_db v"
  using assms by (auto simp: fail_test_def Let_def dest!: advance_plan_keeps split: sum.splits)

lemma end_test_keeps:
  assumes "end_test zones es dec now started p r i out v = (res, v')"
  shows "vt_rehearsals v' = vt_rehearsals v \<and> vt_workers v' = vt_workers v \<and> vt_db v' = vt_db v"
  using assms by (auto simp: end_test_def Let_def dest!: advance_plan_keeps dest: fail_test_keeps split: sum.splits)

lemma end_test_frame: "end_test zones es dec now started p r i out v = (res, v') \<Longrightarrow> keeps_rehearsals v v'"
  using end_test_keeps by (intro keeps_connections) simp_all

lemma tick_frame: "recovery_tick es dec now v = (starts, captures, v') \<Longrightarrow> keeps_rehearsals v v'"
  by (rule keeps_connections) (auto simp: recovery_tick_def interrupt_tests_def Let_def)

lemma configure_frame: "save_pitr_configuration es dec now b v = Inr v' \<Longrightarrow> keeps_rehearsals v v'"
  by (rule keeps_connections)
    (auto simp: save_pitr_configuration_def upsert_source_def Let_def split: option.splits if_splits sum.splits)

lemma save_target_frame: "save_target es enc dec now b v = Inr (i, v') \<Longrightarrow> keeps_rehearsals v v'"
  by (rule keeps_connections)
    (auto simp: save_target_def upsert_target_def Let_def dest!: id_or_fresh_keeps split: option.splits if_splits sum.splits prod.splits)

lemma delete_target_frame: "keeps_rehearsals v (delete_target i v)"
  by (rule keeps_connections) (simp_all add: delete_target_def Let_def)

lemma begin_close_frame: "keeps_rehearsals v (begin_close v)"
  by (rule keeps_connections) (simp_all add: begin_close_def)

end
