(* ===== verification/Recovery_Props.thy ===== *)
theory Recovery_Props
  imports Recovery_Steps
begin

text \<open>
  Properties of the recovery service: rehearsals and their destinations, the tables shared with the backup
  service, the findings and states it reports, and the ends of recovery tests.
\<close>

section \<open>Rehearsals\<close>

lemma rehearse_cases:
  assumes "rehearse_artifact now run c actor v = Inr (i, v')"
  obtains r a where "\<not> vt_closing v" "artifact_ready v run = Some (r, a)" "assert_run_destination (r_connection r) c v = Inr ()"
    "\<not> rehearsing v c" "i = uuid (draws (vt_db v))" "vt_db v' = (vt_db v)\<lparr>draws := Suc (draws (vt_db v))\<rparr>"
    "\<exists>new w. vt_rehearsals v' = vt_rehearsals v @ [new] \<and> vt_workers v' = vt_workers v @ [w] \<and> rh_id new = i
       \<and> rh_connection new = c \<and> rh_status new = RRunning \<and> rw_id w = i \<and> rh_run new = run \<and> rw_connection w = c
       \<and> rw_source w = r_connection r"
proof -
  obtain r a where ra: "\<not> vt_closing v" "artifact_ready v run = Some (r, a)" "assert_run_destination (r_connection r) c v = Inr ()"
    "\<not> rehearsing v c" "i = uuid (draws (vt_db v))"
    using assms by (auto simp: rehearse_artifact_def fresh_id_def Let_def split: if_splits option.splits sum.splits)
  have "r_id r = run" using ra(2)
    by (auto simp: artifact_ready_def find_run_def dest!: find_SomeD split: option.splits if_splits)
  moreover have "rehearse_artifact now run c actor v = Inr (i, v')" by (rule assms)
  ultimately show thesis using ra that by (auto simp: rehearse_artifact_def fresh_id_def Let_def)
qed

lemma assert_destination_ok:
  assumes "assert_recovery_destination source c v = Inr ()"
  obtains s t where "find_connection (vt_db v) source = Some s" "find_connection (vt_db v) c = Some t" "c_purpose t = ''recovery''"
    "source \<noteq> c" "recovery_host s \<noteq> recovery_host t" "c_engine s = c_engine t"
    "c_group s = None \<or> c_group s = Some [] \<or> c_group s \<noteq> c_group t"
proof -
  obtain s t where st: "find_connection (vt_db v) source = Some s" "find_connection (vt_db v) c = Some t"
    using assms by (auto simp: assert_recovery_destination_def split: option.splits)
  then have "c_id s = source" "c_id t = c" by (auto simp: find_connection_def dest!: find_SomeD)
  with st assms that show thesis by (auto simp: assert_recovery_destination_def split: if_splits option.splits)
qed

lemma running_append: "running_rehearsals v' = running_rehearsals v @ [new]"
  if "vt_rehearsals v' = vt_rehearsals v @ [new]" and "rh_status new = RRunning"
  using that by (simp add: running_rehearsals_def)

lemma rehearse_ok:
  assumes "rehearsals_ok v" and "rehearse_artifact now run c actor v = Inr (i, v')"
  shows "rehearsals_ok v'"
  using assms(2)
proof (cases rule: rehearse_cases)
  case (1 r a)
  obtain new w where n: "vt_rehearsals v' = vt_rehearsals v @ [new]" "vt_workers v' = vt_workers v @ [w]" "rh_id new = i"
    "rh_connection new = c" "rh_status new = RRunning" "rw_id w = i"
    using 1(7) by blast
  have old: "drawn (draws (vt_db v)) (rh_id x)" if "x \<in> set (vt_rehearsals v)" for x
    using assms(1) that by (simp add: rehearsals_ok_def)
  have new_id: "i \<notin> rh_id ` set (vt_rehearsals v)"
  proof
    assume "i \<in> rh_id ` set (vt_rehearsals v)"
    then have "drawn (draws (vt_db v)) (uuid (draws (vt_db v)))" using old 1(5) by auto
    then show False by (simp add: drawn_def)
  qed
  have purpose: "purpose_of v' x = purpose_of v x" for x using 1(6) by (simp add: purpose_of_def find_connection_def)
  have dest: "purpose_of v c = Some ''recovery''"
    using 1(3) unfolding assert_run_destination_def by (elim assert_destination_ok) (simp add: purpose_of_def)
  have "drawn (Suc (draws (vt_db v))) (rh_id x)" if "x \<in> set (vt_rehearsals v')" for x
    using that old drawn_mono [of "draws (vt_db v)" _ "Suc (draws (vt_db v))"] n(1,3) 1(5) by (auto simp: drawn_def)
  moreover have "c \<notin> rh_connection ` set (running_rehearsals v)" using 1(4) by (simp add: rehearsing_iff)
  ultimately show ?thesis
    using assms(1) n new_id dest running_append [OF n(1,5)] 1(6)
    unfolding rehearsals_ok_def purpose by auto
qed

text \<open>A step of a worker changes the rows with its identifier and may end them and the worker.\<close>

lemma worker_step_ok:
  assumes ok: "rehearsals_ok v" and f: "\<And>r. rh_id (f r) = rh_id r \<and> rh_connection (f r) = rh_connection r"
    and v': "vt_rehearsals v' = update_where (\<lambda>r. rh_id r = i) f (vt_rehearsals v)" "vt_db v' = vt_db v"
    and ends: "vt_workers v' = vt_workers v \<and> (\<forall>r. rh_status (f r) = rh_status r)
      \<or> vt_workers v' = filter (\<lambda>x. rw_id x \<noteq> i) (vt_workers v) \<and> (\<forall>r. rh_status (f r) \<noteq> RRunning)"
  shows "rehearsals_ok v'"
proof -
  have ids: "map rh_id (vt_rehearsals v') = map rh_id (vt_rehearsals v)"
    using f by (simp add: v'(1) update_where_def)
  have kept: "\<exists>x \<in> set (running_rehearsals v). rh_id r = rh_id x \<and> rh_connection r = rh_connection x
      \<and> (vt_workers v' = vt_workers v \<or> rh_id x \<noteq> i)" if r: "r \<in> set (running_rehearsals v')" for r
  proof -
    obtain x where x: "x \<in> set (vt_rehearsals v)" "r = (if rh_id x = i then f x else x)" "rh_status r = RRunning"
      using r by (auto simp: running_rehearsals_def v'(1) in_set_update_where)
    with ends f show ?thesis by (auto simp: running_rehearsals_def)
  qed
  have sub: "\<exists>P. map rh_connection (filter (\<lambda>r. rh_status r = RRunning) (update_where (\<lambda>r. rh_id r = i) f xs))
      = map rh_connection (filter P (filter (\<lambda>r. rh_status r = RRunning) xs))" for xs
    using ends
  proof (elim disjE conjE)
    assume "\<forall>r. rh_status (f r) = rh_status r"
    with f show ?thesis by (intro exI [of _ "\<lambda>_. True"]) (induction xs, auto)
  next
    assume "\<forall>r. rh_status (f r) \<noteq> RRunning"
    with f show ?thesis by (intro exI [of _ "\<lambda>r. rh_id r \<noteq> i"]) (induction xs, auto)
  qed
  show ?thesis
    unfolding rehearsals_ok_def
  proof (intro conjI ballI)
    show "distinct (map rh_id (vt_rehearsals v'))" using ok by (simp add: ids rehearsals_ok_def)
    show "drawn (draws (vt_db v')) (rh_id r)" if "r \<in> set (vt_rehearsals v')" for r
      using that ids ok v'(2) unfolding rehearsals_ok_def by (metis image_iff list.set_map)
    show "distinct (map rh_connection (running_rehearsals v'))"
      using sub [of "vt_rehearsals v"] ok distinct_map_filter unfolding rehearsals_ok_def running_rehearsals_def v'(1) by metis
    fix r assume "r \<in> set (running_rehearsals v')"
    then obtain x where x: "x \<in> set (running_rehearsals v)" "rh_id r = rh_id x" "rh_connection r = rh_connection x"
      "vt_workers v' = vt_workers v \<or> rh_id x \<noteq> i" using kept by blast
    show "purpose_of v' (rh_connection r) = Some ''recovery''" using x ok v'(2) by (simp add: rehearsals_ok_def purpose_of_def)
    have "rh_id x \<in> rw_id ` set (vt_workers v)" using x ok by (simp add: rehearsals_ok_def)
    then show "rh_id r \<in> rw_id ` set (vt_workers v')" using x ends by auto
  qed
qed

lemma worker_rows [simp]:
  "vt_rehearsals (update_rehearsal i f v) = update_where (\<lambda>r. rh_id r = i) f (vt_rehearsals v)"
  "vt_workers (update_rehearsal i f v) = vt_workers v" "vt_db (update_rehearsal i f v) = vt_db v"
  "vt_rehearsals (end_worker w v) = vt_rehearsals v" "vt_workers (end_worker w v) = filter (\<lambda>x. rw_id x \<noteq> rw_id w) (vt_workers v)"
  "vt_db (end_worker w v) = vt_db v"
  by (simp_all add: update_rehearsal_def end_worker_def)

lemma begin_rehearsal_ok: "rehearsals_ok v \<Longrightarrow> rehearsals_ok (begin_rehearsal now w v)"
proof (cases "assert_run_destination (rw_source w) (rw_connection w) v")
  case (Inl e)
  assume "rehearsals_ok v"
  then show ?thesis
    by (rule worker_step_ok [where f = "fail_rehearsal now e" and i = "rw_id w"]) (simp_all add: begin_rehearsal_def Inl fail_rehearsal_def)
qed (simp add: begin_rehearsal_def)

lemma rehearsal_progress_ok:
  assumes "rehearsals_ok v"
  shows "rehearsals_ok (rehearsal_progress upd w v)"
  by (rule worker_step_ok [OF assms, where f = "\<lambda>r. r\<lparr>rh_evidence := spread (rh_evidence r) upd\<rparr>" and i = "rw_id w"])
    (simp_all add: rehearsal_progress_def)

definition ended_row :: "time \<Rightarrow> (settings_object \<times> string list) result \<Rightarrow> rehearsal_worker \<Rightarrow> rehearsal_row \<Rightarrow> rehearsal_row" where
  "ended_row now outcome w =
     (case outcome of
        Inr (report, warnings) \<Rightarrow> (\<lambda>r. r\<lparr>rh_status := (if warnings \<noteq> [] then RWarning else RPassed), rh_finished := Some now,
          rh_evidence := spread (spread (rw_evidence w) report) [(''stage'', JStr ''completed'')]\<rparr>)
      | Inl e \<Rightarrow> fail_rehearsal now e)"

lemma ended_row_keeps:
  "rh_id (ended_row now out w r) = rh_id r \<and> rh_connection (ended_row now out w r) = rh_connection r
   \<and> rh_status (ended_row now out w r) \<noteq> RRunning \<and> rh_finished (ended_row now out w r) = Some now"
  by (simp add: ended_row_def fail_rehearsal_def split: sum.split prod.split)

lemma end_rehearsal_row: "end_rehearsal now out w v = end_worker w (update_rehearsal (rw_id w) (ended_row now out w) v)"
  by (simp add: end_rehearsal_def ended_row_def)

lemma end_rehearsal_ok:
  assumes "rehearsals_ok v"
  shows "rehearsals_ok (end_rehearsal now out w v)"
  by (rule worker_step_ok [OF assms, where f = "ended_row now out w" and i = "rw_id w"])
    (simp_all add: end_rehearsal_row ended_row_keeps)

lemma no_running_left:
  assumes "\<And>r. rh_status (f r) \<noteq> RRunning"
  shows "filter (\<lambda>r. rh_status r = RRunning) (update_where (\<lambda>r. rh_status r = RRunning) f xs) = []"
  using assms by (induction xs) simp_all

lemma interrupted_none: "running_rehearsals (bootstrap_recovery now v) = []"
  by (simp add: running_rehearsals_def bootstrap_recovery_def no_running_left)

lemma bootstrap_rehearsals_ok:
  assumes "rehearsals_ok v"
  shows "rehearsals_ok (bootstrap_recovery now v)"
proof -
  have ids: "map rh_id (vt_rehearsals (bootstrap_recovery now v)) = map rh_id (vt_rehearsals v)"
    unfolding bootstrap_recovery_def by (simp add: update_where_def)
  have "drawn (draws (vt_db (bootstrap_recovery now v))) (rh_id r)" if r: "r \<in> set (vt_rehearsals (bootstrap_recovery now v))" for r
  proof -
    have "rh_id r \<in> rh_id ` set (vt_rehearsals v)" using r ids by (metis image_eqI list.set_map)
    then show ?thesis using assms by (auto simp: rehearsals_ok_def bootstrap_recovery_def)
  qed
  with assms ids interrupted_none show ?thesis unfolding rehearsals_ok_def by simp
qed

lemma recovery_step_ok: "recovery_step v v' \<Longrightarrow> rehearsals_ok v \<Longrightarrow> rehearsals_ok v'"
proof (induction rule: recovery_step.induct)
  case (rehearse now run c actor v i v')
  then show ?case by (metis rehearse_ok)
next
  case (save_recovery es enc now b v i v')
  then show ?case using save_recovery_saves save_frame rehearsals_ok_frame by metis
next
  case (save_backup enc now b v i v')
  then show ?case using save_connection_saves save_frame rehearsals_ok_frame by metis
qed (erule (1) rehearsals_ok_frame [OF _ delete_recovery_frame] rehearsals_ok_frame [OF _ save_plan_frame]
      rehearsals_ok_frame [OF _ begin_test_frame] rehearsals_ok_frame [OF _ end_test_frame] rehearsals_ok_frame [OF _ tick_frame]
      rehearsals_ok_frame [OF _ configure_frame] rehearsals_ok_frame [OF _ save_target_frame]
    | erule rehearsals_ok_frame [OF _ delete_backup_frame] rehearsals_ok_frame [OF _ delete_plan_frame]
      rehearsals_ok_frame [OF _ delete_target_frame] rehearsals_ok_frame [OF _ begin_close_frame]
    | rule begin_rehearsal_ok rehearsal_progress_ok end_rehearsal_ok bootstrap_rehearsals_ok, assumption)+

lemma recovery_run_ok: "recovery_run v \<Longrightarrow> rehearsals_ok v"
proof (induction rule: recovery_run.induct)
  case (empty v)
  then show ?case by (simp add: rehearsals_ok_def running_rehearsals_def)
qed (rule recovery_step_ok)

text \<open>C24: In every reachable state of the recovery service, whatever the other services do and however often it is
  restarted, each recovery connection has at most one running rehearsal; a running rehearsal has a worker that
  will end it, and its connection is still there and still for recovery only. Ending the worker leaves no
  running rehearsal with its identifier.\<close>

theorem one_rehearsal_per_destination:
  assumes "recovery_run v"
  shows "distinct (map rh_connection (running_rehearsals v))
    \<and> (\<forall>r \<in> set (running_rehearsals v). purpose_of v (rh_connection r) = Some ''recovery''
        \<and> (\<exists>w \<in> set (vt_workers v). rw_id w = rh_id r
             \<and> (\<forall>now out. rh_id r \<notin> rh_id ` set (running_rehearsals (end_rehearsal now out w v)))))"
proof -
  have ok: "rehearsals_ok v" using assms by (rule recovery_run_ok)
  have gone: "rw_id w \<notin> rh_id ` set (running_rehearsals (end_rehearsal now out w v))" for now out w
  proof
    assume "rw_id w \<in> rh_id ` set (running_rehearsals (end_rehearsal now out w v))"
    then obtain x where "rw_id w = rh_id (if rh_id x = rw_id w then ended_row now out w x else x)"
      "rh_status (if rh_id x = rw_id w then ended_row now out w x else x) = RRunning"
      by (auto simp: running_rehearsals_def end_rehearsal_row in_set_update_where)
    then show False using ended_row_keeps [of now out w x] by (cases "rh_id x = rw_id w") simp_all
  qed
  have rows: "purpose_of v (rh_connection r) = Some ''recovery''
      \<and> (\<exists>w \<in> set (vt_workers v). rw_id w = rh_id r
           \<and> (\<forall>now out. rh_id r \<notin> rh_id ` set (running_rehearsals (end_rehearsal now out w v))))"
    (is "?P r") if r: "r \<in> set (running_rehearsals v)" for r
  proof -
    have "rh_id r \<in> rw_id ` set (vt_workers v)" using ok r by (simp add: rehearsals_ok_def)
    then obtain w where w: "w \<in> set (vt_workers v)" "rw_id w = rh_id r" by force
    have "rh_id r \<notin> rh_id ` set (running_rehearsals (end_rehearsal now out w v))" for now out
      using gone [of w now out] w(2) by simp
    with ok r w show ?thesis by (auto simp: rehearsals_ok_def)
  qed
  have "distinct (map rh_connection (running_rehearsals v))" using ok by (simp add: rehearsals_ok_def)
  with rows show ?thesis by blast
qed

section \<open>Destinations\<close>

text \<open>Two connections name one server: the same port (3306 where none is given), and the same host, or each a name of
  the local machine.\<close>

definition one_server :: "connection_row \<Rightarrow> connection_row \<Rightarrow> bool" where
  "one_server s t =
     ((if c_port s = 0 then 3306 else c_port s) = (if c_port t = 0 then 3306 else c_port t)
      \<and> (canonical_host (c_host s) = canonical_host (c_host t)
         \<or> {canonical_host (c_host s), canonical_host (c_host t)} \<subseteq> {''localhost'', ''127.0.0.1'', ''::1''}))"

lemma one_server_host: "one_server s t \<Longrightarrow> recovery_host s = recovery_host t"
  by (auto simp: one_server_def recovery_host_def Let_def)

text \<open>The destination is for recovery only and no part of the server that the run was taken from.\<close>

definition separated :: "vault \<Rightarrow> run_row \<Rightarrow> id \<Rightarrow> bool" where
  "separated v r c =
     (\<exists>s t. find_connection (vt_db v) (text_or_empty (r_connection r)) = Some s \<and> find_connection (vt_db v) c = Some t
        \<and> c_purpose t = ''recovery'' \<and> c_id s \<noteq> c_id t \<and> \<not> one_server s t \<and> c_engine s = c_engine t
        \<and> (c_group s = None \<or> c_group s = Some [] \<or> c_group s \<noteq> c_group t))"

lemma asserted_separated: "assert_run_destination (r_connection r) c v = Inr () \<Longrightarrow> separated v r c"
  unfolding assert_run_destination_def separated_def
  by (elim assert_destination_ok) (auto simp: find_connection_def dest!: find_SomeD dest: one_server_host)

lemma select_test_cases:
  assumes "select_test es dec plan v = Inr (p, r, t)"
  shows "find_plan v plan = Some p \<and> \<not> testing v plan \<and> latest_artifact v (pl_job p) = Some r
    \<and> assert_run_destination (r_connection r) (pl_destination p) v = Inr () \<and> present (r_target r)
    \<and> get_target es dec (the (r_target r)) v = Inr t"
  using assms by (auto simp: select_test_def split: option.splits if_splits sum.splits)


section \<open>Two services, one table\<close>

text \<open>C26: The backup service and the recovery service share the table of connections without touching each
  other's rows: saving or deleting a backup connection leaves every recovery connection and its credentials as
  they are and never lists one, and saving or deleting a recovery connection leaves every backup connection as it
  is.\<close>

theorem connections_stay_with_their_service:
  assumes "purpose_of v c = Some purpose"
  shows "(purpose = ''recovery'' \<longrightarrow>
        (\<forall>enc now b i v'. save_connection enc now b v = Inr (i, v') \<longrightarrow>
           find_connection (vt_db v') c = find_connection (vt_db v) c \<and> vt_columns v' c = vt_columns v c)
        \<and> (\<forall>i. find_connection (vt_db (delete_connection i v)) c = find_connection (vt_db v) c
              \<and> vt_columns (delete_connection i v) c = vt_columns v c))
     \<and> (purpose \<noteq> ''recovery'' \<longrightarrow>
        (\<forall>es enc now b i v'. save_recovery_connection es enc now b v = Inr (i, v') \<longrightarrow>
           find_connection (vt_db v') c = find_connection (vt_db v) c \<and> vt_columns v' c = vt_columns v c)
        \<and> (\<forall>i v'. delete_recovery_connection i v = Inr v' \<longrightarrow>
              find_connection (vt_db v') c = find_connection (vt_db v) c \<and> vt_columns v' c = vt_columns v c))"
proof (intro conjI impI allI)
  fix enc now b i v'
  assume rec: "purpose = ''recovery''" and s: "save_connection enc now b v = Inr (i, v')"
  have "c \<noteq> i" using save_connection_saves [OF s] assms rec by auto
  with save_connection_saves [OF s] saves_find
  show "find_connection (vt_db v') c = find_connection (vt_db v) c" "vt_columns v' c = vt_columns v c" by blast+
next
  fix i
  assume rec: "purpose = ''recovery''"
  have "find_connection (vt_db (delete_connection i v)) c = find_connection (vt_db v) c \<and> vt_columns (delete_connection i v) c = vt_columns v c"
    using assms rec by (cases "c = i") (auto simp: delete_connection_def split: option.split)
  then show "find_connection (vt_db (delete_connection i v)) c = find_connection (vt_db v) c"
    "vt_columns (delete_connection i v) c = vt_columns v c" by blast+
next
  fix es enc now b i v'
  assume rec: "purpose \<noteq> ''recovery''" and s: "save_recovery_connection es enc now b v = Inr (i, v')"
  have "c \<noteq> i" using save_recovery_saves [OF s] assms rec by auto
  with save_recovery_saves [OF s] saves_find
  show "find_connection (vt_db v') c = find_connection (vt_db v) c" "vt_columns v' c = vt_columns v c" by blast+
next
  fix i v'
  assume rec: "purpose \<noteq> ''recovery''" and s: "delete_recovery_connection i v = Inr v'"
  have "v' = v \<or> c \<noteq> i \<and> v' = drop_connection i v"
    using s assms rec by (auto simp: delete_recovery_connection_def split: sum.splits if_splits)
  then show "find_connection (vt_db v') c = find_connection (vt_db v) c" "vt_columns v' c = vt_columns v c" by auto
qed

section \<open>Findings\<close>

lemma collect_Inr: "collect rs = Inr xs \<Longrightarrow> rs = map Inr xs"
  by (induction rs arbitrary: xs rule: collect.induct) (auto split: sum.splits)

lemma collect_Inl: "Inl e \<in> set rs \<Longrightarrow> \<exists>e'. collect rs = Inl e'"
  by (induction rs rule: collect.induct) (auto split: sum.split)

text \<open>C27: A recovery point is reported as ready exactly where there is one and everything is proved about it:
  its artifact is at most 48 hours old, the latest recovery test of it passed with its cleanup, the storage of its
  target is verified as immutable, and its metadata is complete.\<close>

theorem ready_means_proved:
  assumes "policy_item es dec now v j latest = Inr it"
  shows "it_risk it = Ready \<longleftrightarrow>
    (\<exists>r t target im. latest = Some r \<and> max 0 (rounded_seconds (now - run_at r)) \<le> 48 * 3600
       \<and> latest_test v (j_id j) (r_id r) = Some t \<and> te_status t = TPassed
       \<and> r_target r = Some target \<and> immutability_status es dec target v = Inr im \<and> im_enforced im
       \<and> metadata_complete v r)"
proof -
  obtain im where im: "immutability_findings es dec v (case latest of None \<Rightarrow> None | Some r \<Rightarrow> if present (r_target r) then r_target r else None) = Inr im"
    "it_risk it = risk_of (age_findings now latest @ test_findings v j latest @ im @ metadata_findings v latest)"
    using assms by (auto simp: policy_item_def Let_def split: sum.splits)
  have none: "risk_of fs = Ready \<longleftrightarrow> fs = []" for fs by (auto simp: risk_of_def)
  show ?thesis
  proof (cases latest)
    case None
    then show ?thesis by (simp add: im(2) none age_findings_def)
  next
    case (Some r)
    have tests: "test_findings v j (Some r) = [] \<longleftrightarrow> (\<exists>t. latest_test v (j_id j) (r_id r) = Some t \<and> te_status t = TPassed)"
      by (auto simp: test_findings_def split: option.split test_status.split)
    have imm: "im = [] \<longleftrightarrow> (\<exists>target m. r_target r = Some target \<and> target \<noteq> [] \<and> immutability_status es dec target v = Inr m \<and> im_enforced m)"
      using im(1) by (auto simp: Some immutability_findings_def present_def split: option.splits sum.splits if_splits)
    have meta: "metadata_complete v r \<longrightarrow> r_target r \<noteq> Some []" by (auto simp: metadata_complete_def present_def)
    show ?thesis using tests imm meta
      by (auto simp: im(2) none Some age_findings_def metadata_findings_def split: if_splits)
  qed
qed

text \<open>A schedule whose latest run of some pair is on a target that was deleted.\<close>

lemma missing_target_fails:
  assumes "es_ok es" and "i \<notin> t_id ` set (targets (vt_db v))"
  shows "immutability_status es dec i v = Inl (BadRequest ''Storage target not found'')"
proof -
  have "List.find (\<lambda>t. t_id t = i) (targets (vt_db v)) = None" using assms(2) by simp
  then show ?thesis using assms(1)
    by (simp only: immutability_status_def get_target_def assert_encryption_healthy_def) simp
qed

lemma policy_breaks:
  assumes "es_ok es" and "j \<in> set (jobs (vt_db v))" and "Some r \<in> set (candidates v j)"
    and "r_target r = Some i" and "i \<noteq> []" and "i \<notin> t_id ` set (targets (vt_db v))"
  shows "\<exists>e. policy es dec now v = Inl e"
proof -
  have "policy_item es dec now v j (Some r) = Inl (BadRequest ''Storage target not found'')"
    using missing_target_fails [OF assms(1,6)] assms(4,5)
    by (simp add: policy_item_def immutability_findings_def present_def)
  then have "Inl (BadRequest ''Storage target not found'')
      \<in> set (concat (map (\<lambda>j. map (policy_item es dec now v j) (candidates v j)) (sort_key j_name (jobs (vt_db v)))))"
    using assms(2,3) by (auto simp: image_iff) metis
  then show ?thesis unfolding policy_def by (rule collect_Inl)
qed

lemma begin_test_tables:
  assumes "begin_test es dec now suffix p r v = (res, v')" and "find_plan v (pl_id p) = Some p'" and "find_run (vt_db v) (r_id r) = Some r'"
  shows "targets (vt_db v') = targets (vt_db v)" "jobs (vt_db v') = jobs (vt_db v)" "runs (vt_db v') = runs (vt_db v)"
    "vt_plans v' = vt_plans v" "testing v' (pl_id p)"
    "res = (case snapshot_of es dec now v' of Inl e \<Rightarrow> Inl e | Inr _ \<Rightarrow> Inr (uuid (draws (vt_db v))))"
    "\<exists>t. vt_tests v' = vt_tests v @ [t] \<and> te_status t = TRunning \<and> te_plan t = pl_id p"
  using assms by (auto simp: begin_test_def fresh_id_def Let_def testing_def)

text \<open>C28: When the target of the latest run of any schedule has been deleted, the policy report fails as a whole; and a
  recovery test that begins then fails after its row is written, so that its plan stays blocked as testing
  although nothing runs: another test of it is refused until a tick finds the row six hours old.\<close>

theorem deleted_target_strands_recovery_tests:
  assumes "es_ok es" and "j \<in> set (jobs (vt_db v))" and "Some r \<in> set (candidates v j)"
    and "r_target r = Some i" and "i \<noteq> []" and "i \<notin> t_id ` set (targets (vt_db v))"
    and "find_plan v (pl_id p) = Some p'" and "find_run (vt_db v) (r_id q) = Some q'"
    and "begin_test es dec now suffix p q v = (res, v')"
  shows "(\<exists>e. policy es dec now v = Inl e) \<and> (\<exists>e. res = Inl e)
    \<and> select_test es dec (pl_id p) v' = Inl (BadRequest ''A recovery test is already running for this plan'')"
proof -
  note b = begin_test_tables [OF assms(9,7,8)]
  have "Some r \<in> set (candidates v' j)" using assms(3) by (simp add: candidates_def b(3))
  then obtain e where "policy es dec now v' = Inl e"
    using policy_breaks [of es j v' r i dec now] assms(1,2,4-6) b(1,2) by auto
  then have "\<exists>e. snapshot_of es dec now v' = Inl e" by (simp add: snapshot_of_def split: sum.split)
  then have "\<exists>e. res = Inl e" by (auto simp: b(6))
  moreover have "select_test es dec (pl_id p) v' = Inl (BadRequest ''A recovery test is already running for this plan'')"
    using assms(7) b(4,5) by (simp add: select_test_def find_plan_def)
  ultimately show ?thesis using policy_breaks [OF assms(1-6)] by blast
qed

lemma sorted_head: "sort_key f xs = x # ys \<Longrightarrow> x \<in> set xs"
  by (metis list.set_intros(1) set_sort)

text \<open>The second part of \<open>runTest\<close> does not look for a running test again: two calls that both passed the first part
  before either went on leave two running tests of one plan.\<close>

lemma tests_can_overlap:
  assumes "select_test es dec plan v = Inr (p, r, t)"
    and "begin_test es dec now s p r v = (res, v1)" and "begin_test es dec now' s' p r v1 = (res', v2)"
  shows "length (filter (\<lambda>t. te_plan t = plan \<and> te_status t = TRunning) (vt_tests v2)) \<ge> 2"
proof -
  note c = select_test_cases [OF assms(1)]
  have plan: "pl_id p = plan" using c by (auto simp: find_plan_def dest!: find_SomeD)
  have "r \<in> set (runs (vt_db v))" using c by (auto simp: latest_artifact_def split: list.splits dest!: sorted_head)
  then have "List.find (\<lambda>x. r_id x = r_id r) (runs (vt_db v)) \<noteq> None" by auto
  then obtain r' where r': "find_run (vt_db v) (r_id r) = Some r'" unfolding find_run_def by blast
  have p': "find_plan v (pl_id p) = Some p" using c plan by simp
  note b1 = begin_test_tables [OF assms(2) p' r']
  have r1: "find_run (vt_db v1) (r_id r) = Some r'" and p1: "find_plan v1 (pl_id p) = Some p"
    using r' p' b1(3,4) by (simp_all add: find_run_def find_plan_def)
  note b2 = begin_test_tables [OF assms(3) p1 r1]
  show ?thesis using b1(7) b2(7) plan by auto
qed

section \<open>Recovery tests end\<close>

lemma update_test_row: "vt_tests (update_test i f v) = update_where (\<lambda>t. te_id t = i) f (vt_tests v)"
  by (simp add: update_test_def)

definition test_settled :: "id \<Rightarrow> vault \<Rightarrow> bool" where
  "test_settled i v = (\<forall>t \<in> set (vt_tests v). te_id t = i \<longrightarrow> te_status t \<noteq> TRunning \<and> te_finished t \<noteq> None)"

lemma test_settled_update:
  assumes "\<And>t. te_id (f t) = te_id t \<and> te_status (f t) \<noteq> TRunning \<and> te_finished (f t) \<noteq> None"
  shows "test_settled i (update_test i f v)"
  unfolding test_settled_def update_test_row
proof (intro ballI impI)
  fix t assume "t \<in> set (update_where (\<lambda>t. te_id t = i) f (vt_tests v))" and i: "te_id t = i"
  then obtain x where "t = (if te_id x = i then f x else x)" by (auto simp: in_set_update_where)
  with i assms show "te_status t \<noteq> TRunning \<and> te_finished t \<noteq> None" by (cases "te_id x = i") simp_all
qed

lemma fail_test_parts:
  assumes "fail_test zones es dec now p i e v = (res, v')"
  shows "(\<exists>e'. res = Inl e') \<and> vt_tests v' = vt_tests (update_test i (\<lambda>t. t\<lparr>te_status := TFailed, te_finished := Some now,
     te_error := Some (take 1000 (message_of e))\<rparr>) v)"
  using assms unfolding fail_test_def Let_def
  by (auto dest!: advance_plan_keeps split: sum.splits)

lemma test_settled_fail:
  assumes "fail_test zones es dec now p i e v = (res, v')"
  shows "test_settled i v'"
proof -
  have "test_settled i (update_test i (\<lambda>t. t\<lparr>te_status := TFailed, te_finished := Some now,
     te_error := Some (take 1000 (message_of e))\<rparr>) v)" by (rule test_settled_update) simp
  then show ?thesis using fail_test_parts [OF assms] by (simp add: test_settled_def)
qed

lemma finished_test_row: "te_id (finished_test now st r rep t) = te_id t \<and> te_status (finished_test now st r rep t) \<noteq> TRunning
   \<and> te_finished (finished_test now st r rep t) \<noteq> None"
  by (simp add: finished_test_def test_verdict_def)

text \<open>When the restore of a recovery test ends, well or with any error, the test ends: no row of it is left
  running or without its end. Where the call succeeds its plan has the verdict and a next occurrence in the future
  of the schedule's own cron expression.\<close>

theorem recovery_test_ends:
  assumes "end_test zones es dec now started p r i out v = (res, v')"
  shows "test_settled i v' \<and>
    (case res of
       Inl _ \<Rightarrow> True
     | Inr status \<Rightarrow> status \<in> {TPassed, TWarning} \<and>
         (\<exists>nxt. next_cron zones (pl_cron p) (pl_timezone p) now = Inr nxt
            \<and> (\<forall>q \<in> set (vt_plans v'). pl_id q = pl_id p \<longrightarrow> pl_next_test q = Some nxt \<and> pl_last_status q = Some (test_status_text status))))"
proof (cases out)
  case (Inl e)
  with assms have failed: "fail_test zones es dec now p i e v = (res, v')" by (simp add: end_test_def)
  then show ?thesis using test_settled_fail [OF failed] fail_test_parts [OF failed] by auto
next
  case (Inr rep)
  define v1 where "v1 = update_test i (finished_test now started r rep) v"
  have s1: "test_settled i v1" unfolding v1_def by (rule test_settled_update) (rule finished_test_row)
  consider (failed) e u where "fail_test zones es dec now p i e u = (res, v')"
    | (passed) "advance_plan zones now p (fst (test_verdict rep)) (snd (test_verdict rep)) v1 = Inr v'" "res = Inr (fst (test_verdict rep))"
    using assms by (auto simp: end_test_def Inr Let_def v1_def [symmetric] split: sum.splits)
  then show ?thesis
  proof cases
    case failed
    then show ?thesis using test_settled_fail [OF failed] fail_test_parts [OF failed] by auto
  next
    case passed
    have "test_settled i v'" using s1 advance_plan_keeps [OF passed(1)] by (simp add: test_settled_def)
    moreover have "fst (test_verdict rep) \<in> {TPassed, TWarning}" by (simp add: test_verdict_def)
    ultimately show ?thesis using passed
      by (auto simp: advance_plan_def in_set_update_where split: sum.splits)
  qed
qed

section \<open>Point-in-time recovery\<close>

text \<open>A source is reported as ready for point-in-time recovery only where its capture is switched on, its coverage
  is recorded as continuous up to some time, and the checkpoint of the last capture names the latest successful
  baseline of the configured schedule on this source, with its coordinates and with a complete list of objects for
  each of its databases.\<close>

theorem ready_source_has_current_baseline:
  assumes "it \<in> set (pitr_status inspect v)" and "pt_state it = PitrReady"
  shows "\<exists>s pc b job. source_of v (pt_connection it) = Some s \<and> ps_enabled s \<and> ps_base_job s = Some job
    \<and> vt_captures v (pt_connection it) = Some pc \<and> pc_gap pc = ''continuous'' \<and> pc_continuous pc \<noteq> None
    \<and> latest_baseline v (Some job) (pt_connection it) = Some b \<and> pt_baseline it = Some (bl_run b)
    \<and> checkpoint_matches (json_or_empty (pc_checkpoint pc)) b
    \<and> objects_complete (json_or_empty (bl_names b)) (json_or_empty (bl_expected b)) = Some True"
proof -
  obtain c where it: "it = pitr_item_of inspect v c" using assms(1) by (auto simp: pitr_status_def)
  note ready = assms(2)
  obtain s pc where s: "source_of v (c_id c) = Some s" "vt_captures v (c_id c) = Some pc"
    "current_baseline (json_or_empty (pc_checkpoint pc)) (latest_baseline v (ps_base_job s) (c_id c)) = Some True"
    "ps_enabled s" "pc_gap pc = ''continuous''" "pc_continuous pc \<noteq> None"
    using ready unfolding it
    by (auto simp: pitr_item_of_def error_item_def proven_state_def source_enabled_def Let_def
        split: sum.splits option.splits if_splits)
  obtain b where b: "latest_baseline v (ps_base_job s) (c_id c) = Some b"
    "checkpoint_matches (json_or_empty (pc_checkpoint pc)) b"
    "objects_complete (json_or_empty (bl_names b)) (json_or_empty (bl_expected b)) = Some True"
    using s(3) by (auto simp: current_baseline_def split: option.splits if_splits)
  obtain job where job: "ps_base_job s = Some job" using b(1) by (auto simp: latest_baseline_def split: option.splits)
  have "pt_connection it = c_id c" by (simp add: it pitr_item_of_def error_item_def Let_def split: sum.split option.split)
  moreover have "pt_baseline it = Some (bl_run b)"
    using ready s b(1) unfolding it by (auto simp: pitr_item_of_def error_item_def Let_def split: sum.splits option.splits)
  ultimately show ?thesis using s b job by auto
qed

end
