(* ===== verification/Recovery_Witnesses.thy ===== *)
theory Recovery_Witnesses
  imports Recovery_Props
begin

text \<open>The properties of the recovery service at a small installation: one source, one recovery server, one schedule with
  an artifact on an object store, one plan with a passed test, and point-in-time capture.\<close>

section \<open>A small installation\<close>

definition small_source :: connection_row where
  "small_source = \<lparr>c_id = ''src'', c_name = ''a'', c_engine = ''mysql'', c_host = ''db1'', c_port = 6, c_database_name = [],
     c_names = Parsed (JArr []), c_purpose = ''backup'', c_group = None\<rparr>"

definition small_recovery :: connection_row where
  "small_recovery = small_source\<lparr>c_id := ''rec'', c_name := ''b'', c_host := ''db2'', c_purpose := ''recovery''\<rparr>"

definition small_columns :: connection_columns where
  "small_columns = \<lparr>cc_username = ''u'', cc_password = ''p'', cc_scope = ''selected'', cc_ssl = False, cc_created = 0\<rparr>"

definition small_job :: job_row where
  "small_job = \<lparr>j_id = ''j1'', j_name = ''n'', j_connection = ''src'', j_target = ''t1'', j_scope = ''all'', j_names = Parsed (JArr []),
     j_layout = ''single'', j_objects = Parsed (JObj []), j_insert_mode = ''extended'', j_cron = ''0 4 * * 0'', j_timezone = ''UTC'',
     j_enabled = True, j_compression = ''gzip'', j_encryption = ''none'', j_retention = 7, j_retry_count = 0, j_retry_delay = 300,
     j_overlap = ''skip'', j_prefix = ''n'', j_next_run = None, j_created = 0, j_start_grace = 15, j_max_age = 26, j_long_running = 120\<rparr>"

definition small_run :: run_row where
  "small_run = \<lparr>r_id = ''r1'', r_job = ''j1'', r_status = ''success'', r_started = 10, r_finished = Some 20, r_connection = Some ''src'',
     r_target = Some ''t1'', r_scope = Some ''all'', r_names = Parsed (JArr [JStr ''d'']), r_layout = Some ''single'', r_objects = Parsed (JObj []),
     r_insert_mode = Some ''extended'', r_compression = Some ''gzip'', r_encryption = Some ''none'', r_verification = Some ''passed'',
     r_attempt = None\<rparr>"

definition small_artifact :: artifact_columns where
  "small_artifact = \<lparr>ax_filename = Some ''f.gz'', ax_location = None, ax_folder = None, ax_sha256 = Some (concat (replicate 4 ''0123456789abcdef'')),
     ax_expected = Parsed (JObj [(''d'', JArr [JStr ''t''])]), ax_log_file = Some ''b.1'', ax_log_position = Some 4, ax_coordinate = Some 15\<rparr>"

definition small_plan :: plan_row where
  "small_plan = \<lparr>pl_id = ''p1'', pl_name = ''w'', pl_job = ''j1'', pl_destination = ''rec'', pl_cron = ''0 4 * * 0'', pl_timezone = ''UTC'',
     pl_enabled = True, pl_prefix = ''x'', pl_last_test = None, pl_next_test = Some 30, pl_last_status = None, pl_last_message = None,
     pl_created = 0\<rparr>"

definition small_test :: test_row where
  "small_test = \<lparr>te_id = ''e1'', te_plan = ''p1'', te_run = Some ''r1'', te_status = TPassed, te_started = 21, te_finished = Some 22,
     te_database = ''x'', te_destination = ''rec'', te_rpo = None, te_rto = None, te_expected = None, te_restored = None, te_evidence = [],
     te_error = None\<rparr>"

definition small_capture :: capture_columns where
  "small_capture = \<lparr>pc_target = Some ''t1'', pc_interval = 15, pc_last_capture = Some 25, pc_continuous = Some 25, pc_next = Some 40,
     pc_gap = ''continuous'', pc_checkpoint = Parsed (JObj [(''baselineRunId'', JStr ''r1''), (''baselineFile'', JStr ''b.1''),
       (''baselinePosition'', JNum 4)]), pc_message = ''ok''\<rparr>"

definition small_vault :: vault where
  "small_vault = \<lparr>vt_db = empty_db\<lparr>connections := [small_source, small_recovery], jobs := [small_job], runs := [small_run],
       targets := [\<lparr>t_id = ''t1'', t_name = ''s'', t_type = ''s3''\<rparr>],
       pitr_sources := [\<lparr>ps_connection = ''src'', ps_enabled = True, ps_base_job = Some ''j1''\<rparr>]\<rparr>,
     vt_columns = [''src'' \<mapsto> small_columns, ''rec'' \<mapsto> small_columns],
     vt_targets = [''t1'' \<mapsto> \<lparr>tc_config = ''c'', tc_created = 0\<rparr>],
     vt_health = [\<lparr>he_target = ''t1'', he_status = ''healthy'', he_message = ''Object Lock is enabled'', he_latency = 1, he_checked = 5, he_free = None\<rparr>],
     vt_artifacts = [''r1'' \<mapsto> small_artifact], vt_plans = [small_plan], vt_tests = [small_test], vt_rehearsals = [],
     vt_captures = [''src'' \<mapsto> small_capture], vt_captured = [(''src'', ''t1'')], vt_fleet = [], vt_workers = [], vt_closing = False\<rparr>"

definition small_dec :: "string \<Rightarrow> json option" where
  "small_dec s = Some (JObj [(''objectLockRequired'', JBool True)])"

definition small_status :: encryption_status where
  "small_status = \<lparr>es_ok = True, es_message = [], es_checked = 1, es_at = 0\<rparr>"

section \<open>Rehearsals\<close>

definition small_rehearsed :: vault where
  "small_rehearsed = (case rehearse_artifact 30 ''r1'' ''rec'' ''u1'' small_vault of Inr (i, v) \<Rightarrow> v | Inl _ \<Rightarrow> small_vault)"

lemma small_rehearsal_starts: "is_ok (rehearse_artifact 30 ''r1'' ''rec'' ''u1'' small_vault)"
  by code_simp

lemma small_rehearsed_run: "recovery_run small_rehearsed"
proof -
  obtain i v where v: "rehearse_artifact 30 ''r1'' ''rec'' ''u1'' small_vault = Inr (i, v)"
    using small_rehearsal_starts by (auto simp: is_ok_def split: sum.splits)
  have "recovery_run small_vault" by (rule recovery_run.empty) (simp_all add: small_vault_def)
  from recovery_run.step [OF this recovery_step.rehearse [OF v]] show ?thesis by (simp add: small_rehearsed_def v)
qed

lemma small_rehearsal_runs: "map rh_connection (running_rehearsals small_rehearsed) = [''rec'']"
  by code_simp

theorem one_rehearsal_per_destination_witness:
  "map rh_connection (running_rehearsals small_rehearsed) = [''rec''] \<and> purpose_of small_rehearsed ''rec'' = Some ''recovery''
   \<and> (\<exists>w \<in> set (vt_workers small_rehearsed). rw_id w \<in> rh_id ` set (running_rehearsals small_rehearsed))"
proof -
  obtain r where r: "r \<in> set (running_rehearsals small_rehearsed)" "rh_connection r = ''rec''"
    using small_rehearsal_runs by (cases "running_rehearsals small_rehearsed") auto
  note inv = one_rehearsal_per_destination [OF small_rehearsed_run]
  from inv r have "purpose_of small_rehearsed ''rec'' = Some ''recovery''" by metis
  moreover from inv r obtain w where "w \<in> set (vt_workers small_rehearsed)" "rw_id w = rh_id r" by blast
  ultimately show ?thesis using small_rehearsal_runs r(1) by auto
qed

lemma small_test_selected:
  "(case select_test small_status small_dec ''p1'' small_vault of Inr (p, r, t) \<Rightarrow> p = small_plan \<and> r = small_run | Inl _ \<Rightarrow> False)"
  by code_simp


section \<open>Connections\<close>

definition small_input :: connection_input where
  "small_input = \<lparr>ci_id = Some ''src'', ci_name = ''a2'', ci_engine = None, ci_host = ''db3'', ci_port = None, ci_username = ''u2'',
     ci_password = Some ''q'', ci_database = None, ci_ssl = True\<rparr>"

definition small_saved :: vault where
  "small_saved = (case save_connection rev 50 small_input small_vault of Inr (i, v) \<Rightarrow> v | Inl _ \<Rightarrow> small_vault)"

lemma small_saved_ok: "is_ok (save_connection rev 50 small_input small_vault)"
  and small_saved_changes: "map_option c_host (find_connection (vt_db small_saved) ''src'') = Some ''db3''"
  and small_purpose: "purpose_of small_vault ''rec'' = Some ''recovery''"
  by code_simp+

theorem connections_stay_with_their_service_witness:
  "find_connection (vt_db small_saved) ''rec'' = find_connection (vt_db small_vault) ''rec''
   \<and> vt_columns small_saved ''rec'' = vt_columns small_vault ''rec'' \<and> map_option c_host (find_connection (vt_db small_saved) ''src'') = Some ''db3''"
proof -
  obtain i v where v: "save_connection rev 50 small_input small_vault = Inr (i, v)"
    using small_saved_ok by (auto simp: is_ok_def split: sum.splits)
  then have "small_saved = v" by (simp add: small_saved_def)
  with connections_stay_with_their_service [OF small_purpose] v small_saved_changes show ?thesis by blast
qed

section \<open>Reports\<close>

definition small_item :: item where
  "small_item = (case policy_item small_status small_dec 1000 small_vault small_job (Some small_run) of
     Inr it \<Rightarrow> it | Inl _ \<Rightarrow> \<lparr>it_job = [], it_run = None, it_at = None, it_target = None, it_findings = [], it_risk = RiskHigh\<rparr>)"

lemma small_item_ready: "it_risk small_item = Ready"
  by code_simp

theorem ready_means_proved_witness:
  "\<exists>im. immutability_status small_status small_dec ''t1'' small_vault = Inr im \<and> im_enforced im"
proof -
  obtain it where it: "policy_item small_status small_dec 1000 small_vault small_job (Some small_run) = Inr it" "it_risk it = Ready"
    using small_item_ready by (auto simp: small_item_def split: sum.splits)
  with ready_means_proved [OF it(1)] show ?thesis by (auto simp: small_run_def)
qed

definition stranded_vault :: vault where
  "stranded_vault = small_vault\<lparr>vt_db := (vt_db small_vault)\<lparr>targets := []\<rparr>\<rparr>"

lemma stranded_parts:
  "list_ex (\<lambda>c. c = Some small_run) (candidates stranded_vault small_job)" "jobs (vt_db stranded_vault) = [small_job]"
  "targets (vt_db stranded_vault) = []" "find_plan stranded_vault ''p1'' = Some small_plan"
  "find_run (vt_db stranded_vault) ''r1'' = Some small_run"
  by code_simp+

theorem deleted_target_strands_recovery_tests_witness:
  "(\<exists>e. policy small_status small_dec 1000 stranded_vault = Inl e)
   \<and> select_test small_status small_dec ''p1'' (snd (begin_test small_status small_dec 1000 ''s'' small_plan small_run stranded_vault))
       = Inl (BadRequest ''A recovery test is already running for this plan'')"
proof -
  have ids: "pl_id small_plan = ''p1''" "r_id small_run = ''r1''" "r_target small_run = Some ''t1''"
    by (simp_all add: small_plan_def small_run_def)
  have "es_ok small_status" by (simp add: small_status_def)
  moreover have "small_job \<in> set (jobs (vt_db stranded_vault))" by (simp add: stranded_parts)
  moreover have "Some small_run \<in> set (candidates stranded_vault small_job)"
    using stranded_parts(1) by (simp add: list_ex_iff)
  moreover have "''t1'' \<notin> t_id ` set (targets (vt_db stranded_vault))" by (simp add: stranded_parts)
  ultimately show ?thesis
    using deleted_target_strands_recovery_tests [where p = small_plan and q = small_run and v = stranded_vault and r = small_run
        and j = small_job and i = "''t1''" and es = small_status and dec = small_dec and now = 1000 and suffix = "''s''"
        and p' = small_plan and q' = small_run, OF _ _ _ ids(3)]
      stranded_parts(4,5) ids by (metis (no_types, lifting) list.distinct(1) prod.collapse)
qed

theorem recovery_test_ends_witness:
  "test_settled ''e1'' (snd (end_test (\<lambda>_. None) small_status small_dec 1000 30 small_plan small_run ''e1'' (Inl (Failure ''x'')) small_vault))"
  using recovery_test_ends [OF prod.collapse [symmetric]] by blast

theorem ready_source_has_current_baseline_witness:
  "map pt_state (pitr_status (\<lambda>_. Inr ()) small_vault) = [PitrReady]
   \<and> (\<exists>b. latest_baseline small_vault (Some ''j1'') ''src'' = Some b \<and> bl_run b = ''r1'')"
proof -
  have s: "map pt_state (pitr_status (\<lambda>_. Inr ()) small_vault) = [PitrReady]"
    "map pt_connection (pitr_status (\<lambda>_. Inr ()) small_vault) = [''src'']"
    "map pt_baseline (pitr_status (\<lambda>_. Inr ()) small_vault) = [Some ''r1'']"
    "map_option ps_base_job (source_of small_vault ''src'') = Some (Some ''j1'')" by code_simp+
  then obtain it where "pitr_status (\<lambda>_. Inr ()) small_vault = [it]" "pt_state it = PitrReady" "pt_connection it = ''src''"
    "pt_baseline it = Some ''r1''" by auto
  with ready_source_has_current_baseline [of it "\<lambda>_. Inr ()" small_vault] s show ?thesis by auto
qed

end
