(* ===== verification/Storage_Files.thy ===== *)
theory Storage_Files
  imports Storage_Targets Http_Server
begin

text \<open>
  What \<open>src/storage/storage.service.ts\<close> does with files: the paths of local targets, the limits and slots of
  downloads, whether an artifact is still there, and the rotation of old ones. A request to a remote
  store is an argument: its answer or its error.
\<close>

section \<open>Paths\<close>

text \<open>Absolute paths are the lists of their segments; \<open>path.resolve\<close> of a text, from the working directory.\<close>

definition resolve_text :: "string list \<Rightarrow> string \<Rightarrow> string list" where
  "resolve_text cwd s = (if s \<noteq> [] \<and> hd s = CHR ''/'' then resolve_path [] s else resolve_path cwd s)"

fun common_prefix :: "string list \<Rightarrow> string list \<Rightarrow> nat" where
  "common_prefix (x # xs) (y # ys) = (if x = y then Suc (common_prefix xs ys) else 0)"
| "common_prefix _ _ = 0"

definition relative_path :: "string list \<Rightarrow> string list \<Rightarrow> string list" where
  "relative_path base cand =
     (let k = common_prefix base cand in replicate (length base - k) ''..'' @ drop k cand)"

definition is_within :: "string list \<Rightarrow> string list \<Rightarrow> bool" where
  "is_within base cand =
     (case relative_path base cand of [] \<Rightarrow> True | s # _ \<Rightarrow> \<not> starts_with s ''..'')"

definition forbidden_char :: "char \<Rightarrow> bool" where
  "forbidden_char c = (c \<in> {CHR 0x5C, CHR ''/'', CHR 0x00})"

definition validate_filename :: "string \<Rightarrow> unit result" where
  "validate_filename s =
     (if s = [] \<or> list_ex forbidden_char s then Inl (BadRequest ''Invalid backup filename'') else Inr ())"

definition validate_folder :: "string \<Rightarrow> unit result" where
  "validate_folder s =
     (if s \<noteq> [] \<and> (s = ''.'' \<or> s = ''..'' \<or> list_ex forbidden_char s)
      then Inl (BadRequest ''Invalid schedule backup folder'') else Inr ())"

definition config_text :: "settings_object \<Rightarrow> string \<Rightarrow> string" where
  "config_text c k = text_of (map_of c k)"

text \<open>\<open>localDir\<close>: inside the data directory's \<open>backups\<close>, unless any path is allowed. The protocol that
  \<open>new URL\<close> reads from a text, and \<open>None\<close> where it throws, is a parameter.\<close>

record host_env =
  ho_cwd :: "string list"
  ho_data :: "string list"
  ho_any_path :: bool
  ho_protocol :: "string \<Rightarrow> string option"

definition local_dir :: "host_env \<Rightarrow> target \<Rightarrow> string list result" where
  "local_dir h t =
     (let requested = config_text (st_config t) ''path''; base = ho_data h @ [''backups'']; dir = resolve_text (ho_cwd h) requested
      in if requested = [] then Inl (Failure ''Local storage path is required'')
         else if \<not> ho_any_path h \<and> \<not> is_within base dir then Inl (Failure (''Local paths must be inside /'' @ join ''/'' base))
         else Inr dir)"

definition in_folder :: "string list \<Rightarrow> string \<Rightarrow> string \<Rightarrow> string list" where
  "in_folder dir folder name = resolve_path (resolve_path dir folder) name"

section \<open>Files of a local target\<close>

text \<open>The regular files, by path, and the directories. The directories are the ones that \<open>dirs\<close> tells and,
  once a folder is there, the folder and all above it.\<close>

type_synonym files = "string list \<rightharpoonup> string"

definition is_directory :: "(string list \<Rightarrow> bool) \<Rightarrow> string list \<Rightarrow> string list \<Rightarrow> bool" where
  "is_directory dirs d p = (dirs p \<or> take (length p) d = p)"

text \<open>\<open>upload\<close> to a local target: the copy of the local file, which may be gone; a copy over a directory fails.\<close>

definition upload_local ::
  "host_env \<Rightarrow> (string list \<Rightarrow> bool) \<Rightarrow> target \<Rightarrow> string list \<Rightarrow> string \<Rightarrow> string \<Rightarrow> files \<Rightarrow> (string list \<times> files) result" where
  "upload_local h dirs t source name folder fs =
     (case (validate_filename name, validate_folder folder, local_dir h t) of
        (Inl e, _, _) \<Rightarrow> Inl e
      | (_, Inl e, _) \<Rightarrow> Inl e
      | (_, _, Inl e) \<Rightarrow> Inl e
      | (Inr _, Inr _, Inr dir) \<Rightarrow>
          (let d = resolve_path dir folder; destination = resolve_path d name
           in if \<not> is_within dir d then Inl (BadRequest ''Invalid local schedule backup folder'')
              else (case fs source of
                      None \<Rightarrow> Inl (BadRequest ''The temporary backup file is no longer available to upload'')
                    | Some content \<Rightarrow>
                        if is_directory dirs d destination then Inl (Failure ''EISDIR: illegal operation on a directory, copyfile'')
                        else Inr (destination, fs(destination \<mapsto> content)))))"

text \<open>\<open>download\<close> of a local target: the file itself, not to be cleaned up. \<open>existsSync\<close> holds of directories, too.\<close>

definition download_local :: "host_env \<Rightarrow> (string list \<Rightarrow> bool) \<Rightarrow> target \<Rightarrow> string \<Rightarrow> string \<Rightarrow> files \<Rightarrow> string list result" where
  "download_local h dirs t name folder fs =
     (case (validate_filename name, validate_folder folder, local_dir h t) of
        (Inl e, _, _) \<Rightarrow> Inl e
      | (_, Inl e, _) \<Rightarrow> Inl e
      | (_, _, Inl e) \<Rightarrow> Inl e
      | (Inr _, Inr _, Inr dir) \<Rightarrow>
          (let file' = in_folder dir folder name
           in if \<not> is_within dir file' \<or> (fs file' = None \<and> \<not> dirs file')
              then Inl (BadRequest ''Backup file is no longer available in local storage'') else Inr file'))"

section \<open>Limits of downloads\<close>

definition mib :: int where
  "mib = 1024 * 1024"

text \<open>A third of the free space less the reserve, at most 64 GiB; \<open>Math.floor(free * 0.05)\<close>.\<close>

definition download_limit_bytes :: "int \<Rightarrow> int \<Rightarrow> int result" where
  "download_limit_bytes blocks block =
     (let free = blocks * block; reserve = max (128 * mib) (free div 20); share = (free - reserve) div 3
      in if share < mib then Inl (BadRequest ''Not enough free temporary storage to safely stage a backup download'')
         else Inr (min (64 * 1024 * mib) share))"

text \<open>\<open>DownloadLimitTransform\<close>: the chunks that pass, until the limit is exceeded.\<close>

fun limit_transform :: "int \<Rightarrow> int \<Rightarrow> string list \<Rightarrow> string list \<times> http_error option" where
  "limit_transform limit n [] = ([], None)"
| "limit_transform limit n (c # cs) =
     (let n' = n + int (length c)
      in if n' > limit
         then ([], Some (BadRequest (''Backup download exceeds the available temporary-storage limit ('' @ Json_Text.show_int limit @ '' bytes)'')))
         else let (out, e) = limit_transform limit n' cs in (c # out, e))"

text \<open>The slots: \<open>activeDownloads\<close> and \<open>downloadWaiters\<close>; a download that waits is its number.\<close>

record slots =
  sl_active :: nat
  sl_waiting :: "nat list"

definition acquire_slot :: "nat \<Rightarrow> slots \<Rightarrow> bool \<times> slots" where
  "acquire_slot k s =
     (if sl_active s < 3 then (True, s\<lparr>sl_active := Suc (sl_active s)\<rparr>) else (False, s\<lparr>sl_waiting := sl_waiting s @ [k]\<rparr>))"

definition release_slot :: "slots \<Rightarrow> nat option \<times> slots" where
  "release_slot s =
     (case sl_waiting s of
        [] \<Rightarrow> (None, s\<lparr>sl_active := sl_active s - 1\<rparr>)
      | k # ks \<Rightarrow> (Some k, s\<lparr>sl_waiting := ks\<rparr>))"

section \<open>Whether an artifact is there\<close>

record remote_error =
  re_code :: string
  re_message :: string

definition upper_char :: "char \<Rightarrow> char" where
  "upper_char c = (if CHR ''a'' \<le> c \<and> c \<le> CHR ''z'' then char_of ((of_char c :: nat) - 32) else c)"

definition missing_codes :: "string list" where
  "missing_codes = [''ENOENT'', ''ENOTFOUND'', ''NOTFOUND'', ''NOSUCHKEY'', ''404'', ''410'']"

definition missing_message :: rx where
  "missing_message = rx_alt [rx_word ''404'', rx_word ''410'', rx_text ''no such file'', rx_text ''not found'', rx_text ''does not exist'', rx_text ''cannot find'']"

definition is_missing_remote :: "remote_error \<Rightarrow> bool" where
  "is_missing_remote e =
     (map upper_char (re_code e) \<in> set missing_codes \<or> rx_test missing_message (to_lower (re_message e)))"

definition remote_failure :: "remote_error \<Rightarrow> http_error" where
  "remote_failure e = Failure (re_message e)"

text \<open>FTP and S3: an answer, or an error that may say that the file is missing.\<close>

definition answered_available :: "(remote_error, unit) sum \<Rightarrow> bool result" where
  "answered_available r =
     (case r of
        Inr _ \<Rightarrow> Inr True
      | Inl e \<Rightarrow> if is_missing_remote e then Inr False else Inl (remote_failure e))"

definition ok_status :: "int \<Rightarrow> bool" where
  "ok_status n = (200 \<le> n \<and> n < 300)"

text \<open>WebDAV: HEAD, or PROPFIND where the server does not support it.\<close>

definition webdav_available :: "int \<Rightarrow> int \<Rightarrow> bool result" where
  "webdav_available head propfind =
     (let status = (if head \<in> {405, 501} then propfind else head)
      in if status \<in> {404, 410} then Inr False
         else if \<not> ok_status status then Inl (BadRequest (''WebDAV availability check returned '' @ Json_Text.show_int status))
         else Inr True)"

definition strip_scheme :: "string \<Rightarrow> string \<Rightarrow> string" where
  "strip_scheme scheme s = (if starts_with s scheme then drop (length scheme) s else s)"

text \<open>Google Drive: the location holds the id of the file.\<close>

definition drive_available :: "string option \<Rightarrow> int \<Rightarrow> json \<Rightarrow> bool result" where
  "drive_available location status body =
     (let i = strip_scheme ''gdrive://'' (case location of None \<Rightarrow> [] | Some s \<Rightarrow> s)
      in if i = [] \<or> location = Some i then Inr False
         else if status \<in> {404, 410} then Inr False
         else if \<not> ok_status status then Inl (Failure (''Google Drive availability check returned '' @ Json_Text.show_int status))
         else Inr (jget body ''trashed'' \<noteq> Some (JBool True)))"

definition onedrive_available :: "int \<Rightarrow> json \<Rightarrow> bool result" where
  "onedrive_available status body =
     (if status \<in> {404, 410} then Inr False
      else if \<not> ok_status status then Inl (Failure (''OneDrive availability check returned '' @ Json_Text.show_int status))
      else Inr (truth_of (jget body ''file'') \<or> truth_of (jget body ''id'')))"

text \<open>What the remote side answers to the requests of \<open>isAvailable\<close>.\<close>

record remote_answer =
  ra_reply :: "(remote_error, unit) sum"
  ra_status :: int
  ra_second :: int
  ra_body :: json

definition is_available :: "host_env \<Rightarrow> (string list \<Rightarrow> bool) \<Rightarrow> files \<Rightarrow> remote_answer \<Rightarrow> target \<Rightarrow> string \<Rightarrow> string option \<Rightarrow> string \<Rightarrow> bool result" where
  "is_available h dirs fs ra t name location folder =
     (case (validate_filename name, validate_folder folder) of
        (Inl e, _) \<Rightarrow> Inl e
      | (_, Inl e) \<Rightarrow> Inl e
      | (Inr _, Inr _) \<Rightarrow>
          (if st_type t = ''local'' then
             (case local_dir h t of
                Inl e \<Rightarrow> Inl e
              | Inr dir \<Rightarrow> Inr (is_within dir (in_folder dir folder name)
                    \<and> (fs (in_folder dir folder name) \<noteq> None \<or> dirs (in_folder dir folder name))))
           else if st_type t = ''ftp'' \<or> st_type t = ''s3'' then answered_available (ra_reply ra)
           else if st_type t = ''webdav'' then webdav_available (ra_status ra) (ra_second ra)
           else if st_type t = ''google-drive'' then drive_available location (ra_status ra) (ra_body ra)
           else if st_type t = ''onedrive'' then onedrive_available (ra_status ra) (ra_body ra)
           else Inr False))"

section \<open>Rotation\<close>

text \<open>The names with the prefix beyond the first \<open>n\<close>, newest first: names carry the time of the backup.\<close>

definition newest_first :: "string list \<Rightarrow> string list" where
  "newest_first names = rev (sort names)"

definition surplus :: "nat \<Rightarrow> string \<Rightarrow> string list \<Rightarrow> string list" where
  "surplus n prefix names = drop n (newest_first (filter (\<lambda>s. starts_with s prefix) names))"

text \<open>Files are deleted one by one; a file that is missing is skipped, another error (an abort between two
  deletions is one) ends the rotation after what was confirmed.\<close>

datatype deletion = Deleted | Missing | Refused http_error

fun delete_files :: "('a \<Rightarrow> string) \<Rightarrow> ('a \<Rightarrow> deletion) \<Rightarrow> 'a list \<Rightarrow> string list \<times> http_error option" where
  "delete_files name del [] = ([], None)"
| "delete_files name del (f # fs) =
     (case del f of
        Refused e \<Rightarrow> ([], Some e)
      | Missing \<Rightarrow> delete_files name del fs
      | Deleted \<Rightarrow> (let (xs, e) = delete_files name del fs in (name f # xs, e)))"

text \<open>A local directory: its entries, each a file or not, or the error of \<open>readdirSync\<close>; what removing each brings.\<close>

definition local_deletion :: "(remote_error, unit) sum \<Rightarrow> deletion" where
  "local_deletion r =
     (case r of Inr _ \<Rightarrow> Deleted | Inl e \<Rightarrow> if re_code e = ''ENOENT'' then Missing else Refused (remote_failure e))"

definition rotate_local ::
  "string list \<Rightarrow> nat \<Rightarrow> string \<Rightarrow> (remote_error, (string \<times> bool) list) sum \<Rightarrow> (string \<Rightarrow> (remote_error, unit) sum) \<Rightarrow> files
     \<Rightarrow> (string list \<times> http_error option) \<times> files" where
  "rotate_local dir n prefix entries remove fs =
     (case entries of
        Inl e \<Rightarrow> (if re_code e = ''ENOENT'' then (([], None), fs) else (([], Some (remote_failure e)), fs))
      | Inr es \<Rightarrow>
          (let (gone, e) = delete_files (\<lambda>s. s) (\<lambda>s. local_deletion (remove s)) (surplus n prefix (map fst (filter snd es)))
           in ((gone, e), fs |` (- ((\<lambda>f. dir @ [f]) ` set gone)))))"

text \<open>The remote stores: files in the order of \<open>localeCompare\<close> of their names.\<close>

definition by_name :: "(string \<Rightarrow> string \<Rightarrow> bool) \<Rightarrow> ('a \<Rightarrow> string) \<Rightarrow> 'a list \<Rightarrow> 'a list" where
  "by_name before name fs = foldr (\<lambda>x xs. takeWhile (\<lambda>y. before (name y) (name x)) xs @ x # dropWhile (\<lambda>y. before (name y) (name x)) xs) fs []"

text \<open>\<open>rotationFiles\<close>: \<open>before a b\<close> says that \<open>a\<close> comes before \<open>b\<close> by \<open>localeCompare\<close>, newest first.\<close>

definition rotation_files :: "(string \<Rightarrow> string \<Rightarrow> bool) \<Rightarrow> string \<Rightarrow> ('a \<Rightarrow> string) \<Rightarrow> 'a list \<Rightarrow> 'a list" where
  "rotation_files before prefix name fs = by_name before name (filter (\<lambda>f. starts_with (name f) prefix) fs)"

definition deletion_status :: "string \<Rightarrow> int \<Rightarrow> deletion" where
  "deletion_status what n =
     (if n \<in> {404, 410} then Missing else if ok_status n then Deleted else Refused (Failure (what @ '' could not delete an old backup ('' @ Json_Text.show_int n @ '')'')))"

text \<open>FTP: the session may not come up, and the listing may say that the directory is missing.\<close>

definition deletion_reply :: "(remote_error, unit) sum \<Rightarrow> deletion" where
  "deletion_reply r = (case r of Inr _ \<Rightarrow> Deleted | Inl e \<Rightarrow> if is_missing_remote e then Missing else Refused (remote_failure e))"

definition rotate_ftp ::
  "(string \<Rightarrow> string \<Rightarrow> bool) \<Rightarrow> nat \<Rightarrow> string \<Rightarrow> http_error option \<Rightarrow> (remote_error, (string \<times> int) list) sum
     \<Rightarrow> (string \<Rightarrow> (remote_error, unit) sum) \<Rightarrow> string list \<times> http_error option" where
  "rotate_ftp before n prefix access listing reply =
     (case access of
        Some e \<Rightarrow> ([], Some e)
      | None \<Rightarrow>
          (case listing of
             Inl e \<Rightarrow> if is_missing_remote e then ([], None) else ([], Some (remote_failure e))
           | Inr es \<Rightarrow> delete_files (\<lambda>s. s) (\<lambda>s. deletion_reply (reply s))
               (drop n (rotation_files before prefix (\<lambda>s. s) (map fst (filter (\<lambda>e. snd e = 1) es))))))"

text \<open>WebDAV: the names of a PROPFIND answer; each deletion answers a status or fails.\<close>

definition webdav_deletion :: "(remote_error, int) sum \<Rightarrow> deletion" where
  "webdav_deletion r =
     (case r of
        Inl e \<Rightarrow> if is_missing_remote e then Missing else Refused (remote_failure e)
      | Inr k \<Rightarrow> (case deletion_status ''WebDAV'' k of
            Refused _ \<Rightarrow> Refused (BadRequest (''WebDAV could not delete an old backup ('' @ Json_Text.show_int k @ '')''))
          | d \<Rightarrow> d))"

definition rotate_webdav ::
  "(string \<Rightarrow> string \<Rightarrow> bool) \<Rightarrow> nat \<Rightarrow> string \<Rightarrow> (remote_error, int \<times> string list) sum \<Rightarrow> (string \<Rightarrow> (remote_error, int) sum)
     \<Rightarrow> string list \<times> http_error option" where
  "rotate_webdav before n prefix listing reply =
     (case listing of
        Inl e \<Rightarrow> if is_missing_remote e then ([], None) else ([], Some (remote_failure e))
      | Inr (status, names) \<Rightarrow>
          (if status \<in> {404, 410} then ([], None)
           else if \<not> ok_status status then ([], Some (BadRequest (''WebDAV rotation listing returned '' @ Json_Text.show_int status)))
           else delete_files (\<lambda>s. s) (\<lambda>s. webdav_deletion (reply s)) (drop n (rotation_files before prefix (\<lambda>s. s) names))))"

text \<open>Google Drive and OneDrive list pages until one has no successor: the pages the server gives, each a
  status and its files (no folders) by id and name, or a request that fails.\<close>

type_synonym remote_page = "(remote_error, int \<times> (string \<times> string) list) sum"

fun page_files :: "string \<Rightarrow> bool \<Rightarrow> remote_page list \<Rightarrow> (string \<times> string) list option result" where
  "page_files what absent [] = Inr (Some [])"
| "page_files what absent (Inl e # ps) = Inl (remote_failure e)"
| "page_files what absent (Inr (status, fs) # ps) =
     (if absent \<and> status \<in> {404, 410} then Inr None
      else if \<not> ok_status status then Inl (Failure (what @ '' rotation listing returned '' @ Json_Text.show_int status))
      else (case page_files what absent ps of
              Inl e \<Rightarrow> Inl e
            | Inr None \<Rightarrow> Inr None
            | Inr (Some rest) \<Rightarrow> Inr (Some (filter (\<lambda>(i, s). i \<noteq> [] \<and> s \<noteq> []) fs @ rest))))"

definition page_deletion :: "string \<Rightarrow> (remote_error, int) sum \<Rightarrow> deletion" where
  "page_deletion what r = (case r of Inl e \<Rightarrow> Refused (remote_failure e) | Inr k \<Rightarrow> deletion_status what k)"

definition rotate_pages ::
  "string \<Rightarrow> bool \<Rightarrow> (string \<Rightarrow> string \<Rightarrow> bool) \<Rightarrow> nat \<Rightarrow> string \<Rightarrow> remote_page list \<Rightarrow> (string \<Rightarrow> (remote_error, int) sum)
     \<Rightarrow> string list \<times> http_error option" where
  "rotate_pages what absent before n prefix pages reply =
     (case page_files what absent pages of
        Inl e \<Rightarrow> ([], Some e)
      | Inr None \<Rightarrow> ([], None)
      | Inr (Some fs) \<Rightarrow> delete_files snd (\<lambda>f. page_deletion what (reply (fst f))) (drop n (rotation_files before prefix snd fs)))"

definition rotate_google_drive ::
  "(string \<Rightarrow> string \<Rightarrow> bool) \<Rightarrow> nat \<Rightarrow> string \<Rightarrow> remote_page list \<Rightarrow> (string \<Rightarrow> (remote_error, int) sum) \<Rightarrow> string list \<times> http_error option" where
  "rotate_google_drive = rotate_pages ''Google Drive'' False"

definition rotate_onedrive ::
  "(string \<Rightarrow> string \<Rightarrow> bool) \<Rightarrow> nat \<Rightarrow> string \<Rightarrow> remote_page list \<Rightarrow> (string \<Rightarrow> (remote_error, int) sum) \<Rightarrow> string list \<times> http_error option" where
  "rotate_onedrive = rotate_pages ''OneDrive'' True"

text \<open>S3: the settings that \<open>s3Config\<close> reads and checks, as far as the rotation needs them.\<close>

record s3_settings =
  sc_bucket :: string
  sc_prefix :: string
  sc_locked :: bool

definition bucket_char :: "char \<Rightarrow> bool" where
  "bucket_char c = (CHR ''a'' \<le> c \<and> c \<le> CHR ''z'' \<or> CHR ''0'' \<le> c \<and> c \<le> CHR ''9'')"

definition valid_bucket :: "string \<Rightarrow> bool" where
  "valid_bucket s =
     (3 \<le> length s \<and> length s \<le> 63 \<and> bucket_char (hd s) \<and> bucket_char (last s)
      \<and> list_all (\<lambda>c. bucket_char c \<or> c = CHR ''.'' \<or> c = CHR ''-'') s)"

definition strip_slashes :: "string \<Rightarrow> string" where
  "strip_slashes s = rev (dropWhile (\<lambda>c. c = CHR ''/'') (rev (dropWhile (\<lambda>c. c = CHR ''/'') s)))"

definition s3_config :: "host_env \<Rightarrow> target \<Rightarrow> s3_settings result" where
  "s3_config h t =
     (let c = st_config t; bucket = trim (config_text c ''bucket'')
      in if \<not> valid_bucket bucket then Inl (BadRequest ''Enter a valid S3 bucket name'')
         else if trim (config_text c ''accessKeyId'') = [] \<or> trim (config_text c ''secretAccessKey'') = []
         then Inl (BadRequest ''S3 access key and secret key are required'')
         else if truth_of (map_of c ''endpoint'') \<and> ho_protocol h (config_text c ''endpoint'') \<notin> {Some ''http:'', Some ''https:''}
         then Inl (BadRequest ''S3 endpoint must be a valid http:// or https:// URL'')
         else Inr \<lparr>sc_bucket = bucket, sc_prefix = strip_slashes (config_text c ''prefix''),
                    sc_locked = truth_of (map_of c ''objectLockRequired'')\<rparr>)"

text \<open>Nothing is rotated where Object Lock is required; else the keys the bucket lists below the prefix key, the
  last in the order of the keys first. The server's answer to the listing of a prefix, over all pages, and
  to the deletion of a key are arguments.\<close>

definition last_segment :: "string \<Rightarrow> string" where
  "last_segment k = (let s = last (split_on (CHR ''/'') k) in if s = [] then k else s)"

definition s3_deletion :: "(remote_error, bool) sum \<Rightarrow> deletion" where
  "s3_deletion r =
     (case r of
        Inr refused \<Rightarrow> if refused then Refused (Failure ''S3 did not acknowledge retention deletion'') else Deleted
      | Inl e \<Rightarrow> if is_missing_remote e then Missing else Refused (remote_failure e))"

definition s3_prefix_key :: "s3_settings \<Rightarrow> string \<Rightarrow> string \<Rightarrow> string" where
  "s3_prefix_key c folder prefix = join ''/'' (filter (\<lambda>s. s \<noteq> []) [sc_prefix c, folder, prefix])"

definition rotate_s3 ::
  "host_env \<Rightarrow> target \<Rightarrow> nat \<Rightarrow> string \<Rightarrow> string \<Rightarrow> (string \<Rightarrow> (remote_error, string list) sum) \<Rightarrow> (string \<Rightarrow> (remote_error, bool) sum)
     \<Rightarrow> string list \<times> http_error option" where
  "rotate_s3 h t n prefix folder listing reply =
     (case s3_config h t of
        Inl e \<Rightarrow> ([], Some e)
      | Inr c \<Rightarrow>
          (if sc_locked c then ([], None)
           else case listing (s3_prefix_key c folder prefix) of
             Inl e \<Rightarrow> ([], Some (remote_failure e))
           | Inr keys \<Rightarrow> delete_files last_segment (\<lambda>k. s3_deletion (reply k)) (drop n (newest_first (filter (\<lambda>k. k \<noteq> []) keys)))))"

text \<open>\<open>rotate\<close>: nothing for a retention below one. What the stores answer is an argument, and so is an abort that
  came before.\<close>

record rotation_answers =
  an_aborted :: "http_error option"
  an_entries :: "(remote_error, (string \<times> bool) list) sum"
  an_remove :: "string \<Rightarrow> (remote_error, unit) sum"
  an_ftp_access :: "http_error option"
  an_ftp :: "(remote_error, (string \<times> int) list) sum"
  an_ftp_delete :: "string \<Rightarrow> (remote_error, unit) sum"
  an_webdav :: "(remote_error, int \<times> string list) sum"
  an_webdav_delete :: "string \<Rightarrow> (remote_error, int) sum"
  an_pages :: "remote_page list"
  an_page_delete :: "string \<Rightarrow> (remote_error, int) sum"
  an_keys :: "string \<Rightarrow> (remote_error, string list) sum"
  an_key_delete :: "string \<Rightarrow> (remote_error, bool) sum"

definition rotate_store ::
  "host_env \<Rightarrow> (string \<Rightarrow> string \<Rightarrow> bool) \<Rightarrow> rotation_answers \<Rightarrow> target \<Rightarrow> string \<Rightarrow> nat \<Rightarrow> string \<Rightarrow> files
     \<Rightarrow> (string list \<times> http_error option) \<times> files" where
  "rotate_store h before an t prefix n folder fs =
     (if st_type t = ''local'' then
        (case local_dir h t of
           Inl e \<Rightarrow> (([], Some e), fs)
         | Inr dir \<Rightarrow> rotate_local (resolve_path dir folder) n prefix (an_entries an) (an_remove an) fs)
      else if st_type t = ''ftp'' then (rotate_ftp before n prefix (an_ftp_access an) (an_ftp an) (an_ftp_delete an), fs)
      else if st_type t = ''webdav'' then (rotate_webdav before n prefix (an_webdav an) (an_webdav_delete an), fs)
      else if st_type t = ''google-drive'' then (rotate_google_drive before n prefix (an_pages an) (an_page_delete an), fs)
      else if st_type t = ''onedrive'' then (rotate_onedrive before n prefix (an_pages an) (an_page_delete an), fs)
      else if st_type t = ''s3'' then (rotate_s3 h t n prefix folder (an_keys an) (an_key_delete an), fs)
      else (([], None), fs))"

definition rotate ::
  "host_env \<Rightarrow> (string \<Rightarrow> string \<Rightarrow> bool) \<Rightarrow> rotation_answers \<Rightarrow> target \<Rightarrow> string \<Rightarrow> int \<Rightarrow> string \<Rightarrow> files
     \<Rightarrow> (string list \<times> http_error option) \<times> files" where
  "rotate h before an t prefix n folder fs =
     (case an_aborted an of
        Some e \<Rightarrow> (([], Some e), fs)
      | None \<Rightarrow>
          (if n < 1 then (([], None), fs)
           else case validate_folder folder of
             Inl e \<Rightarrow> (([], Some e), fs)
           | Inr _ \<Rightarrow> rotate_store h before an t prefix (nat n) folder fs))"

end
