(* ===== verification/Artifacts.thy ===== *)
theory Artifacts
  imports Storage_Files
begin

text \<open>
  What \<open>src/backup/backup.service.ts\<close> does with the artifacts of completed runs: the reconciliation with the
  storage, the runs that rotation expires, the check of a recorded SHA-256, and the preparation of downloads.
\<close>

section \<open>Reconciliation\<close>

definition has_filename :: "vault \<Rightarrow> run_row \<Rightarrow> bool" where
  "has_filename v r =
     (case vt_artifacts v (r_id r) of
        None \<Rightarrow> False | Some a \<Rightarrow> (case ax_filename a of None \<Rightarrow> False | Some s \<Rightarrow> dropWhile (\<lambda>c. c = CHR '' '') s \<noteq> []))"

text \<open>\<open>COALESCE(r.storage_target_id, j.storage_target_id)\<close> of a run and its schedule.\<close>

definition run_target :: "vault \<Rightarrow> run_row \<Rightarrow> id option" where
  "run_target v r =
     (case find_job (vt_db v) (r_job r) of
        None \<Rightarrow> None | Some j \<Rightarrow> Some (case r_target r of None \<Rightarrow> j_target j | Some t \<Rightarrow> t))"

definition stored_runs :: "vault \<Rightarrow> run_row list" where
  "stored_runs v =
     sort_key (\<lambda>r. - r_started r) (filter (\<lambda>r. r_status r = ''success'' \<and> has_filename v r \<and> run_target v r \<noteq> None) (runs (vt_db v)))"

definition nonempty :: "string option \<Rightarrow> string option" where
  "nonempty v = (case v of None \<Rightarrow> None | Some s \<Rightarrow> if s = [] then None else Some s)"

type_synonym availability = "run_row \<Rightarrow> target \<Rightarrow> string \<Rightarrow> string option \<Rightarrow> string \<Rightarrow> bool result"

text \<open>Whether the artifact of a run is there: its target may be gone, the question may fail.\<close>

definition artifact_available ::
  "encryption_status \<Rightarrow> (string \<Rightarrow> json option) \<Rightarrow> availability \<Rightarrow> vault \<Rightarrow> run_row \<Rightarrow> bool result" where
  "artifact_available es dec avail v r =
     (case (run_target v r, vt_artifacts v (r_id r)) of
        (Some i, Some a) \<Rightarrow>
          (case get_target es dec i v of
             Inl e \<Rightarrow> Inl e
           | Inr t \<Rightarrow> avail r t (case ax_filename a of None \<Rightarrow> [] | Some s \<Rightarrow> s) (nonempty (ax_location a))
               (case ax_folder a of None \<Rightarrow> [] | Some s \<Rightarrow> s))
      | _ \<Rightarrow> Inl (BadRequest ''Storage target not found''))"

definition expire_run :: "run_row \<Rightarrow> run_row" where
  "expire_run r = r\<lparr>r_status := ''expired'', r_verification := Some ''expired''\<rparr>"

definition expire_by_id :: "id \<Rightarrow> db \<Rightarrow> db" where
  "expire_by_id i d = d\<lparr>runs := update_where (\<lambda>r. r_id r = i \<and> r_status r = ''success'') expire_run (runs d)\<rparr>"

record reconciliation =
  rc_checked :: nat
  rc_expired :: nat
  rc_errors :: nat
  rc_items :: "(id \<times> string) list"

definition reconcile_row ::
  "encryption_status \<Rightarrow> (string \<Rightarrow> json option) \<Rightarrow> availability \<Rightarrow> run_row \<Rightarrow> vault \<times> reconciliation \<Rightarrow> vault \<times> reconciliation" where
  "reconcile_row es dec avail r s =
     (let (v, c) = s; c' = c\<lparr>rc_checked := Suc (rc_checked c)\<rparr>
      in case artifact_available es dec avail v r of
           Inl e \<Rightarrow> (v, c'\<lparr>rc_errors := Suc (rc_errors c),
                          rc_items := (if length (rc_items c) < 20 then rc_items c @ [(r_id r, take 300 (message_of e))] else rc_items c)\<rparr>)
         | Inr True \<Rightarrow> (v, c')
         | Inr False \<Rightarrow> (v\<lparr>vt_db := expire_by_id (r_id r) (vt_db v)\<rparr>, c'\<lparr>rc_expired := Suc (rc_expired c)\<rparr>))"

definition reconcile_missing_artifacts ::
  "encryption_status \<Rightarrow> (string \<Rightarrow> json option) \<Rightarrow> availability \<Rightarrow> vault \<Rightarrow> vault \<times> reconciliation" where
  "reconcile_missing_artifacts es dec avail v =
     fold (reconcile_row es dec avail) (stored_runs v) (v, \<lparr>rc_checked = 0, rc_expired = 0, rc_errors = 0, rc_items = []\<rparr>)"

text \<open>\<open>expireRotatedRuns\<close>: the completed runs of a schedule whose file rotation has removed.\<close>

definition expire_rotated_runs :: "id \<Rightarrow> id \<Rightarrow> string \<Rightarrow> string list \<Rightarrow> vault \<Rightarrow> vault" where
  "expire_rotated_runs job target folder names v =
     (if names = [] then v
      else v\<lparr>vt_db := (vt_db v)\<lparr>runs := update_where
        (\<lambda>r. r_job r = job \<and> r_status r = ''success''
           \<and> (case r_target r of None \<Rightarrow> map_option j_target (find_job (vt_db v) job) | Some t \<Rightarrow> Some t) = Some target
           \<and> (case vt_artifacts v (r_id r) of
                None \<Rightarrow> False
              | Some a \<Rightarrow> (case ax_folder a of None \<Rightarrow> [] | Some s \<Rightarrow> s) = folder
                  \<and> (case ax_filename a of None \<Rightarrow> False | Some s \<Rightarrow> s \<in> set names)))
        expire_run (runs (vt_db v))\<rparr>\<rparr>)"

section \<open>The recorded digest\<close>

text \<open>\<open>String(expectedHash || '').trim().replace(/^sha256:/i, '').toLowerCase()\<close>.\<close>

definition expected_digest :: "string option \<Rightarrow> string" where
  "expected_digest h =
     (let s = trim (case h of None \<Rightarrow> [] | Some s \<Rightarrow> s)
      in to_lower (if to_lower (take 7 s) = ''sha256:'' then drop 7 s else s))"

definition lower_hex :: "char \<Rightarrow> bool" where
  "lower_hex c = (is_digit c \<or> c \<in> set ''abcdef'')"

definition verify_downloaded_hash :: "(string \<Rightarrow> string) \<Rightarrow> string \<Rightarrow> string option \<Rightarrow> bool \<Rightarrow> string option result" where
  "verify_downloaded_hash sha content recorded required =
     (let e = expected_digest recorded
      in if e = [] then
           (if required then Inl (BadRequest ''This historical backup has no recorded SHA-256 and cannot be verified'') else Inr None)
         else if length e \<noteq> 64 \<or> \<not> list_all lower_hex e then Inl (BadRequest ''The recorded backup SHA-256 is invalid'')
         else if sha content \<noteq> e
         then Inl (BadRequest ''Backup SHA-256 verification failed; the artifact may have changed or been corrupted'')
         else Inr (Some e))"

section \<open>Preparing a download\<close>

datatype preparation_state = Preparing | PrepReady | PrepFailed

record preparation =
  pe_id :: id
  pe_user :: id
  pe_run :: id
  pe_filename :: string
  pe_state :: preparation_state
  pe_percent :: int
  pe_stage :: string
  pe_path :: "string list option"
  pe_cleanup :: bool
  pe_error :: string

text \<open>The preparations in memory and the temporary files on disk, by path with their content.\<close>

record downloads =
  dn_jobs :: "preparation list"
  dn_files :: files

definition find_preparation :: "downloads \<Rightarrow> id \<Rightarrow> preparation option" where
  "find_preparation s i = List.find (\<lambda>p. pe_id p = i) (dn_jobs s)"

definition update_preparation :: "id \<Rightarrow> (preparation \<Rightarrow> preparation) \<Rightarrow> downloads \<Rightarrow> downloads" where
  "update_preparation i f s = s\<lparr>dn_jobs := update_where (\<lambda>p. pe_id p = i) f (dn_jobs s)\<rparr>"

text \<open>\<open>startDownloadPreparation\<close>: the row of a completed run, with what its preparation will read.\<close>

definition downloadable :: "vault \<Rightarrow> id \<Rightarrow> (run_row \<times> artifact_columns) result" where
  "downloadable v run =
     (case find_run (vt_db v) run of
        None \<Rightarrow> Inl (BadRequest ''Backup run not found'')
      | Some r \<Rightarrow>
          (case (run_target v r, vt_artifacts v run) of
             (Some _, Some a) \<Rightarrow> (if r_status r \<noteq> ''success'' \<or> nonempty (ax_filename a) = None
                then Inl (BadRequest ''Only completed backups can be downloaded'') else Inr (r, a))
           | _ \<Rightarrow> Inl (BadRequest ''Backup run not found'')))"

definition start_download_preparation ::
  "encryption_status \<Rightarrow> id \<Rightarrow> id \<Rightarrow> vault \<Rightarrow> downloads \<Rightarrow> (id \<times> vault \<times> downloads) result" where
  "start_download_preparation es run user v s =
     (case assert_encryption_healthy es of
        Inl e \<Rightarrow> Inl e
      | Inr _ \<Rightarrow>
          (case downloadable v run of
             Inl e \<Rightarrow> Inl e
           | Inr (r, a) \<Rightarrow>
               (let (i, v') = fresh_id v
                in Inr (i, v', s\<lparr>dn_jobs := dn_jobs s @ [\<lparr>pe_id = i, pe_user = user, pe_run = run, pe_filename = the (ax_filename a),
                     pe_state = Preparing, pe_percent = 0, pe_stage = ''checking'', pe_path = None, pe_cleanup = False, pe_error = []\<rparr>]\<rparr>))))"

definition get_download_preparation :: "id \<Rightarrow> id \<Rightarrow> downloads \<Rightarrow> preparation result" where
  "get_download_preparation i user s =
     (case find_preparation s i of
        None \<Rightarrow> Inl (BadRequest ''Download preparation not found or expired'')
      | Some p \<Rightarrow> if pe_user p \<noteq> user then Inl (BadRequest ''Download preparation not found or expired'') else Inr p)"

definition take_prepared_download :: "id \<Rightarrow> id \<Rightarrow> downloads \<Rightarrow> (string list \<times> bool \<times> downloads) result" where
  "take_prepared_download i user s =
     (case get_download_preparation i user s of
        Inl e \<Rightarrow> Inl e
      | Inr p \<Rightarrow>
          (case (pe_state p, pe_path p) of
             (PrepReady, Some f) \<Rightarrow> Inr (f, pe_cleanup p, s\<lparr>dn_jobs := filter (\<lambda>q. pe_id q \<noteq> i) (dn_jobs s)\<rparr>)
           | _ \<Rightarrow> Inl (BadRequest ''Backup download is not ready'')))"

text \<open>\<open>Math.round\<close> of a fraction of natural numbers.\<close>

definition rounded :: "int \<Rightarrow> int \<Rightarrow> int" where
  "rounded a b = (2 * a + b) div (2 * b)"

definition progress_percent :: "int \<Rightarrow> int option \<Rightarrow> int \<Rightarrow> int" where
  "progress_percent done' whole now =
     (case whole of
        Some n \<Rightarrow> if n = 0 then min 90 (max now (20 + min 70 (done' div (1024 * 1024) + 1)))
                   else min 92 (20 + rounded (min done' n * 72) n)
      | None \<Rightarrow> min 90 (max now (20 + min 70 (done' div (1024 * 1024) + 1))))"

definition begin_download :: "id \<Rightarrow> downloads \<Rightarrow> downloads" where
  "begin_download i = update_preparation i (\<lambda>p. p\<lparr>pe_percent := 20, pe_stage := ''downloading''\<rparr>)"

definition report_progress :: "int \<Rightarrow> int option \<Rightarrow> id \<Rightarrow> downloads \<Rightarrow> downloads" where
  "report_progress done' whole i = update_preparation i (\<lambda>p. p\<lparr>pe_percent := progress_percent done' whole (pe_percent p), pe_stage := ''downloading''\<rparr>)"

text \<open>\<open>rmSync(path)\<close> and of its directory, which holds nothing else.\<close>

definition drop_file :: "string list option \<Rightarrow> files \<Rightarrow> files" where
  "drop_file p fs = (case p of None \<Rightarrow> fs | Some f \<Rightarrow> fs(f := None))"

definition fail_preparation :: "id \<Rightarrow> http_error \<Rightarrow> downloads \<Rightarrow> downloads" where
  "fail_preparation i e s =
     (case find_preparation s i of
        None \<Rightarrow> s
      | Some p \<Rightarrow> update_preparation i (\<lambda>p. p\<lparr>pe_state := PrepFailed, pe_stage := ''failed'', pe_percent := min (pe_percent p) 99,
                     pe_error := take 500 (message_of e)\<rparr>)
                   (if pe_cleanup p then s\<lparr>dn_files := drop_file (pe_path p) (dn_files s)\<rparr> else s))"

text \<open>The download ends: with a file, which is checked against the recorded digest, or with an error.\<close>

definition finish_preparation ::
  "(string \<Rightarrow> string) \<Rightarrow> string option \<Rightarrow> (string list \<times> bool \<times> string) result \<Rightarrow> id \<Rightarrow> downloads \<Rightarrow> downloads" where
  "finish_preparation sha recorded outcome i s =
     (case outcome of
        Inl e \<Rightarrow> fail_preparation i e s
      | Inr (f, cleanup, content) \<Rightarrow>
          (let s1 = update_preparation i (\<lambda>p. p\<lparr>pe_path := Some f, pe_cleanup := cleanup\<rparr>) (s\<lparr>dn_files := (dn_files s)(f \<mapsto> content)\<rparr>)
           in case verify_downloaded_hash sha content recorded (nonempty recorded \<noteq> None) of
                Inl e \<Rightarrow> fail_preparation i e s1
              | Inr _ \<Rightarrow> update_preparation i (\<lambda>p. p\<lparr>pe_state := PrepReady, pe_stage := ''ready'', pe_percent := 100\<rparr>) s1))"

text \<open>The timer of a ready preparation.\<close>

definition expire_preparation :: "id \<Rightarrow> downloads \<Rightarrow> downloads" where
  "expire_preparation i s =
     (case find_preparation s i of
        None \<Rightarrow> s
      | Some p \<Rightarrow> (if pe_state p \<noteq> PrepReady then s
          else s\<lparr>dn_jobs := filter (\<lambda>q. pe_id q \<noteq> i) (dn_jobs s),
                 dn_files := (if pe_cleanup p then drop_file (pe_path p) (dn_files s) else dn_files s)\<rparr>))"

end
