(* ===== verification/Storage_Props.thy ===== *)
theory Storage_Props
  imports Artifacts Recovery_Steps "HOL-Library.Multiset"
begin

text \<open>Properties of the storage service: secrets, rotation, the slots of downloads, and the containment of local files.\<close>

section \<open>Secrets\<close>

lemma map_of_redact: "map_of (redact c) k = (if k \<in> set secret_keys then None else map_of c k)"
  unfolding redact_def by (induction c) auto

lemma map_of_map_key: "map_of (map (\<lambda>(a, b). (a, g a b)) c) k = map_option (g k) (map_of c k)"
  by (induction c) auto

lemma map_of_spread_one: "map_of (spread c [(k, x)]) k' = (if k' = k then Some x else map_of c k')"
proof (cases "map_of c k'")
  case None
  then have "k' \<notin> fst ` set c" by (simp add: map_of_eq_None_iff)
  with None show ?thesis by (auto simp: spread_def map_of_append map_of_map_key map_add_def)
next
  case (Some y)
  then have "k' \<in> fst ` set c" by (metis map_of_eq_None_iff option.distinct(1))
  with Some show ?thesis by (auto simp: spread_def map_of_append map_of_map_key map_add_def)
qed

definition blank :: "settings_object \<Rightarrow> string \<Rightarrow> bool" where
  "blank c k = (trim (text_of (map_of c k)) = [])"

lemma map_of_keep_secret:
  "map_of (keep_secret old k c) k' = (if k' = k \<and> blank c k \<and> map_of old k \<noteq> None then map_of old k else map_of c k')"
  unfolding keep_secret_def blank_def by (auto simp: map_of_spread_one split: option.split)

lemma map_of_keep_secrets:
  assumes "distinct ks"
  shows "map_of (fold (keep_secret old) ks c) k = (if k \<in> set ks \<and> blank c k \<and> map_of old k \<noteq> None then map_of old k else map_of c k)"
  using assms
proof (induction ks arbitrary: c)
  case (Cons a ks)
  then have a: "a \<notin> set ks" and ks: "distinct ks" by simp_all
  have "map_of (fold (keep_secret old) (a # ks) c) k = (if k \<in> set ks \<and> blank (keep_secret old a c) k \<and> map_of old k \<noteq> None
      then map_of old k else map_of (keep_secret old a c) k)"
    using Cons.IH [OF ks] by simp
  also have "\<dots> = (if k \<in> set (a # ks) \<and> blank c k \<and> map_of old k \<noteq> None then map_of old k else map_of c k)"
    using a by (cases "k = a") (auto simp: map_of_keep_secret blank_def)
  finally show ?case .
qed simp

lemma keep_secrets_value:
  "map_of (keep_secrets old c) k = (if k \<in> set secret_keys \<and> blank c k \<and> map_of old k \<noteq> None then map_of old k else map_of c k)"
  unfolding keep_secrets_def by (rule map_of_keep_secrets) (simp add: secret_keys_def)

lemma list_targets_Inr:
  assumes "list_targets es dec v = Inr ts"
  shows "\<exists>us. ts = map (\<lambda>t. t\<lparr>st_config := redact (st_config t)\<rparr>) us"
  using assms by (auto simp: list_targets_def split: sum.splits)

text \<open>Every stored target has its columns.\<close>

definition targets_ok :: "vault \<Rightarrow> bool" where
  "targets_ok v = (\<forall>t \<in> set (targets (vt_db v)). vt_targets v (t_id t) \<noteq> None)"

lemma upsert_target_get:
  assumes "targets_ok v" and "es_ok es" and "dec code = Some (JObj c)"
  shows "\<exists>t. get_target es dec (t_id new) (upsert_target new code now v) = Inr t \<and> st_config t = c \<and> st_type t = t_type new \<and> st_name t = t_name new"
proof -
  let ?row = "case List.find (\<lambda>t. t_id t = t_id new) (targets (vt_db v)) of None \<Rightarrow> new
      | Some old \<Rightarrow> old\<lparr>t_name := t_name new, t_type := t_type new\<rparr>"
  have row: "List.find (\<lambda>t. t_id t = t_id new) (targets (vt_db (upsert_target new code now v))) = Some ?row"
    using target_table.find_put [of "t_id new" new code now v] by simp
  have same: "t_id ?row = t_id new" "t_type ?row = t_type new" "t_name ?row = t_name new"
    by (auto simp del: find_key_None split: option.split dest: find_key_SomeD)
  have "\<exists>cols. vt_targets (upsert_target new code now v) (t_id new) = Some cols \<and> tc_config cols = code"
    using assms(1) by (auto simp: upsert_target_def Let_def list_ex_iff targets_ok_def)
  then obtain cols where "vt_targets (upsert_target new code now v) (t_id new) = Some cols" "tc_config cols = code" by blast
  then show ?thesis using row same assms(2,3)
    by (simp del: find_key_None add: get_target_def assert_encryption_healthy_def target_of_def decrypt_config_def)
qed

text \<open>C33: No secret of a target is ever listed, whatever page a client asks for; and saving a target and reading it
  back gives the configuration of the request, in which a secret that the request leaves out or blank has
  its stored value, and nothing else is taken from the stored configuration.\<close>

theorem target_secrets_are_kept_and_hidden:
  assumes "save_target es enc dec now b v = Inr (i, v')" and "\<And>c. dec (enc (JObj c)) = Some (JObj c)" and "targets_ok v"
  shows "(\<forall>w ts t k. list_targets es dec w = Inr ts \<longrightarrow> t \<in> set ts \<longrightarrow> k \<in> set secret_keys \<longrightarrow> map_of (st_config t) k = None)
    \<and> (\<forall>w q ts rest t k. list_target_page es dec q w = Inr (ts, rest) \<longrightarrow> t \<in> set ts \<longrightarrow> k \<in> set secret_keys \<longrightarrow> map_of (st_config t) k = None)
    \<and> (\<exists>old c t. stored_config dec (ti_id b) v = Inr old \<and> ti_config b = Some c \<and> get_target es dec i v' = Inr t
         \<and> st_name t = ti_name b \<and> st_type t = ti_type b
         \<and> (\<forall>k. map_of (st_config t) k = (if k \<in> set secret_keys \<and> blank c k \<and> map_of old k \<noteq> None then map_of old k else map_of c k)))"
proof (intro conjI allI impI)
  fix w ts t k
  assume "list_targets es dec w = Inr ts" "t \<in> set ts" "k \<in> set secret_keys"
  then show "map_of (st_config t) k = None" using list_targets_Inr by (fastforce simp: map_of_redact)
next
  fix w q ts rest t k
  assume "list_target_page es dec q w = Inr (ts, rest)" "t \<in> set ts" "k \<in> set secret_keys"
  then show "map_of (st_config t) k = None"
    by (auto simp: list_target_page_def Let_def map_of_redact split: sum.splits)
next
  obtain c v1 old where p: "ti_config b = Some c" "id_or_fresh (ti_id b) v = (i, v1)" "stored_config dec (ti_id b) v1 = Inr old" "es_ok es"
    "v' = upsert_target \<lparr>t_id = i, t_name = ti_name b, t_type = ti_type b\<rparr> (enc (JObj (keep_secrets old c))) now v1"
    using assms(1) by (auto simp: save_target_def assert_encryption_healthy_def Let_def split: sum.splits option.splits if_splits prod.splits)
  have same: "vt_targets v1 = vt_targets v" "targets (vt_db v1) = targets (vt_db v)"
    using p(2) by (auto simp: id_or_fresh_def fresh_id_def split: option.splits if_splits)
  have "targets_ok v1" using assms(3) by (simp add: targets_ok_def same)
  from upsert_target_get [where dec = dec and c = "keep_secrets old c" and code = "enc (JObj (keep_secrets old c))"
      and new = "\<lparr>t_id = i, t_name = ti_name b, t_type = ti_type b\<rparr>", OF this p(4) assms(2)]
  obtain t where t: "get_target es dec i v' = Inr t" "st_config t = keep_secrets old c" "st_type t = ti_type b" "st_name t = ti_name b"
    unfolding p(5) by auto
  have "stored_config dec (ti_id b) v = Inr old" using p(3) unfolding stored_config_def same .
  with p(1) t keep_secrets_value
  show "\<exists>old c t. stored_config dec (ti_id b) v = Inr old \<and> ti_config b = Some c \<and> get_target es dec i v' = Inr t
       \<and> st_name t = ti_name b \<and> st_type t = ti_type b
       \<and> (\<forall>k. map_of (st_config t) k = (if k \<in> set secret_keys \<and> blank c k \<and> map_of old k \<noteq> None then map_of old k else map_of c k))"
    by metis
qed

section \<open>Rotation\<close>

text \<open>What a rotation is meant to do with the files of a store that carry the prefix. They fall into the ones it keeps
  (the given number, or all where there are fewer), then the ones it has removed, then the ones it has left when
  an error stopped it; no file is newer than one before it. Every removed file was acknowledged by the store or was
  not there any more, and the acknowledged ones are reported, in their order. There is an error exactly when files
  are left, and the first of them is one the store refused to delete.\<close>

definition rotated ::
  "('a \<Rightarrow> 'a \<Rightarrow> bool) \<Rightarrow> nat \<Rightarrow> 'a list \<Rightarrow> ('a \<Rightarrow> bool) \<Rightarrow> ('a \<Rightarrow> bool) \<Rightarrow> ('a \<Rightarrow> string) \<Rightarrow> string list \<Rightarrow> http_error option \<Rightarrow> bool" where
  "rotated newer n files acknowledged absent name confirmed e =
     (\<exists>kept removed left.
        mset files = mset kept + mset removed + mset left \<and> length kept = min n (length files)
        \<and> sorted_wrt (\<lambda>a b. \<not> newer b a) (kept @ removed @ left)
        \<and> (\<forall>f \<in> set removed. acknowledged f \<or> absent f) \<and> confirmed = map name (filter acknowledged removed)
        \<and> (e = None \<longleftrightarrow> left = []) \<and> (left \<noteq> [] \<longrightarrow> \<not> acknowledged (hd left) \<and> \<not> absent (hd left)))"

text \<open>The files that a store lists, by id and name. Nothing is listed when the session, the listing or a page of it
  fails, when the settings are refused, or when the bucket is locked.\<close>

definition store_lists :: "host_env \<Rightarrow> rotation_answers \<Rightarrow> target \<Rightarrow> string \<Rightarrow> string \<Rightarrow> (string \<times> string) list \<Rightarrow> bool" where
  "store_lists h an t prefix folder files =
     (if st_type t = ''local'' then
        is_ok (local_dir h t) \<and> (\<exists>es. an_entries an = Inr es \<and> files = [(s, s). (s, is_file) \<leftarrow> es, is_file])
      else if st_type t = ''ftp'' then
        an_ftp_access an = None \<and> (\<exists>es. an_ftp an = Inr es \<and> files = [(s, s). (s, kind) \<leftarrow> es, kind = 1])
      else if st_type t = ''webdav'' then
        (\<exists>status names. an_webdav an = Inr (status, names) \<and> 200 \<le> status \<and> status < 300 \<and> files = [(s, s). s \<leftarrow> names])
      else if st_type t = ''google-drive'' \<or> st_type t = ''onedrive'' then
        (\<exists>pages. an_pages an = map Inr pages \<and> (\<forall>(status, fs) \<in> set pages. 200 \<le> status \<and> status < 300)
           \<and> files = [f. (status, fs) \<leftarrow> pages, f \<leftarrow> fs, fst f \<noteq> [] \<and> snd f \<noteq> []])
      else if st_type t = ''s3'' then
        (\<exists>c keys. s3_config h t = Inr c \<and> \<not> sc_locked c \<and> an_keys an (s3_prefix_key c folder prefix) = Inr keys
           \<and> files = [(k, last_segment k). k \<leftarrow> keys, k \<noteq> []])
      else False)"

text \<open>A file of the rotation has the prefix in its name; in a bucket its key has the prefix key.\<close>

definition has_prefix :: "host_env \<Rightarrow> target \<Rightarrow> string \<Rightarrow> string \<Rightarrow> string \<times> string \<Rightarrow> bool" where
  "has_prefix h t prefix folder f =
     (if st_type t = ''s3'' then (\<exists>c. s3_config h t = Inr c \<and> starts_with (fst f) (s3_prefix_key c folder prefix))
      else starts_with (snd f) prefix)"

text \<open>Local names and keys are compared by their characters, the other names by \<open>localeCompare\<close>.\<close>

definition newer_file :: "(string \<Rightarrow> string \<Rightarrow> bool) \<Rightarrow> target \<Rightarrow> string \<times> string \<Rightarrow> string \<times> string \<Rightarrow> bool" where
  "newer_file before t a b = (if st_type t = ''local'' \<or> st_type t = ''s3'' then fst b < fst a else before (snd a) (snd b))"

definition acknowledged :: "rotation_answers \<Rightarrow> target \<Rightarrow> string \<times> string \<Rightarrow> bool" where
  "acknowledged an t f =
     (if st_type t = ''local'' then an_remove an (fst f) = Inr ()
      else if st_type t = ''ftp'' then an_ftp_delete an (fst f) = Inr ()
      else if st_type t = ''s3'' then an_key_delete an (fst f) = Inr False
      else (\<exists>status. (if st_type t = ''webdav'' then an_webdav_delete an (fst f) else an_page_delete an (fst f)) = Inr status
              \<and> 200 \<le> status \<and> status < 300))"

definition absent :: "rotation_answers \<Rightarrow> target \<Rightarrow> string \<times> string \<Rightarrow> bool" where
  "absent an t f =
     (if st_type t = ''local'' then (\<exists>e. an_remove an (fst f) = Inl e \<and> re_code e = ''ENOENT'')
      else if st_type t = ''ftp'' then (\<exists>e. an_ftp_delete an (fst f) = Inl e \<and> is_missing_remote e)
      else if st_type t = ''s3'' then (\<exists>e. an_key_delete an (fst f) = Inl e \<and> is_missing_remote e)
      else if st_type t = ''webdav'' then
        an_webdav_delete an (fst f) \<in> {Inr 404, Inr 410} \<or> (\<exists>e. an_webdav_delete an (fst f) = Inl e \<and> is_missing_remote e)
      else an_page_delete an (fst f) \<in> {Inr 404, Inr 410})"

lemma delete_files_split:
  "delete_files name del fs = (xs, e) \<Longrightarrow> \<exists>removed left. fs = removed @ left \<and> (\<forall>f \<in> set removed. del f = Deleted \<or> del f = Missing)
     \<and> xs = map name (filter (\<lambda>f. del f = Deleted) removed) \<and> (e = None \<longleftrightarrow> left = [])
     \<and> (left \<noteq> [] \<longrightarrow> del (hd left) \<noteq> Deleted \<and> del (hd left) \<noteq> Missing)"
proof (induction name del fs arbitrary: xs e rule: delete_files.induct)
  case (1 name del)
  then show ?case by simp
next
  case (2 name del f fs)
  show ?case
  proof (cases "del f")
    case Deleted
    obtain ys where r: "delete_files name del fs = (ys, e)" "xs = name f # ys"
      using 2(3) Deleted by (auto split: prod.splits)
    from 2(1) [OF Deleted r(1)] obtain removed left where "fs = removed @ left"
      "\<forall>f \<in> set removed. del f = Deleted \<or> del f = Missing" "ys = map name (filter (\<lambda>f. del f = Deleted) removed)" "e = None \<longleftrightarrow> left = []"
      "left \<noteq> [] \<longrightarrow> del (hd left) \<noteq> Deleted \<and> del (hd left) \<noteq> Missing" by blast
    then show ?thesis using Deleted r(2) by (intro exI [of _ "f # removed"] exI [of _ left]) simp
  next
    case Missing
    from 2(2) [OF Missing] 2(3) Missing obtain removed left where "fs = removed @ left"
      "\<forall>f \<in> set removed. del f = Deleted \<or> del f = Missing" "xs = map name (filter (\<lambda>f. del f = Deleted) removed)" "e = None \<longleftrightarrow> left = []"
      "left \<noteq> [] \<longrightarrow> del (hd left) \<noteq> Deleted \<and> del (hd left) \<noteq> Missing" by auto
    then show ?thesis using Missing by (intro exI [of _ "f # removed"] exI [of _ left]) simp
  next
    case (Refused x)
    with 2(3) show ?thesis by (intro exI [of _ "[]"] exI [of _ "f # fs"]) auto
  qed
qed

text \<open>Files in order, of which the first ones are kept and the rest is deleted one by one, have been rotated.\<close>

lemma rotated_drop:
  assumes "delete_files name del (drop n ys) = (confirmed, e)" and "mset (map g ys) = mset files"
    and "sorted_wrt (\<lambda>a b. \<not> newer b a) (map g ys)" and "\<And>f. name f = nm (g f)"
    and "\<And>f. del f = Deleted \<longleftrightarrow> ack (g f)" and "\<And>f. del f = Missing \<longleftrightarrow> gone (g f)"
  shows "rotated newer n files ack gone nm confirmed e"
proof -
  from delete_files_split [OF assms(1)] obtain removed left where d: "drop n ys = removed @ left"
    "\<forall>f \<in> set removed. del f = Deleted \<or> del f = Missing" "confirmed = map name (filter (\<lambda>f. del f = Deleted) removed)"
    "e = None \<longleftrightarrow> left = []" "left \<noteq> [] \<longrightarrow> del (hd left) \<noteq> Deleted \<and> del (hd left) \<noteq> Missing" by blast
  have ys: "ys = take n ys @ removed @ left" using d(1) by (metis append_take_drop_id)
  have len: "length ys = length files" using assms(2) by (metis length_map size_mset)
  have "mset files = mset (map g (take n ys)) + mset (map g removed) + mset (map g left)"
    unfolding assms(2) [symmetric] by (subst ys) simp
  moreover have "length (map g (take n ys)) = min n (length files)" by (simp add: len [symmetric] min.commute)
  moreover have "sorted_wrt (\<lambda>a b. \<not> newer b a) (map g (take n ys) @ map g removed @ map g left)"
    using assms(3) by (subst (asm) ys) simp
  moreover have "confirmed = map nm (filter ack (map g removed))"
    by (simp add: d(3) assms(4,5) filter_map comp_def)
  ultimately show ?thesis unfolding rotated_def
    using d(2,4,5) assms(5,6)
    by (intro exI [of _ "map g (take n ys)"] exI [of _ "map g removed"] exI [of _ "map g left"]) (auto simp: hd_map)
qed

text \<open>The two orders: the sorted names from the last to the first, and the insertion by \<open>localeCompare\<close>.\<close>

lemma newest_first_order:
  "mset (newest_first xs) = mset xs" "sorted_wrt (\<lambda>a b. \<not> a < b) (newest_first xs)" for xs :: "string list"
  by (simp_all add: newest_first_def sorted_wrt_rev not_less)

lemma by_name_Cons:
  "by_name before name (x # fs) = takeWhile (\<lambda>y. before (name y) (name x)) (by_name before name fs) @ x
     # dropWhile (\<lambda>y. before (name y) (name x)) (by_name before name fs)"
  by (simp add: by_name_def)

lemma mset_by_name: "mset (by_name before name fs) = mset fs"
proof (induction fs)
  case (Cons x fs)
  let ?P = "\<lambda>y. before (name y) (name x)"
  have "mset (by_name before name (x # fs)) = add_mset x (mset (takeWhile ?P (by_name before name fs) @ dropWhile ?P (by_name before name fs)))"
    unfolding by_name_Cons mset_append by simp
  also have "takeWhile ?P (by_name before name fs) @ dropWhile ?P (by_name before name fs) = by_name before name fs"
    by (rule takeWhile_dropWhile_id)
  finally show ?case by (simp add: Cons.IH)
qed (simp add: by_name_def)

lemma sorted_wrt_insert:
  assumes "sorted_wrt R (xs @ ys)" and "\<And>y. y \<in> set xs \<Longrightarrow> R y x" and "\<And>y. y \<in> set ys \<Longrightarrow> R x y"
  shows "sorted_wrt R (xs @ x # ys)"
  using assms by (simp add: sorted_wrt_append)

lemma by_name_sorted:
  assumes "\<forall>a b. before a b \<longrightarrow> \<not> before b a" and "\<forall>a b c. before a c \<longrightarrow> before a b \<or> before b c"
  shows "sorted_wrt (\<lambda>a b. \<not> before (name b) (name a)) (by_name before name fs)"
proof (induction fs)
  case (Cons x fs)
  let ?P = "\<lambda>y. before (name y) (name x)" and ?ys = "by_name before name fs"
  have sorted: "sorted_wrt (\<lambda>a b. \<not> before (name b) (name a)) (takeWhile ?P ?ys @ dropWhile ?P ?ys)" using Cons.IH by simp
  have "\<not> before (name y) (name x)" if y: "y \<in> set (dropWhile ?P ?ys)" for y
  proof -
    from y obtain z zs where z: "dropWhile ?P ?ys = z # zs" by (cases "dropWhile ?P ?ys") auto
    then have "\<not> before (name z) (name x)" using hd_dropWhile [of ?P ?ys] by simp
    moreover have "y = z \<or> \<not> before (name y) (name z)" using sorted y z by (auto simp: sorted_wrt_append)
    ultimately show ?thesis using assms(2) by blast
  qed
  moreover have "\<not> before (name x) (name y)" if "y \<in> set (takeWhile ?P ?ys)" for y
    using set_takeWhileD [OF that] assms(1) by blast
  ultimately show ?case unfolding by_name_Cons by (intro sorted_wrt_insert [OF sorted])
qed (simp add: by_name_def)

lemma rotation_files_order:
  assumes "\<forall>a b. before a b \<longrightarrow> \<not> before b a" and "\<forall>a b c. before a c \<longrightarrow> before a b \<or> before b c"
  shows "mset (rotation_files before prefix name fs) = mset (filter (\<lambda>f. starts_with (name f) prefix) fs)"
    and "sorted_wrt (\<lambda>a b. \<not> before (name b) (name a)) (rotation_files before prefix name fs)"
  unfolding rotation_files_def by (rule mset_by_name, rule by_name_sorted [OF assms])

text \<open>One store at a time.\<close>

abbreviation candidates :: "host_env \<Rightarrow> target \<Rightarrow> string \<Rightarrow> string \<Rightarrow> (string \<times> string) list \<Rightarrow> (string \<times> string) list" where
  "candidates h t prefix folder files \<equiv> filter (has_prefix h t prefix folder) files"

lemma pairs_of_names: "[(s, s). (s, x) \<leftarrow> es, P x] = map (\<lambda>s. (s, s)) (map fst (filter (\<lambda>e. P (snd e)) es))"
  by (induction es) auto

lemma listed_where: "[g k. k \<leftarrow> xs, P k] = map g (filter P xs)"
  by (induction xs) auto

lemma deletion_status_iff:
  "deletion_status what k = Deleted \<longleftrightarrow> 200 \<le> k \<and> k < 300" "deletion_status what k = Missing \<longleftrightarrow> k = 404 \<or> k = 410"
  by (auto simp: deletion_status_def ok_status_def)

lemma local_rotated:
  assumes "st_type t = ''local''" and "store_lists h an t prefix folder files"
    and "rotate_store h before an t prefix n folder fs = ((confirmed, e), fs')"
  shows "rotated (newer_file before t) n (candidates h t prefix folder files) (acknowledged an t) (absent an t) snd confirmed e
    \<and> (\<exists>dir. local_dir h t = Inr dir \<and> fs' = fs |` (- ((\<lambda>f. resolve_path dir folder @ [f]) ` set confirmed)))"
proof -
  obtain dir es where l: "local_dir h t = Inr dir" "an_entries an = Inr es" "files = map (\<lambda>s. (s, s)) (map fst (filter snd es))"
    using assms(1,2) by (auto simp: store_lists_def is_ok_def pairs_of_names split: sum.splits)
  let ?del = "\<lambda>s. local_deletion (an_remove an s)" and ?names = "filter (\<lambda>s. starts_with s prefix) (map fst (filter snd es))"
  have del: "delete_files (\<lambda>s. s) ?del (drop n (newest_first ?names)) = (confirmed, e)"
    and fs': "fs' = fs |` (- ((\<lambda>f. resolve_path dir folder @ [f]) ` set confirmed))"
    using assms(1,3) l by (auto simp: rotate_store_def rotate_local_def surplus_def Let_def split: prod.splits)
  have "rotated (newer_file before t) n (candidates h t prefix folder files) (acknowledged an t) (absent an t) snd confirmed e"
  proof (rule rotated_drop [OF del])
    show "mset (map (\<lambda>s. (s, s)) (newest_first ?names)) = mset (candidates h t prefix folder files)"
      using assms(1) by (simp add: l(3) has_prefix_def filter_map comp_def newest_first_order(1) image_mset.compositionality)
    show "sorted_wrt (\<lambda>a b. \<not> newer_file before t b a) (map (\<lambda>s. (s, s)) (newest_first ?names))"
      using assms(1) newest_first_order(2) by (simp add: sorted_wrt_map newer_file_def)
    show "?del f = Deleted \<longleftrightarrow> acknowledged an t (f, f)" "?del f = Missing \<longleftrightarrow> absent an t (f, f)" for f
      using assms(1) by (auto simp: acknowledged_def absent_def local_deletion_def split: sum.splits)
  qed simp
  with l(1) fs' show ?thesis by blast
qed

lemma named_rotated:
  assumes order: "\<forall>a b. before a b \<longrightarrow> \<not> before b a" "\<forall>a b c. before a c \<longrightarrow> before a b \<or> before b c"
    and t: "st_type t \<noteq> ''local''" "st_type t \<noteq> ''s3''" and files: "files = map g xs" and name: "\<And>f. name f = snd (g f)"
    and del: "delete_files name del (drop n (rotation_files before prefix name xs)) = (confirmed, e)"
    and ack: "\<And>f. del f = Deleted \<longleftrightarrow> acknowledged an t (g f)" and gone: "\<And>f. del f = Missing \<longleftrightarrow> absent an t (g f)"
  shows "rotated (newer_file before t) n (candidates h t prefix folder files) (acknowledged an t) (absent an t) snd confirmed e"
proof (rule rotated_drop [where g = g, OF del _ _ name ack gone])
  show "mset (map g (rotation_files before prefix name xs)) = mset (candidates h t prefix folder files)"
    using t by (simp add: files rotation_files_order(1) [OF order] has_prefix_def filter_map comp_def name)
  have "sorted_wrt (\<lambda>a b. \<not> before (name b) (name a)) (rotation_files before prefix name xs)"
    by (rule rotation_files_order(2) [OF order])
  then show "sorted_wrt (\<lambda>a b. \<not> newer_file before t b a) (map g (rotation_files before prefix name xs))"
    using t by (simp add: sorted_wrt_map newer_file_def name)
qed

lemma page_files_pages:
  assumes "\<forall>(status, fs) \<in> set pages. 200 \<le> status \<and> status < 300"
  shows "page_files what b (map Inr pages) = Inr (Some [f. (status, fs) \<leftarrow> pages, f \<leftarrow> fs, fst f \<noteq> [] \<and> snd f \<noteq> []])"
  using assms
proof (induction pages)
  case (Cons p pages)
  obtain status fs where p: "p = (status, fs)" by (cases p)
  have "filter (\<lambda>(i, s). i \<noteq> [] \<and> s \<noteq> []) fs = [f. f \<leftarrow> fs, fst f \<noteq> [] \<and> snd f \<noteq> []]" by (induction fs) auto
  with Cons show ?case by (auto simp: p ok_status_def)
qed simp

lemma remote_rotated:
  assumes order: "\<forall>a b. before a b \<longrightarrow> \<not> before b a" "\<forall>a b c. before a c \<longrightarrow> before a b \<or> before b c"
    and t: "st_type t \<in> {''ftp'', ''webdav'', ''google-drive'', ''onedrive''}" and lists: "store_lists h an t prefix folder files"
    and run: "rotate_store h before an t prefix n folder fs = ((confirmed, e), fs')"
  shows "rotated (newer_file before t) n (candidates h t prefix folder files) (acknowledged an t) (absent an t) snd confirmed e \<and> fs' = fs"
proof -
  note here = named_rotated [OF order, where t = t and files = files]
  consider "st_type t = ''ftp''" | "st_type t = ''webdav''" | "st_type t = ''google-drive'' \<or> st_type t = ''onedrive''" using t by auto
  then show ?thesis
  proof cases
    case 1
    then obtain es where es: "an_ftp_access an = None" "an_ftp an = Inr es" "files = map (\<lambda>s. (s, s)) (map fst (filter (\<lambda>e. snd e = 1) es))"
      using lists by (auto simp: store_lists_def pairs_of_names)
    have "delete_files (\<lambda>s. s) (\<lambda>s. deletion_reply (an_ftp_delete an s))
        (drop n (rotation_files before prefix (\<lambda>s. s) (map fst (filter (\<lambda>e. snd e = 1) es)))) = (confirmed, e)" "fs' = fs"
      using run 1 es by (auto simp: rotate_store_def rotate_ftp_def)
    then show ?thesis using 1
      by (intro conjI here [OF _ _ es(3)]) (auto simp: acknowledged_def absent_def deletion_reply_def split: sum.splits if_splits)
  next
    case 2
    then obtain status names where w: "an_webdav an = Inr (status, names)" "200 \<le> status" "status < 300" "files = map (\<lambda>s. (s, s)) names"
      using lists by (auto simp: store_lists_def)
    have "delete_files (\<lambda>s. s) (\<lambda>s. webdav_deletion (an_webdav_delete an s)) (drop n (rotation_files before prefix (\<lambda>s. s) names)) = (confirmed, e)"
      "fs' = fs" using run 2 w by (auto simp: rotate_store_def rotate_webdav_def ok_status_def)
    then show ?thesis using 2
      by (intro conjI here [OF _ _ w(4)])
        (auto simp: acknowledged_def absent_def webdav_deletion_def deletion_status_iff deletion_status_def ok_status_def split: sum.splits deletion.splits if_splits)
  next
    case 3
    then obtain pages where p: "an_pages an = map Inr pages" "\<forall>(status, fs) \<in> set pages. 200 \<le> status \<and> status < 300"
      "files = map (\<lambda>f. f) [f. (status, fs) \<leftarrow> pages, f \<leftarrow> fs, fst f \<noteq> [] \<and> snd f \<noteq> []]"
      using lists by (auto simp: store_lists_def)
    obtain what where "delete_files snd (\<lambda>f. page_deletion what (an_page_delete an (fst f))) (drop n (rotation_files before prefix snd
        [f. (status, fs) \<leftarrow> pages, f \<leftarrow> fs, fst f \<noteq> [] \<and> snd f \<noteq> []])) = (confirmed, e)" "fs' = fs"
      using run 3 by (auto simp: rotate_store_def rotate_google_drive_def rotate_onedrive_def rotate_pages_def p(1) page_files_pages [OF p(2)])
    then show ?thesis using 3
      by (intro conjI here [OF _ _ p(3)]) (auto simp: acknowledged_def absent_def page_deletion_def deletion_status_iff split: sum.splits)
  qed
qed

lemma s3_rotated:
  assumes server: "\<And>p keys k. an_keys an p = Inr keys \<Longrightarrow> k \<in> set keys \<Longrightarrow> starts_with k p"
    and t: "st_type t = ''s3''" and lists: "store_lists h an t prefix folder files"
    and run: "rotate_store h before an t prefix n folder fs = ((confirmed, e), fs')"
  shows "rotated (newer_file before t) n (candidates h t prefix folder files) (acknowledged an t) (absent an t) snd confirmed e \<and> fs' = fs"
proof -
  obtain c keys where k: "s3_config h t = Inr c" "\<not> sc_locked c" "an_keys an (s3_prefix_key c folder prefix) = Inr keys"
    "files = map (\<lambda>k. (k, last_segment k)) (filter (\<lambda>k. k \<noteq> []) keys)"
    using t lists by (auto simp: store_lists_def listed_where)
  have del: "delete_files last_segment (\<lambda>k. s3_deletion (an_key_delete an k)) (drop n (newest_first (filter (\<lambda>k. k \<noteq> []) keys))) = (confirmed, e)"
    and fs': "fs' = fs" using t run k by (auto simp: rotate_store_def rotate_s3_def)
  have all: "candidates h t prefix folder files = files"
    using server [OF k(3)] t k(1) by (auto simp: has_prefix_def k(4) filter_id_conv)
  have "rotated (newer_file before t) n (candidates h t prefix folder files) (acknowledged an t) (absent an t) snd confirmed e"
    unfolding all
  proof (rule rotated_drop [OF del])
    show "mset (map (\<lambda>k. (k, last_segment k)) (newest_first (filter (\<lambda>k. k \<noteq> []) keys))) = mset files"
      by (simp add: k(4) newest_first_order(1))
    show "sorted_wrt (\<lambda>a b. \<not> newer_file before t b a) (map (\<lambda>k. (k, last_segment k)) (newest_first (filter (\<lambda>k. k \<noteq> []) keys)))"
      using t newest_first_order(2) by (simp add: sorted_wrt_map newer_file_def)
    show "s3_deletion (an_key_delete an f) = Deleted \<longleftrightarrow> acknowledged an t (f, last_segment f)"
      "s3_deletion (an_key_delete an f) = Missing \<longleftrightarrow> absent an t (f, last_segment f)" for f
      using t by (auto simp: acknowledged_def absent_def s3_deletion_def split: sum.splits)
  qed simp
  with fs' show ?thesis by blast
qed

text \<open>A store that lists nothing is not touched.\<close>

lemma page_files_listed:
  "page_files what b ps = Inr (Some fs) \<Longrightarrow> \<exists>pages. ps = map Inr pages \<and> (\<forall>(status, fs) \<in> set pages. 200 \<le> status \<and> status < 300)"
proof (induction what b ps arbitrary: fs rule: page_files.induct)
  case (3 what b status gs ps)
  then obtain pages where "ps = map Inr pages" "\<forall>(status, fs) \<in> set pages. 200 \<le> status \<and> status < 300" "200 \<le> status" "status < 300"
    by (auto simp: ok_status_def split: if_splits sum.splits option.splits)
  then show ?case by (intro exI [of _ "(status, gs) # pages"]) simp
qed simp_all

lemma pages_untouched:
  assumes "\<And>files. \<not> store_lists h an t prefix folder files" and "st_type t = ''google-drive'' \<or> st_type t = ''onedrive''"
  shows "fst (rotate_pages what b before n prefix (an_pages an) reply) = []"
proof -
  have "page_files what b (an_pages an) \<noteq> Inr (Some gs)" for gs
  proof
    assume "page_files what b (an_pages an) = Inr (Some gs)"
    then obtain pages where "an_pages an = map Inr pages" "\<forall>(status, fs) \<in> set pages. 200 \<le> status \<and> status < 300"
      using page_files_listed by blast
    then have "store_lists h an t prefix folder [f. (status, fs) \<leftarrow> pages, f \<leftarrow> fs, fst f \<noteq> [] \<and> snd f \<noteq> []]"
      using assms(2) unfolding store_lists_def by auto
    with assms(1) show False by blast
  qed
  then show ?thesis by (auto simp: rotate_pages_def split: sum.splits option.splits)
qed

lemma nothing_rotated:
  assumes none: "\<And>files. \<not> store_lists h an t prefix folder files" and run: "rotate_store h before an t prefix n folder fs = ((confirmed, e), fs')"
  shows "confirmed = [] \<and> fs' = fs"
proof -
  consider "st_type t = ''local''" | "st_type t = ''ftp''" | "st_type t = ''webdav''" | "st_type t = ''google-drive'' \<or> st_type t = ''onedrive''"
    | "st_type t = ''s3''" | "st_type t \<notin> {''local'', ''ftp'', ''webdav'', ''google-drive'', ''onedrive'', ''s3''}" by auto
  then show ?thesis
  proof cases
    case 1
    with none run show ?thesis
      by (auto simp: rotate_store_def rotate_local_def store_lists_def is_ok_def split: sum.splits if_splits)
  next
    case 2
    with none run show ?thesis
      by (auto simp: rotate_store_def rotate_ftp_def store_lists_def split: option.splits sum.splits if_splits)
  next
    case 3
    with none run show ?thesis
      by (auto simp: rotate_store_def rotate_webdav_def store_lists_def ok_status_def split: sum.splits if_splits prod.splits)
  next
    case 4
    with run pages_untouched [OF none 4] show ?thesis
      by (auto simp: rotate_store_def rotate_google_drive_def rotate_onedrive_def) (metis fst_conv)+
  next
    case 5
    with none run show ?thesis by (auto simp: rotate_store_def rotate_s3_def store_lists_def split: sum.splits if_splits)
  next
    case 6
    with run show ?thesis by (simp add: rotate_store_def)
  qed
qed

lemma rotate_cases:
  assumes "rotate h before an t prefix n folder fs = ((confirmed, e), fs')"
  shows "(an_aborted an = None \<and> n \<ge> 1 \<and> validate_folder folder = Inr () \<and> rotate_store h before an t prefix (nat n) folder fs = ((confirmed, e), fs'))
    \<or> (\<not> (an_aborted an = None \<and> n \<ge> 1 \<and> validate_folder folder = Inr ()) \<and> confirmed = [] \<and> fs' = fs)"
  using assms by (auto simp: rotate_def split: option.splits if_splits sum.splits)

text \<open>The rotation of a store that lists its files.\<close>

lemma store_rotated:
  assumes order: "\<forall>a b. before a b \<longrightarrow> \<not> before b a" "\<forall>a b c. before a c \<longrightarrow> before a b \<or> before b c"
    and server: "\<forall>p keys. an_keys an p = Inr keys \<longrightarrow> (\<forall>k \<in> set keys. starts_with k p)"
    and lists: "store_lists h an t prefix folder files" and run: "rotate_store h before an t prefix n folder fs = ((confirmed, e), fs')"
  shows "rotated (newer_file before t) n (candidates h t prefix folder files) (acknowledged an t) (absent an t) snd confirmed e
    \<and> (if st_type t = ''local'' then \<exists>dir. local_dir h t = Inr dir \<and> fs' = fs |` (- ((\<lambda>f. resolve_path dir folder @ [f]) ` set confirmed))
       else fs' = fs)"
proof -
  consider "st_type t = ''local''" | "st_type t \<in> {''ftp'', ''webdav'', ''google-drive'', ''onedrive''}" | "st_type t = ''s3''"
    using lists by (auto simp: store_lists_def split: if_splits)
  then show ?thesis
  proof cases
    case 1
    with local_rotated [OF 1 lists run] show ?thesis by simp
  next
    case 2
    have "rotated (newer_file before t) n (candidates h t prefix folder files) (acknowledged an t) (absent an t) snd confirmed e \<and> fs' = fs"
      by (rule remote_rotated [OF order 2 lists run])
    with 2 show ?thesis by auto
  next
    case 3
    have "rotated (newer_file before t) n (candidates h t prefix folder files) (acknowledged an t) (absent an t) snd confirmed e \<and> fs' = fs"
      by (rule s3_rotated [OF _ 3 lists run]) (use server in blast)
    with 3 show ?thesis by simp
  qed
qed

text \<open>C34: The rotation of any store, for a retention of at least one and a valid folder. When the store lists its files, the
  rotation keeps the given number of the newest files with the prefix (or all, where there are fewer) and goes
  through the others from newer to older; it reports exactly those whose deletion the store acknowledged, passes over
  the ones that are not there any more, and stops with an error at the first one the store refuses. Where nothing
  is listed, or the retention is below one, nothing is deleted. Of a local directory exactly the reported files are
  gone. The names are ordered by localeCompare, which orders strings consistently, except local names and the
  keys of a bucket, which are ordered by their characters; a bucket lists only keys with the asked prefix.\<close>

theorem rotation_keeps_the_newest:
  assumes "\<forall>a b. before a b \<longrightarrow> \<not> before b a" and "\<forall>a b c. before a c \<longrightarrow> before a b \<or> before b c"
    and "\<forall>p keys. an_keys an p = Inr keys \<longrightarrow> (\<forall>k \<in> set keys. starts_with k p)"
    and "rotate h before an t prefix n folder fs = ((confirmed, e), fs')"
  shows "(\<forall>files. an_aborted an = None \<and> n \<ge> 1 \<and> validate_folder folder = Inr () \<and> store_lists h an t prefix folder files \<longrightarrow>
        rotated (newer_file before t) (nat n) (candidates h t prefix folder files) (acknowledged an t) (absent an t) snd confirmed e)
    \<and> ((\<forall>files. \<not> store_lists h an t prefix folder files) \<or> n < 1 \<or> an_aborted an \<noteq> None \<longrightarrow> confirmed = [])
    \<and> (if st_type t = ''local'' \<and> confirmed \<noteq> []
       then \<exists>dir. local_dir h t = Inr dir \<and> fs' = fs |` (- ((\<lambda>f. resolve_path dir folder @ [f]) ` set confirmed)) else fs' = fs)"
proof (cases "an_aborted an = None \<and> n \<ge> 1 \<and> validate_folder folder = Inr ()")
  case True
  then have run: "rotate_store h before an t prefix (nat n) folder fs = ((confirmed, e), fs')" using rotate_cases [OF assms(4)] by blast
  show ?thesis
  proof (cases "\<exists>files. store_lists h an t prefix folder files")
    case True
    then obtain files where files: "store_lists h an t prefix folder files" by blast
    have "confirmed = [] \<longrightarrow> fs |` (- ((\<lambda>f. resolve_path dir folder @ [f]) ` set confirmed)) = fs" for dir by (simp add: restrict_map_def)
    then show ?thesis using store_rotated [OF assms(1-3) files run] store_rotated [OF assms(1-3) _ run] files True
        \<open>an_aborted an = None \<and> n \<ge> 1 \<and> validate_folder folder = Inr ()\<close>
      by (cases "st_type t = ''local''") fastforce+
  next
    case False
    then have "confirmed = [] \<and> fs' = fs" using nothing_rotated [OF _ run] by blast
    with False show ?thesis by simp
  qed
next
  case False
  then have "confirmed = [] \<and> fs' = fs" using rotate_cases [OF assms(4)] by blast
  with False show ?thesis by auto
qed

section \<open>Slots\<close>

text \<open>The downloads: a new one asks for a slot, one that runs ends and hands its slot over.\<close>

record slot_state =
  sx_slots :: slots
  sx_running :: "nat list"
  sx_next :: nat

inductive slot_step :: "slot_state \<Rightarrow> slot_state \<Rightarrow> bool" where
  granted: "acquire_slot (sx_next s) (sx_slots s) = (True, sl)
     \<Longrightarrow> slot_step s \<lparr>sx_slots = sl, sx_running = sx_running s @ [sx_next s], sx_next = Suc (sx_next s)\<rparr>"
| queued: "acquire_slot (sx_next s) (sx_slots s) = (False, sl)
     \<Longrightarrow> slot_step s \<lparr>sx_slots = sl, sx_running = sx_running s, sx_next = Suc (sx_next s)\<rparr>"
| handed: "k \<in> set (sx_running s) \<Longrightarrow> release_slot (sx_slots s) = (Some w, sl)
     \<Longrightarrow> slot_step s (s\<lparr>sx_slots := sl, sx_running := remove1 k (sx_running s) @ [w]\<rparr>)"
| freed: "k \<in> set (sx_running s) \<Longrightarrow> release_slot (sx_slots s) = (None, sl)
     \<Longrightarrow> slot_step s (s\<lparr>sx_slots := sl, sx_running := remove1 k (sx_running s)\<rparr>)"

inductive slot_run :: "slot_state \<Rightarrow> bool" where
  first: "slot_run \<lparr>sx_slots = \<lparr>sl_active = 0, sl_waiting = []\<rparr>, sx_running = [], sx_next = 0\<rparr>"
| step: "slot_run s \<Longrightarrow> slot_step s s' \<Longrightarrow> slot_run s'"

definition slots_ok :: "slot_state \<Rightarrow> bool" where
  "slots_ok s =
     (sl_active (sx_slots s) = length (sx_running s) \<and> length (sx_running s) \<le> 3
      \<and> (sl_waiting (sx_slots s) \<noteq> [] \<longrightarrow> length (sx_running s) = 3)
      \<and> distinct (sx_running s @ sl_waiting (sx_slots s)) \<and> sorted (sl_waiting (sx_slots s))
      \<and> (\<forall>k \<in> set (sx_running s @ sl_waiting (sx_slots s)). k < sx_next s))"

lemma slot_step_ok: "slot_step s s' \<Longrightarrow> slots_ok s \<Longrightarrow> slots_ok s'"
proof (induction rule: slot_step.induct)
  case (granted s sl)
  then show ?case by (auto simp: slots_ok_def acquire_slot_def less_Suc_eq split: if_splits)
next
  case (queued s sl)
  then have "\<forall>k \<in> set (sl_waiting (sx_slots s)). k \<le> sx_next s" by (auto simp: slots_ok_def intro!: less_imp_le)
  with queued show ?case by (auto simp: slots_ok_def acquire_slot_def sorted_append less_Suc_eq split: if_splits)
next
  case (handed k s w sl)
  then have "length (remove1 k (sx_running s)) = length (sx_running s) - 1" by (simp add: length_remove1)
  with handed show ?case
    by (auto simp: slots_ok_def release_slot_def length_remove1 dest: notin_set_remove1 split: list.splits if_splits)
next
  case (freed k s sl)
  then show ?case
    by (auto simp: slots_ok_def release_slot_def length_remove1 dest: notin_set_remove1 split: list.splits)
qed

text \<open>C37: At most three downloads from remote stores run at any time, the counter is their number, and none waits while
  a slot is free; those that wait were asked for in their order, and when one that runs ends while others wait, the
  first of them runs.\<close>

theorem downloads_share_three_slots:
  assumes "slot_run s"
  shows "sl_active (sx_slots s) = length (sx_running s) \<and> length (sx_running s) \<le> 3
    \<and> (sl_waiting (sx_slots s) = [] \<or> length (sx_running s) = 3) \<and> sorted (sl_waiting (sx_slots s))
    \<and> (case sl_waiting (sx_slots s) of
         [] \<Rightarrow> True
       | w # ws \<Rightarrow> release_slot (sx_slots s) = (Some w, (sx_slots s)\<lparr>sl_waiting := ws\<rparr>) \<and> w \<notin> set (sx_running s))"
proof -
  have "slots_ok s" using assms by (induction rule: slot_run.induct) (simp add: slots_ok_def, rule slot_step_ok)
  then show ?thesis by (auto simp: slots_ok_def release_slot_def split: list.split)
qed

section \<open>Local files\<close>

lemma common_prefix_take: "take (common_prefix xs ys) xs = take (common_prefix xs ys) ys"
  by (induction xs ys rule: common_prefix.induct) auto

lemma common_prefix_le: "common_prefix xs ys \<le> length xs"
  by (induction xs ys rule: common_prefix.induct) auto

lemma is_within_below:
  assumes "is_within base cand"
  shows "take (length base) cand = base"
proof -
  define k where "k = common_prefix base cand"
  have "length base - k = 0"
  proof (rule ccontr)
    assume "length base - k \<noteq> 0"
    then obtain m where "length base - k = Suc m" by (meson not0_implies_Suc)
    then show False using assms by (simp add: is_within_def relative_path_def Let_def k_def [symmetric] starts_with_def)
  qed
  then have "k = length base" using common_prefix_le [of base cand] by (simp add: k_def)
  then show ?thesis using common_prefix_take [of base cand] by (simp add: k_def)
qed

text \<open>A name that the validation accepts is one segment, except for the two names of directories.\<close>

lemma split_on_single: "c \<notin> set s \<Longrightarrow> split_on c s = [s]"
  by (induction s) auto

lemma resolve_name:
  assumes "validate_filename name = Inr ()" and "name \<noteq> ''.''" and "name \<noteq> ''..''"
  shows "resolve_path dir name = dir @ [name]"
proof -
  have "CHR ''/'' \<notin> set name" "name \<noteq> []"
    using assms(1) by (auto simp: validate_filename_def list_ex_iff forbidden_char_def split: if_splits)
  then show ?thesis using assms(2,3) by (simp add: resolve_path_def split_on_single)
qed

lemma local_dir_inside:
  assumes "local_dir h t = Inr dir" and "\<not> ho_any_path h"
  shows "take (length (ho_data h) + 1) dir = ho_data h @ [''backups'']"
  using assms is_within_below [of "ho_data h @ [''backups'']" dir] by (auto simp: local_dir_def Let_def split: if_splits)

text \<open>A folder that the validation accepts is no other place: nothing, or one segment.\<close>

lemma resolve_folder:
  assumes "validate_folder folder = Inr ()"
  shows "resolve_path dir folder = dir @ (if folder = [] then [] else [folder])"
proof (cases "folder = []")
  case True
  then show ?thesis by (simp add: resolve_path_def)
next
  case False
  then have "CHR ''/'' \<notin> set folder" "folder \<noteq> ''.''" "folder \<noteq> ''..''"
    using assms by (auto simp: validate_folder_def list_ex_iff forbidden_char_def split: if_splits)
  then show ?thesis using False by (simp add: resolve_path_def split_on_single)
qed

text \<open>A copy whose destination is no directory has a name that is one segment.\<close>

lemma destination_is_file:
  assumes "validate_filename name = Inr ()" and "\<not> is_directory dirs d (resolve_path d name)"
  shows "name \<noteq> ''.''" and "name \<noteq> ''..''"
  using assms(2) by (auto simp: is_directory_def resolve_path_def butlast_rev [symmetric] butlast_conv_take)

lemma is_within_append: "is_within dir (dir @ xs) \<longleftrightarrow> (case xs of [] \<Rightarrow> True | s # _ \<Rightarrow> \<not> starts_with s ''..'')"
proof -
  have "common_prefix dir (dir @ xs) = length dir" by (induction dir) auto
  then show ?thesis by (simp add: is_within_def relative_path_def)
qed

text \<open>C35: An upload to a local target writes one file, whose path is the target's directory, the folder and the name;
  unless any path is allowed it lies below the backups directory of the data directory. Every other file stays as
  it was; neither the name of the directory itself nor that of its parent is ever written. What was written is there
  for a download with the same folder and name, except for a name that begins with two dots and has no folder: the
  upload takes it and the download refuses it.\<close>

theorem local_uploads_stay_inside:
  assumes "upload_local h dirs t source name folder fs = Inr (p, fs')"
  shows "\<exists>dir. local_dir h t = Inr dir \<and> p = dir @ (if folder = [] then [] else [folder]) @ [name]
    \<and> name \<notin> {[], ''.'', ''..''} \<and> fs' = fs(p := fs source) \<and> fs source \<noteq> None
    \<and> (ho_any_path h \<or> take (length (ho_data h) + 1) p = ho_data h @ [''backups''])
    \<and> download_local h dirs t name folder fs' =
        (if folder = [] \<and> starts_with name ''..'' then Inl (BadRequest ''Backup file is no longer available in local storage'')
         else Inr p)"
proof -
  obtain dir content where d: "validate_filename name = Inr ()" "validate_folder folder = Inr ()" "local_dir h t = Inr dir"
    "fs source = Some content" "p = resolve_path (resolve_path dir folder) name" "fs' = fs(p \<mapsto> content)"
    "is_within dir (resolve_path dir folder)" "\<not> is_directory dirs (resolve_path dir folder) (resolve_path (resolve_path dir folder) name)"
    using assms by (auto simp: upload_local_def Let_def split: sum.splits if_splits option.splits)
  note name = destination_is_file [OF d(1,8)]
  have p: "p = dir @ (if folder = [] then [] else [folder]) @ [name]"
    by (simp add: d(5) resolve_folder [OF d(2)] resolve_name [OF d(1) name])
  have inside: "take (length (ho_data h) + 1) p = ho_data h @ [''backups'']" if "\<not> ho_any_path h"
  proof -
    have inside: "take (length (ho_data h) + 1) dir = ho_data h @ [''backups'']" by (rule local_dir_inside [OF d(3) that])
    then have "length (ho_data h) + 1 \<le> length dir" by (metis length_append_singleton length_take min.absorb_iff2 Suc_eq_plus1)
    with inside show ?thesis by (simp add: p)
  qed
  have "is_within dir p \<longleftrightarrow> \<not> (folder = [] \<and> starts_with name ''..'')"
    using d(7) by (simp add: p resolve_folder [OF d(2)] is_within_append split: if_splits)
  then have "download_local h dirs t name folder fs' =
      (if folder = [] \<and> starts_with name ''..'' then Inl (BadRequest ''Backup file is no longer available in local storage'') else Inr p)"
    using d(1-3) by (simp add: download_local_def in_folder_def Let_def d(5) [symmetric] d(6))
  moreover have "name \<notin> {[], ''.'', ''..''}" using d(1) name by (auto simp: validate_filename_def)
  moreover have "fs' = fs(p := fs source)" "fs source \<noteq> None" by (simp_all add: d(4,6))
  ultimately show ?thesis using d(3) p inside by blast
qed

section \<open>Missing or unreachable\<close>

text \<open>A name server that does not know the host of an FTP or S3 target reads as a file that is missing.\<close>

lemma unresolved_host_reads_as_missing:
  assumes "st_type t = ''ftp'' \<or> st_type t = ''s3''" and "ra_reply ra = Inl \<lparr>re_code = ''ENOTFOUND'', re_message = msg\<rparr>"
    and "validate_filename name = Inr ()" and "validate_folder folder = Inr ()"
  shows "is_available h dirs fs ra t name location folder = Inr False"
proof -
  have "is_missing_remote \<lparr>re_code = ''ENOTFOUND'', re_message = msg\<rparr>"
    unfolding is_missing_remote_def by (rule disjI1) code_simp
  then show ?thesis using assms by (auto simp: is_available_def answered_available_def)
qed

text \<open>The names of the two directories pass for the names of backup files; a copy to them fails.\<close>

lemma directories_are_valid_filenames: "validate_filename ''..'' = Inr () \<and> validate_filename ''.'' = Inr ()"
  by code_simp

text \<open>A file whose name begins with two dots is taken by an upload and not found by a download.\<close>

lemma dotted_upload_is_lost:
  assumes "upload_local h dirs t source (''..'' @ x) [] fs = Inr (p, fs')"
  shows "fs' p \<noteq> None \<and> download_local h dirs t (''..'' @ x) [] fs' = Inl (BadRequest ''Backup file is no longer available in local storage'')"
proof -
  obtain dir content where d: "validate_filename (''..'' @ x) = Inr ()" "local_dir h t = Inr dir" "fs' = fs(p \<mapsto> content)"
    "\<not> is_directory dirs (resolve_path dir []) (resolve_path (resolve_path dir []) (''..'' @ x))"
    using assms by (auto simp: upload_local_def Let_def split: sum.splits if_splits option.splits)
  have folder: "validate_folder [] = Inr ()" by (simp add: validate_folder_def)
  have "in_folder dir [] (''..'' @ x) = dir @ [''..'' @ x]"
    unfolding in_folder_def by (subst resolve_name [OF d(1) destination_is_file [OF d(1,4)]]) (simp add: resolve_folder [OF folder])
  moreover have "\<not> is_within dir (dir @ [''..'' @ x])" by (simp add: is_within_append starts_with_def)
  ultimately show ?thesis using d(1-3) folder by (simp add: download_local_def Let_def)
qed

section \<open>Reconciliation\<close>

lemma expire_by_id_tables [simp]:
  "targets (expire_by_id i d) = targets d" "jobs (expire_by_id i d) = jobs d"
  "runs (expire_by_id i d) = update_where (\<lambda>r. r_id r = i \<and> r_status r = ''success'') expire_run (runs d)"
  by (simp_all add: expire_by_id_def)

lemma available_frame:
  assumes "targets (vt_db w) = targets (vt_db v)" and "jobs (vt_db w) = jobs (vt_db v)" and "vt_artifacts w = vt_artifacts v"
    and "vt_targets w = vt_targets v"
  shows "artifact_available es dec avail w r = artifact_available es dec avail v r"
  using assms
  by (simp add: artifact_available_def run_target_def find_job_def get_target_def target_of_def cong: sum.case_cong option.case_cong)

definition reconciled :: "(run_row \<Rightarrow> bool) \<Rightarrow> run_row list \<Rightarrow> run_row \<Rightarrow> run_row" where
  "reconciled missing rows r = (if r_status r = ''success'' \<and> (\<exists>x \<in> set rows. r_id x = r_id r \<and> missing x) then expire_run r else r)"

lemma reconcile_fold:
  assumes "targets (vt_db w) = targets (vt_db v)" "jobs (vt_db w) = jobs (vt_db v)" "vt_artifacts w = vt_artifacts v" "vt_targets w = vt_targets v"
    and "fold (reconcile_row es dec avail) rows (w, c) = (v', c')"
  shows "runs (vt_db v') = map (reconciled (\<lambda>x. artifact_available es dec avail v x = Inr False) rows) (runs (vt_db w))
    \<and> rc_checked c' = rc_checked c + length rows
    \<and> rc_expired c' = rc_expired c + length (filter (\<lambda>x. artifact_available es dec avail v x = Inr False) rows)
    \<and> rc_errors c' = rc_errors c + length (filter (\<lambda>x. \<not> is_ok (artifact_available es dec avail v x)) rows)"
  using assms
proof (induction rows arbitrary: w c)
  case Nil
  then show ?case by (simp add: reconciled_def)
next
  case (Cons x rows)
  note same = available_frame [OF Cons.prems(1-4), of es dec avail x]
  obtain w1 c1 where r: "reconcile_row es dec avail x (w, c) = (w1, c1)" by fastforce
  have t1: "targets (vt_db w1) = targets (vt_db v)" "jobs (vt_db w1) = jobs (vt_db v)" "vt_artifacts w1 = vt_artifacts v" "vt_targets w1 = vt_targets v"
    using r Cons.prems(1-4) by (auto simp: reconcile_row_def Let_def split: sum.splits bool.splits)
  note IH = Cons.IH [OF t1, of c1]
  have rest: "fold (reconcile_row es dec avail) rows (w1, c1) = (v', c')" using Cons.prems(5) r by simp
  have counts: "rc_checked c1 = Suc (rc_checked c)"
    "rc_expired c1 = (if artifact_available es dec avail v x = Inr False then Suc (rc_expired c) else rc_expired c)"
    "rc_errors c1 = (if is_ok (artifact_available es dec avail v x) then rc_errors c else Suc (rc_errors c))"
    using r by (auto simp: reconcile_row_def Let_def same is_ok_def split: sum.splits bool.splits)
  have id: "reconciled P [x] = (\<lambda>r. r)" if "\<not> P x" for P using that by (auto simp: reconciled_def)
  have runs1: "runs (vt_db w1) = map (reconciled (\<lambda>x. artifact_available es dec avail v x = Inr False) [x]) (runs (vt_db w))"
  proof (cases "artifact_available es dec avail v x = Inr False")
    case True
    with r show ?thesis by (auto simp: reconcile_row_def Let_def same reconciled_def update_where_def)
  next
    case False
    with r have "w1 = w" by (auto simp: reconcile_row_def Let_def same split: sum.splits bool.splits)
    with False show ?thesis by (simp add: id)
  qed
  have both: "reconciled P rows (reconciled P [x] q) = reconciled P (x # rows) q" for P q
  proof (cases "r_status q = ''success'' \<and> r_id x = r_id q \<and> P x")
    case True
    then show ?thesis by (simp add: reconciled_def expire_run_def)
  next
    case False
    then have "reconciled P [x] q = q" unfolding reconciled_def by auto
    moreover have "reconciled P (x # rows) q = reconciled P rows q" using False unfolding reconciled_def by auto
    ultimately show ?thesis by simp
  qed
  show ?case using IH [OF rest] counts by (simp add: runs1 both comp_def)
qed

text \<open>What the reconciliation has to ask about a completed run: the storage target of the run, or of its schedule,
  and the name, location and folder of its artifact. A name of blanks only is no name, an empty location is none.\<close>

definition asks :: "vault \<Rightarrow> run_row \<Rightarrow> id \<Rightarrow> string \<Rightarrow> string option \<Rightarrow> string \<Rightarrow> bool" where
  "asks v r i name location folder =
     (r_status r = ''success''
      \<and> (\<exists>j. find_job (vt_db v) (r_job r) = Some j \<and> (r_target r = Some i \<or> r_target r = None \<and> i = j_target j))
      \<and> (\<exists>a. vt_artifacts v (r_id r) = Some a \<and> ax_filename a = Some name \<and> (\<exists>c \<in> set name. c \<noteq> CHR '' '')
            \<and> location = (if ax_location a = Some [] then None else ax_location a)
            \<and> folder = (if ax_folder a = None then [] else the (ax_folder a))))"

text \<open>The target is there, was asked, and answered that the artifact is not.\<close>

definition answers_missing :: "encryption_status \<Rightarrow> (string \<Rightarrow> json option) \<Rightarrow> availability \<Rightarrow> vault \<Rightarrow> run_row \<Rightarrow> bool" where
  "answers_missing es dec avail v r =
     (\<exists>i name location folder t. asks v r i name location folder \<and> get_target es dec i v = Inr t
        \<and> avail r t name location folder = Inr False)"

text \<open>The target is gone or unreadable, or the question to it failed.\<close>

definition unanswered :: "encryption_status \<Rightarrow> (string \<Rightarrow> json option) \<Rightarrow> availability \<Rightarrow> vault \<Rightarrow> run_row \<Rightarrow> bool" where
  "unanswered es dec avail v r =
     (\<exists>i name location folder e. asks v r i name location folder
        \<and> (get_target es dec i v = Inl e \<or> (\<exists>t. get_target es dec i v = Inr t \<and> avail r t name location folder = Inl e)))"

lemma dropWhile_nonempty: "dropWhile P xs \<noteq> [] \<longleftrightarrow> (\<exists>x \<in> set xs. \<not> P x)"
  by (simp add: dropWhile_eq_Nil_conv)

lemma asks_stored:
  assumes "r \<in> set (runs (vt_db v))"
  shows "r \<in> set (stored_runs v) \<longleftrightarrow> (\<exists>i name location folder. asks v r i name location folder)"
  using assms
  by (cases "find_job (vt_db v) (r_job r)"; cases "vt_artifacts v (r_id r)"; cases "r_target r")
     (auto simp: stored_runs_def asks_def has_filename_def run_target_def dropWhile_nonempty split: option.splits)

lemma asks_available:
  assumes "asks v r i name location folder"
  shows "artifact_available es dec avail v r = (case get_target es dec i v of Inl e \<Rightarrow> Inl e | Inr t \<Rightarrow> avail r t name location folder)"
  using assms by (auto simp: asks_def artifact_available_def run_target_def nonempty_def split: option.splits sum.splits)

lemma stored_missing:
  assumes "r \<in> set (runs (vt_db v))"
  shows "r \<in> set (stored_runs v) \<and> artifact_available es dec avail v r = Inr False \<longleftrightarrow> answers_missing es dec avail v r"
  unfolding asks_stored [OF assms] answers_missing_def by (auto simp: asks_available split: sum.splits) blast+

lemma stored_unanswered:
  assumes "r \<in> set (runs (vt_db v))"
  shows "r \<in> set (stored_runs v) \<and> \<not> is_ok (artifact_available es dec avail v r) \<longleftrightarrow> unanswered es dec avail v r"
  unfolding asks_stored [OF assms] unanswered_def by (auto simp: asks_available is_ok_def split: sum.splits) blast+

lemma stored_count:
  assumes "\<And>r. r \<in> set (runs (vt_db v)) \<Longrightarrow> r \<in> set (stored_runs v) \<and> P r \<longleftrightarrow> Q r"
  shows "length (filter P (stored_runs v)) = length (filter Q (runs (vt_db v)))"
proof -
  have "filter (\<lambda>r. (r_status r = ''success'' \<and> has_filename v r \<and> run_target v r \<noteq> None) \<and> P r) (runs (vt_db v)) = filter Q (runs (vt_db v))"
    using assms by (intro filter_cong refl) (simp add: stored_runs_def)
  then show ?thesis by (simp add: stored_runs_def filter_sort conj_ac)
qed


chapter \<open>Preparation of downloads\<close>

text \<open>Properties of the preparation of downloads, over every order of its steps.\<close>

section \<open>Steps\<close>

text \<open>A download ends at a path that no other preparation uses; a temporary file is new.\<close>

definition unused_path :: "downloads \<Rightarrow> string list \<Rightarrow> bool" where
  "unused_path s f = (\<forall>q \<in> set (dn_jobs s). pe_cleanup q \<longrightarrow> pe_path q \<noteq> Some f)"

definition recorded_digest :: "vault \<Rightarrow> id \<Rightarrow> string option" where
  "recorded_digest v run = (case vt_artifacts v run of None \<Rightarrow> None | Some a \<Rightarrow> ax_sha256 a)"

inductive download_step :: "(string \<Rightarrow> string) \<Rightarrow> vault \<times> downloads \<Rightarrow> vault \<times> downloads \<Rightarrow> bool" for sha where
  started: "start_download_preparation es run user v s = Inr (i, v', s') \<Longrightarrow> download_step sha (v, s) (v', s')"
| begun: "download_step sha (v, s) (v, begin_download i s)"
| progressed: "download_step sha (v, s) (v, report_progress n whole i s)"
| finished: "find_preparation s i = Some p \<Longrightarrow> pe_state p = Preparing
     \<Longrightarrow> (\<forall>f cleanup content. outcome = Inr (f, cleanup, content) \<longrightarrow> unused_path s f)
     \<Longrightarrow> download_step sha (v, s) (v, finish_preparation sha (recorded_digest v (pe_run p)) outcome i s)"
| taken: "take_prepared_download i user s = Inr (f, cleanup, s') \<Longrightarrow> download_step sha (v, s) (v, s')"
| expired: "download_step sha (v, s) (v, expire_preparation i s)"

inductive download_run :: "(string \<Rightarrow> string) \<Rightarrow> vault \<times> downloads \<Rightarrow> bool" for sha where
  first: "download_run sha (v, \<lparr>dn_jobs = [], dn_files = fs\<rparr>)"
| step: "download_run sha x \<Longrightarrow> download_step sha x y \<Longrightarrow> download_run sha y"

section \<open>The invariant\<close>

definition checked :: "(string \<Rightarrow> string) \<Rightarrow> vault \<Rightarrow> downloads \<Rightarrow> preparation \<Rightarrow> bool" where
  "checked sha v s p =
     (\<exists>f content. pe_path p = Some f \<and> dn_files s f = Some content
        \<and> is_ok (verify_downloaded_hash sha content (recorded_digest v (pe_run p)) (nonempty (recorded_digest v (pe_run p)) \<noteq> None)))"

definition job_ok :: "(string \<Rightarrow> string) \<Rightarrow> vault \<Rightarrow> downloads \<Rightarrow> preparation \<Rightarrow> bool" where
  "job_ok sha v s p =
     (drawn (draws (vt_db v)) (pe_id p) \<and> (pe_state p = PrepReady \<and> pe_cleanup p \<longrightarrow> checked sha v s p)
      \<and> (pe_state p = Preparing \<longrightarrow> \<not> pe_cleanup p))"

definition downloads_ok :: "(string \<Rightarrow> string) \<Rightarrow> vault \<Rightarrow> downloads \<Rightarrow> bool" where
  "downloads_ok sha v s =
     (distinct (map pe_id (dn_jobs s)) \<and> (\<forall>p \<in> set (dn_jobs s). job_ok sha v s p)
      \<and> (\<forall>p \<in> set (dn_jobs s). \<forall>q \<in> set (dn_jobs s). pe_cleanup p \<longrightarrow> pe_cleanup q \<longrightarrow> pe_path p = pe_path q \<longrightarrow> pe_id p = pe_id q))"

lemma downloads_okI:
  assumes "distinct (map pe_id (dn_jobs s))" and "\<And>p. p \<in> set (dn_jobs s) \<Longrightarrow> job_ok sha v s p"
    and "\<And>p q. p \<in> set (dn_jobs s) \<Longrightarrow> q \<in> set (dn_jobs s) \<Longrightarrow> pe_cleanup p \<Longrightarrow> pe_cleanup q \<Longrightarrow> pe_path p = pe_path q \<Longrightarrow> pe_id p = pe_id q"
  shows "downloads_ok sha v s"
  unfolding downloads_ok_def using assms by blast

lemma downloads_okD:
  assumes "downloads_ok sha v s"
  shows "distinct (map pe_id (dn_jobs s))" and "p \<in> set (dn_jobs s) \<Longrightarrow> job_ok sha v s p"
    and "p \<in> set (dn_jobs s) \<Longrightarrow> q \<in> set (dn_jobs s) \<Longrightarrow> pe_cleanup p \<Longrightarrow> pe_cleanup q \<Longrightarrow> pe_path p = pe_path q \<Longrightarrow> pe_id p = pe_id q"
  using assms unfolding downloads_ok_def by blast+

lemma update_preparation_rows [simp]:
  "dn_jobs (update_preparation i f s) = update_where (\<lambda>p. pe_id p = i) f (dn_jobs s)" "dn_files (update_preparation i f s) = dn_files s"
  by (simp_all add: update_preparation_def)

text \<open>Rows that keep what the invariant is about.\<close>

definition same_job :: "preparation \<Rightarrow> preparation \<Rightarrow> bool" where
  "same_job p q = (pe_id p = pe_id q \<and> pe_run p = pe_run q \<and> pe_path p = pe_path q \<and> pe_cleanup p = pe_cleanup q \<and> pe_state p = pe_state q)"

lemma downloads_ok_same:
  assumes "downloads_ok sha v s" and "\<And>p. same_job (f p) p"
  shows "downloads_ok sha v (update_preparation i f s)"
proof -
  have rows: "\<exists>x \<in> set (dn_jobs s). same_job p x" if "p \<in> set (dn_jobs (update_preparation i f s))" for p
    using that assms(2) by (auto simp: in_set_update_where same_job_def)
  have "map pe_id (dn_jobs (update_preparation i f s)) = map pe_id (dn_jobs s)"
    using assms(2) by (simp add: update_where_def same_job_def)
  then have "distinct (map pe_id (dn_jobs (update_preparation i f s)))" using assms(1) by (simp only: downloads_ok_def)
  moreover have "job_ok sha v (update_preparation i f s) p" if p: "p \<in> set (dn_jobs (update_preparation i f s))" for p
  proof -
    obtain x where x: "x \<in> set (dn_jobs s)" "same_job p x" using rows [OF p] by blast
    then have "job_ok sha v s x" using assms(1) by (simp add: downloads_ok_def)
    with x(2) show ?thesis unfolding job_ok_def checked_def same_job_def by simp
  qed
  moreover have "pe_id p = pe_id q" if pq: "p \<in> set (dn_jobs (update_preparation i f s))" "q \<in> set (dn_jobs (update_preparation i f s))"
    "pe_cleanup p" "pe_cleanup q" "pe_path p = pe_path q" for p q
  proof -
    obtain x y where x: "x \<in> set (dn_jobs s)" "same_job p x" and y: "y \<in> set (dn_jobs s)" "same_job q y"
      using rows [OF pq(1)] rows [OF pq(2)] by blast
    have "pe_cleanup x" "pe_cleanup y" "pe_path x = pe_path y" using x(2) y(2) pq(3-5) by (simp_all add: same_job_def)
    then have "pe_id x = pe_id y" by (rule downloads_okD(3) [OF assms(1) x(1) y(1)])
    with x(2) y(2) show ?thesis by (simp add: same_job_def)
  qed
  ultimately show ?thesis by (rule downloads_okI)
qed

text \<open>Dropping a row, and with it the file that only it uses.\<close>

lemma downloads_ok_drop:
  assumes ok: "downloads_ok sha v s" and jobs: "dn_jobs s' = filter (\<lambda>q. pe_id q \<noteq> i) (dn_jobs s)"
    and files: "\<And>f. dn_files s' f = dn_files s f \<or> (\<exists>p \<in> set (dn_jobs s). pe_id p = i \<and> pe_cleanup p \<and> pe_path p = Some f)"
  shows "downloads_ok sha v s'"
proof -
  have "job_ok sha v s' p" if p: "p \<in> set (dn_jobs s)" "pe_id p \<noteq> i" for p
  proof -
    have "job_ok sha v s p" using ok p by (simp add: downloads_ok_def)
    moreover have "dn_files s' f = dn_files s f" if "pe_cleanup p" "pe_path p = Some f" for f
      using files [of f] downloads_okD(3) [OF ok _ p(1) _ that(1)] p(2) that(2) by fastforce
    ultimately show ?thesis by (auto simp: job_ok_def checked_def)
  qed
  then show ?thesis using downloads_okD [OF ok] by (intro downloads_okI) (simp_all add: jobs distinct_map_filter)
qed

lemma expire_ok:
  assumes "downloads_ok sha v s"
  shows "downloads_ok sha v (expire_preparation i s)"
proof (cases "find_preparation s i")
  case None
  with assms show ?thesis by (simp add: expire_preparation_def)
next
  case (Some p)
  then have p: "p \<in> set (dn_jobs s)" "pe_id p = i" by (auto simp: find_preparation_def dest!: find_SomeD)
  show ?thesis
  proof (cases "pe_state p = PrepReady")
    case True
    show ?thesis
      by (rule downloads_ok_drop [OF assms, where i = i])
        (use True Some p in \<open>auto simp: expire_preparation_def drop_file_def split: option.splits\<close>)
  qed (use assms Some in \<open>simp add: expire_preparation_def\<close>)
qed

lemma take_cases:
  assumes "take_prepared_download i user s = Inr (f, cleanup, s')"
  obtains p where "find_preparation s i = Some p" "pe_user p = user" "pe_state p = PrepReady" "pe_path p = Some f" "cleanup = pe_cleanup p"
    "s' = s\<lparr>dn_jobs := filter (\<lambda>q. pe_id q \<noteq> i) (dn_jobs s)\<rparr>"
  using assms
  by (auto simp: take_prepared_download_def get_download_preparation_def split: sum.splits option.splits if_splits preparation_state.splits)

lemma take_ok: "downloads_ok sha v s \<Longrightarrow> take_prepared_download i user s = Inr (f, cleanup, s') \<Longrightarrow> downloads_ok sha v s'"
  by (erule take_cases, rule downloads_ok_drop [where i = i and s = s]) simp_all

text \<open>A failed preparation: its temporary file is gone.\<close>

lemma fail_ok:
  assumes ok: "distinct (map pe_id (dn_jobs s))"
    and jobs: "\<And>p. p \<in> set (dn_jobs s) \<Longrightarrow> pe_id p \<noteq> i \<Longrightarrow> job_ok sha v s p" "\<And>p. p \<in> set (dn_jobs s) \<Longrightarrow> drawn (draws (vt_db v)) (pe_id p)"
    and paths: "\<And>p q. p \<in> set (dn_jobs s) \<Longrightarrow> q \<in> set (dn_jobs s) \<Longrightarrow> pe_cleanup p \<Longrightarrow> pe_cleanup q \<Longrightarrow> pe_path p = pe_path q \<Longrightarrow> pe_id p = pe_id q"
    and p: "find_preparation s i = Some p"
  shows "downloads_ok sha v (fail_preparation i e s)"
proof -
  let ?f = "\<lambda>p. p\<lparr>pe_state := PrepFailed, pe_stage := ''failed'', pe_percent := min (pe_percent p) 99, pe_error := take 500 (message_of e)\<rparr>"
  let ?s = "fail_preparation i e s"
  have pi: "p \<in> set (dn_jobs s)" "pe_id p = i" using p by (auto simp: find_preparation_def dest!: find_SomeD)
  have rows: "dn_jobs ?s = update_where (\<lambda>p. pe_id p = i) ?f (dn_jobs s)" by (simp add: fail_preparation_def p)
  have files: "dn_files ?s f = dn_files s f" if "pe_cleanup p \<Longrightarrow> pe_path p \<noteq> Some f" for f
    using that by (auto simp: fail_preparation_def p drop_file_def split: option.split)
  have row: "\<exists>x \<in> set (dn_jobs s). pe_id q = pe_id x \<and> pe_path q = pe_path x \<and> pe_cleanup q = pe_cleanup x
      \<and> (if pe_id x = i then pe_state q = PrepFailed else q = x)" if q: "q \<in> set (dn_jobs ?s)" for q
  proof -
    obtain x where x: "x \<in> set (dn_jobs s)" "q = (if pe_id x = i then ?f x else x)"
      using q unfolding rows in_set_update_where by blast
    then show ?thesis by (intro bexI [of _ x]) simp_all
  qed
  have "job_ok sha v ?s q" if q: "q \<in> set (dn_jobs ?s)" for q
  proof -
    obtain x where x: "x \<in> set (dn_jobs s)" "pe_id q = pe_id x" "if pe_id x = i then pe_state q = PrepFailed else q = x" using row [OF q] by blast
    show ?thesis
    proof (cases "pe_id x = i")
      case True
      with x jobs(2) [OF x(1)] show ?thesis by (simp add: job_ok_def)
    next
      case False
      then have "q = x" "job_ok sha v s x" using x jobs(1) by simp_all
      moreover have "dn_files ?s f = dn_files s f" if "pe_cleanup x" "pe_path x = Some f" for f
        using files [of f] paths [OF pi(1) x(1)] that False pi(2) by fastforce
      ultimately show ?thesis by (auto simp: job_ok_def checked_def)
    qed
  qed
  moreover have "pe_id q = pe_id q'" if "q \<in> set (dn_jobs ?s)" "q' \<in> set (dn_jobs ?s)" "pe_cleanup q" "pe_cleanup q'" "pe_path q = pe_path q'" for q q'
    using row [OF that(1)] row [OF that(2)] that(3-5) paths by metis
  moreover have "map pe_id (dn_jobs ?s) = map pe_id (dn_jobs s)" unfolding rows by (simp add: update_where_def)
  then have "distinct (map pe_id (dn_jobs ?s))" using ok by simp
  ultimately show ?thesis by (intro downloads_okI)
qed

text \<open>A download that ends: the file is written at a path of its own, and checked.\<close>

lemma unused_other:
  assumes "unused_path s f" and "q \<in> set (dn_jobs s)" and "pe_cleanup q"
  shows "pe_path q \<noteq> Some f"
  using assms by (simp add: unused_path_def)

lemma arrived_ok:
  assumes ok: "downloads_ok sha v s" and p: "find_preparation s i = Some p" "pe_state p = Preparing" and f: "unused_path s f"
    and s1: "s1 = update_preparation i (\<lambda>p. p\<lparr>pe_path := Some f, pe_cleanup := cleanup\<rparr>) (s\<lparr>dn_files := (dn_files s)(f \<mapsto> content)\<rparr>)"
  shows "distinct (map pe_id (dn_jobs s1))" and "find_preparation s1 i = Some (p\<lparr>pe_path := Some f, pe_cleanup := cleanup\<rparr>)"
    and "\<And>q. q \<in> set (dn_jobs s1) \<Longrightarrow> pe_id q \<noteq> i \<Longrightarrow> job_ok sha v s1 q" and "\<And>q. q \<in> set (dn_jobs s1) \<Longrightarrow> drawn (draws (vt_db v)) (pe_id q)"
    and "\<And>a b. a \<in> set (dn_jobs s1) \<Longrightarrow> b \<in> set (dn_jobs s1) \<Longrightarrow> pe_cleanup a \<Longrightarrow> pe_cleanup b \<Longrightarrow> pe_path a = pe_path b \<Longrightarrow> pe_id a = pe_id b"
proof -
  let ?f = "\<lambda>p. p\<lparr>pe_path := Some f, pe_cleanup := cleanup\<rparr>"
  have rows: "dn_jobs s1 = update_where (\<lambda>p. pe_id p = i) ?f (dn_jobs s)" and files: "dn_files s1 = (dn_files s)(f \<mapsto> content)"
    by (simp_all add: s1)
  have row: "\<exists>x \<in> set (dn_jobs s). pe_id q = pe_id x \<and> (if pe_id x = i then pe_path q = Some f else q = x)" if q: "q \<in> set (dn_jobs s1)" for q
  proof -
    obtain x where x: "x \<in> set (dn_jobs s)" "q = (if pe_id x = i then ?f x else x)" using q unfolding rows in_set_update_where by blast
    then show ?thesis by (intro bexI [of _ x]) simp_all
  qed
  have "map pe_id (dn_jobs s1) = map pe_id (dn_jobs s)" by (simp add: rows update_where_def)
  with downloads_okD(1) [OF ok] show "distinct (map pe_id (dn_jobs s1))" by simp
  show "find_preparation s1 i = Some (?f p)"
    using p(1) unfolding find_preparation_def rows by (subst find_map_key) (auto dest: find_key_SomeD)
  show "job_ok sha v s1 q" if q: "q \<in> set (dn_jobs s1)" "pe_id q \<noteq> i" for q
  proof -
    have "q \<in> set (dn_jobs s)" using row [OF q(1)] q(2) by auto
    then have "job_ok sha v s q" "pe_cleanup q \<longrightarrow> pe_path q \<noteq> Some f" using downloads_okD(2) [OF ok] unused_other [OF f] by blast+
    then show ?thesis by (auto simp: job_ok_def checked_def files)
  qed
  show "drawn (draws (vt_db v)) (pe_id q)" if q: "q \<in> set (dn_jobs s1)" for q
    using row [OF q] downloads_okD(2) [OF ok] by (auto simp: job_ok_def)
  show "pe_id a = pe_id b" if ab: "a \<in> set (dn_jobs s1)" "b \<in> set (dn_jobs s1)" "pe_cleanup a" "pe_cleanup b" "pe_path a = pe_path b" for a b
  proof -
    obtain x y where x: "x \<in> set (dn_jobs s)" "pe_id a = pe_id x" "if pe_id x = i then pe_path a = Some f else a = x"
      and y: "y \<in> set (dn_jobs s)" "pe_id b = pe_id y" "if pe_id y = i then pe_path b = Some f else b = y"
      using row [OF ab(1)] row [OF ab(2)] by blast
    have other: "z = q \<Longrightarrow> z \<in> set (dn_jobs s) \<Longrightarrow> pe_cleanup q \<Longrightarrow> pe_path q \<noteq> Some f" for z q using unused_other [OF f] by blast
    show ?thesis
    proof (cases "pe_id x = i")
      case True
      then have pa: "pe_path b = Some f" using x(3) ab(5) by simp
      show ?thesis
      proof (cases "pe_id y = i")
        case True
        with \<open>pe_id x = i\<close> x(2) y(2) show ?thesis by simp
      next
        case False
        then have "b = y" using y(3) by simp
        from other [OF this [symmetric] y(1) ab(4)] pa show ?thesis by simp
      qed
    next
      case False
      then have ax: "a = x" using x(3) by simp
      show ?thesis
      proof (cases "pe_id y = i")
        case True
        then have "pe_path a = Some f" using y(3) ab(5) by simp
        with other [OF ax [symmetric] x(1) ab(3)] show ?thesis by simp
      next
        case False
        then have "b = y" using y(3) by simp
        with ax x(1) y(1) ab(3-5) show ?thesis using downloads_okD(3) [OF ok] by blast
      qed
    qed
  qed
qed

lemma finish_ok:
  assumes ok: "downloads_ok sha v s" and p: "find_preparation s i = Some p" "pe_state p = Preparing"
    and out: "\<And>f cleanup content. outcome = Inr (f, cleanup, content) \<Longrightarrow> unused_path s f"
  shows "downloads_ok sha v (finish_preparation sha (recorded_digest v (pe_run p)) outcome i s)"
proof (cases outcome)
  case (Inl e)
  then show ?thesis unfolding finish_preparation_def Inl
    by (simp, intro fail_ok [OF downloads_okD(1) [OF ok] _ _ downloads_okD(3) [OF ok] p(1)])
      (use downloads_okD(2) [OF ok] in \<open>auto simp: job_ok_def\<close>)
next
  case (Inr o')
  obtain f cleanup content where o': "o' = (f, cleanup, content)" by (cases o')
  define s1 where "s1 = update_preparation i (\<lambda>p. p\<lparr>pe_path := Some f, pe_cleanup := cleanup\<rparr>) (s\<lparr>dn_files := (dn_files s)(f \<mapsto> content)\<rparr>)"
  note a = arrived_ok [OF ok p out [unfolded Inr o', OF refl] s1_def]
  define r where "r = verify_downloaded_hash sha content (recorded_digest v (pe_run p)) (nonempty (recorded_digest v (pe_run p)) \<noteq> None)"
  show ?thesis
  proof (cases r)
    case (Inl e)
    then have fin: "finish_preparation sha (recorded_digest v (pe_run p)) outcome i s = fail_preparation i e s1"
      by (simp add: finish_preparation_def \<open>outcome = Inr o'\<close> o' s1_def r_def Let_def)
    show ?thesis unfolding fin by (rule fail_ok [OF a(1) a(3) a(4) a(5) a(2)])
  next
    case (Inr x)
    let ?g = "\<lambda>p. p\<lparr>pe_state := PrepReady, pe_stage := ''ready'', pe_percent := 100\<rparr>"
    have fin: "finish_preparation sha (recorded_digest v (pe_run p)) outcome i s = update_preparation i ?g s1"
      using Inr by (simp add: finish_preparation_def \<open>outcome = Inr o'\<close> o' s1_def r_def Let_def)
    have only: "y = p\<lparr>pe_path := Some f, pe_cleanup := cleanup\<rparr>" if y: "y \<in> set (dn_jobs s1)" "pe_id y = i" for y
    proof -
      have "List.find (\<lambda>p. pe_id p = pe_id y) (dn_jobs s1) = Some y" by (rule find_key_unique [OF a(1) y(1)])
      with a(2) y(2) show ?thesis by (simp add: find_preparation_def)
    qed
    show ?thesis unfolding fin
    proof (rule downloads_okI)
      have "map pe_id (dn_jobs (update_preparation i ?g s1)) = map pe_id (dn_jobs s1)" by (simp add: update_where_def update_preparation_def)
      with a(1) show "distinct (map pe_id (dn_jobs (update_preparation i ?g s1)))" by simp
    next
      fix q assume "q \<in> set (dn_jobs (update_preparation i ?g s1))"
      then obtain y where y: "y \<in> set (dn_jobs s1)" "q = (if pe_id y = i then ?g y else y)" by (auto simp: in_set_update_where)
      show "job_ok sha v (update_preparation i ?g s1) q"
      proof (cases "pe_id y = i")
        case True
        have q: "q = ?g (p\<lparr>pe_path := Some f, pe_cleanup := cleanup\<rparr>)" using y(2) True only [OF y(1) True] by simp
        have "dn_files s1 f = Some content" by (simp add: s1_def)
        moreover have "is_ok (verify_downloaded_hash sha content (recorded_digest v (pe_run p)) (nonempty (recorded_digest v (pe_run p)) \<noteq> None))"
          using Inr by (simp add: r_def)
        moreover have "drawn (draws (vt_db v)) (pe_id p)" using a(4) [OF y(1)] only [OF y(1) True] by simp
        ultimately show ?thesis by (simp add: job_ok_def checked_def q)
      next
        case False
        with y a(3) [OF y(1) False] show ?thesis by (simp add: job_ok_def checked_def)
      qed
    next
      fix q q'
      assume "q \<in> set (dn_jobs (update_preparation i ?g s1))" "q' \<in> set (dn_jobs (update_preparation i ?g s1))"
        and c: "pe_cleanup q" "pe_cleanup q'" "pe_path q = pe_path q'"
      then obtain y z where y: "y \<in> set (dn_jobs s1)" "q = (if pe_id y = i then ?g y else y)"
        and z: "z \<in> set (dn_jobs s1)" "q' = (if pe_id z = i then ?g z else z)" by (auto simp: in_set_update_where)
      have "pe_id q = pe_id y" "pe_id q' = pe_id z" "pe_cleanup y" "pe_cleanup z" "pe_path y = pe_path z"
        using y(2) z(2) c by (simp_all split: if_splits)
      then show "pe_id q = pe_id q'" using a(5) [OF y(1) z(1)] by simp
    qed
  qed
qed

lemma start_cases:
  assumes "start_download_preparation es run user v s = Inr (i, v', s')"
  obtains p where "i = uuid (draws (vt_db v))" "v' = v\<lparr>vt_db := vt_db v\<lparr>draws := Suc (draws (vt_db v))\<rparr>\<rparr>"
    "dn_jobs s' = dn_jobs s @ [p]" "dn_files s' = dn_files s" "pe_id p = i" "pe_state p = Preparing" "\<not> pe_cleanup p"
  using assms
  by (auto simp: start_download_preparation_def fresh_id_def Let_def split: sum.splits option.splits if_splits)

lemma start_ok:
  assumes ok: "downloads_ok sha v s" and start: "start_download_preparation es run user v s = Inr (i, v', s')"
  shows "downloads_ok sha v' s'"
proof -
  obtain p where p: "i = uuid (draws (vt_db v))" "v' = v\<lparr>vt_db := vt_db v\<lparr>draws := Suc (draws (vt_db v))\<rparr>\<rparr>"
    "dn_jobs s' = dn_jobs s @ [p]" "dn_files s' = dn_files s" "pe_id p = i" "pe_state p = Preparing" "\<not> pe_cleanup p"
    using start by (rule start_cases)
  have new: "pe_id q \<noteq> i" if "q \<in> set (dn_jobs s)" for q
    using downloads_okD(2) [OF ok that] by (auto simp: job_ok_def drawn_def p(1))
  have old: "job_ok sha v' s' q" if "q \<in> set (dn_jobs s)" for q
    using downloads_okD(2) [OF ok that] drawn_mono [of "draws (vt_db v)" "pe_id q" "Suc (draws (vt_db v))"]
    by (simp add: job_ok_def checked_def recorded_digest_def p(2,4))
  have "drawn (Suc (draws (vt_db v))) i" unfolding drawn_def p(1) by blast
  then have "job_ok sha v' s' p" by (simp add: job_ok_def p(2,5,6,7))
  with old have jobs: "job_ok sha v' s' q" if "q \<in> set (dn_jobs s')" for q using that by (auto simp: p(3))
  have "distinct (map pe_id (dn_jobs s'))" using downloads_okD(1) [OF ok] new by (auto simp: p(3,5))
  then show ?thesis
    by (rule downloads_okI) (use jobs downloads_okD(3) [OF ok] p(7) in \<open>auto simp: p(3)\<close>)
qed

lemma download_step_ok:
  assumes "download_step sha x y" and "downloads_ok sha (fst x) (snd x)"
  shows "downloads_ok sha (fst y) (snd y)"
  using assms
proof (induction rule: download_step.induct)
  case (started es run user v s i v' s')
  then show ?case using start_ok by simp
next
  case (begun v s i)
  then show ?case using downloads_ok_same by (simp add: begin_download_def same_job_def)
next
  case (progressed v s n whole i)
  then show ?case using downloads_ok_same by (simp add: report_progress_def same_job_def)
next
  case (finished s i p outcome v)
  then show ?case by simp (rule finish_ok; simp)
next
  case (taken i user s f cleanup s' v)
  then show ?case using take_ok by simp
next
  case (expired v s i)
  then show ?case using expire_ok by simp
qed

lemma download_run_ok: "download_run sha x \<Longrightarrow> downloads_ok sha (fst x) (snd x)"
  by (induction rule: download_run.induct) (simp add: downloads_ok_def, rule download_step_ok)

section \<open>What is handed out\<close>

text \<open>The digest \<open>e\<close> of 64 hexadecimal digits is what a column records: alone or after \<open>sha256:\<close>, in letters of
  either case, with blanks around it.\<close>

definition records :: "string \<Rightarrow> string \<Rightarrow> bool" where
  "records h e = (length e = 64 \<and> to_lower (trim h) \<in> {e, ''sha256:'' @ e})"

lemma to_lower_append: "to_lower (xs @ ys) = to_lower xs @ to_lower ys"
  by (simp add: to_lower_def)

lemma verified_records:
  assumes "is_ok (verify_downloaded_hash sha content (Some h) True)"
  shows "records h (sha content)"
proof -
  define s where "s = trim h"
  define e where "e = to_lower (if to_lower (take 7 s) = ''sha256:'' then drop 7 s else s)"
  have "expected_digest (Some h) = e" by (simp add: expected_digest_def s_def e_def Let_def)
  then have v: "length e = 64" "sha content = e" using assms by (auto simp: verify_downloaded_hash_def Let_def is_ok_def split: if_splits)
  have "to_lower s = ''sha256:'' @ e \<or> to_lower s = e"
  proof (cases "to_lower (take 7 s) = ''sha256:''")
    case True
    have "to_lower s = to_lower (take 7 s) @ to_lower (drop 7 s)" by (metis append_take_drop_id to_lower_append)
    with True show ?thesis by (simp add: e_def)
  qed (simp add: e_def)
  with v show ?thesis by (auto simp: records_def s_def)
qed

text \<open>C38: In every order of the steps of downloads (preparations that start, download, fail, finish and expire, and files
  that are handed out), a temporary file that is handed out was prepared for the asking user and is on disk. When its
  run recorded a digest, the SHA-256 of the file is that digest; the file of a run that recorded none is handed out
  unverified. No preparation that is left uses the file, and no user can take it a second time.\<close>

theorem handed_out_downloads_are_verified:
  assumes "download_run sha (v, s)" and "take_prepared_download i user s = Inr (f, True, s')"
  shows "\<exists>p content. find_preparation s i = Some p \<and> pe_user p = user \<and> dn_files s' f = Some content
    \<and> (recorded_digest v (pe_run p) \<in> {None, Some []} \<or> (\<exists>h. recorded_digest v (pe_run p) = Some h \<and> records h (sha content)))
    \<and> unused_path s' f \<and> (\<forall>u. take_prepared_download i u s' = Inl (BadRequest ''Download preparation not found or expired''))"
proof -
  obtain p where p: "find_preparation s i = Some p" "pe_user p = user" "pe_state p = PrepReady" "pe_path p = Some f" "pe_cleanup p"
    "s' = s\<lparr>dn_jobs := filter (\<lambda>q. pe_id q \<noteq> i) (dn_jobs s)\<rparr>"
    using assms(2) by (rule take_cases) simp
  have ok: "downloads_ok sha v s" using download_run_ok [OF assms(1)] by simp
  have pin: "p \<in> set (dn_jobs s)" "pe_id p = i" using p(1) by (auto simp: find_preparation_def dest!: find_SomeD)
  then have "checked sha v s p" using downloads_okD(2) [OF ok] p(3,5) by (auto simp: job_ok_def)
  then obtain content where content: "dn_files s f = Some content"
    "is_ok (verify_downloaded_hash sha content (recorded_digest v (pe_run p)) (nonempty (recorded_digest v (pe_run p)) \<noteq> None))"
    using p(4) by (auto simp: checked_def)
  have "recorded_digest v (pe_run p) \<in> {None, Some []} \<or> (\<exists>h. recorded_digest v (pe_run p) = Some h \<and> records h (sha content))"
    using content(2) verified_records by (auto simp: nonempty_def split: option.splits if_splits)
  moreover have "unused_path s' f"
    unfolding unused_path_def
  proof (intro ballI impI)
    fix q assume q: "q \<in> set (dn_jobs s')" "pe_cleanup q"
    then have "q \<in> set (dn_jobs s)" "pe_id q \<noteq> i" by (simp_all add: p(6))
    with downloads_okD(3) [OF ok this(1) pin(1) q(2) p(5)] pin(2) p(4) show "pe_path q \<noteq> Some f" by auto
  qed
  moreover have "find_preparation s' i = None" by (auto simp: find_preparation_def p(6) find_None_iff)
  then have "take_prepared_download i u s' = Inl (BadRequest ''Download preparation not found or expired'')" for u
    by (simp add: take_prepared_download_def get_download_preparation_def)
  ultimately show ?thesis using p(1,2,4,6) content(1) by auto
qed

end
