(* ===== verification/Storage_Witnesses.thy ===== *)
theory Storage_Witnesses
  imports Recovery_Witnesses Storage_Props "HOL-Library.Countable"
begin

text \<open>The properties of the storage service and of downloads at the small installation. Its encryption is a code
  that \<open>to_nat\<close> gives: JSON values are countable.\<close>

instance json :: countable
  by countable_datatype

definition small_enc :: "json \<Rightarrow> string" where
  "small_enc j = CHR ''x'' # replicate (to_nat j) CHR ''x''"

definition small_read :: "string \<Rightarrow> json option" where
  "small_read s = Some (from_nat (length s - 1))"

lemma small_read_enc [simp]: "small_read (small_enc j) = Some j"
  by (simp add: small_enc_def small_read_def)

section \<open>Secrets\<close>

definition small_bucket :: vault where
  "small_bucket = small_vault\<lparr>vt_targets := [''t1'' \<mapsto>
     \<lparr>tc_config = small_enc (JObj [(''bucket'', JStr ''b''), (''secretAccessKey'', JStr ''k'')]), tc_created = 0\<rparr>]\<rparr>"

definition small_target_input :: target_input where
  "small_target_input = \<lparr>ti_id = Some ''t1'', ti_name = ''s2'', ti_type = ''s3'',
     ti_config = Some [(''bucket'', JStr ''c''), (''secretAccessKey'', JStr '''')]\<rparr>"

lemma small_bucket_ok: "targets_ok small_bucket"
  by (simp add: targets_ok_def small_bucket_def small_vault_def)

lemma small_stored: "stored_config small_read (Some ''t1'') small_bucket = Inr [(''bucket'', JStr ''b''), (''secretAccessKey'', JStr ''k'')]"
  by (simp add: stored_config_def small_bucket_def decrypt_config_def) (simp add: small_enc_def)

lemma small_save_ok: "\<exists>v'. save_target small_status small_enc small_read 60 small_target_input small_bucket = Inr (''t1'', v')"
  using small_stored
  by (simp add: save_target_def small_target_input_def assert_encryption_healthy_def small_status_def storage_types_def id_or_fresh_def)

theorem target_secrets_are_kept_and_hidden_witness:
  "\<exists>v' t. save_target small_status small_enc small_read 60 small_target_input small_bucket = Inr (''t1'', v')
     \<and> get_target small_status small_read ''t1'' v' = Inr t \<and> st_name t = ''s2''
     \<and> map_of (st_config t) ''secretAccessKey'' = Some (JStr ''k'') \<and> map_of (st_config t) ''bucket'' = Some (JStr ''c'')"
proof -
  obtain v' where v': "save_target small_status small_enc small_read 60 small_target_input small_bucket = Inr (''t1'', v')"
    using small_save_ok by blast
  note saved = target_secrets_are_kept_and_hidden [OF v' small_read_enc small_bucket_ok, THEN conjunct2, THEN conjunct2]
  then obtain c t where t: "ti_config small_target_input = Some c" "get_target small_status small_read ''t1'' v' = Inr t"
    "st_name t = ''s2''"
    "\<And>k. map_of (st_config t) k = (if k \<in> set secret_keys \<and> blank c k
       \<and> map_of [(''bucket'', JStr ''b''), (''secretAccessKey'', JStr ''k'')] k \<noteq> None
       then map_of [(''bucket'', JStr ''b''), (''secretAccessKey'', JStr ''k'')] k else map_of c k)"
    using small_stored by (auto simp: small_target_input_def)
  have c: "c = [(''bucket'', JStr ''c''), (''secretAccessKey'', JStr '''')]" using t(1) by (simp add: small_target_input_def)
  have "blank c ''secretAccessKey''" unfolding c by code_simp
  then show ?thesis using v' t(2,3) by (intro exI [of _ v'] exI [of _ t]) (simp add: t(4) secret_keys_def c)
qed

section \<open>Files\<close>

definition small_host :: host_env where
  "small_host = \<lparr>ho_cwd = [''app''], ho_data = [''data''], ho_any_path = False, ho_protocol = (\<lambda>_. None)\<rparr>"

definition small_local :: target where
  "small_local = \<lparr>st_id = ''t2'', st_name = ''l'', st_type = ''local'', st_config = [(''path'', JStr ''/data/backups/x'')], st_created = 0\<rparr>"

definition small_bin :: target where
  "small_bin = \<lparr>st_id = ''t3'', st_name = ''b'', st_type = ''s3'', st_config = [(''bucket'', JStr ''bin''),
     (''accessKeyId'', JStr ''k''), (''secretAccessKey'', JStr ''s''), (''prefix'', JStr ''/p/'')], st_created = 0\<rparr>"

definition later_name :: "string \<Rightarrow> string \<Rightarrow> bool" where
  "later_name a b = (b < a)"

text \<open>A directory with five files and a folder, one of the files no longer there when it is removed, and a bucket that refuses
  the deletion of one key.\<close>

definition small_answers :: rotation_answers where
  "small_answers = \<lparr>an_aborted = None,
     an_entries = Inr [(''b1'', True), (''b3'', True), (''a9'', True), (''b2'', True), (''b0'', True), (''b4'', False)],
     an_remove = (\<lambda>s. if s = ''b1'' then Inl \<lparr>re_code = ''ENOENT'', re_message = []\<rparr> else Inr ()),
     an_ftp_access = None, an_ftp = Inr [], an_ftp_delete = (\<lambda>_. Inr ()), an_webdav = Inr (207, []), an_webdav_delete = (\<lambda>_. Inr 204),
     an_pages = [], an_page_delete = (\<lambda>_. Inr 204),
     an_keys = (\<lambda>p. if p = ''p/j/b'' then Inr [''p/j/b1'', ''p/j/b2'', ''p/j/b3''] else Inr []),
     an_key_delete = (\<lambda>s. Inr (s = ''p/j/b1''))\<rparr>"

lemma small_answers_keys: "\<forall>p keys. an_keys small_answers p = Inr keys \<longrightarrow> (\<forall>k \<in> set keys. starts_with k p)"
  by (auto simp: small_answers_def starts_with_def split: if_splits)

lemma later_name_order: "\<forall>a b. later_name a b \<longrightarrow> \<not> later_name b a" "\<forall>a b c. later_name a c \<longrightarrow> later_name a b \<or> later_name b c"
  by (auto simp: later_name_def)

lemma small_local_rotation:
  "fst (rotate small_host later_name small_answers small_local ''b'' 2 ''j'' Map.empty) = ([''b0''], None)"
  by code_simp

lemma small_bucket_rotation:
  "fst (rotate small_host later_name small_answers small_bin ''b'' 1 ''j'' Map.empty)
     = ([''b2''], Some (Failure ''S3 did not acknowledge retention deletion''))"
  by code_simp

lemma small_listing:
  "store_lists small_host small_answers small_local ''b'' ''j''
     [(''b1'', ''b1''), (''b3'', ''b3''), (''a9'', ''a9''), (''b2'', ''b2''), (''b0'', ''b0'')]"
proof -
  have "is_ok (local_dir small_host small_local)" by code_simp
  then show ?thesis by (simp add: store_lists_def small_local_def small_answers_def)
qed

theorem rotation_keeps_the_newest_witness:
  "\<exists>fs'. rotate small_host later_name small_answers small_local ''b'' 2 ''j'' Map.empty = (([''b0''], None), fs')
     \<and> rotated (newer_file later_name small_local) 2 [(''b1'', ''b1''), (''b3'', ''b3''), (''b2'', ''b2''), (''b0'', ''b0'')]
         (acknowledged small_answers small_local) (absent small_answers small_local) snd [''b0''] None"
proof -
  obtain fs' where fs': "rotate small_host later_name small_answers small_local ''b'' 2 ''j'' Map.empty = (([''b0''], None), fs')"
    using small_local_rotation by (metis prod.collapse)
  let ?files = "[(''b1'', ''b1''), (''b3'', ''b3''), (''a9'', ''a9''), (''b2'', ''b2''), (''b0'', ''b0'')]"
  have c: "candidates small_host small_local ''b'' ''j'' ?files = [(''b1'', ''b1''), (''b3'', ''b3''), (''b2'', ''b2''), (''b0'', ''b0'')]"
    by (simp add: has_prefix_def small_local_def starts_with_def)
  have "validate_folder ''j'' = Inr ()" by code_simp
  moreover have "an_aborted small_answers = None" by (simp add: small_answers_def)
  ultimately have "rotated (newer_file later_name small_local) (nat 2) (candidates small_host small_local ''b'' ''j'' ?files)
      (acknowledged small_answers small_local) (absent small_answers small_local) snd [''b0''] None"
    using rotation_keeps_the_newest [OF later_name_order small_answers_keys fs'] small_listing by auto
  with fs' show ?thesis unfolding c by auto
qed

definition small_slots :: slot_state where
  "small_slots = \<lparr>sx_slots = \<lparr>sl_active = 3, sl_waiting = [3]\<rparr>, sx_running = [0, 1, 2], sx_next = 4\<rparr>"

lemma small_slots_run: "slot_run small_slots"
proof -
  have 1: "slot_run \<lparr>sx_slots = \<lparr>sl_active = 1, sl_waiting = []\<rparr>, sx_running = [0], sx_next = 1\<rparr>"
    using slot_run.step [OF slot_run.first slot_step.granted] by (simp add: acquire_slot_def)
  have 2: "slot_run \<lparr>sx_slots = \<lparr>sl_active = 2, sl_waiting = []\<rparr>, sx_running = [0, 1], sx_next = 2\<rparr>"
    using slot_run.step [OF 1 slot_step.granted] by (simp add: acquire_slot_def numeral_2_eq_2)
  have 3: "slot_run \<lparr>sx_slots = \<lparr>sl_active = 3, sl_waiting = []\<rparr>, sx_running = [0, 1, 2], sx_next = 3\<rparr>"
    using slot_run.step [OF 2 slot_step.granted] by (simp add: acquire_slot_def numeral_3_eq_3 numeral_2_eq_2)
  show ?thesis using slot_run.step [OF 3 slot_step.queued] by (simp add: acquire_slot_def small_slots_def)
qed

theorem downloads_share_three_slots_witness:
  "sl_active (sx_slots small_slots) = length (sx_running small_slots) \<and> length (sx_running small_slots) = 3
   \<and> release_slot (sx_slots small_slots) = (Some 3, (sx_slots small_slots)\<lparr>sl_waiting := []\<rparr>)"
  using downloads_share_three_slots [OF small_slots_run] by (simp add: small_slots_def)

definition no_directory :: "string list \<Rightarrow> bool" where
  "no_directory p = False"

lemma small_upload:
  "map_sum id fst (upload_local small_host no_directory small_local [''tmp'', ''f''] ''b.gz'' ''j'' [[''tmp'', ''f''] \<mapsto> ''content''])
     = Inr [''data'', ''backups'', ''x'', ''j'', ''b.gz'']"
  by code_simp

theorem local_uploads_stay_inside_witness:
  "\<exists>fs'. upload_local small_host no_directory small_local [''tmp'', ''f''] ''b.gz'' ''j'' [[''tmp'', ''f''] \<mapsto> ''content'']
       = Inr ([''data'', ''backups'', ''x'', ''j'', ''b.gz''], fs')
     \<and> fs' [''data'', ''backups'', ''x'', ''j'', ''b.gz''] = Some ''content''
     \<and> download_local small_host no_directory small_local ''b.gz'' ''j'' fs' = Inr [''data'', ''backups'', ''x'', ''j'', ''b.gz'']"
proof -
  obtain fs' where fs': "upload_local small_host no_directory small_local [''tmp'', ''f''] ''b.gz'' ''j'' [[''tmp'', ''f''] \<mapsto> ''content'']
       = Inr ([''data'', ''backups'', ''x'', ''j'', ''b.gz''], fs')"
    using small_upload
    by (cases "upload_local small_host no_directory small_local [''tmp'', ''f''] ''b.gz'' ''j'' [[''tmp'', ''f''] \<mapsto> ''content'']") auto
  from local_uploads_stay_inside [OF fs'] fs' show ?thesis by (intro exI [of _ fs']) auto
qed

section \<open>Artifacts\<close>

definition nothing_there :: availability where
  "nothing_there r t name location folder = Inr False"

lemma small_stored_runs: "stored_runs small_vault = [small_run]"
  by (simp add: stored_runs_def small_vault_def small_run_def small_job_def has_filename_def small_artifact_def run_target_def find_job_def)

lemma small_artifact_missing: "map (artifact_available small_status small_dec nothing_there small_vault) (stored_runs small_vault) = [Inr False]"
  by code_simp


definition small_sha :: "string \<Rightarrow> string" where
  "small_sha s = concat (replicate 4 ''0123456789abcdef'')"

definition no_downloads :: downloads where
  "no_downloads = \<lparr>dn_jobs = [], dn_files = Map.empty\<rparr>"

definition small_started :: "vault \<times> downloads" where
  "small_started = (case start_download_preparation small_status ''r1'' ''u1'' small_vault no_downloads of
     Inr (i, v, s) \<Rightarrow> (v, s) | Inl _ \<Rightarrow> (small_vault, no_downloads))"

definition small_prepared :: "vault \<times> downloads" where
  "small_prepared = (fst small_started, finish_preparation small_sha (recorded_digest (fst small_started) ''r1'')
     (Inr ([''tmp'', ''f''], True, ''content'')) (uuid 0) (snd small_started))"

lemma small_start_ok: "is_ok (start_download_preparation small_status ''r1'' ''u1'' small_vault no_downloads)"
  by code_simp

lemma small_started_job: "(case find_preparation (snd small_started) (uuid 0) of Some p \<Rightarrow> pe_state p = Preparing \<and> pe_run p = ''r1'' | None \<Rightarrow> False)"
  and small_started_unused: "unused_path (snd small_started) [''tmp'', ''f'']"
  by code_simp+

lemma small_prepared_run: "download_run small_sha small_prepared"
proof -
  obtain i v s where s: "start_download_preparation small_status ''r1'' ''u1'' small_vault no_downloads = Inr (i, v, s)"
    using small_start_ok by (auto simp: is_ok_def split: sum.splits)
  then have st: "small_started = (v, s)" by (simp add: small_started_def)
  have "download_run small_sha (small_vault, no_downloads)" unfolding no_downloads_def by (rule download_run.first)
  from download_run.step [OF this download_step.started [OF s]] have run: "download_run small_sha (v, s)" .
  obtain p where p: "find_preparation s (uuid 0) = Some p" "pe_state p = Preparing" "pe_run p = ''r1''"
    using small_started_job by (auto simp: st split: option.splits)
  have "\<forall>f cleanup content. Inr ([''tmp'', ''f''], True, ''content'') = (Inr (f, cleanup, content) :: (string list \<times> bool \<times> string) result)
      \<longrightarrow> unused_path s f"
    using small_started_unused by (simp add: st)
  from download_run.step [OF run download_step.finished [OF p(1,2) this]] show ?thesis by (simp add: small_prepared_def st p(3))
qed

lemma small_take_ok:
  "(case take_prepared_download (uuid 0) ''u1'' (snd small_prepared) of Inr (f, c, s) \<Rightarrow> f = [''tmp'', ''f''] \<and> c | Inl _ \<Rightarrow> False)"
  by code_simp

theorem handed_out_downloads_are_verified_witness:
  "\<exists>s' content. take_prepared_download (uuid 0) ''u1'' (snd small_prepared) = Inr ([''tmp'', ''f''], True, s')
     \<and> dn_files s' [''tmp'', ''f''] = Some content
     \<and> take_prepared_download (uuid 0) ''u1'' s' = Inl (BadRequest ''Download preparation not found or expired'')"
proof -
  obtain s' where s': "take_prepared_download (uuid 0) ''u1'' (snd small_prepared) = Inr ([''tmp'', ''f''], True, s')"
    using small_take_ok by (auto split: sum.splits)
  have "download_run small_sha (fst small_prepared, snd small_prepared)" using small_prepared_run by simp
  from handed_out_downloads_are_verified [OF this s'] s' show ?thesis by blast
qed

end
