(* ===== verification/Pitr_Stream.thy ===== *)
theory Pitr_Stream
  imports Pitr_Sql
begin

text \<open>
  The streams of \<open>src/backup/backup.service.ts\<close> that validate and rewrite a decoded binary log of any size:
  \<open>lastSqlStatementBoundary\<close>, \<open>validatePitrSqlFile\<close> and \<open>rewritePitrSqlFile\<close>. A file is the list of the chunks
  in which it is read; a chunk holds whole characters (the decoder keeps the bytes of a split one back).
\<close>

section \<open>Statement boundaries\<close>

datatype lexer = Code | Quoted char | LineComment | BlockComment

text \<open>\<open>/\s/.test(contents[index + 2] || '')\<close>.\<close>

definition blank_follows :: "string \<Rightarrow> bool" where
  "blank_follows s = (case s of [] \<Rightarrow> False | c # _ \<Rightarrow> is_space c)"

text \<open>The indices just behind each semicolon that ends a statement, with \<open>n\<close> characters read.\<close>

fun bounds :: "lexer \<Rightarrow> nat \<Rightarrow> string \<Rightarrow> nat list" where
  "bounds st n [] = []"
| "bounds LineComment n (c # s) = bounds (if c = CHR 0x0A then Code else LineComment) (Suc n) s"
| "bounds BlockComment n [c] = []"
| "bounds BlockComment n (c # d # s) =
     (if c = CHR ''*'' \<and> d = CHR ''/'' then bounds Code (Suc (Suc n)) s else bounds BlockComment (Suc n) (d # s))"
| "bounds (Quoted q) n [c] = []"
| "bounds (Quoted q) n (c # d # s) =
     (if c = CHR 0x5C \<or> c = q \<and> d = q then bounds (Quoted q) (Suc (Suc n)) s
      else bounds (if c = q then Code else Quoted q) (Suc n) (d # s))"
| "bounds Code n [c] = (if c = CHR '';'' then [Suc n] else [])"
| "bounds Code n (c # d # s) =
     (if c = CHR 0x27 \<or> c = CHR 0x22 \<or> c = CHR 0x60 then bounds (Quoted c) (Suc n) (d # s)
      else if c = CHR ''-'' \<and> d = CHR ''-'' \<and> blank_follows s then bounds LineComment (Suc (Suc n)) s
      else if c = CHR ''#'' then bounds LineComment (Suc n) (d # s)
      else if c = CHR ''/'' \<and> d = CHR ''*'' then bounds BlockComment (Suc (Suc n)) s
      else (if c = CHR '';'' then [Suc n] else []) @ bounds Code (Suc n) (d # s))"

definition last_sql_statement_boundary :: "string \<Rightarrow> nat" where
  "last_sql_statement_boundary s = (case rev (bounds Code 0 s) of [] \<Rightarrow> 0 | b # _ \<Rightarrow> b)"

section \<open>Streams\<close>

definition statement_limit :: nat where
  "statement_limit = 8 * 1024 * 1024"

text \<open>\<open>Buffer.byteLength\<close> of text whose characters are those of Latin-1: two bytes from 128 on.\<close>

definition byte_length :: "string \<Rightarrow> nat" where
  "byte_length s = length s + length (filter digit7 s)"

text \<open>One chunk: what is complete, and what is carried over.\<close>

definition split_chunk :: "string \<Rightarrow> string \<Rightarrow> string \<times> string" where
  "split_chunk carry chunk =
     (let text = carry @ chunk; b = last_sql_statement_boundary text in (take b text, drop b text))"

definition too_long :: "nat \<Rightarrow> string \<Rightarrow> bool" where
  "too_long limit s = (byte_length s > limit)"

fun validate_chunks :: "nat \<Rightarrow> (string \<Rightarrow> unit result) \<Rightarrow> string \<Rightarrow> string list \<Rightarrow> unit result" where
  "validate_chunks limit check carry [] = (if carry \<noteq> [] then check carry else Inr ())"
| "validate_chunks limit check carry (c # cs) =
     (let (done', rest) = split_chunk carry c
      in case (if done' \<noteq> [] then check done' else Inr ()) of
           Inl e \<Rightarrow> Inl e
         | Inr _ \<Rightarrow> (if too_long limit rest then Inl (BadRequest ''A PITR SQL statement exceeds the safe validation limit'')
                     else validate_chunks limit check rest cs))"

definition validate_pitr_sql_file :: "string list \<Rightarrow> string list \<Rightarrow> unit result" where
  "validate_pitr_sql_file chunks allowed = validate_chunks statement_limit (\<lambda>s. validate_pitr_sql s allowed) [] chunks"

text \<open>The transform: the pieces it writes, in order; the last one is written when the input ends.\<close>

fun rewrite_chunks :: "nat \<Rightarrow> (string \<Rightarrow> string) \<Rightarrow> string \<Rightarrow> string list \<Rightarrow> string list result" where
  "rewrite_chunks limit f carry [] = Inr [f carry]"
| "rewrite_chunks limit f carry (c # cs) =
     (let (done', rest) = split_chunk carry c
      in if too_long limit rest then Inl (BadRequest ''A PITR SQL statement exceeds the safe rewrite limit'')
         else case rewrite_chunks limit f rest cs of
                Inl e \<Rightarrow> Inl e
              | Inr out \<Rightarrow> Inr (if done' = [] then out else f done' # out))"

definition rewrite_pitr_sql_file :: "string list \<Rightarrow> (string \<times> string) list \<Rightarrow> string result" where
  "rewrite_pitr_sql_file chunks mapping =
     (case rewrite_chunks statement_limit (\<lambda>s. rewrite_pitr_sql_databases s mapping) [] chunks of
        Inl e \<Rightarrow> Inl e
      | Inr out \<Rightarrow> Inr (concat out))"

section \<open>Boundaries of a prefix\<close>

lemma bounds_shift: "bounds st (k + n) s = map (\<lambda>b. k + b) (bounds st n s)"
  by (induction st n s rule: bounds.induct) simp_all

text \<open>One step of the lexer: the state behind the first character, and whether the second one is read with it.\<close>

fun lex_step :: "lexer \<Rightarrow> string \<Rightarrow> lexer \<times> bool" where
  "lex_step st [] = (st, False)"
| "lex_step LineComment (c # s) = (if c = CHR 0x0A then Code else LineComment, False)"
| "lex_step st [c] = (st, False)"
| "lex_step BlockComment (c # d # s) = (if c = CHR ''*'' \<and> d = CHR ''/'' then (Code, True) else (BlockComment, False))"
| "lex_step (Quoted q) (c # d # s) =
     (if c = CHR 0x5C \<or> c = q \<and> d = q then (Quoted q, True) else (if c = q then Code else Quoted q, False))"
| "lex_step Code (c # d # s) =
     (if c = CHR 0x27 \<or> c = CHR 0x22 \<or> c = CHR 0x60 then (Quoted c, False)
      else if c = CHR ''-'' \<and> d = CHR ''-'' \<and> blank_follows s then (LineComment, True)
      else if c = CHR ''#'' then (LineComment, False)
      else if c = CHR ''/'' \<and> d = CHR ''*'' then (BlockComment, True)
      else (Code, False))"

definition emitted :: "lexer \<Rightarrow> nat \<Rightarrow> char \<Rightarrow> nat list" where
  "emitted st n c = (if st = Code \<and> c = CHR '';'' then [Suc n] else [])"

lemma bounds_Cons:
  assumes "lex_step st (c # s) = (st', two)"
  shows "bounds st n (c # s) = emitted st n c @ (if two then bounds st' (Suc (Suc n)) (tl s) else bounds st' (Suc n) s)"
  using assms by (cases st; cases s) (auto simp: emitted_def split: if_splits)

lemma lex_two: "lex_step st (c # s) = (st', True) \<Longrightarrow> \<exists>d s'. s = d # s'"
  by (cases st; cases s) (auto split: if_splits)

text \<open>What follows a text with a boundary has no influence on the steps before the boundary.\<close>

lemma bounds_single: "b \<in> set (bounds st n [c]) \<Longrightarrow> st = Code \<and> c = CHR '';'' \<and> b = Suc n"
  by (cases st) (auto split: if_splits)

lemma lex_step_append:
  assumes "b \<in> set (bounds st n (c # s))" and "b \<noteq> Suc n"
  shows "lex_step st (c # s @ t) = lex_step st (c # s)"
proof (cases s)
  case Nil
  then show ?thesis using assms bounds_single by blast
next
  case (Cons d s')
  show ?thesis
  proof (cases "s' = [] \<and> st = Code \<and> c = CHR ''-'' \<and> d = CHR ''-''")
    case True
    then show ?thesis using assms(1) Cons by (auto simp: blank_follows_def)
  next
    case False
    then show ?thesis unfolding Cons by (cases st; cases s') (auto simp: blank_follows_def)
  qed
qed

text \<open>A boundary of a prefix is one of the whole text, and so is every boundary of what follows it.\<close>

definition restarts :: "string \<Rightarrow> lexer \<Rightarrow> nat \<Rightarrow> string \<Rightarrow> nat \<Rightarrow> bool" where
  "restarts t st n s b =
     (n < b \<and> b \<in> set (bounds st n (s @ t)) \<and> set (bounds Code b (drop (b - n) s @ t)) \<subseteq> set (bounds st n (s @ t)))"

lemma boundary_restarts:
  assumes "b \<in> set (bounds st n s)"
  shows "restarts t st n s b"
  using assms
proof (induction s arbitrary: st n rule: length_induct)
  case (1 s)
  obtain c r where s: "s = c # r" using 1(2) by (cases s) auto
  obtain st' two where step: "lex_step st (c # r) = (st', two)" by fastforce
  show ?case
  proof (cases "b = Suc n \<and> st = Code \<and> c = CHR '';''")
    case True
    have "lex_step Code (CHR '';'' # r @ t) = (Code, False)" by (cases "r @ t") auto
    from bounds_Cons [OF this, of n] show ?thesis using True by (auto simp: restarts_def s emitted_def)
  next
    case False
    have in_rest: "b \<in> set (if two then bounds st' (Suc (Suc n)) (tl r) else bounds st' (Suc n) r)"
      using 1(2) False unfolding s bounds_Cons [OF step] by (auto simp: emitted_def split: if_splits)
    have deeper: "restarts t st' (if two then Suc (Suc n) else Suc n) (if two then tl r else r) b"
      using 1(1) in_rest by (cases two) (simp_all add: s less_Suc_eq_le)
    then have above: "Suc n < b" "two \<Longrightarrow> Suc (Suc n) < b" by (auto simp: restarts_def split: if_splits)
    have same: "lex_step st (c # r @ t) = (st', two)" using lex_step_append [of b st n c r t] 1(2) above(1) step by (simp add: s)
    have sub: "set (if two then bounds st' (Suc (Suc n)) (tl (r @ t)) else bounds st' (Suc n) (r @ t)) \<subseteq> set (bounds st n (s @ t))"
      unfolding s append_Cons bounds_Cons [OF same] by auto
    show ?thesis
    proof (cases two)
      case True
      then obtain d r' where r: "r = d # r'" using lex_two [of st c r st'] step by auto
      obtain m where m: "b = Suc (Suc n) + m" using above(2) [OF True] less_imp_add_positive by blast
      show ?thesis using deeper sub True by (auto simp: restarts_def s r m)
    next
      case F: False
      obtain m where m: "b = Suc n + m" using above(1) less_imp_add_positive by blast
      show ?thesis using deeper sub F by (auto simp: restarts_def s m)
    qed
  qed
qed

lemma last_boundary:
  "last_sql_statement_boundary s = 0 \<or> last_sql_statement_boundary s \<in> set (bounds Code 0 s)"
  unfolding last_sql_statement_boundary_def by (cases "bounds Code 0 s" rule: rev_cases) simp_all

lemma bounds_below: "b \<in> set (bounds st n s) \<Longrightarrow> b \<le> n + length s"
proof (induction s arbitrary: st n rule: length_induct)
  case (1 s)
  obtain c r where s: "s = c # r" using 1(2) by (cases s) auto
  obtain st' two where step: "lex_step st (c # r) = (st', two)" by fastforce
  have IH: "b \<le> m + length ys" if "b \<in> set (bounds x m ys)" "length ys < length s" for x m ys using 1(1) that by blast
  consider "b = Suc n" | "b \<in> set (if two then bounds st' (Suc (Suc n)) (tl r) else bounds st' (Suc n) r)"
    using 1(2) unfolding s bounds_Cons [OF step] by (auto simp: emitted_def split: if_splits)
  then show ?case
  proof cases
    case 2
    have "b \<le> (if two then Suc (Suc n) + length (tl r) else Suc n + length r)"
      using IH 2 by (cases two) (fastforce simp: s)+
    moreover have "two \<Longrightarrow> r \<noteq> []" using lex_two [of st c r st'] step by auto
    ultimately show ?thesis by (cases r) (auto simp: s split: if_splits)
  qed (simp add: s)
qed

section \<open>The pieces of a file\<close>

fun pieces :: "string \<Rightarrow> string list \<Rightarrow> string list" where
  "pieces carry [] = [carry]"
| "pieces carry (c # cs) =
     (let (done', rest) = split_chunk carry c in if done' = [] then pieces rest cs else done' # pieces rest cs)"

fun cuts :: "nat \<Rightarrow> string list \<Rightarrow> nat list" where
  "cuts n (p # q # ps) = (n + length p) # cuts (n + length p) (q # ps)"
| "cuts n _ = []"

lemma pieces_not_Nil [simp]: "pieces carry cs \<noteq> []"
  by (induction carry cs rule: pieces.induct) (auto simp: split_chunk_def Let_def)

lemma cuts_Cons: "ps \<noteq> [] \<Longrightarrow> cuts n (p # ps) = (n + length p) # cuts (n + length p) ps"
  by (cases ps) simp_all

lemma pieces_cuts:
  assumes "set (bounds Code n (carry @ concat cs)) \<subseteq> B"
  shows "concat (pieces carry cs) = carry @ concat cs \<and> set (cuts n (pieces carry cs)) \<subseteq> B"
  using assms
proof (induction cs arbitrary: carry n)
  case (Cons c cs)
  define whole where "whole = carry @ c"
  define b where "b = last_sql_statement_boundary whole"
  have chunk: "split_chunk carry c = (take b whole, drop b whole)" by (simp add: split_chunk_def Let_def whole_def b_def)
  show ?case
  proof (cases "b = 0")
    case True
    then show ?thesis using Cons.IH [of n whole] Cons.prems by (simp add: chunk whole_def)
  next
    case False
    then have b: "b \<in> set (bounds Code 0 whole)" using last_boundary [of whole] by (simp add: b_def)
    have le: "b \<le> length whole" using bounds_below [OF b] by simp
    then have len: "length (take b whole) = b" and ne: "take b whole \<noteq> []" using False by auto
    have "n + b \<in> set (bounds Code n whole)" using b bounds_shift [of Code n 0 whole] by simp
    from boundary_restarts [OF this, of "concat cs"] Cons.prems
    have here: "n + b \<in> B" and below: "set (bounds Code (n + b) (drop b whole @ concat cs)) \<subseteq> B" by (auto simp: restarts_def whole_def)
    from Cons.IH [OF below] have rest: "concat (pieces (drop b whole) cs) = drop b whole @ concat cs"
      "set (cuts (n + b) (pieces (drop b whole) cs)) \<subseteq> B" by simp_all
    have eq: "pieces carry (c # cs) = take b whole # pieces (drop b whole) cs" using ne by (simp add: chunk del: take_eq_Nil)
    have "concat (pieces carry (c # cs)) = whole @ concat cs" unfolding eq by (simp add: rest(1))
    moreover have "cuts n (pieces carry (c # cs)) = (n + b) # cuts (n + b) (pieces (drop b whole) cs)"
      unfolding eq by (simp only: cuts_Cons [OF pieces_not_Nil] len)
    ultimately show ?thesis using here rest(2) by (simp add: whole_def)
  qed
qed simp

lemma validate_chunks_pieces:
  "validate_chunks limit check carry cs = Inr () \<Longrightarrow> p \<in> set (pieces carry cs) \<Longrightarrow> p \<noteq> [] \<Longrightarrow> check p = Inr ()"
  by (induction carry cs rule: pieces.induct) (auto split: prod.splits if_splits sum.splits)

lemma rewrite_chunks_pieces: "rewrite_chunks limit f carry cs = Inr out \<Longrightarrow> out = map f (pieces carry cs)"
  by (induction carry cs arbitrary: out rule: pieces.induct) (auto split: prod.splits if_splits sum.splits)

text \<open>A run under a lower limit is one under the limit of the code.\<close>

lemma validate_chunks_limit:
  "validate_chunks limit check carry cs = Inr () \<Longrightarrow> limit \<le> limit' \<Longrightarrow> validate_chunks limit' check carry cs = Inr ()"
  by (induction carry cs rule: pieces.induct) (auto simp: too_long_def split: prod.splits if_splits sum.splits)

lemma rewrite_chunks_limit:
  "rewrite_chunks limit f carry cs = Inr out \<Longrightarrow> limit \<le> limit' \<Longrightarrow> rewrite_chunks limit' f carry cs = Inr out"
proof (induction cs arbitrary: carry out)
  case (Cons c cs)
  obtain d r where chunk: "split_chunk carry c = (d, r)" by fastforce
  obtain rest where "rewrite_chunks limit f r cs = Inr rest"
    using Cons.prems(1) by (auto simp: chunk split: if_splits sum.splits)
  with Cons.IH [OF this Cons.prems(2)] Cons.prems show ?case by (auto simp: chunk too_long_def split: if_splits)
qed simp

text \<open>C39: However a decoded binary log is cut into the chunks in which it is read, the streams that validate and rewrite
  it work on the same pieces, which together are the file; a piece ends only where a statement of the whole file
  ends, never inside a text, an identifier or a comment; each piece that is not empty was validated against the
  allowed databases, and the output is the concatenation of the rewritten pieces.\<close>

theorem streams_split_at_statements:
  assumes "validate_pitr_sql_file chunks allowed = Inr ()" and "rewrite_pitr_sql_file chunks mapping = Inr out"
  shows "\<exists>ps. concat ps = concat chunks \<and> set (cuts 0 ps) \<subseteq> set (bounds Code 0 (concat chunks))
    \<and> (\<forall>p \<in> set ps. p = [] \<or> validate_pitr_sql p allowed = Inr ())
    \<and> out = concat (map (\<lambda>p. rewrite_pitr_sql_databases p mapping) ps)"
proof (intro exI [of _ "pieces [] chunks"] conjI ballI)
  show "p = [] \<or> validate_pitr_sql p allowed = Inr ()" if "p \<in> set (pieces [] chunks)" for p
    using validate_chunks_pieces [OF assms(1) [unfolded validate_pitr_sql_file_def] that] by blast
  obtain ps where "rewrite_chunks statement_limit (\<lambda>s. rewrite_pitr_sql_databases s mapping) [] chunks = Inr ps" "out = concat ps"
    using assms(2) by (auto simp: rewrite_pitr_sql_file_def split: sum.splits)
  with rewrite_chunks_pieces show "out = concat (map (\<lambda>p. rewrite_pitr_sql_databases p mapping) (pieces [] chunks))" by blast
qed (use pieces_cuts [of 0 "[]" chunks "set (bounds Code 0 (concat chunks))"] in simp_all)

section \<open>A small log\<close>

text \<open>Two chunks; the first one ends inside a text that holds a semicolon.\<close>

definition small_chunks :: "string list" where
  "small_chunks = [''B;US'', ''E a;'']"

lemma small_pieces:
  "split_chunk [] ''B;US'' = (''B;'', ''US'')" "split_chunk ''US'' ''E a;'' = (''USE a;'', [])" "\<not> too_long 9 ''US''" "\<not> too_long 9 []"
  by code_simp+

lemma small_first_valid: "validate_pitr_sql ''B;'' [''a''] = Inr ()"
  by code_simp

lemma small_second_stripped: "strip_sql ''USE a;'' = ''USE a;''"
  by code_simp

lemma small_second_allowed: "\<not> rx_test forbidden_statements ''USE a;''"
  by code_simp

lemma small_second_names: "referenced_databases ''USE a;'' = []"
  by code_simp

lemma small_second_selects: "selected_databases use_pattern ''USE a;'' = [''a'']"
  and small_second_changes: "selected_databases database_statement ''USE a;'' = []"
  by code_simp+

lemma small_second_valid: "validate_pitr_sql ''USE a;'' [''a''] = Inr ()"
  by (simp add: validate_pitr_sql_def small_second_stripped small_second_allowed small_second_names small_second_selects
      small_second_changes)

lemma small_chunks_valid: "validate_chunks 9 (\<lambda>s. validate_pitr_sql s [''a'']) [] small_chunks = Inr ()"
  by (simp add: small_chunks_def small_pieces small_first_valid small_second_valid)

lemma small_chunks_rewritten:
  "rewrite_chunks 9 (\<lambda>s. rewrite_pitr_sql_databases s [(''a'', ''b'')]) [] small_chunks = Inr [''B;'', ''USE `b`;'', []]"
  by code_simp

lemma small_bounds: "bounds Code 0 (concat small_chunks) = [2, 8]"
  by code_simp

theorem streams_split_at_statements_witness:
  "\<exists>ps. concat ps = ''B;USE a;'' \<and> set (cuts 0 ps) \<subseteq> {2, 8}
     \<and> ''B;USE `b`;'' = concat (map (\<lambda>p. rewrite_pitr_sql_databases p [(''a'', ''b'')]) ps)"
proof -
  have limit: "9 \<le> statement_limit" by (simp add: statement_limit_def)
  have valid: "validate_pitr_sql_file small_chunks [''a''] = Inr ()"
    unfolding validate_pitr_sql_file_def by (rule validate_chunks_limit [OF small_chunks_valid limit])
  have "rewrite_pitr_sql_file small_chunks [(''a'', ''b'')] = Inr ''B;USE `b`;''"
    unfolding rewrite_pitr_sql_file_def by (simp add: rewrite_chunks_limit [OF small_chunks_rewritten limit])
  from streams_split_at_statements [OF valid this] obtain ps where ps: "concat ps = concat small_chunks"
    "set (cuts 0 ps) \<subseteq> set (bounds Code 0 (concat small_chunks))"
    "''B;USE `b`;'' = concat (map (\<lambda>p. rewrite_pitr_sql_databases p [(''a'', ''b'')]) ps)" by blast
  show ?thesis
  proof (intro exI [of _ ps] conjI)
    show "concat ps = ''B;USE a;''" using ps(1) by (simp add: small_chunks_def)
    show "set (cuts 0 ps) \<subseteq> {2, 8}" using ps(2) unfolding small_bounds by simp
  qed (rule ps(3))
qed

end
