(* ===== verification/Schedule_Store.thy ===== *)
theory Schedule_Store
  imports Recovery Admission
begin

text \<open>
  The schedules of \<open>src/backup/backup.service.ts\<close>: \<open>saveJobV2\<close>, \<open>deleteJob\<close> and the lists that show them with
  their sources and destinations. A body is a value of \<open>BackupJobDto\<close> after the validation pipe, a property
  that it leaves out is \<open>None\<close>.
\<close>

section \<open>What a schedule includes\<close>

text \<open>\<open>backupObjects(value, layout)\<close> of a parsed value: \<open>null\<close> has no properties to read.\<close>

definition backup_objects_of :: "json \<Rightarrow> string \<Rightarrow> backup_objects result" where
  "backup_objects_of objects layout =
     (if objects = JNull then Inl null_property
      else Inr \<lparr>bo_views = object_flag objects ''views'' (layout \<noteq> ''table''),
                bo_routines = object_flag objects ''routines'' (layout \<noteq> ''table''),
                bo_triggers = object_flag objects ''triggers'' True,
                bo_events = object_flag objects ''events'' (layout \<noteq> ''table'')\<rparr>)"

definition json_objects :: "backup_objects \<Rightarrow> jtext" where
  "json_objects b = Parsed (JObj [(''views'', JBool (bo_views b)), (''routines'', JBool (bo_routines b)),
     (''triggers'', JBool (bo_triggers b)), (''events'', JBool (bo_events b))])"

definition layout_or_single :: "string \<Rightarrow> string" where
  "layout_or_single l = (if l = ''database'' \<or> l = ''table'' then l else ''single'')"

section \<open>Lists\<close>

text \<open>\<open>JSON.parse(text || '[]')\<close>, with no names for text that does not parse.\<close>

fun names_value :: "jtext \<Rightarrow> json" where
  "names_value (Parsed j) = j"
| "names_value _ = JArr []"

definition job_connection_links :: "db \<Rightarrow> job_row \<Rightarrow> (id \<times> json) list" where
  "job_connection_links d j =
     (let rows = sort_key (\<lambda>r. (jc_position r, jc_connection r)) (filter (\<lambda>r. jc_job r = j_id j) (job_connections d))
      in if rows \<noteq> [] then map (\<lambda>r. (jc_connection r, names_value (jc_names r))) rows
         else if j_connection j = [] then [] else [(j_connection j, names_value (j_names j))])"

definition job_storage_links :: "db \<Rightarrow> job_row \<Rightarrow> id list" where
  "job_storage_links d j =
     (let rows = sort_key (\<lambda>r. (js_position r, js_target r)) (filter (\<lambda>r. js_job r = j_id j) (job_storages d))
      in if rows \<noteq> [] then map js_target rows else if j_target j = [] then [] else [j_target j])"

record job_view =
  jv_row :: job_row
  jv_scope :: string
  jv_layout :: string
  jv_objects :: backup_objects
  jv_names :: json
  jv_selections :: "(id \<times> json) list"
  jv_targets :: "id list"
  jv_requirements :: "(id \<times> bool) list"

definition enrich_job :: "db \<Rightarrow> job_row \<Rightarrow> job_view result" where
  "enrich_job d j =
     (let layout = layout_or_single (j_layout j); ts = job_storage_links d j;
          rows = sort_key js_position (filter (\<lambda>r. js_job r = j_id j) (job_storages d))
      in case backup_objects_of (parsed_objects (j_objects j)) layout of
           Inl e \<Rightarrow> Inl e
         | Inr objects \<Rightarrow>
             Inr \<lparr>jv_row = j, jv_scope = (if j_scope j = ''all'' then ''all'' else ''selected''), jv_layout = layout,
                  jv_objects = objects, jv_names = names_value (j_names j), jv_selections = job_connection_links d j,
                  jv_targets = ts,
                  jv_requirements = (if rows \<noteq> [] then map (\<lambda>r. (js_target r, js_required r)) rows
                                     else map (\<lambda>t. (t, True)) ts)\<rparr>)"

fun collect_jobs :: "job_view result list \<Rightarrow> job_view list result" where
  "collect_jobs [] = Inr []"
| "collect_jobs (r # rs) =
     (case r of
        Inl e \<Rightarrow> Inl e
      | Inr x \<Rightarrow> (case collect_jobs rs of Inl e \<Rightarrow> Inl e | Inr xs \<Rightarrow> Inr (x # xs)))"

definition list_jobs :: "db \<Rightarrow> job_view list result" where
  "list_jobs d = collect_jobs (map (enrich_job d) (sort_key j_name (jobs d)))"

section \<open>Saving a schedule\<close>

record job_input =
  ji_id :: "string option"
  ji_name :: string
  ji_connections :: "string list option"
  ji_connection :: "string option"
  ji_targets :: "string list option"
  ji_target :: "string option"
  ji_scope :: "string option"
  ji_names :: "string list option"
  ji_selections :: "(string \<times> string list) list option"
  ji_layout :: "string option"
  ji_objects :: "json option"
  ji_insert_mode :: "string option"
  ji_cron :: string
  ji_timezone :: "string option"
  ji_enabled :: "bool option"
  ji_compression :: "string option"
  ji_encryption :: "string option"
  ji_retention :: "int option"
  ji_retry_count :: "int option"
  ji_retry_delay :: "int option"
  ji_overlap :: "string option"
  ji_prefix :: "string option"
  ji_start_grace :: "int option"
  ji_max_age :: "int option"
  ji_long_running :: "int option"
  ji_requirements :: "(id \<times> bool) list option"

text \<open>\<open>[...new Set(values.map(value => String(value).trim()).filter(Boolean))]\<close>.\<close>

definition clean :: "string list \<Rightarrow> string list" where
  "clean xs = uniq (filter (\<lambda>s. s \<noteq> []) (map trim xs))"

definition listed_or_one :: "string list option \<Rightarrow> string option \<Rightarrow> string list" where
  "listed_or_one many one = clean (case many of Some xs \<Rightarrow> xs | None \<Rightarrow> (case one of None \<Rightarrow> [] | Some x \<Rightarrow> [x]))"

definition selected_connections :: "job_input \<Rightarrow> string list" where
  "selected_connections b = listed_or_one (ji_connections b) (ji_connection b)"

definition selected_targets :: "job_input \<Rightarrow> string list" where
  "selected_targets b = listed_or_one (ji_targets b) (ji_target b)"

text \<open>The databases of one connection: those of its selection, or the plain list if it is the only one.\<close>

definition selected_names :: "job_input \<Rightarrow> id \<Rightarrow> string list" where
  "selected_names b c =
     clean (case List.find (\<lambda>s. fst s = c) (case ji_selections b of None \<Rightarrow> [] | Some ss \<Rightarrow> ss) of
              Some (_, ns) \<Rightarrow> ns
            | None \<Rightarrow> (if length (selected_connections b) = 1 then (case ji_names b of None \<Rightarrow> [] | Some ns \<Rightarrow> ns) else []))"

definition is_backup_connection :: "db \<Rightarrow> id \<Rightarrow> bool" where
  "is_backup_connection d c = list_ex (\<lambda>r. c_id r = c \<and> c_purpose r \<noteq> ''recovery'') (connections d)"

definition is_target :: "db \<Rightarrow> id \<Rightarrow> bool" where
  "is_target d t = list_ex (\<lambda>r. t_id r = t) (targets d)"

definition given :: "string option \<Rightarrow> string option" where
  "given s = (case s of None \<Rightarrow> None | Some x \<Rightarrow> if x = [] then None else Some x)"

definition previous_job :: "db \<Rightarrow> job_input \<Rightarrow> job_row option" where
  "previous_job d b = (case given (ji_id b) of None \<Rightarrow> None | Some i \<Rightarrow> find_job d i)"

definition chosen :: "string list \<Rightarrow> string \<Rightarrow> string option \<Rightarrow> string" where
  "chosen allowed fallback v = (case v of None \<Rightarrow> fallback | Some s \<Rightarrow> if s \<in> set allowed then s else fallback)"

text \<open>\<open>Math.max(low, Math.min(high, Number(value || fallback)))\<close>.\<close>

definition clamped :: "int \<Rightarrow> int \<Rightarrow> int \<Rightarrow> int option \<Rightarrow> int" where
  "clamped low high fallback v = max low (min high (case v of None \<Rightarrow> fallback | Some n \<Rightarrow> if n = 0 then fallback else n))"

text \<open>A threshold of the protection policy: the body's, else the schedule's own, else the default.\<close>

definition threshold :: "string \<Rightarrow> int \<Rightarrow> int \<Rightarrow> int option \<Rightarrow> int option \<Rightarrow> int result" where
  "threshold key fallback high v previous =
     (let n = (case v of Some n \<Rightarrow> n | None \<Rightarrow> (case previous of Some n \<Rightarrow> n | None \<Rightarrow> fallback))
      in if n < 1 \<or> n > high then Inl (BadRequest (key @ '' must be an integer between 1 and '' @ Json_Text.show_int high)) else Inr n)"

definition saved_insert_mode :: "db \<Rightarrow> job_input \<Rightarrow> string" where
  "saved_insert_mode d b =
     chosen [''single-row''] ''extended''
       (case ji_insert_mode b of Some m \<Rightarrow> Some m | None \<Rightarrow> map_option j_insert_mode (previous_job d b))"

definition requirements_ok :: "job_input \<Rightarrow> bool" where
  "requirements_ok b =
     (case ji_requirements b of
        None \<Rightarrow> True
      | Some rs \<Rightarrow> list_all (\<lambda>r. fst r \<in> set (selected_targets b)) rs \<and> distinct (map fst rs))"

text \<open>Whether a target is required: as the body says, else as before, else it is.\<close>

definition required_target :: "db \<Rightarrow> id \<Rightarrow> job_input \<Rightarrow> id \<Rightarrow> bool" where
  "required_target d i b t =
     (case List.find (\<lambda>r. fst r = t) (case ji_requirements b of None \<Rightarrow> [] | Some rs \<Rightarrow> rs) of
        Some r \<Rightarrow> snd r
      | None \<Rightarrow> (case List.find (\<lambda>r. js_target r = t) (filter (\<lambda>r. js_job r = i) (job_storages d)) of
           Some r \<Rightarrow> js_required r
         | None \<Rightarrow> True))"

text \<open>The checks before the first statement, in their order.\<close>

definition check_job_input :: "db \<Rightarrow> job_input \<Rightarrow> unit result" where
  "check_job_input d b =
     (if ji_name b = [] \<or> ji_cron b = [] then Inl (BadRequest ''Name and schedule are required'')
      else if selected_connections b = [] \<or> selected_targets b = []
        then Inl (BadRequest ''Select at least one database connection and storage target'')
      else if \<not> list_all (is_backup_connection d) (selected_connections b)
        then Inl (BadRequest ''One selected database connection no longer exists'')
      else if \<not> list_all (is_target d) (selected_targets b)
        then Inl (BadRequest ''One selected storage target no longer exists'')
      else if ji_scope b \<noteq> Some ''all'' \<and> list_all (\<lambda>c. selected_names b c = []) (selected_connections b)
        then Inl (BadRequest ''Select at least one database from the grouped connection lists'')
      else Inr ())"

definition job_thresholds :: "db \<Rightarrow> job_input \<Rightarrow> (int \<times> int \<times> int) result" where
  "job_thresholds d b =
     (let p = previous_job d b
      in case threshold ''missedStartGraceMinutes'' 15 1440 (ji_start_grace b) (map_option j_start_grace p) of
           Inl e \<Rightarrow> Inl e
         | Inr x \<Rightarrow>
             (case threshold ''maxVerifiedAgeHours'' 26 8760 (ji_max_age b) (map_option j_max_age p) of
                Inl e \<Rightarrow> Inl e
              | Inr y \<Rightarrow>
                  (case threshold ''longRunningWarningMinutes'' 120 10080 (ji_long_running b) (map_option j_long_running p) of
                     Inl e \<Rightarrow> Inl e
                   | Inr z \<Rightarrow> Inr (x, y, z))))"

definition input_layout :: "job_input \<Rightarrow> string" where
  "input_layout b = layout_or_single (case ji_layout b of None \<Rightarrow> [] | Some l \<Rightarrow> l)"

text \<open>\<open>value || {}\<close>.\<close>

definition input_objects :: "job_input \<Rightarrow> json" where
  "input_objects b = (case ji_objects b of None \<Rightarrow> JObj [] | Some v \<Rightarrow> if truthy v then v else JObj [])"

definition input_job :: "db \<Rightarrow> job_input \<Rightarrow> id \<Rightarrow> backup_objects \<Rightarrow> time \<Rightarrow> time \<Rightarrow> int \<times> int \<times> int \<Rightarrow> job_row" where
  "input_job d b i objects now nxt policy =
     \<lparr>j_id = i, j_name = ji_name b, j_connection = hd (selected_connections b), j_target = hd (selected_targets b),
      j_scope = (if ji_scope b = Some ''all'' then ''all'' else ''selected''),
      j_names = json_names (uniq (concat (map (selected_names b) (selected_connections b)))),
      j_layout = input_layout b, j_objects = json_objects objects, j_insert_mode = saved_insert_mode d b,
      j_cron = ji_cron b, j_timezone = or_text (ji_timezone b) ''UTC'', j_enabled = (ji_enabled b \<noteq> Some False),
      j_compression = (if input_layout b = ''single'' then chosen [''none'', ''gzip'', ''zip''] ''gzip'' (ji_compression b) else ''zip''),
      j_encryption = chosen [''aes-256-gcm''] ''none'' (ji_encryption b), j_retention = clamped 1 365 7 (ji_retention b),
      j_retry_count = clamped 0 10 0 (ji_retry_count b), j_retry_delay = clamped 30 86400 300 (ji_retry_delay b),
      j_overlap = chosen [''queue''] ''skip'' (ji_overlap b),
      j_prefix = safe_file_part (or_text (ji_prefix b) (ji_name b)), j_next_run = Some nxt, j_created = now,
      j_start_grace = fst policy, j_max_age = fst (snd policy), j_long_running = snd (snd policy)\<rparr>"

definition upsert_job :: "job_row \<Rightarrow> db \<Rightarrow> db" where
  "upsert_job new d =
     d\<lparr>jobs := (if list_ex (\<lambda>j. j_id j = j_id new) (jobs d)
                then update_where (\<lambda>j. j_id j = j_id new) (\<lambda>j. new\<lparr>j_created := j_created j\<rparr>) (jobs d) else jobs d @ [new])\<rparr>"

definition replace_links :: "id \<Rightarrow> job_connection_row list \<Rightarrow> job_storage_row list \<Rightarrow> db \<Rightarrow> db" where
  "replace_links i cs ts d =
     d\<lparr>job_connections := filter (\<lambda>r. jc_job r \<noteq> i) (job_connections d) @ cs,
       job_storages := filter (\<lambda>r. js_job r \<noteq> i) (job_storages d) @ ts\<rparr>"

definition input_sources :: "id \<Rightarrow> job_input \<Rightarrow> job_connection_row list" where
  "input_sources i b =
     map (\<lambda>(k, c). \<lparr>jc_job = i, jc_connection = c, jc_names = json_names (selected_names b c), jc_position = int k\<rparr>)
       (enumerate 0 (selected_connections b))"

definition input_destinations :: "db \<Rightarrow> id \<Rightarrow> job_input \<Rightarrow> job_storage_row list" where
  "input_destinations d i b =
     map (\<lambda>(k, t). \<lparr>js_job = i, js_target = t, js_position = int k, js_required = required_target d i b t\<rparr>)
       (enumerate 0 (selected_targets b))"

text \<open>\<open>saveJobV2\<close>; the answer is the schedule as the list shows it, so a list that fails undoes the transaction.\<close>

definition save_job ::
  "(string \<Rightarrow> local_clock option) \<Rightarrow> time \<Rightarrow> job_input \<Rightarrow> db \<Rightarrow> (id \<times> db) result" where
  "save_job zones now b d =
     (case check_job_input d b of
        Inl e \<Rightarrow> Inl e
      | Inr _ \<Rightarrow>
          (case backup_objects_of (input_objects b) (input_layout b) of
             Inl e \<Rightarrow> Inl e
           | Inr objects \<Rightarrow>
               (case next_cron zones (ji_cron b) (or_text (ji_timezone b) ''UTC'') now of
                  Inl e \<Rightarrow> Inl e
                | Inr nxt \<Rightarrow>
                    (let (i, d1) = (case given (ji_id b) of
                                      Some i \<Rightarrow> (i, d) | None \<Rightarrow> (uuid (draws d), d\<lparr>draws := Suc (draws d)\<rparr>))
                     in case job_thresholds d b of
                          Inl e \<Rightarrow> Inl e
                        | Inr policy \<Rightarrow>
                            (if \<not> requirements_ok b
                             then Inl (BadRequest ''Storage requirements must uniquely reference selected targets with boolean required flags'')
                             else (let d2 = replace_links i (input_sources i b) (input_destinations d i b)
                                             (upsert_job (input_job d b i objects now nxt policy) d1)
                                   in case list_jobs d2 of Inl e \<Rightarrow> Inl e | Inr _ \<Rightarrow> Inr (i, d2)))))))"

text \<open>\<open>deleteJob\<close>: the links, and the schedule with all that its foreign keys take along.\<close>

definition delete_job :: "id \<Rightarrow> vault \<Rightarrow> vault" where
  "delete_job i = drop_jobs [i]"

text \<open>The table of schedules keeps the contract of a keyed table.\<close>

interpretation job_table: deletable_table "\<lambda>v. jobs (vt_db v)" j_id "\<lambda>j v. v\<lparr>vt_db := upsert_job j (vt_db v)\<rparr>"
  "\<lambda>new old. new\<lparr>j_created := j_created old\<rparr>" delete_job
proof unfold_locales
  show "jobs (vt_db (delete_job k v)) = filter (\<lambda>j. j_id j \<noteq> k) (jobs (vt_db v))" for k v
    by (simp add: delete_job_def drop_jobs_def drop_plans_def Let_def)
qed (simp_all add: upsert_job_def)

end
