(* ===== verification/Schedule_Store_Props.thy ===== *)
theory Schedule_Store_Props
  imports Schedule_Store Admission_Props Cron_Props
begin

text \<open>
  A schedule that was saved, and its admission: the queue reads back the selection of the request, and running
  the schedule cannot fail on what was saved.
\<close>

section \<open>Saved rows\<close>

lemma save_job_Inr:
  assumes "save_job zones now b d = Inr (i, d')"
  obtains objects nxt policy d1 where "check_job_input d b = Inr ()" "next_cron zones (ji_cron b) (or_text (ji_timezone b) ''UTC'') now = Inr nxt"
    "d1 = d \<or> d1 = d\<lparr>draws := Suc (draws d)\<rparr>"
    "d' = replace_links i (input_sources i b) (input_destinations d i b) (upsert_job (input_job d b i objects now nxt policy) d1)"
    "backup_objects_of (input_objects b) (input_layout b) = Inr objects"
proof -
  obtain i1 d1 where id: "(case given (ji_id b) of Some i \<Rightarrow> (i, d) | None \<Rightarrow> (uuid (draws d), d\<lparr>draws := Suc (draws d)\<rparr>)) = (i1, d1)"
    by fastforce
  then have d1: "d1 = d \<or> d1 = d\<lparr>draws := Suc (draws d)\<rparr>" by (auto split: option.splits)
  have "\<exists>objects nxt policy. check_job_input d b = Inr () \<and> next_cron zones (ji_cron b) (or_text (ji_timezone b) ''UTC'') now = Inr nxt
      \<and> d' = replace_links i (input_sources i b) (input_destinations d i b) (upsert_job (input_job d b i objects now nxt policy) d1)
      \<and> backup_objects_of (input_objects b) (input_layout b) = Inr objects"
    using assms unfolding save_job_def id by (auto simp: Let_def split: sum.splits if_splits)
  with d1 that show thesis by blast
qed

lemma links_tables:
  "job_connections (replace_links i cs ts d) = filter (\<lambda>r. jc_job r \<noteq> i) (job_connections d) @ cs"
  "job_storages (replace_links i cs ts d) = filter (\<lambda>r. js_job r \<noteq> i) (job_storages d) @ ts"
  "jobs (replace_links i cs ts d) = jobs d" "connections (replace_links i cs ts d) = connections d" "targets (replace_links i cs ts d) = targets d"
  by (simp_all add: replace_links_def)

lemma upsert_job_tables:
  "job_connections (upsert_job j d) = job_connections d" "job_storages (upsert_job j d) = job_storages d"
  "connections (upsert_job j d) = connections d" "targets (upsert_job j d) = targets d"
  by (simp_all add: upsert_job_def)

text \<open>Links in the order of the request are in the order of their positions.\<close>

lemma enumerate_sorted: "sorted (map (\<lambda>x. (int (fst x), snd x)) (enumerate n cs))"
  for cs :: "string list"
proof (induction cs arbitrary: n)
  case (Cons c cs)
  have "(int n, c) \<le> (int k, x)" if "(k, x) \<in> set (enumerate (Suc n) cs)" for k x
    using that by (auto simp: in_set_enumerate_eq less_eq_prod_def)
  with Cons.IH show ?case by auto
qed simp

lemma sources_in_order:
  "sort_key (\<lambda>r. (jc_position r, jc_connection r)) (input_sources i b) = input_sources i b"
  using enumerate_sorted [of 0 "selected_connections b"]
  by (intro sort_key_id_if_sorted) (simp add: input_sources_def comp_def case_prod_unfold)

lemma destinations_in_order:
  "sort_key (\<lambda>r. (js_position r, js_target r)) (input_destinations d i b) = input_destinations d i b"
  using enumerate_sorted [of 0 "selected_targets b"]
  by (intro sort_key_id_if_sorted) (simp add: input_destinations_def comp_def case_prod_unfold)

lemma map_enumerate: "map (\<lambda>x. f (snd x)) (enumerate n cs) = map f cs"
  by (induction cs arbitrary: n) auto

lemma enumerate_Nil [simp]: "enumerate n cs = [] \<longleftrightarrow> cs = []"
  by (cases cs) simp_all

lemma selected_distinct [simp]: "distinct (selected_connections b)" "distinct (selected_targets b)"
  by (simp_all add: selected_connections_def selected_targets_def listed_or_one_def clean_def)

lemma check_job_input_Inr:
  assumes "check_job_input d b = Inr ()"
  shows "selected_connections b \<noteq> []" "selected_targets b \<noteq> []"
    "list_all (is_backup_connection d) (selected_connections b)" "list_all (is_target d) (selected_targets b)"
  using assms by (auto simp: check_job_input_def split: if_splits)

lemma find_upsert_job: "\<exists>t. find_job (upsert_job new d) (j_id new) = Some (new\<lparr>j_created := t\<rparr>)"
proof (cases "find_job d (j_id new)")
  case None
  then show ?thesis using job_table.find_put [of "j_id new" new "v\<lparr>vt_db := d\<rparr>"]
    by (intro exI [of _ "j_created new"]) (simp del: find_key_None add: find_job_def)
next
  case (Some old)
  then show ?thesis using job_table.find_put [of "j_id new" new "v\<lparr>vt_db := d\<rparr>"]
    by (intro exI [of _ "j_created old"]) (simp add: find_job_def)
qed

lemma find_upsert_other: "k \<noteq> j_id new \<Longrightarrow> find_job (upsert_job new d) k = find_job d k"
  using job_table.find_put [of k new "v\<lparr>vt_db := d\<rparr>"] by (simp add: find_job_def)

lemma saved_rows:
  assumes "save_job zones now b d = Inr (i, d')"
  shows "\<exists>j nxt. find_job d' i = Some j \<and> j_id j = i \<and> j_next_run j = Some nxt \<and> now < nxt
    \<and> job_sources d' j = map (\<lambda>c. (c, json_names (selected_names b c))) (selected_connections b)
    \<and> job_destinations d' j = map (\<lambda>t. (t, required_target d i b t)) (selected_targets b)
    \<and> selected_connections b \<noteq> [] \<and> selected_targets b \<noteq> []
    \<and> list_all (is_backup_connection d') (selected_connections b) \<and> list_all (is_target d') (selected_targets b)
    \<and> (\<forall>k. k = i \<or> find_job d' k = find_job d k)
    \<and> (\<forall>other. j_id other = i \<or> (job_sources d' other = job_sources d other \<and> job_destinations d' other = job_destinations d other))"
proof -
  obtain objects nxt policy d1 where ok: "check_job_input d b = Inr ()"
    and nxt: "next_cron zones (ji_cron b) (or_text (ji_timezone b) ''UTC'') now = Inr nxt"
    and d1: "d1 = d \<or> d1 = d\<lparr>draws := Suc (draws d)\<rparr>"
    and d': "d' = replace_links i (input_sources i b) (input_destinations d i b) (upsert_job (input_job d b i objects now nxt policy) d1)"
    using assms by (rule save_job_Inr)
  let ?new = "input_job d b i objects now nxt policy"
  have id: "j_id ?new = i" by (simp add: input_job_def)
  have same: "jobs d1 = jobs d" "connections d1 = connections d" "targets d1 = targets d"
    "job_connections d1 = job_connections d" "job_storages d1 = job_storages d" using d1 by auto
  have find: "find_job d' k = find_job (upsert_job ?new d1) k" for k by (simp add: d' find_job_def links_tables)
  obtain t where "find_job (upsert_job ?new d1) (j_id ?new) = Some (?new\<lparr>j_created := t\<rparr>)" using find_upsert_job by blast
  then have j: "find_job d' i = Some (?new\<lparr>j_created := t\<rparr>)" by (simp only: find id)
  have rows: "job_connections d' = filter (\<lambda>r. jc_job r \<noteq> i) (job_connections d) @ input_sources i b"
    "job_storages d' = filter (\<lambda>r. js_job r \<noteq> i) (job_storages d) @ input_destinations d i b"
    by (simp_all add: d' links_tables upsert_job_tables same)
  have mine: "filter (\<lambda>r. jc_job r = i) (job_connections d') = input_sources i b"
    "filter (\<lambda>r. js_job r = i) (job_storages d') = input_destinations d i b"
    unfolding rows by (auto simp: filter_empty_conv input_sources_def input_destinations_def filter_id_conv)
  have sources: "job_sources d' (?new\<lparr>j_created := t\<rparr>) = map (\<lambda>c. (c, json_names (selected_names b c))) (selected_connections b)"
    using check_job_input_Inr(1) [OF ok] map_enumerate [of "\<lambda>c. (c, json_names (selected_names b c))" 0 "selected_connections b"]
    by (simp add: job_sources_def id mine sources_in_order) (simp add: input_sources_def comp_def case_prod_unfold)
  have destinations: "job_destinations d' (?new\<lparr>j_created := t\<rparr>) = map (\<lambda>t. (t, required_target d i b t)) (selected_targets b)"
    using check_job_input_Inr(2) [OF ok] map_enumerate [of "\<lambda>t. (t, required_target d i b t)" 0 "selected_targets b"]
    by (simp add: job_destinations_def id mine destinations_in_order) (simp add: input_destinations_def comp_def case_prod_unfold)
  have theirs: "filter (\<lambda>r. jc_job r = k) (job_connections d') = filter (\<lambda>r. jc_job r = k) (job_connections d)"
    "filter (\<lambda>r. js_job r = k) (job_storages d') = filter (\<lambda>r. js_job r = k) (job_storages d)" if "k \<noteq> i" for k
  proof -
    have none: "filter (\<lambda>r. jc_job r = k) (input_sources i b) = []" "filter (\<lambda>r. js_job r = k) (input_destinations d i b) = []"
      using that by (auto simp: input_sources_def input_destinations_def filter_empty_conv)
    show "filter (\<lambda>r. jc_job r = k) (job_connections d') = filter (\<lambda>r. jc_job r = k) (job_connections d)"
      unfolding rows using that by (simp add: none) (rule filter_cong, auto)
    show "filter (\<lambda>r. js_job r = k) (job_storages d') = filter (\<lambda>r. js_job r = k) (job_storages d)"
      unfolding rows using that by (simp add: none) (rule filter_cong, auto)
  qed
  have others: "find_job d' k = find_job d k" if "k \<noteq> i" for k
    using find_upsert_other [of k ?new d1] that same by (simp add: find id) (simp add: find_job_def)
  have "is_backup_connection d' = is_backup_connection d" "is_target d' = is_target d"
    by (simp_all add: is_backup_connection_def is_target_def d' links_tables upsert_job_tables same fun_eq_iff)
  then have "list_all (is_backup_connection d') (selected_connections b)" "list_all (is_target d') (selected_targets b)"
    using check_job_input_Inr(3,4) [OF ok] by simp_all
  with j sources destinations check_job_input_Inr(1,2) [OF ok] next_cron_later [OF nxt] others theirs show ?thesis
    by (intro exI [of _ "?new\<lparr>j_created := t\<rparr>"] exI [of _ nxt])
      (auto simp: input_job_def job_sources_def job_destinations_def)
qed

text \<open>C31: A schedule that is saved is the one the queue reads: its sources are exactly the connections of the request,
  in their order and without repetition, each with the databases selected on it; its destinations are exactly the
  targets of the request, each required as the request says, else as before; all of them exist and none is a recovery
  connection; its next run lies in the future; and no other schedule changes.\<close>

theorem saved_schedule_is_read_back:
  assumes "save_job zones now b d = Inr (i, d')"
  shows "\<exists>j nxt. find_job d' i = Some j \<and> j_id j = i \<and> j_next_run j = Some nxt \<and> now < nxt
    \<and> job_sources d' j = map (\<lambda>c. (c, json_names (selected_names b c))) (selected_connections b)
    \<and> job_destinations d' j = map (\<lambda>t. (t, required_target d i b t)) (selected_targets b)
    \<and> selected_connections b \<noteq> [] \<and> distinct (selected_connections b) \<and> selected_targets b \<noteq> [] \<and> distinct (selected_targets b)
    \<and> list_all (is_backup_connection d') (selected_connections b) \<and> list_all (is_target d') (selected_targets b)
    \<and> (\<forall>k. k = i \<or> find_job d' k = find_job d k)
    \<and> (\<forall>other. j_id other = i \<or> (job_sources d' other = job_sources d other \<and> job_destinations d' other = job_destinations d other))"
  using saved_rows [OF assms] by (auto simp del: selected_distinct intro: selected_distinct)

section \<open>Running a saved schedule\<close>

text \<open>The stored lists of databases of all connections can be read.\<close>

definition names_readable :: "db \<Rightarrow> bool" where
  "names_readable d = (\<forall>c \<in> set (connections d). is_ok (parse_database_names (or_empty_array (c_names c))))"

lemma source_group_readable:
  assumes "names_readable d" and "source_group i d = (g, d1)"
  shows "names_readable d1"
  using assms
  by (auto simp: names_readable_def source_group_def set_group_def Let_def in_set_update_where split: option.splits if_splits)

lemma snapshot_ok:
  assumes "names_readable d" and "parsed_objects (j_objects j) \<noteq> JNull"
  shows "\<exists>s. snapshot_configuration j (json_names ns) (find_connection d c) pitr = Inr s"
proof -
  have some: "json_names ns \<noteq> Absent" by (simp add: json_names_def)
  have "\<exists>ms. snapshot_names (json_names ns) (find_connection d c) = Inr ms"
  proof (cases "find_connection d c")
    case None
    then show ?thesis using some by (simp add: snapshot_names_def or_empty_array_def)
  next
    case (Some r)
    then have "r \<in> set (connections d)" by (auto simp: find_connection_def dest: find_SomeD)
    then have "is_ok (parse_database_names (or_empty_array (c_names r)))" using assms(1) by (simp add: names_readable_def)
    then obtain ms where "parse_database_names (or_empty_array (c_names r)) = Inr ms"
      by (cases "parse_database_names (or_empty_array (c_names r))") (simp_all add: is_ok_def)
    moreover have "or_empty_array (json_names ns) = json_names ns" using some by (simp add: or_empty_array_def)
    ultimately show ?thesis using Some by (auto simp: snapshot_names_def)
  qed
  then show ?thesis using assms(2) by (auto simp: snapshot_configuration_def Let_def)
qed

lemma plan_pairs_ok:
  assumes "parsed_objects (j_objects j) \<noteq> JNull" and "names_readable d"
    and "\<And>c ns x. ((c, ns), x) \<in> set cs \<Longrightarrow> \<exists>l. ns = json_names l"
  shows "\<exists>pls d'. plan_pairs j cs d = Inr (pls, d')"
  using assms(2,3)
proof (induction cs arbitrary: d)
  case (Cons a cs)
  obtain c ns t r where a: "a = ((c, ns), (t, r))" by (metis prod.collapse)
  then obtain l where l: "ns = json_names l" using Cons.prems(2) by (metis list.set_intros(1))
  obtain s where s: "snapshot_configuration j ns (find_connection d c) (records_pitr d c (j_id j)) = Inr s"
    unfolding l using snapshot_ok [OF Cons.prems(1) assms(1)] by blast
  obtain g d1 where g: "source_group c d = (g, d1)" by fastforce
  have "\<exists>pls d'. plan_pairs j cs d1 = Inr (pls, d')"
    by (rule Cons.IH [OF source_group_readable [OF Cons.prems(1) g]]) (use Cons.prems(2) in \<open>meson list.set_intros(2)\<close>)
  then show ?case using s g by (auto simp: a)
qed simp

lemma insert_pairs_ok:
  assumes "\<And>pl. pl \<in> set pls \<Longrightarrow> is_ok (selection_fingerprint (pp_snapshot pl))"
    and "distinct (map (\<lambda>pl. (pp_connection pl, pp_target pl)) pls)"
    and "\<And>p pl. p \<in> set (pairs d) \<Longrightarrow> p_execution p = ex \<Longrightarrow> pl \<in> set pls \<Longrightarrow> (p_connection p, p_target p) \<noteq> (pp_connection pl, pp_target pl)"
  shows "\<exists>d'. insert_pairs ex pls d = Inr d'"
  using assms
proof (induction pls arbitrary: d)
  case (Cons pl pls)
  obtain f where f: "selection_fingerprint (pp_snapshot pl) = Inr f"
    using Cons.prems(1) [of pl] by (auto simp: is_ok_def split: sum.splits)
  have free: "\<not> pair_exists d ex pl" using Cons.prems(3) by (fastforce simp: pair_exists_def list_ex_iff)
  have "\<exists>d'. insert_pairs ex pls (d\<lparr>pairs := pairs d @ [new_pair (uuid (draws d)) ex f pl], draws := Suc (draws d)\<rparr>) = Inr d'"
  proof (rule Cons.IH)
    show "is_ok (selection_fingerprint (pp_snapshot x))" if "x \<in> set pls" for x using Cons.prems(1) that by simp
    show "distinct (map (\<lambda>pl. (pp_connection pl, pp_target pl)) pls)" using Cons.prems(2) by simp
    fix p x
    assume p: "p \<in> set (pairs (d\<lparr>pairs := pairs d @ [new_pair (uuid (draws d)) ex f pl], draws := Suc (draws d)\<rparr>))"
      "p_execution p = ex" and x: "x \<in> set pls"
    have "(pp_connection pl, pp_target pl) \<noteq> (pp_connection x, pp_target x)"
      using Cons.prems(2) x by (metis (mono_tags, lifting) distinct.simps(2) image_eqI list.simps(9) set_map)
    moreover have "p \<in> set (pairs d) \<or> (p_connection p, p_target p) = (pp_connection pl, pp_target pl)" using p(1) by auto
    ultimately show "(p_connection p, p_target p) \<noteq> (pp_connection x, pp_target x)"
      using Cons.prems(3) [OF _ p(2), of x] x by (metis list.set_intros(2))
  qed
  then show ?case using f free by simp
qed simp

lemma product_pairs:
  "map (\<lambda>((c, ns), (x, r)). (c, x, r)) (List.product (map (\<lambda>c. (c, g c)) xs) (map (\<lambda>x. (x, h x)) ys))
     = map (\<lambda>(c, x). (c, x, h x)) (List.product xs ys)"
  by (induction xs) (simp_all add: comp_def)

text \<open>C32: A schedule that is saved can be run: as long as the stored database lists of the connections can be read, an
  administrator's manual run of it is admitted, whatever the schedule's options, with one pair for each connection
  and each target of the request.\<close>

theorem saved_schedule_can_run:
  assumes saved: "save_job zones now b d = Inr (i, d')" and inv: "store_inv d" and names: "names_readable d" and admin: "is_admin d u"
  shows "\<exists>k d2. enqueue t i Manual (Some u) None d' = Inr (k, d2)
    \<and> map (\<lambda>p. (p_connection p, p_target p, p_required p)) (pairs_of d2 k)
        = map (\<lambda>(c, x). (c, x, required_target d i b x)) (List.product (selected_connections b) (selected_targets b))"
proof -
  obtain objects nxt policy d1 where ok: "check_job_input d b = Inr ()"
    and d1: "d1 = d \<or> d1 = d\<lparr>draws := Suc (draws d)\<rparr>"
    and d': "d' = replace_links i (input_sources i b) (input_destinations d i b) (upsert_job (input_job d b i objects now nxt policy) d1)"
    using saved by (rule save_job_Inr)
  obtain j where j: "find_job d' i = Some j" and sources: "job_sources d' j = map (\<lambda>c. (c, json_names (selected_names b c))) (selected_connections b)"
    and destinations: "job_destinations d' j = map (\<lambda>t. (t, required_target d i b t)) (selected_targets b)"
    using saved_rows [OF saved] by blast
  have row: "\<exists>t. j = (input_job d b i objects now nxt policy)\<lparr>j_created := t\<rparr>"
    using find_upsert_job [of "input_job d b i objects now nxt policy" d1] j
    by (simp add: d' find_job_def links_tables) (simp add: input_job_def)
  have tables: "executions d' = executions d" "pairs d' = pairs d" "attempts d' = attempts d" "draws d \<le> draws d'" "users d' = users d"
    "connections d' = connections d"
    using d1 by (auto simp: d' replace_links_def upsert_job_def)
  have inv': "store_inv d'" by (rule store_inv_cong [OF tables(1-4) inv])
  have "parsed_objects (j_objects j) \<noteq> JNull" using row by (auto simp: input_job_def json_objects_def)
  moreover have "names_readable d'" using names by (simp add: names_readable_def tables)
  ultimately obtain pls d2 where plan: "plan_pairs j (job_pairs d' j) d' = Inr (pls, d2)"
    using plan_pairs_ok [of j d' "job_pairs d' j"] by (fastforce simp: job_pairs_def sources)
  note P = plan_pairs_Inr [OF plan]
  have q: "same_queue d' d2" using P by blast
  have prod: "map (\<lambda>((c, ns), (x, r)). (c, x, r)) (job_pairs d' j)
      = map (\<lambda>(c, x). (c, x, required_target d i b x)) (List.product (selected_connections b) (selected_targets b))"
    unfolding job_pairs_def sources destinations by (rule product_pairs)
  have keys: "map (\<lambda>pl. (pp_connection pl, pp_target pl)) pls = List.product (selected_connections b) (selected_targets b)"
  proof -
    have "map (\<lambda>(c, x, r). (c, x)) (map (\<lambda>pl. (pp_connection pl, pp_target pl, pp_required pl)) pls)
        = map (\<lambda>(c, x, r). (c, x)) (map (\<lambda>(c, x). (c, x, required_target d i b x)) (List.product (selected_connections b) (selected_targets b)))"
      using P prod by simp
    then show ?thesis by (simp add: comp_def case_prod_beta)
  qed
  have inv2: "store_inv d2" by (rule same_queue_inv [OF q inv'])
  let ?k = "uuid (draws d2)"
  let ?d = "d2\<lparr>draws := Suc (draws d2), executions := executions d2 @ [new_exec ?k i Manual None t None (Some u) (next_sequence d2)]\<rparr>"
  have "\<exists>d3. insert_pairs ?k pls ?d = Inr d3"
  proof (rule insert_pairs_ok)
    show "is_ok (selection_fingerprint (pp_snapshot pl))" if "pl \<in> set pls" for pl using P that by (auto simp: is_ok_def)
    show "distinct (map (\<lambda>pl. (pp_connection pl, pp_target pl)) pls)" unfolding keys by (simp add: distinct_product)
    show "(p_connection p, p_target p) \<noteq> (pp_connection pl, pp_target pl)" if "p \<in> set (pairs ?d)" "p_execution p = ?k" for p pl
    proof -
      have "p_execution p \<in> e_id ` set (executions d2)" using that(1) inv2 by (simp add: store_inv_def keys_ok_def)
      with that(2) fresh_uuid(1) [OF inv2 order_refl] show ?thesis by simp
    qed
  qed
  then obtain k d3 where ins: "insert_execution t i Manual (Some u) None None pls d2 = Inr (k, d3)"
    by (auto simp: insert_execution_def scheduled_exec_def Let_def)
  have "actor_check d' (Some u) Manual = Inr ()" using admin by (simp add: actor_check_def is_admin_def tables find_user_def)
  then have "enqueue t i Manual (Some u) None d' = Inr (k, d3)" using j plan ins by (simp add: enqueue_def)
  moreover have "map (\<lambda>p. (p_connection p, p_target p, p_required p)) (pairs_of d3 k) = map (\<lambda>pl. (pp_connection pl, pp_target pl, pp_required pl)) pls"
    by (rule insert_execution_new(3) [OF inv2 _ ins]) (simp add: scheduled_exec_def)
  ultimately show ?thesis using P prod by auto
qed

section \<open>The nightly schedule is edited\<close>

text \<open>Only the second connection and the second target stay selected, with two databases; the rest is left out.\<close>

definition edited_body :: job_input where
  "edited_body = \<lparr>ji_id = Some ''job'', ji_name = ''Nightly'', ji_connections = Some [''b'', '' b ''], ji_connection = None,
     ji_targets = Some [''t2''], ji_target = None, ji_scope = None, ji_names = None,
     ji_selections = Some [(''b'', [''crm'', ''shop''])], ji_layout = Some ''table'', ji_objects = None, ji_insert_mode = None,
     ji_cron = ''0 2 * * *'', ji_timezone = None, ji_enabled = None, ji_compression = Some ''gzip'', ji_encryption = None,
     ji_retention = None, ji_retry_count = Some 3, ji_retry_delay = None, ji_overlap = None, ji_prefix = None,
     ji_start_grace = None, ji_max_age = Some 48, ji_long_running = Some 60, ji_requirements = None\<rparr>"

lemma edited_checks:
  "check_job_input sample_db edited_body = Inr ()" "job_thresholds sample_db edited_body = Inr (300, 48, 60)"
  "requirements_ok edited_body" "given (ji_id edited_body) = Some ''job''"
  "selected_connections edited_body = [''b'']" "selected_targets edited_body = [''t2'']" "selected_names edited_body ''b'' = [''crm'', ''shop'']"
  "required_target sample_db ''job'' edited_body ''t2'' = False"
  by code_simp+

lemma edited_next: "next_cron utc_zones (ji_cron edited_body) (or_text (ji_timezone edited_body) ''UTC'') 0 = Inr 7200000"
  using at_two_run by (simp add: edited_body_def or_text_def)

definition edited_objects :: backup_objects where
  "edited_objects = \<lparr>bo_views = False, bo_routines = False, bo_triggers = True, bo_events = False\<rparr>"

lemma edited_objects: "backup_objects_of (input_objects edited_body) (input_layout edited_body) = Inr edited_objects"
  by code_simp

definition edited_db :: db where
  "edited_db = replace_links ''job'' (input_sources ''job'' edited_body) (input_destinations sample_db ''job'' edited_body)
     (upsert_job (input_job sample_db edited_body ''job'' edited_objects 0 7200000 (300, 48, 60)) sample_db)"

lemma edited_listed: "is_ok (list_jobs edited_db)"
  by code_simp

lemma edited_saved: "save_job utc_zones 0 edited_body sample_db = Inr (''job'', edited_db)"
  using edited_listed
  by (simp add: save_job_def edited_checks edited_next edited_objects Let_def edited_db_def [symmetric] is_ok_def split: sum.splits)

theorem saved_schedule_is_read_back_witness:
  "\<exists>j. find_job edited_db ''job'' = Some j \<and> job_sources edited_db j = [(''b'', json_names [''crm'', ''shop''])]
     \<and> job_destinations edited_db j = [(''t2'', False)]"
proof -
  obtain j where "find_job edited_db ''job'' = Some j"
    "job_sources edited_db j = map (\<lambda>c. (c, json_names (selected_names edited_body c))) (selected_connections edited_body)"
    "job_destinations edited_db j = map (\<lambda>t. (t, required_target sample_db ''job'' edited_body t)) (selected_targets edited_body)"
    using saved_schedule_is_read_back [OF edited_saved] by blast
  then show ?thesis by (simp add: edited_checks)
qed

theorem saved_schedule_can_run_witness:
  "\<exists>k d2. enqueue 500 ''job'' Manual (Some ''root'') None edited_db = Inr (k, d2)
     \<and> map (\<lambda>p. (p_connection p, p_target p, p_required p)) (pairs_of d2 k) = [(''b'', ''t2'', False)]"
proof -
  have inv: "store_inv sample_db" by (rule store_inv_cong [of _ empty_db]) (simp_all add: sample_db_def)
  have names: "names_readable sample_db"
    by (simp add: names_readable_def sample_db_def sample_connection_def or_empty_array_def)
  have admin: "is_admin sample_db ''root''" by code_simp
  from saved_schedule_can_run [OF edited_saved inv names admin] show ?thesis by (simp add: edited_checks)
qed

end
