(* ===== verification/Error_Responses.thy ===== *)
theory Error_Responses
  imports Prelude
begin

text \<open>
  The rendering of errors (\<open>src/common/environment-exception.filter.ts\<close>): what a client is told of an exception that a
  handler throws, in production and otherwise.
\<close>

text \<open>An \<open>HttpException\<close> with its status, name, message and response, or any other value with its message.\<close>

datatype thrown = HttpThrown int string string json | OtherThrown string

definition thrown_status :: "thrown \<Rightarrow> int" where
  "thrown_status e = (case e of HttpThrown s n m r \<Rightarrow> s | OtherThrown m \<Rightarrow> 500)"

definition server_error :: "int \<Rightarrow> bool" where
  "server_error s = (500 \<le> s \<and> s \<le> 599)"

definition error_payload :: "int \<Rightarrow> string \<Rightarrow> json \<Rightarrow> json" where
  "error_payload status err msg = JObj [(''statusCode'', JNum status), (''error'', JStr err), (''message'', msg)]"

definition is_object :: "json \<Rightarrow> bool" where
  "is_object r = (case r of JObj _ \<Rightarrow> True | JArr _ \<Rightarrow> True | JNull \<Rightarrow> True | _ \<Rightarrow> False)"

text \<open>The log line of a server error, and the response unless one was sent.\<close>

record error_reply =
  er_logged :: "string option"
  er_response :: "(int \<times> json) option"

definition log_line :: "string \<Rightarrow> string \<Rightarrow> string \<Rightarrow> string \<Rightarrow> string" where
  "log_line request verb url msg = ''['' @ request @ ''] '' @ verb @ '' '' @ url @ '': '' @ msg"

definition thrown_message :: "thrown \<Rightarrow> string" where
  "thrown_message e = (case e of HttpThrown s n m r \<Rightarrow> m | OtherThrown m \<Rightarrow> m)"

definition catch_exception :: "bool \<Rightarrow> bool \<Rightarrow> string \<Rightarrow> string \<Rightarrow> string \<Rightarrow> thrown \<Rightarrow> error_reply" where
  "catch_exception production sent request verb url e =
     (if sent then \<lparr>er_logged = None, er_response = None\<rparr>
      else let status = thrown_status e
           in \<lparr>er_logged = (if server_error status then Some (log_line request verb url (thrown_message e)) else None),
               er_response = Some
                 (if server_error status \<and> production
                  then (status, error_payload status ''Internal Server Error'' (JStr ''Internal server error''))
                  else case e of
                         HttpThrown s n m r \<Rightarrow> (s, if is_object r then r else error_payload s n r)
                       | OtherThrown m \<Rightarrow> (500, error_payload 500 ''Internal Server Error'' (JStr m)))\<rparr>)"

text \<open>In production two server errors of one status are the same to a client, whatever was thrown, and are told apart
  only in the log; an error of the client keeps the response it was thrown with.\<close>

lemma production_hides_server_errors:
  assumes "thrown_status e = thrown_status f" and "server_error (thrown_status e)"
  shows "er_response (catch_exception True sent rq vb url e) = er_response (catch_exception True sent rq vb url f)"
    and "\<not> sent \<Longrightarrow> er_logged (catch_exception production sent rq vb url e) = Some (log_line rq vb url (thrown_message e))"
  using assms by (simp_all add: catch_exception_def Let_def)

lemma client_errors_are_told:
  assumes "\<not> server_error s" and "is_object r"
  shows "er_response (catch_exception production False rq vb url (HttpThrown s n m r)) = Some (s, r)"
    and "er_logged (catch_exception production False rq vb url (HttpThrown s n m r)) = None"
  using assms by (simp_all add: catch_exception_def thrown_status_def Let_def)

end
