(* ===== verification/Spec2Isabelle.thy ===== *)
theory Spec2Isabelle
  imports Witnesses Auth_Props Request_Dtos Cron_Props Pitr_Props Pitr_Sql Schema_Props Database_Service Protection_Props
    System_Witnesses System_Export Api_Witnesses Storage_Witnesses Pitr_Stream Schedule_Store_Props Error_Responses
begin

text \<open>
  VaultBack: a backup server for MySQL and MariaDB (NestJS, TypeScript). This library models its control plane: what
  decides when and where backups run, what is recorded about them, who may do what, and what is promised about
  recovery. Every definition is translated from the TypeScript sources under \<open>src/\<close> of the repository (file names
  below are relative to it).

  The parts and how they interact. \<open>database/\<close> keeps one SQLite database in memory and writes it to a file; a process
  owns the data directory. \<open>auth/\<close> keeps accounts and login sessions. \<open>backup/\<close> keeps connections and schedules; the
  scheduler admits their occurrences into a durable queue of executions, pairs and attempts, and the coordinator
  runs the pairs under limits; the protection service reads the recorded runs and opens incidents.
  \<open>storage/\<close> keeps the targets and their files. \<open>recovery/\<close> proves backups by rehearsals and tests, and reports on
  point-in-time recovery. \<open>system/\<close> holds settings, updates, the notification outbox, the event stream and the audit
  log. The controllers and \<open>main.ts\<close> are the HTTP interface to all of it.

  Shared: \<open>Prelude\<close> (types, HTTP errors as values, rows of tables and the SQL statements over them, JSON columns,
  decimal numbers, fresh identifiers, and the contracts \<open>keyed_table\<close> and \<open>deletable_table\<close> of a table with a primary
  key, which the tables of schedules, targets and recovery plans obey), \<open>Js_Text\<close> and \<open>Json_Text\<close> (JavaScript text functions), \<open>Regex\<close> (JavaScript
  regular expressions by backtracking), \<open>Calendar\<close> (UTC dates), \<open>Control_Db\<close> (the tables as records; \<open>db\<close>).

  Which theory models which source:
  \<^item> \<open>App_Config\<close>: \<open>common/app-config.ts\<close>. \<open>Request_Dtos\<close>: \<open>common/request-dtos.ts\<close>, \<open>system/asset-cache.dto.ts\<close>.
  \<^item> \<open>Sqlite_File\<close>, \<open>Schema\<close>, \<open>Schema_Props\<close>, \<open>Database_Service\<close>: \<open>database/database.service.ts\<close> (the file, the
    migrations, encryption and staged imports). \<open>Data_Owner\<close>: \<open>database/data-owner.ts\<close>.
  \<^item> \<open>Auth\<close>, \<open>Auth_Api\<close>, \<open>Auth_Facts\<close>, \<open>Auth_Props\<close>: \<open>auth/\<close>. A method that waits for bcrypt is two steps.
  \<^item> \<open>Cron\<close>, \<open>Cron_Props\<close>: \<open>backup/backup.utils.ts\<close>.
  \<^item> \<open>Execution_Types\<close>, \<open>Selection\<close>: \<open>backup/execution.types.ts\<close>. \<open>Execution_Store\<close> with \<open>Store_Invariant\<close>,
    \<open>Store_Steps\<close>, \<open>Store_Finish\<close>: \<open>backup/execution.store.ts\<close>. \<open>Source_Groups\<close>, \<open>Admission\<close>, \<open>Coordinator\<close>,
    \<open>Service_Steps\<close>, \<open>Reachability\<close> and their \<open>_Facts\<close> and \<open>_Props\<close>: \<open>backup/execution.service.ts\<close> and
    \<open>backup/backup.scheduler.ts\<close>. \<open>Execution_Api\<close>: \<open>backup/execution.controller.ts\<close>.
  \<^item> \<open>Schedule_Store\<close>, \<open>Connection_Store\<close>, \<open>Artifacts\<close>, \<open>Pitr_Stream\<close>: the parts of \<open>backup/backup.service.ts\<close> that
    save schedules and connections, follow the artifacts and their downloads, and cut replays into statements.
    \<open>Pitr_Text\<close>, \<open>Pitr_Props\<close>, \<open>Pitr_Sql\<close>: \<open>backup/pitr.utils.ts\<close>. \<open>Protection\<close>, \<open>Protection_Props\<close>:
    \<open>backup/protection.service.ts\<close>.
  \<^item> \<open>Storage_Targets\<close>, \<open>Storage_Files\<close>, \<open>Storage_Props\<close>: \<open>storage/storage.service.ts\<close>.
  \<^item> \<open>Recovery\<close>, \<open>Recovery_Policy\<close>, \<open>Recovery_Runs\<close>, \<open>Recovery_Steps\<close>, \<open>Recovery_Props\<close>: \<open>recovery/recovery.service.ts\<close>.
    Its state \<open>vault\<close> holds the queue's \<open>db\<close> and the tables and columns that \<open>db\<close> leaves out.
  \<^item> \<open>System_Settings\<close>, \<open>System_Environment\<close>, \<open>System_Updates\<close>, \<open>System_Export\<close>, \<open>System_Api\<close>: \<open>system/system.service.ts\<close>
    and its controller. \<open>Notification_Outbox\<close>, \<open>Notification_Delivery\<close>, \<open>Outbox_Props\<close>:
    \<open>system/notification-outbox.service.ts\<close>. \<open>Realtime\<close>, \<open>Realtime_Props\<close>: \<open>system/realtime.service.ts\<close>.
    \<open>Asset_Cache\<close>: \<open>system/asset-cache.service.ts\<close>.
  \<^item> \<open>Routes\<close>, \<open>Routes_Props\<close>: the routes of every controller. \<open>Http_Server\<close>, \<open>Http_Props\<close>: \<open>main.ts\<close>.
    \<open>Error_Responses\<close>: \<open>common/environment-exception.filter.ts\<close>.
  \<open>Sample\<close>, \<open>Witnesses\<close> and the theories and chapters named after witnesses or concrete installations hold the
  states on which the properties are applied.

  How the code is rendered. A table is the list of its rows; a statement filters, maps or appends. A transaction is one
  function; a method that awaits is split where it waits, and everything else may happen in between. Exceptions are
  values of \<open>http_error\<close>. State machines (the queue, the writer lock, logins, the outbox, the event stream,
  rehearsals, downloads) are inductive step relations with their reachable states, which include crashes and
  restarts. Times are milliseconds. What the sources call but do not contain is a parameter: ciphers and digests, bcrypt,
  time zones, the URL parser, the answers of remote stores, databases and update servers, and the executor that runs
  a backup. SHA-256 of a selection is an injective constructor.

  What is shown. The queue: the invariant of every reachable state, no overtaking and no idle capacity, bounded work,
  and that execution can always go on; admission covers the schedule, an occurrence is admitted once, and a schedule
  that was saved is the one the queue reads and can be run. Data: transactions commit or leave everything, a crash
  leaves a complete database, one live writer, migrations complete older schemas, an interrupted import is completed.
  Access: the first administrator is permanent, sessions are limited, changing requests are authorised, events reach
  authorised sessions only, bodies have their declared types. Time: the next cron occurrence is the first one.
  Evidence: fresh protection is proved by a verified run of the same selection, incidents follow assessments, a
  recovery point is reported as ready exactly where everything about it is proved, a download that is handed out
  matches its digest. Recovery: restores go to separate servers, one rehearsal per destination, replays are cut at
  statements and rewritten at disjoint ranges, gaps in binary logs are exact. Storage: secrets are kept and hidden,
  rotation keeps the newest, local files stay inside. The lemmas about what the code does not achieve (two recovery
  tests of one plan, a deleted target that breaks the policy report, a host name that does not resolve counting as a
  missing file, a restart under the process identifier that the lock records) are proved as well.

  Bounds. \<open>nextCron\<close> searches at most 2928 days (\<open>search_limit\<close>), as the code does, and the theorem states when the
  result is found. The missed occurrences of a schedule are counted up to 10000, the limit of the code. Recursions that
  are not structural (regular expressions, masks of nested comments, numerals) have termination proofs; the loops over a
  file are over its list of chunks. The limits of the code (8 MiB for a statement, 64 GiB for a download, three
  slots, five attempts, 2000 clients) are constants of the model.

  Not modelled, and why.
  \<^item> The dump, restore and verification workers of \<open>backup/backup.service.ts\<close>: they drive child processes, streams, ZIP
    archives and native database connections; their outcome is the environment of the coordinator, of rehearsals
    and of recovery tests. With them \<open>capturePitr\<close>, \<open>runPitrRehearsal\<close> and the cross-process work claims. Lists
    and statistics that only read (\<open>backupActivity\<close>, \<open>runsPage\<close>, \<open>verificationReport\<close>) are left out too.
  \<^item> The requests of \<open>storage/storage.service.ts\<close> to FTP, WebDAV, Google Drive, OneDrive and S3: headers, uploads and token
    refresh. Their answers are arguments.
  \<^item> \<open>backup/tool-installer.service.ts\<close> and \<open>scripts/\<close> (installation of tools, releases and updates): downloads, archives and
    processes of the operating system.
  \<^item> \<open>public/\<close>: the browser client, which renders what the interface returns.
  \<^item> \<open>system/health.controller.ts\<close> beyond its routes, \<open>common/request-context.service.ts\<close>, the modules and \<open>common/swagger-responses.ts\<close>: wiring and documentation.
\<close>

end
